(* ===== verification/Prelude.thy ===== *)
theory Prelude
  imports Main "HOL-Library.Word" "HOL-Library.Char_ord" "HOL-Library.List_Lexorder"
    "HOL-Library.Multiset"
begin

text \<open>
  Shared vocabulary of the singlecloud development: how Go values, errors and the parts of
  Go's standard library used by the program (package strings, strconv, encoding/json) are
  written in HOL, and the generic lemmas on lists, maps and strings the components share.

  \<^item> A Go error is its message (\<open>goerr\<close>); a pair \<open>(value, error)\<close> is a sum
    \<open>goerr + 'a\<close>, and a function that returns only an error is \<open>goerr option\<close>.
  \<^item> A Go string is a HOL string (a list of bytes).
  \<^item> A time is a number of seconds (\<open>int\<close>).
  \<^item> A stored JSON document is the encoding of a value (\<open>Json v\<close>) or bytes that do not
    decode (\<open>NotJson bytes\<close>).
\<close>

named_theorems result_simps \<open>unfolding of results, transactions and small wrappers\<close>
named_theorems go_string_simps \<open>facts on Go's string functions\<close>

type_synonym goerr = string
type_synonym time = int
type_synonym uint64 = "64 word"

section \<open>Slices\<close>

text \<open>
  The loop \<^verbatim>\<open>for i, x := range xs { if P(x) { xs = append(xs[:i], xs[i+1:]...); break } }\<close>
  removes the first element that satisfies \<open>P\<close>.
\<close>

fun remove_first :: "('a \<Rightarrow> bool) \<Rightarrow> 'a list \<Rightarrow> 'a list" where
  "remove_first P [] = []"
| "remove_first P (x # xs) = (if P x then xs else x # remove_first P xs)"

lemma remove_first_id [simp]: "\<not> list_ex P xs \<Longrightarrow> remove_first P xs = xs"
  by (induction xs) auto

lemma set_remove_first_subset: "set (remove_first P xs) \<subseteq> set xs"
  by (induction xs) auto

lemma length_remove_first:
  "length (remove_first P xs) = (if list_ex P xs then length xs - 1 else length xs)"
proof (induction xs)
  case (Cons x xs)
  then show ?case by (cases xs) auto
qed simp

lemma remove_first_map_key:
  "distinct (map f xs) \<Longrightarrow> remove_first (\<lambda>x. f x = k) xs = filter (\<lambda>x. f x \<noteq> k) xs"
proof (induction xs)
  case (Cons x xs)
  show ?case
  proof (cases "f x = k")
    case True
    with Cons.prems have "\<forall>y \<in> set xs. f y \<noteq> k" by (metis distinct.simps(2) image_eqI list.set_map list.simps(9))
    then have "filter (\<lambda>x. f x \<noteq> k) xs = xs" by (simp add: filter_id_conv)
    with True show ?thesis by simp
  qed (use Cons in auto)
qed simp

lemma distinct_map_filter_key: "distinct (map f xs) \<Longrightarrow> distinct (map f (filter P xs))"
  by (induction xs) auto

lemma distinct_count_list: "distinct xs \<Longrightarrow> count_list xs a = (if a \<in> set xs then 1 else 0)"
  by (induction xs) auto

text \<open>The first element that satisfies \<open>P\<close>, as the search loops of the program return it.\<close>

lemma find_SomeD: "List.find P xs = Some x \<Longrightarrow> x \<in> set xs \<and> P x"
  by (induction xs) (auto split: if_splits)

lemma find_None_all: "List.find P xs = None \<longleftrightarrow> (\<forall>x \<in> set xs. \<not> P x)"
  by (auto simp: find_None_iff)

lemma find_skip: "\<forall>x \<in> set xs. \<not> P x \<Longrightarrow> List.find P (xs @ ys) = List.find P ys"
  by (induction xs) auto

lemma find_key_unique:
  "distinct (map f xs) \<Longrightarrow> x \<in> set xs \<Longrightarrow> List.find (\<lambda>y. f y = f x) xs = Some x"
  by (induction xs) (auto simp: image_iff)

text \<open>Sorting by a key with distinct values has one result, whatever the algorithm.\<close>

lemma sort_key_unique:
  assumes "mset xs = mset ys" "sorted (map f ys)" "distinct (map f ys)"
  shows "sort_key f xs = ys"
proof (rule sort_key_inj_key_eq)
  show "inj_on f (set xs)"
    using assms(1,3) mset_eq_setD [OF assms(1)] by (simp add: distinct_map)
qed (use assms in auto)

lemma list_in_range: "set ys \<subseteq> range f \<Longrightarrow> \<exists>xs. ys = map f xs"
proof (induction ys)
  case (Cons y ys)
  then obtain x xs where "y = f x" "ys = map f xs" by auto
  then have "y # ys = map f (x # xs)" by simp
  then show ?case by (rule exI)
qed simp

text \<open>Two association lists with distinct keys and the same lookups hold the same pairs.\<close>

lemma map_of_eq_mset:
  assumes "map_of xs = map_of ys" "distinct (map fst xs)" "distinct (map fst ys)"
  shows "mset xs = mset ys"
proof -
  have "set xs = set ys"
    using map_of_inject_set [OF assms(2,3)] assms(1) by simp
  then show ?thesis
    using assms(2,3) by (simp add: set_eq_iff_mset_eq_distinct distinct_map)
qed

section \<open>Results\<close>

text \<open>\<open>Done r\<close>: the call returned \<open>r\<close>; \<open>Panicked msg\<close>: it panicked.\<close>

datatype 'r outcome = Done 'r | Panicked string

lemma map_sum_Inr_iff: "map_sum f g r = Inr y \<longleftrightarrow> (\<exists>x. r = Inr x \<and> y = g x)"
  by (cases r) auto

section \<open>Decimal numbers: strconv.FormatUint, strconv.Itoa, strconv.Atoi\<close>

definition digit_char :: "nat \<Rightarrow> char" where
  "digit_char d = char_of (48 + d)"

definition is_digit :: "char \<Rightarrow> bool" where
  "is_digit c \<longleftrightarrow> 48 \<le> (of_char c :: nat) \<and> (of_char c :: nat) \<le> 57"

definition digit_val :: "char \<Rightarrow> nat" where
  "digit_val c = of_char c - 48"

fun formatNat :: "nat \<Rightarrow> string" where
  "formatNat n = (if n < 10 then [digit_char n] else formatNat (n div 10) @ [digit_char (n mod 10)])"

declare formatNat.simps [simp del]

definition decimal_val :: "string \<Rightarrow> nat" where
  "decimal_val s = foldl (\<lambda>n c. 10 * n + digit_val c) 0 s"

definition formatUint :: "uint64 \<Rightarrow> string" where
  "formatUint w = formatNat (unat w)"

definition itoa :: "int \<Rightarrow> string" where
  "itoa i = (if i < 0 then CHR ''-'' # formatNat (nat (- i)) else formatNat (nat i))"

text \<open>
  \<open>strconv.Atoi\<close> accepts an optional sign and at least one digit; a value outside the
  64-bit range is an error.
\<close>

definition atoi_digits :: "string \<Rightarrow> nat option" where
  "atoi_digits s = (if s \<noteq> [] \<and> list_all is_digit s then Some (decimal_val s) else None)"

definition atoi :: "string \<Rightarrow> int option" where
  "atoi s =
     (case s of
        [] \<Rightarrow> None
      | c # cs \<Rightarrow>
          if c = CHR ''-'' then
            (case atoi_digits cs of
               Some n \<Rightarrow> if n \<le> 2 ^ 63 then Some (- int n) else None
             | None \<Rightarrow> None)
          else
            (case atoi_digits (if c = CHR ''+'' then cs else s) of
               Some n \<Rightarrow> if n < 2 ^ 63 then Some (int n) else None
             | None \<Rightarrow> None))"

lemma of_char_digit_char [simp]: "d < 10 \<Longrightarrow> of_char (digit_char d) = (48 + d :: nat)"
  by (simp add: digit_char_def)

lemma digit_val_digit_char [simp]: "d < 10 \<Longrightarrow> digit_val (digit_char d) = d"
  by (simp add: digit_val_def)

lemma is_digit_digit_char [simp]: "d < 10 \<Longrightarrow> is_digit (digit_char d)"
  by (simp add: is_digit_def)

lemma formatNat_nonempty [simp]: "formatNat n \<noteq> []"
  by (subst formatNat.simps) simp

lemma formatNat_digits: "list_all is_digit (formatNat n)"
proof (induction n rule: formatNat.induct)
  case (1 n)
  then show ?case by (cases "n < 10") (simp_all add: formatNat.simps [of n])
qed

lemma decimal_val_snoc: "decimal_val (s @ [c]) = 10 * decimal_val s + digit_val c"
  by (simp add: decimal_val_def)

lemma decimal_val_formatNat [simp]: "decimal_val (formatNat n) = n"
proof (induction n rule: formatNat.induct)
  case (1 n)
  show ?case
  proof (cases "n < 10")
    case True
    then show ?thesis by (simp add: formatNat.simps [of n] decimal_val_def)
  next
    case False
    with 1 have "decimal_val (formatNat (n div 10)) = n div 10" by simp
    with False show ?thesis
      by (simp add: formatNat.simps [of n] decimal_val_snoc)
  qed
qed

lemma formatNat_inject [simp]: "formatNat m = formatNat n \<longleftrightarrow> m = n"
  by (metis decimal_val_formatNat)

lemma formatUint_inject [simp]: "formatUint a = formatUint b \<longleftrightarrow> a = b"
  by (simp add: formatUint_def word_unat_eq_iff)

lemma formatNat_hd_digit: "is_digit (hd (formatNat n))"
  using formatNat_digits [of n] by (cases "formatNat n") simp_all

lemma atoi_formatNat: "n < 2 ^ 63 \<Longrightarrow> atoi (formatNat n) = Some (int n)"
proof -
  assume n: "n < 2 ^ 63"
  obtain c cs where s: "formatNat n = c # cs"
    by (cases "formatNat n") simp_all
  have "is_digit c" using formatNat_hd_digit [of n] s by simp
  then have "c \<noteq> CHR ''-''" "c \<noteq> CHR ''+''" by (auto simp: is_digit_def)
  moreover have "atoi_digits (formatNat n) = Some n"
    by (simp add: atoi_digits_def formatNat_digits)
  ultimately show ?thesis using n s by (simp add: atoi_def)
qed

lemma atoi_itoa: "- (2 ^ 63) \<le> i \<Longrightarrow> i < 2 ^ 63 \<Longrightarrow> atoi (itoa i) = Some i"
proof (cases "i < 0")
  case True
  assume "- (2 ^ 63) \<le> i"
  then have "nat (- i) \<le> 2 ^ 63" by simp
  with True show ?thesis
    by (simp add: itoa_def atoi_def atoi_digits_def formatNat_digits)
next
  case False
  assume "i < 2 ^ 63"
  with False have "nat i < 2 ^ 63" by simp
  then have "atoi (formatNat (nat i)) = Some (int (nat i))" by (rule atoi_formatNat)
  with False show ?thesis by (simp add: itoa_def)
qed

section \<open>Package strings\<close>

definition hasPrefix :: "string \<Rightarrow> string \<Rightarrow> bool" where
  "hasPrefix s p \<longleftrightarrow> take (length p) s = p"

definition hasSuffix :: "string \<Rightarrow> string \<Rightarrow> bool" where
  "hasSuffix s p \<longleftrightarrow> hasPrefix (rev s) (rev p)"

definition trimSuffix :: "string \<Rightarrow> string \<Rightarrow> string" where
  "trimSuffix s p = (if hasSuffix s p then take (length s - length p) s else s)"

text \<open>\<open>strings.Split(s, sep)\<close> for a non-empty separator.\<close>

function split_acc :: "string \<Rightarrow> string \<Rightarrow> string \<Rightarrow> string list" where
  "split_acc sep acc s =
     (case s of
        [] \<Rightarrow> [rev acc]
      | c # cs \<Rightarrow>
          if sep \<noteq> [] \<and> hasPrefix s sep
          then rev acc # split_acc sep [] (drop (length sep) s)
          else split_acc sep (c # acc) cs)"
  by pat_completeness auto
termination
  by (relation "measure (\<lambda>(sep, acc, s). length s)") auto

declare split_acc.simps [simp del]

definition split :: "string \<Rightarrow> string \<Rightarrow> string list" where
  "split s sep = split_acc sep [] s"

lemma split_acc_char [go_string_simps]:
  "split_acc [c] acc [] = [rev acc]"
  "split_acc [c] acc (x # s) = (if x = c then rev acc # split_acc [c] [] s else split_acc [c] (x # acc) s)"
  by (simp_all add: split_acc.simps [of "[c]"] hasPrefix_def)

lemma split_acc_no: "c \<notin> set s \<Longrightarrow> split_acc [c] acc s = [rev acc @ s]"
  by (induction s arbitrary: acc) (auto simp: go_string_simps)

lemma split_acc_sep:
  "c \<notin> set s \<Longrightarrow> split_acc [c] acc (s @ c # t) = (rev acc @ s) # split_acc [c] [] t"
  by (induction s arbitrary: acc) (auto simp: go_string_simps)

lemma split_one: "c \<notin> set s \<Longrightarrow> c \<notin> set t \<Longrightarrow> split (s @ c # t) [c] = [s, t]"
  by (simp add: split_def split_acc_sep split_acc_no)

text \<open>
  \<open>strings.TrimSpace\<close> cuts the code points with the Unicode property White\_Space from both
  ends; these are their UTF-8 encodings.
\<close>

definition space_seqs :: "string list" where
  "space_seqs =
     [[CHR 0x09], [CHR 0x0A], [CHR 0x0B], [CHR 0x0C], [CHR 0x0D], [CHR 0x20],
      [CHR 0xC2, CHR 0x85], [CHR 0xC2, CHR 0xA0], [CHR 0xE1, CHR 0x9A, CHR 0x80]]
     @ map (\<lambda>b. [CHR 0xE2, CHR 0x80, b])
         [CHR 0x80, CHR 0x81, CHR 0x82, CHR 0x83, CHR 0x84, CHR 0x85, CHR 0x86, CHR 0x87,
          CHR 0x88, CHR 0x89, CHR 0x8A, CHR 0xA8, CHR 0xA9, CHR 0xAF]
     @ [[CHR 0xE2, CHR 0x81, CHR 0x9F], [CHR 0xE3, CHR 0x80, CHR 0x80]]"

function trim_left :: "string list \<Rightarrow> string \<Rightarrow> string" where
  "trim_left seqs s =
     (case List.find (\<lambda>p. p \<noteq> [] \<and> hasPrefix s p) seqs of
        Some p \<Rightarrow> trim_left seqs (drop (length p) s)
      | None \<Rightarrow> s)"
  by pat_completeness auto
termination
proof (relation "measure (\<lambda>(seqs, s). length s)", goal_cases)
  case (2 seqs s p)
  then have "p \<noteq> []" "hasPrefix s p" by (auto dest: find_SomeD)
  then have "s \<noteq> []" by (auto simp: hasPrefix_def)
  with \<open>p \<noteq> []\<close> show ?case by (cases p; cases s) auto
qed simp

declare trim_left.simps [simp del]

definition trimSpace :: "string \<Rightarrow> string" where
  "trimSpace s =
     rev (trim_left (map rev space_seqs) (rev (trim_left space_seqs s)))"

lemma trim_left_no_prefix: "List.find (\<lambda>p. p \<noteq> [] \<and> hasPrefix (trim_left seqs s) p) seqs = None"
proof (induction seqs s rule: trim_left.induct)
  case (1 seqs s)
  then show ?case
    by (cases "List.find (\<lambda>p. p \<noteq> [] \<and> hasPrefix s p) seqs")
      (simp_all add: trim_left.simps [of seqs s])
qed

lemma trim_left_idem: "trim_left seqs (trim_left seqs s) = trim_left seqs s"
  by (simp add: trim_left.simps [of seqs "trim_left seqs s"] trim_left_no_prefix)

text \<open>Printable ASCII text without blanks is left alone.\<close>

definition plain :: "string \<Rightarrow> bool" where
  "plain s \<longleftrightarrow> list_all (\<lambda>c. 0x21 \<le> (of_char c :: nat) \<and> (of_char c :: nat) < 0x80) s"

lemma plain_simps [simp]:
  "plain []" "plain (c # s) \<longleftrightarrow> 0x21 \<le> (of_char c :: nat) \<and> (of_char c :: nat) < 0x80 \<and> plain s"
  "plain (s @ t) \<longleftrightarrow> plain s \<and> plain t"
  by (auto simp: plain_def)

lemma plain_formatNat [simp]: "plain (formatNat n)"
  using formatNat_digits [of n] by (auto simp: plain_def list_all_iff is_digit_def)

lemma trim_left_plain:
  assumes "list_all (\<lambda>p. p = [] \<or> \<not> plain [hd p]) seqs" "plain s"
  shows "trim_left seqs s = s"
proof -
  have "List.find (\<lambda>p. p \<noteq> [] \<and> hasPrefix s p) seqs = None"
    unfolding find_None_all
  proof
    fix p
    assume p: "p \<in> set seqs"
    show "\<not> (p \<noteq> [] \<and> hasPrefix s p)"
    proof
      assume q: "p \<noteq> [] \<and> hasPrefix s p"
      then obtain c p' s' where "p = c # p'" "s = c # s'" by (cases p; cases s) (auto simp: hasPrefix_def)
      with p assms show False by (auto simp: list_all_iff)
    qed
  qed
  then show ?thesis by (simp add: trim_left.simps [of seqs s])
qed

lemma trimSpace_plain: "plain s \<Longrightarrow> trimSpace s = s"
proof -
  assume s: "plain s"
  have "list_all (\<lambda>p. p = [] \<or> \<not> plain [hd p]) space_seqs"
    "list_all (\<lambda>p. p = [] \<or> \<not> plain [hd p]) (map rev space_seqs)"
    by (simp_all add: space_seqs_def)
  moreover have "plain (rev s)" using s by (simp add: plain_def list_all_rev)
  ultimately show ?thesis using s by (simp add: trimSpace_def trim_left_plain)
qed

section \<open>Stored JSON documents\<close>

datatype 'a json = Json 'a | NotJson string

fun json_unmarshal :: "'a json \<Rightarrow> goerr + 'a" where
  "json_unmarshal (Json v) = Inr v"
| "json_unmarshal (NotJson s) = Inl (''invalid character in '' @ s)"

definition json_marshal :: "'a \<Rightarrow> 'a json" where
  "json_marshal v = Json v"

text \<open>The loops that decode every value of a table stop at the first value that does not.\<close>

fun unmarshal_all :: "'a json list \<Rightarrow> goerr + 'a list" where
  "unmarshal_all [] = Inr []"
| "unmarshal_all (v # vs) =
     (case json_unmarshal v of
        Inl e \<Rightarrow> Inl e
      | Inr x \<Rightarrow> (case unmarshal_all vs of Inl e \<Rightarrow> Inl e | Inr xs \<Rightarrow> Inr (x # xs)))"

lemma unmarshal_all_Json [simp]: "unmarshal_all (map Json xs) = Inr xs"
  by (induction xs) simp_all

lemma unmarshal_all_Inr: "unmarshal_all vs = Inr xs \<Longrightarrow> vs = map Json xs"
proof (induction vs arbitrary: xs)
  case (Cons v vs)
  then show ?case by (cases v) (auto split: sum.splits)
qed simp

lemma json_roundtrip [simp]: "json_unmarshal (json_marshal v) = Inr v"
  by (simp add: json_marshal_def)

section \<open>API errors\<close>

text \<open>
  The error codes of \<^verbatim>\<open>gorest/error\<close> the program uses, and its own two
  (\<^verbatim>\<open>pkg/types/error.go\<close>).
\<close>

datatype err_code =
    DuplicateResource | NotFound | InvalidOption | ServerError | PermissionDenied | Unauthorized
  | InvalidFormat | NotNullable | InvalidAction | InvalidBodyContent
  | InvalidClusterConfig | ConnectClusterFailed

datatype api_error = APIError (err_code: err_code) (err_msg: string)

text \<open>The name of the administrator (\<^verbatim>\<open>pkg/types/user.go\<close>).\<close>

abbreviation Administrator :: string where
  "Administrator \<equiv> ''admin''"

end
