(* ===== verification/Kvzoo.thy ===== *)
theory Kvzoo
  imports Prelude "HOL-Library.AList"
begin

text \<open>
  The key-value store. \<^verbatim>\<open>github.com/zdnscloud/kvzoo\<close> is not part of the repository, so a
  table is a parameter of the model: a record of its operations over an unknown database state
  \<open>'d\<close> and transaction state \<open>'tx\<close>. What the program relies on is stated by two locales:
  \<open>kv_laws\<close> (what a successful operation means, and that a transaction that is not committed
  leaves no trace) and \<open>kv_live\<close> (no operation fails without a reason). The client lemmas are
  proved once inside them. The last section gives an in-memory table and shows that it
  satisfies both.
\<close>

record ('d, 'tx, 'v) kvzoo =
  kvBegin :: "'d \<Rightarrow> goerr + 'tx"
  kvGet :: "'tx \<Rightarrow> string \<Rightarrow> goerr + 'v option"
  kvAdd :: "'tx \<Rightarrow> string \<Rightarrow> 'v \<Rightarrow> goerr + 'tx"
  kvUpdate :: "'tx \<Rightarrow> string \<Rightarrow> 'v \<Rightarrow> goerr + 'tx"
  kvDelete :: "'tx \<Rightarrow> string \<Rightarrow> goerr + 'tx"
  kvList :: "'tx \<Rightarrow> goerr + (string \<times> 'v) list"
  kvCommit :: "'tx \<Rightarrow> goerr + 'd"
  kvRollback :: "'tx \<Rightarrow> 'd"

text \<open>
  The shape every writing helper of the program has:
  \<^verbatim>\<open>tx, err := table.Begin(); ...; defer tx.Rollback(); <operations>; return tx.Commit()\<close>.
  The wrappers \<open>wb\<close> and \<open>wc\<close> are the texts the helper puts around the errors of
  \<^verbatim>\<open>Begin\<close> and \<^verbatim>\<open>Commit\<close>.
\<close>

definition kv_write ::
  "('d, 'tx, 'v) kvzoo \<Rightarrow> (goerr \<Rightarrow> goerr) \<Rightarrow> (goerr \<Rightarrow> goerr) \<Rightarrow> ('tx \<Rightarrow> goerr + 'tx) \<Rightarrow> 'd \<Rightarrow> 'd \<times> goerr option"
where
  "kv_write T wb wc f d =
     (case kvBegin T d of
        Inl e \<Rightarrow> (d, Some (wb e))
      | Inr tx \<Rightarrow>
          (case f tx of
             Inl e \<Rightarrow> (kvRollback T tx, Some e)
           | Inr tx' \<Rightarrow>
               (case kvCommit T tx' of
                  Inl e \<Rightarrow> (kvRollback T tx', Some (wc e))
                | Inr d' \<Rightarrow> (d', None))))"

text \<open>A reading helper begins a transaction, reads, and commits or rolls back unchanged.\<close>

definition kv_read ::
  "('d, 'tx, 'v) kvzoo \<Rightarrow> (goerr \<Rightarrow> goerr) \<Rightarrow> ('tx \<Rightarrow> goerr + 'a) \<Rightarrow> 'd \<Rightarrow> goerr + 'a"
where
  "kv_read T wb f d = (case kvBegin T d of Inl e \<Rightarrow> Inl (wb e) | Inr tx \<Rightarrow> f tx)"

fun map_err :: "(goerr \<Rightarrow> goerr) \<Rightarrow> goerr + 'a \<Rightarrow> goerr + 'a" where
  "map_err w (Inl e) = Inl (w e)"
| "map_err w (Inr x) = Inr x"

lemma map_err_Inr_iff [simp]: "map_err w r = Inr x \<longleftrightarrow> r = Inr x"
  by (cases r) simp_all

section \<open>Laws of a table\<close>

locale kv_laws =
  fixes T :: "('d, 'tx, 'v) kvzoo"
    and view :: "'d \<Rightarrow> string \<rightharpoonup> 'v"
    and txview :: "'tx \<Rightarrow> string \<rightharpoonup> 'v"
  assumes begin_view: "kvBegin T d = Inr tx \<Longrightarrow> txview tx = view d"
    and begin_rollback: "kvBegin T d = Inr tx \<Longrightarrow> view (kvRollback T tx) = view d"
    and get_view: "kvGet T tx k = Inr r \<Longrightarrow> r = txview tx k"
    and add_view: "kvAdd T tx k v = Inr tx' \<Longrightarrow>
      txview tx k = None \<and> txview tx' = (txview tx)(k \<mapsto> v)
      \<and> view (kvRollback T tx') = view (kvRollback T tx)"
    and update_view: "kvUpdate T tx k v = Inr tx' \<Longrightarrow>
      txview tx k \<noteq> None \<and> txview tx' = (txview tx)(k \<mapsto> v)
      \<and> view (kvRollback T tx') = view (kvRollback T tx)"
    and delete_view: "kvDelete T tx k = Inr tx' \<Longrightarrow>
      txview tx' = (txview tx)(k := None)
      \<and> view (kvRollback T tx') = view (kvRollback T tx)"
    and list_view: "kvList T tx = Inr kvs \<Longrightarrow> map_of kvs = txview tx \<and> distinct (map fst kvs)"
    and commit_view: "kvCommit T tx = Inr d \<Longrightarrow> view d = txview tx"
begin

text \<open>
  A write either reports success and leaves the contents its operations produced, or reports
  an error and leaves the contents it found.
\<close>

lemma begin_both: "kvBegin T d = Inr tx \<Longrightarrow> txview tx = view d \<and> view (kvRollback T tx) = view d"
  by (simp add: begin_view begin_rollback)

lemma write_cases:
  assumes "kv_write T wb wc f d = (d', r)"
    and "\<And>tx tx'. txview tx = view d \<Longrightarrow> f tx = Inr tx' \<Longrightarrow>
           Q (txview tx') \<and> view (kvRollback T tx') = view (kvRollback T tx)"
  shows "(r = None \<and> Q (view d')) \<or> (r \<noteq> None \<and> view d' = view d)"
  using assms
  by (auto simp: kv_write_def commit_view dest!: begin_both split: sum.splits)

lemma write_add:
  assumes "kv_write T wb wc (\<lambda>tx. map_err w (kvAdd T tx k v)) d = (d', r)"
  shows "(r = None \<and> view d k = None \<and> view d' = (view d)(k \<mapsto> v))
       \<or> (r \<noteq> None \<and> view d' = view d)"
proof -
  let ?Q = "\<lambda>m. view d k = None \<and> m = (view d)(k \<mapsto> v)"
  have "(r = None \<and> ?Q (view d')) \<or> (r \<noteq> None \<and> view d' = view d)"
    by (rule write_cases [OF assms, where Q = ?Q]) (auto dest: add_view)
  then show ?thesis by simp
qed

lemma write_update:
  assumes "kv_write T wb wc (\<lambda>tx. map_err w (kvUpdate T tx k v)) d = (d', r)"
  shows "(r = None \<and> view d k \<noteq> None \<and> view d' = (view d)(k \<mapsto> v))
       \<or> (r \<noteq> None \<and> view d' = view d)"
proof -
  let ?Q = "\<lambda>m. view d k \<noteq> None \<and> m = (view d)(k \<mapsto> v)"
  have "(r = None \<and> ?Q (view d')) \<or> (r \<noteq> None \<and> view d' = view d)"
    by (rule write_cases [OF assms, where Q = ?Q]) (auto dest: update_view)
  then show ?thesis by simp
qed

lemma write_delete:
  assumes "kv_write T wb wc (\<lambda>tx. map_err w (kvDelete T tx k)) d = (d', r)"
  shows "(r = None \<and> view d' = (view d)(k := None)) \<or> (r \<noteq> None \<and> view d' = view d)"
proof -
  let ?Q = "\<lambda>m. m = (view d)(k := None)"
  have "(r = None \<and> ?Q (view d')) \<or> (r \<noteq> None \<and> view d' = view d)"
    by (rule write_cases [OF assms, where Q = ?Q]) (auto dest: delete_view)
  then show ?thesis by simp
qed

lemma read_list:
  "kv_read T wb (\<lambda>tx. map_err w (kvList T tx)) d = Inr kvs \<Longrightarrow>
   map_of kvs = view d \<and> distinct (map fst kvs)"
  by (auto simp: kv_read_def begin_view dest: list_view split: sum.splits)

lemma read_get:
  "kv_read T wb (\<lambda>tx. map_err w (kvGet T tx k)) d = Inr r \<Longrightarrow> r = view d k"
  by (auto simp: kv_read_def begin_view dest: get_view split: sum.splits)

end

section \<open>A table whose operations succeed\<close>

locale kv_live = kv_laws +
  assumes begin_ok: "\<exists>tx. kvBegin T d = Inr tx"
    and get_ok: "\<exists>r. kvGet T tx k = Inr r"
    and add_ok: "txview tx k = None \<Longrightarrow> \<exists>tx'. kvAdd T tx k v = Inr tx'"
    and update_ok: "txview tx k \<noteq> None \<Longrightarrow> \<exists>tx'. kvUpdate T tx k v = Inr tx'"
    and delete_ok: "\<exists>tx'. kvDelete T tx k = Inr tx'"
    and list_ok: "\<exists>kvs. kvList T tx = Inr kvs"
    and commit_ok: "\<exists>d. kvCommit T tx = Inr d"
begin

lemma write_live:
  assumes "\<And>tx. txview tx = view d \<Longrightarrow> \<exists>tx'. f tx = Inr tx'"
  shows "\<exists>d'. kv_write T wb wc f d = (d', None)"
proof -
  obtain tx where tx: "kvBegin T d = Inr tx" using begin_ok by blast
  then have "txview tx = view d" by (rule begin_view)
  then obtain tx' where tx': "f tx = Inr tx'" using assms by blast
  obtain d' where "kvCommit T tx' = Inr d'" using commit_ok by blast
  with tx tx' show ?thesis by (simp add: kv_write_def)
qed

lemma write_add_live:
  assumes "view d k = None"
  shows "\<exists>d'. kv_write T wb wc (\<lambda>tx. map_err w (kvAdd T tx k v)) d = (d', None)
            \<and> view d' = (view d)(k \<mapsto> v)"
proof -
  have "\<exists>d'. kv_write T wb wc (\<lambda>tx. map_err w (kvAdd T tx k v)) d = (d', None)"
    by (rule write_live) (use add_ok assms in auto)
  then show ?thesis using write_add by blast
qed

lemma write_update_live:
  assumes "view d k \<noteq> None"
  shows "\<exists>d'. kv_write T wb wc (\<lambda>tx. map_err w (kvUpdate T tx k v)) d = (d', None)
            \<and> view d' = (view d)(k \<mapsto> v)"
proof -
  have "\<exists>d'. kv_write T wb wc (\<lambda>tx. map_err w (kvUpdate T tx k v)) d = (d', None)"
    by (rule write_live) (use update_ok assms in auto)
  then show ?thesis using write_update by blast
qed

lemma write_delete_live:
  "\<exists>d'. kv_write T wb wc (\<lambda>tx. map_err w (kvDelete T tx k)) d = (d', None)
      \<and> view d' = (view d)(k := None)"
proof -
  have "\<exists>d'. kv_write T wb wc (\<lambda>tx. map_err w (kvDelete T tx k)) d = (d', None)"
    by (rule write_live) (use delete_ok in auto)
  then show ?thesis using write_delete by blast
qed

lemma read_list_live:
  "\<exists>kvs. kv_read T wb (\<lambda>tx. map_err w (kvList T tx)) d = Inr kvs"
proof -
  obtain tx where tx: "kvBegin T d = Inr tx" using begin_ok by blast
  obtain kvs where "kvList T tx = Inr kvs" using list_ok by blast
  with tx show ?thesis by (simp add: kv_read_def)
qed

lemma read_get_live:
  "kv_read T wb (\<lambda>tx. map_err w (kvGet T tx k)) d = Inr (view d k)"
proof -
  obtain tx where tx: "kvBegin T d = Inr tx" using begin_ok by blast
  obtain r where r: "kvGet T tx k = Inr r" using get_ok by blast
  from tx r have "kv_read T wb (\<lambda>tx. map_err w (kvGet T tx k)) d = Inr r"
    by (simp add: kv_read_def)
  then show ?thesis using read_get by blast
qed

end

section \<open>An in-memory table\<close>

text \<open>The database is an association list; a transaction keeps the list it started from.\<close>

type_synonym 'v mem_db = "(string \<times> 'v) list"

definition mem_table :: "('v mem_db, 'v mem_db \<times> 'v mem_db, 'v) kvzoo" where
  "mem_table =
     \<lparr> kvBegin = (\<lambda>d. Inr (d, d)),
       kvGet = (\<lambda>(d, t) k. Inr (map_of t k)),
       kvAdd = (\<lambda>(d, t) k v.
          if map_of t k = None then Inr (d, t @ [(k, v)]) else Inl ''duplicate key''),
       kvUpdate = (\<lambda>(d, t) k v.
          if map_of t k = None then Inl ''key not found'' else Inr (d, AList.update k v t)),
       kvDelete = (\<lambda>(d, t) k. Inr (d, AList.delete k t)),
       kvList = (\<lambda>(d, t). Inr (AList.clearjunk t)),
       kvCommit = (\<lambda>(d, t). Inr t),
       kvRollback = (\<lambda>(d, t). d) \<rparr>"

lemma mem_table_simps [simp]:
  "kvBegin mem_table d = Inr (d, d)"
  "kvGet mem_table (d, t) k = Inr (map_of t k)"
  "kvAdd mem_table (d, t) k v =
     (if map_of t k = None then Inr (d, t @ [(k, v)]) else Inl ''duplicate key'')"
  "kvUpdate mem_table (d, t) k v =
     (if map_of t k = None then Inl ''key not found'' else Inr (d, AList.update k v t))"
  "kvDelete mem_table (d, t) k = Inr (d, AList.delete k t)"
  "kvList mem_table (d, t) = Inr (AList.clearjunk t)"
  "kvCommit mem_table (d, t) = Inr t"
  "kvRollback mem_table (d, t) = d"
  by (simp_all add: mem_table_def)

lemma singleton_map_add: "m k = None \<Longrightarrow> [k \<mapsto> v] ++ m = m(k \<mapsto> v)"
  by (rule ext) (auto simp: map_add_def split: option.splits)

interpretation mem: kv_live mem_table map_of "\<lambda>(d, t). map_of t"
proof (unfold_locales, goal_cases)
  case (4 tx k v tx')
  then show ?case by (cases tx) (auto simp: singleton_map_add split: if_splits)
next
  case (5 tx k v tx')
  then show ?case by (cases tx) (auto simp: AList.update_conv' split: if_splits)
qed (auto simp: AList.delete_conv' AList.distinct_clearjunk AList.map_of_clearjunk)

text \<open>A table on a full disk: every commit fails. It satisfies the laws but is not live.\<close>

definition full_table :: "('v mem_db, 'v mem_db \<times> 'v mem_db, 'v) kvzoo" where
  "full_table = mem_table\<lparr>kvCommit := (\<lambda>tx. Inl ''disk full'')\<rparr>"

interpretation full: kv_laws full_table map_of "\<lambda>(d, t). map_of t"
  using mem.kv_laws_axioms by (simp add: kv_laws_def full_table_def)

end
