(* ===== verification/AuditLog.thy ===== *)
theory AuditLog
  imports Kvzoo
begin

text \<open>
  The audit log: the storage driver (\<^verbatim>\<open>pkg/auditlog/storage/storage.go\<close>), which keeps the
  newest \<open>maxRecordCount\<close> records of a table under consecutive numbers, and the logger above
  it (\<^verbatim>\<open>pkg/auditlog/auditlog.go\<close>), which turns requests into records and lists them per
  user. The table is a parameter (see theory Kvzoo).
\<close>

section \<open>Data\<close>

record audit_log =
  al_ID :: string
  al_CreationTimestamp :: time
  al_UID :: uint64
  al_User :: string
  al_SourceAddress :: string
  al_Operation :: string
  al_ResourceKind :: string
  al_ResourcePath :: string
  al_Detail :: string

record default_driver =
  maxRecordCount :: int
  firstID :: uint64
  currentID :: uint64

type_synonym ('d, 'tx) audit_table = "('d, 'tx, audit_log json) kvzoo"

section \<open>The storage driver\<close>

definition audit_listFromDB :: "('d, 'tx) audit_table \<Rightarrow> 'd \<Rightarrow> goerr + audit_log list" where
  "audit_listFromDB T d =
     (case kv_read T id (\<lambda>tx. map_err id (kvList T tx)) d of
        Inl e \<Rightarrow> Inl e
      | Inr values \<Rightarrow> unmarshal_all (map snd values))"

definition audit_addToDB :: "('d, 'tx) audit_table \<Rightarrow> audit_log \<Rightarrow> 'd \<Rightarrow> 'd \<times> goerr option" where
  "audit_addToDB T log =
     kv_write T (\<lambda>e. ''begin transaction failed: '' @ e) id
       (\<lambda>tx. map_err id (kvAdd T tx (al_ID log) (json_marshal log)))"

definition audit_deleteFromDB :: "('d, 'tx) audit_table \<Rightarrow> string \<Rightarrow> 'd \<Rightarrow> 'd \<times> goerr option" where
  "audit_deleteFromDB T k = kv_write T id id (\<lambda>tx. map_err id (kvDelete T tx k))"

definition audit_initDB ::
  "('d, 'tx) audit_table \<Rightarrow> 'd \<Rightarrow> default_driver \<Rightarrow> default_driver \<times> goerr option" where
  "audit_initDB T d drv =
     (case audit_listFromDB T d of
        Inl e \<Rightarrow> (drv, Some e)
      | Inr logs \<Rightarrow>
          if length logs = 0 then (drv, None)
          else
            (let logs' = sort_key al_UID logs
             in (drv\<lparr>firstID := al_UID (logs' ! 0), currentID := al_UID (logs' ! (length logs - 1))\<rparr>, None)))"

definition audit_NewDefaultDriver ::
  "('d, 'tx) audit_table \<Rightarrow> int \<Rightarrow> 'd \<Rightarrow> default_driver \<times> goerr option" where
  "audit_NewDefaultDriver T n d =
     audit_initDB T d \<lparr>maxRecordCount = n, firstID = 0, currentID = 0\<rparr>"

definition stamp :: "uint64 \<Rightarrow> audit_log \<Rightarrow> audit_log" where
  "stamp u a = a\<lparr>al_UID := u, al_ID := formatUint u\<rparr>"

definition audit_Add ::
  "('d, 'tx) audit_table \<Rightarrow> audit_log \<Rightarrow> default_driver \<times> 'd \<Rightarrow> (default_driver \<times> 'd) \<times> goerr option"
where
  "audit_Add T a s =
     (let (drv, d) = s;
          add = (\<lambda>(drv, d).
            (case audit_addToDB T (stamp (currentID drv + 1) a) d of
               (d', Some e) \<Rightarrow> ((drv, d'), Some e)
             | (d', None) \<Rightarrow> ((drv\<lparr>currentID := currentID drv + 1\<rparr>, d'), None)))
      in if currentID drv - firstID drv > word_of_int (maxRecordCount drv - 2)
         then (case audit_deleteFromDB T (formatUint (firstID drv)) d of
                 (d', Some e) \<Rightarrow> ((drv, d'), Some e)
               | (d', None) \<Rightarrow> add (drv\<lparr>firstID := firstID drv + 1\<rparr>, d'))
         else add (drv, d))"

section \<open>The logger\<close>


definition audit_List :: "('d, 'tx) audit_table \<Rightarrow> string \<Rightarrow> 'd \<Rightarrow> goerr + audit_log list" where
  "audit_List T user d =
     (case audit_listFromDB T d of
        Inl e \<Rightarrow> Inl e
      | Inr logs \<Rightarrow>
          (let logs' = rev (sort_key al_UID logs)
           in if user = Administrator then Inr logs'
              else Inr (filter (\<lambda>log. al_User log = user) logs')))"

text \<open>
  The part of a request the audit handler reads. \<open>req_user\<close> is the user the authentication
  middleware put into the request's context; the details are the JSON encodings of the resource
  and of the action's input.
\<close>

record audit_action =
  act_name :: string
  act_input :: "goerr + string"

record audit_request =
  req_method :: string
  req_user :: "string option"
  req_remoteAddr :: string
  req_kind :: string
  req_path :: string
  req_resource :: "goerr + string"
  req_action :: "audit_action option"

definition audit_getCurrentUser :: "audit_request \<Rightarrow> string" where
  "audit_getCurrentUser ctx = (case req_user ctx of None \<Rightarrow> '''' | Some u \<Rightarrow> u)"

definition method_operation :: "string \<Rightarrow> string option" where
  "method_operation m =
     (if m = ''POST'' then Some ''create''
      else if m = ''PUT'' then Some ''update''
      else if m = ''DELETE'' then Some ''delete''
      else None)"

definition AuditHandler ::
  "('d, 'tx) audit_table \<Rightarrow> time \<Rightarrow> audit_request \<Rightarrow> default_driver \<times> 'd \<Rightarrow>
   (default_driver \<times> 'd) \<times> api_error option" where
  "AuditHandler T now ctx s =
     (let log0 = \<lparr>al_ID = '''', al_CreationTimestamp = 0, al_UID = 0,
                  al_User = audit_getCurrentUser ctx, al_SourceAddress = req_remoteAddr ctx,
                  al_Operation = '''', al_ResourceKind = req_kind ctx,
                  al_ResourcePath = req_path ctx, al_Detail = ''''\<rparr>;
          record_log = (\<lambda>op detail.
            (if op = ''delete'' then Inr ''''
             else case detail of
                    Inl e \<Rightarrow> Inl (APIError ServerError (''marshal '' @ op @ '' audit log failed %!s(MISSING)''))
                  | Inr js \<Rightarrow> Inr js));
          store = (\<lambda>op detail.
            (case record_log op detail of
               Inl err \<Rightarrow> (s, Some err)
             | Inr js \<Rightarrow>
                 (case audit_Add T (log0\<lparr>al_Operation := op, al_Detail := js,
                                        al_CreationTimestamp := now\<rparr>) s of
                    (s', Some e) \<Rightarrow> (s', Some (APIError ServerError (''record audit log failed '' @ e)))
                  | (s', None) \<Rightarrow> (s', None))))
      in case method_operation (req_method ctx) of
           None \<Rightarrow> (s, None)
         | Some op \<Rightarrow>
             (case req_action ctx of
                Some act \<Rightarrow>
                  if act_name act = ''login'' then (s, None)
                  else store (act_name act) (act_input act)
              | None \<Rightarrow> store op (req_resource ctx)))"

section \<open>The window of records\<close>

text \<open>
  \<open>window_inv V drv\<close>: the table \<open>V\<close> holds exactly the records numbered from the first to
  the current number, each under its number, and there are at most \<open>maxRecordCount\<close> of them.
  Number 0 is never used: a fresh driver starts with both numbers 0 and an empty table.
\<close>

definition window :: "default_driver \<Rightarrow> uint64 set" where
  "window drv = {u. firstID drv \<le> u \<and> u \<le> currentID drv \<and> u \<noteq> 0}"

definition window_inv :: "(string \<rightharpoonup> audit_log json) \<Rightarrow> default_driver \<Rightarrow> bool" where
  "window_inv V drv \<longleftrightarrow>
     dom V = formatUint ` window drv
     \<and> (\<forall>u v. V (formatUint u) = Some v \<longrightarrow> (\<exists>a. v = Json (stamp u a)))
     \<and> firstID drv \<le> currentID drv
     \<and> uint (currentID drv) - uint (firstID drv) < maxRecordCount drv
     \<and> 2 \<le> maxRecordCount drv \<and> maxRecordCount drv < 2 ^ 63"

definition ids :: "default_driver \<Rightarrow> uint64 list" where
  "ids drv = map word_of_nat [max 1 (unat (firstID drv)) ..< Suc (unat (currentID drv))]"

fun entry :: "(string \<rightharpoonup> audit_log json) \<Rightarrow> uint64 \<Rightarrow> audit_log" where
  "entry V u = (case V (formatUint u) of Some (Json a) \<Rightarrow> a | _ \<Rightarrow> undefined)"

declare entry.simps [simp del]

definition newest_first :: "(string \<rightharpoonup> audit_log json) \<Rightarrow> default_driver \<Rightarrow> audit_log list" where
  "newest_first V drv = rev (map (entry V) (ids drv))"

lemma unat_word_of_nat_le: "i \<le> unat (w :: uint64) \<Longrightarrow> unat (word_of_nat i :: uint64) = i"
  using unsigned_less [of w, where 'a = nat] by (simp add: unat_of_nat take_bit_nat_eq_self_iff)

lemma map_unat_ids: "map unat (ids drv) = [max 1 (unat (firstID drv)) ..< Suc (unat (currentID drv))]"
  unfolding ids_def map_map
  by (rule map_idI) (auto simp: unat_word_of_nat_le [where w = "currentID drv"] simp del: upt_Suc)

lemma distinct_ids: "distinct (ids drv)"
  using map_unat_ids [of drv] by (metis distinct_map distinct_upt)

lemma sorted_ids: "sorted (ids drv)"
proof -
  have "sorted (map unat (ids drv))" by (simp add: map_unat_ids del: upt_Suc)
  then show ?thesis by (simp add: sorted_map word_le_nat_alt [abs_def])
qed

lemma set_ids: "set (ids drv) = window drv"
proof -
  have "u \<in> set (ids drv) \<longleftrightarrow> u \<in> window drv" for u
  proof -
    have "u \<in> set (ids drv) \<longleftrightarrow> unat u \<in> set (map unat (ids drv))"
      by (auto simp: image_iff dest: unsigned_word_eqI)
    also have "\<dots> \<longleftrightarrow> max 1 (unat (firstID drv)) \<le> unat u \<and> unat u \<le> unat (currentID drv)"
      by (auto simp: map_unat_ids simp del: upt_Suc)
    also have "\<dots> \<longleftrightarrow> u \<in> window drv"
      by (auto simp: window_def word_le_nat_alt unat_eq_zero Suc_le_eq unat_gt_0)
    finally show ?thesis .
  qed
  then show ?thesis by blast
qed

lemma length_ids:
  "length (ids drv) = unat (currentID drv) + 1 - max 1 (unat (firstID drv))"
  by (simp add: ids_def del: upt_Suc)

subsection \<open>Listing\<close>

lemma window_entry:
  assumes "window_inv V drv" "u \<in> window drv"
  shows "V (formatUint u) = Some (Json (entry V u))" "al_UID (entry V u) = u"
proof -
  from assms have "formatUint u \<in> dom V" by (simp add: window_inv_def)
  with assms(1) obtain a where "V (formatUint u) = Some (Json (stamp u a))"
    unfolding window_inv_def by blast
  then show "V (formatUint u) = Some (Json (entry V u))" "al_UID (entry V u) = u"
    by (simp_all add: entry.simps stamp_def)
qed

lemma window_assoc:
  assumes "window_inv V drv"
  shows "V = map_of (map (\<lambda>u. (formatUint u, Json (entry V u))) (ids drv))"
proof (rule ext)
  fix k
  let ?m = "map_of (map (\<lambda>u. (formatUint u, Json (entry V u))) (ids drv))"
  show "V k = ?m k"
  proof (cases "k \<in> formatUint ` window drv")
    case True
    then obtain u where u: "u \<in> window drv" "k = formatUint u" by blast
    have "?m (formatUint u) = Some (Json (entry V u))"
    proof (rule map_of_is_SomeI)
      show "distinct (map fst (map (\<lambda>u. (formatUint u, Json (entry V u))) (ids drv)))"
        by (simp add: distinct_map distinct_ids inj_on_def)
      show "(formatUint u, Json (entry V u)) \<in> set (map (\<lambda>u. (formatUint u, Json (entry V u))) (ids drv))"
        using u by (simp add: set_ids)
    qed
    with window_entry(1) [OF assms u(1)] u(2) show ?thesis by simp
  next
    case False
    then have "V k = None" using assms unfolding window_inv_def by (metis domIff)
    moreover have "?m k = None"
      using False by (auto simp: map_of_eq_None_iff set_ids)
    ultimately show ?thesis by simp
  qed
qed

lemma sort_window:
  assumes inv: "window_inv V drv" and m: "map_of kvs = V" and d: "distinct (map fst kvs)"
  shows "\<exists>logs. unmarshal_all (map snd kvs) = Inr logs
           \<and> sort_key al_UID logs = map (entry V) (ids drv) \<and> length logs = length (ids drv)"
proof -
  let ?can = "map (\<lambda>u. (formatUint u, Json (entry V u))) (ids drv)"
  have "mset kvs = mset ?can"
  proof (rule map_of_eq_mset)
    show "map_of kvs = map_of ?can" using m window_assoc [OF inv] by simp
    show "distinct (map fst ?can)" by (simp add: distinct_map distinct_ids inj_on_def)
  qed (rule d)
  then have vals: "mset (map snd kvs) = mset (map snd ?can)" by (simp only: mset_map)
  have "set (map snd kvs) \<subseteq> range Json"
    using mset_eq_setD [OF vals] by auto
  then obtain logs where logs: "map snd kvs = map Json logs"
    using list_in_range by blast
  let ?dec = "image_mset (case_json id (\<lambda>_. undefined))"
  have "?dec (mset (map snd kvs)) = ?dec (mset (map snd ?can))" by (simp only: vals)
  then have ms: "mset logs = mset (map (entry V) (ids drv))"
    unfolding logs by (simp add: multiset.map_comp comp_def)
  have uids: "map al_UID (map (entry V) (ids drv)) = ids drv"
    unfolding map_map by (rule map_idI) (simp add: window_entry(2) [OF inv] set_ids)
  have "sort_key al_UID logs = map (entry V) (ids drv)"
    by (rule sort_key_unique) (use ms uids sorted_ids distinct_ids in auto)
  moreover have "length logs = length (ids drv)" using mset_eq_length [OF ms] by simp
  ultimately show ?thesis using logs by simp
qed

subsection \<open>Adding\<close>

lemma window_full_iff:
  assumes "window_inv V drv"
  shows "currentID drv - firstID drv > word_of_int (maxRecordCount drv - 2)
     \<longleftrightarrow> uint (currentID drv) - uint (firstID drv) = maxRecordCount drv - 1"
proof -
  from assms have le: "firstID drv \<le> currentID drv" and m: "2 \<le> maxRecordCount drv" "maxRecordCount drv < 2 ^ 63"
    and lt: "uint (currentID drv) - uint (firstID drv) < maxRecordCount drv"
    by (auto simp: window_inv_def)
  have "uint (currentID drv - firstID drv) = uint (currentID drv) - uint (firstID drv)"
    using le by (simp add: uint_sub_if' word_le_def)
  moreover have "uint (word_of_int (maxRecordCount drv - 2) :: uint64) = maxRecordCount drv - 2"
    using m by (simp only: uint_word_of_int) simp
  ultimately show ?thesis using lt by (auto simp: word_less_def)
qed

lemma window_evict:
  assumes inv: "window_inv V drv"
    and full: "uint (currentID drv) - uint (firstID drv) = maxRecordCount drv - 1"
  defines "drv' \<equiv> drv\<lparr>firstID := firstID drv + 1\<rparr>"
  shows "window_inv (V(formatUint (firstID drv) := None)) drv'"
    "uint (currentID drv') - uint (firstID drv') < maxRecordCount drv' - 1"
    "ids drv' = (if firstID drv = 0 then ids drv else tl (ids drv))"
proof -
  from inv full have lt: "unat (firstID drv) < unat (currentID drv)"
    by (simp add: window_inv_def word_less_def flip: word_less_nat_alt)
  then have "unat (firstID drv) + 1 < 2 ^ 64" using unsigned_less [of "currentID drv", where 'a = nat] by simp
  then have u1: "unat (firstID drv + 1) = unat (firstID drv) + 1" by (simp add: unat_word_ariths)
  then have i1: "uint (firstID drv + 1) = uint (firstID drv) + 1"
    by (simp only: uint_nat of_nat_add of_nat_1)
  have w: "window drv' = window drv - {firstID drv}"
    using u1 by (auto simp: window_def drv'_def word_le_nat_alt word_unat_eq_iff)
  from inv have dom: "dom V = formatUint ` window drv" by (simp add: window_inv_def)
  have "dom (V(formatUint (firstID drv) := None)) = formatUint ` window drv'"
    unfolding dom_fun_upd w dom by auto
  then show "window_inv (V(formatUint (firstID drv) := None)) drv'"
    using inv lt u1 i1 full by (auto simp: window_inv_def drv'_def word_le_nat_alt)
  show "uint (currentID drv') - uint (firstID drv') < maxRecordCount drv' - 1"
    using full i1 by (simp add: drv'_def)
  show "ids drv' = (if firstID drv = 0 then ids drv else tl (ids drv))"
    using u1 lt by (auto simp: ids_def drv'_def tl_upt unat_gt_0 max_def Suc_le_eq simp del: upt_Suc
          simp flip: map_tl)
qed

lemma window_append:
  assumes inv: "window_inv V drv"
    and room: "uint (currentID drv) - uint (firstID drv) < maxRecordCount drv - 1"
    and ovf: "unat (currentID drv) + 1 < 2 ^ 64"
  defines "u \<equiv> currentID drv + 1"
  defines "drv' \<equiv> drv\<lparr>currentID := u\<rparr>"
  shows "V (formatUint u) = None"
    "window_inv (V(formatUint u \<mapsto> Json (stamp u a))) drv'"
    "ids drv' = ids drv @ [u]"
proof -
  have uu: "unat u = unat (currentID drv) + 1" using ovf by (simp add: u_def unat_word_ariths)
  then have iu: "uint u = uint (currentID drv) + 1"
    by (simp only: uint_nat of_nat_add of_nat_1)
  from inv have le: "unat (firstID drv) \<le> unat (currentID drv)" by (simp add: window_inv_def word_le_nat_alt)
  have w: "window drv' = insert u (window drv)"
    using uu le by (auto simp: window_def drv'_def word_le_nat_alt word_unat_eq_iff)
  have "u \<notin> window drv" using uu by (simp add: window_def word_le_nat_alt)
  then have "formatUint u \<notin> formatUint ` window drv" by auto
  with inv show none: "V (formatUint u) = None" by (auto simp: window_inv_def)
  have "dom (V(formatUint u \<mapsto> Json (stamp u a))) = formatUint ` window drv'"
    using inv by (simp add: w window_inv_def)
  then show "window_inv (V(formatUint u \<mapsto> Json (stamp u a))) drv'"
    using inv room le uu iu by (auto simp: window_inv_def drv'_def word_le_nat_alt)
  have "word_of_nat (Suc (unat (currentID drv))) = u" using uu by (metis Suc_eq_plus1 of_nat_unat ucast_id)
  then show "ids drv' = ids drv @ [u]"
    using le uu by (simp add: ids_def drv'_def)
qed

subsection \<open>The whole operation\<close>

lemma addToDB_cases:
  assumes "kv_laws T view txview" "audit_addToDB T log d = (d', r)"
  shows "(r = None \<and> view d (al_ID log) = None \<and> view d' = (view d)(al_ID log \<mapsto> Json log))
       \<or> (r \<noteq> None \<and> view d' = view d)"
  using kv_laws.write_add [OF assms(1)] assms(2) by (simp add: audit_addToDB_def json_marshal_def)

lemma deleteFromDB_cases:
  assumes "kv_laws T view txview" "audit_deleteFromDB T k d = (d', r)"
  shows "(r = None \<and> view d' = (view d)(k := None)) \<or> (r \<noteq> None \<and> view d' = view d)"
  using kv_laws.write_delete [OF assms(1)] assms(2) by (simp add: audit_deleteFromDB_def)

text \<open>One addition, success or not, leaves a table that satisfies the window invariant.\<close>

lemma audit_Add_inv:
  assumes kv: "kv_laws T view txview" and inv: "window_inv (view d) drv"
    and ovf: "unat (currentID drv) + 1 < 2 ^ 64"
    and add: "audit_Add T a (drv, d) = ((drv', d'), r)"
  shows "window_inv (view d') drv' \<and> maxRecordCount drv' = maxRecordCount drv"
proof -
  have put: "window_inv (view d2) drv2 \<and> maxRecordCount drv2 = maxRecordCount drv1"
    if "window_inv (view d1) drv1"
      and "uint (currentID drv1) - uint (firstID drv1) < maxRecordCount drv1 - 1"
      and "currentID drv1 = currentID drv"
      and "(case audit_addToDB T (stamp (currentID drv1 + 1) a) d1 of
               (d', Some e) \<Rightarrow> ((drv1, d'), Some e)
             | (d', None) \<Rightarrow> ((drv1\<lparr>currentID := currentID drv1 + 1\<rparr>, d'), None)) = ((drv2, d2), r)"
    for drv1 d1 drv2 d2
    using that window_append(2) [OF that(1,2), of a] ovf
      addToDB_cases [OF kv, of "stamp (currentID drv1 + 1) a" d1]
    by (auto simp: stamp_def split: prod.splits option.splits)
  show ?thesis
  proof (cases "currentID drv - firstID drv > word_of_int (maxRecordCount drv - 2)")
    case True
    then have full: "uint (currentID drv) - uint (firstID drv) = maxRecordCount drv - 1"
      using window_full_iff [OF inv] by simp
    obtain d1 r1 where del: "audit_deleteFromDB T (formatUint (firstID drv)) d = (d1, r1)" by force
    show ?thesis
    proof (cases r1)
      case None
      with deleteFromDB_cases [OF kv del]
      have v1: "view d1 = (view d)(formatUint (firstID drv) := None)" by simp
      show ?thesis
        using put [of d1 "drv\<lparr>firstID := firstID drv + 1\<rparr>" drv' d'] window_evict(1,2) [OF inv full]
          add True del None v1 by (simp add: audit_Add_def)
    next
      case (Some e)
      with deleteFromDB_cases [OF kv del] add True del inv show ?thesis
        by (auto simp: audit_Add_def)
    qed
  next
    case False
    with inv window_full_iff [OF inv] have "uint (currentID drv) - uint (firstID drv) < maxRecordCount drv - 1"
      by (auto simp: window_inv_def)
    with put [of d drv drv' d'] add False inv show ?thesis by (simp add: audit_Add_def)
  qed
qed


lemma length_ids_int:
  assumes "window_inv V drv"
  shows "int (length (ids drv))
       = uint (currentID drv) - uint (firstID drv) + (if firstID drv = 0 then 0 else 1)"
proof -
  from assms have le: "unat (firstID drv) \<le> unat (currentID drv)"
    by (simp add: window_inv_def word_le_nat_alt)
  have "length (ids drv) + unat (firstID drv)
      = unat (currentID drv) + (if firstID drv = 0 then 0 else 1)"
  proof (cases "firstID drv = 0")
    case False
    then have "1 \<le> unat (firstID drv)" by (simp add: Suc_le_eq unat_gt_0)
    with le False show ?thesis by (simp add: length_ids)
  qed (simp add: length_ids)
  from arg_cong [OF this, of int] show ?thesis by (simp split: if_splits)
qed

lemma newest_first_evict:
  assumes inv: "window_inv V drv"
    and full: "uint (currentID drv) - uint (firstID drv) = maxRecordCount drv - 1"
  shows "newest_first (V(formatUint (firstID drv) := None)) (drv\<lparr>firstID := firstID drv + 1\<rparr>)
       = take (nat (maxRecordCount drv - 1)) (newest_first V drv)"
proof -
  let ?drv' = "drv\<lparr>firstID := firstID drv + 1\<rparr>" and ?V' = "V(formatUint (firstID drv) := None)"
  note ev = window_evict [OF inv full]
  have "entry ?V' u = entry V u" if "u \<in> set (ids ?drv')" for u
  proof -
    have "formatUint u \<in> dom ?V'" using that ev(1) by (simp add: window_inv_def set_ids)
    then show ?thesis by (auto simp: entry.simps split: if_splits)
  qed
  then have n: "newest_first ?V' ?drv' = rev (map (entry V) (ids ?drv'))"
    by (simp add: newest_first_def)
  have "length (ids drv) = (if firstID drv = 0 then nat (maxRecordCount drv - 1) else nat (maxRecordCount drv))"
    using full length_ids_int [OF inv] by (cases "firstID drv = 0") simp_all
  moreover have "nat (maxRecordCount drv) - nat (maxRecordCount drv - 1) = 1"
    using inv unfolding window_inv_def by linarith
  ultimately show ?thesis unfolding n ev(3)
    by (simp add: newest_first_def take_rev drop_Suc map_tl)
qed

lemma newest_first_append:
  assumes inv: "window_inv V drv"
    and room: "uint (currentID drv) - uint (firstID drv) < maxRecordCount drv - 1"
    and ovf: "unat (currentID drv) + 1 < 2 ^ 64"
  defines "u \<equiv> currentID drv + 1"
  shows "newest_first (V(formatUint u \<mapsto> Json (stamp u a))) (drv\<lparr>currentID := u\<rparr>)
       = stamp u a # newest_first V drv"
proof -
  note ap = window_append [OF inv room ovf, folded u_def]
  have "entry (V(formatUint u \<mapsto> Json (stamp u a))) x = entry V x" if "x \<in> set (ids drv)" for x
    using ap(1) window_entry(1) [OF inv, of x] that by (auto simp: entry.simps set_ids)
  then have "map (entry (V(formatUint u \<mapsto> Json (stamp u a)))) (ids drv) = map (entry V) (ids drv)"
    by simp
  then show ?thesis by (simp add: newest_first_def ap(3) entry.simps [of _ u])
qed

lemma length_newest_first:
  assumes "window_inv V drv"
  shows "length (newest_first V drv) \<le> nat (maxRecordCount drv)"
    "uint (currentID drv) - uint (firstID drv) < maxRecordCount drv - 1 \<Longrightarrow>
     length (newest_first V drv) < nat (maxRecordCount drv)"
  using assms length_ids_int [OF assms] by (auto simp: newest_first_def window_inv_def split: if_splits)

lemma listFromDB_window:
  assumes kv: "kv_live T view txview" and inv: "window_inv (view d) drv"
  shows "\<exists>logs. audit_listFromDB T d = Inr logs \<and> length logs = length (ids drv)
           \<and> sort_key al_UID logs = map (entry (view d)) (ids drv)"
proof -
  from kv have kl: "kv_laws T view txview" by (rule kv_live.axioms(1))
  obtain kvs where k: "kv_read T id (\<lambda>tx. map_err id (kvList T tx)) d = Inr kvs"
    using kv_live.read_list_live [OF kv] by blast
  then have "map_of kvs = view d" "distinct (map fst kvs)"
    using kv_laws.read_list [OF kl] by blast+
  with sort_window [OF inv] k show ?thesis
    by (auto simp: audit_listFromDB_def)
qed

lemma audit_List_window:
  assumes "kv_live T view txview" "window_inv (view d) drv"
  shows "audit_List T Administrator d = Inr (newest_first (view d) drv)"
  using listFromDB_window [OF assms] by (auto simp: audit_List_def newest_first_def)

lemma addToDB_live:
  assumes "kv_live T view txview" "view d (al_ID log) = None"
  shows "\<exists>d'. audit_addToDB T log d = (d', None) \<and> view d' = (view d)(al_ID log \<mapsto> Json log)"
  using kv_live.write_add_live [OF assms] by (simp add: audit_addToDB_def json_marshal_def)

lemma deleteFromDB_live:
  assumes "kv_live T view txview"
  shows "\<exists>d'. audit_deleteFromDB T k d = (d', None) \<and> view d' = (view d)(k := None)"
  using kv_live.write_delete_live [OF assms] by (simp add: audit_deleteFromDB_def)

lemma audit_Add_live_step:
  assumes kv: "kv_live T view txview" and inv: "window_inv (view d) drv"
    and ovf: "unat (currentID drv) + 1 < 2 ^ 64"
  defines "u \<equiv> currentID drv + 1"
  shows "\<exists>drv' d'. audit_Add T a (drv, d) = ((drv', d'), None)
           \<and> window_inv (view d') drv' \<and> maxRecordCount drv' = maxRecordCount drv
           \<and> newest_first (view d') drv'
             = take (nat (maxRecordCount drv)) (stamp u a # newest_first (view d) drv)"
proof -
  have put: "\<exists>d2. audit_addToDB T (stamp u a) d1 = (d2, None)
           \<and> window_inv (view d2) (drv1\<lparr>currentID := u\<rparr>)
           \<and> newest_first (view d2) (drv1\<lparr>currentID := u\<rparr>) = stamp u a # newest_first (view d1) drv1"
    if "window_inv (view d1) drv1"
      and "uint (currentID drv1) - uint (firstID drv1) < maxRecordCount drv1 - 1"
      and "currentID drv1 = currentID drv" for drv1 d1
    using that window_append(1) [OF that(1,2)] window_append(2) [OF that(1,2), of a]
      newest_first_append [OF that(1,2), of a] ovf addToDB_live [OF kv, of d1 "stamp u a"]
    by (auto simp: stamp_def u_def)
  show ?thesis
  proof (cases "currentID drv - firstID drv > word_of_int (maxRecordCount drv - 2)")
    case True
    then have full: "uint (currentID drv) - uint (firstID drv) = maxRecordCount drv - 1"
      using window_full_iff [OF inv] by simp
    let ?drv1 = "drv\<lparr>firstID := firstID drv + 1\<rparr>"
    obtain d1 where del: "audit_deleteFromDB T (formatUint (firstID drv)) d = (d1, None)"
      and v1: "view d1 = (view d)(formatUint (firstID drv) := None)"
      using deleteFromDB_live [OF kv] by blast
    obtain d2 where d2: "audit_addToDB T (stamp u a) d1 = (d2, None)"
      "window_inv (view d2) (?drv1\<lparr>currentID := u\<rparr>)"
      "newest_first (view d2) (?drv1\<lparr>currentID := u\<rparr>) = stamp u a # newest_first (view d1) ?drv1"
      using put [of d1 ?drv1] window_evict(1,2) [OF inv full] v1 by auto
    have "nat (maxRecordCount drv) = Suc (nat (maxRecordCount drv - 1))"
      using inv unfolding window_inv_def by linarith
    with d2 del True newest_first_evict [OF inv full] v1 show ?thesis
      by (simp add: audit_Add_def u_def)
  next
    case False
    with inv window_full_iff [OF inv]
    have room: "uint (currentID drv) - uint (firstID drv) < maxRecordCount drv - 1"
      by (auto simp: window_inv_def)
    with put [of d drv] False length_newest_first(2) [OF inv room] inv show ?thesis
      by (auto simp: audit_Add_def u_def take_Cons' )
  qed
qed


subsection \<open>Listing per user and restarting\<close>

lemma uids_of_window: "window_inv V drv \<Longrightarrow> map al_UID (map (entry V) (ids drv)) = ids drv"
  unfolding map_map by (rule map_idI) (simp add: window_entry(2) set_ids)

lemma set_window_entries:
  assumes "window_inv V drv"
  shows "set (map (entry V) (ids drv)) = {a. \<exists>k. V k = Some (Json a)}"
proof -
  have "a \<in> entry V ` window drv \<longleftrightarrow> (\<exists>k. V k = Some (Json a))" for a
  proof
    assume "\<exists>k. V k = Some (Json a)"
    then obtain k where k: "V k = Some (Json a)" ..
    then obtain u where u: "u \<in> window drv" "k = formatUint u"
      using assms unfolding window_inv_def by blast
    with window_entry(1) [OF assms u(1)] k show "a \<in> entry V ` window drv" by auto
  qed (use window_entry(1) [OF assms] in blast)
  then show ?thesis by (auto simp: set_ids)
qed

lemma audit_List_user_window:
  assumes kv: "kv_live T view txview" and inv: "window_inv (view d) drv"
  shows "audit_List T user d
       = Inr (filter (\<lambda>a. user = Administrator \<or> al_User a = user) (newest_first (view d) drv))"
  using listFromDB_window [OF assms] by (auto simp: audit_List_def newest_first_def Let_def)

lemma restart_window:
  assumes kv: "kv_live T view txview" and inv: "window_inv (view d) drv"
  shows "\<exists>drv'. audit_NewDefaultDriver T (maxRecordCount drv) d = (drv', None)
           \<and> window_inv (view d) drv' \<and> currentID drv' = currentID drv
           \<and> newest_first (view d) drv' = newest_first (view d) drv"
proof -
  let ?f = "firstID drv" and ?c = "currentID drv"
  obtain logs where logs: "audit_listFromDB T d = Inr logs" "length logs = length (ids drv)"
    "sort_key al_UID logs = map (entry (view d)) (ids drv)"
    using listFromDB_window [OF assms] by blast
  have le: "unat ?f \<le> unat ?c" using inv by (simp add: window_inv_def word_le_nat_alt)
  show ?thesis
  proof (cases "?c = 0")
    case True
    then have f0: "?f = 0" using le by (simp add: unat_eq_zero)
    have "ids drv = []" using True f0 by (simp add: ids_def)
    then have "audit_NewDefaultDriver T (maxRecordCount drv) d = (drv, None)"
      using logs True f0 by (simp add: audit_NewDefaultDriver_def audit_initDB_def)
    with inv show ?thesis by simp
  next
    case False
    then have c1: "1 \<le> unat ?c" by (simp add: Suc_le_eq unat_gt_0)
    let ?drv' = "drv\<lparr>firstID := (if ?f = 0 then 1 else ?f)\<rparr>"
    have m: "max 1 (unat ?f) \<le> unat ?c" using le c1 by simp
    have l: "length (ids drv) = unat ?c + 1 - max 1 (unat ?f)" by (rule length_ids)
    have ids0: "ids drv ! 0 = (if ?f = 0 then 1 else ?f)"
      using m l by (auto simp: ids_def max_def unat_gt_0 Suc_le_eq nth_append simp del: upt_Suc)
    have "ids drv = map word_of_nat ([max 1 (unat ?f) ..< unat ?c] @ [unat ?c])"
      using m by (simp add: ids_def)
    then have idsl: "ids drv ! (length (ids drv) - 1) = ?c" by (simp add: nth_append)
    have uid: "al_UID (map (entry (view d)) (ids drv) ! i) = ids drv ! i" if "i < length (ids drv)" for i
      using that window_entry(2) [OF inv, of "ids drv ! i"] by (simp flip: set_ids)
    have "0 < length (ids drv)" using m l by linarith
    then have "audit_NewDefaultDriver T (maxRecordCount drv) d = (?drv', None)"
      using logs ids0 idsl uid [of 0] uid [of "length (ids drv) - 1"]
      by (simp add: audit_NewDefaultDriver_def audit_initDB_def Let_def)
    moreover have ids': "ids ?drv' = ids drv" by (auto simp: ids_def)
    moreover have "window_inv (view d) ?drv'"
      using inv c1 ids' by (auto simp: window_inv_def word_le_nat_alt simp flip: set_ids)
    ultimately show ?thesis by (auto simp: newest_first_def)
  qed
qed

section \<open>Properties\<close>

text \<open>
  C38. One addition to the audit log, whether it succeeds or fails half-way, keeps the window
  invariant: the table holds exactly the records numbered from \<open>firstID\<close> to \<open>currentID\<close>,
  each stored under its number, and never more than \<open>maxRecordCount\<close>.
\<close>

theorem audit_Add_keeps_window:
  assumes "kv_laws T view txview" "window_inv (view d) drv"
    and "unat (currentID drv) + 1 < 2 ^ 64"
    and "audit_Add T a (drv, d) = ((drv', d'), r)"
  shows "window_inv (view d') drv' \<and> int (card (dom (view d'))) \<le> maxRecordCount drv"
proof -
  from audit_Add_inv [OF assms]
  have inv: "window_inv (view d') drv'" and m: "maxRecordCount drv' = maxRecordCount drv" by auto
  have "card (dom (view d')) = card (window drv')"
    using inv by (simp add: window_inv_def card_image inj_on_def)
  also have "\<dots> = length (ids drv')" using distinct_card [OF distinct_ids] by (simp add: set_ids)
  also have "\<dots> = length (newest_first (view d') drv')" by (simp add: newest_first_def)
  finally have "card (dom (view d')) \<le> nat (maxRecordCount drv)"
    using m length_newest_first(1) [OF inv] by simp
  moreover have "0 \<le> maxRecordCount drv" using inv m by (simp add: window_inv_def)
  ultimately show ?thesis using inv by linarith
qed

definition sample_log :: "string \<Rightarrow> audit_log" where
  "sample_log user =
     \<lparr>al_ID = '''', al_CreationTimestamp = 7, al_UID = 0, al_User = user,
      al_SourceAddress = ''10.0.0.1:80'', al_Operation = ''create'', al_ResourceKind = ''cluster'',
      al_ResourcePath = ''/apis'', al_Detail = ''''\<rparr>"

definition sample_driver :: default_driver where
  "sample_driver = \<lparr>maxRecordCount = 2, firstID = 4, currentID = 5\<rparr>"

definition sample_table :: "audit_log json mem_db" where
  "sample_table =
     [(formatUint 5, Json (stamp 5 (sample_log ''u''))), (formatUint 4, Json (stamp 4 (sample_log ''admin'')))]"

lemma sample_window: "window_inv (map_of sample_table) sample_driver"
proof -
  have "set (ids sample_driver) = {4, 5}" by (simp add: ids_def sample_driver_def upt_rec)
  then have "window sample_driver = {4, 5}" by (simp add: set_ids)
  then show ?thesis
    by (auto simp: window_inv_def sample_table_def sample_driver_def split: if_splits)
qed

theorem audit_Add_keeps_window_witness:
  "\<exists>drv' d' r. audit_Add mem_table (sample_log ''u'') (sample_driver, sample_table) = ((drv', d'), r)
     \<and> window_inv (map_of d') drv' \<and> int (card (dom (map_of d'))) \<le> 2"
proof -
  obtain drv' d' r where a:
    "audit_Add mem_table (sample_log ''u'') (sample_driver, sample_table) = ((drv', d'), r)"
    by (metis surj_pair)
  have "unat (currentID sample_driver) + 1 < 2 ^ 64" by (simp add: sample_driver_def)
  from audit_Add_keeps_window [OF mem.kv_laws_axioms sample_window this a]
  show ?thesis using a by (simp add: sample_driver_def)
qed

text \<open>
  C38. On a table whose operations succeed, an addition succeeds, and what the administrator
  then sees is the new record (stamped with the next number) in front of what was listed
  before, cut to the newest \<open>maxRecordCount\<close> records.
\<close>

theorem audit_Add_then_List:
  assumes "kv_live T view txview" "window_inv (view d) drv"
    and "unat (currentID drv) + 1 < 2 ^ 64"
    and "audit_List T Administrator d = Inr old"
  shows "\<exists>drv' d'. audit_Add T a (drv, d) = ((drv', d'), None)
           \<and> window_inv (view d') drv'
           \<and> audit_List T Administrator d'
             = Inr (take (nat (maxRecordCount drv)) (stamp (currentID drv + 1) a # old))"
  using audit_Add_live_step [OF assms(1-3)] assms(4) audit_List_window [OF assms(1,2)]
    audit_List_window [OF assms(1)] by (metis Inr_inject)

theorem audit_Add_then_List_witness:
  "\<exists>drv' d'. audit_Add mem_table (sample_log ''u'') (sample_driver, sample_table) = ((drv', d'), None)
     \<and> window_inv (map_of d') drv'
     \<and> audit_List mem_table Administrator d'
       = Inr [stamp 6 (sample_log ''u''), stamp 5 (sample_log ''u'')]"
proof -
  have l: "audit_List mem_table Administrator sample_table
      = Inr [stamp 5 (sample_log ''u''), stamp 4 (sample_log ''admin'')]"
    by (simp add: audit_List_def audit_listFromDB_def kv_read_def sample_table_def
        stamp_def Let_def)
  have "unat (currentID sample_driver) + 1 < 2 ^ 64" by (simp add: sample_driver_def)
  from audit_Add_then_List [OF mem.kv_live_axioms sample_window this l, of "sample_log ''u''"]
  show ?thesis by (simp add: sample_driver_def)
qed

text \<open>
  What a user is shown: every stored record if the user is the administrator, else exactly
  the stored records of that user; newest first, with strictly decreasing numbers.
\<close>

theorem audit_List_per_user:
  assumes "kv_live T view txview" "window_inv (view d) drv"
  shows "\<exists>logs. audit_List T user d = Inr logs
           \<and> set logs = {a. (\<exists>k. view d k = Some (Json a)) \<and> (user = Administrator \<or> al_User a = user)}
           \<and> sorted_wrt (>) (map al_UID logs)"
proof -
  let ?P = "\<lambda>a. user = Administrator \<or> al_User a = user" and ?es = "map (entry (view d)) (ids drv)"
  have "sorted_wrt (<) (map al_UID ?es)"
    using uids_of_window [OF assms(2)] sorted_ids distinct_ids by (simp add: strict_sorted_iff)
  then have "sorted_wrt (>) (map al_UID (rev ?es))"
    by (simp add: rev_map [symmetric] sorted_wrt_rev)
  then have "sorted_wrt (>) (map al_UID (filter ?P (rev ?es)))"
    by (simp add: sorted_wrt_map sorted_wrt_filter)
  with audit_List_user_window [OF assms, of user] set_window_entries [OF assms(2)]
  show ?thesis by (auto simp: newest_first_def rev_map)
qed

theorem audit_List_per_user_witness:
  "\<exists>logs. audit_List mem_table ''u'' sample_table = Inr logs
     \<and> set logs = {a. (\<exists>k. map_of sample_table k = Some (Json a)) \<and> (''u'' = Administrator \<or> al_User a = ''u'')}
     \<and> sorted_wrt (>) (map al_UID logs)"
  using audit_List_per_user [OF mem.kv_live_axioms sample_window] by blast

text \<open>
  A restart recovers the driver's numbers from the table alone: the window invariant holds
  again and the next record continues the numbering.
\<close>

theorem audit_restart:
  assumes "kv_live T view txview" "window_inv (view d) drv"
  shows "\<exists>drv'. audit_NewDefaultDriver T (maxRecordCount drv) d = (drv', None)
           \<and> window_inv (view d) drv' \<and> currentID drv' = currentID drv"
  using restart_window [OF assms] by blast

theorem audit_restart_witness:
  "\<exists>drv'. audit_NewDefaultDriver mem_table 2 sample_table = (drv', None)
     \<and> window_inv (map_of sample_table) drv' \<and> currentID drv' = 5"
  using audit_restart [OF mem.kv_live_axioms sample_window] by (simp add: sample_driver_def)

end
