(* ===== verification/ZkeTypes.thy ===== *)
theory ZkeTypes
  imports Prelude
begin

text \<open>
  The data the cluster manager works on: the API resources \<^verbatim>\<open>types.Cluster\<close> and
  \<^verbatim>\<open>types.Node\<close> (\<^verbatim>\<open>pkg/types/cluster.go\<close>, \<^verbatim>\<open>pkg/types/node.go\<close>), the zke
  library's configuration record, and the translations between them
  (\<^verbatim>\<open>pkg/zke/zke.go\<close>, \<^verbatim>\<open>ToScCluster\<close> of \<^verbatim>\<open>pkg/zke/cluster.go\<close>).
  A resource's base (identifier and two time stamps) is flattened into its record; the handle
  \<^verbatim>\<open>KubeProvider\<close> is the address of the manager's cluster object.
\<close>

section \<open>Resources\<close>

datatype cluster_status =
  CSRunning | CSUnreachable | CSCreating | CSCreateFailed | CSUpdating | CSDeleting | CSDeleted

fun status_string :: "cluster_status \<Rightarrow> string" where
  "status_string CSRunning = ''Running''"
| "status_string CSUnreachable = ''Unreachable''"
| "status_string CSCreating = ''Creating''"
| "status_string CSCreateFailed = ''CreateFailed''"
| "status_string CSUpdating = ''Updating''"
| "status_string CSDeleting = ''Deleting''"
| "status_string CSDeleted = ''Deleted''"

type_synonym node_role = string

abbreviation RoleControlPlane :: node_role where "RoleControlPlane \<equiv> ''controlplane''"
abbreviation RoleEtcd :: node_role where "RoleEtcd \<equiv> ''etcd''"
abbreviation RoleWorker :: node_role where "RoleWorker \<equiv> ''worker''"
abbreviation RoleEdge :: node_role where "RoleEdge \<equiv> ''edge''"
abbreviation RoleStorage :: node_role where "RoleStorage \<equiv> ''storage''"

record node =
  node_ID :: string
  node_CreationTimestamp :: time
  node_DeletionTimestamp :: time
  node_Name :: string
  node_Status :: string
  node_Address :: string
  node_Roles :: "node_role list"
  node_Labels :: "(string \<times> string) list"
  node_Annotations :: "(string \<times> string) list"
  node_OperatingSystem :: string
  node_OperatingSystemImage :: string
  node_DockerVersion :: string
  node_Cpu :: int
  node_CpuUsed :: int
  node_CpuUsedRatio :: string
  node_Memory :: int
  node_MemoryUsed :: int
  node_MemoryUsedRatio :: string
  node_Pod :: int
  node_PodUsed :: int
  node_PodUsedRatio :: string

definition empty_node :: node where
  "empty_node =
     \<lparr>node_ID = '''', node_CreationTimestamp = 0, node_DeletionTimestamp = 0, node_Name = '''', node_Status = '''',
      node_Address = '''', node_Roles = [], node_Labels = [], node_Annotations = [],
      node_OperatingSystem = '''', node_OperatingSystemImage = '''', node_DockerVersion = '''',
      node_Cpu = 0, node_CpuUsed = 0, node_CpuUsedRatio = '''', node_Memory = 0,
      node_MemoryUsed = 0, node_MemoryUsedRatio = '''', node_Pod = 0, node_PodUsed = 0,
      node_PodUsedRatio = ''''\<rparr>"

definition HasRole :: "node \<Rightarrow> node_role \<Rightarrow> bool" where
  "HasRole n role \<longleftrightarrow> list_ex (\<lambda>r. role = r) (node_Roles n)"

record cluster_network =
  net_Plugin :: string
  net_Iface :: string

record cluster_load_balance =
  lb_Enable :: bool
  lb_MasterServer :: string
  lb_BackupServer :: string
  lb_User :: string
  lb_Password :: string

text \<open>The resource usage numbers of a cluster (\<^verbatim>\<open>Cpu\<close> to \<^verbatim>\<open>PodUsedRatio\<close>).\<close>

record cluster_usage =
  use_Cpu :: int
  use_CpuUsed :: int
  use_CpuUsedRatio :: string
  use_Memory :: int
  use_MemoryUsed :: int
  use_MemoryUsedRatio :: string
  use_Pod :: int
  use_PodUsed :: int
  use_PodUsedRatio :: string

record sc_cluster =
  sc_ID :: string
  sc_CreationTimestamp :: time
  sc_DeletionTimestamp :: time
  sc_Nodes :: "node list"
  sc_Network :: cluster_network
  sc_LoadBalance :: cluster_load_balance
  sc_SingleCloudAddress :: string
  sc_Name :: string
  sc_Status :: "cluster_status option"
  sc_NodesCount :: int
  sc_Version :: string
  sc_ScVersion :: string
  sc_Usage :: cluster_usage
  sc_SSHUser :: string
  sc_SSHKey :: string
  sc_SSHPort :: string
  sc_ClusterCidr :: string
  sc_ServiceCidr :: string
  sc_ClusterDomain :: string
  sc_ClusterDNSServiceIP :: string
  sc_ClusterUpstreamDNS :: "string list"
  sc_KubeProvider :: "nat option"

definition empty_usage :: cluster_usage where
  "empty_usage =
     \<lparr>use_Cpu = 0, use_CpuUsed = 0, use_CpuUsedRatio = '''', use_Memory = 0, use_MemoryUsed = 0,
      use_MemoryUsedRatio = '''', use_Pod = 0, use_PodUsed = 0, use_PodUsedRatio = ''''\<rparr>"

definition empty_load_balance :: cluster_load_balance where
  "empty_load_balance =
     \<lparr>lb_Enable = False, lb_MasterServer = '''', lb_BackupServer = '''', lb_User = '''', lb_Password = ''''\<rparr>"

definition empty_cluster :: sc_cluster where
  "empty_cluster =
     \<lparr>sc_ID = '''', sc_CreationTimestamp = 0, sc_DeletionTimestamp = 0, sc_Nodes = [],
      sc_Network = \<lparr>net_Plugin = '''', net_Iface = ''''\<rparr>, sc_LoadBalance = empty_load_balance,
      sc_SingleCloudAddress = '''', sc_Name = '''', sc_Status = None, sc_NodesCount = 0,
      sc_Version = '''', sc_ScVersion = '''', sc_Usage = empty_usage, sc_SSHUser = '''',
      sc_SSHKey = '''', sc_SSHPort = '''', sc_ClusterCidr = '''', sc_ServiceCidr = '''',
      sc_ClusterDomain = '''', sc_ClusterDNSServiceIP = '''', sc_ClusterUpstreamDNS = [],
      sc_KubeProvider = None\<rparr>"

definition cluster_CreateDefaultResource :: sc_cluster where
  "cluster_CreateDefaultResource = empty_cluster
     \<lparr>sc_Network := \<lparr>net_Plugin = ''flannel'', net_Iface = ''''\<rparr>,
      sc_ClusterCidr := ''10.42.0.0/16'', sc_ServiceCidr := ''10.43.0.0/16'',
      sc_ClusterDomain := ''cluster.local'', sc_ClusterDNSServiceIP := ''10.43.0.10'',
      sc_ClusterUpstreamDNS := [''223.5.5.5'', ''114.114.114.114''], sc_SSHPort := ''22''\<rparr>"

definition TrimFieldSpace :: "sc_cluster \<Rightarrow> sc_cluster" where
  "TrimFieldSpace c = c
     \<lparr>sc_Name := trimSpace (sc_Name c),
      sc_SSHUser := trimSpace (sc_SSHUser c),
      sc_SSHPort := trimSpace (sc_SSHPort c),
      sc_SingleCloudAddress := trimSpace (sc_SingleCloudAddress c),
      sc_ClusterDomain := trimSpace (sc_ClusterDomain c),
      sc_ClusterCidr := trimSpace (sc_ClusterCidr c),
      sc_ServiceCidr := trimSpace (sc_ServiceCidr c),
      sc_ClusterDNSServiceIP := trimSpace (sc_ClusterDNSServiceIP c),
      sc_LoadBalance := (sc_LoadBalance c)
        \<lparr>lb_MasterServer := trimSpace (lb_MasterServer (sc_LoadBalance c)),
         lb_BackupServer := trimSpace (lb_BackupServer (sc_LoadBalance c)),
         lb_User := trimSpace (lb_User (sc_LoadBalance c)),
         lb_Password := trimSpace (lb_Password (sc_LoadBalance c))\<rparr>,
      sc_Nodes := map (\<lambda>n. n\<lparr>node_Name := trimSpace (node_Name n),
                              node_Address := trimSpace (node_Address n)\<rparr>) (sc_Nodes c),
      sc_ClusterUpstreamDNS := map trimSpace (sc_ClusterUpstreamDNS c)\<rparr>"

section \<open>The zke library's configuration\<close>

text \<open>
  The fields of \<^verbatim>\<open>zketypes.ZKEConfig\<close> the program writes or reads. Its deep copy is
  the identity here.
\<close>

record zke_node =
  zn_NodeName :: string
  zn_Address :: string
  zn_Role :: "string list"

record zke_option =
  opt_SSHUser :: string
  opt_SSHPort :: string
  opt_SSHKey :: string
  opt_ClusterCidr :: string
  opt_ServiceCidr :: string
  opt_ClusterDomain :: string
  opt_ClusterDNSServiceIP :: string
  opt_ClusterUpstreamDNS :: "string list"

record zke_config =
  zc_ClusterName :: string
  zc_Option :: zke_option
  zc_Network :: cluster_network
  zc_SingleCloudAddress :: string
  zc_Nodes :: "zke_node list"
  zc_LoadBalance :: cluster_load_balance

definition zke_roles :: "node_role list \<Rightarrow> string list" where
  "zke_roles roles =
     concat (map (\<lambda>role. if role = RoleControlPlane then [role, RoleEtcd] else [role]) roles)"

definition scClusterToZKENodes :: "sc_cluster \<Rightarrow> zke_node list" where
  "scClusterToZKENodes sc =
     map (\<lambda>node. \<lparr>zn_NodeName = node_Name node, zn_Address = node_Address node,
                   zn_Role = zke_roles (node_Roles node)\<rparr>) (sc_Nodes sc)"

definition genZKEConfig :: "sc_cluster \<Rightarrow> zke_config" where
  "genZKEConfig cluster =
     \<lparr>zc_ClusterName = sc_Name cluster,
      zc_Option =
        \<lparr>opt_SSHUser = sc_SSHUser cluster, opt_SSHPort = sc_SSHPort cluster,
         opt_SSHKey = sc_SSHKey cluster, opt_ClusterCidr = sc_ClusterCidr cluster,
         opt_ServiceCidr = sc_ServiceCidr cluster, opt_ClusterDomain = sc_ClusterDomain cluster,
         opt_ClusterDNSServiceIP = sc_ClusterDNSServiceIP cluster,
         opt_ClusterUpstreamDNS = sc_ClusterUpstreamDNS cluster\<rparr>,
      zc_Network =
        \<lparr>net_Plugin = net_Plugin (sc_Network cluster), net_Iface = net_Iface (sc_Network cluster)\<rparr>,
      zc_SingleCloudAddress = sc_SingleCloudAddress cluster,
      zc_Nodes = scClusterToZKENodes cluster,
      zc_LoadBalance =
        \<lparr>lb_Enable = lb_Enable (sc_LoadBalance cluster),
         lb_MasterServer = lb_MasterServer (sc_LoadBalance cluster),
         lb_BackupServer = lb_BackupServer (sc_LoadBalance cluster),
         lb_User = lb_User (sc_LoadBalance cluster),
         lb_Password = lb_Password (sc_LoadBalance cluster)\<rparr>\<rparr>"

definition genZKEConfigForUpdate :: "zke_config \<Rightarrow> sc_cluster \<Rightarrow> zke_config" where
  "genZKEConfigForUpdate config sc = config
     \<lparr>zc_Option := (zc_Option config)
        \<lparr>opt_SSHUser := sc_SSHUser sc,
         opt_SSHPort := sc_SSHPort sc,
         opt_SSHKey := (if sc_SSHKey sc \<noteq> '''' then sc_SSHKey sc else opt_SSHKey (zc_Option config))\<rparr>,
      zc_SingleCloudAddress := sc_SingleCloudAddress sc,
      zc_Nodes := scClusterToZKENodes sc\<rparr>"

section \<open>The resource of a configuration\<close>

text \<open>The node of a configuration as the API shows it: the role etcd is hidden.\<close>

definition node_of_zke :: "zke_node \<Rightarrow> node" where
  "node_of_zke zn = empty_node
     \<lparr>node_Name := zn_NodeName zn, node_Address := zn_Address zn,
      node_Roles := filter (\<lambda>role. role \<noteq> RoleEtcd) (zn_Role zn)\<rparr>"

definition sc_of_config ::
  "nat \<Rightarrow> string \<Rightarrow> zke_config \<Rightarrow> string \<Rightarrow> time \<Rightarrow> time \<Rightarrow> cluster_status \<Rightarrow> sc_cluster" where
  "sc_of_config addr name config scVersion created deleted status = empty_cluster
     \<lparr>sc_Name := name,
      sc_SSHUser := opt_SSHUser (zc_Option config),
      sc_SSHPort := opt_SSHPort (zc_Option config),
      sc_ClusterCidr := opt_ClusterCidr (zc_Option config),
      sc_ServiceCidr := opt_ServiceCidr (zc_Option config),
      sc_ClusterDomain := opt_ClusterDomain (zc_Option config),
      sc_ClusterDNSServiceIP := opt_ClusterDNSServiceIP (zc_Option config),
      sc_ClusterUpstreamDNS := opt_ClusterUpstreamDNS (zc_Option config),
      sc_SingleCloudAddress := zc_SingleCloudAddress config,
      sc_ScVersion := scVersion,
      sc_Network := \<lparr>net_Plugin = net_Plugin (zc_Network config), net_Iface = net_Iface (zc_Network config)\<rparr>,
      sc_Nodes := map node_of_zke (zc_Nodes config),
      sc_NodesCount := int (length (zc_Nodes config)),
      sc_ID := name,
      sc_CreationTimestamp := created,
      sc_DeletionTimestamp := deleted,
      sc_Status := Some status,
      sc_KubeProvider := Some addr\<rparr>"

section \<open>Properties\<close>

lemma filter_zke_roles:
  "RoleEtcd \<notin> set roles \<Longrightarrow> filter (\<lambda>role. role \<noteq> RoleEtcd) (zke_roles roles) = roles"
  by (induction roles) (auto simp: zke_roles_def)

lemma set_zke_roles:
  "set (zke_roles roles) = set roles \<union> (if RoleControlPlane \<in> set roles then {RoleEtcd} else {})"
  by (induction roles) (auto simp: zke_roles_def)

lemma node_of_zke_roundtrip:
  "RoleEtcd \<notin> set (node_Roles n) \<Longrightarrow>
   node_of_zke \<lparr>zn_NodeName = node_Name n, zn_Address = node_Address n, zn_Role = zke_roles (node_Roles n)\<rparr>
   = empty_node\<lparr>node_Name := node_Name n, node_Address := node_Address n, node_Roles := node_Roles n\<rparr>"
  by (simp add: node_of_zke_def filter_zke_roles)

end
