(* ===== verification/ZkeFsm.thy ===== *)
theory ZkeFsm
  imports ZkeTypes
begin

text \<open>
  The life cycle of a cluster as a finite state machine (\<^verbatim>\<open>newClusterFsm\<close> of
  \<^verbatim>\<open>pkg/zke/fsm.go\<close>). The machine itself, \<^verbatim>\<open>github.com/zdnscloud/cement/fsm\<close>, is
  not part of the repository: it is a parameter, a record of its two operations, and the locale
  \<open>fsm_laws\<close> states what its documentation promises for a table in which an event has at most
  one target per state. The last section gives an engine that looks transitions up in the table.
\<close>

section \<open>The engine\<close>

record ('s, 'e) transition =
  tr_event :: 'e
  tr_src :: "'s list"
  tr_dst :: 's

record ('s, 'e) fsm_engine =
  fsmEvent :: "('s, 'e) transition list \<Rightarrow> 's \<Rightarrow> 'e \<Rightarrow> goerr + 's"
  fsmCan :: "('s, 'e) transition list \<Rightarrow> 's \<Rightarrow> 'e \<Rightarrow> bool"

definition fsm_next :: "('s, 'e) transition list \<Rightarrow> 's \<Rightarrow> 'e \<Rightarrow> 's option" where
  "fsm_next tbl s e =
     map_option tr_dst (List.find (\<lambda>t. tr_event t = e \<and> s \<in> set (tr_src t)) tbl)"

definition fsm_keys :: "('s, 'e) transition list \<Rightarrow> ('s \<times> 'e) list" where
  "fsm_keys tbl = concat (map (\<lambda>t. map (\<lambda>s. (s, tr_event t)) (tr_src t)) tbl)"

locale fsm_laws =
  fixes E :: "('s, 'e) fsm_engine"
    and tbl :: "('s, 'e) transition list"
  assumes event_ok: "distinct (fsm_keys tbl) \<Longrightarrow> fsm_next tbl s e = Some d \<Longrightarrow> fsmEvent E tbl s e = Inr d"
    and event_refused: "distinct (fsm_keys tbl) \<Longrightarrow> fsm_next tbl s e = None \<Longrightarrow> \<exists>err. fsmEvent E tbl s e = Inl err"
    and can_iff: "distinct (fsm_keys tbl) \<Longrightarrow> fsmCan E tbl s e \<longleftrightarrow> fsm_next tbl s e \<noteq> None"
begin

lemma event_cases:
  assumes "distinct (fsm_keys tbl)"
  obtains d where "fsmCan E tbl s e" "fsm_next tbl s e = Some d" "fsmEvent E tbl s e = Inr d"
  | err where "\<not> fsmCan E tbl s e" "fsm_next tbl s e = None" "fsmEvent E tbl s e = Inl err"
proof (cases "fsm_next tbl s e")
  case None
  with event_refused [OF assms] obtain err where "fsmEvent E tbl s e = Inl err" by blast
  with None can_iff [OF assms] show thesis by (intro that(2)) simp_all
next
  case (Some d)
  with event_ok [OF assms] can_iff [OF assms] show thesis by (intro that(1)) simp_all
qed

lemma event_Inr_iff:
  assumes "distinct (fsm_keys tbl)"
  shows "fsmEvent E tbl s e = Inr d \<longleftrightarrow> fsm_next tbl s e = Some d"
  by (rule event_cases [OF assms, of s e]) auto

end

section \<open>The machine of a cluster\<close>

datatype zke_event =
    CreateSucceedEvent | CreateFailedEvent | CreateCanceledEvent | ContinuteCreateEvent
  | UpdateEvent | UpdateCompletedEvent | UpdateCanceledEvent
  | GetInfoFailedEvent | GetInfoSucceedEvent | DeleteEvent | DeleteCompletedEvent

fun event_string :: "zke_event \<Rightarrow> string" where
  "event_string CreateSucceedEvent = ''createSucceed''"
| "event_string CreateFailedEvent = ''createFailed''"
| "event_string CreateCanceledEvent = ''createCanceled''"
| "event_string ContinuteCreateEvent = ''continuteCreate''"
| "event_string UpdateEvent = ''update''"
| "event_string UpdateCompletedEvent = ''updateCompleted''"
| "event_string UpdateCanceledEvent = ''updateCanceled''"
| "event_string GetInfoFailedEvent = ''getInfoFailed''"
| "event_string GetInfoSucceedEvent = ''getInfoSucceed''"
| "event_string DeleteEvent = ''delete''"
| "event_string DeleteCompletedEvent = ''deleteCompleted''"

abbreviation DeleteFailedReason :: string where "DeleteFailedReason \<equiv> ''deleteFailed''"
abbreviation UpdateFailedReason :: string where "UpdateFailedReason \<equiv> ''updateFailed''"
abbreviation clusterKindName :: string where "clusterKindName \<equiv> ''cluster''"

type_synonym cluster_engine = "(cluster_status, zke_event) fsm_engine"

definition cluster_fsm :: "(cluster_status, zke_event) transition list" where
  "cluster_fsm =
     [\<lparr>tr_event = CreateSucceedEvent, tr_src = [CSCreating], tr_dst = CSRunning\<rparr>,
      \<lparr>tr_event = CreateFailedEvent, tr_src = [CSCreating], tr_dst = CSCreateFailed\<rparr>,
      \<lparr>tr_event = CreateCanceledEvent, tr_src = [CSCreating], tr_dst = CSCreateFailed\<rparr>,
      \<lparr>tr_event = ContinuteCreateEvent, tr_src = [CSCreateFailed], tr_dst = CSCreating\<rparr>,
      \<lparr>tr_event = UpdateEvent, tr_src = [CSRunning], tr_dst = CSUpdating\<rparr>,
      \<lparr>tr_event = UpdateCompletedEvent, tr_src = [CSUpdating], tr_dst = CSRunning\<rparr>,
      \<lparr>tr_event = UpdateCanceledEvent, tr_src = [CSUpdating], tr_dst = CSRunning\<rparr>,
      \<lparr>tr_event = GetInfoFailedEvent, tr_src = [CSRunning], tr_dst = CSUnreachable\<rparr>,
      \<lparr>tr_event = GetInfoSucceedEvent, tr_src = [CSUnreachable], tr_dst = CSRunning\<rparr>,
      \<lparr>tr_event = DeleteEvent, tr_src = [CSRunning, CSCreateFailed, CSUnreachable], tr_dst = CSDeleting\<rparr>,
      \<lparr>tr_event = DeleteCompletedEvent, tr_src = [CSDeleting], tr_dst = CSDeleted\<rparr>]"

lemma cluster_fsm_deterministic [simp]: "distinct (fsm_keys cluster_fsm)"
  by (simp add: fsm_keys_def cluster_fsm_def)

lemma cluster_next [simp]:
  "fsm_next cluster_fsm s CreateSucceedEvent = (if s = CSCreating then Some CSRunning else None)"
  "fsm_next cluster_fsm s CreateFailedEvent = (if s = CSCreating then Some CSCreateFailed else None)"
  "fsm_next cluster_fsm s CreateCanceledEvent = (if s = CSCreating then Some CSCreateFailed else None)"
  "fsm_next cluster_fsm s ContinuteCreateEvent = (if s = CSCreateFailed then Some CSCreating else None)"
  "fsm_next cluster_fsm s UpdateEvent = (if s = CSRunning then Some CSUpdating else None)"
  "fsm_next cluster_fsm s UpdateCompletedEvent = (if s = CSUpdating then Some CSRunning else None)"
  "fsm_next cluster_fsm s UpdateCanceledEvent = (if s = CSUpdating then Some CSRunning else None)"
  "fsm_next cluster_fsm s GetInfoFailedEvent = (if s = CSRunning then Some CSUnreachable else None)"
  "fsm_next cluster_fsm s GetInfoSucceedEvent = (if s = CSUnreachable then Some CSRunning else None)"
  "fsm_next cluster_fsm s DeleteEvent
   = (if s = CSRunning \<or> s = CSCreateFailed \<or> s = CSUnreachable then Some CSDeleting else None)"
  "fsm_next cluster_fsm s DeleteCompletedEvent = (if s = CSDeleting then Some CSDeleted else None)"
  by (simp_all add: fsm_next_def cluster_fsm_def)

text \<open>What the events of the machine do to a status, when the engine keeps its promises.\<close>

lemmas fsm_event_simps = fsm_laws.event_Inr_iff [OF _ cluster_fsm_deterministic]
  fsm_laws.can_iff [OF _ cluster_fsm_deterministic]

section \<open>An engine that searches the table\<close>

definition table_engine :: "('s, 'e) fsm_engine" where
  "table_engine =
     \<lparr>fsmEvent = (\<lambda>tbl s e. case fsm_next tbl s e of
                    Some d \<Rightarrow> Inr d
                  | None \<Rightarrow> Inl ''event inappropriate in current state''),
      fsmCan = (\<lambda>tbl s e. fsm_next tbl s e \<noteq> None)\<rparr>"

lemma table_engine_simps [simp]:
  "fsmEvent table_engine tbl s e =
     (case fsm_next tbl s e of Some d \<Rightarrow> Inr d | None \<Rightarrow> Inl ''event inappropriate in current state'')"
  "fsmCan table_engine tbl s e \<longleftrightarrow> fsm_next tbl s e \<noteq> None"
  by (simp_all add: table_engine_def)

interpretation table_fsm: fsm_laws table_engine cluster_fsm
  by unfold_locales simp_all

end
