(* ===== verification/ZkeDb.thy ===== *)
theory ZkeDb
  imports Kvzoo ZkeTypes
begin

text \<open>
  The cluster table (\<^verbatim>\<open>pkg/zke/db.go\<close>): one JSON document per cluster, under its name.
  The type \<open>'fs\<close> stands for the zke library's \<^verbatim>\<open>core.FullState\<close>, which the program stores
  and passes back; \<open>pem\<close> is its \<^verbatim>\<open>pki.TransformPEMToObject\<close> on both certificate bundles
  (the identity on a state whose desired state has no bundle, as \<^verbatim>\<open>readClusterJson\<close>
  checks). The pointer to the configuration is never nil in a stored document, so it is a value.
\<close>

record 'fs cluster_state =
  cs_FullState :: "'fs option"
  cs_ZKEConfig :: zke_config
  cs_CreateTime :: time
  cs_DeleteTime :: time
  cs_Created :: bool
  cs_ScVersion :: string

type_synonym ('d, 'tx, 'fs) cluster_table = "('d, 'tx, 'fs cluster_state json) kvzoo"

definition readClusterJson ::
  "('fs \<Rightarrow> 'fs) \<Rightarrow> 'fs cluster_state json \<Rightarrow> goerr + 'fs cluster_state" where
  "readClusterJson pem js =
     (case json_unmarshal js of
        Inl e \<Rightarrow> Inl e
      | Inr s \<Rightarrow> Inr (s\<lparr>cs_FullState := map_option pem (cs_FullState s)\<rparr>))"

text \<open>An absent key gives no bytes, which do not decode.\<close>

definition getClusterFromDB ::
  "('d, 'tx, 'fs) cluster_table \<Rightarrow> ('fs \<Rightarrow> 'fs) \<Rightarrow> string \<Rightarrow> 'd \<Rightarrow> goerr + 'fs cluster_state" where
  "getClusterFromDB T pem clusterID d =
     (case kv_read T (\<lambda>e. ''begin transaction failed: '' @ e) (\<lambda>tx. map_err id (kvGet T tx clusterID)) d of
        Inl e \<Rightarrow> Inl e
      | Inr value \<Rightarrow>
          map_err (\<lambda>e. ''read cluster '' @ clusterID @ ''  state failed '' @ e)
            (case value of
               None \<Rightarrow> Inl ''unexpected end of JSON input''
             | Some js \<Rightarrow> readClusterJson pem js))"

definition createOrUpdateClusterFromDB ::
  "('d, 'tx, 'fs) cluster_table \<Rightarrow> string \<Rightarrow> 'fs cluster_state \<Rightarrow> 'd \<Rightarrow> 'd \<times> goerr option" where
  "createOrUpdateClusterFromDB T clusterID s =
     kv_write T (\<lambda>e. ''begin transaction failed '' @ e)
       (\<lambda>e. ''commit cluster '' @ clusterID @ ''  state failed '' @ e)
       (\<lambda>tx. case kvGet T tx clusterID of
               Inr (Some existValue) \<Rightarrow>
                 map_err (\<lambda>e. ''update cluster '' @ clusterID @ ''  state failed '' @ e)
                   (kvUpdate T tx clusterID (json_marshal s))
             | _ \<Rightarrow>
                 map_err (\<lambda>e. ''add cluster '' @ clusterID @ '' state failed '' @ e)
                   (kvAdd T tx clusterID (json_marshal s)))"

definition deleteClusterFromDB ::
  "('d, 'tx, 'fs) cluster_table \<Rightarrow> string \<Rightarrow> 'd \<Rightarrow> 'd \<times> goerr option" where
  "deleteClusterFromDB T clusterID =
     kv_write T (\<lambda>e. ''begin transaction failed '' @ e)
       (\<lambda>e. ''commit cluster '' @ clusterID @ ''  state failed '' @ e)
       (\<lambda>tx. map_err (\<lambda>e. ''delete cluster '' @ clusterID @ ''  state failed '' @ e)
               (kvDelete T tx clusterID))"

text \<open>The decoding loop of \<^verbatim>\<open>getClustersFromDB\<close>: it stops at the first document that fails.\<close>

fun read_states ::
  "('fs \<Rightarrow> 'fs) \<Rightarrow> (string \<times> 'fs cluster_state json) list \<Rightarrow> goerr + (string \<times> 'fs cluster_state) list"
where
  "read_states pem [] = Inr []"
| "read_states pem ((k, v) # kvs) =
     (case readClusterJson pem v of
        Inl e \<Rightarrow> Inl (''read cluster '' @ k @ '' state failed '' @ e)
      | Inr s \<Rightarrow> map_sum id ((#) (k, s)) (read_states pem kvs))"

definition getClustersFromDB ::
  "('d, 'tx, 'fs) cluster_table \<Rightarrow> ('fs \<Rightarrow> 'fs) \<Rightarrow> 'd \<Rightarrow> goerr + (string \<times> 'fs cluster_state) list" where
  "getClustersFromDB T pem d =
     (case kv_read T (\<lambda>e. ''begin transaction failed '' @ e)
             (\<lambda>tx. map_err (\<lambda>e. ''list cluster state failed '' @ e) (kvList T tx)) d of
        Inl e \<Rightarrow> Inl e
      | Inr values \<Rightarrow> read_states pem values)"

section \<open>What the helpers do to the table\<close>

definition loaded :: "('fs \<Rightarrow> 'fs) \<Rightarrow> 'fs cluster_state \<Rightarrow> 'fs cluster_state" where
  "loaded pem s = s\<lparr>cs_FullState := map_option pem (cs_FullState s)\<rparr>"

lemma loaded_simps [simp]:
  "cs_ZKEConfig (loaded pem s) = cs_ZKEConfig s"
  "cs_CreateTime (loaded pem s) = cs_CreateTime s"
  "cs_DeleteTime (loaded pem s) = cs_DeleteTime s"
  "cs_Created (loaded pem s) = cs_Created s"
  "cs_ScVersion (loaded pem s) = cs_ScVersion s"
  "cs_FullState (loaded pem s) = None \<longleftrightarrow> cs_FullState s = None"
  by (simp_all add: loaded_def)

lemma readClusterJson_simps [simp]:
  "readClusterJson pem (Json s) = Inr (loaded pem s)"
  "readClusterJson pem (NotJson b) = Inl (''invalid character in '' @ b)"
  by (simp_all add: readClusterJson_def loaded_def)

lemma readClusterJson_Inr: "readClusterJson pem js = Inr s \<Longrightarrow> \<exists>s0. js = Json s0 \<and> s = loaded pem s0"
  by (cases js) auto

lemma createOrUpdate_cases:
  assumes kv: "kv_laws T view txview" and w: "createOrUpdateClusterFromDB T k s d = (d', r)"
  shows "(r = None \<and> view d' = (view d)(k \<mapsto> Json s)) \<or> (r \<noteq> None \<and> view d' = view d)"
  by (rule kv_laws.write_cases [OF kv w [unfolded createOrUpdateClusterFromDB_def]])
    (auto simp: json_marshal_def split: sum.splits option.splits
      dest: kv_laws.add_view [OF kv] kv_laws.update_view [OF kv])

lemma createOrUpdate_live:
  assumes kv: "kv_live T view txview"
  shows "\<exists>d'. createOrUpdateClusterFromDB T k s d = (d', None) \<and> view d' = (view d)(k \<mapsto> Json s)"
proof -
  note kl = kv_live.axioms(1) [OF kv]
  have "\<exists>d'. createOrUpdateClusterFromDB T k s d = (d', None)"
    unfolding createOrUpdateClusterFromDB_def
  proof (rule kv_live.write_live [OF kv])
    fix tx
    obtain r where "kvGet T tx k = Inr r" using kv_live.get_ok [OF kv] by blast
    then show "\<exists>tx'. (case kvGet T tx k of
               Inr (Some existValue) \<Rightarrow>
                 map_err (\<lambda>e. ''update cluster '' @ k @ ''  state failed '' @ e)
                   (kvUpdate T tx k (json_marshal s))
             | _ \<Rightarrow>
                 map_err (\<lambda>e. ''add cluster '' @ k @ '' state failed '' @ e)
                   (kvAdd T tx k (json_marshal s))) = Inr tx'"
      using kv_laws.get_view [OF kl] kv_live.update_ok [OF kv] kv_live.add_ok [OF kv]
      by (cases r) auto
  qed
  then show ?thesis using createOrUpdate_cases [OF kl] by blast
qed

lemma deleteCluster_cases:
  assumes "kv_laws T view txview" "deleteClusterFromDB T k d = (d', r)"
  shows "(r = None \<and> view d' = (view d)(k := None)) \<or> (r \<noteq> None \<and> view d' = view d)"
  using kv_laws.write_delete [OF assms(1)] assms(2) by (simp add: deleteClusterFromDB_def)

lemma deleteCluster_live:
  assumes "kv_live T view txview"
  shows "\<exists>d'. deleteClusterFromDB T k d = (d', None) \<and> view d' = (view d)(k := None)"
  using kv_live.write_delete_live [OF assms] by (simp add: deleteClusterFromDB_def)

lemma getCluster_Inr:
  assumes "kv_laws T view txview" "getClusterFromDB T pem k d = Inr s"
  shows "\<exists>s0. view d k = Some (Json s0) \<and> s = loaded pem s0"
proof -
  obtain v where v: "kv_read T (\<lambda>e. ''begin transaction failed: '' @ e) (\<lambda>tx. map_err id (kvGet T tx k)) d = Inr v"
    using assms(2) by (auto simp: getClusterFromDB_def split: sum.splits)
  with kv_laws.read_get [OF assms(1)] have "v = view d k" by blast
  with v assms(2) show ?thesis
    by (auto simp: getClusterFromDB_def dest: readClusterJson_Inr split: option.splits)
qed

lemma getCluster_live:
  assumes "kv_live T view txview" "view d k = Some (Json s)"
  shows "getClusterFromDB T pem k d = Inr (loaded pem s)"
  using kv_live.read_get_live [OF assms(1)] assms(2) by (simp add: getClusterFromDB_def)

lemma read_states_Inr:
  "read_states pem kvs = Inr xs \<Longrightarrow>
   \<exists>ss. kvs = map (\<lambda>(k, s). (k, Json s)) ss \<and> xs = map (\<lambda>(k, s). (k, loaded pem s)) ss"
proof (induction kvs arbitrary: xs)
  case Nil
  then show ?case by simp
next
  case (Cons kv kvs)
  obtain k v where kv: "kv = (k, v)" by force
  with Cons.prems obtain s0 ys where "v = Json s0" "read_states pem kvs = Inr ys" "xs = (k, loaded pem s0) # ys"
    by (cases v; cases "read_states pem kvs") auto
  with Cons.IH [of ys] kv obtain ss where
    "kv # kvs = map (\<lambda>(k, s). (k, Json s)) ((k, s0) # ss)"
    "xs = map (\<lambda>(k, s). (k, loaded pem s)) ((k, s0) # ss)"
    by auto
  then show ?case by (intro exI conjI)
qed

lemma read_states_Json:
  "read_states pem (map (\<lambda>(k, s). (k, Json s)) ss) = Inr (map (\<lambda>(k, s). (k, loaded pem s)) ss)"
  by (induction ss) auto

end
