(* ===== verification/GoNet.thy ===== *)
theory GoNet
  imports Prelude
begin

text \<open>
  The part of Go's package \<^verbatim>\<open>net\<close> the cluster validation uses: \<^verbatim>\<open>ParseIP\<close>,
  \<^verbatim>\<open>ParseCIDR\<close>, \<^verbatim>\<open>IP.To4\<close>, \<^verbatim>\<open>IP.Mask\<close> and \<^verbatim>\<open>IPNet.Contains\<close>, with the
  scanning loops of the Go 1.13 library. An address is a list of 16 (or, after \<open>To4\<close>, 4) bytes,
  each a natural number below 256. The lemmas give the round trip of a dotted address and the
  meaning of containment as equality of the leading bits.
\<close>

unbundle bit_operations_syntax

type_synonym ip = "nat list"

section \<open>Scanning\<close>

text \<open>
  \<open>dtoi\<close> reads the leading digits: the value and the rest of the string, or nothing when there
  is no digit or the value reaches 0xFFFFFF. \<open>xtoi\<close> is the same for hexadecimal digits.
\<close>

fun dtoi_loop :: "nat \<Rightarrow> string \<Rightarrow> (nat \<times> string) option" where
  "dtoi_loop n [] = Some (n, [])"
| "dtoi_loop n (c # cs) =
     (if is_digit c
      then let n' = 10 * n + digit_val c
           in if n' \<ge> 0xFFFFFF then None else dtoi_loop n' cs
      else Some (n, c # cs))"

definition dtoi :: "string \<Rightarrow> (nat \<times> string) option" where
  "dtoi s = (case s of [] \<Rightarrow> None | c # cs \<Rightarrow> if is_digit c then dtoi_loop 0 s else None)"

definition hex_val :: "char \<Rightarrow> nat option" where
  "hex_val c =
     (let k = of_char c :: nat
      in if is_digit c then Some (k - 48)
         else if 97 \<le> k \<and> k \<le> 102 then Some (k - 87)
         else if 65 \<le> k \<and> k \<le> 70 then Some (k - 55)
         else None)"

fun xtoi_loop :: "nat \<Rightarrow> string \<Rightarrow> (nat \<times> string) option" where
  "xtoi_loop n [] = Some (n, [])"
| "xtoi_loop n (c # cs) =
     (case hex_val c of
        None \<Rightarrow> Some (n, c # cs)
      | Some v \<Rightarrow> let n' = 16 * n + v in if n' \<ge> 0xFFFFFF then None else xtoi_loop n' cs)"

definition xtoi :: "string \<Rightarrow> (nat \<times> string) option" where
  "xtoi s = (case s of [] \<Rightarrow> None | c # cs \<Rightarrow> if hex_val c = None then None else xtoi_loop 0 s)"

section \<open>Addresses\<close>

definition v4InV6Prefix :: "nat list" where
  "v4InV6Prefix = [0, 0, 0, 0, 0, 0, 0, 0, 0, 0, 255, 255]"

definition IPv4 :: "nat list \<Rightarrow> ip" where
  "IPv4 p = v4InV6Prefix @ p"

text \<open>The loop of \<^verbatim>\<open>parseIPv4\<close>: \<open>i\<close> counts the bytes still to read.\<close>

fun parseIPv4_loop :: "nat \<Rightarrow> bool \<Rightarrow> string \<Rightarrow> nat list option" where
  "parseIPv4_loop 0 first s = (if s = [] then Some [] else None)"
| "parseIPv4_loop (Suc i) first s =
     (case (if first then (if s = [] then None else Some s)
            else (case s of c # cs \<Rightarrow> if c = CHR ''.'' then Some cs else None | [] \<Rightarrow> None)) of
        None \<Rightarrow> None
      | Some s' \<Rightarrow>
          (case dtoi s' of
             None \<Rightarrow> None
           | Some (n, rest) \<Rightarrow>
               if n > 255 then None
               else map_option ((#) n) (parseIPv4_loop i False rest)))"

definition parseIPv4 :: "string \<Rightarrow> ip option" where
  "parseIPv4 s = map_option IPv4 (parseIPv4_loop 4 True s)"

text \<open>
  The loop of \<^verbatim>\<open>parseIPv6\<close>: \<open>acc\<close> holds the bytes read so far and \<open>ell\<close> the position of
  the ellipsis. It returns the bytes, the ellipsis and the unread rest.
\<close>

function parseIPv6_loop ::
  "nat list \<Rightarrow> nat option \<Rightarrow> string \<Rightarrow> (nat list \<times> nat option \<times> string) option" where
  "parseIPv6_loop acc ell s =
     (if length acc \<ge> 16 then Some (acc, ell, s)
      else case xtoi s of
        None \<Rightarrow> None
      | Some (n, rest) \<Rightarrow>
          if n > 0xFFFF then None
          else if rest \<noteq> [] \<and> hd rest = CHR ''.'' then
            (if (ell = None \<and> length acc \<noteq> 12) \<or> length acc + 4 > 16 then None
             else case parseIPv4 s of
                    None \<Rightarrow> None
                  | Some ip4 \<Rightarrow> Some (acc @ drop 12 ip4, ell, []))
          else
            let acc' = acc @ [n div 256, n mod 256]
            in if rest = [] then Some (acc', ell, [])
               else if hd rest \<noteq> CHR '':'' \<or> length rest = 1 then None
               else
                 let s' = tl rest
                 in if hd s' = CHR '':'' then
                      (if ell \<noteq> None then None
                       else if tl s' = [] then Some (acc', Some (length acc'), [])
                       else parseIPv6_loop acc' (Some (length acc')) (tl s'))
                    else parseIPv6_loop acc' ell s')"
  by pat_completeness auto
termination
  by (relation "measure (\<lambda>(acc, ell, s). 16 - length acc)") auto

declare parseIPv6_loop.simps [simp del]

definition parseIPv6_end :: "nat list \<Rightarrow> nat option \<Rightarrow> string \<Rightarrow> ip option" where
  "parseIPv6_end acc ell s =
     (if s \<noteq> [] then None
      else if length acc < 16 then
        (case ell of
           None \<Rightarrow> None
         | Some e \<Rightarrow> Some (take e acc @ replicate (16 - length acc) 0 @ drop e acc))
      else if ell \<noteq> None then None
      else Some acc)"

definition parseIPv6 :: "string \<Rightarrow> ip option" where
  "parseIPv6 s =
     (if hasPrefix s ''::'' then
        (if drop 2 s = [] then Some (replicate 16 0)
         else case parseIPv6_loop [] (Some 0) (drop 2 s) of
                None \<Rightarrow> None
              | Some (acc, ell, rest) \<Rightarrow> parseIPv6_end acc ell rest)
      else case parseIPv6_loop [] None s of
             None \<Rightarrow> None
           | Some (acc, ell, rest) \<Rightarrow> parseIPv6_end acc ell rest)"

text \<open>The first dot or colon decides the family.\<close>

definition parseIP :: "string \<Rightarrow> ip option" where
  "parseIP s =
     (case List.find (\<lambda>c. c = CHR ''.'' \<or> c = CHR '':'') s of
        None \<Rightarrow> None
      | Some c \<Rightarrow> if c = CHR ''.'' then parseIPv4 s else parseIPv6 s)"

definition To4 :: "ip \<Rightarrow> ip option" where
  "To4 a =
     (if length a = 4 then Some a
      else if length a = 16 \<and> take 12 a = v4InV6Prefix then Some (drop 12 a)
      else None)"

section \<open>Networks\<close>

definition mask_byte :: "nat \<Rightarrow> nat" where
  "mask_byte k = (if k \<ge> 8 then 255 else 256 - 2 ^ (8 - k))"

definition CIDRMask :: "nat \<Rightarrow> nat \<Rightarrow> nat list" where
  "CIDRMask ones len = map (\<lambda>j. mask_byte (ones - 8 * j)) [0 ..< len]"

record ip_net =
  net_IP :: ip
  net_Mask :: "nat list"

definition ip_Mask :: "ip \<Rightarrow> nat list \<Rightarrow> ip" where
  "ip_Mask a m =
     (let m' = (if length m = 16 \<and> length a = 4 \<and> take 12 m = replicate 12 255 then drop 12 m else m);
          a' = (if length m' = 4 \<and> length a = 16 \<and> take 12 a = v4InV6Prefix then drop 12 a else a)
      in if length a' \<noteq> length m' then [] else map2 (AND) a' m')"

definition parseCIDR :: "string \<Rightarrow> (ip \<times> ip_net) option" where
  "parseCIDR s =
     (if CHR ''/'' \<notin> set s then None
      else
        let addr = takeWhile (\<lambda>c. c \<noteq> CHR ''/'') s;
            mask = tl (dropWhile (\<lambda>c. c \<noteq> CHR ''/'') s);
            (iplen, a) = (case parseIPv4 addr of Some a \<Rightarrow> (4, Some a) | None \<Rightarrow> (16, parseIPv6 addr))
        in case (a, dtoi mask) of
             (Some a, Some (n, [])) \<Rightarrow>
               if n > 8 * iplen then None
               else let m = CIDRMask n iplen in Some (a, \<lparr>net_IP = ip_Mask a m, net_Mask = m\<rparr>)
           | _ \<Rightarrow> None)"

definition networkNumberAndMask :: "ip_net \<Rightarrow> ip \<times> nat list" where
  "networkNumberAndMask n =
     (let a = (case To4 (net_IP n) of Some a \<Rightarrow> a | None \<Rightarrow> net_IP n);
          m = net_Mask n
      in if length a \<noteq> 4 \<and> length a \<noteq> 16 then ([], [])
         else if length m = 4 then (if length a \<noteq> 4 then ([], []) else (a, m))
         else if length m = 16 then (if length a = 4 then (a, drop 12 m) else (a, m))
         else ([], []))"

definition ipnet_Contains :: "ip_net \<Rightarrow> ip \<Rightarrow> bool" where
  "ipnet_Contains n a =
     (let (nn, m) = networkNumberAndMask n;
          x = (case To4 a of Some x \<Rightarrow> x | None \<Rightarrow> a)
      in length x = length nn
         \<and> list_all (\<lambda>i. (nn ! i) AND (m ! i) = (x ! i) AND (m ! i)) [0 ..< length x])"

section \<open>Dotted addresses\<close>

definition dotted :: "nat list \<Rightarrow> string" where
  "dotted p = formatNat (p ! 0) @ ''.'' @ formatNat (p ! 1) @ ''.'' @ formatNat (p ! 2) @ ''.'' @ formatNat (p ! 3)"

definition is_ipv4_bytes :: "nat list \<Rightarrow> bool" where
  "is_ipv4_bytes p \<longleftrightarrow> length p = 4 \<and> list_all (\<lambda>b. b < 256) p"

lemma foldl_digits_mono: "(m :: nat) \<le> foldl (\<lambda>n c. 10 * n + digit_val c) m ds"
proof (induction ds arbitrary: m)
  case (Cons c ds)
  have "m \<le> 10 * m + digit_val c" by simp
  also have "\<dots> \<le> foldl (\<lambda>n c. 10 * n + digit_val c) (10 * m + digit_val c) ds" by (rule Cons.IH)
  finally show ?case by simp
qed simp

lemma dtoi_loop_digits:
  "list_all is_digit ds \<Longrightarrow> foldl (\<lambda>n c. 10 * n + digit_val c) m ds < 0xFFFFFF \<Longrightarrow>
   dtoi_loop m (ds @ rest) = dtoi_loop (foldl (\<lambda>n c. 10 * n + digit_val c) m ds) rest"
proof (induction ds arbitrary: m)
  case (Cons c ds)
  have "10 * m + digit_val c \<le> foldl (\<lambda>n c. 10 * n + digit_val c) (10 * m + digit_val c) ds"
    by (rule foldl_digits_mono)
  with Cons.prems have "10 * m + digit_val c < 0xFFFFFF" by simp
  with Cons show ?case by simp
qed simp

lemma dtoi_formatNat:
  assumes "n < 0xFFFFFF" "rest = [] \<or> \<not> is_digit (hd rest)"
  shows "dtoi (formatNat n @ rest) = Some (n, rest)"
proof -
  obtain c cs where s: "formatNat n = c # cs" by (cases "formatNat n") simp_all
  have "is_digit c" using formatNat_hd_digit [of n] s by simp
  then have "dtoi (formatNat n @ rest) = dtoi_loop 0 (formatNat n @ rest)" by (simp add: dtoi_def s)
  also have "\<dots> = dtoi_loop n rest"
    using dtoi_loop_digits [OF formatNat_digits, of 0 n rest] assms(1) decimal_val_formatNat [of n]
    by (simp add: decimal_val_def)
  also have "\<dots> = Some (n, rest)" using assms(2) by (cases rest) auto
  finally show ?thesis .
qed

lemma not_digit_dot [simp]: "\<not> is_digit CHR ''.''" "\<not> is_digit CHR ''/''" "\<not> is_digit CHR '':''"
  by (simp_all add: is_digit_def)

lemma parseIPv4_dotted:
  assumes "is_ipv4_bytes p"
  shows "parseIPv4 (dotted p) = Some (IPv4 p)"
proof -
  obtain a b c d where p: "p = [a, b, c, d]" "a < 256" "b < 256" "c < 256" "d < 256"
    using assms by (auto simp: is_ipv4_bytes_def length_Suc_conv numeral_eq_Suc)
  have "parseIPv4_loop (Suc (Suc (Suc (Suc 0)))) True (dotted p) = Some p"
    using p dtoi_formatNat [of d "[]"] by (simp add: dotted_def dtoi_formatNat)
  then show ?thesis by (simp add: parseIPv4_def numeral_eq_Suc)
qed

lemma formatNat_no: "\<not> is_digit x \<Longrightarrow> x \<notin> set (formatNat n)"
  using formatNat_digits [of n] by (auto simp: list_all_iff)

lemma find_first_dot: "List.find (\<lambda>c. c = CHR ''.'' \<or> c = CHR '':'') (formatNat n @ CHR ''.'' # s) = Some CHR ''.''"
proof -
  have "\<forall>c \<in> set (formatNat n). \<not> (c = CHR ''.'' \<or> c = CHR '':'')"
    using formatNat_no [of "CHR ''.''" n] formatNat_no [of "CHR '':''" n] by auto
  then show ?thesis by (simp add: find_skip)
qed

lemma parseIP_dotted:
  assumes "is_ipv4_bytes p"
  shows "parseIP (dotted p) = Some (IPv4 p)"
proof -
  have "List.find (\<lambda>c. c = CHR ''.'' \<or> c = CHR '':'') (dotted p) = Some CHR ''.''"
    by (simp add: dotted_def find_first_dot)
  with parseIPv4_dotted [OF assms] show ?thesis by (simp add: parseIP_def)
qed

lemma To4_IPv4 [simp]: "length p = 4 \<Longrightarrow> To4 (IPv4 p) = Some p"
  by (simp add: To4_def IPv4_def v4InV6Prefix_def)

section \<open>Containment as equality of leading bits\<close>

definition bytes_val :: "nat list \<Rightarrow> nat" where
  "bytes_val = foldl (\<lambda>v b. 256 * v + b) 0"

lemma bytes_val_snoc [simp]: "bytes_val (xs @ [b]) = 256 * bytes_val xs + b"
  by (simp add: bytes_val_def)

lemma and_mask_byte:
  assumes "x < 256"
  shows "x AND mask_byte k = x div 2 ^ (8 - k) * 2 ^ (8 - k)"
proof (cases "k \<ge> 8")
  case True
  have "x AND 255 = take_bit 8 x" by (simp add: take_bit_eq_mask mask_eq_exp_minus_1)
  with True assms show ?thesis by (simp add: mask_byte_def take_bit_nat_eq_self)
next
  case False
  then have k: "k < 8" by simp
  then have "(256 :: nat) = 2 ^ (8 - k) * 2 ^ k" by (simp flip: power_add)
  then have "mask_byte k = push_bit (8 - k) (mask k)"
    using k by (simp add: mask_byte_def push_bit_nat_def mask_nat_def algebra_simps)
  moreover have "x AND push_bit (8 - k) (mask k) = push_bit (8 - k) (drop_bit (8 - k) x)"
  proof (rule bit_eqI)
    fix i
    have "take_bit 8 x = x" using assms by (simp add: take_bit_nat_eq_self)
    then have "bit x i \<Longrightarrow> i < 8" using bit_take_bit_iff [of 8 x i] by simp
    then show "bit (x AND push_bit (8 - k) (mask k)) i \<longleftrightarrow> bit (push_bit (8 - k) (drop_bit (8 - k) x)) i"
      using k by (auto simp: bit_and_iff bit_push_bit_iff bit_mask_iff bit_drop_bit_eq)
  qed
  ultimately show ?thesis by (simp add: push_bit_nat_def drop_bit_nat_def)
qed

lemma and_mask_byte_eq_iff:
  assumes "x < 256" "y < 256"
  shows "x AND mask_byte k = y AND mask_byte k \<longleftrightarrow> x div 2 ^ (8 - k) = y div 2 ^ (8 - k)"
  using assms by (simp add: and_mask_byte)

lemma quot_rem_unique:
  fixes m :: nat
  assumes "a < m" "b < m"
  shows "m * u + a = m * v + b \<longleftrightarrow> u = v \<and> a = b"
proof -
  have "(m * u + a) div m = u" using assms(1) by simp
  moreover have "(m * v + b) div m = v" using assms(2) by simp
  ultimately show ?thesis by auto
qed

lemma bytes_val_inject:
  assumes "length xs = length ys" "list_all (\<lambda>b. b < 256) xs" "list_all (\<lambda>b. b < 256) ys"
  shows "bytes_val xs = bytes_val ys \<longleftrightarrow> xs = ys"
  using assms
proof (induction xs arbitrary: ys rule: rev_induct)
  case (snoc x xs)
  then obtain z zs where ys: "ys = zs @ [z]" by (cases ys rule: rev_cases) auto
  with snoc.prems have "x < 256" "z < 256" by auto
  then have "256 * bytes_val xs + x = 256 * bytes_val zs + z \<longleftrightarrow> bytes_val xs = bytes_val zs \<and> x = z"
    by (rule quot_rem_unique)
  with snoc ys show ?case by auto
qed simp

lemma shifted_byte:
  fixes y :: nat
  assumes "k \<le> 8" "y < 256"
  shows "(256 * x + y) div 2 ^ (8 - k) = 2 ^ k * x + y div 2 ^ (8 - k)" "y div 2 ^ (8 - k) < 2 ^ k"
proof -
  have e: "(256 :: nat) = 2 ^ (8 - k) * 2 ^ k" using assms(1) by (simp flip: power_add)
  have "256 * x + y = y + 2 ^ (8 - k) * (2 ^ k * x)" by (subst e) simp
  then have "(256 * x + y) div 2 ^ (8 - k) = 2 ^ k * x + y div 2 ^ (8 - k)"
    by (metis div_mult_self2 power_not_zero zero_neq_numeral)
  then show "(256 * x + y) div 2 ^ (8 - k) = 2 ^ k * x + y div 2 ^ (8 - k)" .
  show "y div 2 ^ (8 - k) < 2 ^ k"
    using assms(2) e by (simp add: less_mult_imp_div_less mult.commute)
qed

lemma masked_bytes_iff:
  assumes "length xs = length ys" "list_all (\<lambda>b. b < 256) xs" "list_all (\<lambda>b. b < 256) ys"
    and "n \<le> 8 * length xs"
  shows "(\<forall>j < length xs. xs ! j AND mask_byte (n - 8 * j) = ys ! j AND mask_byte (n - 8 * j))
     \<longleftrightarrow> bytes_val xs div 2 ^ (8 * length xs - n) = bytes_val ys div 2 ^ (8 * length xs - n)"
  using assms
proof (induction xs arbitrary: ys rule: rev_induct)
  case (snoc x xs)
  then obtain z zs where ys: "ys = zs @ [z]" "length zs = length xs"
    by (cases ys rule: rev_cases) auto
  with snoc.prems have b: "x < 256" "z < 256"
    and bs: "list_all (\<lambda>b. b < 256) xs" "list_all (\<lambda>b. b < 256) zs" by auto
  let ?l = "length xs"
  have split: "(\<forall>j < length (xs @ [x]). (xs @ [x]) ! j AND mask_byte (n - 8 * j) = ys ! j AND mask_byte (n - 8 * j))
     \<longleftrightarrow> (\<forall>j < ?l. xs ! j AND mask_byte (n - 8 * j) = zs ! j AND mask_byte (n - 8 * j))
       \<and> x div 2 ^ (8 - (n - 8 * ?l)) = z div 2 ^ (8 - (n - 8 * ?l))"
    using ys b by (auto simp: less_Suc_eq nth_append and_mask_byte_eq_iff)
  show ?case
  proof (cases "n \<le> 8 * ?l")
    case True
    then have e: "8 + 8 * ?l - n = 8 + (8 * ?l - n)" by simp
    have d: "(256 * v + w) div 2 ^ (8 + (8 * ?l - n)) = v div 2 ^ (8 * ?l - n)" if "w < 256" for v w :: nat
      using that by (simp add: power_add div_mult2_eq)
    from True b have "x div 2 ^ (8 - (n - 8 * ?l)) = z div 2 ^ (8 - (n - 8 * ?l))" by simp
    with split snoc.IH [OF ys(2) [symmetric] bs True] ys(1) b show ?thesis by (simp add: e d)
  next
    case False
    define k where "k = n - 8 * ?l"
    with False snoc.prems(4) have k: "k \<le> 8" "8 + 8 * ?l - n = 8 - k" by auto
    have full: "mask_byte (n - 8 * j) = 255" if "j < ?l" for j using that False by (simp add: mask_byte_def)
    have same: "v AND 255 = v" if "v < 256" for v :: nat
      using that and_mask_byte [of v 8] by (simp add: mask_byte_def)
    have "(\<forall>j < ?l. xs ! j AND mask_byte (n - 8 * j) = zs ! j AND mask_byte (n - 8 * j)) \<longleftrightarrow> xs = zs"
      using bs ys(2) by (auto simp: full same list_all_length list_eq_iff_nth_eq)
    moreover have "2 ^ k * u + x div 2 ^ (8 - k) = 2 ^ k * v + z div 2 ^ (8 - k)
        \<longleftrightarrow> u = v \<and> x div 2 ^ (8 - k) = z div 2 ^ (8 - k)" for u v :: nat
      by (rule quot_rem_unique) (use shifted_byte(2) [OF k(1)] b in auto)
    ultimately show ?thesis
      using split bytes_val_inject [OF ys(2) [symmetric] bs] ys(1) shifted_byte(1) [OF k(1)] b
      by (simp add: k k_def [symmetric])
  qed
qed simp

section \<open>Networks in dotted form\<close>

lemma parseCIDR_dotted:
  assumes p: "is_ipv4_bytes p" and n: "n \<le> 32"
  shows "parseCIDR (dotted p @ ''/'' @ formatNat n)
       = Some (IPv4 p, \<lparr>net_IP = map2 (AND) p (CIDRMask n 4), net_Mask = CIDRMask n 4\<rparr>)"
proof -
  have no: "CHR ''/'' \<notin> set (dotted p)" by (simp add: dotted_def formatNat_no)
  then have "takeWhile (\<lambda>c. c \<noteq> CHR ''/'') (dotted p @ ''/'' @ formatNat n) = dotted p"
    "dropWhile (\<lambda>c. c \<noteq> CHR ''/'') (dotted p @ ''/'' @ formatNat n) = CHR ''/'' # formatNat n"
    by (auto simp: takeWhile_append dropWhile_append)
  moreover have "dtoi (formatNat n) = Some (n, [])" using dtoi_formatNat [of n "[]"] n by simp
  moreover have "ip_Mask (IPv4 p) (CIDRMask n 4) = map2 (AND) p (CIDRMask n 4)"
    using p by (simp add: ip_Mask_def IPv4_def v4InV6Prefix_def CIDRMask_def is_ipv4_bytes_def)
  ultimately show ?thesis using n parseIPv4_dotted [OF p] by (simp add: parseCIDR_def Let_def)
qed

lemma Contains_dotted:
  assumes p: "is_ipv4_bytes p" and q: "is_ipv4_bytes q" and n: "n \<le> 32"
  shows "ipnet_Contains \<lparr>net_IP = map2 (AND) p (CIDRMask n 4), net_Mask = CIDRMask n 4\<rparr> (IPv4 q)
     \<longleftrightarrow> bytes_val p div 2 ^ (32 - n) = bytes_val q div 2 ^ (32 - n)"
proof -
  have l: "length p = 4" "length q = 4" using p q by (simp_all add: is_ipv4_bytes_def)
  have m: "CIDRMask n 4 ! j = mask_byte (n - 8 * j)" if "j < 4" for j using that by (simp add: CIDRMask_def)
  have lm: "length (CIDRMask n 4) = 4" by (simp add: CIDRMask_def)
  have "ipnet_Contains \<lparr>net_IP = map2 (AND) p (CIDRMask n 4), net_Mask = CIDRMask n 4\<rparr> (IPv4 q)
    \<longleftrightarrow> (\<forall>j < length p. p ! j AND mask_byte (n - 8 * j) = q ! j AND mask_byte (n - 8 * j))"
    using l lm m
    by (auto simp: ipnet_Contains_def networkNumberAndMask_def To4_def IPv4_def v4InV6Prefix_def
        list_all_length and.assoc Let_def)
  also have "\<dots> \<longleftrightarrow> bytes_val p div 2 ^ (32 - n) = bytes_val q div 2 ^ (32 - n)"
    using masked_bytes_iff [of p q n] p q n l by (simp add: is_ipv4_bytes_def)
  finally show ?thesis .
qed

end
