(* ===== verification/ZkeValidation.thy ===== *)
theory ZkeValidation
  imports ZkeTypes GoNet
begin

text \<open>
  Validation of a cluster's configuration before it is created or updated
  (\<^verbatim>\<open>pkg/zke/validation.go\<close>, \<^verbatim>\<open>pkg/zke/validation_util.go\<close>). A validator returns the
  first error it finds. The string sets of the code are lists here, used only through membership
  and extensional equality. The node listener is an argument: it tells whether a node of the
  cluster is used by a storage.
\<close>

section \<open>Helpers\<close>

definition isNodeRolesChanage :: "node \<Rightarrow> node \<Rightarrow> bool" where
  "isNodeRolesChanage oldNode newNode \<longleftrightarrow> set (node_Roles newNode) \<noteq> set (node_Roles oldNode)"

definition isNodeRoleDuplicate :: "node \<Rightarrow> bool" where
  "isNodeRoleDuplicate node \<longleftrightarrow> length (remdups (node_Roles node)) \<noteq> length (node_Roles node)"

definition isIPv4 :: "string \<Rightarrow> bool" where
  "isIPv4 input = (case parseIP input of None \<Rightarrow> False | Some ip \<Rightarrow> To4 ip \<noteq> None)"

definition isCIDRv4 :: "string \<Rightarrow> bool" where
  "isCIDRv4 input = (case parseCIDR input of None \<Rightarrow> False | Some (ip, _) \<Rightarrow> To4 ip \<noteq> None)"

definition isCIDRv4Contains :: "string \<Rightarrow> string \<Rightarrow> bool" where
  "isCIDRv4Contains network ip =
     (case parseIP ip of
        None \<Rightarrow> False
      | Some ipv4 \<Rightarrow>
          if To4 ipv4 = None then False
          else (case parseCIDR network of None \<Rightarrow> False | Some (_, networkv4) \<Rightarrow> ipnet_Contains networkv4 ipv4))"

definition isIPv4Host :: "string \<Rightarrow> bool" where
  "isIPv4Host input =
     (case split input '':'' of
        [h, p] \<Rightarrow>
          (case atoi p of
             None \<Rightarrow> False
           | Some port \<Rightarrow>
               (case parseIP h of None \<Rightarrow> False | Some ip \<Rightarrow> To4 ip \<noteq> None) \<and> port > 0 \<and> port \<le> 65535)
      | _ \<Rightarrow> False)"

definition getToDeleteNodes :: "sc_cluster \<Rightarrow> sc_cluster \<Rightarrow> string list" where
  "getToDeleteNodes old new =
     filter (\<lambda>name. name \<notin> set (map node_Name (sc_Nodes new))) (map node_Name (sc_Nodes old))"

text \<open>The first error a loop over a list returns.\<close>

fun first_error :: "('a \<Rightarrow> goerr option) \<Rightarrow> 'a list \<Rightarrow> goerr option" where
  "first_error f [] = None"
| "first_error f (x # xs) = (case f x of Some e \<Rightarrow> Some e | None \<Rightarrow> first_error f xs)"

section \<open>Validators\<close>

definition validateClusterCIDRAndIPs :: "sc_cluster \<Rightarrow> goerr option" where
  "validateClusterCIDRAndIPs c =
     (if \<not> isIPv4 (sc_ClusterDNSServiceIP c)
      then Some (''clusterDnsServiceIP '' @ sc_ClusterDNSServiceIP c @ '' isn't an ipv4 address'')
      else
        case first_error (\<lambda>ns. if \<not> isIPv4 ns then Some (''clusterUpstreamDNS '' @ ns @ '' isn't an ipv4 address'') else None)
               (sc_ClusterUpstreamDNS c) of
          Some e \<Rightarrow> Some e
        | None \<Rightarrow>
            if \<not> isCIDRv4 (sc_ClusterCidr c) then Some ''clusterCidr isn't an ipv4 CIDR''
            else if \<not> isCIDRv4 (sc_ServiceCidr c) then Some ''serviceCidr isn't an ipv4 CIDR''
            else if \<not> isCIDRv4Contains (sc_ServiceCidr c) (sc_ClusterDNSServiceIP c)
            then Some (''clusterDnsServiceIP '' @ sc_ClusterDNSServiceIP c @ '' not in serviceCidr '' @ sc_ServiceCidr c)
            else None)"

definition validateDuplicateNodes :: "sc_cluster \<Rightarrow> goerr option" where
  "validateDuplicateNodes c =
     (let nodes = sc_Nodes c; idx = [0 ..< length nodes]
      in first_error (\<lambda>i. first_error (\<lambda>j.
           if i = j then None
           else if node_Address (nodes ! i) = node_Address (nodes ! j)
           then Some (''duplicate node address '' @ node_Address (nodes ! i))
           else if node_Name (nodes ! i) = node_Name (nodes ! j)
           then Some (''duplicate node name '' @ node_Name (nodes ! i))
           else None) idx) idx)"

definition validateNodeCount :: "sc_cluster \<Rightarrow> goerr option" where
  "validateNodeCount c =
     (let hasControlplane = list_ex (\<lambda>n. HasRole n RoleControlPlane) (sc_Nodes c);
          hasWorker = list_ex (\<lambda>n. HasRole n RoleWorker) (sc_Nodes c)
      in if \<not> hasControlplane \<or> \<not> hasWorker
         then Some ''a cluster must has at least one controlplane and one worker node'' else None)"

definition validateNodeNameRoleAndAddress :: "sc_cluster \<Rightarrow> goerr option" where
  "validateNodeNameRoleAndAddress c =
     first_error (\<lambda>n.
       if \<not> HasRole n RoleControlPlane \<and> \<not> HasRole n RoleWorker
       then Some (node_Name n @ '' must be controlplane or worker'')
       else if HasRole n RoleControlPlane \<and> HasRole n RoleWorker
       then Some (node_Name n @ '' controlplane node can't be worker'')
       else if isNodeRoleDuplicate n then Some (node_Name n @ '' node has duplicate role'')
       else if \<not> isIPv4 (node_Address n) then Some (node_Address n @ '' node address isn't an ipv4 address'')
       else None) (sc_Nodes c)"

definition validateScAddress :: "sc_cluster \<Rightarrow> goerr option" where
  "validateScAddress c =
     (if \<not> isIPv4Host (sc_SingleCloudAddress c)
      then Some ''singlecloud address must be an ipv4 host such as 10.10.10.10:8000''
      else
        let scIp = split (sc_SingleCloudAddress c) '':'' ! 0
        in first_error (\<lambda>n. if node_Address n = scIp
             then Some (''singlecloud server '' @ node_Address n @ '' cant't be an node'') else None) (sc_Nodes c))"

definition validateLBConfig :: "sc_cluster \<Rightarrow> goerr option" where
  "validateLBConfig c =
     (let lb = sc_LoadBalance c
      in if \<not> lb_Enable lb then None
         else if \<not> isIPv4 (lb_MasterServer lb) \<and> \<not> isIPv4Host (lb_MasterServer lb)
         then Some ''loadbalance master server must be an ipv4 address or an ipv4 host''
         else if lb_BackupServer lb \<noteq> '''' \<and> \<not> isIPv4 (lb_BackupServer lb) \<and> \<not> isIPv4Host (lb_BackupServer lb)
         then Some ''loadbalance backup server must be an ipv4 address or an ipv4 host''
         else if lb_User lb = '''' then Some ''loadbalance user can't be empty''
         else None)"

definition validateClusterSSHKeyNotEmpty :: "sc_cluster \<Rightarrow> goerr option" where
  "validateClusterSSHKeyNotEmpty c =
     (if length (sc_SSHKey c) = 0 then Some ''cluster sshkey is empty'' else None)"

definition validateCannotDeleteNode :: "sc_cluster \<Rightarrow> sc_cluster \<Rightarrow> goerr option" where
  "validateCannotDeleteNode oldCluster newCluster =
     (let cpHosts = map node_Address (filter (\<lambda>n. HasRole n RoleControlPlane) (sc_Nodes newCluster))
      in first_error (\<lambda>n. if HasRole n RoleControlPlane \<and> node_Address n \<notin> set cpHosts
           then Some (''controlplane node only can add, '' @ node_Address n @ '' not in new config'')
           else None) (sc_Nodes oldCluster))"

definition validateNodesRoleChanage :: "sc_cluster \<Rightarrow> sc_cluster \<Rightarrow> goerr option" where
  "validateNodesRoleChanage oldCluster newCluster =
     first_error (\<lambda>old. first_error (\<lambda>new.
       if node_Address old = node_Address new \<and> isNodeRolesChanage old new
       then Some (''doesn't support chanage node roles ['' @ node_Address old @ '']'') else None)
       (sc_Nodes newCluster)) (sc_Nodes oldCluster)"

definition validateNodesNameChanage :: "sc_cluster \<Rightarrow> sc_cluster \<Rightarrow> goerr option" where
  "validateNodesNameChanage oldCluster newCluster =
     first_error (\<lambda>old. first_error (\<lambda>new.
       if node_Address old = node_Address new \<and> node_Name old \<noteq> node_Name new
       then Some (''doesn't support chanage node name ['' @ node_Address old @ '']'') else None)
       (sc_Nodes newCluster)) (sc_Nodes oldCluster)"

definition validateToDeleteStorageNodes ::
  "sc_cluster \<Rightarrow> sc_cluster \<Rightarrow> (string \<Rightarrow> goerr + bool) \<Rightarrow> bool \<Rightarrow> goerr option" where
  "validateToDeleteStorageNodes oldCluster newCluster isStorageNode hasKubeClient =
     (if \<not> hasKubeClient then None
      else first_error (\<lambda>n.
             case isStorageNode n of
               Inl e \<Rightarrow> Some (''validateToDeleteStorageNodes err '' @ e)
             | Inr True \<Rightarrow> Some (''node '' @ n @ '' used by storage,please delete it from storage first'')
             | Inr False \<Rightarrow> None) (getToDeleteNodes oldCluster newCluster))"

section \<open>The two entry points\<close>

definition createValidators :: "(sc_cluster \<Rightarrow> goerr option) list" where
  "createValidators =
     [validateClusterCIDRAndIPs, validateDuplicateNodes, validateNodeCount,
      validateNodeNameRoleAndAddress, validateScAddress, validateLBConfig]"

definition updateValidators :: "(sc_cluster \<Rightarrow> sc_cluster \<Rightarrow> goerr option) list" where
  "updateValidators = [validateCannotDeleteNode, validateNodesRoleChanage, validateNodesNameChanage]"

definition validateConfigForCreate :: "sc_cluster \<Rightarrow> goerr option" where
  "validateConfigForCreate c =
     (case first_error (\<lambda>f. f c) createValidators of
        Some e \<Rightarrow> Some e
      | None \<Rightarrow> validateClusterSSHKeyNotEmpty c)"

definition validateConfigForUpdate ::
  "sc_cluster \<Rightarrow> sc_cluster \<Rightarrow> (string \<Rightarrow> goerr + bool) \<Rightarrow> bool \<Rightarrow> goerr option" where
  "validateConfigForUpdate oldCluster newCluster isStorageNode hasKubeClient =
     (case first_error (\<lambda>f. f newCluster) createValidators of
        Some e \<Rightarrow> Some e
      | None \<Rightarrow>
          (case first_error (\<lambda>f. f oldCluster newCluster) updateValidators of
             Some e \<Rightarrow> Some e
           | None \<Rightarrow> validateToDeleteStorageNodes oldCluster newCluster isStorageNode hasKubeClient))"

section \<open>Addresses in dotted form\<close>

lemma isIPv4_dotted: "is_ipv4_bytes p \<Longrightarrow> isIPv4 (dotted p)"
  by (simp add: isIPv4_def parseIP_dotted is_ipv4_bytes_def)

lemma isCIDRv4_dotted: "is_ipv4_bytes p \<Longrightarrow> n \<le> 32 \<Longrightarrow> isCIDRv4 (dotted p @ ''/'' @ formatNat n)"
  by (simp add: isCIDRv4_def parseCIDR_dotted [simplified] is_ipv4_bytes_def)

lemma isCIDRv4Contains_dotted_iff:
  assumes "is_ipv4_bytes p" "is_ipv4_bytes q" "n \<le> 32"
  shows "isCIDRv4Contains (dotted p @ ''/'' @ formatNat n) (dotted q)
     \<longleftrightarrow> bytes_val p div 2 ^ (32 - n) = bytes_val q div 2 ^ (32 - n)"
  using assms Contains_dotted [OF assms] parseCIDR_dotted [OF assms(1,3)] parseIP_dotted [OF assms(2)]
  by (simp add: isCIDRv4Contains_def is_ipv4_bytes_def)

lemma dotted_inject: "is_ipv4_bytes p \<Longrightarrow> is_ipv4_bytes q \<Longrightarrow> dotted p = dotted q \<longleftrightarrow> p = q"
  using parseIPv4_dotted [of p] parseIPv4_dotted [of q] unfolding IPv4_def
  by (metis option.inject same_append_eq)

lemma split_host: "split (dotted p @ '':'' @ formatNat port) '':'' = [dotted p, formatNat port]"
  using split_one [of "CHR '':''" "dotted p" "formatNat port"] by (simp add: dotted_def formatNat_no)

lemma isIPv4Host_dotted_iff:
  assumes "is_ipv4_bytes p" "port < 2 ^ 63"
  shows "isIPv4Host (dotted p @ '':'' @ formatNat port) \<longleftrightarrow> 1 \<le> port \<and> port \<le> 65535"
  unfolding isIPv4Host_def split_host
  using assms parseIP_dotted [OF assms(1)] atoi_formatNat [OF assms(2)]
  by (auto simp: is_ipv4_bytes_def)

section \<open>What passes validation\<close>

lemma or_else_None [simp]: "(case r of None \<Rightarrow> s | Some e \<Rightarrow> Some e) = None \<longleftrightarrow> r = None \<and> s = None"
  by (cases r) simp_all

lemma first_error_None: "first_error f xs = None \<longleftrightarrow> (\<forall>x \<in> set xs. f x = None)"
  by (induction xs) (auto split: option.splits)

lemma isNodeRoleDuplicate_iff: "isNodeRoleDuplicate n \<longleftrightarrow> \<not> distinct (node_Roles n)"
  by (simp add: isNodeRoleDuplicate_def)

lemma HasRole_iff: "HasRole n role \<longleftrightarrow> role \<in> set (node_Roles n)"
  by (auto simp: HasRole_def list_ex_iff)

lemma validateDuplicateNodes_None:
  "validateDuplicateNodes c = None \<longleftrightarrow>
   distinct (map node_Address (sc_Nodes c)) \<and> distinct (map node_Name (sc_Nodes c))"
proof -
  let ?ns = "sc_Nodes c"
  have "validateDuplicateNodes c = None \<longleftrightarrow>
    (\<forall>i < length ?ns. \<forall>j < length ?ns. i \<noteq> j \<longrightarrow>
       node_Address (?ns ! i) \<noteq> node_Address (?ns ! j) \<and> node_Name (?ns ! i) \<noteq> node_Name (?ns ! j))"
    unfolding validateDuplicateNodes_def Let_def first_error_None by (simp add: Ball_def) blast
  also have "\<dots> \<longleftrightarrow> distinct (map node_Address ?ns) \<and> distinct (map node_Name ?ns)"
    by (simp add: distinct_conv_nth) blast
  finally show ?thesis .
qed

text \<open>A declarative reading of the accepted configurations.\<close>

definition good_node :: "node \<Rightarrow> bool" where
  "good_node n \<longleftrightarrow>
     (RoleControlPlane \<in> set (node_Roles n)) \<noteq> (RoleWorker \<in> set (node_Roles n))
     \<and> distinct (node_Roles n) \<and> isIPv4 (node_Address n)"

definition good_load_balance :: "cluster_load_balance \<Rightarrow> bool" where
  "good_load_balance lb \<longleftrightarrow>
     (isIPv4 (lb_MasterServer lb) \<or> isIPv4Host (lb_MasterServer lb))
     \<and> (lb_BackupServer lb = '''' \<or> isIPv4 (lb_BackupServer lb) \<or> isIPv4Host (lb_BackupServer lb))
     \<and> lb_User lb \<noteq> ''''"

definition good_cluster :: "sc_cluster \<Rightarrow> bool" where
  "good_cluster c \<longleftrightarrow>
     list_all isIPv4 (sc_ClusterDNSServiceIP c # sc_ClusterUpstreamDNS c)
     \<and> isCIDRv4 (sc_ClusterCidr c) \<and> isCIDRv4 (sc_ServiceCidr c)
     \<and> isCIDRv4Contains (sc_ServiceCidr c) (sc_ClusterDNSServiceIP c)
     \<and> distinct (map node_Address (sc_Nodes c)) \<and> distinct (map node_Name (sc_Nodes c))
     \<and> RoleControlPlane \<in> (\<Union>n \<in> set (sc_Nodes c). set (node_Roles n))
     \<and> RoleWorker \<in> (\<Union>n \<in> set (sc_Nodes c). set (node_Roles n))
     \<and> list_all good_node (sc_Nodes c)
     \<and> isIPv4Host (sc_SingleCloudAddress c)
     \<and> split (sc_SingleCloudAddress c) '':'' ! 0 \<notin> set (map node_Address (sc_Nodes c))
     \<and> (if lb_Enable (sc_LoadBalance c) then good_load_balance (sc_LoadBalance c) else True)"

lemma validators_None:
  "validateClusterCIDRAndIPs c = None \<longleftrightarrow>
     list_all isIPv4 (sc_ClusterDNSServiceIP c # sc_ClusterUpstreamDNS c)
     \<and> isCIDRv4 (sc_ClusterCidr c) \<and> isCIDRv4 (sc_ServiceCidr c)
     \<and> isCIDRv4Contains (sc_ServiceCidr c) (sc_ClusterDNSServiceIP c)"
  "validateNodeCount c = None \<longleftrightarrow>
     RoleControlPlane \<in> (\<Union>n \<in> set (sc_Nodes c). set (node_Roles n))
     \<and> RoleWorker \<in> (\<Union>n \<in> set (sc_Nodes c). set (node_Roles n))"
  "validateNodeNameRoleAndAddress c = None \<longleftrightarrow> list_all good_node (sc_Nodes c)"
  "validateScAddress c = None \<longleftrightarrow>
     isIPv4Host (sc_SingleCloudAddress c)
     \<and> split (sc_SingleCloudAddress c) '':'' ! 0 \<notin> set (map node_Address (sc_Nodes c))"
  "validateLBConfig c = None \<longleftrightarrow>
     (if lb_Enable (sc_LoadBalance c) then good_load_balance (sc_LoadBalance c) else True)"
  "validateClusterSSHKeyNotEmpty c = None \<longleftrightarrow> sc_SSHKey c \<noteq> ''''"
  by (auto simp: validateClusterCIDRAndIPs_def validateNodeCount_def validateNodeNameRoleAndAddress_def
      validateScAddress_def validateLBConfig_def validateClusterSSHKeyNotEmpty_def good_node_def
      good_load_balance_def HasRole_iff isNodeRoleDuplicate_iff list_all_iff list_ex_iff Let_def
      first_error_None image_iff split: if_splits)

lemma createValidators_None:
  "first_error (\<lambda>f. f c) createValidators = None \<longleftrightarrow> good_cluster c"
  unfolding first_error_None createValidators_def good_cluster_def
  by (simp add: validators_None validateDuplicateNodes_None)

section \<open>Properties\<close>

text \<open>
  C6. The chain of validators accepts a new cluster exactly when it satisfies the declarative
  reading: addresses and CIDRs are IPv4 and the DNS service address lies in the service CIDR,
  node names and addresses are pairwise distinct, there is a control plane and a worker, every
  node is one of the two and not both, the address of singlecloud is a host outside the cluster,
  an enabled load balancer is complete, and the ssh key is not empty.
\<close>

theorem validateConfigForCreate_iff:
  "validateConfigForCreate c = None \<longleftrightarrow> good_cluster c \<and> sc_SSHKey c \<noteq> ''''"
  by (simp add: validateConfigForCreate_def createValidators_None validators_None(6))

text \<open>
  C7. An accepted update keeps every control plane node: its address is still in the new
  configuration, under the same name and with the same roles; and, when the cluster has a
  client, every node that disappears was reported not to be a storage node.
\<close>

theorem validateConfigForUpdate_keeps:
  assumes "validateConfigForUpdate old new isStorageNode hasKubeClient = None"
  shows "good_cluster new
    \<and> (\<forall>n \<in> set (sc_Nodes old). HasRole n RoleControlPlane \<longrightarrow>
         (\<exists>m \<in> set (sc_Nodes new). node_Address m = node_Address n \<and> node_Name m = node_Name n
            \<and> set (node_Roles m) = set (node_Roles n)))
    \<and> (hasKubeClient \<longrightarrow> (\<forall>n \<in> set (sc_Nodes old).
         node_Name n \<notin> node_Name ` set (sc_Nodes new) \<longrightarrow> isStorageNode (node_Name n) = Inr False))"
proof -
  from assms have cv: "first_error (\<lambda>f. f new) createValidators = None"
    and uv: "first_error (\<lambda>f. f old new) updateValidators = None"
    and sv: "validateToDeleteStorageNodes old new isStorageNode hasKubeClient = None"
    by (simp_all add: validateConfigForUpdate_def)
  have good: "good_cluster new" using cv createValidators_None by blast
  have keep: "\<exists>m \<in> set (sc_Nodes new). node_Address m = node_Address n \<and> node_Name m = node_Name n
      \<and> set (node_Roles m) = set (node_Roles n)"
    if "n \<in> set (sc_Nodes old)" "HasRole n RoleControlPlane" for n
    using uv that
    by (fastforce simp: updateValidators_def validateCannotDeleteNode_def validateNodesRoleChanage_def
        validateNodesNameChanage_def isNodeRolesChanage_def first_error_None Let_def split: if_splits)
  have storage: "isStorageNode (node_Name n) = Inr False"
    if "hasKubeClient" "n \<in> set (sc_Nodes old)" "node_Name n \<notin> node_Name ` set (sc_Nodes new)" for n
    using sv that
    by (cases "isStorageNode (node_Name n)")
      (auto simp: validateToDeleteStorageNodes_def getToDeleteNodes_def first_error_None
        split: sum.splits bool.splits)
  from good keep storage show ?thesis by blast
qed

definition sample_node :: "string \<Rightarrow> nat list \<Rightarrow> node_role \<Rightarrow> node" where
  "sample_node name addr role =
     empty_node\<lparr>node_Name := name, node_Address := dotted addr, node_Roles := [role]\<rparr>"

definition sample_cluster :: sc_cluster where
  "sample_cluster = empty_cluster
     \<lparr>sc_Name := ''local'', sc_SSHUser := ''zcloud'', sc_SSHKey := ''key'', sc_SSHPort := ''22'',
      sc_SingleCloudAddress := dotted [10, 0, 0, 100] @ '':'' @ formatNat 8080,
      sc_ClusterCidr := dotted [10, 42, 0, 0] @ ''/'' @ formatNat 16,
      sc_ServiceCidr := dotted [10, 43, 0, 0] @ ''/'' @ formatNat 16,
      sc_ClusterDomain := ''cluster.local'', sc_ClusterDNSServiceIP := dotted [10, 43, 0, 10],
      sc_ClusterUpstreamDNS := [dotted [223, 5, 5, 5]],
      sc_Nodes := [sample_node ''master'' [10, 0, 0, 1] RoleControlPlane,
                   sample_node ''worker'' [10, 0, 0, 2] RoleWorker]\<rparr>"

lemma sample_cluster_good: "good_cluster sample_cluster"
  unfolding good_cluster_def sample_cluster_def sample_node_def
  by (simp add: good_node_def empty_cluster_def empty_node_def empty_load_balance_def
      isIPv4_dotted isCIDRv4_dotted [simplified] isCIDRv4Contains_dotted_iff [simplified]
      isIPv4Host_dotted_iff [simplified] split_host [simplified] dotted_inject is_ipv4_bytes_def bytes_val_def)

theorem validateConfigForUpdate_keeps_witness:
  "good_cluster sample_cluster
    \<and> (\<exists>m \<in> set (sc_Nodes sample_cluster). node_Address m = dotted [10, 0, 0, 1] \<and> node_Name m = ''master''
         \<and> set (node_Roles m) = {RoleControlPlane})"
proof -
  have "first_error (\<lambda>f. f sample_cluster sample_cluster) updateValidators = None"
    by (auto simp: updateValidators_def validateCannotDeleteNode_def validateNodesRoleChanage_def
        validateNodesNameChanage_def isNodeRolesChanage_def sample_cluster_def sample_node_def dotted_inject
        is_ipv4_bytes_def first_error_None Let_def)
  moreover have "validateToDeleteStorageNodes sample_cluster sample_cluster (\<lambda>_. Inr False) True = None"
    by (simp add: validateToDeleteStorageNodes_def getToDeleteNodes_def sample_cluster_def sample_node_def)
  ultimately have "validateConfigForUpdate sample_cluster sample_cluster (\<lambda>_. Inr False) True = None"
    using sample_cluster_good createValidators_None [of sample_cluster]
    by (simp add: validateConfigForUpdate_def)
  from validateConfigForUpdate_keeps [OF this] show ?thesis
    by (simp add: sample_cluster_def sample_node_def HasRole_iff)
qed

text \<open>
  C8. For a network and an address written in dotted form, containment means what it says: the
  address is in the network exactly when both agree on the first \<open>n\<close> bits.
\<close>

theorem isCIDRv4Contains_dotted:
  assumes "is_ipv4_bytes p" "is_ipv4_bytes q" "n \<le> 32"
  shows "isCIDRv4Contains (dotted p @ ''/'' @ formatNat n) (dotted q)
     \<longleftrightarrow> bytes_val p div 2 ^ (32 - n) = bytes_val q div 2 ^ (32 - n)"
  using assms by (rule isCIDRv4Contains_dotted_iff)

theorem isCIDRv4Contains_dotted_witness:
  "\<not> isCIDRv4Contains (dotted [10, 43, 0, 0] @ ''/'' @ formatNat 16) (dotted [10, 44, 0, 10])"
  using isCIDRv4Contains_dotted [of "[10, 43, 0, 0]" "[10, 44, 0, 10]" 16]
  by (simp add: is_ipv4_bytes_def bytes_val_def)

text \<open>
  C8. A dotted address with a decimal port is accepted as a host exactly when the port is between
  1 and 65535.
\<close>

theorem isIPv4Host_dotted:
  assumes "is_ipv4_bytes p" "port < 2 ^ 63"
  shows "isIPv4Host (dotted p @ '':'' @ formatNat port) \<longleftrightarrow> 1 \<le> port \<and> port \<le> 65535"
  using assms by (rule isIPv4Host_dotted_iff)

theorem isIPv4Host_dotted_witness:
  "isIPv4Host (dotted [10, 0, 0, 1] @ '':'' @ formatNat 65535)
   \<and> \<not> isIPv4Host (dotted [10, 0, 0, 1] @ '':'' @ formatNat 65536)"
  using isIPv4Host_dotted [of "[10, 0, 0, 1]" 65535] isIPv4Host_dotted [of "[10, 0, 0, 1]" 65536]
  by (simp add: is_ipv4_bytes_def)

end
