(* ===== verification/ZkeCluster.thy ===== *)
theory ZkeCluster
  imports ZkeFsm ZkeDb ZkeValidation
begin

text \<open>
  One cluster of the manager (\<^verbatim>\<open>pkg/zke/cluster.go\<close>, \<^verbatim>\<open>upZKECluster\<close> of
  \<^verbatim>\<open>pkg/zke/zke.go\<close>): the object, its queries, and the bodies of the goroutines that create,
  update and destroy it.

  The libraries a goroutine calls (zke, gok8s, client-go) are not part of the repository. A record
  \<open>zke_env\<close> holds their answers for one run; a run is quantified over all of them. \<open>'k\<close> is the
  type of their opaque handles (configuration, client, cache, http client), \<open>'fs\<close> the zke
  library's full state. A panic is \<open>Inl\<close> of its message; the goroutines recover from it.

  The body of a goroutine is split where it can be observed: it computes until its first call of
  \<^verbatim>\<open>c.event\<close> and yields the list of events it then sends, one after the other.
\<close>

section \<open>The object\<close>

datatype chan_state = ChanNil | ChanOpen | ChanClosed

record 'k zcluster =
  c_Name :: string
  c_createTime :: time
  c_deleteTime :: time
  c_kubeClient :: "'k option"
  c_cache :: "'k option"
  c_k8sConfig :: "'k option"
  c_stopCh :: chan_state
  c_config :: zke_config
  c_cancel :: bool
  c_isCanceled :: bool
  c_fsm :: cluster_status
  c_scVersion :: string
  c_kubeHttpClient :: "'k option"

definition empty_config :: zke_config where
  "empty_config =
     \<lparr>zc_ClusterName = '''',
      zc_Option = \<lparr>opt_SSHUser = '''', opt_SSHPort = '''', opt_SSHKey = '''', opt_ClusterCidr = '''',
        opt_ServiceCidr = '''', opt_ClusterDomain = '''', opt_ClusterDNSServiceIP = '''',
        opt_ClusterUpstreamDNS = []\<rparr>,
      zc_Network = \<lparr>net_Plugin = '''', net_Iface = ''''\<rparr>,
      zc_SingleCloudAddress = '''', zc_Nodes = [], zc_LoadBalance = empty_load_balance\<rparr>"

definition newCluster :: "string \<Rightarrow> cluster_status \<Rightarrow> 'k zcluster" where
  "newCluster name initialStatus =
     \<lparr>c_Name = name, c_createTime = 0, c_deleteTime = 0, c_kubeClient = None, c_cache = None,
      c_k8sConfig = None, c_stopCh = ChanNil, c_config = empty_config, c_cancel = False,
      c_isCanceled = False, c_fsm = initialStatus, c_scVersion = '''', c_kubeHttpClient = None\<rparr>"

definition IsReady :: "'k zcluster \<Rightarrow> bool" where
  "IsReady c \<longleftrightarrow> c_fsm c = CSRunning \<or> c_fsm c = CSUnreachable"

definition ToScCluster :: "nat \<Rightarrow> 'k zcluster \<Rightarrow> sc_cluster" where
  "ToScCluster addr c =
     sc_of_config addr (c_Name c) (c_config c) (c_scVersion c) (c_createTime c) (c_deleteTime c) (c_fsm c)"

definition GetNodeIpsByRole :: "nat \<Rightarrow> 'k zcluster \<Rightarrow> node_role \<Rightarrow> string list" where
  "GetNodeIpsByRole addr c role =
     map node_Address (filter (\<lambda>n. HasRole n role) (sc_Nodes (ToScCluster addr c)))"

definition cluster_Cancel :: "'k zcluster \<Rightarrow> 'k zcluster \<times> goerr option outcome" where
  "cluster_Cancel c =
     (if c_fsm c = CSCreating \<or> c_fsm c = CSUpdating then
        (if c_isCanceled c then (c, Done (Some (''cluster '' @ c_Name c @ '' is caceling'')))
         else
           let c' = c\<lparr>c_isCanceled := True\<rparr>
           in if c_cancel c then (c', Done None) else (c', Panicked ''nil pointer dereference''))
      else (c, Done (Some (''can't cancel cluster '' @ c_Name c @ '' on '' @ status_string (c_fsm c) @ '' status''))))"

section \<open>Answers of the libraries\<close>

record ('k, 'fs) zke_env =
  env_clusterUp :: "zke_config \<Rightarrow> 'fs option \<Rightarrow> string + ('fs option \<times> goerr option)"
  env_clusterRemove :: "zke_config \<Rightarrow> string + goerr option"
  env_kubeConfig :: "'fs \<Rightarrow> string"
  env_buildConfig :: "string \<Rightarrow> goerr + 'k"
  env_clientNew :: "'k \<Rightarrow> goerr + 'k"
  env_transportFor :: "'k \<Rightarrow> goerr + 'k"
  env_cacheNew :: "'k \<Rightarrow> goerr + 'k"
  env_serverVersion :: "goerr option"

text \<open>
  \<open>upZKECluster\<close>: the new full state and either an error or the configuration and the client.
\<close>

definition upZKECluster ::
  "('k, 'fs) zke_env \<Rightarrow> zke_config \<Rightarrow> 'fs option \<Rightarrow> string + ('fs option \<times> (goerr + 'k \<times> 'k))" where
  "upZKECluster env config state =
     (case env_clusterUp env config state of
        Inl p \<Rightarrow> Inl p
      | Inr (newState, Some e) \<Rightarrow> Inr (newState, Inl e)
      | Inr (None, None) \<Rightarrow> Inl ''nil pointer dereference''
      | Inr (Some fs, None) \<Rightarrow>
          (case env_buildConfig env (env_kubeConfig env fs) of
             Inl e \<Rightarrow> Inr (Some fs, Inl e)
           | Inr k8sConfig \<Rightarrow>
               (case env_clientNew env k8sConfig of
                  Inl e \<Rightarrow> Inr (Some fs, Inl e)
                | Inr kubeClient \<Rightarrow> Inr (Some fs, Inr (k8sConfig, kubeClient)))))"

definition newKubeHttpClient :: "('k, 'fs) zke_env \<Rightarrow> 'k \<Rightarrow> goerr + 'k" where
  "newKubeHttpClient env k8sConfig =
     map_err (\<lambda>e. ''create kube http client failed: '' @ e) (env_transportFor env k8sConfig)"

definition setCache :: "('k, 'fs) zke_env \<Rightarrow> 'k \<Rightarrow> 'k zcluster \<Rightarrow> 'k zcluster \<times> goerr option" where
  "setCache env k8sConfig c =
     (case newKubeHttpClient env k8sConfig of
        Inl e \<Rightarrow> (c, Some e)
      | Inr httpClient \<Rightarrow>
          let c' = c\<lparr>c_kubeHttpClient := Some httpClient, c_stopCh := ChanOpen, c_k8sConfig := Some k8sConfig\<rparr>
          in case env_cacheNew env k8sConfig of
               Inl e \<Rightarrow> (c', Some e)
             | Inr cache \<Rightarrow> (c'\<lparr>c_cache := Some cache\<rparr>, None))"

definition cluster_Init :: "('k, 'fs) zke_env \<Rightarrow> string \<Rightarrow> 'k zcluster \<Rightarrow> 'k zcluster \<times> goerr option" where
  "cluster_Init env kubeConfig c =
     (case env_buildConfig env kubeConfig of
        Inl e \<Rightarrow> (c, Some (''build cluster '' @ c_Name c @ '' k8sconfig failed '' @ e))
      | Inr k8sConfig \<Rightarrow>
          (case env_clientNew env k8sConfig of
             Inl e \<Rightarrow> (c, Some (''New cluster '' @ c_Name c @ '' gok8s client failed '' @ e))
           | Inr kubeClient \<Rightarrow>
               (case setCache env k8sConfig (c\<lparr>c_kubeClient := Some kubeClient\<rparr>) of
                  (c', Some e) \<Rightarrow> (c', Some (''set cluster '' @ c_Name c @ '' cache failed '' @ e))
                | (c', None) \<Rightarrow> (c', None))))"

section \<open>The goroutines\<close>

text \<open>
  Each returns the object, the events to send (with the state and the message of the event) and
  whether it starts the connection check loop.
\<close>

type_synonym 'fs sent_event = "zke_event \<times> 'fs cluster_state \<times> string"

definition panic_info :: "string \<Rightarrow> string" where
  "panic_info r = ''zke pannic info '' @ r"

definition cluster_Create ::
  "('k, 'fs) zke_env \<Rightarrow> 'fs cluster_state \<Rightarrow> 'k zcluster \<Rightarrow> 'k zcluster \<times> 'fs sent_event list \<times> bool" where
  "cluster_Create env state c =
     (case upZKECluster env (c_config c) (cs_FullState state) of
        Inl p \<Rightarrow> (c, [(CreateFailedEvent, state, panic_info p)], False)
      | Inr (zkeState, r) \<Rightarrow>
          let state = state\<lparr>cs_FullState := zkeState\<rparr>
          in if c_isCanceled c then (c, [(CreateCanceledEvent, state, '''')], False)
             else case r of
                    Inl e \<Rightarrow> (c, [(CreateFailedEvent, state, e)], False)
                  | Inr (k8sConfig, kubeClient) \<Rightarrow>
                      (case setCache env k8sConfig (c\<lparr>c_kubeClient := Some kubeClient\<rparr>) of
                         (c', Some e) \<Rightarrow> (c', [(CreateFailedEvent, state, e)], False)
                       | (c', None) \<Rightarrow> (c', [(CreateSucceedEvent, state\<lparr>cs_Created := True\<rparr>, '''')], True)))"

definition cluster_Update ::
  "('k, 'fs) zke_env \<Rightarrow> 'fs cluster_state \<Rightarrow> 'k zcluster \<Rightarrow> 'k zcluster \<times> 'fs sent_event list" where
  "cluster_Update env state c =
     (case upZKECluster env (c_config c) (cs_FullState state) of
        Inl p \<Rightarrow> (c, [(UpdateCompletedEvent, state, panic_info p)])
      | Inr (zkeState, r) \<Rightarrow>
          let state = state\<lparr>cs_FullState := zkeState\<rparr>
          in if c_isCanceled c then
               (if cs_Created state then (c, [(UpdateCanceledEvent, state, '''')])
                else (c, [(CreateCanceledEvent, state, '''')]))
             else case r of
                    Inl e \<Rightarrow>
                      if cs_Created state then (c, [(UpdateCompletedEvent, state, e)])
                      else (c, [(CreateFailedEvent, state, e)])
                  | Inr (k8sConfig, k8sClient) \<Rightarrow>
                      if cs_Created state then (c, [(UpdateCompletedEvent, state, '''')])
                      else
                        let (c', err) = setCache env k8sConfig (c\<lparr>c_kubeClient := Some k8sClient\<rparr>);
                            failed = (case err of Some e \<Rightarrow> [(CreateFailedEvent, state, e)] | None \<Rightarrow> [])
                        in (c', failed @ [(CreateSucceedEvent, state\<lparr>cs_Created := True\<rparr>, '''')]))"

definition empty_state :: "'fs cluster_state" where
  "empty_state =
     \<lparr>cs_FullState = None, cs_ZKEConfig = empty_config, cs_CreateTime = 0, cs_DeleteTime = 0,
      cs_Created = False, cs_ScVersion = ''''\<rparr>"

definition cluster_Destroy :: "('k, 'fs) zke_env \<Rightarrow> 'k zcluster \<Rightarrow> 'fs sent_event list" where
  "cluster_Destroy env c =
     (case env_clusterRemove env (c_config c) of
        Inl p \<Rightarrow> [(DeleteCompletedEvent, empty_state, panic_info p)]
      | Inr (Some e) \<Rightarrow> [(DeleteCompletedEvent, empty_state, e)]
      | Inr None \<Rightarrow> [(DeleteCompletedEvent, empty_state, '''')])"

section \<open>What the goroutines keep\<close>

lemma setCache_keeps:
  assumes "setCache env k c = (c', r)"
  shows "c_Name c' = c_Name c \<and> c_config c' = c_config c \<and> c_fsm c' = c_fsm c
    \<and> c_isCanceled c' = c_isCanceled c \<and> c_cancel c' = c_cancel c
    \<and> c_kubeClient c' = c_kubeClient c \<and> c_stopCh c' \<in> {c_stopCh c, ChanOpen}
    \<and> (r = None \<longrightarrow> c_stopCh c' = ChanOpen)"
  using assms by (auto simp: setCache_def Let_def split: sum.splits)

lemma cluster_Create_keeps:
  assumes "cluster_Create env st c = (c', evs, l)"
  shows "c_Name c' = c_Name c \<and> c_config c' = c_config c \<and> c_fsm c' = c_fsm c
    \<and> c_isCanceled c' = c_isCanceled c \<and> c_cancel c' = c_cancel c \<and> c_stopCh c' \<in> {c_stopCh c, ChanOpen}"
  using assms
  by (auto simp: cluster_Create_def Let_def split: sum.splits prod.splits if_splits option.splits
      dest!: setCache_keeps)

lemma cluster_Update_keeps:
  assumes "cluster_Update env st c = (c', evs)"
  shows "c_Name c' = c_Name c \<and> c_config c' = c_config c \<and> c_fsm c' = c_fsm c
    \<and> c_isCanceled c' = c_isCanceled c \<and> c_cancel c' = c_cancel c \<and> c_stopCh c' \<in> {c_stopCh c, ChanOpen}"
  using assms
  by (auto simp: cluster_Update_def Let_def split: sum.splits prod.splits if_splits option.splits
      dest!: setCache_keeps)

end
