(* ===== verification/ZkeManager.thy ===== *)
theory ZkeManager
  imports ZkeCluster
begin

text \<open>
  The cluster manager (\<^verbatim>\<open>pkg/zke/manager.go\<close> and the callbacks of \<^verbatim>\<open>pkg/zke/fsm.go\<close>).
  Cluster objects live in a store, because goroutines keep pointers to them: an address is an
  index into \<open>w_heap\<close>, and \<open>w_clusters\<close> is the manager's slice of pointers. A handler runs
  under the manager's lock and is one step; a goroutine is an entry of \<open>w_workers\<close> and makes
  one step when its library call ends and one per event it then sends. What the manager hands to
  other components (resource events, alarms, log streams) is appended to \<open>w_outs\<close>.
\<close>

section \<open>State\<close>

datatype zke_output =
    PublishCreate sc_cluster
  | PublishDelete sc_cluster
  | PublishAlarm string string string
  | LoggerAdd string
  | LoggerDelete string

datatype 'fs worker =
    RunCreate nat "'fs cluster_state"
  | RunUpdate nat "'fs cluster_state"
  | RunDestroy nat
  | Fire nat "'fs sent_event list"
  | CheckLoop nat

record ('d, 'k, 'fs) zke_world =
  w_heap :: "'k zcluster list"
  w_clusters :: "nat list"
  w_db :: 'd
  w_scVersion :: string
  w_workers :: "'fs worker list"
  w_outs :: "zke_output list"

text \<open>The fixed surroundings: the table, the certificate decoding and the state machine engine.\<close>

record ('d, 'tx, 'fs) zke_ctx =
  x_table :: "('d, 'tx, 'fs) cluster_table"
  x_pem :: "'fs \<Rightarrow> 'fs"
  x_engine :: cluster_engine

definition emit :: "zke_output list \<Rightarrow> ('d, 'k, 'fs) zke_world \<Rightarrow> ('d, 'k, 'fs) zke_world" where
  "emit os w = w\<lparr>w_outs := w_outs w @ os\<rparr>"

definition put_cluster :: "nat \<Rightarrow> 'k zcluster \<Rightarrow> ('d, 'k, 'fs) zke_world \<Rightarrow> ('d, 'k, 'fs) zke_world" where
  "put_cluster a c w = w\<lparr>w_heap := (w_heap w)[a := c]\<rparr>"

definition spawn :: "'fs worker \<Rightarrow> ('d, 'k, 'fs) zke_world \<Rightarrow> ('d, 'k, 'fs) zke_world" where
  "spawn g w = w\<lparr>w_workers := w_workers w @ [g]\<rparr>"

abbreviation obj :: "('d, 'k, 'fs) zke_world \<Rightarrow> nat \<Rightarrow> 'k zcluster" where
  "obj w a \<equiv> w_heap w ! a"

definition zke_put_state ::
  "('d, 'tx, 'fs) zke_ctx \<Rightarrow> string \<Rightarrow> 'fs cluster_state \<Rightarrow> ('d, 'k, 'fs) zke_world \<Rightarrow>
   ('d, 'k, 'fs) zke_world \<times> goerr option" where
  "zke_put_state X name s w =
     (case createOrUpdateClusterFromDB (x_table X) name s (w_db w) of (d, r) \<Rightarrow> (w\<lparr>w_db := d\<rparr>, r))"

section \<open>Queries\<close>

definition zke_get :: "string \<Rightarrow> ('d, 'k, 'fs) zke_world \<Rightarrow> nat option" where
  "zke_get cid w = List.find (\<lambda>a. c_Name (obj w a) = cid) (w_clusters w)"

definition zke_GetReady :: "string \<Rightarrow> ('d, 'k, 'fs) zke_world \<Rightarrow> nat option" where
  "zke_GetReady cid w =
     (case zke_get cid w of
        Some a \<Rightarrow> if IsReady (obj w a) then Some a else None
      | None \<Rightarrow> None)"

definition zke_List :: "('d, 'k, 'fs) zke_world \<Rightarrow> nat list" where
  "zke_List w = w_clusters w"

definition zke_ListReady :: "('d, 'k, 'fs) zke_world \<Rightarrow> nat list" where
  "zke_ListReady w = filter (\<lambda>a. IsReady (obj w a)) (w_clusters w)"

definition zke_add :: "'k zcluster \<Rightarrow> ('d, 'k, 'fs) zke_world \<Rightarrow> nat \<times> ('d, 'k, 'fs) zke_world" where
  "zke_add c w =
     (let a = length (w_heap w)
      in (a, w\<lparr>w_heap := w_heap w @ [c], w_clusters := w_clusters w @ [a]\<rparr>))"

definition zke_Remove :: "string \<Rightarrow> ('d, 'k, 'fs) zke_world \<Rightarrow> ('d, 'k, 'fs) zke_world" where
  "zke_Remove name w =
     w\<lparr>w_clusters := remove_first (\<lambda>a. c_Name (obj w a) = name) (w_clusters w)\<rparr>"

text \<open>
  \<open>GetKubeConfig\<close>: \<open>certs\<close> is the certificate bundle of the current state, from user to
  configuration (nil when absent); a stored state without full state is a nil dereference.
\<close>

definition GetKubeConfig ::
  "('d, 'tx, 'fs) zke_ctx \<Rightarrow> ('fs \<Rightarrow> (string \<rightharpoonup> string) option) \<Rightarrow> 'k zcluster \<Rightarrow> string \<Rightarrow> 'd \<Rightarrow>
   (goerr + string) outcome" where
  "GetKubeConfig X certs c user d =
     (case getClusterFromDB (x_table X) (x_pem X) (c_Name c) d of
        Inl e \<Rightarrow> Done (Inl e)
      | Inr state \<Rightarrow>
          (case cs_FullState state of
             None \<Rightarrow> Panicked ''nil pointer dereference''
           | Some fs \<Rightarrow>
               Done (case certs fs of
                       None \<Rightarrow> Inr ''''
                     | Some bundle \<Rightarrow>
                         (case bundle user of
                            None \<Rightarrow> Inl (''cluster '' @ c_Name c @ '' user '' @ user @ '' cert doesn't exist'')
                          | Some config \<Rightarrow> Inr config))))"

section \<open>Events and their callbacks\<close>

definition fsm_callback ::
  "('d, 'tx, 'fs) zke_ctx \<Rightarrow> nat \<Rightarrow> 'fs sent_event \<Rightarrow> ('d, 'k, 'fs) zke_world \<Rightarrow> ('d, 'k, 'fs) zke_world" where
  "fsm_callback X a ev w =
     (let (e, state, errMsg) = ev;
          c = obj w a;
          name = c_Name c;
          save = (\<lambda>w. fst (zke_put_state X name state w));
          alarm = (\<lambda>reason. if errMsg \<noteq> '''' then [PublishAlarm name reason errMsg] else [])
      in case e of
           CreateSucceedEvent \<Rightarrow> emit [PublishCreate (ToScCluster a c)] (save (emit [LoggerDelete name] w))
         | CreateFailedEvent \<Rightarrow> save (emit (alarm (event_string CreateFailedEvent)) w)
         | CreateCanceledEvent \<Rightarrow> save (put_cluster a (c\<lparr>c_isCanceled := False\<rparr>) w)
         | UpdateCompletedEvent \<Rightarrow> save (emit (LoggerDelete name # alarm UpdateFailedReason) w)
         | UpdateCanceledEvent \<Rightarrow> save (put_cluster a (c\<lparr>c_isCanceled := False\<rparr>) w)
         | DeleteCompletedEvent \<Rightarrow>
             (let w' = zke_Remove name (emit (alarm DeleteFailedReason) w)
              in w'\<lparr>w_db := fst (deleteClusterFromDB (x_table X) name (w_db w'))\<rparr>)
         | _ \<Rightarrow> w)"

text \<open>\<open>c.event\<close>: the machine moves, then the callback runs; a refused event is only logged.\<close>

definition cluster_event ::
  "('d, 'tx, 'fs) zke_ctx \<Rightarrow> nat \<Rightarrow> 'fs sent_event \<Rightarrow> ('d, 'k, 'fs) zke_world \<Rightarrow> ('d, 'k, 'fs) zke_world" where
  "cluster_event X a ev w =
     (case fsmEvent (x_engine X) cluster_fsm (c_fsm (obj w a)) (fst ev) of
        Inl err \<Rightarrow> w
      | Inr s \<Rightarrow> fsm_callback X a ev (put_cluster a ((obj w a)\<lparr>c_fsm := s\<rparr>) w))"

text \<open>\<open>c.Event\<close>: an event without arguments; none of those has a callback.\<close>

definition cluster_Event ::
  "('d, 'tx, 'fs) zke_ctx \<Rightarrow> nat \<Rightarrow> zke_event \<Rightarrow> ('d, 'k, 'fs) zke_world \<Rightarrow>
   ('d, 'k, 'fs) zke_world \<times> goerr option" where
  "cluster_Event X a e w =
     (case fsmEvent (x_engine X) cluster_fsm (c_fsm (obj w a)) e of
        Inl err \<Rightarrow> (w, Some err)
      | Inr s \<Rightarrow> (put_cluster a ((obj w a)\<lparr>c_fsm := s\<rparr>) w, None))"

definition cluster_Can :: "('d, 'tx, 'fs) zke_ctx \<Rightarrow> 'k zcluster \<Rightarrow> zke_event \<Rightarrow> bool" where
  "cluster_Can X c e = fsmCan (x_engine X) cluster_fsm (c_fsm c) e"

section \<open>Handlers\<close>

definition zke_Create ::
  "('d, 'tx, 'fs) zke_ctx \<Rightarrow> 'fs \<Rightarrow> time \<Rightarrow> sc_cluster \<Rightarrow> ('d, 'k, 'fs) zke_world \<Rightarrow>
   ('d, 'k, 'fs) zke_world \<times> (api_error + sc_cluster)" where
  "zke_Create X emptyFullState now resource w =
     (let tc = TrimFieldSpace resource
      in if zke_get (sc_Name tc) w \<noteq> None
         then (w, Inl (APIError DuplicateResource ''duplicate cluster''))
         else case validateConfigForCreate tc of
                Some e \<Rightarrow> (w, Inl (APIError InvalidOption (''cluster config validate failed '' @ e)))
              | None \<Rightarrow>
                  (let config = genZKEConfig tc;
                       state = \<lparr>cs_FullState = Some emptyFullState, cs_ZKEConfig = config,
                                cs_CreateTime = now, cs_DeleteTime = 0, cs_Created = False,
                                cs_ScVersion = w_scVersion w\<rparr>
                   in case zke_put_state X (sc_Name tc) state w of
                        (w1, Some e) \<Rightarrow> (w1, Inl (APIError ServerError e))
                      | (w1, None) \<Rightarrow>
                          (let cluster = (newCluster (sc_Name tc) CSCreating)
                                 \<lparr>c_createTime := now, c_config := config, c_scVersion := w_scVersion w,
                                  c_cancel := True\<rparr>;
                               (a, w2) = zke_add cluster w1
                           in (spawn (RunCreate a state) w2,
                               Inr (tc\<lparr>sc_ID := sc_Name tc, sc_CreationTimestamp := now\<rparr>)))))"

definition zke_Update ::
  "('d, 'tx, 'fs) zke_ctx \<Rightarrow> (string \<Rightarrow> goerr + bool) \<Rightarrow> sc_cluster \<Rightarrow> ('d, 'k, 'fs) zke_world \<Rightarrow>
   ('d, 'k, 'fs) zke_world \<times> (api_error + sc_cluster)" where
  "zke_Update X isStorageNode resource w =
     (let tc = TrimFieldSpace resource
      in case zke_get (sc_Name tc) w of
           None \<Rightarrow> (w, Inl (APIError NotFound (''cluster '' @ sc_Name tc @ '' desn't exist'')))
         | Some a \<Rightarrow>
             (let exist = obj w a
              in case validateConfigForUpdate (ToScCluster a exist) tc isStorageNode (c_kubeClient exist \<noteq> None) of
                   Some e \<Rightarrow> (w, Inl (APIError InvalidOption (''cluster config validate failed '' @ e)))
                 | None \<Rightarrow>
                     (let config = genZKEConfigForUpdate (c_config exist) tc
                      in case getClusterFromDB (x_table X) (x_pem X) (sc_Name tc) (w_db w) of
                           Inl e \<Rightarrow> (w, Inl (APIError ServerError e))
                         | Inr state0 \<Rightarrow>
                             if cs_Created state0 \<and> \<not> cluster_Can X exist UpdateEvent
                             then (w, Inl (APIError PermissionDenied
                                     (''cluster '' @ c_Name exist @ '' can't update on ''
                                      @ status_string (c_fsm exist) @ '' status'')))
                             else
                               (let state = state0\<lparr>cs_ZKEConfig := config\<rparr>;
                                    w1 = put_cluster a (exist\<lparr>c_config := config\<rparr>) w
                                in case zke_put_state X (sc_Name tc) state w1 of
                                     (w2, Some e) \<Rightarrow> (w2, Inl (APIError ServerError e))
                                   | (w2, None) \<Rightarrow>
                                       (let ev = (if cs_Created state then UpdateEvent else ContinuteCreateEvent)
                                        in case cluster_Event X a ev w2 of
                                             (w3, Some e) \<Rightarrow>
                                               (w3, Inl (APIError ServerError
                                                  (''send cluster '' @ c_Name exist @ '' fsm '' @ event_string ev
                                                   @ '' event failed '' @ e)))
                                           | (w3, None) \<Rightarrow>
                                               (spawn (RunUpdate a state)
                                                  (put_cluster a ((obj w3 a)\<lparr>c_cancel := True\<rparr>) w3),
                                                Inr tc))))))"

text \<open>
  \<open>Delete\<close> does not look at the error of its event (the condition of that \<^verbatim>\<open>if\<close> tests the
  error of the read before it, which is nil).
\<close>

definition zke_Delete ::
  "('d, 'tx, 'fs) zke_ctx \<Rightarrow> time \<Rightarrow> string \<Rightarrow> ('d, 'k, 'fs) zke_world \<Rightarrow>
   ('d, 'k, 'fs) zke_world \<times> api_error option outcome" where
  "zke_Delete X now cid w =
     (case zke_get cid w of
        None \<Rightarrow> (w, Done (Some (APIError NotFound (''cluster '' @ cid @ '' desn't exist''))))
      | Some a \<Rightarrow>
          if \<not> cluster_Can X (obj w a) DeleteEvent
          then (w, Done (Some (APIError PermissionDenied
                  (''cluster '' @ cid @ '' can't delete when on '' @ status_string (c_fsm (obj w a)) @ '' status''))))
          else case getClusterFromDB (x_table X) (x_pem X) (c_Name (obj w a)) (w_db w) of
                 Inl e \<Rightarrow> (w, Done (Some (APIError ServerError e)))
               | Inr state \<Rightarrow>
                   (let w1 = fst (cluster_Event X a DeleteEvent w)
                    in if cs_Created state \<and> c_stopCh (obj w1 a) \<noteq> ChanOpen
                       then (w1, Panicked ''close of nil or closed channel'')
                       else
                         let w2 = (if cs_Created state
                                   then emit [PublishDelete (ToScCluster a ((obj w1 a)\<lparr>c_stopCh := ChanClosed\<rparr>))]
                                          (put_cluster a ((obj w1 a)\<lparr>c_stopCh := ChanClosed\<rparr>) w1)
                                   else w1);
                             w3 = put_cluster a ((obj w2 a)\<lparr>c_deleteTime := now\<rparr>) w2
                         in case zke_put_state X cid (state\<lparr>cs_DeleteTime := now\<rparr>) w3 of
                              (w4, Some e) \<Rightarrow> (w4, Done (Some (APIError ServerError e)))
                            | (w4, None) \<Rightarrow> (spawn (RunDestroy a) w4, Done None)))"

definition zke_CancelCluster ::
  "string \<Rightarrow> ('d, 'k, 'fs) zke_world \<Rightarrow> ('d, 'k, 'fs) zke_world \<times> api_error option outcome" where
  "zke_CancelCluster cid w =
     (case zke_get cid w of
        None \<Rightarrow> (w, Done (Some (APIError NotFound (''cluster '' @ cid @ '' desn't exist''))))
      | Some a \<Rightarrow>
          (case cluster_Cancel (obj w a) of
             (c, Done None) \<Rightarrow> (put_cluster a c w, Done None)
           | (c, Done (Some e)) \<Rightarrow> (put_cluster a c w, Done (Some (APIError PermissionDenied e)))
           | (c, Panicked p) \<Rightarrow> (put_cluster a c w, Panicked p)))"

section \<open>Loading the table at start\<close>

text \<open>
  One entry of the table becomes one cluster. A created cluster gets its clients back from the
  stored administrator configuration; if that fails it is left out. A created entry without full
  state would be a nil dereference.
\<close>

definition load_entry ::
  "('k, 'fs) zke_env \<Rightarrow> string \<times> 'fs cluster_state \<Rightarrow> ('d, 'k, 'fs) zke_world \<Rightarrow>
   ('d, 'k, 'fs) zke_world outcome" where
  "load_entry env kv w =
     (let (k, v) = kv;
          fill = (\<lambda>c. c\<lparr>c_config := cs_ZKEConfig v, c_createTime := cs_CreateTime v, c_scVersion := cs_ScVersion v\<rparr>)
      in if cs_Created v then
           (case cs_FullState v of
              None \<Rightarrow> Panicked ''nil pointer dereference''
            | Some fs \<Rightarrow>
                (case cluster_Init env (env_kubeConfig env fs) (fill (newCluster k CSRunning)) of
                   (c, Some e) \<Rightarrow> Done w
                 | (c, None) \<Rightarrow>
                     (let (a, w') = zke_add c w
                      in Done (emit [PublishCreate (ToScCluster a c)] (spawn (CheckLoop a) w')))))
         else Done (snd (zke_add (fill (newCluster k CSCreateFailed)) w)))"

fun load_entries ::
  "('k, 'fs) zke_env \<Rightarrow> (string \<times> 'fs cluster_state) list \<Rightarrow> ('d, 'k, 'fs) zke_world \<Rightarrow>
   ('d, 'k, 'fs) zke_world outcome" where
  "load_entries env [] w = Done w"
| "load_entries env (kv # kvs) w =
     (case load_entry env kv w of Panicked p \<Rightarrow> Panicked p | Done w' \<Rightarrow> load_entries env kvs w')"

definition zke_loadDB ::
  "('d, 'tx, 'fs) zke_ctx \<Rightarrow> ('k, 'fs) zke_env \<Rightarrow> ('d, 'k, 'fs) zke_world \<Rightarrow>
   (goerr + ('d, 'k, 'fs) zke_world) outcome" where
  "zke_loadDB X env w =
     (case getClustersFromDB (x_table X) (x_pem X) (w_db w) of
        Inl e \<Rightarrow> Done (Inl e)
      | Inr states \<Rightarrow>
          (case load_entries env states w of Panicked p \<Rightarrow> Panicked p | Done w' \<Rightarrow> Done (Inr w')))"

definition newZKEManager ::
  "('d, 'tx, 'fs) zke_ctx \<Rightarrow> ('k, 'fs) zke_env \<Rightarrow> string \<Rightarrow> 'd \<Rightarrow> (goerr + ('d, 'k, 'fs) zke_world) outcome" where
  "newZKEManager X env version d =
     zke_loadDB X env \<lparr>w_heap = [], w_clusters = [], w_db = d, w_scVersion = version, w_workers = [], w_outs = []\<rparr>"

section \<open>Steps of the whole manager\<close>

definition check_event :: "('k, 'fs) zke_env \<Rightarrow> zke_event" where
  "check_event env = (if env_serverVersion env \<noteq> None then GetInfoFailedEvent else GetInfoSucceedEvent)"

text \<open>The \<open>i\<close>-th goroutine runs until its next observable point.\<close>

definition worker_step ::
  "('d, 'tx, 'fs) zke_ctx \<Rightarrow> ('k, 'fs) zke_env \<Rightarrow> nat \<Rightarrow> ('d, 'k, 'fs) zke_world \<Rightarrow> ('d, 'k, 'fs) zke_world" where
  "worker_step X env i w =
     (let w0 = w\<lparr>w_workers := take i (w_workers w) @ drop (Suc i) (w_workers w)\<rparr>
      in case w_workers w ! i of
           RunCreate a st \<Rightarrow>
             (let (c, evs, loop) = cluster_Create env st (obj w a);
                  w1 = spawn (Fire a evs) (put_cluster a c (emit [LoggerAdd (c_Name c)] w0))
              in if loop then spawn (CheckLoop a) w1 else w1)
         | RunUpdate a st \<Rightarrow>
             (let (c, evs) = cluster_Update env st (obj w a)
              in spawn (Fire a evs) (put_cluster a c (emit [LoggerAdd (c_Name c)] w0)))
         | RunDestroy a \<Rightarrow> spawn (Fire a (cluster_Destroy env (obj w a))) w0
         | Fire a evs \<Rightarrow>
             (case evs of
                [] \<Rightarrow> w0
              | ev # evs' \<Rightarrow> cluster_event X a ev (if evs' = [] then w0 else spawn (Fire a evs') w0))
         | CheckLoop a \<Rightarrow>
             if c_stopCh (obj w a) = ChanClosed then w0
             else fst (cluster_Event X a (check_event env) w))"

inductive zstep ::
  "('d, 'tx, 'fs) zke_ctx \<Rightarrow> ('k, 'fs) zke_env \<Rightarrow> ('d, 'k, 'fs) zke_world \<Rightarrow> ('d, 'k, 'fs) zke_world \<Rightarrow> bool"
  for X env where
  step_create: "zke_Create X fs now res w = (w', r) \<Longrightarrow> zstep X env w w'"
| step_update: "zke_Update X isStorageNode res w = (w', r) \<Longrightarrow> zstep X env w w'"
| step_delete: "zke_Delete X now cid w = (w', r) \<Longrightarrow> zstep X env w w'"
| step_cancel: "zke_CancelCluster cid w = (w', r) \<Longrightarrow> zstep X env w w'"
| step_worker: "i < length (w_workers w) \<Longrightarrow> zstep X env w (worker_step X env i w)"

text \<open>
  Runs from a start state, in which the libraries' answers at every step satisfy \<open>P\<close>.
\<close>

inductive zreach ::
  "('d, 'tx, 'fs) zke_ctx \<Rightarrow> (('k, 'fs) zke_env \<Rightarrow> bool) \<Rightarrow> ('d, 'k, 'fs) zke_world \<Rightarrow>
   ('d, 'k, 'fs) zke_world \<Rightarrow> bool"
  for X P w0 where
  reach_start: "zreach X P w0 w0"
| reach_step: "zreach X P w0 w \<Longrightarrow> P env \<Longrightarrow> zstep X env w w' \<Longrightarrow> zreach X P w0 w'"

inductive_cases zstepE: "zstep X env w w'"

text \<open>
  \<open>cache_ok\<close>: building the http client and the cache succeeds. \<open>state_ok\<close>: the zke library
  never loses the full state (a nil state comes only with a panic). \<open>no_panic\<close>: nor does it panic.
\<close>

definition cache_ok :: "('k, 'fs) zke_env \<Rightarrow> bool" where
  "cache_ok env \<longleftrightarrow> (\<forall>k. (\<exists>h. env_transportFor env k = Inr h) \<and> (\<exists>h. env_cacheNew env k = Inr h))"

definition state_ok :: "('k, 'fs) zke_env \<Rightarrow> bool" where
  "state_ok env \<longleftrightarrow> (\<forall>cfg st fs r. env_clusterUp env cfg st = Inr (fs, r) \<longrightarrow> fs \<noteq> None)"

definition no_panic :: "('k, 'fs) zke_env \<Rightarrow> bool" where
  "no_panic env \<longleftrightarrow> (\<forall>cfg st. \<exists>r. env_clusterUp env cfg st = Inr r)"

section \<open>The invariant\<close>

definition busy :: "cluster_status \<Rightarrow> bool" where
  "busy s \<longleftrightarrow> s = CSCreating \<or> s = CSUpdating \<or> s = CSDeleting"

fun target :: "'fs worker \<Rightarrow> nat option" where
  "target (RunCreate a st) = Some a"
| "target (RunUpdate a st) = Some a"
| "target (RunDestroy a) = Some a"
| "target (Fire a evs) = Some a"
| "target (CheckLoop a) = None"

definition targets :: "'fs worker list \<Rightarrow> nat list" where
  "targets ws = List.map_filter target ws"

definition state_fits :: "'k zcluster \<Rightarrow> 'fs cluster_state \<Rightarrow> bool" where
  "state_fits c st \<longleftrightarrow> (cs_Created st \<longrightarrow> cs_FullState st \<noteq> None \<and> c_stopCh c = ChanOpen)"

text \<open>
  What a goroutine relies on of the object it works on. With the flag \<open>lv\<close> the event it is
  about to send is also one the machine accepts.
\<close>

fun phase_ok :: "bool \<Rightarrow> 'k zcluster \<Rightarrow> 'fs worker \<Rightarrow> bool" where
  "phase_ok lv c (RunCreate a st) \<longleftrightarrow> c_fsm c = CSCreating \<and> \<not> cs_Created st"
| "phase_ok lv c (RunUpdate a st) \<longleftrightarrow>
     state_fits c st \<and> c_fsm c = (if cs_Created st then CSUpdating else CSCreating)"
| "phase_ok lv c (RunDestroy a) \<longleftrightarrow> c_fsm c = CSDeleting"
| "phase_ok lv c (Fire a evs) \<longleftrightarrow>
     (case evs of [(e, st, msg)] \<Rightarrow> busy (c_fsm c) \<and> state_fits c st \<and> (lv \<longrightarrow> fsm_next cluster_fsm (c_fsm c) e \<noteq> None) | _ \<Rightarrow> False)"
| "phase_ok lv c (CheckLoop a) \<longleftrightarrow> True"

definition db_ok :: "(string \<rightharpoonup> 'fs cluster_state json) \<Rightarrow> bool" where
  "db_ok V \<longleftrightarrow> (\<forall>k js. V k = Some js \<longrightarrow> (\<exists>s. js = Json s \<and> (cs_Created s \<longrightarrow> cs_FullState s \<noteq> None)))"

definition cluster_ok :: "(string \<rightharpoonup> 'fs cluster_state json) \<Rightarrow> 'k zcluster \<Rightarrow> bool" where
  "cluster_ok V c \<longleftrightarrow>
     c_fsm c \<noteq> CSDeleted
     \<and> (c_fsm c = CSCreating \<or> c_fsm c = CSUpdating \<longrightarrow> c_cancel c)
     \<and> (\<exists>s. V (c_Name c) = Some (Json s) \<and> (cs_Created s \<longrightarrow> c_stopCh c = ChanOpen \<or> c_fsm c = CSDeleting))"

text \<open>
  The invariant. With the flag \<open>lv\<close> it also says that no busy cluster is without a goroutine.
\<close>

definition zke_inv :: "bool \<Rightarrow> ('d \<Rightarrow> string \<rightharpoonup> 'fs cluster_state json) \<Rightarrow> ('d, 'k, 'fs) zke_world \<Rightarrow> bool" where
  "zke_inv lv view w \<longleftrightarrow>
     distinct (map (\<lambda>a. c_Name (obj w a)) (w_clusters w))
     \<and> (\<forall>a \<in> set (w_clusters w). a < length (w_heap w) \<and> cluster_ok (view (w_db w)) (obj w a))
     \<and> db_ok (view (w_db w))
     \<and> distinct (targets (w_workers w))
     \<and> (\<forall>g \<in> set (w_workers w). \<forall>a. target g = Some a \<longrightarrow> a \<in> set (w_clusters w) \<and> phase_ok lv (obj w a) g)
     \<and> (lv \<longrightarrow> (\<forall>a \<in> set (w_clusters w). busy (c_fsm (obj w a)) \<longrightarrow> a \<in> set (targets (w_workers w))))"

end
