(* ===== verification/ZkeSafety.thy ===== *)
theory ZkeSafety
  imports ZkeManager
begin

text \<open>
  The invariant of the cluster manager (\<open>zke_inv\<close> of theory ZkeManager) under every handler and
  every step of a goroutine, for any interleaving of them and any answers of the libraries: names
  are unique, a cluster has at most one goroutine working on it and is then in the matching
  status, a listed cluster is stored in the table, and neither Delete nor Cancel can panic.
\<close>

section \<open>Changing one object\<close>

lemma targets_simps [simp]:
  "targets [] = []"
  "targets (xs @ ys) = targets xs @ targets ys"
  "targets (g # gs) = (case target g of None \<Rightarrow> targets gs | Some a \<Rightarrow> a # targets gs)"
  by (auto simp: targets_def List.map_filter_def split: option.splits)

lemma in_targets: "a \<in> set (targets ws) \<longleftrightarrow> (\<exists>g \<in> set ws. target g = Some a)"
  by (induction ws) (auto split: option.splits)

lemma zke_inv_names:
  assumes "zke_inv lv view w" "a \<in> set (w_clusters w)" "b \<in> set (w_clusters w)" "c_Name (obj w a) = c_Name (obj w b)"
  shows "a = b"
  using assms by (auto simp: zke_inv_def distinct_map inj_on_def)

lemma zke_inv_distinct: "zke_inv lv view w \<Longrightarrow> distinct (w_clusters w)"
  by (auto simp: zke_inv_def distinct_map)

lemma zke_inv_phase:
  "zke_inv lv view w \<Longrightarrow> g \<in> set (w_workers w) \<Longrightarrow> target g = Some a \<Longrightarrow>
   a \<in> set (w_clusters w) \<and> a < length (w_heap w) \<and> phase_ok lv (obj w a) g"
  by (auto simp: zke_inv_def)

text \<open>
  The object at a listed address changes, its own entry of the table may change, and the
  goroutines on it are replaced by at most one that fits the new object.
\<close>

lemma zke_inv_local:
  assumes inv: "zke_inv lv view w" and a: "a \<in> set (w_clusters w)"
    and heap: "w_heap w' = (w_heap w)[a := c]" and cls: "w_clusters w' = w_clusters w"
    and name: "c_Name c = c_Name (obj w a)"
    and frame: "\<And>k. k \<noteq> c_Name c \<Longrightarrow> view (w_db w') k = view (w_db w) k"
    and ok: "cluster_ok (view (w_db w')) c" and db: "db_ok (view (w_db w'))"
    and dist: "distinct (targets (w_workers w'))"
    and ws: "\<And>g b. g \<in> set (w_workers w') \<Longrightarrow> target g = Some b \<Longrightarrow>
        (g \<in> set (w_workers w) \<and> b \<noteq> a) \<or> (b = a \<and> phase_ok lv c g)"
    and others: "\<And>b. b \<in> set (targets (w_workers w)) \<Longrightarrow> b \<noteq> a \<Longrightarrow> b \<in> set (targets (w_workers w'))"
    and busy: "lv \<Longrightarrow> busy (c_fsm c) \<Longrightarrow> a \<in> set (targets (w_workers w'))"
  shows "zke_inv lv view w'"
proof -
  have al: "a < length (w_heap w)" using inv a by (simp add: zke_inv_def)
  have obj: "obj w' b = (if b = a then c else obj w b)" for b using al by (simp add: heap nth_list_update)
  have len: "length (w_heap w') = length (w_heap w)" by (simp add: heap)
  have "cluster_ok (view (w_db w')) (obj w b)" if b: "b \<in> set (w_clusters w)" "b \<noteq> a" for b
  proof -
    have "c_Name (obj w b) \<noteq> c_Name c" using zke_inv_names [OF inv b(1) a] b(2) name by auto
    with frame have "view (w_db w') (c_Name (obj w b)) = view (w_db w) (c_Name (obj w b))" by simp
    moreover have "cluster_ok (view (w_db w)) (obj w b)" using inv b(1) by (simp add: zke_inv_def)
    ultimately show ?thesis by (simp add: cluster_ok_def)
  qed
  then have cl: "\<forall>b \<in> set (w_clusters w'). b < length (w_heap w') \<and> cluster_ok (view (w_db w')) (obj w' b)"
    using inv ok len by (auto simp: obj cls zke_inv_def)
  have "map (\<lambda>a. c_Name (obj w' a)) (w_clusters w') = map (\<lambda>a. c_Name (obj w a)) (w_clusters w)"
    using name by (simp add: cls obj)
  then have names: "distinct (map (\<lambda>a. c_Name (obj w' a)) (w_clusters w'))"
    using inv by (simp only: zke_inv_def)
  have "b \<in> set (w_clusters w') \<and> phase_ok lv (obj w' b) g"
    if "g \<in> set (w_workers w')" "target g = Some b" for g b
    using ws [OF that] inv a that(2) by (auto simp: obj cls zke_inv_def)
  moreover have "b \<in> set (targets (w_workers w'))"
    if "lv" "b \<in> set (w_clusters w')" "busy (c_fsm (obj w' b))" for b
    using that inv others [of b] busy by (cases "b = a") (auto simp: obj cls zke_inv_def)
  ultimately show ?thesis using cl names db dist unfolding zke_inv_def by blast
qed

text \<open>An object that no list and no goroutine knows may change freely.\<close>

lemma zke_inv_unlisted:
  assumes inv: "zke_inv lv view w" and a: "a \<notin> set (w_clusters w)"
  shows "zke_inv lv view (put_cluster a c w)"
proof -
  have obj: "(w_heap w)[a := c] ! b = obj w b" if "b \<in> set (w_clusters w)" for b
  proof -
    have "b \<noteq> a" using that a by blast
    then show ?thesis by simp
  qed
  then have m: "map (\<lambda>b. c_Name ((w_heap w)[a := c] ! b)) (w_clusters w) = map (\<lambda>b. c_Name (obj w b)) (w_clusters w)"
    by simp
  show ?thesis using inv obj by (simp add: zke_inv_def put_cluster_def m)
qed

text \<open>Only the heap, the list, the table and the goroutines matter, the latter up to loops.\<close>

lemma zke_inv_cong:
  assumes "zke_inv lv view w" "w_heap w' = w_heap w" "w_clusters w' = w_clusters w" "w_db w' = w_db w"
    "w_workers w' = w_workers w"
  shows "zke_inv lv view w'"
  using assms by (simp add: zke_inv_def)

text \<open>A cluster leaves the list; no goroutine works on it.\<close>

lemma zke_inv_removed:
  assumes inv: "zke_inv lv view w" and a: "a \<in> set (w_clusters w)"
    and wsw: "w_workers w = xs @ g # ys" "target g = Some a" and ws: "w_workers w' = xs @ ys"
    and heap: "w_heap w' = (w_heap w)[a := c]" and cls: "w_clusters w' = filter (\<lambda>b. b \<noteq> a) (w_clusters w)"
    and frame: "\<And>k. k \<noteq> c_Name (obj w a) \<Longrightarrow> view (w_db w') k = view (w_db w) k"
    and db: "db_ok (view (w_db w'))"
  shows "zke_inv lv view w'"
proof -
  have nota: "a \<notin> set (targets (xs @ ys))" and dist: "distinct (targets (xs @ ys))"
    using inv wsw by (auto simp: zke_inv_def)
  have obj: "obj w' b = obj w b" if "b \<noteq> a" for b using that by (simp add: heap)
  have "map (\<lambda>b. c_Name (obj w' b)) (w_clusters w') = map (\<lambda>b. c_Name (obj w b)) (filter (\<lambda>b. b \<noteq> a) (w_clusters w))"
    by (simp add: cls obj)
  then have names: "distinct (map (\<lambda>b. c_Name (obj w' b)) (w_clusters w'))"
    using inv by (simp only: zke_inv_def distinct_map_filter_key)
  have "cluster_ok (view (w_db w')) (obj w' b)" if b: "b \<in> set (w_clusters w)" "b \<noteq> a" for b
  proof -
    have "c_Name (obj w b) \<noteq> c_Name (obj w a)" using zke_inv_names [OF inv b(1) a] b(2) by auto
    with frame have "view (w_db w') (c_Name (obj w b)) = view (w_db w) (c_Name (obj w b))" by simp
    moreover have "cluster_ok (view (w_db w)) (obj w b)" using inv b(1) by (simp add: zke_inv_def)
    ultimately show ?thesis using obj [OF b(2)] by (simp add: cluster_ok_def)
  qed
  moreover have "b \<in> set (w_clusters w') \<and> phase_ok lv (obj w' b) h"
    if h: "h \<in> set (xs @ ys)" "target h = Some b" for h b
  proof -
    have "b \<in> set (targets (xs @ ys))" using h unfolding in_targets by blast
    with nota have "b \<noteq> a" by blast
    moreover have "h \<in> set (w_workers w)" using h(1) wsw(1) by auto
    ultimately show ?thesis using zke_inv_phase [OF inv _ h(2)] by (simp add: cls obj)
  qed
  moreover have "b < length (w_heap w')" if "b \<in> set (w_clusters w)" for b
    using that inv by (simp add: heap zke_inv_def)
  moreover have "b \<in> set (targets (xs @ ys))"
    if "lv" "b \<in> set (w_clusters w)" "b \<noteq> a" "busy (c_fsm (obj w' b))" for b
    using that inv wsw obj [of b] by (auto simp: zke_inv_def)
  ultimately show ?thesis using inv names db dist unfolding zke_inv_def ws by (simp add: cls)
qed

lemma zke_inv_emit [simp]: "zke_inv lv view (emit os w) \<longleftrightarrow> zke_inv lv view w"
  by (simp add: zke_inv_def emit_def)

lemma zke_inv_drop_worker:
  assumes "zke_inv lv view w" "w_workers w = xs @ g # ys" "\<not> lv \<or> target g = None"
  shows "zke_inv lv view (w\<lparr>w_workers := xs @ ys\<rparr>)"
  using assms by (auto simp: zke_inv_def split: option.splits)

lemma zke_inv_spawn_loop: "zke_inv lv view w \<Longrightarrow> zke_inv lv view (spawn (CheckLoop a) w)"
  by (auto simp: zke_inv_def spawn_def)

section \<open>Writing the table\<close>

lemma put_state_cases:
  assumes kv: "kv_laws (x_table X) view txview" and p: "zke_put_state X name s w = (w', r)"
    and db: "db_ok (view (w_db w))" and s: "cs_Created s \<longrightarrow> cs_FullState s \<noteq> None"
  shows "w_heap w' = w_heap w \<and> w_clusters w' = w_clusters w \<and> w_workers w' = w_workers w
    \<and> w_outs w' = w_outs w \<and> w_scVersion w' = w_scVersion w
    \<and> ((r = None \<and> view (w_db w') = (view (w_db w))(name \<mapsto> Json s)) \<or> (r \<noteq> None \<and> view (w_db w') = view (w_db w)))
    \<and> db_ok (view (w_db w'))"
proof -
  obtain d where d: "createOrUpdateClusterFromDB (x_table X) name s (w_db w) = (d, r)" "w' = w\<lparr>w_db := d\<rparr>"
    using p by (auto simp: zke_put_state_def split: prod.splits)
  from createOrUpdate_cases [OF kv d(1)] d(2) db s show ?thesis
    by (auto simp: db_ok_def split: if_splits)
qed

lemma cluster_ok_db: "cluster_ok V c \<Longrightarrow> \<exists>s. V (c_Name c) = Some (Json s)"
  by (auto simp: cluster_ok_def)

section \<open>Sending an event\<close>

lemma busy_next:
  "busy s \<Longrightarrow> fsm_next cluster_fsm s e = Some d \<Longrightarrow>
   (d = CSDeleted \<longleftrightarrow> e = DeleteCompletedEvent) \<and> d \<in> {CSRunning, CSCreateFailed, CSDeleted} \<and> (s = CSDeleting \<longrightarrow> d = CSDeleted)"
  by (cases e) (auto simp: busy_def split: if_splits)

lemma heap_put [simp]:
  "w_heap (put_cluster a c w) = (w_heap w)[a := c]" "w_clusters (put_cluster a c w) = w_clusters w"
  "w_db (put_cluster a c w) = w_db w" "w_workers (put_cluster a c w) = w_workers w"
  "w_heap (emit os w) = w_heap w" "w_clusters (emit os w) = w_clusters w"
  "w_db (emit os w) = w_db w" "w_workers (emit os w) = w_workers w"
  "w_heap (spawn g w) = w_heap w" "w_clusters (spawn g w) = w_clusters w"
  "w_db (spawn g w) = w_db w" "w_workers (spawn g w) = w_workers w @ [g]"
  by (simp_all add: put_cluster_def emit_def spawn_def)

text \<open>An event that is not the end of a deletion: the object moves and its state is saved.\<close>

lemma fsm_callback_shape:
  fixes X :: "('d, 'tx, 'fs) zke_ctx" and w :: "('d, 'k, 'fs) zke_world" and st :: "'fs cluster_state"
    and msg :: string
  assumes "e \<in> {CreateSucceedEvent, CreateFailedEvent, CreateCanceledEvent, UpdateCompletedEvent, UpdateCanceledEvent}"
    and "a < length (w_heap w)"
  defines "w1 \<equiv> fsm_callback X a (e, st, msg) w"
  shows "w_heap w1 = (w_heap w)[a := if e = CreateCanceledEvent \<or> e = UpdateCanceledEvent
                                       then (obj w a)\<lparr>c_isCanceled := False\<rparr> else obj w a]
    \<and> w_clusters w1 = w_clusters w \<and> w_workers w1 = w_workers w
    \<and> w_db w1 = fst (createOrUpdateClusterFromDB (x_table X) (c_Name (obj w a)) st (w_db w))"
  using assms by (auto simp: fsm_callback_def Let_def zke_put_state_def split: prod.splits)

lemma cluster_event_inv:
  assumes kv: "kv_laws (x_table X) view txview" and eng: "fsm_laws (x_engine X) cluster_fsm"
    and inv: "zke_inv lv view w" and wsw: "w_workers w = xs @ g # ys" "target g = Some a"
    and ph: "phase_ok lv (obj w a) (Fire a [ev])"
  shows "zke_inv lv view (cluster_event X a ev (w\<lparr>w_workers := xs @ ys\<rparr>))"
proof -
  let ?w = "w\<lparr>w_workers := xs @ ys\<rparr>"
  have a: "a \<in> set (w_clusters w)" using zke_inv_phase [OF inv _ wsw(2)] wsw(1) by simp
  have nota: "a \<notin> set (targets (xs @ ys))" using inv wsw by (auto simp: zke_inv_def)
  obtain e st msg where ev: "ev = (e, st, msg)" by (cases ev)
  from ph ev have b: "busy (c_fsm (obj w a))" and fits: "state_fits (obj w a) st" by auto
  have al: "a < length (w_heap w)" and ok: "cluster_ok (view (w_db w)) (obj w a)" and dbok: "db_ok (view (w_db w))"
    using inv a by (auto simp: zke_inv_def)
  have ws: "target h \<noteq> Some a" if "h \<in> set (xs @ ys)" for h
    using that nota unfolding in_targets by blast
  show ?thesis
  proof (cases "fsm_next cluster_fsm (c_fsm (obj w a)) e")
    case None
    then obtain err where "fsmEvent (x_engine X) cluster_fsm (c_fsm (obj w a)) e = Inl err"
      using fsm_laws.event_refused [OF eng cluster_fsm_deterministic] by blast
    moreover have "\<not> lv" using None ph ev by auto
    ultimately show ?thesis using ev zke_inv_drop_worker [OF inv wsw(1)] by (simp add: cluster_event_def)
  next
    case (Some d)
    note nd = busy_next [OF b Some]
    let ?c = "(obj w a)\<lparr>c_fsm := d\<rparr>"
    have ce: "cluster_event X a ev ?w = fsm_callback X a ev (put_cluster a ?c ?w)"
      using fsm_laws.event_ok [OF eng cluster_fsm_deterministic Some] ev by (simp add: cluster_event_def)
    show ?thesis
    proof (cases "e = DeleteCompletedEvent")
      case True
      let ?w1 = "fsm_callback X a ev (put_cluster a ?c ?w)"
      obtain d' r where del: "deleteClusterFromDB (x_table X) (c_Name (obj w a)) (w_db w) = (d', r)" by force
      have w1: "w_heap ?w1 = (w_heap w)[a := ?c]" "w_workers ?w1 = xs @ ys" "w_db ?w1 = d'"
        "w_clusters ?w1 = remove_first (\<lambda>b. c_Name ((w_heap w)[a := ?c] ! b) = c_Name (obj w a)) (w_clusters w)"
        using True ev del al by (simp_all add: fsm_callback_def zke_Remove_def Let_def)
      have nm: "c_Name ((w_heap w)[a := ?c] ! b) = c_Name (obj w b)" for b
        using al by (cases "b = a") simp_all
      have cls: "w_clusters ?w1 = filter (\<lambda>b. b \<noteq> a) (w_clusters w)"
        unfolding w1(4) nm
        using inv zke_inv_names [OF inv _ a]
        by (subst remove_first_map_key) (auto simp: zke_inv_def intro: filter_cong)
      show ?thesis unfolding ce by (rule zke_inv_removed [OF inv a wsw w1(2,1) cls])
          (use w1(3) deleteCluster_cases [OF kv del] dbok in \<open>auto simp: db_ok_def split: if_splits\<close>)
    next
      case False
      then have e: "e \<in> {CreateSucceedEvent, CreateFailedEvent, CreateCanceledEvent, UpdateCompletedEvent, UpdateCanceledEvent}"
        using Some b by (cases e) (auto simp: busy_def split: if_splits)
      define c1 where "c1 = (if e = CreateCanceledEvent \<or> e = UpdateCanceledEvent then ?c\<lparr>c_isCanceled := False\<rparr> else ?c)"
      then have c1: "c1 = ?c \<or> c1 = ?c\<lparr>c_isCanceled := False\<rparr>" by simp
      define w1 where "w1 = fsm_callback X a ev (put_cluster a ?c ?w)"
      have w1: "w_heap w1 = (w_heap w)[a := c1]" "w_clusters w1 = w_clusters w" "w_workers w1 = xs @ ys"
        "w_db w1 = fst (createOrUpdateClusterFromDB (x_table X) (c_Name (obj w a)) st (w_db w))"
        using fsm_callback_shape [OF e, of a "put_cluster a ?c ?w" X st msg] al ev
        by (simp_all add: w1_def c1_def)
      obtain d' r where d': "createOrUpdateClusterFromDB (x_table X) (c_Name (obj w a)) st (w_db w) = (d', r)" by force
      note cases = createOrUpdate_cases [OF kv d']
      have "zke_inv lv view w1"
      proof (rule zke_inv_local [OF inv a, where c = c1])
        show "cluster_ok (view (w_db w1)) c1"
          using cases w1(4) c1 d' ok fits nd False b by (auto simp: cluster_ok_def state_fits_def)
        show "db_ok (view (w_db w1))"
          using cases w1(4) d' dbok fits by (auto simp: db_ok_def state_fits_def split: if_splits)
        show "\<And>k. k \<noteq> c_Name c1 \<Longrightarrow> view (w_db w1) k = view (w_db w) k"
          using cases w1(4) c1 d' by auto
        show "distinct (targets (w_workers w1))" using inv wsw by (auto simp: w1(3) zke_inv_def)
        show "lv \<Longrightarrow> busy (c_fsm c1) \<Longrightarrow> a \<in> set (targets (w_workers w1))"
          using nd False c1 by (auto simp: busy_def)
        show "\<And>b. b \<in> set (targets (w_workers w)) \<Longrightarrow> b \<noteq> a \<Longrightarrow> b \<in> set (targets (w_workers w1))"
          using wsw w1(3) by auto
      qed (use w1 c1 ws wsw in auto)
      then show ?thesis using ce by (simp add: w1_def)
    qed
  qed
qed

section \<open>Steps of a goroutine\<close>

lemma upZKECluster_state:
  assumes "state_ok env" "upZKECluster env cfg st = Inr (fs, r)"
  shows "fs \<noteq> None"
  using assms
  by (auto simp: upZKECluster_def state_ok_def split: sum.splits prod.splits option.splits)

lemma upZKECluster_no_panic:
  assumes "state_ok env" "no_panic env"
  shows "upZKECluster env cfg st \<noteq> Inl p"
proof -
  obtain fs r where "env_clusterUp env cfg st = Inr (fs, r)"
    using assms(2) unfolding no_panic_def by (metis surj_pair)
  moreover from this assms(1) obtain x where "fs = Some x" unfolding state_ok_def by blast
  ultimately show ?thesis by (auto simp: upZKECluster_def split: sum.splits option.splits)
qed

lemma setCache_ok: "cache_ok env \<Longrightarrow> \<exists>c'. setCache env k c = (c', None)"
proof -
  assume "cache_ok env"
  then obtain h h' where "env_transportFor env k = Inr h" "env_cacheNew env k = Inr h'"
    unfolding cache_ok_def by blast
  then show ?thesis by (simp add: setCache_def newKubeHttpClient_def Let_def)
qed

lemma cluster_Create_fires:
  assumes "state_ok env" "\<not> cs_Created st" "cluster_Create env st c = (c', evs, l)"
  shows "\<exists>e st' msg. evs = [(e, st', msg)] \<and> state_fits c' st'
    \<and> e \<in> {CreateSucceedEvent, CreateFailedEvent, CreateCanceledEvent}"
  using assms upZKECluster_state [OF assms(1)]
  by (auto simp: cluster_Create_def state_fits_def Let_def split: sum.splits prod.splits if_splits option.splits
      dest!: setCache_keeps)

lemma cluster_Update_fires:
  assumes "state_ok env" "cache_ok env" "state_fits c st" "cluster_Update env st c = (c', evs)"
  shows "\<exists>e st' msg. evs = [(e, st', msg)] \<and> state_fits c' st'
    \<and> (no_panic env \<longrightarrow>
        e \<in> (if cs_Created st then {UpdateCompletedEvent, UpdateCanceledEvent}
             else {CreateSucceedEvent, CreateFailedEvent, CreateCanceledEvent}))"
proof (cases "upZKECluster env (c_config c) (cs_FullState st)")
  case (Inl p)
  then have "\<not> no_panic env" using upZKECluster_no_panic [OF assms(1)] by auto
  with Inl assms show ?thesis by (auto simp: cluster_Update_def)
next
  case (Inr x)
  obtain fs r where x: "x = (fs, r)" by force
  from upZKECluster_state [OF assms(1) Inr [unfolded x]] have fs: "fs \<noteq> None" .
  show ?thesis
  proof (cases "r")
    case (Inl e)
    with assms Inr x fs show ?thesis
      by (auto simp: cluster_Update_def Let_def state_fits_def split: if_splits)
  next
    case (Inr kk)
    obtain k kc where kk: "kk = (k, kc)" by force
    obtain c2 where c2: "setCache env k (c\<lparr>c_kubeClient := Some kc\<rparr>) = (c2, None)"
      using setCache_ok [OF assms(2)] by blast
    have "c_stopCh c2 = ChanOpen" using setCache_keeps [OF c2] by simp
    with assms Inr x kk fs c2 \<open>upZKECluster env (c_config c) (cs_FullState st) = Inr x\<close> show ?thesis
      by (auto simp: cluster_Update_def Let_def state_fits_def split: if_splits)
  qed
qed

lemma cluster_Destroy_fires:
  "\<exists>msg. cluster_Destroy env c = [(DeleteCompletedEvent, empty_state, msg)]"
  by (auto simp: cluster_Destroy_def split: sum.splits option.splits)

text \<open>The connection check moves a cluster between Running and Unreachable only.\<close>

lemma check_event_inv:
  assumes eng: "fsm_laws (x_engine X) cluster_fsm" and inv: "zke_inv lv view w"
  shows "zke_inv lv view (fst (cluster_Event X a (check_event env) w))"
proof (cases "fsm_next cluster_fsm (c_fsm (obj w a)) (check_event env)")
  case None
  then obtain err where "fsmEvent (x_engine X) cluster_fsm (c_fsm (obj w a)) (check_event env) = Inl err"
    using fsm_laws.event_refused [OF eng cluster_fsm_deterministic] by blast
  with inv show ?thesis by (simp add: cluster_Event_def)
next
  case (Some d)
  then have s: "\<not> busy (c_fsm (obj w a))" "d = CSRunning \<or> d = CSUnreachable" "c_fsm (obj w a) \<noteq> CSDeleting"
    by (auto simp: check_event_def busy_def split: if_splits)
  let ?c = "(obj w a)\<lparr>c_fsm := d\<rparr>"
  have ce: "fst (cluster_Event X a (check_event env) w) = put_cluster a ?c w"
    using fsm_laws.event_ok [OF eng cluster_fsm_deterministic Some] by (simp add: cluster_Event_def)
  show ?thesis
  proof (cases "a \<in> set (w_clusters w)")
    case True
    have nt: "target g \<noteq> Some a" if "g \<in> set (w_workers w)" for g
      using zke_inv_phase [OF inv that, of a] s(1)
      by (cases g) (auto simp: busy_def split: if_splits list.splits prod.splits)
    have "cluster_ok (view (w_db w)) ?c"
      using inv True s by (auto simp: zke_inv_def cluster_ok_def)
    then show ?thesis unfolding ce
      by (intro zke_inv_local [OF inv True, where c = ?c]) (use inv nt s(2) in \<open>auto simp: zke_inv_def busy_def\<close>)
  next
    case False
    then show ?thesis unfolding ce by (rule zke_inv_unlisted [OF inv])
  qed
qed

lemma zke_inv_refire:
  assumes inv: "zke_inv lv view w" and ws: "w_workers w = xs @ g # ys" and t: "target g = Some a"
    and heap: "w_heap w' = (w_heap w)[a := c]" and cls: "w_clusters w' = w_clusters w" and db: "w_db w' = w_db w"
    and ws': "targets (w_workers w') = targets (xs @ ys) @ [a]"
      "\<And>h. h \<in> set (w_workers w') \<Longrightarrow> target h \<noteq> None \<Longrightarrow> h \<in> set (xs @ ys) \<or> h = Fire a evs"
    and keep: "c_Name c = c_Name (obj w a)" "c_fsm c = c_fsm (obj w a)" "c_cancel c = c_cancel (obj w a)"
      "c_stopCh c \<in> {c_stopCh (obj w a), ChanOpen}"
    and ph: "phase_ok lv c (Fire a evs)"
  shows "zke_inv lv view w'"
proof (rule zke_inv_local [OF inv, where a = a and c = c])
  have g: "g \<in> set (w_workers w)" using ws by simp
  then show a: "a \<in> set (w_clusters w)" using zke_inv_phase [OF inv _ t] by blast
  have dist: "distinct (targets (xs @ ys) @ [a])" using inv ws t by (auto simp: zke_inv_def)
  then show "distinct (targets (w_workers w'))" by (simp add: ws'(1))
  have "cluster_ok (view (w_db w)) (obj w a)" using inv a by (simp add: zke_inv_def)
  then show "cluster_ok (view (w_db w')) c" using keep by (auto simp: cluster_ok_def db)
  fix h b
  assume h: "h \<in> set (w_workers w')" "target h = Some b"
  show "(h \<in> set (w_workers w) \<and> b \<noteq> a) \<or> (b = a \<and> phase_ok lv c h)"
  proof (cases "h = Fire a evs")
    case False
    with h ws'(2) have "h \<in> set (xs @ ys)" by auto
    moreover from this h(2) dist have "b \<noteq> a" by (auto simp: in_targets simp del: targets_simps)
    ultimately show ?thesis using ws by auto
  qed (use h ph in auto)
next
  show "\<And>b. b \<in> set (targets (w_workers w)) \<Longrightarrow> b \<noteq> a \<Longrightarrow> b \<in> set (targets (w_workers w'))"
    using ws'(1) ws t by auto
  show "a \<in> set (targets (w_workers w'))" using ws'(1) by simp
qed (use inv heap cls db keep in \<open>auto simp: zke_inv_def\<close>)

lemma worker_step_inv:
  assumes kv: "kv_laws (x_table X) view txview" and eng: "fsm_laws (x_engine X) cluster_fsm"
    and env: "state_ok env" "cache_ok env" "lv \<Longrightarrow> no_panic env"
    and inv: "zke_inv lv view w" and i: "i < length (w_workers w)"
  shows "zke_inv lv view (worker_step X env i w)"
proof -
  define xs ys g where "xs = take i (w_workers w)" "ys = drop (Suc i) (w_workers w)" "g = w_workers w ! i"
  then have ws: "w_workers w = xs @ g # ys" using id_take_nth_drop [OF i] by simp
  let ?w0 = "w\<lparr>w_workers := xs @ ys\<rparr>"
  have g: "g \<in> set (w_workers w)" using ws by simp
  show ?thesis
  proof (cases g)
    case (RunCreate a st)
    obtain c evs l where r: "cluster_Create env st (obj w a) = (c, evs, l)" by (cases "cluster_Create env st (obj w a)")
    note k = cluster_Create_keeps [OF r]
    have p: "phase_ok lv (obj w a) g" using zke_inv_phase [OF inv g] RunCreate by simp
    then obtain e st' msg where "evs = [(e, st', msg)]" "state_fits c st'"
      "e \<in> {CreateSucceedEvent, CreateFailedEvent, CreateCanceledEvent}"
      using cluster_Create_fires [OF env(1) _ r] RunCreate by auto
    with p k RunCreate have "phase_ok lv c (Fire a evs)" by (auto simp: busy_def)
    then show ?thesis
      using k RunCreate r
      by (intro zke_inv_refire [OF inv ws, where a = a and c = c and evs = evs])
        (auto simp: worker_step_def xs_ys_g_def [symmetric] Let_def split: if_splits)
  next
    case (RunUpdate a st)
    obtain c evs where r: "cluster_Update env st (obj w a) = (c, evs)" by force
    note k = cluster_Update_keeps [OF r]
    have p: "phase_ok lv (obj w a) g" using zke_inv_phase [OF inv g] RunUpdate by simp
    then obtain e st' msg where "evs = [(e, st', msg)]" "state_fits c st'"
      "lv \<longrightarrow> e \<in> (if cs_Created st then {UpdateCompletedEvent, UpdateCanceledEvent}
             else {CreateSucceedEvent, CreateFailedEvent, CreateCanceledEvent})"
      using cluster_Update_fires [OF env(1,2) _ r] env(3) RunUpdate by auto
    with p k RunUpdate have "phase_ok lv c (Fire a evs)" by (auto simp: busy_def split: if_splits)
    then show ?thesis
      using k RunUpdate r
      by (intro zke_inv_refire [OF inv ws, where a = a and c = c and evs = evs])
        (auto simp: worker_step_def xs_ys_g_def [symmetric] Let_def)
  next
    case (RunDestroy a)
    have p: "phase_ok lv (obj w a) g" using zke_inv_phase [OF inv g] RunDestroy by simp
    have "phase_ok lv (obj w a) (Fire a (cluster_Destroy env (obj w a)))"
      using cluster_Destroy_fires [of env "obj w a"] p RunDestroy by (auto simp: busy_def state_fits_def empty_state_def)
    then show ?thesis
      using RunDestroy
      by (intro zke_inv_refire [OF inv ws, where a = a and c = "obj w a"])
        (auto simp: worker_step_def xs_ys_g_def [symmetric] Let_def)
  next
    case (Fire a evs)
    have p: "a \<in> set (w_clusters w)" "phase_ok lv (obj w a) g" using zke_inv_phase [OF inv g] Fire by auto
    then obtain ev where ev: "evs = [ev]" using Fire by (auto split: list.splits)
    have "zke_inv lv view (cluster_event X a ev ?w0)"
      by (rule cluster_event_inv [OF kv eng inv ws]) (use p ev Fire in auto)
    then show ?thesis using Fire ev by (simp add: worker_step_def xs_ys_g_def [symmetric] Let_def)
  next
    case (CheckLoop a)
    have "zke_inv lv view (fst (cluster_Event X a (check_event env) w))" by (rule check_event_inv [OF eng inv])
    then show ?thesis
      using CheckLoop zke_inv_drop_worker [OF inv ws] by (simp add: worker_step_def xs_ys_g_def [symmetric] Let_def)
  qed
qed

section \<open>Handlers\<close>

lemma zke_inv_view_cong:
  assumes "zke_inv lv view w" "w_heap w' = w_heap w" "w_clusters w' = w_clusters w"
    "view (w_db w') = view (w_db w)" "w_workers w' = w_workers w"
  shows "zke_inv lv view w'"
  using assms by (simp add: zke_inv_def)

lemma zke_get_None: "zke_get n w = None \<longleftrightarrow> (\<forall>a \<in> set (w_clusters w). c_Name (obj w a) \<noteq> n)"
  by (simp add: zke_get_def find_None_all)

lemma zke_get_Some: "zke_get n w = Some a \<Longrightarrow> a \<in> set (w_clusters w) \<and> c_Name (obj w a) = n"
  by (auto simp: zke_get_def dest: find_SomeD)

text \<open>A new cluster, with its entry in the table and possibly its goroutine.\<close>

lemma zke_inv_added:
  assumes inv: "zke_inv lv view w" and new: "zke_get (c_Name c) w = None"
    and heap: "w_heap w' = w_heap w @ [c]" and cls: "w_clusters w' = w_clusters w @ [length (w_heap w)]"
    and frame: "\<And>k. k \<noteq> c_Name c \<Longrightarrow> view (w_db w') k = view (w_db w) k"
    and ok: "cluster_ok (view (w_db w')) c" "db_ok (view (w_db w'))"
    and ws: "w_workers w' = w_workers w @ gs" "distinct (targets gs)" "set (targets gs) \<subseteq> {length (w_heap w)}"
      "\<And>g. g \<in> set gs \<Longrightarrow> phase_ok lv c g"
    and busy: "lv \<Longrightarrow> busy (c_fsm c) \<Longrightarrow> length (w_heap w) \<in> set (targets gs)"
  shows "zke_inv lv view w'"
proof -
  let ?n = "length (w_heap w)"
  have lt: "a < ?n" if "a \<in> set (w_clusters w)" for a using inv that by (simp add: zke_inv_def)
  have obj: "obj w' a = obj w a" if "a \<in> set (w_clusters w)" for a using lt [OF that] by (simp add: heap nth_append)
  have objn: "obj w' ?n = c" by (simp add: heap)
  have m: "map (\<lambda>a. c_Name (obj w' a)) (w_clusters w') = map (\<lambda>a. c_Name (obj w a)) (w_clusters w) @ [c_Name c]"
    using obj by (simp add: cls objn)
  have names: "distinct (map (\<lambda>a. c_Name (obj w' a)) (w_clusters w'))"
    unfolding m using inv new by (auto simp: zke_inv_def zke_get_None)
  have cl: "a < length (w_heap w') \<and> cluster_ok (view (w_db w')) (obj w' a)" if "a \<in> set (w_clusters w')" for a
  proof (cases "a = ?n")
    case False
    with that have a: "a \<in> set (w_clusters w)" by (simp add: cls)
    with new frame have "view (w_db w') (c_Name (obj w a)) = view (w_db w) (c_Name (obj w a))" by (simp add: zke_get_None)
    moreover have "cluster_ok (view (w_db w)) (obj w a)" using inv a by (simp add: zke_inv_def)
    ultimately have "cluster_ok (view (w_db w')) (obj w' a)" unfolding obj [OF a] by (simp add: cluster_ok_def)
    moreover have "a < length (w_heap w')" using lt [OF a] by (simp add: heap)
    ultimately show ?thesis by blast
  qed (use ok heap in \<open>simp add: objn\<close>)
  have old: "b \<in> set (w_clusters w)" if "b \<in> set (targets (w_workers w))" for b
    using that inv by (auto simp: zke_inv_def in_targets)
  then have dist: "distinct (targets (w_workers w'))"
    using inv ws(1-3) lt by (fastforce simp: zke_inv_def)
  have wk: "b \<in> set (w_clusters w') \<and> phase_ok lv (obj w' b) g"
    if g: "g \<in> set (w_workers w')" "target g = Some b" for g b
  proof (cases "g \<in> set (w_workers w)")
    case True
    from zke_inv_phase [OF inv True g(2)] show ?thesis using obj [of b] by (simp add: cls)
  next
    case False
    with g ws(1) have "g \<in> set gs" by simp
    moreover from this g(2) have "b \<in> set (targets gs)" unfolding in_targets by blast
    ultimately show ?thesis using ws(3,4) by (auto simp: cls objn)
  qed
  have "b \<in> set (targets (w_workers w'))"
    if "lv" "b \<in> set (w_clusters w')" "busy (c_fsm (obj w' b))" for b
    using that inv busy ws(1) obj [of b] objn by (cases "b = ?n") (auto simp: cls zke_inv_def)
  with names cl ok(2) dist wk show ?thesis unfolding zke_inv_def by blast
qed

lemma zke_Create_inv:
  assumes kv: "kv_laws (x_table X) view txview" and inv: "zke_inv lv view w"
    and r: "zke_Create X fs now res w = (w', r)"
  shows "zke_inv lv view w'"
proof -
  define tc where "tc = TrimFieldSpace res"
  define st where "st = \<lparr>cs_FullState = Some fs, cs_ZKEConfig = genZKEConfig tc, cs_CreateTime = now,
    cs_DeleteTime = 0, cs_Created = False, cs_ScVersion = w_scVersion w\<rparr>"
  obtain w1 r1 where p: "zke_put_state X (sc_Name tc) st w = (w1, r1)" by force
  have dbok: "db_ok (view (w_db w))" using inv by (simp add: zke_inv_def)
  have "cs_Created st \<longrightarrow> cs_FullState st \<noteq> None" by (simp add: st_def)
  note pc = put_state_cases [OF kv p dbok this]
  show ?thesis
  proof (cases "zke_get (sc_Name tc) w \<noteq> None \<or> validateConfigForCreate tc \<noteq> None")
    case True
    with r inv show ?thesis
      by (auto simp: zke_Create_def tc_def [symmetric] Let_def split: if_splits)
  next
    case False
    show ?thesis
    proof (cases r1)
      case (Some e)
      with False r p have "w' = w1" by (simp add: zke_Create_def tc_def [symmetric] st_def Let_def)
      with Some pc show ?thesis by (intro zke_inv_view_cong [OF inv]) auto
    next
      case None
      let ?c = "(newCluster (sc_Name tc) CSCreating)\<lparr>c_createTime := now, c_config := genZKEConfig tc,
        c_scVersion := w_scVersion w, c_cancel := True\<rparr>"
      have w': "w' = spawn (RunCreate (length (w_heap w)) st) (snd (zke_add ?c w1))"
        using None False r p pc by (simp add: zke_Create_def tc_def [symmetric] st_def Let_def zke_add_def)
      have n: "c_Name ?c = sc_Name tc" by (simp add: newCluster_def)
      have db': "w_db w' = w_db w1" by (simp add: w' zke_add_def Let_def)
      have v: "view (w_db w') = (view (w_db w))(sc_Name tc \<mapsto> Json st)" using None pc db' by simp
      show ?thesis
      proof (rule zke_inv_added [OF inv, where c = ?c and gs = "[RunCreate (length (w_heap w)) st]"])
        show "db_ok (view (w_db w'))" using pc db' by simp
        show "cluster_ok (view (w_db w')) ?c" by (simp add: v cluster_ok_def newCluster_def st_def)
      qed (use False pc v n in \<open>auto simp: w' zke_add_def Let_def newCluster_def st_def\<close>)
    qed
  qed
qed

text \<open>
  A cluster that is not busy has no goroutine on it.
\<close>

lemma not_busy_not_target:
  assumes "zke_inv lv view w" "\<not> busy (c_fsm (obj w a))"
  shows "a \<notin> set (targets (w_workers w))"
proof
  assume "a \<in> set (targets (w_workers w))"
  then obtain g where g: "g \<in> set (w_workers w)" "target g = Some a" by (auto simp: in_targets)
  from zke_inv_phase [OF assms(1) g] g(2) assms(2) show False
    by (cases g) (auto simp: busy_def split: if_splits list.splits prod.splits)
qed

lemma zke_inv_respawn:
  assumes inv: "zke_inv lv view w" and a: "a \<in> set (w_clusters w)" "a \<notin> set (targets (w_workers w))"
    and heap: "w_heap w' = (w_heap w)[a := c]" and cls: "w_clusters w' = w_clusters w"
    and name: "c_Name c = c_Name (obj w a)"
    and frame: "\<And>k. k \<noteq> c_Name c \<Longrightarrow> view (w_db w') k = view (w_db w) k"
    and ok: "cluster_ok (view (w_db w')) c" and db: "db_ok (view (w_db w'))"
    and ws: "w_workers w' = w_workers w @ gs" "targets gs = [] \<or> targets gs = [a]"
      "\<And>g. g \<in> set gs \<Longrightarrow> phase_ok lv c g"
    and busy: "lv \<Longrightarrow> busy (c_fsm c) \<Longrightarrow> targets gs = [a]"
  shows "zke_inv lv view w'"
proof (rule zke_inv_local [OF inv a(1) heap cls name frame ok db])
  show "distinct (targets (w_workers w'))" using inv a(2) ws(1,2) by (auto simp: zke_inv_def)
  fix g b
  assume g: "g \<in> set (w_workers w')" "target g = Some b"
  show "(g \<in> set (w_workers w) \<and> b \<noteq> a) \<or> (b = a \<and> phase_ok lv c g)"
  proof (cases "g \<in> set (w_workers w)")
    case True
    with g(2) a(2) show ?thesis by (auto simp: in_targets)
  next
    case False
    with g ws(1) have "g \<in> set gs" by simp
    moreover from this g(2) have "b \<in> set (targets gs)" by (auto simp: in_targets)
    ultimately show ?thesis using ws(2,3) by auto
  qed
qed (use ws busy in auto)

lemma zke_Update_inv:
  assumes kv: "kv_laws (x_table X) view txview" and eng: "fsm_laws (x_engine X) cluster_fsm"
    and inv: "zke_inv lv view w" and r: "zke_Update X nl res w = (w', r)"
  shows "zke_inv lv view w'"
proof -
  define tc where "tc = TrimFieldSpace res"
  show ?thesis
  proof (cases "w' = w")
    case False
    obtain a st where a: "zke_get (sc_Name tc) w = Some a"
      and st: "getClusterFromDB (x_table X) (x_pem X) (sc_Name tc) (w_db w) = Inr st"
      and can: "cs_Created st \<longrightarrow> cluster_Can X (obj w a) UpdateEvent"
      and val: "validateConfigForUpdate (ToScCluster a (obj w a)) tc nl (c_kubeClient (obj w a) \<noteq> None) = None"
      using r False by (auto simp: zke_Update_def tc_def [symmetric] Let_def split: option.splits sum.splits if_splits)
    let ?o = "obj w a" and ?cfg = "genZKEConfigForUpdate (c_config (obj w a)) tc"
    let ?c1 = "?o\<lparr>c_config := ?cfg\<rparr>" and ?st = "st\<lparr>cs_ZKEConfig := ?cfg\<rparr>"
    let ?ev = "if cs_Created st then UpdateEvent else ContinuteCreateEvent"
    have al: "a \<in> set (w_clusters w)" "c_Name ?o = sc_Name tc" using zke_get_Some [OF a] by auto
    have len: "a < length (w_heap w)" and ok: "cluster_ok (view (w_db w)) ?o" and dbok: "db_ok (view (w_db w))"
      using inv al(1) by (auto simp: zke_inv_def)
    obtain s0 where s0: "view (w_db w) (sc_Name tc) = Some (Json s0)" "st = loaded (x_pem X) s0"
      using getCluster_Inr [OF kv st] by blast
    have created: "cs_Created st \<Longrightarrow> cs_FullState st \<noteq> None" using s0 dbok by (auto simp: db_ok_def)
    obtain w2 r2 where p: "zke_put_state X (sc_Name tc) ?st (put_cluster a ?c1 w) = (w2, r2)" by force
    have pc: "w_heap w2 = (w_heap w)[a := ?c1]" "w_clusters w2 = w_clusters w" "w_workers w2 = w_workers w"
      "(r2 = None \<and> view (w_db w2) = (view (w_db w))(sc_Name tc \<mapsto> Json ?st)) \<or> (r2 \<noteq> None \<and> view (w_db w2) = view (w_db w))"
      "db_ok (view (w_db w2))"
      using put_state_cases [OF kv p] dbok created by auto
    have ok2: "cluster_ok (view (w_db w2)) (?c1\<lparr>c_fsm := s, c_cancel := b\<rparr>)"
      if "s \<noteq> CSDeleted" "s = CSDeleting \<longleftrightarrow> c_fsm ?o = CSDeleting" "s = CSCreating \<or> s = CSUpdating \<longrightarrow> b" for s b
      using pc(4) ok al(2) s0 that by (auto simp: cluster_ok_def)
    have inv2: "zke_inv lv view w2"
    proof (rule zke_inv_local [OF inv al(1) pc(1,2)])
      show "cluster_ok (view (w_db w2)) ?c1"
        using ok2 [of "c_fsm ?o" "c_cancel ?o"] ok by (simp add: cluster_ok_def)
      show "distinct (targets (w_workers w2))" using inv pc(3) by (simp add: zke_inv_def)
      fix g b
      assume g: "g \<in> set (w_workers w2)" "target g = Some b"
      then have "phase_ok lv (obj w b) g" using zke_inv_phase [OF inv] pc(3) by auto
      then show "(g \<in> set (w_workers w) \<and> b \<noteq> a) \<or> (b = a \<and> phase_ok lv ?c1 g)"
        using g pc(3) by (cases g) (auto simp: state_fits_def split: list.splits prod.splits)
    next
      show "lv \<Longrightarrow> busy (c_fsm ?c1) \<Longrightarrow> a \<in> set (targets (w_workers w2))"
        using inv al(1) pc(3) by (simp add: zke_inv_def)
    qed (use pc(3,4,5) al(2) in auto)
    show ?thesis
    proof (cases "r2 = None \<and> fsm_next cluster_fsm (c_fsm ?o) ?ev \<noteq> None")
      case True
      then obtain d where d: "fsm_next cluster_fsm (c_fsm ?o) ?ev = Some d" by blast
      then have d': "d = (if cs_Created st then CSUpdating else CSCreating)" "\<not> busy (c_fsm ?o)" "c_fsm ?o \<noteq> CSDeleting"
        by (auto simp: busy_def split: if_splits)
      let ?c3 = "?c1\<lparr>c_fsm := d, c_cancel := True\<rparr>"
      have w': "w' = spawn (RunUpdate a ?st) (put_cluster a ?c3 (put_cluster a (?c1\<lparr>c_fsm := d\<rparr>) w2))"
        using r True a val st can p d pc(1) len fsm_laws.event_ok [OF eng cluster_fsm_deterministic d]
        by (cases "cs_Created st") (simp_all add: zke_Update_def tc_def [symmetric] Let_def cluster_Event_def)
      have "cs_Created st \<longrightarrow> c_stopCh ?o = ChanOpen"
        using ok s0 al(2) d'(3) by (auto simp: cluster_ok_def)
      then have "phase_ok lv ?c3 (RunUpdate a ?st)" using created d' by (auto simp: state_fits_def)
      moreover have "cluster_ok (view (w_db w2)) ?c3" by (rule ok2) (use d' in auto)
      moreover have "a \<notin> set (targets (w_workers w))" by (rule not_busy_not_target [OF inv d'(2)])
      ultimately show ?thesis
        by (intro zke_inv_respawn [OF inv al(1), where c = ?c3 and gs = "[RunUpdate a ?st]"])
          (use w' pc al(2) in auto)
    next
      case False
      have "w' = w2"
      proof (cases r2)
        case None
        with False obtain e where "fsmEvent (x_engine X) cluster_fsm (c_fsm ?o) ?ev = Inl e"
          using fsm_laws.event_refused [OF eng cluster_fsm_deterministic] by blast
        with None r a val st can p pc(1) len show ?thesis
          by (cases "cs_Created st") (simp_all add: zke_Update_def tc_def [symmetric] Let_def cluster_Event_def)
      next
        case (Some e)
        with r a val st can p show ?thesis
          by (cases "cs_Created st") (simp_all add: zke_Update_def tc_def [symmetric] Let_def)
      qed
      with inv2 show ?thesis by simp
    qed
  qed (use inv in simp)
qed

lemma zke_Delete_inv:
  assumes kv: "kv_laws (x_table X) view txview" and eng: "fsm_laws (x_engine X) cluster_fsm"
    and live: "lv \<Longrightarrow> kv_live (x_table X) view txview"
    and inv: "zke_inv lv view w" and r: "zke_Delete X now cid w = (w', r)"
  shows "zke_inv lv view w' \<and> (\<exists>x. r = Done x)"
proof -
  consider (refused) "w' = w" "\<exists>x. r = Done x"
    | (go) a st where "zke_get cid w = Some a" "cluster_Can X (obj w a) DeleteEvent"
      "getClusterFromDB (x_table X) (x_pem X) (c_Name (obj w a)) (w_db w) = Inr st"
    using r by (auto simp: zke_Delete_def split: option.splits sum.splits if_splits)
  then show ?thesis
  proof cases
    case go
    let ?o = "obj w a"
    have al: "a \<in> set (w_clusters w)" "c_Name ?o = cid" using zke_get_Some [OF go(1)] by auto
    have len: "a < length (w_heap w)" and ok: "cluster_ok (view (w_db w)) ?o" and dbok: "db_ok (view (w_db w))"
      using inv al(1) by (auto simp: zke_inv_def)
    have can: "fsm_next cluster_fsm (c_fsm ?o) DeleteEvent \<noteq> None"
      using go(2) fsm_laws.can_iff [OF eng cluster_fsm_deterministic] by (simp add: cluster_Can_def)
    then have d: "fsm_next cluster_fsm (c_fsm ?o) DeleteEvent = Some CSDeleting" "\<not> busy (c_fsm ?o)" "c_fsm ?o \<noteq> CSDeleting"
      by (auto simp: busy_def split: if_splits)
    have w1: "fst (cluster_Event X a DeleteEvent w) = put_cluster a (?o\<lparr>c_fsm := CSDeleting\<rparr>) w"
      using fsm_laws.event_ok [OF eng cluster_fsm_deterministic d(1)] by (simp add: cluster_Event_def)
    obtain s0 where s0: "view (w_db w) cid = Some (Json s0)" "st = loaded (x_pem X) s0"
      using getCluster_Inr [OF kv go(3)] al(2) by auto
    have created: "cs_Created st \<Longrightarrow> cs_FullState st \<noteq> None" using s0 dbok by (auto simp: db_ok_def)
    have open_ch: "cs_Created st \<Longrightarrow> c_stopCh ?o = ChanOpen"
      using ok s0 al(2) d(3) by (auto simp: cluster_ok_def)
    define c3 where "c3 = ?o\<lparr>c_fsm := CSDeleting, c_stopCh := (if cs_Created st then ChanClosed else c_stopCh ?o),
      c_deleteTime := now\<rparr>"
    define w3 where "w3 = (if cs_Created st
      then emit [PublishDelete (ToScCluster a (?o\<lparr>c_fsm := CSDeleting, c_stopCh := ChanClosed\<rparr>))]
             (put_cluster a (?o\<lparr>c_fsm := CSDeleting, c_stopCh := ChanClosed\<rparr>) (put_cluster a (?o\<lparr>c_fsm := CSDeleting\<rparr>) w))
      else put_cluster a (?o\<lparr>c_fsm := CSDeleting\<rparr>) w)"
    have w3: "(w_heap w3)[a := c3] = (w_heap w)[a := c3]" "w_clusters w3 = w_clusters w" "w_db w3 = w_db w"
      "w_workers w3 = w_workers w" by (simp_all add: w3_def)
    obtain w4 r4 where p: "zke_put_state X cid (st\<lparr>cs_DeleteTime := now\<rparr>) (put_cluster a c3 w3) = (w4, r4)" by force
    have pc: "w_heap w4 = (w_heap w)[a := c3]" "w_clusters w4 = w_clusters w" "w_workers w4 = w_workers w"
      "view (w_db w4) = (view (w_db w))(cid \<mapsto> Json (st\<lparr>cs_DeleteTime := now\<rparr>)) \<or> view (w_db w4) = view (w_db w)"
      "db_ok (view (w_db w4))"
      using put_state_cases [OF kv p] dbok created by (auto simp: w3)
    have r4: "r4 = None" if lv
      using createOrUpdate_live [OF live [OF that]] p
      by (auto simp: zke_put_state_def split: prod.splits) (metis Pair_inject)
    have wr: "(w', r) = (if r4 = None then (spawn (RunDestroy a) w4, Done None)
                         else (w4, Done (Some (APIError ServerError (the r4)))))"
      using r go p w1 len open_ch al(2)
      by (cases "cs_Created st"; cases r4) (simp_all add: zke_Delete_def Let_def w3_def c3_def)
    have "a \<notin> set (targets (w_workers w))" by (rule not_busy_not_target [OF inv d(2)])
    moreover have "cluster_ok (view (w_db w4)) c3"
      using pc(4) s0 al(2) by (auto simp: cluster_ok_def c3_def)
    ultimately have "zke_inv lv view w'"
      by (intro zke_inv_respawn [OF inv al(1), where c = c3 and gs = "if r4 = None then [RunDestroy a] else []"])
        (use wr pc al(2) r4 in \<open>auto simp: c3_def split: if_splits\<close>)
    with wr show ?thesis by (auto split: if_splits)
  qed (use inv in auto)
qed

lemma cluster_Cancel_keeps:
  assumes "cluster_Cancel c = (c', r)"
  shows "c_Name c' = c_Name c \<and> c_fsm c' = c_fsm c \<and> c_cancel c' = c_cancel c \<and> c_stopCh c' = c_stopCh c
    \<and> (\<not> (c_fsm c = CSCreating \<or> c_fsm c = CSUpdating) \<or> c_cancel c \<longrightarrow> (\<exists>x. r = Done x))"
  using assms by (auto simp: cluster_Cancel_def Let_def split: if_splits)

lemma zke_Cancel_inv:
  assumes inv: "zke_inv lv view w" and r: "zke_CancelCluster cid w = (w', r)"
  shows "zke_inv lv view w' \<and> (\<exists>x. r = Done x)"
proof (cases "zke_get cid w")
  case None
  with r inv show ?thesis by (auto simp: zke_CancelCluster_def)
next
  case (Some a)
  have al: "a \<in> set (w_clusters w)" using zke_get_Some [OF Some] by auto
  then have ok: "cluster_ok (view (w_db w)) (obj w a)" using inv by (simp add: zke_inv_def)
  obtain c y where cy: "cluster_Cancel (obj w a) = (c, y)" by force
  have keep: "c_Name c = c_Name (obj w a)" "c_fsm c = c_fsm (obj w a)" "c_cancel c = c_cancel (obj w a)"
    "c_stopCh c = c_stopCh (obj w a)" using cluster_Cancel_keeps [OF cy] by auto
  obtain x where "y = Done x" using cluster_Cancel_keeps [OF cy] ok by (auto simp: cluster_ok_def)
  then have w': "w' = put_cluster a c w" "\<exists>x. r = Done x"
    using r Some cy by (auto simp: zke_CancelCluster_def split: option.splits)
  have ph: "phase_ok lv c g" if "phase_ok lv (obj w a) g" for g :: "'b worker"
    using that keep by (cases g) (auto simp: state_fits_def split: list.splits prod.splits)
  have "zke_inv lv view w'"
  proof (rule zke_inv_local [OF inv al, where c = c])
    show "cluster_ok (view (w_db w')) c" using ok keep w'(1) by (simp add: cluster_ok_def)
    show "lv \<Longrightarrow> busy (c_fsm c) \<Longrightarrow> a \<in> set (targets (w_workers w'))"
      using inv al keep(2) w'(1) by (simp add: zke_inv_def)
  qed (use w'(1) keep inv ph zke_inv_phase [OF inv] in \<open>auto simp: zke_inv_def\<close>)
  with w' show ?thesis by blast
qed

lemma zstep_inv:
  assumes kv: "kv_laws (x_table X) view txview" and eng: "fsm_laws (x_engine X) cluster_fsm"
    and env: "state_ok env" "cache_ok env"
    and live: "lv \<Longrightarrow> kv_live (x_table X) view txview \<and> no_panic env"
    and inv: "zke_inv lv view w" and step: "zstep X env w w'"
  shows "zke_inv lv view w'"
  using step
proof (cases rule: zstep.cases)
  case (step_delete now cid r)
  with zke_Delete_inv [OF kv eng _ inv] live show ?thesis by blast
next
  case (step_cancel cid r)
  with zke_Cancel_inv [OF inv] show ?thesis by blast
next
  case (step_worker i)
  with worker_step_inv [OF kv eng env _ inv] live show ?thesis by blast
qed (use inv zke_Create_inv [OF kv] zke_Update_inv [OF kv eng] in blast)+

lemma zreach_inv:
  assumes "kv_laws (x_table X) view txview" "fsm_laws (x_engine X) cluster_fsm"
    and "lv \<Longrightarrow> kv_live (x_table X) view txview"
    and "zke_inv lv view w0"
    and "zreach X (\<lambda>env. state_ok env \<and> cache_ok env \<and> (lv \<longrightarrow> no_panic env)) w0 w"
  shows "zke_inv lv view w"
  using assms(5,4) by (induction rule: zreach.induct) (use zstep_inv [OF assms(1,2)] assms(3) in blast)+

section \<open>Loading\<close>

lemma cluster_Init_keeps:
  assumes "cluster_Init env kc c = (c', r)"
  shows "c_Name c' = c_Name c \<and> c_fsm c' = c_fsm c \<and> c_config c' = c_config c \<and> (r = None \<longrightarrow> c_stopCh c' = ChanOpen)"
  using assms by (auto simp: cluster_Init_def split: sum.splits prod.splits option.splits dest!: setCache_keeps)

lemma load_entry_inv:
  assumes inv: "zke_inv lv view w" and new: "zke_get k w = None" and s: "view (w_db w) k = Some (Json s)"
  shows "\<exists>w'. load_entry env (k, loaded pem s) w = Done w' \<and> zke_inv lv view w' \<and> w_db w' = w_db w
    \<and> (\<forall>n. n \<noteq> k \<longrightarrow> zke_get n w = None \<longrightarrow> zke_get n w' = None)"
proof -
  have db: "db_ok (view (w_db w))" using inv by (simp add: zke_inv_def)
  have get: "zke_get n (snd (zke_add c w)) = None"
    if "zke_get n w = None" "c_Name c \<noteq> n" for n c
    using that inv by (auto simp: zke_get_None zke_add_def Let_def nth_append zke_inv_def)
  have add: "zke_inv lv view (snd (zke_add c w))"
    if "c_Name c = k" "cluster_ok (view (w_db w)) c" "\<not> busy (c_fsm c)" for c
    by (rule zke_inv_added [OF inv, where c = c and gs = "[]"])
      (use that new db in \<open>auto simp: zke_add_def Let_def\<close>)
  let ?v = "loaded pem s"
  let ?fill = "\<lambda>c. c\<lparr>c_config := cs_ZKEConfig ?v, c_createTime := cs_CreateTime ?v, c_scVersion := cs_ScVersion ?v\<rparr>"
  show ?thesis
  proof (cases "cs_Created s")
    case True
    have "cs_FullState s \<noteq> None" using True s db unfolding db_ok_def by blast
    then obtain fs where fs: "cs_FullState ?v = Some fs" by (auto simp: loaded_def)
    obtain c r where i: "cluster_Init env (env_kubeConfig env fs) (?fill (newCluster k CSRunning)) = (c, r)" by force
    note ik = cluster_Init_keeps [OF i]
    show ?thesis
    proof (cases r)
      case None
      with ik s True have n: "c_Name c = k" "cluster_ok (view (w_db w)) c" "\<not> busy (c_fsm c)"
        by (auto simp: newCluster_def cluster_ok_def busy_def)
      let ?a = "length (w_heap w)"
      have "load_entry env (k, ?v) w = Done (emit [PublishCreate (ToScCluster ?a c)] (spawn (CheckLoop ?a) (snd (zke_add c w))))"
        using True fs i None by (simp add: load_entry_def Let_def zke_add_def)
      moreover have "zke_inv lv view (spawn (CheckLoop ?a) (snd (zke_add c w)))"
        by (rule zke_inv_spawn_loop [OF add [OF n]])
      ultimately show ?thesis using get n(1)
        by (auto simp: zke_get_None zke_add_def Let_def)
    next
      case (Some e)
      with True fs i inv show ?thesis by (simp add: load_entry_def Let_def)
    qed
  next
    case False
    let ?c = "?fill (newCluster k CSCreateFailed)"
    have n: "c_Name ?c = k" "cluster_ok (view (w_db w)) ?c" "\<not> busy (c_fsm ?c)"
      using s False by (auto simp: newCluster_def cluster_ok_def busy_def)
    then have "zke_inv lv view (snd (zke_add ?c w))" by (rule add)
    moreover have "\<forall>m. m \<noteq> k \<longrightarrow> zke_get m w = None \<longrightarrow> zke_get m (snd (zke_add ?c w)) = None"
      using get n(1) by metis
    moreover have "load_entry env (k, ?v) w = Done (snd (zke_add ?c w))" "w_db (snd (zke_add ?c w)) = w_db w"
      using False by (simp_all add: load_entry_def Let_def zke_add_def)
    ultimately show ?thesis by blast
  qed
qed

lemma load_entries_inv:
  assumes "zke_inv lv view w" "distinct (map fst ss)"
    and "\<forall>(k, s) \<in> set ss. zke_get k w = None \<and> view (w_db w) k = Some (Json s)"
  shows "\<exists>w'. load_entries env (map (\<lambda>(k, s). (k, loaded pem s)) ss) w = Done w' \<and> zke_inv lv view w' \<and> w_db w' = w_db w"
  using assms
proof (induction ss arbitrary: w)
  case (Cons e ss)
  obtain k s where e: "e = (k, s)" by force
  with Cons.prems obtain w1 where w1: "load_entry env (k, loaded pem s) w = Done w1" "zke_inv lv view w1"
    "w_db w1 = w_db w" "\<forall>n. n \<noteq> k \<longrightarrow> zke_get n w = None \<longrightarrow> zke_get n w1 = None"
    using load_entry_inv [OF Cons.prems(1), of k s env pem] by auto
  have "\<forall>(k', s') \<in> set ss. zke_get k' w1 = None \<and> view (w_db w1) k' = Some (Json s')"
    using Cons.prems(2,3) w1(3,4) e by (auto simp: image_iff split: prod.splits)
  with Cons.IH [OF w1(2)] Cons.prems(2) w1(1,3) e show ?case by auto
qed simp

lemma newZKEManager_inv:
  assumes kv: "kv_laws (x_table X) view txview" and db: "db_ok (view d)"
  shows "(\<exists>e. newZKEManager X env v d = Done (Inl e))
    \<or> (\<exists>w. newZKEManager X env v d = Done (Inr w) \<and> zke_inv lv view w \<and> w_db w = d)"
proof (cases "getClustersFromDB (x_table X) (x_pem X) d")
  case (Inl e)
  then show ?thesis by (simp add: newZKEManager_def zke_loadDB_def)
next
  case (Inr states)
  let ?w = "\<lparr>w_heap = [], w_clusters = [], w_db = d, w_scVersion = v, w_workers = [], w_outs = []\<rparr>"
  obtain kvs where kvs: "read_states (x_pem X) kvs = Inr states" "map_of kvs = view d" "distinct (map fst kvs)"
    using Inr kv_laws.read_list [OF kv] by (auto simp: getClustersFromDB_def split: sum.splits)
  obtain ss where ss: "kvs = map (\<lambda>(k, s). (k, Json s)) ss" "states = map (\<lambda>(k, s). (k, loaded (x_pem X) s)) ss"
    using read_states_Inr [OF kvs(1)] by blast
  have "map fst kvs = map fst ss" by (simp add: ss(1) comp_def case_prod_unfold)
  then have dist: "distinct (map fst ss)" using kvs(3) by simp
  have "\<forall>(k, s) \<in> set ss. zke_get k ?w = None \<and> view (w_db ?w) k = Some (Json s)"
  proof clarify
    fix k s
    assume "(k, s) \<in> set ss"
    then have "(k, Json s) \<in> set kvs" by (auto simp: ss(1))
    with kvs(2,3) show "zke_get k ?w = None \<and> view (w_db ?w) k = Some (Json s)"
      by (simp add: zke_get_def flip: kvs(2))
  qed
  moreover have "zke_inv lv view ?w" using db by (simp add: zke_inv_def)
  ultimately obtain w' where "load_entries env states ?w = Done w'" "zke_inv lv view w'" "w_db w' = d"
    using load_entries_inv [OF _ dist, of lv view ?w env "x_pem X"] ss(2) by auto
  with Inr show ?thesis by (simp add: newZKEManager_def zke_loadDB_def)
qed

end
