(* ===== verification/ZkeProps.thy ===== *)
theory ZkeProps
  imports ZkeSafety
begin

text \<open>
  The properties of the cluster manager, over runs of \<open>zstep\<close> from a freshly loaded manager,
  with their witnesses on an in-memory table, a table-driven state machine and a library
  environment in which everything succeeds.
\<close>

section \<open>A concrete surrounding\<close>

definition mem_ctx ::
  "(nat cluster_state json mem_db, nat cluster_state json mem_db \<times> nat cluster_state json mem_db, nat) zke_ctx" where
  "mem_ctx = \<lparr>x_table = mem_table, x_pem = id, x_engine = table_engine\<rparr>"

definition good_env :: "(nat, nat) zke_env" where
  "good_env =
     \<lparr>env_clusterUp = (\<lambda>cfg st. Inr (Some 1, None)), env_clusterRemove = (\<lambda>cfg. Inr None),
      env_kubeConfig = (\<lambda>fs. ''config''), env_buildConfig = (\<lambda>s. Inr 1), env_clientNew = (\<lambda>k. Inr 2),
      env_transportFor = (\<lambda>k. Inr 3), env_cacheNew = (\<lambda>k. Inr 4), env_serverVersion = None\<rparr>"

definition stored :: "bool \<Rightarrow> nat cluster_state" where
  "stored created =
     \<lparr>cs_FullState = Some 1, cs_ZKEConfig = genZKEConfig sample_cluster, cs_CreateTime = 5, cs_DeleteTime = 0,
      cs_Created = created, cs_ScVersion = ''v1''\<rparr>"

definition stored_db :: "nat cluster_state json mem_db" where
  "stored_db = [(''local'', Json (stored True)), (''broken'', Json (stored False))]"

lemma good_env_ok: "state_ok good_env" "cache_ok good_env" "no_panic good_env"
  by (simp_all add: good_env_def state_ok_def cache_ok_def no_panic_def)

lemma mem_ctx_simps [simp]:
  "x_table mem_ctx = mem_table" "x_pem mem_ctx = id" "x_engine mem_ctx = table_engine"
  by (simp_all add: mem_ctx_def)

lemma mem_ctx_laws:
  "kv_laws (x_table mem_ctx) map_of (\<lambda>(d, t). map_of t)" "kv_live (x_table mem_ctx) map_of (\<lambda>(d, t). map_of t)"
  "fsm_laws (x_engine mem_ctx) cluster_fsm"
  using mem.kv_laws_axioms mem.kv_live_axioms table_fsm.fsm_laws_axioms by simp_all

lemma stored_db_ok: "db_ok (map_of stored_db)"
  by (auto simp: db_ok_def stored_db_def stored_def split: if_splits)

lemma stored_start:
  "\<exists>w0. newZKEManager mem_ctx good_env ''v1'' stored_db = Done (Inr w0)
     \<and> w_clusters w0 = [0, 1] \<and> c_Name (obj w0 0) = ''local'' \<and> c_fsm (obj w0 0) = CSRunning
     \<and> c_stopCh (obj w0 0) = ChanOpen \<and> w_db w0 = stored_db \<and> w_workers w0 = [CheckLoop 0] \<and> length (w_heap w0) = 2"
  by (simp add: newZKEManager_def zke_loadDB_def getClustersFromDB_def kv_read_def stored_db_def stored_def
      load_entry_def cluster_Init_def setCache_def newKubeHttpClient_def good_env_def zke_add_def newCluster_def
      loaded_def emit_def spawn_def Let_def)

lemma stored_delete:
  assumes "w_clusters w0 = [0, 1]" "c_Name (obj w0 0) = ''local''" "c_fsm (obj w0 0) = CSRunning"
    "c_stopCh (obj w0 0) = ChanOpen" "w_db w0 = stored_db" "w_workers w0 = [CheckLoop 0]" "length (w_heap w0) = 2"
  shows "\<exists>w. zke_Delete mem_ctx 9 ''local'' w0 = (w, Done None) \<and> w_workers w = [CheckLoop 0, RunDestroy 0]
    \<and> w_clusters w = [0, 1]"
  using assms
  by (simp add: zke_Delete_def zke_get_def cluster_Can_def getClusterFromDB_def kv_read_def stored_db_def stored_def
      loaded_def cluster_Event_def zke_put_state_def createOrUpdateClusterFromDB_def kv_write_def Let_def)

lemma stored_run:
  "\<exists>w0 w. newZKEManager mem_ctx good_env ''v1'' stored_db = Done (Inr w0)
     \<and> zreach mem_ctx (\<lambda>env. state_ok env \<and> cache_ok env \<and> no_panic env) w0 w
     \<and> w_workers w = [CheckLoop 0, RunDestroy 0] \<and> w_clusters w = [0, 1]"
proof -
  obtain w0 where w0: "newZKEManager mem_ctx good_env ''v1'' stored_db = Done (Inr w0)"
    "w_clusters w0 = [0, 1]" "c_Name (obj w0 0) = ''local''" "c_fsm (obj w0 0) = CSRunning"
    "c_stopCh (obj w0 0) = ChanOpen" "w_db w0 = stored_db" "w_workers w0 = [CheckLoop 0]" "length (w_heap w0) = 2"
    using stored_start by blast
  obtain w where w: "zke_Delete mem_ctx 9 ''local'' w0 = (w, Done None)" "w_workers w = [CheckLoop 0, RunDestroy 0]"
    "w_clusters w = [0, 1]"
    using stored_delete [OF w0(2-)] by blast
  have "zstep mem_ctx good_env w0 w" by (rule step_delete [OF w(1)])
  then have "zreach mem_ctx (\<lambda>env. state_ok env \<and> cache_ok env \<and> no_panic env) w0 w"
    using good_env_ok by (intro reach_step [OF reach_start]) auto
  with w0(1) w(2,3) show ?thesis by blast
qed

lemma zreach_mono:
  assumes "zreach X P w0 w" "\<And>env. P env \<Longrightarrow> Q env"
  shows "zreach X Q w0 w"
  using assms(1) by induction (use assms(2) in \<open>auto intro: reach_start reach_step\<close>)

lemma reached_inv:
  assumes "kv_laws (x_table X) view txview" "fsm_laws (x_engine X) cluster_fsm" "db_ok (view d)"
    and "newZKEManager X env0 v d = Done (Inr w0)"
    and "lv \<Longrightarrow> kv_live (x_table X) view txview"
    and "zreach X (\<lambda>env. state_ok env \<and> cache_ok env \<and> (lv \<longrightarrow> no_panic env)) w0 w"
  shows "zke_inv lv view w"
proof -
  have "zke_inv lv view w0" using newZKEManager_inv [OF assms(1,3), of env0 v lv] assms(4) by auto
  then show ?thesis using zreach_inv [OF assms(1,2,5)] assms(6) by blast
qed

section \<open>Properties\<close>







section \<open>A whole creation\<close>

text \<open>Answers of the libraries in a run where everything succeeds.\<close>

definition up_ok :: "('k, 'fs) zke_env \<Rightarrow> bool" where
  "up_ok env \<longleftrightarrow>
     cache_ok env
     \<and> (\<forall>cfg st. \<exists>fs. env_clusterUp env cfg st = Inr (Some fs, None))
     \<and> (\<forall>s. \<exists>k. env_buildConfig env s = Inr k) \<and> (\<forall>k. \<exists>c. env_clientNew env k = Inr c)"

lemma up_ok_up: "up_ok env \<Longrightarrow> \<exists>fs k kc. upZKECluster env cfg st = Inr (Some fs, Inr (k, kc))"
proof -
  assume ok: "up_ok env"
  then obtain fs where fs: "env_clusterUp env cfg st = Inr (Some fs, None)" unfolding up_ok_def by blast
  obtain k where k: "env_buildConfig env (env_kubeConfig env fs) = Inr k" using ok unfolding up_ok_def by blast
  obtain c where "env_clientNew env k = Inr c" using ok unfolding up_ok_def by blast
  with fs k show ?thesis by (simp add: upZKECluster_def)
qed

lemma cluster_Create_succeeds:
  assumes "up_ok env" "\<not> c_isCanceled c"
  shows "\<exists>c' fs. cluster_Create env st c
      = (c', [(CreateSucceedEvent, st\<lparr>cs_FullState := Some fs, cs_Created := True\<rparr>, '''')], True)
    \<and> c_Name c' = c_Name c \<and> c_fsm c' = c_fsm c \<and> c_config c' = c_config c"
proof -
  obtain fs k kc where up: "upZKECluster env (c_config c) (cs_FullState st) = Inr (Some fs, Inr (k, kc))"
    using up_ok_up [OF assms(1)] by blast
  have co: "cache_ok env" using assms(1) by (simp add: up_ok_def)
  obtain c' where c': "setCache env k (c\<lparr>c_kubeClient := Some kc\<rparr>) = (c', None)"
    using setCache_ok [OF co] by blast
  with setCache_keeps [OF c'] up assms(2) show ?thesis by (auto simp: cluster_Create_def)
qed

lemma zke_Create_accepted:
  assumes "zke_Create X fs now res w = (w1, Inr tc)"
  shows "zke_get (sc_Name tc) w = None
    \<and> (\<exists>st c0. cs_ZKEConfig st = genZKEConfig tc \<and> w_heap w1 = w_heap w @ [c0]
        \<and> w_clusters w1 = w_clusters w @ [length (w_heap w)]
        \<and> w_workers w1 = w_workers w @ [RunCreate (length (w_heap w)) st]
        \<and> c_Name c0 = sc_Name tc \<and> c_fsm c0 = CSCreating \<and> \<not> c_isCanceled c0)"
proof -
  define t where "t = TrimFieldSpace res"
  have tc: "tc = t\<lparr>sc_ID := sc_Name t, sc_CreationTimestamp := now\<rparr>"
    using assms by (auto simp: zke_Create_def t_def [symmetric] Let_def split: if_splits option.splits prod.splits)
  then have "genZKEConfig tc = genZKEConfig t" "sc_Name tc = sc_Name t"
    by (simp_all add: genZKEConfig_def scClusterToZKENodes_def)
  with assms show ?thesis
    by (auto simp: zke_Create_def t_def [symmetric] Let_def zke_put_state_def zke_add_def newCluster_def
        split: if_splits option.splits prod.splits)
qed

text \<open>
  C5. A creation that is accepted and whose libraries succeed ends well: after two steps of its
  goroutine (the call of the zke library and the sending of its event) the cluster is listed under
  its name and Running, the table holds its configuration marked as created, and the creation has
  been announced.
\<close>

theorem zke_create_runs:
  fixes w :: "('d, 'k, 'fs) zke_world"
  assumes kv: "kv_live (x_table X) view txview" and eng: "fsm_laws (x_engine X) cluster_fsm"
    and inv: "zke_inv True view w" and create: "zke_Create X fs now res w = (w1, Inr tc)" and env: "up_ok env"
  defines "i \<equiv> length (w_workers w)"
  defines "w3 \<equiv> worker_step X env i (worker_step X env i w1)"
  shows "\<exists>a s sc. zke_get (sc_Name tc) w3 = Some a \<and> c_fsm (obj w3 a) = CSRunning
    \<and> view (w_db w3) (sc_Name tc) = Some (Json s) \<and> cs_Created s \<and> cs_ZKEConfig s = genZKEConfig tc
    \<and> w_workers w3 = w_workers w @ [CheckLoop a]
    \<and> last (w_outs w3) = PublishCreate sc \<and> sc_Name sc = sc_Name tc \<and> sc_Status sc = Some CSRunning"
proof -
  define a where "a = length (w_heap w)"
  obtain st c0 where new: "zke_get (sc_Name tc) w = None" and st: "cs_ZKEConfig st = genZKEConfig tc"
    and w1: "w_heap w1 = w_heap w @ [c0]" "w_clusters w1 = w_clusters w @ [a]"
    "w_workers w1 = w_workers w @ [RunCreate a st]"
    and c0: "c_Name c0 = sc_Name tc" "c_fsm c0 = CSCreating" "\<not> c_isCanceled c0"
    using zke_Create_accepted [OF create] unfolding a_def by blast
  obtain c1 fs' where cr: "cluster_Create env st c0
      = (c1, [(CreateSucceedEvent, st\<lparr>cs_FullState := Some fs', cs_Created := True\<rparr>, '''')], True)"
    and c1: "c_Name c1 = sc_Name tc" "c_fsm c1 = CSCreating"
    using cluster_Create_succeeds [OF env c0(3), of st] c0 by auto
  define ev where "ev = (CreateSucceedEvent, st\<lparr>cs_FullState := Some fs', cs_Created := True\<rparr>, ''''::string)"
  define w2 where "w2 = worker_step X env i w1"
  have w2: "w_heap w2 = w_heap w @ [c1]" "w_clusters w2 = w_clusters w @ [a]"
    "w_workers w2 = w_workers w @ [Fire a [ev], CheckLoop a]"
    using w1 cr by (simp_all add: w2_def worker_step_def i_def a_def ev_def Let_def)
  have w3w2: "w3 = worker_step X env i w2" by (simp add: w3_def w2_def)
  let ?c = "c1\<lparr>c_fsm := CSRunning\<rparr>"
  have next_ev: "fsmEvent (x_engine X) cluster_fsm CSCreating CreateSucceedEvent = Inr CSRunning"
    by (rule fsm_laws.event_ok [OF eng cluster_fsm_deterministic]) simp
  obtain d where d: "createOrUpdateClusterFromDB (x_table X) (sc_Name tc) (fst (snd ev)) (w_db w2) = (d, None)"
    "view d = (view (w_db w2))(sc_Name tc \<mapsto> Json (fst (snd ev)))"
    using createOrUpdate_live [OF kv] by blast
  have w3: "w_heap w3 = w_heap w @ [?c]" "w_clusters w3 = w_clusters w @ [a]"
    "w_workers w3 = w_workers w @ [CheckLoop a]" "w_db w3 = d"
    "last (w_outs w3) = PublishCreate (ToScCluster a ?c)"
    using w2 c1 d next_ev
    by (simp_all add: w3w2 worker_step_def i_def a_def ev_def cluster_event_def
        fsm_callback_def zke_put_state_def Let_def emit_def)
  have lt: "b < length (w_heap w)" if "b \<in> set (w_clusters w)" for b using inv that by (simp add: zke_inv_def)
  have "zke_get (sc_Name tc) w3 = Some a"
    using new c1 lt by (simp add: zke_get_def w3 a_def nth_append find_skip find_None_all)
  moreover have "obj w3 a = ?c" by (simp add: w3 a_def)
  ultimately show ?thesis
    using w3 d(2) st c1 by (auto simp: ev_def ToScCluster_def sc_of_config_def)
qed

definition empty_world :: "(nat cluster_state json mem_db, nat, nat) zke_world" where
  "empty_world =
     \<lparr>w_heap = [], w_clusters = [], w_db = [], w_scVersion = ''v1'', w_workers = [], w_outs = []\<rparr>"

lemma empty_world_inv: "zke_inv lv map_of empty_world"
  by (simp add: empty_world_def zke_inv_def db_ok_def)

lemma plain_dotted: "plain (dotted p)"
  by (simp add: dotted_def)

lemma sample_trimmed: "TrimFieldSpace sample_cluster = sample_cluster"
  by (simp add: TrimFieldSpace_def sample_cluster_def sample_node_def empty_node_def empty_cluster_def
      empty_load_balance_def trimSpace_plain plain_dotted)

lemma sample_created:
  "\<exists>w1. zke_Create mem_ctx 1 7 sample_cluster empty_world
      = (w1, Inr (sample_cluster\<lparr>sc_ID := ''local'', sc_CreationTimestamp := 7\<rparr>))"
proof -
  have n: "sc_Name sample_cluster = ''local''" and k: "sc_SSHKey sample_cluster \<noteq> ''''"
    by (simp_all add: sample_cluster_def)
  have v: "validateConfigForCreate sample_cluster = None"
    using sample_cluster_good k
    by (simp add: validateConfigForCreate_def createValidators_None validators_None(6))
  show ?thesis
    by (simp add: zke_Create_def sample_trimmed Let_def v n zke_get_def empty_world_def zke_put_state_def
        createOrUpdateClusterFromDB_def kv_write_def zke_add_def)
qed

theorem zke_create_runs_witness:
  "\<exists>w1. zke_Create mem_ctx 1 7 sample_cluster empty_world
      = (w1, Inr (sample_cluster\<lparr>sc_ID := ''local'', sc_CreationTimestamp := 7\<rparr>))
    \<and> (\<exists>a. zke_get ''local'' (worker_step mem_ctx good_env 0 (worker_step mem_ctx good_env 0 w1)) = Some a
        \<and> c_fsm (obj (worker_step mem_ctx good_env 0 (worker_step mem_ctx good_env 0 w1)) a) = CSRunning)"
proof -
  obtain w1 where w1: "zke_Create mem_ctx 1 7 sample_cluster empty_world
      = (w1, Inr (sample_cluster\<lparr>sc_ID := ''local'', sc_CreationTimestamp := 7\<rparr>))"
    using sample_created by blast
  have "up_ok good_env" using good_env_ok by (simp add: up_ok_def good_env_def)
  from zke_create_runs [OF mem_ctx_laws(2,3) empty_world_inv w1 this] w1 show ?thesis
    by (auto simp: empty_world_def sample_cluster_def)
qed

section \<open>Restart\<close>

text \<open>What a client sees of the listed clusters: name, configuration and status.\<close>

definition summary :: "('d, 'k, 'fs) zke_world \<Rightarrow> (string \<times> zke_config \<times> cluster_status) list" where
  "summary w = map (\<lambda>a. (c_Name (obj w a), c_config (obj w a), c_fsm (obj w a))) (w_clusters w)"

definition entry_summary :: "string \<times> 'fs cluster_state \<Rightarrow> string \<times> zke_config \<times> cluster_status" where
  "entry_summary kv = (fst kv, cs_ZKEConfig (snd kv), if cs_Created (snd kv) then CSRunning else CSCreateFailed)"

lemma summary_add:
  assumes "\<forall>a \<in> set (w_clusters w). a < length (w_heap w)"
  shows "summary (snd (zke_add c w)) = summary w @ [(c_Name c, c_config c, c_fsm c)]"
  using assms by (auto simp: summary_def zke_add_def Let_def nth_append)

lemma load_entry_summary:
  assumes env: "up_ok env" and lt: "\<forall>a \<in> set (w_clusters w). a < length (w_heap w)"
    and v: "cs_Created v \<longrightarrow> cs_FullState v \<noteq> None"
  shows "\<exists>w'. load_entry env (k, v) w = Done w' \<and> summary w' = summary w @ [entry_summary (k, v)]
    \<and> (\<forall>a \<in> set (w_clusters w'). a < length (w_heap w'))"
proof (cases "cs_Created v")
  case True
  then obtain fs where fs: "cs_FullState v = Some fs" using v by blast
  let ?c = "(newCluster k CSRunning)\<lparr>c_config := cs_ZKEConfig v, c_createTime := cs_CreateTime v, c_scVersion := cs_ScVersion v\<rparr>"
  obtain kc where kc: "env_buildConfig env (env_kubeConfig env fs) = Inr kc" using env unfolding up_ok_def by blast
  obtain cl where cl: "env_clientNew env kc = Inr cl" using env unfolding up_ok_def by blast
  have co: "cache_ok env" using env by (simp add: up_ok_def)
  obtain c' where c': "setCache env kc (?c\<lparr>c_kubeClient := Some cl\<rparr>) = (c', None)" using setCache_ok [OF co] by blast
  have i: "cluster_Init env (env_kubeConfig env fs) ?c = (c', None)" using kc cl c' by (simp add: cluster_Init_def)
  have keep: "c_Name c' = k" "c_config c' = cs_ZKEConfig v" "c_fsm c' = CSRunning"
    using setCache_keeps [OF c'] by (simp_all add: newCluster_def)
  let ?w' = "emit [PublishCreate (ToScCluster (length (w_heap w)) c')] (spawn (CheckLoop (length (w_heap w))) (snd (zke_add c' w)))"
  have "load_entry env (k, v) w = Done ?w'" using True fs i by (simp add: load_entry_def Let_def zke_add_def)
  moreover have "summary ?w' = summary (snd (zke_add c' w))" by (simp add: summary_def)
  ultimately show ?thesis using summary_add [OF lt] keep True lt
    by (auto simp: entry_summary_def zke_add_def Let_def)
next
  case False
  then show ?thesis using summary_add [OF lt] lt
    by (auto simp: load_entry_def entry_summary_def zke_add_def newCluster_def Let_def)
qed

lemma load_entries_summary:
  assumes "up_ok env" "\<forall>a \<in> set (w_clusters w). a < length (w_heap w)"
    and "\<forall>(k, v) \<in> set kvs. cs_Created v \<longrightarrow> cs_FullState v \<noteq> None"
  shows "\<exists>w'. load_entries env kvs w = Done w' \<and> summary w' = summary w @ map entry_summary kvs"
  using assms(2,3)
proof (induction kvs arbitrary: w)
  case (Cons kv kvs)
  obtain k v where kv: "kv = (k, v)" by force
  then obtain w1 where w1: "load_entry env (k, v) w = Done w1" "summary w1 = summary w @ [entry_summary (k, v)]"
    "\<forall>a \<in> set (w_clusters w1). a < length (w_heap w1)"
    using load_entry_summary [OF assms(1) Cons.prems(1), of v k] Cons.prems(2) by auto
  with Cons.IH [OF w1(3)] Cons.prems(2) kv show ?case by auto
qed simp

lemma getClusters_live:
  assumes kv: "kv_live (x_table X) view txview" and db: "db_ok (view d)"
  shows "\<exists>ss. getClustersFromDB (x_table X) (x_pem X) d = Inr (map (\<lambda>(k, s). (k, loaded (x_pem X) s)) ss)
    \<and> set ss = {(k, s). view d k = Some (Json s)}"
proof -
  obtain kvs where k: "kv_read (x_table X) (\<lambda>e. ''begin transaction failed '' @ e)
             (\<lambda>tx. map_err (\<lambda>e. ''list cluster state failed '' @ e) (kvList (x_table X) tx)) d = Inr kvs"
    using kv_live.read_list_live [OF kv] by blast
  note l = kv_laws.read_list [OF kv_live.axioms(1) [OF kv] k]
  have "set kvs \<subseteq> range (\<lambda>(k, s). (k, Json s))"
  proof
    fix e
    assume e: "e \<in> set kvs"
    obtain k js where kjs: "e = (k, js)" by force
    with e l have "view d k = Some js" using map_of_is_SomeI by metis
    with db obtain s where "js = Json s" unfolding db_ok_def by blast
    with kjs show "e \<in> range (\<lambda>(k, s). (k, Json s))" by auto
  qed
  then obtain ss where ss: "kvs = map (\<lambda>(k, s). (k, Json s)) ss" using list_in_range by blast
  have "(k, s) \<in> set ss \<longleftrightarrow> (k, Json s) \<in> set kvs" for k s by (auto simp: ss)
  moreover have "(k, Json s) \<in> set kvs \<longleftrightarrow> view d k = Some (Json s)" for k s
    using l map_of_eq_Some_iff [of kvs k "Json s"] by auto
  ultimately have "set ss = {(k, s). view d k = Some (Json s)}" by auto
  with k ss show ?thesis by (auto simp: getClustersFromDB_def read_states_Json)
qed



section \<open>What goes wrong\<close>

text \<open>
  C10. The recovery of an update from a panic always sends UpdateCompleted. For a cluster whose
  creation was being continued that event is refused, so the goroutine ends and the cluster stays
  Creating with nobody working on it.
\<close>

theorem zke_update_panic_sticks:
  assumes eng: "fsm_laws (x_engine X) cluster_fsm"
    and w: "w_workers w = [RunUpdate a st]" "\<not> cs_Created st" "c_fsm (obj w a) = CSCreating" "a < length (w_heap w)"
    and env: "env_clusterUp env (c_config (obj w a)) (cs_FullState st) = Inl p"
  shows "\<exists>w2. worker_step X env 0 (worker_step X env 0 w) = w2
    \<and> c_fsm (obj w2 a) = CSCreating \<and> w_workers w2 = [] \<and> w_db w2 = w_db w"
proof -
  obtain err where "fsmEvent (x_engine X) cluster_fsm CSCreating UpdateCompletedEvent = Inl err"
    using fsm_laws.event_refused [OF eng cluster_fsm_deterministic, of CSCreating UpdateCompletedEvent] by auto
  with w env show ?thesis
    by (simp add: worker_step_def cluster_Update_def upZKECluster_def cluster_event_def Let_def)
qed

definition creating_world :: "(nat cluster_state json mem_db, nat, nat) zke_world" where
  "creating_world =
     \<lparr>w_heap = [(newCluster ''local'' CSCreating)\<lparr>c_cancel := True\<rparr>], w_clusters = [0],
      w_db = [(''local'', Json (stored False))], w_scVersion = ''v1'',
      w_workers = [RunUpdate 0 (stored False)], w_outs = []\<rparr>"

theorem zke_update_panic_sticks_witness:
  "\<exists>w2. worker_step mem_ctx (good_env\<lparr>env_clusterUp := (\<lambda>cfg st. Inl ''boom'')\<rparr>) 0
      (worker_step mem_ctx (good_env\<lparr>env_clusterUp := (\<lambda>cfg st. Inl ''boom'')\<rparr>) 0 creating_world) = w2
    \<and> c_fsm (obj w2 0) = CSCreating \<and> w_workers w2 = [] \<and> w_db w2 = w_db creating_world"
proof (rule zke_update_panic_sticks [OF mem_ctx_laws(3)])
  show "w_workers creating_world = [RunUpdate 0 (stored False)]" by (simp add: creating_world_def)
qed (simp_all add: creating_world_def stored_def newCluster_def)

text \<open>
  C11. Deleting: when the table refuses the write of the deletion time, the request fails after the
  event was sent. The cluster is then Deleting, no goroutine destroys it, and every later request
  to delete, or cancel it is refused.
\<close>

theorem zke_delete_write_error_sticks:
  assumes eng: "fsm_laws (x_engine X) cluster_fsm"
    and get: "zke_get cid w = Some a" "a < length (w_heap w)" "c_fsm (obj w a) = CSRunning" "c_stopCh (obj w a) = ChanOpen"
    and st: "getClusterFromDB (x_table X) (x_pem X) (c_Name (obj w a)) (w_db w) = Inr st"
    and wr: "createOrUpdateClusterFromDB (x_table X) cid (st\<lparr>cs_DeleteTime := now\<rparr>) (w_db w) = (d, Some e)"
  shows "\<exists>w'. zke_Delete X now cid w = (w', Done (Some (APIError ServerError e)))
    \<and> c_fsm (obj w' a) = CSDeleting \<and> w_workers w' = w_workers w
    \<and> (\<exists>m. zke_Delete X now' cid w' = (w', Done (Some (APIError PermissionDenied m))))
    \<and> (\<exists>m. snd (zke_CancelCluster cid w') = Done (Some (APIError PermissionDenied m)))"
proof -
  have ev: "fsmEvent (x_engine X) cluster_fsm CSRunning DeleteEvent = Inr CSDeleting"
    by (rule fsm_laws.event_ok [OF eng cluster_fsm_deterministic]) simp
  have can: "fsmCan (x_engine X) cluster_fsm CSRunning DeleteEvent" "\<not> fsmCan (x_engine X) cluster_fsm CSDeleting DeleteEvent"
    using fsm_laws.can_iff [OF eng cluster_fsm_deterministic] by simp_all
  define c where "c = (if cs_Created st then (obj w a)\<lparr>c_fsm := CSDeleting, c_stopCh := ChanClosed, c_deleteTime := now\<rparr>
    else (obj w a)\<lparr>c_fsm := CSDeleting, c_deleteTime := now\<rparr>)"
  obtain w' where w': "zke_Delete X now cid w = (w', Done (Some (APIError ServerError e)))"
    "w_heap w' = (w_heap w)[a := c]" "w_clusters w' = w_clusters w" "w_workers w' = w_workers w"
    using get st wr ev can(1)
    by (cases "cs_Created st")
      (simp_all add: zke_Delete_def cluster_Can_def cluster_Event_def zke_put_state_def c_def Let_def)
  have c: "c_Name c = c_Name (obj w a)" "c_fsm c = CSDeleting" by (simp_all add: c_def)
  have "c_Name ((w_heap w)[a := c] ! b) = c_Name (obj w b)" for b
    using get(2) c(1) by (cases "b = a") simp_all
  then have g: "zke_get cid w' = Some a" using get(1) by (simp add: zke_get_def w'(2,3))
  have o: "obj w' a = c" using get(2) by (simp add: w'(2))
  have "\<exists>m. zke_Delete X now' cid w' = (w', Done (Some (APIError PermissionDenied m)))"
    using g o c(2) can(2) by (simp add: zke_Delete_def cluster_Can_def)
  moreover have "\<exists>m. snd (zke_CancelCluster cid w') = Done (Some (APIError PermissionDenied m))"
    using g o c(2) by (simp add: zke_CancelCluster_def cluster_Cancel_def)
  ultimately show ?thesis using w' o c(2) by auto
qed

definition full_ctx ::
  "(nat cluster_state json mem_db, nat cluster_state json mem_db \<times> nat cluster_state json mem_db, nat) zke_ctx" where
  "full_ctx = mem_ctx\<lparr>x_table := mem_table\<lparr>kvCommit := (\<lambda>tx. Inl ''disk full'')\<rparr>\<rparr>"

definition running_world :: "(nat cluster_state json mem_db, nat, nat) zke_world" where
  "running_world =
     \<lparr>w_heap = [(newCluster ''local'' CSRunning)\<lparr>c_stopCh := ChanOpen\<rparr>], w_clusters = [0],
      w_db = [(''local'', Json (stored True))], w_scVersion = ''v1'', w_workers = [CheckLoop 0], w_outs = []\<rparr>"

theorem zke_delete_write_error_sticks_witness:
  "\<exists>w' e. zke_Delete full_ctx 9 ''local'' running_world = (w', Done (Some (APIError ServerError e)))
    \<and> c_fsm (obj w' 0) = CSDeleting \<and> w_workers w' = [CheckLoop 0]
    \<and> (\<exists>m. zke_Delete full_ctx 10 ''local'' w' = (w', Done (Some (APIError PermissionDenied m))))
    \<and> (\<exists>m. snd (zke_CancelCluster ''local'' w') = Done (Some (APIError PermissionDenied m)))"
proof -
  have X: "fsm_laws (x_engine full_ctx) cluster_fsm"
    using table_fsm.fsm_laws_axioms by (simp add: full_ctx_def)
  have g: "zke_get ''local'' running_world = Some 0" "0 < length (w_heap running_world)"
    "c_fsm (obj running_world 0) = CSRunning" "c_stopCh (obj running_world 0) = ChanOpen"
    by (simp_all add: zke_get_def running_world_def newCluster_def)
  have st: "getClusterFromDB (x_table full_ctx) (x_pem full_ctx) (c_Name (obj running_world 0)) (w_db running_world)
      = Inr (loaded id (stored True))"
    by (simp add: getClusterFromDB_def kv_read_def full_ctx_def running_world_def newCluster_def)
  have wr: "createOrUpdateClusterFromDB (x_table full_ctx) ''local'' ((loaded id (stored True))\<lparr>cs_DeleteTime := 9\<rparr>)
      (w_db running_world) = (w_db running_world, Some ''commit cluster local  state failed disk full'')"
    by (simp add: createOrUpdateClusterFromDB_def kv_write_def full_ctx_def running_world_def)
  from zke_delete_write_error_sticks [OF X g st wr, of 10] show ?thesis
    by (auto simp: running_world_def)
qed

section \<open>Configurations\<close>



end
