(* ===== verification/SeqLog.thy ===== *)
theory SeqLog
  imports Prelude "HOL-Library.Sublist"
begin

text \<open>
  Bounded logs with numbered entries, read by listeners in batches. The program has two of them,
  written alike: the log of a cluster's creation (\<^verbatim>\<open>pkg/zke/zkelog/log_manager.go\<close>) and the
  stream of a cluster's Kubernetes events (\<^verbatim>\<open>pkg/k8seventwatcher/eventwatcher.go\<close>). This
  theory holds the list searches they share, the loop of a listener, and the interface
  \<open>seq_log\<close>: a log refines the list of everything ever added, of which it keeps the newest
  \<open>cap\<close>. What a listener receives is proved once, inside the interface.
\<close>

section \<open>Searching the list\<close>

text \<open>
  A read is \<open>None\<close> when the search would run off the list (a nil dereference). The result of a
  successful read is the number of the last entry delivered and the contents.
\<close>

type_synonym 'a entries = "(uint64 \<times> 'a) list"

definition seq_fromElem :: "'a entries \<Rightarrow> nat \<Rightarrow> (uint64 \<times> 'a list) option" where
  "seq_fromElem elems batch =
     (case elems of
        [] \<Rightarrow> None
      | (startID, _) # _ \<Rightarrow>
          let xs = map snd (take batch elems)
          in Some (startID + word_of_int (int (length xs) - 1), xs))"

definition seq_fromOutdated :: "'a entries \<Rightarrow> uint64 \<Rightarrow> nat \<Rightarrow> (uint64 \<times> 'a list) option" where
  "seq_fromOutdated es cid batch = seq_fromElem (dropWhile (\<lambda>e. fst e \<le> cid) es) batch"

definition seq_fromLatest :: "'a entries \<Rightarrow> uint64 \<Rightarrow> nat \<Rightarrow> (uint64 \<times> 'a list) option" where
  "seq_fromLatest es cid batch =
     (if list_all (\<lambda>e. fst e > cid) es then None
      else seq_fromElem (rev (takeWhile (\<lambda>e. fst e > cid) (rev es))) batch)"

definition seq_afterID :: "'a entries \<Rightarrow> uint64 \<Rightarrow> nat \<Rightarrow> (uint64 \<times> 'a list) option" where
  "seq_afterID es cid batch =
     (case es of
        [] \<Rightarrow> Some (0, [])
      | (begID, _) # _ \<Rightarrow>
          if cid < begID then seq_fromOutdated es cid batch
          else
            let endID = fst (last es)
            in if cid = endID then Some (0, [])
               else if cid - begID < endID - cid then seq_fromOutdated es cid batch
               else seq_fromLatest es cid batch)"

section \<open>A listener\<close>

text \<open>
  One round of a publishing loop: read after the last number; if something came, remember the
  number and hand the contents over.
\<close>

definition poll ::
  "(uint64 \<Rightarrow> nat \<Rightarrow> 's \<Rightarrow> (uint64 \<times> 'a list) option) \<Rightarrow> nat \<Rightarrow> 's \<Rightarrow> uint64 \<times> 'a list \<Rightarrow> (uint64 \<times> 'a list) option" where
  "poll after batch s l =
     (case after (fst l) batch s of
        None \<Rightarrow> None
      | Some (lastID, xs) \<Rightarrow> if length xs = 0 then Some l else Some (lastID, snd l @ xs))"

datatype 'a log_op = LAdd 'a | LPoll

text \<open>Any interleaving of additions and rounds of one listener.\<close>

fun log_run ::
  "('a \<Rightarrow> 's \<Rightarrow> 's) \<Rightarrow> (uint64 \<Rightarrow> nat \<Rightarrow> 's \<Rightarrow> (uint64 \<times> 'a list) option) \<Rightarrow> nat \<Rightarrow>
   'a log_op list \<Rightarrow> 's \<times> uint64 \<times> 'a list \<Rightarrow> ('s \<times> uint64 \<times> 'a list) option" where
  "log_run add after batch [] s = Some s"
| "log_run add after batch (LAdd x # ops) (s, l) = log_run add after batch ops (add x s, l)"
| "log_run add after batch (LPoll # ops) (s, l) =
     (case poll after batch s l of None \<Rightarrow> None | Some l' \<Rightarrow> log_run add after batch ops (s, l'))"

definition added :: "'a log_op list \<Rightarrow> 'a list" where
  "added ops = List.map_filter (\<lambda>op. case op of LAdd x \<Rightarrow> Some x | LPoll \<Rightarrow> None) ops"

lemma added_simps [simp]: "added [] = []" "added (LAdd x # ops) = x # added ops" "added (LPoll # ops) = added ops"
  by (simp_all add: added_def List.map_filter_def)

section \<open>The interface\<close>

text \<open>
  \<open>rel h s\<close>: the log \<open>s\<close> holds the end of the history \<open>h\<close>; \<open>pos p cid\<close>: a listener whose last
  number is \<open>cid\<close> has seen the first \<open>p\<close> entries of the history. \<open>bound\<close> is the number of
  entries after which the 64-bit counter would wrap.
\<close>

locale seq_log =
  fixes add :: "'a \<Rightarrow> 's \<Rightarrow> 's"
    and after :: "uint64 \<Rightarrow> nat \<Rightarrow> 's \<Rightarrow> (uint64 \<times> 'a list) option"
    and rel :: "'a list \<Rightarrow> 's \<Rightarrow> bool"
    and pos :: "nat \<Rightarrow> uint64 \<Rightarrow> bool"
    and cap :: nat
    and bound :: nat
  assumes cap: "0 < cap"
    and add_rel: "rel h s \<Longrightarrow> length h < bound \<Longrightarrow> rel (h @ [x]) (add x s)"
    and after_none: "rel h s \<Longrightarrow> pos (length h) cid \<Longrightarrow> \<exists>n. after cid batch s = Some (n, [])"
    and after_some: "rel h s \<Longrightarrow> pos p cid \<Longrightarrow> p < length h \<Longrightarrow> 0 < batch \<Longrightarrow> length h \<le> bound \<Longrightarrow>
      \<exists>n xs. after cid batch s = Some (n, xs) \<and> xs = take batch (drop (max p (length h - cap)) h)
        \<and> pos (max p (length h - cap) + length xs) n"
begin

text \<open>A round never fails, hands over entries in order, and all of them if none was evicted.\<close>

lemma poll_step:
  assumes "rel h s" "pos p cid" "p \<le> length h" "0 < batch" "length h \<le> bound"
  obtains q n xs where "poll after batch s (cid, out) = Some (n, out @ xs)"
    "p \<le> q" "q + length xs \<le> length h" "pos (q + length xs) n" "xs = take (length xs) (drop q h)"
    "length h - p \<le> cap \<Longrightarrow> q = p" "p < length h \<Longrightarrow> xs \<noteq> []"
proof (cases "p = length h")
  case True
  with after_none [OF assms(1)] assms(2) obtain n where "after cid batch s = Some (n, [])" by blast
  then have "poll after batch s (cid, out) = Some (cid, out @ [])" by (simp add: poll_def)
  with True assms(2) show ?thesis by (intro that [of cid "[]" p]) simp_all
next
  case False
  define q where "q = max p (length h - cap)"
  have lt: "p < length h" using False assms(3) by simp
  obtain n xs where a: "after cid batch s = Some (n, xs)" "xs = take batch (drop q h)" "pos (q + length xs) n"
    using after_some [OF assms(1,2) lt assms(4,5)] unfolding q_def by blast
  have q: "q < length h" "p \<le> q" "length h - p \<le> cap \<Longrightarrow> q = p" using lt cap by (auto simp: q_def)
  then have ne: "xs \<noteq> []" using a(2) assms(4) by simp
  have l: "q + length xs \<le> length h" using q by (simp add: a(2))
  have t: "xs = take (length xs) (drop q h)" by (simp add: a(2) min_def)
  have "poll after batch s (cid, out) = Some (n, out @ xs)" using a(1) ne by (simp add: poll_def)
  with q l t a(3) ne show ?thesis by (intro that [of n xs q]) simp_all
qed

text \<open>
  What a listener has received after any interleaving is a subsequence of the history: nothing is
  duplicated, reordered or invented.
\<close>

lemma run_subseq:
  assumes "rel h s" "pos p cid" "p \<le> length h" "subseq out (take p h)" "0 < batch"
    and "length h + length (added ops) \<le> bound"
  shows "\<exists>s' n out'. log_run add after batch ops (s, cid, out) = Some (s', n, out')
    \<and> rel (h @ added ops) s' \<and> subseq out' (h @ added ops)"
  using assms
proof (induction ops arbitrary: h s p cid out)
  case Nil
  have "subseq out h" using Nil.prems(4) subseq_order.trans [OF _ prefix_imp_subseq [OF take_is_prefix]] by blast
  with Nil show ?case by simp
next
  case (Cons op ops)
  show ?case
  proof (cases op)
    case (LAdd x)
    have "rel (h @ [x]) (add x s)" using Cons.prems add_rel LAdd by simp
    with Cons.IH [of "h @ [x]" "add x s" p cid out] Cons.prems LAdd show ?thesis by simp
  next
    case LPoll
    have b: "length h \<le> bound" using Cons.prems(6) by simp
    obtain q n xs where st: "poll after batch s (cid, out) = Some (n, out @ xs)"
      "p \<le> q" "q + length xs \<le> length h" "pos (q + length xs) n" "xs = take (length xs) (drop q h)"
      using poll_step [OF Cons.prems(1-3,5) b] by metis
    have "take (q + length xs) h = take q h @ xs" using st(5) by (metis take_add)
    moreover have "take q h = take p h @ drop p (take q h)"
      using st(2) append_take_drop_id [of p "take q h"] by (simp add: min_def)
    ultimately have split: "take (q + length xs) h = take p h @ drop p (take q h) @ xs" by simp
    have "subseq (out @ xs) (take (q + length xs) h)"
      unfolding split using Cons.prems(4) by (intro list_emb_append_mono) (auto intro: subseq_drop_many)
    from Cons.IH [OF Cons.prems(1) st(4,3) this Cons.prems(5)] Cons.prems(6) st(1) LPoll show ?thesis by simp
  qed
qed

text \<open>A listener that polls before it falls \<open>cap\<close> entries behind receives everything, in order.\<close>

lemma run_prefix:
  assumes "rel h s" "pos p cid" "p \<le> length h" "out = take p h" "0 < batch"
    and "length h + length (added ops) \<le> bound" "length h + length (added ops) - p \<le> cap"
  shows "\<exists>s' n out'. log_run add after batch ops (s, cid, out) = Some (s', n, out') \<and> prefix out' (h @ added ops)"
  using assms
proof (induction ops arbitrary: h s p cid out)
  case Nil
  then show ?case by (simp add: take_is_prefix)
next
  case (Cons op ops)
  show ?case
  proof (cases op)
    case (LAdd x)
    have "rel (h @ [x]) (add x s)" using Cons.prems add_rel LAdd by simp
    with Cons.IH [of "h @ [x]" "add x s" p cid out] Cons.prems LAdd show ?thesis by simp
  next
    case LPoll
    have b: "length h \<le> bound" "length h - p \<le> cap" using Cons.prems(6,7) by auto
    obtain q n xs where st: "poll after batch s (cid, out) = Some (n, out @ xs)"
      "p \<le> q" "q + length xs \<le> length h" "pos (q + length xs) n" "xs = take (length xs) (drop q h)" "q = p"
      using poll_step [OF Cons.prems(1-3,5) b(1)] b(2) by metis
    have "out @ xs = take (q + length xs) h" using st(5,6) Cons.prems(4) by (metis take_add)
    moreover have "length h + length (added ops) - (q + length xs) \<le> cap" using Cons.prems(7) st(2) LPoll by simp
    ultimately show ?thesis
      using Cons.IH [OF Cons.prems(1) st(4,3) _ Cons.prems(5)] Cons.prems(6) st(1) LPoll by simp
  qed
qed

end

section \<open>A list of consecutively numbered entries\<close>

text \<open>
  \<open>seq_rel base cap h c es\<close>: the counter \<open>c\<close> is at the number of the last entry, and \<open>es\<close> holds
  the newest \<open>cap\<close> entries of the history, numbered consecutively from \<open>base + 1\<close>.
\<close>

definition seq_rel :: "nat \<Rightarrow> nat \<Rightarrow> 'a list \<Rightarrow> uint64 \<Rightarrow> 'a entries \<Rightarrow> bool" where
  "seq_rel base cap h c es \<longleftrightarrow>
     c = word_of_nat (base + length h) \<and> base + length h < 2 ^ 64
     \<and> es = map (\<lambda>k. (word_of_nat (base + k + 1), h ! k)) [length h - cap ..< length h]"

definition seq_pos :: "nat \<Rightarrow> nat \<Rightarrow> uint64 \<Rightarrow> bool" where
  "seq_pos base p cid \<longleftrightarrow> (cid = word_of_nat (base + p) \<and> base + p < 2 ^ 64) \<or> (p = 0 \<and> cid = 0)"

definition seq_push :: "nat \<Rightarrow> uint64 \<Rightarrow> 'a \<Rightarrow> 'a entries \<Rightarrow> 'a entries" where
  "seq_push cap n x es = (let es' = es @ [(n, x)] in if length es' > cap then tl es' else es')"

lemma word_nat_le: "a < 2 ^ 64 \<Longrightarrow> b < 2 ^ 64 \<Longrightarrow> (word_of_nat a :: uint64) \<le> word_of_nat b \<longleftrightarrow> a \<le> b"
  by (simp add: word_le_nat_alt unat_of_nat take_bit_nat_eq_self)

lemma word_nat_eq: "a < 2 ^ 64 \<Longrightarrow> b < 2 ^ 64 \<Longrightarrow> (word_of_nat a :: uint64) = word_of_nat b \<longleftrightarrow> a = b"
  using word_nat_le [of a b] word_nat_le [of b a] by auto

lemma seq_push_rel:
  assumes r: "seq_rel base cap h c es" and b: "base + length h + 1 < 2 ^ 64" and cap: "0 < cap"
  shows "seq_rel base cap (h @ [x]) (c + 1) (seq_push cap (c + 1) x es)"
proof -
  let ?e = "\<lambda>g k. (word_of_nat (base + k + 1) :: uint64, g ! k)"
  have c1: "c + 1 = word_of_nat (base + length h + 1)" using r by (simp add: seq_rel_def)
  have es: "es = map (?e (h @ [x])) [length h - cap ..< length h]"
    using r by (auto simp: seq_rel_def nth_append)
  have "es @ [(c + 1, x)] = map (?e (h @ [x])) [length h - cap ..< Suc (length h)]"
    by (simp add: es c1 nth_append)
  then have "seq_push cap (c + 1) x es = map (?e (h @ [x])) [Suc (length h) - cap ..< Suc (length h)]"
    using cap by (auto simp: seq_push_def Let_def tl_upt Suc_diff_le simp del: upt_Suc simp flip: map_tl)
  with c1 b show ?thesis by (simp add: seq_rel_def)
qed

lemma seq_pos_le:
  assumes "seq_pos base p cid" "base + k + 1 < 2 ^ 64"
  shows "(word_of_nat (base + k + 1) :: uint64) \<le> cid \<longleftrightarrow> k < p"
  using assms word_nat_le [of "base + k + 1" "base + p"] word_nat_le [of "base + k + 1" 0]
  by (auto simp: seq_pos_def)

lemma dropWhile_upt: "m \<le> n \<Longrightarrow> dropWhile (\<lambda>k. k < p) [m ..< n] = [max m p ..< n]"
proof (induction n)
  case (Suc n)
  then show ?case by (cases "m \<le> n") (auto simp: dropWhile_append max_def not_less le_Suc_eq)
qed simp

lemma takeWhile_rev_upt: "rev (takeWhile (\<lambda>k. \<not> k < p) (rev [m ..< n])) = [max m p ..< n]"
proof (induction n)
  case (Suc n)
  then show ?case by (auto simp: max_def)
qed simp

lemma seq_fromElem_upt:
  assumes "q < n" "0 < batch" "base + n < 2 ^ 64" "length h = n"
  shows "\<exists>m xs. seq_fromElem (map (\<lambda>k. (word_of_nat (base + k + 1), h ! k)) [q ..< n]) batch = Some (m, xs)
    \<and> xs = take batch (drop q h) \<and> seq_pos base (q + length xs) m"
proof -
  define xs where "xs = take batch (drop q h)"
  have "map ((!) h) [q ..< n] = drop q h" using assms(1,4) by (intro nth_equalityI) auto
  then have t: "map snd (take batch (map (\<lambda>k. (word_of_nat (base + k + 1) :: uint64, h ! k)) [q ..< n])) = xs"
    by (simp add: xs_def comp_def flip: take_map)
  have l: "1 \<le> length xs" "q + length xs \<le> n" using assms by (auto simp: xs_def)
  have "(word_of_nat (base + q + 1) :: uint64) + word_of_int (int (length xs) - 1) = word_of_nat (base + (q + length xs))"
    using l(1) by (simp add: algebra_simps)
  with l assms t show ?thesis
    by (simp add: seq_fromElem_def upt_conv_Cons [of q n] Let_def seq_pos_def xs_def [symmetric])
qed

lemma last_map_upt: "m < n \<Longrightarrow> last (map f [m ..< n]) = f (n - 1)"
  by (simp add: last_map)

lemma seq_after_none:
  assumes r: "seq_rel base cap h c es" and p: "seq_pos base (length h) cid" and cap: "0 < cap"
  shows "seq_afterID es cid batch = Some (0, [])"
proof (cases "h = []")
  case True
  with r show ?thesis by (simp add: seq_rel_def seq_afterID_def)
next
  case False
  let ?n = "length h"
  have n: "0 < ?n" using False by simp
  have lt: "?n - cap < ?n" using n cap by simp
  have b: "base + ?n < 2 ^ 64" using r by (simp add: seq_rel_def)
  have cid: "cid = word_of_nat (base + ?n)" using p n by (auto simp: seq_pos_def)
  have es: "es = (word_of_nat (base + (?n - cap) + 1), h ! (?n - cap)) #
      map (\<lambda>k. (word_of_nat (base + k + 1), h ! k)) [Suc (?n - cap) ..< ?n]"
    using r lt by (simp add: seq_rel_def upt_conv_Cons)
  have "es = map (\<lambda>k. (word_of_nat (base + k + 1), h ! k)) [?n - cap ..< ?n]" using r by (simp add: seq_rel_def)
  then have "fst (last es) = word_of_nat (base + (?n - 1) + 1)" using last_map_upt [OF lt, of "\<lambda>k. (word_of_nat (base + k + 1) :: uint64, h ! k)"] by (simp only: fst_conv)
  moreover have "base + (?n - 1) + 1 = base + ?n" using n by simp
  ultimately have "fst (last es) = word_of_nat (base + ?n)" by (simp only:)
  moreover have "\<not> cid < word_of_nat (base + (?n - cap) + 1)"
    using seq_pos_le [OF p, of "?n - cap"] b lt by (simp add: not_less)
  ultimately show ?thesis using cid by (simp add: seq_afterID_def es split: prod.splits)
qed

lemma seq_after_some:
  assumes r: "seq_rel base cap h c es" and p: "seq_pos base p cid" "p < length h"
    and cap: "0 < cap" and batch: "0 < batch"
  shows "\<exists>n xs. seq_afterID es cid batch = Some (n, xs) \<and> xs = take batch (drop (max p (length h - cap)) h)
    \<and> seq_pos base (max p (length h - cap) + length xs) n"
proof -
  let ?n = "length h" let ?m = "length h - cap" let ?e = "\<lambda>k. (word_of_nat (base + k + 1) :: uint64, h ! k)"
  have b: "base + ?n < 2 ^ 64" using r by (simp add: seq_rel_def)
  have m: "?m < ?n" using p(2) cap by simp
  have es: "es = map ?e [?m ..< ?n]" using r by (simp add: seq_rel_def)
  have le: "fst (?e k) \<le> cid \<longleftrightarrow> k < p" if "k < ?n" for k using seq_pos_le [OF p(1), of k] b that by simp
  have drop: "dropWhile (\<lambda>e. fst e \<le> cid) es = map ?e [max ?m p ..< ?n]"
    unfolding es dropWhile_map using m le
    by (subst dropWhile_cong [OF refl, of _ _ "\<lambda>k. k < p"]) (auto simp: dropWhile_upt)
  have latest: "rev (takeWhile (\<lambda>e. fst e > cid) (rev es)) = map ?e [max ?m p ..< ?n]"
  proof -
    have "takeWhile (\<lambda>e. fst e > cid) (rev es) = map ?e (takeWhile (\<lambda>k. \<not> k < p) (rev [?m ..< ?n]))"
      unfolding es rev_map takeWhile_map using le
      by (intro arg_cong [of _ _ "map ?e"] takeWhile_cong) (auto simp: not_le [symmetric])
    then show ?thesis using takeWhile_rev_upt [of p ?m ?n] by (simp add: rev_map)
  qed
  have q: "max ?m p < ?n" using m p(2) by simp
  note elem = seq_fromElem_upt [OF q batch b refl]
  have old: "seq_fromOutdated es cid batch = seq_fromElem (map ?e [max ?m p ..< ?n]) batch"
    by (simp add: seq_fromOutdated_def drop)
  have new: "seq_fromLatest es cid batch = seq_fromElem (map ?e [max ?m p ..< ?n]) batch" if "\<not> cid < fst (?e ?m)"
  proof -
    have "?e ?m \<in> set es" using m by (simp add: es)
    with that have "\<not> list_all (\<lambda>e. fst e > cid) es" by (force simp: list_all_iff)
    then show ?thesis by (simp add: seq_fromLatest_def latest)
  qed
  have "fst (last es) = fst (?e (?n - 1))" using last_map_upt [OF m, of ?e] by (simp only: es)
  moreover have "\<not> fst (?e (?n - 1)) \<le> cid" using le [of "?n - 1"] p(2) by simp
  ultimately have ne: "cid \<noteq> fst (last es)" by auto
  have "es = ?e ?m # map ?e [Suc ?m ..< ?n]" using m by (simp add: es upt_conv_Cons)
  then have "seq_afterID es cid batch = seq_fromElem (map ?e [max ?m p ..< ?n]) batch"
    using old new ne by (auto simp: seq_afterID_def Let_def)
  with elem show ?thesis by (simp add: max.commute)
qed

end
