(* ===== verification/ZkeLog.thy ===== *)
theory ZkeLog
  imports SeqLog
begin

text \<open>
  The log of a cluster's creation or update (\<^verbatim>\<open>pkg/zke/zkelog/log_manager.go\<close>,
  \<^verbatim>\<open>service.go\<close>): the manager's map of watchers, a watcher's bounded list, and the loop that
  publishes it to a listener, once as rounds (\<open>publishLog\<close>) and once as a step relation that
  shows the points between reading the list and waiting on the condition variable.
\<close>

section \<open>A watcher\<close>

abbreviation MaxLogSize :: nat where "MaxLogSize \<equiv> 100"

record log_watcher =
  lw_logID :: uint64
  lw_logList :: "string entries"

definition newLogWatcher :: log_watcher where
  "newLogWatcher = \<lparr>lw_logID = 0, lw_logList = []\<rparr>"

definition lw_add :: "string \<Rightarrow> log_watcher \<Rightarrow> log_watcher" where
  "lw_add s lw =
     (let n = lw_logID lw + 1
      in lw\<lparr>lw_logID := n, lw_logList := seq_push MaxLogSize n s (lw_logList lw)\<rparr>)"

definition getLogsAfterID :: "uint64 \<Rightarrow> nat \<Rightarrow> log_watcher \<Rightarrow> (uint64 \<times> string list) option" where
  "getLogsAfterID cid batch lw = seq_afterID (lw_logList lw) cid batch"

definition publishLog :: "log_watcher \<Rightarrow> uint64 \<times> string list \<Rightarrow> (uint64 \<times> string list) option" where
  "publishLog lw l = poll getLogsAfterID (MaxLogSize div 4) lw l"

section \<open>The manager\<close>

type_synonym log_manager = "string \<rightharpoonup> log_watcher"

definition logs_AddOrUpdate :: "string \<Rightarrow> log_manager \<Rightarrow> log_manager" where
  "logs_AddOrUpdate name lm = lm(name \<mapsto> newLogWatcher)"

definition logs_Delete :: "string \<Rightarrow> log_manager \<Rightarrow> log_manager \<times> goerr option" where
  "logs_Delete name lm =
     (if lm name = None then (lm, Some (''delete no exist cluster '' @ name @ '' logger''))
      else (lm(name := None), None))"

definition logs_get :: "string \<Rightarrow> log_manager \<Rightarrow> log_watcher option" where
  "logs_get name lm = lm name"

text \<open>A line arriving on the channel of the named cluster.\<close>

definition logs_line :: "string \<Rightarrow> string \<Rightarrow> log_manager \<Rightarrow> log_manager" where
  "logs_line name s lm = (case lm name of None \<Rightarrow> lm | Some lw \<Rightarrow> lm(name \<mapsto> lw_add s lw))"

section \<open>The watcher as a numbered log\<close>

definition lw_rel :: "string list \<Rightarrow> log_watcher \<Rightarrow> bool" where
  "lw_rel h lw \<longleftrightarrow> seq_rel 0 MaxLogSize h (lw_logID lw) (lw_logList lw)"

interpretation zlog: seq_log lw_add getLogsAfterID lw_rel "seq_pos 0" MaxLogSize "2 ^ 64 - 1"
proof unfold_locales
  fix h :: "string list" and s x
  assume r: "lw_rel h s" and b: "length h < 2 ^ 64 - 1"
  then have "0 + length h + 1 < 2 ^ 64" by simp
  with r show "lw_rel (h @ [x]) (lw_add x s)"
    by (simp add: lw_rel_def lw_add_def Let_def seq_push_rel)
next
  fix h :: "string list" and s cid and batch :: nat
  assume "lw_rel h s" "seq_pos 0 (length h) cid"
  then show "\<exists>n. getLogsAfterID cid batch s = Some (n, [])"
    by (simp add: lw_rel_def getLogsAfterID_def seq_after_none)
next
  fix h :: "string list" and s p cid and batch :: nat
  assume "lw_rel h s" "seq_pos 0 p cid" "p < length h" "0 < batch"
  then show "\<exists>n xs. getLogsAfterID cid batch s = Some (n, xs) \<and> xs = take batch (drop (max p (length h - MaxLogSize)) h)
      \<and> seq_pos 0 (max p (length h - MaxLogSize) + length xs) n"
    using seq_after_some [of 0 MaxLogSize h "lw_logID s" "lw_logList s" p cid batch]
    by (simp add: lw_rel_def getLogsAfterID_def)
qed simp

lemma lw_rel_new: "lw_rel [] newLogWatcher"
  by (simp add: lw_rel_def newLogWatcher_def seq_rel_def)

lemma seq_pos_start: "seq_pos base 0 0"
  by (simp add: seq_pos_def)

section \<open>The loop with its waiting point\<close>

text \<open>
  Between a read that finds nothing and the wait, the loop does not hold the lock. \<open>Reading\<close>:
  about to read; \<open>Checked\<close>: found nothing, about to wait; \<open>Sleeping\<close>: in \<^verbatim>\<open>cond.Wait\<close>, which
  only a broadcast ends. An addition broadcasts.
\<close>

datatype pub_phase = Reading | Checked | Sleeping

record log_listener =
  ll_lastID :: uint64
  ll_phase :: pub_phase
  ll_out :: "string list"

inductive pub_step :: "log_watcher \<times> log_listener \<Rightarrow> log_watcher \<times> log_listener \<Rightarrow> bool" where
  read_none: "ll_phase l = Reading \<Longrightarrow> getLogsAfterID (ll_lastID l) (MaxLogSize div 4) lw = Some (n, []) \<Longrightarrow>
     pub_step (lw, l) (lw, l\<lparr>ll_phase := Checked\<rparr>)"
| read_some: "ll_phase l = Reading \<Longrightarrow> getLogsAfterID (ll_lastID l) (MaxLogSize div 4) lw = Some (n, xs) \<Longrightarrow> xs \<noteq> [] \<Longrightarrow>
     pub_step (lw, l) (lw, l\<lparr>ll_lastID := n, ll_out := ll_out l @ xs\<rparr>)"
| wait: "ll_phase l = Checked \<Longrightarrow> pub_step (lw, l) (lw, l\<lparr>ll_phase := Sleeping\<rparr>)"
| arrive: "pub_step (lw, l) (lw_add s lw, l\<lparr>ll_phase := (if ll_phase l = Sleeping then Reading else ll_phase l)\<rparr>)"

inductive_cases pub_stepE: "pub_step (lw, l) (lw', l')"

definition addListener :: log_listener where
  "addListener = \<lparr>ll_lastID = 0, ll_phase = Reading, ll_out = []\<rparr>"

lemma pub_step_star_trans:
  "pub_step\<^sup>*\<^sup>* a b \<Longrightarrow> pub_step b c \<Longrightarrow> pub_step\<^sup>*\<^sup>* a c"
  by (rule rtranclp.rtrancl_into_rtrancl)

section \<open>Properties\<close>

text \<open>
  Whatever the interleaving of new lines with the rounds of a listener, no round fails (no read
  runs off the list), the watcher keeps the last 100 lines, and the listener has received a
  subsequence of the lines: nothing twice, nothing out of order.
\<close>

theorem zkelog_delivers_in_order:
  assumes "length (added ops) < 2 ^ 64"
  shows "\<exists>lw n out. log_run lw_add getLogsAfterID (MaxLogSize div 4) ops (newLogWatcher, 0, []) = Some (lw, n, out)
    \<and> map snd (lw_logList lw) = drop (length (added ops) - MaxLogSize) (added ops) \<and> subseq out (added ops)"
proof -
  obtain lw n out where r: "log_run lw_add getLogsAfterID (MaxLogSize div 4) ops (newLogWatcher, 0, []) = Some (lw, n, out)"
    "lw_rel (added ops) lw" "subseq out (added ops)"
    using zlog.run_subseq [OF lw_rel_new seq_pos_start, of "[]" "MaxLogSize div 4" ops] assms by auto
  let ?h = "added ops"
  have "map snd (lw_logList lw) = map ((!) ?h) [length ?h - MaxLogSize ..< length ?h]"
    using r(2) by (simp add: lw_rel_def seq_rel_def comp_def)
  also have "\<dots> = drop (length ?h - MaxLogSize) ?h" by (intro nth_equalityI) auto
  finally show ?thesis using r by blast
qed

theorem zkelog_delivers_in_order_witness:
  "\<exists>lw n out. log_run lw_add getLogsAfterID (MaxLogSize div 4) [LAdd ''a'', LPoll, LAdd ''b'', LPoll] (newLogWatcher, 0, [])
      = Some (lw, n, out)
    \<and> map snd (lw_logList lw) = [''a'', ''b''] \<and> subseq out [''a'', ''b'']"
  using zkelog_delivers_in_order [of "[LAdd ''a'', LPoll, LAdd ''b'', LPoll]"] by simp

text \<open>
  A listener that never falls more than 100 lines behind receives every line up to where it is:
  its output is a prefix of what was logged.
\<close>

theorem zkelog_delivers_all:
  assumes "length (added ops) \<le> MaxLogSize"
  shows "\<exists>lw n out. log_run lw_add getLogsAfterID (MaxLogSize div 4) ops (newLogWatcher, 0, []) = Some (lw, n, out)
    \<and> prefix out (added ops)"
  using zlog.run_prefix [OF lw_rel_new seq_pos_start, of "[]" "MaxLogSize div 4" ops] assms by simp

theorem zkelog_delivers_all_witness:
  "\<exists>lw n out. log_run lw_add getLogsAfterID (MaxLogSize div 4) [LAdd ''a'', LAdd ''b'', LPoll] (newLogWatcher, 0, [])
      = Some (lw, n, out)
    \<and> prefix out [''a'', ''b'']"
  using zkelog_delivers_all [of "[LAdd ''a'', LAdd ''b'', LPoll]"] by simp

text \<open>
  A wake-up can be lost: a line that arrives between the listener's read and its wait leaves
  the listener asleep with an undelivered line, and nothing but another line can wake it.
\<close>

theorem zkelog_lost_wakeup:
  "\<exists>lw l. pub_step\<^sup>*\<^sup>* (newLogWatcher, addListener) (lw, l)
     \<and> ll_phase l = Sleeping \<and> ll_out l = []
     \<and> getLogsAfterID (ll_lastID l) (MaxLogSize div 4) lw = Some (1, [''line''])
     \<and> {x. pub_step (lw, l) x} = {(lw_add s lw, l\<lparr>ll_phase := Reading\<rparr>) | s. True}"
proof -
  define lw l where "lw = lw_add ''line'' newLogWatcher" "l = addListener\<lparr>ll_phase := Sleeping\<rparr>"
  have "getLogsAfterID 0 (MaxLogSize div 4) newLogWatcher = Some (0, [])"
    by (simp add: getLogsAfterID_def seq_afterID_def newLogWatcher_def)
  then have "pub_step (newLogWatcher, addListener) (newLogWatcher, addListener\<lparr>ll_phase := Checked\<rparr>)"
    by (intro read_none) (simp_all add: addListener_def)
  moreover have "pub_step (newLogWatcher, addListener\<lparr>ll_phase := Checked\<rparr>) (lw, addListener\<lparr>ll_phase := Checked\<rparr>)"
    using arrive [of newLogWatcher "addListener\<lparr>ll_phase := Checked\<rparr>" "''line''"] by (simp add: lw_l_def)
  moreover have "pub_step (lw, addListener\<lparr>ll_phase := Checked\<rparr>) (lw, l)"
    using wait [of "addListener\<lparr>ll_phase := Checked\<rparr>" lw] by (simp add: lw_l_def)
  ultimately have "pub_step\<^sup>*\<^sup>* (newLogWatcher, addListener) (lw, l)"
    by (meson pub_step_star_trans rtranclp.rtrancl_refl)
  moreover have ph: "ll_phase l = Sleeping" by (simp add: lw_l_def)
  moreover have "getLogsAfterID (ll_lastID l) (MaxLogSize div 4) lw = Some (1, [''line''])"
    by (simp add: lw_l_def addListener_def getLogsAfterID_def lw_add_def newLogWatcher_def seq_push_def
        seq_afterID_def seq_fromOutdated_def seq_fromElem_def Let_def)
  moreover have "{x. pub_step (lw, l) x} = {(lw_add s lw, l\<lparr>ll_phase := Reading\<rparr>) | s. True}"
  proof (intro set_eqI iffI)
    fix x
    assume "x \<in> {x. pub_step (lw, l) x}"
    then show "x \<in> {(lw_add s lw, l\<lparr>ll_phase := Reading\<rparr>) | s. True}"
      using ph by (cases x) (auto elim!: pub_stepE)
  next
    fix x
    assume "x \<in> {(lw_add s lw, l\<lparr>ll_phase := Reading\<rparr>) | s. True}"
    then show "x \<in> {x. pub_step (lw, l) x}" using arrive [of lw l] ph by auto
  qed
  moreover have "ll_out l = []" by (simp add: lw_l_def addListener_def)
  ultimately show ?thesis by blast
qed

end
