(* ===== verification/EventWatcher.thy ===== *)
theory EventWatcher
  imports SeqLog
begin

text \<open>
  The stream of Kubernetes events of a cluster (\<^verbatim>\<open>pkg/k8seventwatcher/eventwatcher.go\<close>) and
  the manager that keeps one watcher per cluster (\<^verbatim>\<open>watchermanager.go\<close>). The type \<open>'e\<close> is
  the Kubernetes library's event; the controller that delivers it calls the four handlers below.
  The watcher's list is the second instance of the interface \<open>seq_log\<close>; its numbers start at 2.
\<close>

section \<open>A watcher\<close>

record 'e event_watcher =
  ew_eventID :: uint64
  ew_maxSize :: nat
  ew_eventList :: "'e entries"

definition NewEventWatcher :: "nat \<Rightarrow> 'e event_watcher" where
  "NewEventWatcher maxSize = \<lparr>ew_eventID = 1, ew_maxSize = maxSize, ew_eventList = []\<rparr>"

definition ew_add :: "'e \<Rightarrow> 'e event_watcher \<Rightarrow> 'e event_watcher" where
  "ew_add event ew =
     (let n = ew_eventID ew + 1
      in ew\<lparr>ew_eventID := n, ew_eventList := seq_push (ew_maxSize ew) n event (ew_eventList ew)\<rparr>)"

text \<open>
  What the controller reports: an object that is an event (\<open>Some\<close>) or not. Deletions and generic
  notifications are ignored.
\<close>

datatype 'e k8s_notice = OnCreate "'e option" | OnUpdate "'e option" | OnDelete | OnGeneric

definition ew_notice :: "'e k8s_notice \<Rightarrow> 'e event_watcher \<Rightarrow> 'e event_watcher" where
  "ew_notice e ew =
     (case e of
        OnCreate (Some event) \<Rightarrow> ew_add event ew
      | OnUpdate (Some event) \<Rightarrow> ew_add event ew
      | _ \<Rightarrow> ew)"

definition getEventsAfterID :: "uint64 \<Rightarrow> nat \<Rightarrow> 'e event_watcher \<Rightarrow> (uint64 \<times> 'e list) option" where
  "getEventsAfterID cid batch ew = seq_afterID (ew_eventList ew) cid batch"

definition publishEvent :: "'e event_watcher \<Rightarrow> uint64 \<times> 'e list \<Rightarrow> (uint64 \<times> 'e list) option" where
  "publishEvent ew l = poll getEventsAfterID (ew_maxSize ew div 4) ew l"

section \<open>The manager of watchers\<close>

abbreviation MaxEventCount :: nat where "MaxEventCount \<equiv> 4096"

datatype cluster_notice = ClusterCreated string | ClusterDeleted string

type_synonym 'e watchers = "string \<rightharpoonup> 'e event_watcher"

definition watcher_event :: "cluster_notice \<Rightarrow> 'e watchers \<Rightarrow> 'e watchers" where
  "watcher_event e m =
     (case e of
        ClusterCreated name \<Rightarrow> if m name \<noteq> None then m else m(name \<mapsto> NewEventWatcher MaxEventCount)
      | ClusterDeleted name \<Rightarrow> m(name := None))"

definition watcher_loop :: "cluster_notice list \<Rightarrow> 'e watchers \<Rightarrow> 'e watchers" where
  "watcher_loop es m = foldl (\<lambda>m e. watcher_event e m) m es"

section \<open>The watcher as a numbered log\<close>

definition ew_rel :: "'e list \<Rightarrow> 'e event_watcher \<Rightarrow> bool" where
  "ew_rel h ew \<longleftrightarrow> ew_maxSize ew = MaxEventCount \<and> seq_rel 1 MaxEventCount h (ew_eventID ew) (ew_eventList ew)"

interpretation ewlog: seq_log ew_add getEventsAfterID ew_rel "seq_pos 1" MaxEventCount "2 ^ 64 - 2"
proof unfold_locales
  fix h :: "'e list" and s x
  assume r: "ew_rel h s" and b: "length h < 2 ^ 64 - 2"
  then have "1 + length h + 1 < 2 ^ 64" by simp
  with r show "ew_rel (h @ [x]) (ew_add x s)"
    using seq_push_rel [of 1 MaxEventCount h "ew_eventID s" "ew_eventList s" x] by (simp add: ew_rel_def ew_add_def Let_def)
next
  fix h :: "'e list" and s cid and batch :: nat
  assume "ew_rel h s" "seq_pos 1 (length h) cid"
  then show "\<exists>n. getEventsAfterID cid batch s = Some (n, [])"
    using seq_after_none [of 1 MaxEventCount h "ew_eventID s" "ew_eventList s" cid batch]
    by (simp add: ew_rel_def getEventsAfterID_def)
next
  fix h :: "'e list" and s p cid and batch :: nat
  assume "ew_rel h s" "seq_pos 1 p cid" "p < length h" "0 < batch"
  then show "\<exists>n xs. getEventsAfterID cid batch s = Some (n, xs) \<and> xs = take batch (drop (max p (length h - MaxEventCount)) h)
      \<and> seq_pos 1 (max p (length h - MaxEventCount) + length xs) n"
    using seq_after_some [of 1 MaxEventCount h "ew_eventID s" "ew_eventList s" p cid batch]
    by (simp add: ew_rel_def getEventsAfterID_def)
qed simp

lemma ew_rel_new: "ew_rel [] (NewEventWatcher MaxEventCount)"
  by (simp add: ew_rel_def NewEventWatcher_def seq_rel_def)

lemma ew_pos_start: "seq_pos 1 0 0"
  by (simp add: seq_pos_def)

section \<open>Properties\<close>

text \<open>
  The stream of Kubernetes events of a cluster: no round of a listener fails, it receives
  a subsequence of the events, and a prefix of them as long as at most 4096 have been reported.
\<close>

theorem events_deliver_in_order:
  assumes "length (added ops) < 2 ^ 64 - 1"
  shows "\<exists>ew n out. log_run ew_add getEventsAfterID (MaxEventCount div 4) ops (NewEventWatcher MaxEventCount, 0, [])
      = Some (ew, n, out)
    \<and> subseq out (added ops) \<and> (length (added ops) \<le> MaxEventCount \<longrightarrow> prefix out (added ops))"
  using ewlog.run_subseq [OF ew_rel_new ew_pos_start, of "[]" "MaxEventCount div 4" ops]
    ewlog.run_prefix [OF ew_rel_new ew_pos_start, of "[]" "MaxEventCount div 4" ops] assms
  by (cases "length (added ops) \<le> MaxEventCount") auto

theorem events_deliver_in_order_witness:
  "\<exists>ew n out. log_run ew_add getEventsAfterID (MaxEventCount div 4) [LAdd (7 :: nat), LPoll, LAdd 8] (NewEventWatcher MaxEventCount, 0, [])
      = Some (ew, n, out)
    \<and> subseq out [7, 8] \<and> prefix out [7, 8]"
  using events_deliver_in_order [of "[LAdd (7 :: nat), LPoll, LAdd 8]"] by simp

lemma watcher_event_simps [simp]:
  "watcher_event (ClusterCreated n) m = (if m n \<noteq> None then m else m(n \<mapsto> NewEventWatcher MaxEventCount))"
  "watcher_event (ClusterDeleted n) m = m(n := None)"
  by (simp_all add: watcher_event_def)

text \<open>
  The manager has a watcher exactly for the clusters whose creation was announced after their
  last deletion; announcing a cluster twice keeps its watcher.
\<close>

theorem watchers_follow_clusters:
  "n \<in> dom (watcher_loop es Map.empty) \<longleftrightarrow>
     (\<exists>xs ys. es = xs @ ClusterCreated n # ys \<and> ClusterDeleted n \<notin> set ys)"
proof (induction es rule: rev_induct)
  case Nil
  then show ?case by (simp add: watcher_loop_def)
next
  case (snoc e es)
  have step: "watcher_loop (es @ [e]) Map.empty = watcher_event e (watcher_loop es Map.empty)"
    by (simp add: watcher_loop_def)
  have ends: "(\<exists>xs ys. es @ [e] = xs @ ClusterCreated n # ys \<and> ClusterDeleted n \<notin> set ys) \<longleftrightarrow>
     e = ClusterCreated n \<or> (e \<noteq> ClusterDeleted n \<and> (\<exists>xs ys. es = xs @ ClusterCreated n # ys \<and> ClusterDeleted n \<notin> set ys))"
    (is "?L \<longleftrightarrow> ?R")
  proof
    assume ?L
    then obtain xs ys where l: "es @ [e] = xs @ ClusterCreated n # ys" "ClusterDeleted n \<notin> set ys" by blast
    then show ?R by (cases ys rule: rev_cases) auto
  next
    assume ?R
    then show ?L
    proof (elim disjE conjE exE)
      assume "e = ClusterCreated n"
      then show ?L by (intro exI [of _ es] exI [of _ "[]"]) simp
    next
      fix xs ys
      assume "e \<noteq> ClusterDeleted n" "es = xs @ ClusterCreated n # ys" "ClusterDeleted n \<notin> set ys"
      then show ?L by (intro exI [of _ xs] exI [of _ "ys @ [e]"]) auto
    qed
  qed
  show ?case unfolding step ends using snoc.IH by (cases e) (auto split: if_splits)
qed

end
