(* ===== verification/Session.thy ===== *)
theory Session
  imports Prelude
begin

text \<open>
  The parts of an HTTP request the program reads, and the cookie sessions of
  \<^verbatim>\<open>pkg/authentication/session/session.go\<close>. A request carries its cookies in order; asking for
  one gives the first with that name. What a handler writes to the response is a list of
  \<open>http_out\<close>. The key of a new session comes from \<^verbatim>\<open>cement/uuid\<close>, so it is an argument.
\<close>

section \<open>Requests and responses\<close>

record login_params =
  lp_name :: string
  lp_password :: string

record http_request =
  rq_path :: string
  rq_host :: string
  rq_query :: "(string \<times> string) list"
  rq_tls :: bool
  rq_headers :: "(string \<times> string) list"
  rq_cookies :: "(string \<times> string) list"
  rq_user :: "string option"
  rq_login :: "goerr + login_params json"

text \<open>\<open>Header.Get\<close> and \<open>URL.Query().Get\<close> give the first value, or the empty string.\<close>

definition get_first :: "(string \<times> string) list \<Rightarrow> string \<Rightarrow> string" where
  "get_first kvs k = (case map_of kvs k of None \<Rightarrow> '''' | Some v \<Rightarrow> v)"

text \<open>
  A URL is its parts; the query is kept in the order in which \<open>Values.Encode\<close> writes it, sorted by
  key. How a URL is written as text is left out.
\<close>

record url =
  url_scheme :: string
  url_host :: string
  url_path :: string
  url_query :: "(string \<times> string) list"

text \<open>
  What a handler writes: a cookie with its age, an API error, a JSON object with a status, a
  redirection, and a redirection to a page of the CAS server with the service it returns to.
\<close>

datatype http_out =
    SetCookie string string int
  | WriteError api_error
  | WriteBody nat "(string \<times> string) list"
  | Redirect url
  | RedirectCas string url

section \<open>Sessions\<close>

record session_mgr =
  sm_key :: string
  sm_sessions :: "string \<rightharpoonup> string"

definition session_New :: "string \<Rightarrow> session_mgr" where
  "session_New key = \<lparr>sm_key = key, sm_sessions = Map.empty\<rparr>"

definition GetSession :: "session_mgr \<Rightarrow> http_request \<Rightarrow> string" where
  "GetSession mgr r =
     (case map_of (rq_cookies r) (sm_key mgr) of
        None \<Rightarrow> ''''
      | Some c \<Rightarrow> (case sm_sessions mgr c of None \<Rightarrow> '''' | Some session \<Rightarrow> session))"

definition AddSession ::
  "string \<Rightarrow> session_mgr \<Rightarrow> http_request \<Rightarrow> string \<Rightarrow> session_mgr \<times> http_request \<times> http_out list" where
  "AddSession sessionKey mgr r v =
     (mgr\<lparr>sm_sessions := (sm_sessions mgr)(sessionKey \<mapsto> v)\<rparr>,
      r\<lparr>rq_cookies := rq_cookies r @ [(sm_key mgr, sessionKey)]\<rparr>,
      [SetCookie (sm_key mgr) sessionKey 0])"

definition ClearSession :: "session_mgr \<Rightarrow> http_request \<Rightarrow> session_mgr \<times> http_out list" where
  "ClearSession mgr r =
     (case map_of (rq_cookies r) (sm_key mgr) of
        None \<Rightarrow> (mgr, [])
      | Some c \<Rightarrow> (mgr\<lparr>sm_sessions := (sm_sessions mgr)(c := None)\<rparr>, [SetCookie (sm_key mgr) c (- 1)]))"

section \<open>What a browser does with the answers\<close>

text \<open>
  A browser stores the cookies it is sent (a negative age removes the cookie) and sends them with
  the next request.
\<close>

fun browser :: "http_out list \<Rightarrow> (string \<times> string) list \<Rightarrow> (string \<times> string) list" where
  "browser [] cs = cs"
| "browser (SetCookie n v age # os) cs =
     browser os (if age < 0 then filter (\<lambda>c. fst c \<noteq> n) cs else (n, v) # filter (\<lambda>c. fst c \<noteq> n) cs)"
| "browser (_ # os) cs = browser os cs"

lemma map_of_filter_key [simp]: "map_of (filter (\<lambda>c. fst c \<noteq> n) cs) k = (if k = n then None else map_of cs k)"
  by (induction cs) auto

text \<open>
  A session that was added is found by the browser that received the cookie, is not found any more
  once it was cleared, and other keys are not touched.
\<close>

lemma AddSession_GetSession:
  assumes "AddSession k mgr r v = (mgr', r', outs)"
    and "rq_cookies q = browser outs cs"
  shows "GetSession mgr' q = v"
  using assms by (auto simp: AddSession_def GetSession_def)

lemma AddSession_other:
  assumes "AddSession k mgr r v = (mgr', r', outs)" "map_of (rq_cookies q) (sm_key mgr) \<noteq> Some k"
  shows "GetSession mgr' q = GetSession mgr q"
  using assms by (auto simp: AddSession_def GetSession_def split: option.splits)

lemma ClearSession_GetSession:
  assumes "ClearSession mgr r = (mgr', outs)" "rq_cookies q = rq_cookies r"
  shows "GetSession mgr' q = ''''"
  using assms by (auto simp: ClearSession_def GetSession_def split: option.splits)

end
