(* ===== verification/CachedTable.thy ===== *)
theory CachedTable
  imports Kvzoo
begin

text \<open>
  Both user registries of the program keep a map in memory and a copy of it in a table: they
  read the table at start and change the map only after the table was written. This theory states
  what it means that the two agree and how the three writes keep it, once for every table that
  satisfies \<open>kv_laws\<close>; \<open>enc\<close> is how a value of the map is stored.
\<close>

definition agrees :: "('d \<Rightarrow> string \<rightharpoonup> 'v) \<Rightarrow> ('a \<Rightarrow> 'v) \<Rightarrow> (string \<rightharpoonup> 'a) \<Rightarrow> 'd \<Rightarrow> bool" where
  "agrees view enc m d \<longleftrightarrow> view d = map_option enc \<circ> m"

text \<open>The writes of the registries: no error of the table is reworded.\<close>

abbreviation plain_add where
  "plain_add T k v \<equiv> kv_write T (\<lambda>e. e) (\<lambda>e. e) (\<lambda>tx. map_err (\<lambda>e. e) (kvAdd T tx k v))"

abbreviation plain_update where
  "plain_update T k v \<equiv> kv_write T (\<lambda>e. e) (\<lambda>e. e) (\<lambda>tx. map_err (\<lambda>e. e) (kvUpdate T tx k v))"

abbreviation plain_delete where
  "plain_delete T k \<equiv> kv_write T (\<lambda>e. e) (\<lambda>e. e) (\<lambda>tx. map_err (\<lambda>e. e) (kvDelete T tx k))"

abbreviation plain_list where
  "plain_list T \<equiv> kv_read T (\<lambda>e. e) (\<lambda>tx. map_err (\<lambda>e. e) (kvList T tx))"

lemma map_option_comp_upd: "map_option f \<circ> m(k \<mapsto> x) = (map_option f \<circ> m)(k \<mapsto> f x)"
  by (rule ext) simp

lemma map_option_comp_del: "map_option f \<circ> m(k := None) = (map_option f \<circ> m)(k := None)"
  by (rule ext) simp

text \<open>A list of pairs whose map is an encoded map is an encoded list.\<close>

lemma encoded_pairs:
  assumes "map_of kvs = map_option enc \<circ> m" "distinct (map fst kvs)"
  shows "kvs = map (\<lambda>(k, x). (k, enc x)) (map (\<lambda>(k, v). (k, the (m k))) kvs)
    \<and> map_of (map (\<lambda>(k, v). (k, the (m k))) kvs) = m"
proof -
  have el: "\<exists>x. m k = Some x \<and> v = enc x" if "(k, v) \<in> set kvs" for k v
  proof -
    have "map_of kvs k = Some v" using that assms(2) by simp
    then show ?thesis using assms(1) by auto
  qed
  have "map_of (map (\<lambda>(k, v). (k, the (m k))) kvs) k = m k" for k
  proof (cases "map_of kvs k")
    case None
    then have "k \<notin> fst ` set kvs" by (simp add: map_of_eq_None_iff)
    then have "map_of (map (\<lambda>(k, v). (k, the (m k))) kvs) k = None"
      by (force simp: map_of_eq_None_iff)
    moreover have "m k = None" using None assms(1) by simp
    ultimately show ?thesis by simp
  next
    case (Some v)
    then have "(k, the (m k)) \<in> set (map (\<lambda>(k, v). (k, the (m k))) kvs)"
      by (force dest: map_of_SomeD)
    moreover have "distinct (map fst (map (\<lambda>(k, v). (k, the (m k))) kvs))"
      using assms(2) by (simp add: comp_def case_prod_unfold)
    ultimately have "map_of (map (\<lambda>(k, v). (k, the (m k))) kvs) k = Some (the (m k))"
      by (meson map_of_is_SomeI)
    with el [OF map_of_SomeD [OF Some]] show ?thesis by auto
  qed
  moreover have "kvs = map (\<lambda>(k, x). (k, enc x)) (map (\<lambda>(k, v). (k, the (m k))) kvs)"
    using el by (intro nth_equalityI) (force simp: in_set_conv_nth split: prod.splits)+
  ultimately show ?thesis by blast
qed

context kv_laws
begin

lemma agrees_add:
  assumes "agrees view enc m d" "plain_add T k (enc x) d = (d', r)"
  shows "agrees view enc (if r = None then m(k \<mapsto> x) else m) d'"
  using assms(1) write_add [OF assms(2)] by (auto simp: agrees_def map_option_comp_upd)

lemma agrees_update:
  assumes "agrees view enc m d" "plain_update T k (enc x) d = (d', r)"
  shows "agrees view enc (if r = None then m(k \<mapsto> x) else m) d'"
  using assms(1) write_update [OF assms(2)] by (auto simp: agrees_def map_option_comp_upd)

lemma agrees_delete:
  assumes "agrees view enc m d" "plain_delete T k d = (d', r)"
  shows "agrees view enc (if r = None then m(k := None) else m) d'"
  using assms(1) write_delete [OF assms(2)] by (auto simp: agrees_def map_option_comp_del)

lemma agrees_list:
  assumes "agrees view enc m d" "plain_list T d = Inr kvs"
  shows "map_of kvs = map_option enc \<circ> m \<and> distinct (map fst kvs)"
  using assms(1) read_list [OF assms(2)] by (simp add: agrees_def)

lemma list_agrees:
  assumes "plain_list T d = Inr (map (\<lambda>(k, x). (k, enc x)) xs)"
  shows "agrees view enc (map_of xs) d"
proof -
  have "view d = map_of (map (\<lambda>(k, x). (k, enc x)) xs)" using read_list [OF assms] by simp
  also have "\<dots> = map_option enc \<circ> map_of xs" by (simp add: map_of_map comp_def)
  finally show ?thesis by (simp add: agrees_def)
qed

end

section \<open>The contract of a registry of users\<close>

text \<open>
  What the handlers of the user resource rely on: \<open>names\<close> are the registered users in a state that
  is \<open>ok\<close>, \<open>add\<close> succeeds exactly for a new name, \<open>del\<close> exactly for a registered name that is
  not protected (\<open>keep\<close>), and a refused request changes no names.
\<close>

locale user_registry =
  fixes ok :: "'s \<Rightarrow> bool"
    and names :: "'s \<Rightarrow> string set"
    and uid :: "'u \<Rightarrow> string"
    and add :: "'u \<Rightarrow> 's \<Rightarrow> 's \<times> goerr option"
    and del :: "string \<Rightarrow> 's \<Rightarrow> 's \<times> goerr option"
    and keep :: "string \<Rightarrow> bool"
  assumes add_law: "ok s \<Longrightarrow> add u s = (s', r) \<Longrightarrow>
      ok s' \<and> (r = None \<longleftrightarrow> uid u \<notin> names s) \<and> names s' = insert (uid u) (names s)"
    and del_law: "ok s \<Longrightarrow> del n s = (s', r) \<Longrightarrow>
      ok s' \<and> (r = None \<longleftrightarrow> n \<in> names s \<and> \<not> keep n) \<and> names s' = (if keep n then names s else names s - {n})"

text \<open>
  A client that keeps two registries of the same users adds to the first and then, if that
  succeeded, to the second, and deletes in the same order. If the registries hold the same names
  before, they do so afterwards, and the second call never fails.
\<close>

definition synced :: "('s \<Rightarrow> bool) \<Rightarrow> ('s \<Rightarrow> string set) \<Rightarrow> ('t \<Rightarrow> bool) \<Rightarrow> ('t \<Rightarrow> string set) \<Rightarrow> 's \<Rightarrow> 't \<Rightarrow> bool" where
  "synced okA namesA okB namesB s t \<longleftrightarrow> okA s \<and> okB t \<and> namesA s = namesB t"

locale registry_pair = A: user_registry okA namesA uid addA delA keep
    + B: user_registry okB namesB uid addB delB "\<lambda>n. False"
  for okA :: "'s \<Rightarrow> bool" and namesA :: "'s \<Rightarrow> string set" and uid :: "'u \<Rightarrow> string"
    and addA :: "'u \<Rightarrow> 's \<Rightarrow> 's \<times> goerr option" and delA :: "string \<Rightarrow> 's \<Rightarrow> 's \<times> goerr option"
    and keep :: "string \<Rightarrow> bool"
    and okB :: "'t \<Rightarrow> bool" and namesB :: "'t \<Rightarrow> string set"
    and addB :: "'u \<Rightarrow> 't \<Rightarrow> 't \<times> goerr option" and delB :: "string \<Rightarrow> 't \<Rightarrow> 't \<times> goerr option"
begin

lemma add_both:
  assumes "synced okA namesA okB namesB s t" "addA u s = (s', None)" "addB u t = (t', r)"
  shows "r = None \<and> synced okA namesA okB namesB s' t' \<and> uid u \<notin> namesA s \<and> namesA s' = insert (uid u) (namesA s)"
  using A.add_law [OF _ assms(2)] B.add_law [OF _ assms(3)] assms(1) by (auto simp: synced_def)

lemma add_refused:
  assumes "synced okA namesA okB namesB s t" "addA u s = (s', Some e)"
  shows "synced okA namesA okB namesB s' t \<and> uid u \<in> namesA s \<and> namesA s' = namesA s"
  using A.add_law [OF _ assms(2)] assms(1) by (auto simp: synced_def)

lemma del_both:
  assumes "synced okA namesA okB namesB s t" "delA n s = (s', None)" "delB n t = (t', r)"
  shows "r = None \<and> synced okA namesA okB namesB s' t' \<and> n \<in> namesA s \<and> \<not> keep n \<and> namesA s' = namesA s - {n}"
  using A.del_law [OF _ assms(2)] B.del_law [OF _ assms(3)] assms(1) by (auto simp: synced_def)

lemma del_refused:
  assumes "synced okA namesA okB namesB s t" "delA n s = (s', Some e)"
  shows "synced okA namesA okB namesB s' t \<and> (n \<in> namesA s \<longrightarrow> keep n) \<and> namesA s' = namesA s"
  using A.del_law [OF _ assms(2)] assms(1) by (auto simp: synced_def split: if_splits)

end

end
