(* ===== verification/Authorizer.thy ===== *)
theory Authorizer
  imports CachedTable
begin

text \<open>
  Authorization (\<^verbatim>\<open>pkg/authorization/authorizer.go\<close>, \<^verbatim>\<open>db.go\<close>; the resource of
  \<^verbatim>\<open>pkg/types/user.go\<close>): who may work on which cluster and namespace. The authorizer's map of
  users is \<open>az_users\<close>; its table, an argument, is in the state \<open>az_db\<close>. The resource base of a
  user (identifier, time stamps) is flattened; a time stamp that was not set is 0. The pointers in
  the Go map never leave the package, so the map holds values.
\<close>

section \<open>Data\<close>

record project =
  prj_Cluster :: string
  prj_Namespace :: string

record user =
  user_ID :: string
  user_CreationTimestamp :: time
  user_DeletionTimestamp :: time
  user_Name :: string
  user_Password :: string
  user_Projects :: "project list"

record auth_user =
  au_Projects :: "project list"
  au_CreationTimestamp :: time
  au_DeletionTimestamp :: time

type_synonym ('d, 'tx) az_table = "('d, 'tx, auth_user json) kvzoo"

record 'd authorizer =
  az_users :: "string \<rightharpoonup> auth_user"
  az_db :: 'd

abbreviation AllNamespaces :: string where "AllNamespaces \<equiv> ''_all_namespaces''"
abbreviation AllClusters :: string where "AllClusters \<equiv> ''_all_clusters''"

text \<open>2019-02-28T00:00:00Z in seconds since 1970.\<close>

abbreviation zcloudStartTime :: time where "zcloudStartTime \<equiv> 1551312000"

definition adminUser :: user where
  "adminUser =
     \<lparr>user_ID = Administrator, user_CreationTimestamp = zcloudStartTime, user_DeletionTimestamp = 0,
      user_Name = Administrator, user_Password = '''',
      user_Projects = [\<lparr>prj_Cluster = AllClusters, prj_Namespace = AllNamespaces\<rparr>]\<rparr>"

section \<open>Table\<close>

definition az_addUser :: "('d, 'tx) az_table \<Rightarrow> string \<Rightarrow> auth_user \<Rightarrow> 'd \<Rightarrow> 'd \<times> goerr option" where
  "az_addUser T name u = plain_add T name (json_marshal u)"

definition az_deleteUser :: "('d, 'tx) az_table \<Rightarrow> string \<Rightarrow> 'd \<Rightarrow> 'd \<times> goerr option" where
  "az_deleteUser T name = plain_delete T name"

definition az_updateUser :: "('d, 'tx) az_table \<Rightarrow> string \<Rightarrow> auth_user \<Rightarrow> 'd \<Rightarrow> 'd \<times> goerr option" where
  "az_updateUser T name u = plain_update T name (json_marshal u)"

fun unmarshal_users :: "(string \<times> 'a json) list \<Rightarrow> goerr + (string \<times> 'a) list" where
  "unmarshal_users [] = Inr []"
| "unmarshal_users ((name, v) # kvs) =
     (case json_unmarshal v of
        Inl e \<Rightarrow> Inl e
      | Inr u \<Rightarrow> map_sum (\<lambda>e. e) ((#) (name, u)) (unmarshal_users kvs))"

definition az_loadUsers :: "('d, 'tx) az_table \<Rightarrow> 'd \<Rightarrow> goerr + (string \<rightharpoonup> auth_user)" where
  "az_loadUsers T d =
     (case plain_list T d of
        Inl e \<Rightarrow> Inl e
      | Inr usersInDB \<Rightarrow> map_sum (\<lambda>e. e) map_of (unmarshal_users usersInDB))"

section \<open>Operations\<close>

definition covers :: "project \<Rightarrow> string \<Rightarrow> string \<Rightarrow> bool" where
  "covers p cluster namespace \<longleftrightarrow>
     (prj_Cluster p = AllClusters \<or> prj_Cluster p = cluster)
     \<and> (namespace = '''' \<or> prj_Namespace p = AllNamespaces \<or> prj_Namespace p = namespace)"

definition Authorize :: "'d authorizer \<Rightarrow> string \<Rightarrow> string \<Rightarrow> string \<Rightarrow> bool" where
  "Authorize a userName cluster namespace =
     (if userName = Administrator then True
      else (case az_users a userName of
              None \<Rightarrow> False
            | Some u \<Rightarrow> list_ex (\<lambda>p. covers p cluster namespace) (au_Projects u)))"

definition az_AddUser ::
  "('d, 'tx) az_table \<Rightarrow> user \<Rightarrow> 'd authorizer \<Rightarrow> 'd authorizer \<times> goerr option" where
  "az_AddUser T u a =
     (let name = user_ID u
      in case az_users a name of
           Some _ \<Rightarrow> (a, Some (''user '' @ name @ '' already exists''))
         | None \<Rightarrow>
             (let u' = \<lparr>au_Projects = user_Projects u, au_CreationTimestamp = user_CreationTimestamp u,
                        au_DeletionTimestamp = 0\<rparr>
              in case az_addUser T name u' (az_db a) of
                   (d, Some e) \<Rightarrow> (a\<lparr>az_db := d\<rparr>, Some e)
                 | (d, None) \<Rightarrow> (a\<lparr>az_db := d, az_users := (az_users a)(name \<mapsto> u')\<rparr>, None)))"

definition az_HasUser :: "'d authorizer \<Rightarrow> string \<Rightarrow> bool" where
  "az_HasUser a name \<longleftrightarrow> az_users a name \<noteq> None"

definition shown_user :: "string \<Rightarrow> auth_user \<Rightarrow> user" where
  "shown_user name u =
     \<lparr>user_ID = name, user_CreationTimestamp = au_CreationTimestamp u,
      user_DeletionTimestamp = au_DeletionTimestamp u, user_Name = name, user_Password = '''',
      user_Projects = au_Projects u\<rparr>"

definition az_GetUser :: "'d authorizer \<Rightarrow> string \<Rightarrow> user option" where
  "az_GetUser a name = map_option (shown_user name) (az_users a name)"

text \<open>Go enumerates a map in any order: \<open>names\<close> is that order.\<close>

definition az_ListUser :: "string list \<Rightarrow> 'd authorizer \<Rightarrow> user list" where
  "az_ListUser names a = List.map_filter (az_GetUser a) names"

definition az_DeleteUser ::
  "('d, 'tx) az_table \<Rightarrow> string \<Rightarrow> 'd authorizer \<Rightarrow> 'd authorizer \<times> goerr option" where
  "az_DeleteUser T name a =
     (case az_users a name of
        Some _ \<Rightarrow>
          (case az_deleteUser T name (az_db a) of
             (d, Some e) \<Rightarrow> (a\<lparr>az_db := d\<rparr>, Some e)
           | (d, None) \<Rightarrow> (a\<lparr>az_db := d, az_users := (az_users a)(name := None)\<rparr>, None))
      | None \<Rightarrow> (a, Some (''user '' @ name @ '' doesn't exist'')))"

text \<open>The projects of the user in memory are replaced before the table is written.\<close>

definition az_UpdateUser ::
  "('d, 'tx) az_table \<Rightarrow> user \<Rightarrow> 'd authorizer \<Rightarrow> 'd authorizer \<times> goerr option" where
  "az_UpdateUser T u a =
     (let name = user_ID u
      in case az_users a name of
           None \<Rightarrow> (a, Some (''user '' @ name @ '' doesn't exist''))
         | Some u' \<Rightarrow>
             (let u'' = u'\<lparr>au_Projects := user_Projects u\<rparr>;
                  (d, r) = az_updateUser T name u'' (az_db a)
              in (a\<lparr>az_users := (az_users a)(name \<mapsto> u''), az_db := d\<rparr>, r)))"

definition az_New :: "('d, 'tx) az_table \<Rightarrow> 'd \<Rightarrow> goerr + 'd authorizer" where
  "az_New T d =
     (case az_loadUsers T d of
        Inl e \<Rightarrow> Inl e
      | Inr users \<Rightarrow>
          (let a = \<lparr>az_users = users, az_db = d\<rparr>
           in if users Administrator = None then Inr (fst (az_AddUser T adminUser a)) else Inr a))"

section \<open>Requests that change the registry\<close>

datatype az_op = AzAdd user | AzDelete string | AzUpdate user

fun az_exec :: "('d, 'tx) az_table \<Rightarrow> az_op \<Rightarrow> 'd authorizer \<Rightarrow> 'd authorizer \<times> goerr option" where
  "az_exec T (AzAdd u) a = az_AddUser T u a"
| "az_exec T (AzDelete n) a = az_DeleteUser T n a"
| "az_exec T (AzUpdate u) a = az_UpdateUser T u a"

text \<open>A run keeps the outcome of every request beside it.\<close>

fun az_run ::
  "('d, 'tx) az_table \<Rightarrow> az_op list \<Rightarrow> 'd authorizer \<Rightarrow> 'd authorizer \<times> (az_op \<times> goerr option) list" where
  "az_run T [] a = (a, [])"
| "az_run T (x # xs) a =
     (let (a', r) = az_exec T x a; (a'', rs) = az_run T xs a' in (a'', (x, r) # rs))"

section \<open>Specification: a map of grants\<close>

definition grants :: "'d authorizer \<Rightarrow> string \<rightharpoonup> project list" where
  "grants a = map_option au_Projects \<circ> az_users a"

fun grant_ok :: "az_op \<Rightarrow> (string \<rightharpoonup> project list) \<Rightarrow> bool" where
  "grant_ok (AzAdd u) g \<longleftrightarrow> g (user_ID u) = None"
| "grant_ok (AzDelete n) g \<longleftrightarrow> g n \<noteq> None"
| "grant_ok (AzUpdate u) g \<longleftrightarrow> g (user_ID u) \<noteq> None"

fun grant_step :: "az_op \<Rightarrow> (string \<rightharpoonup> project list) \<Rightarrow> string \<rightharpoonup> project list" where
  "grant_step (AzAdd u) g = g(user_ID u \<mapsto> user_Projects u)"
| "grant_step (AzDelete n) g = g(n := None)"
| "grant_step (AzUpdate u) g = g(user_ID u \<mapsto> user_Projects u)"

text \<open>A request that is not allowed is refused and changes nothing.\<close>

fun grant_run :: "az_op list \<Rightarrow> (string \<rightharpoonup> project list) \<Rightarrow> (string \<rightharpoonup> project list) \<times> bool list" where
  "grant_run [] g = (g, [])"
| "grant_run (x # xs) g =
     (let (g', oks) = grant_run xs (if grant_ok x g then grant_step x g else g)
      in (g', grant_ok x g # oks))"

definition permits :: "(string \<rightharpoonup> project list) \<Rightarrow> string \<Rightarrow> string \<Rightarrow> string \<Rightarrow> bool" where
  "permits g userName cluster namespace \<longleftrightarrow>
     userName = Administrator
     \<or> (\<exists>p \<in> set (case g userName of None \<Rightarrow> [] | Some ps \<Rightarrow> ps). covers p cluster namespace)"

abbreviation az_agrees :: "('d \<Rightarrow> string \<rightharpoonup> auth_user json) \<Rightarrow> 'd authorizer \<Rightarrow> bool" where
  "az_agrees view a \<equiv> agrees view Json (az_users a) (az_db a)"

lemma Authorize_permits: "Authorize a u c n \<longleftrightarrow> permits (grants a) u c n"
  by (auto simp: Authorize_def permits_def grants_def list_ex_iff split: option.splits)

lemma grants_simps [simp]:
  "grants a n = None \<longleftrightarrow> az_users a n = None"
  "grants (a\<lparr>az_db := d\<rparr>) = grants a"
  "grants (a\<lparr>az_users := m\<rparr>) = map_option au_Projects \<circ> m"
  by (simp_all add: grants_def)

lemma dom_grants: "dom (grants a) = dom (az_users a)"
  by (simp add: set_eq_iff domIff)

lemma unmarshal_users_Json: "unmarshal_users (map (\<lambda>(k, x). (k, Json x)) xs) = Inr xs"
  by (induction xs) auto

lemma unmarshal_users_Inr: "unmarshal_users kvs = Inr xs \<Longrightarrow> kvs = map (\<lambda>(k, x). (k, Json x)) xs"
proof (induction kvs arbitrary: xs)
  case (Cons kv kvs)
  obtain k v where kv: "kv = (k, v)" by (cases kv)
  from Cons show ?case
    by (cases v; cases "unmarshal_users kvs") (auto simp: kv)
qed simp

section \<open>The operations against any table\<close>

locale az_laws = kv_laws T view txview
  for T :: "('d, 'tx) az_table" and view :: "'d \<Rightarrow> string \<rightharpoonup> auth_user json" and txview :: "'tx \<Rightarrow> string \<rightharpoonup> auth_user json"
begin

text \<open>
  An addition or deletion that reports an error leaves the map and the contents of the table; an
  update that fails to write leaves the table but not the map.
\<close>

lemma AddUser_cases:
  assumes "az_AddUser T u a = (a', r)" "az_agrees view a"
  shows "az_agrees view a'
    \<and> (r = None \<longrightarrow> az_users a (user_ID u) = None \<and> grants a' = (grants a)(user_ID u \<mapsto> user_Projects u))
    \<and> (r \<noteq> None \<longrightarrow> az_users a' = az_users a \<and> view (az_db a') = view (az_db a))"
  using assms
  by (auto simp: az_AddUser_def az_addUser_def json_marshal_def Let_def grants_def map_option_comp_upd
      dest: agrees_add [where enc = Json] split: option.splits prod.splits)
    (auto dest: write_add simp: agrees_def)

lemma DeleteUser_cases:
  assumes "az_DeleteUser T n a = (a', r)" "az_agrees view a"
  shows "az_agrees view a'
    \<and> (r = None \<longrightarrow> az_users a n \<noteq> None \<and> grants a' = (grants a)(n := None))
    \<and> (r \<noteq> None \<longrightarrow> az_users a' = az_users a \<and> view (az_db a') = view (az_db a))"
  using assms
  by (auto simp: az_DeleteUser_def az_deleteUser_def grants_def map_option_comp_del
      dest: agrees_delete [where enc = Json] split: option.splits prod.splits)
    (auto dest: write_delete simp: agrees_def)

lemma UpdateUser_cases:
  assumes "az_UpdateUser T u a = (a', r)" "az_agrees view a"
  shows "(r = None \<longrightarrow> az_users a (user_ID u) \<noteq> None \<and> az_agrees view a'
            \<and> grants a' = (grants a)(user_ID u \<mapsto> user_Projects u))
    \<and> (r \<noteq> None \<longrightarrow> view (az_db a') = view (az_db a)
            \<and> grants a' = (if az_users a (user_ID u) = None then grants a else (grants a)(user_ID u \<mapsto> user_Projects u)))"
proof (cases "az_users a (user_ID u)")
  case None
  with assms show ?thesis by (auto simp: az_UpdateUser_def)
next
  case (Some u')
  let ?u = "u'\<lparr>au_Projects := user_Projects u\<rparr>"
  obtain d where w: "plain_update T (user_ID u) (Json ?u) (az_db a) = (d, r)"
    and a': "a' = a\<lparr>az_users := (az_users a)(user_ID u \<mapsto> ?u), az_db := d\<rparr>"
    using assms(1) Some
    by (auto simp: az_UpdateUser_def az_updateUser_def json_marshal_def Let_def split: prod.splits)
  have "grants a' = (grants a)(user_ID u \<mapsto> user_Projects u)"
    by (simp add: a' grants_def map_option_comp_upd)
  then show ?thesis
    using write_update [OF w] agrees_update [OF assms(2) w] Some by (auto simp: a')
qed

text \<open>Loading gives back the map that agrees with the table.\<close>

lemma loadUsers_agrees:
  assumes "agrees view Json m d" "plain_list T d = Inr kvs"
  shows "az_loadUsers T d = Inr m"
proof -
  have "map_of kvs = map_option Json \<circ> m" "distinct (map fst kvs)" using agrees_list [OF assms] by simp_all
  from encoded_pairs [OF this] obtain xs where xs: "kvs = map (\<lambda>(k, x). (k, Json x)) xs" "map_of xs = m" by blast
  have "unmarshal_users kvs = Inr xs" unfolding xs(1) by (rule unmarshal_users_Json)
  then show ?thesis using assms(2) xs(2) by (simp add: az_loadUsers_def)
qed

lemma loadUsers_Inr: "az_loadUsers T d = Inr m \<Longrightarrow> agrees view Json m d"
proof -
  assume "az_loadUsers T d = Inr m"
  then obtain kvs xs where k: "plain_list T d = Inr kvs" "unmarshal_users kvs = Inr xs" "m = map_of xs"
    by (auto simp: az_loadUsers_def map_sum_Inr_iff split: sum.splits)
  from unmarshal_users_Inr [OF k(2)] k(1) have "plain_list T d = Inr (map (\<lambda>(k, x). (k, Json x)) xs)" by simp
  then show ?thesis unfolding k(3) by (rule list_agrees)
qed

lemma New_agrees:
  assumes "az_New T d = Inr a"
  shows "az_agrees view a"
proof -
  obtain m where m: "az_loadUsers T d = Inr m" using assms by (auto simp: az_New_def split: sum.splits)
  then have "az_agrees view \<lparr>az_users = m, az_db = d\<rparr>" by (simp add: loadUsers_Inr)
  then show ?thesis
    using assms AddUser_cases [of adminUser "\<lparr>az_users = m, az_db = d\<rparr>"]
    by (auto simp: az_New_def m Let_def split: if_splits) (metis prod.collapse)
qed

end

section \<open>The operations against a table that does not fail\<close>

locale az_live = az_laws T view txview + kv_live T view txview
  for T :: "('d, 'tx) az_table" and view :: "'d \<Rightarrow> string \<rightharpoonup> auth_user json" and txview :: "'tx \<Rightarrow> string \<rightharpoonup> auth_user json"
begin

lemma view_None: "az_agrees view a \<Longrightarrow> view (az_db a) n = None \<longleftrightarrow> az_users a n = None"
  by (simp add: agrees_def)

lemma AddUser_live:
  "az_agrees view a \<Longrightarrow> az_users a (user_ID u) = None \<Longrightarrow> \<exists>a'. az_AddUser T u a = (a', None)"
proof -
  assume a: "az_agrees view a" "az_users a (user_ID u) = None"
  then have "view (az_db a) (user_ID u) = None" by (simp add: view_None)
  from write_add_live [OF this] obtain d where
    "az_addUser T (user_ID u) \<lparr>au_Projects = user_Projects u, au_CreationTimestamp = user_CreationTimestamp u,
       au_DeletionTimestamp = 0\<rparr> (az_db a) = (d, None)"
    unfolding az_addUser_def by blast
  with a(2) show ?thesis by (simp add: az_AddUser_def)
qed

lemma DeleteUser_live:
  "az_agrees view a \<Longrightarrow> az_users a n \<noteq> None \<Longrightarrow> \<exists>a'. az_DeleteUser T n a = (a', None)"
  using write_delete_live [of "\<lambda>e. e" "\<lambda>e. e" "\<lambda>e. e" n "az_db a"] by (auto simp: az_DeleteUser_def az_deleteUser_def)

lemma UpdateUser_live:
  "az_agrees view a \<Longrightarrow> az_users a (user_ID u) \<noteq> None \<Longrightarrow> \<exists>a'. az_UpdateUser T u a = (a', None)"
proof -
  assume a: "az_agrees view a" "az_users a (user_ID u) \<noteq> None"
  then obtain u' where u': "az_users a (user_ID u) = Some u'" by auto
  from a have "view (az_db a) (user_ID u) \<noteq> None" by (simp add: view_None)
  from write_update_live [OF this] obtain d where
    "az_updateUser T (user_ID u) (u'\<lparr>au_Projects := user_Projects u\<rparr>) (az_db a) = (d, None)"
    unfolding az_updateUser_def by blast
  with u' show ?thesis by (simp add: az_UpdateUser_def)
qed

lemma exec_refines:
  assumes "az_exec T x a = (a', r)" "az_agrees view a"
  shows "az_agrees view a' \<and> (r = None \<longleftrightarrow> grant_ok x (grants a))
    \<and> grants a' = (if grant_ok x (grants a) then grant_step x (grants a) else grants a)"
proof (cases x)
  case (AzAdd u)
  then show ?thesis using assms AddUser_cases [of u a a' r] AddUser_live [of a u]
    by (cases r) (auto simp: grants_def)
next
  case (AzDelete n)
  then show ?thesis using assms DeleteUser_cases [of n a a' r] DeleteUser_live [of a n]
    by (cases r) (auto simp: grants_def)
next
  case (AzUpdate u)
  show ?thesis
  proof (cases "az_users a (user_ID u)")
    case None
    then show ?thesis using assms AzUpdate by (auto simp: az_UpdateUser_def)
  next
    case Some
    then show ?thesis using assms AzUpdate UpdateUser_cases [of u a a' r] UpdateUser_live [of a u] by auto
  qed
qed

lemma run_refines:
  "az_run T ops a = (a', rs) \<Longrightarrow> az_agrees view a \<Longrightarrow>
   az_agrees view a' \<and> grant_run ops (grants a) = (grants a', map (\<lambda>(x, r). r = None) rs)"
proof (induction ops arbitrary: a rs)
  case (Cons x ops)
  obtain a1 r where x: "az_exec T x a = (a1, r)" by (cases "az_exec T x a")
  obtain rs' where rs: "az_run T ops a1 = (a', rs')" "rs = (x, r) # rs'"
    using Cons.prems(1) x by (auto split: prod.splits)
  note e = exec_refines [OF x Cons.prems(2)]
  then have "az_agrees view a'" "grant_run ops (grants a1) = (grants a', map (\<lambda>(x, r). r = None) rs')"
    using Cons.IH [OF rs(1)] by simp_all
  with e rs(2) show ?case by (simp split: prod.splits)
qed simp

lemma New_live: "agrees view Json m d \<Longrightarrow> \<exists>a. az_New T d = Inr a \<and> (m Administrator \<noteq> None \<longrightarrow> az_users a = m)"
  using read_list_live [of "\<lambda>e. e" "\<lambda>e. e" d] loadUsers_agrees [of m d] by (auto simp: az_New_def Let_def)

end

text \<open>The authorizer is a registry of users that protects nobody.\<close>

sublocale az_live \<subseteq> az_reg: user_registry "\<lambda>a. az_agrees view a" "\<lambda>a. dom (az_users a)" user_ID
  "az_AddUser T" "az_DeleteUser T" "\<lambda>n. False"
proof unfold_locales
  fix s u s' r
  assume a: "az_agrees view s" "az_AddUser T u s = (s', r)"
  have "az_agrees view s' \<and> (r = None \<longleftrightarrow> grant_ok (AzAdd u) (grants s)) \<and> dom (grants s') = insert (user_ID u) (dom (grants s))"
    using exec_refines [of "AzAdd u" s s' r] a by (simp add: insert_absorb domIff)
  then show "az_agrees view s' \<and> (r = None \<longleftrightarrow> user_ID u \<notin> dom (az_users s)) \<and> dom (az_users s') = insert (user_ID u) (dom (az_users s))"
    by (simp add: dom_grants domIff)
next
  fix s n s' r
  assume a: "az_agrees view s" "az_DeleteUser T n s = (s', r)"
  have "az_agrees view s' \<and> (r = None \<longleftrightarrow> grant_ok (AzDelete n) (grants s)) \<and> dom (grants s') = dom (grants s) - {n}"
    using exec_refines [of "AzDelete n" s s' r] a by (auto simp: domIff)
  then show "az_agrees view s' \<and> (r = None \<longleftrightarrow> n \<in> dom (az_users s) \<and> \<not> False) \<and>
      dom (az_users s') = (if False then dom (az_users s) else dom (az_users s) - {n})"
    by (simp add: dom_grants domIff)
qed

interpretation az_mem: az_live mem_table map_of "\<lambda>(d, t). map_of t"
  by unfold_locales

lemma az_liveI: "kv_live T view txview \<Longrightarrow> az_live T view txview"
  by (simp add: az_live_def az_laws_def kv_live_def)

section \<open>Properties\<close>

text \<open>
  C22. On a table that does not fail the authorizer implements the map of grants: after any sequence
  of requests exactly the requests the specification allows have succeeded, the permissions are
  those of the specified grants (the administrator is always permitted), and a restart reads the
  same users back.
\<close>

theorem authorizer_refines_grants:
  assumes "kv_live T view txview"
    and "agrees view Json (az_users a) (az_db a)"
    and "az_run T ops a = (a', rs)"
    and "grant_run ops (grants a) = (g, oks)"
  shows "map (\<lambda>(x, r). r = None) rs = oks
    \<and> (\<forall>u c n. Authorize a' u c n \<longleftrightarrow> permits g u c n)
    \<and> (\<exists>b. az_New T (az_db a') = Inr b \<and> (az_HasUser a' Administrator \<longrightarrow> az_users b = az_users a'))"
proof -
  note L = az_liveI [OF assms(1)]
  have r: "agrees view Json (az_users a') (az_db a')" "g = grants a'" "oks = map (\<lambda>(x, r). r = None) rs"
    using az_live.run_refines [OF L assms(3,2)] assms(4) by simp_all
  show ?thesis
    using r(2,3) az_live.New_live [OF L r(1)] by (auto simp: Authorize_permits az_HasUser_def)
qed

text \<open>
  A write error: an addition or a deletion that reports an error changes neither the users nor
  the stored contents, but an update that reports an error has already replaced the projects in
  memory; the running process grants the new projects and a restart falls back to the old ones.
\<close>

theorem authorizer_write_errors:
  assumes "kv_laws T view txview"
    and "agrees view Json (az_users a) (az_db a)"
  shows "(\<forall>a' e. az_AddUser T u a = (a', Some e) \<longrightarrow> az_users a' = az_users a \<and> view (az_db a') = view (az_db a))
    \<and> (\<forall>a' e. az_DeleteUser T n a = (a', Some e) \<longrightarrow> az_users a' = az_users a \<and> view (az_db a') = view (az_db a))
    \<and> (\<forall>a' e. az_UpdateUser T u a = (a', Some e) \<longrightarrow> az_HasUser a (user_ID u) \<longrightarrow>
         grants a' (user_ID u) = Some (user_Projects u) \<and> view (az_db a') = view (az_db a))"
proof -
  have L: "az_laws T view txview" using assms(1) by (simp add: az_laws_def)
  show ?thesis
    using az_laws.AddUser_cases [OF L _ assms(2)] az_laws.DeleteUser_cases [OF L _ assms(2)]
      az_laws.UpdateUser_cases [OF L _ assms(2)]
    by (auto simp: az_HasUser_def)
qed

text \<open>A user for the examples.\<close>

definition sample_user :: "string \<Rightarrow> project list \<Rightarrow> user" where
  "sample_user n ps =
     \<lparr>user_ID = n, user_CreationTimestamp = 5, user_DeletionTimestamp = 0, user_Name = n,
      user_Password = ''pw'', user_Projects = ps\<rparr>"

definition sample_project :: project where
  "sample_project = \<lparr>prj_Cluster = ''local'', prj_Namespace = ''default''\<rparr>"

definition sample_authorizer :: "auth_user json mem_db authorizer" where
  "sample_authorizer =
     (let u = \<lparr>au_Projects = [], au_CreationTimestamp = 5, au_DeletionTimestamp = 0\<rparr>
      in \<lparr>az_users = [Administrator \<mapsto> u, ''bob'' \<mapsto> u], az_db = [(Administrator, Json u), (''bob'', Json u)]\<rparr>)"

lemma sample_agrees: "agrees map_of Json (az_users sample_authorizer) (az_db sample_authorizer)"
  by (auto simp: agrees_def sample_authorizer_def Let_def)

theorem authorizer_refines_grants_witness:
  "\<exists>a' rs. az_run mem_table [AzUpdate (sample_user ''bob'' [sample_project]), AzAdd (sample_user ''bob'' [])] sample_authorizer = (a', rs)
    \<and> map (\<lambda>(x, r). r = None) rs = [True, False]
    \<and> Authorize a' ''bob'' ''local'' ''default'' \<and> \<not> Authorize a' ''bob'' ''local'' ''kube-system''
    \<and> (\<exists>b. az_New mem_table (az_db a') = Inr b)"
proof -
  let ?ops = "[AzUpdate (sample_user ''bob'' [sample_project]), AzAdd (sample_user ''bob'' [])]"
  obtain a' rs where r: "az_run mem_table ?ops sample_authorizer = (a', rs)" by fastforce
  have g: "grant_run ?ops (grants sample_authorizer)
      = ((grants sample_authorizer)(''bob'' \<mapsto> [sample_project]), [True, False])"
    by (simp add: sample_authorizer_def sample_user_def Let_def grants_def)
  from authorizer_refines_grants [OF mem.kv_live_axioms sample_agrees r g] r show ?thesis
    by (auto simp: permits_def covers_def sample_project_def)
qed

theorem authorizer_write_errors_witness:
  "\<exists>a'. az_UpdateUser full_table (sample_user ''bob'' [sample_project]) sample_authorizer = (a', Some ''disk full'')
    \<and> grants a' ''bob'' = Some [sample_project] \<and> map_of (az_db a') = map_of (az_db sample_authorizer)"
proof -
  obtain a' where u: "az_UpdateUser full_table (sample_user ''bob'' [sample_project]) sample_authorizer = (a', Some ''disk full'')"
    by (simp add: az_UpdateUser_def az_updateUser_def kv_write_def full_table_def sample_authorizer_def sample_user_def Let_def)
  have "az_HasUser sample_authorizer ''bob''" by (simp add: az_HasUser_def sample_authorizer_def Let_def)
  with authorizer_write_errors [OF full.kv_laws_axioms sample_agrees, of "sample_user ''bob'' [sample_project]" "''bob''"] u
  show ?thesis by (auto simp: sample_user_def)
qed

end
