(* ===== verification/JwtAuth.thy ===== *)
theory JwtAuth
  imports Session CachedTable Authorizer
begin

text \<open>
  Password authentication (\<^verbatim>\<open>pkg/authentication/jwt\<close>): the tokens of \<^verbatim>\<open>token.go\<close>, the
  registry of passwords of \<^verbatim>\<open>authenticator.go\<close> and \<^verbatim>\<open>db.go\<close>, and the handlers that log a
  user in and out. The library \<^verbatim>\<open>jwt-go\<close> is a record of three operations; \<open>jwt_laws\<close> says
  what is relied on: a signed token decodes to the claims that were signed and its signature
  verifies with the same secret. Times in this theory are nanoseconds since 1970.
\<close>

section \<open>Tokens\<close>

text \<open>
  The value of a claim after decoding: a JSON number (its integer part, which is all the program
  uses), a string, or anything else.
\<close>

datatype claim = ClaimNum int | ClaimStr string | ClaimOther

datatype sign_method = HMAC string | OtherMethod string

type_synonym claims = "(string \<times> claim) list"

record jwt_lib =
  jwtSign :: "sign_method \<Rightarrow> string \<Rightarrow> claims \<Rightarrow> goerr + string"
  jwtDecode :: "string \<Rightarrow> (sign_method \<times> claims) option"
  jwtVerify :: "sign_method \<Rightarrow> string \<Rightarrow> string \<Rightarrow> bool"

record token_repo =
  tr_secret :: string
  tr_validDuration :: int

abbreviation ErrInvalidToken :: goerr where "ErrInvalidToken \<equiv> ''token isn't valid''"
abbreviation ErrExpiredToken :: goerr where "ErrExpiredToken \<equiv> ''token is expired''"
abbreviation UserKey :: string where "UserKey \<equiv> ''user''"
abbreviation ExpireKey :: string where "ExpireKey \<equiv> ''expireAt''"

abbreviation nanos :: "int" where "nanos \<equiv> 1000000000"

definition expireAt :: "token_repo \<Rightarrow> int \<Rightarrow> int" where
  "expireAt r now = (now + tr_validDuration r) div nanos"

definition repo_CreateToken :: "jwt_lib \<Rightarrow> token_repo \<Rightarrow> int \<Rightarrow> string \<Rightarrow> goerr + string" where
  "repo_CreateToken J r now user =
     jwtSign J (HMAC ''HS256'') (tr_secret r) [(UserKey, ClaimStr user), (ExpireKey, ClaimNum (expireAt r now))]"

definition ParseToken :: "jwt_lib \<Rightarrow> token_repo \<Rightarrow> int \<Rightarrow> string \<Rightarrow> goerr + string" where
  "ParseToken J r now tokenRaw =
     (case jwtDecode J tokenRaw of
        Some (HMAC h, claims) \<Rightarrow>
          if \<not> jwtVerify J (HMAC h) (tr_secret r) tokenRaw then Inl ErrInvalidToken
          else (case map_of claims ExpireKey of
                  Some (ClaimNum expire) \<Rightarrow>
                    if now > expire * nanos then Inl ErrExpiredToken
                    else (case map_of claims UserKey of
                            Some (ClaimStr user) \<Rightarrow> if user = '''' then Inl ErrInvalidToken else Inr user
                          | _ \<Rightarrow> Inl ErrInvalidToken)
                | _ \<Rightarrow> Inl ErrInvalidToken)
      | _ \<Rightarrow> Inl ErrInvalidToken)"

definition RenewToken :: "jwt_lib \<Rightarrow> token_repo \<Rightarrow> int \<Rightarrow> string \<Rightarrow> goerr + string" where
  "RenewToken J r now tokenRaw =
     (case ParseToken J r now tokenRaw of Inl e \<Rightarrow> Inl e | Inr user \<Rightarrow> repo_CreateToken J r now user)"

text \<open>
  Integers are exact in a 64-bit float up to 2 to the 53; the round trip of the claims through JSON
  is assumed for these only.
\<close>

fun claim_exact :: "claim \<Rightarrow> bool" where
  "claim_exact (ClaimNum i) \<longleftrightarrow> \<bar>i\<bar> \<le> 2 ^ 53"
| "claim_exact c \<longleftrightarrow> c \<noteq> ClaimOther"

locale jwt_laws =
  fixes J :: jwt_lib
  assumes sign_decode: "jwtSign J m secret cs = Inr raw \<Longrightarrow> list_all (claim_exact \<circ> snd) cs \<Longrightarrow> jwtDecode J raw = Some (m, cs)"
    and sign_verify: "jwtSign J m secret cs = Inr raw \<Longrightarrow> jwtVerify J m secret raw"
    and sign_nonempty: "jwtSign J m secret cs = Inr raw \<Longrightarrow> raw \<noteq> ''''"
begin

text \<open>A token names its user until the second in which it expires.\<close>

lemma token_parses:
  assumes "repo_CreateToken J r now user = Inr raw" "user \<noteq> ''''" "\<bar>expireAt r now\<bar> \<le> 2 ^ 53"
  shows "ParseToken J r now' raw = (if now' > expireAt r now * nanos then Inl ErrExpiredToken else Inr user)"
  using assms sign_decode [of "HMAC ''HS256''" "tr_secret r"] sign_verify [of "HMAC ''HS256''" "tr_secret r"]
  by (simp add: repo_CreateToken_def ParseToken_def)

end

section \<open>The registry of passwords\<close>

record 'd jwt_auth =
  ja_users :: "string \<rightharpoonup> string"
  ja_sessions :: session_mgr
  ja_db :: 'd

type_synonym ('d, 'tx) jwt_table = "('d, 'tx, string) kvzoo"

abbreviation AdminPasswd :: string where "AdminPasswd \<equiv> ''0192309fba8c6f0929b5b00867ebccac9a39e34e''"
abbreviation JwtSessionCookieName :: string where "JwtSessionCookieName \<equiv> ''_jwt_session''"

definition tokenRepo :: token_repo where
  "tokenRepo = \<lparr>tr_secret = ''hello single cloud'', tr_validDuration = 24 * 3600 * nanos\<rparr>"

definition jwt_loadUsers :: "('d, 'tx) jwt_table \<Rightarrow> 'd \<Rightarrow> goerr + (string \<rightharpoonup> string)" where
  "jwt_loadUsers T d = (case plain_list T d of Inl e \<Rightarrow> Inl e | Inr kvs \<Rightarrow> Inr (map_of kvs))"

definition jwt_addUser :: "('d, 'tx) jwt_table \<Rightarrow> user \<Rightarrow> 'd \<Rightarrow> 'd \<times> goerr option" where
  "jwt_addUser T u = plain_add T (user_ID u) (user_Password u)"

definition jwt_deleteUser :: "('d, 'tx) jwt_table \<Rightarrow> string \<Rightarrow> 'd \<Rightarrow> 'd \<times> goerr option" where
  "jwt_deleteUser T name = plain_delete T name"

definition jwt_updateUser :: "('d, 'tx) jwt_table \<Rightarrow> string \<Rightarrow> string \<Rightarrow> 'd \<Rightarrow> 'd \<times> goerr option" where
  "jwt_updateUser T name password = plain_update T name password"

definition jwt_AddUser :: "('d, 'tx) jwt_table \<Rightarrow> user \<Rightarrow> 'd jwt_auth \<Rightarrow> 'd jwt_auth \<times> goerr option" where
  "jwt_AddUser T u a =
     (let name = user_ID u
      in case ja_users a name of
           Some _ \<Rightarrow> (a, Some (''user '' @ name @ '' already exists''))
         | None \<Rightarrow>
             (case jwt_addUser T u (ja_db a) of
                (d, Some e) \<Rightarrow> (a\<lparr>ja_db := d\<rparr>, Some e)
              | (d, None) \<Rightarrow> (a\<lparr>ja_db := d, ja_users := (ja_users a)(name \<mapsto> user_Password u)\<rparr>, None)))"

definition jwt_HasUser :: "'d jwt_auth \<Rightarrow> string \<Rightarrow> bool" where
  "jwt_HasUser a name \<longleftrightarrow> ja_users a name \<noteq> None"

definition jwt_DeleteUser :: "('d, 'tx) jwt_table \<Rightarrow> string \<Rightarrow> 'd jwt_auth \<Rightarrow> 'd jwt_auth \<times> goerr option" where
  "jwt_DeleteUser T name a =
     (if name = Administrator then (a, Some ''admin user cann't be deleted'')
      else (case ja_users a name of
              Some _ \<Rightarrow>
                (case jwt_deleteUser T name (ja_db a) of
                   (d, Some e) \<Rightarrow> (a\<lparr>ja_db := d\<rparr>, Some e)
                 | (d, None) \<Rightarrow> (a\<lparr>ja_db := d, ja_users := (ja_users a)(name := None)\<rparr>, None))
            | None \<Rightarrow> (a, Some (''user '' @ name @ '' doesn't exist''))))"

definition jwt_ResetPassword ::
  "('d, 'tx) jwt_table \<Rightarrow> string \<Rightarrow> string \<Rightarrow> string \<Rightarrow> bool \<Rightarrow> 'd jwt_auth \<Rightarrow> 'd jwt_auth \<times> goerr option" where
  "jwt_ResetPassword T name old new force a =
     (case ja_users a name of
        None \<Rightarrow> (a, Some (''user '' @ name @ '' doesn't exist''))
      | Some old' \<Rightarrow>
          if \<not> force \<and> old' \<noteq> old then (a, Some ''password isn't correct'')
          else if new = '''' then (a, Some ''new password is empty'')
          else (case jwt_updateUser T name new (ja_db a) of
                  (d, Some e) \<Rightarrow> (a\<lparr>ja_db := d\<rparr>, Some e)
                | (d, None) \<Rightarrow> (a\<lparr>ja_db := d, ja_users := (ja_users a)(name \<mapsto> new)\<rparr>, None)))"

definition jwt_CreateToken :: "jwt_lib \<Rightarrow> int \<Rightarrow> string \<Rightarrow> string \<Rightarrow> 'd jwt_auth \<Rightarrow> goerr + string" where
  "jwt_CreateToken J now name password a =
     (case ja_users a name of
        None \<Rightarrow> Inl (''user '' @ name @ '' doesn't exist'')
      | Some password' \<Rightarrow>
          if password \<noteq> password' then Inl ''password isn't correct''
          else repo_CreateToken J tokenRepo now name)"

definition adminAccount :: user where
  "adminAccount =
     \<lparr>user_ID = Administrator, user_CreationTimestamp = 0, user_DeletionTimestamp = 0,
      user_Name = Administrator, user_Password = AdminPasswd, user_Projects = []\<rparr>"

definition jwt_NewAuthenticator :: "('d, 'tx) jwt_table \<Rightarrow> 'd \<Rightarrow> goerr + 'd jwt_auth" where
  "jwt_NewAuthenticator T d =
     (case jwt_loadUsers T d of
        Inl e \<Rightarrow> Inl e
      | Inr users \<Rightarrow>
          (let a = \<lparr>ja_users = users, ja_sessions = session_New JwtSessionCookieName, ja_db = d\<rparr>
           in if users Administrator = None then Inr (fst (jwt_AddUser T adminAccount a)) else Inr a))"

section \<open>Handlers\<close>

definition getFromHeader :: "http_request \<Rightarrow> string" where
  "getFromHeader req =
     (let reqToken = get_first (rq_headers req) ''Authorization''
      in if reqToken = '''' then ''''
         else (case split reqToken ''Bearer '' of
                 [_, token] \<Rightarrow> token
               | _ \<Rightarrow> ''''))"

definition jwt_Authenticate :: "jwt_lib \<Rightarrow> int \<Rightarrow> http_request \<Rightarrow> 'd jwt_auth \<Rightarrow> api_error + string" where
  "jwt_Authenticate J now req a =
     (let session = GetSession (ja_sessions a) req;
          token = (if session = '''' then getFromHeader req else session)
      in if token = '''' then Inr ''''
         else (case ParseToken J tokenRepo now token of
                 Inl e \<Rightarrow> Inl (APIError ServerError e)
               | Inr user \<Rightarrow> Inr user))"

definition jwt_Login ::
  "jwt_lib \<Rightarrow> int \<Rightarrow> string \<Rightarrow> http_request \<Rightarrow> 'd jwt_auth \<Rightarrow> 'd jwt_auth \<times> http_out list" where
  "jwt_Login J now sessionKey r a =
     (case rq_login r of
        Inl e \<Rightarrow> (a, [WriteError (APIError InvalidFormat e)])
      | Inr body \<Rightarrow>
          (case json_unmarshal body of
             Inl _ \<Rightarrow> (a, [WriteError (APIError InvalidFormat ''login param not valid'')])
           | Inr params \<Rightarrow>
               (case jwt_CreateToken J now (lp_name params) (lp_password params) a of
                  Inl e \<Rightarrow> (a, [WriteError (APIError InvalidFormat e)])
                | Inr token \<Rightarrow>
                    (let (mgr, _, outs) = AddSession sessionKey (ja_sessions a) r token
                     in (a\<lparr>ja_sessions := mgr\<rparr>, outs)))))"

definition jwt_Logout :: "http_request \<Rightarrow> 'd jwt_auth \<Rightarrow> 'd jwt_auth \<times> http_out list" where
  "jwt_Logout r a =
     (case rq_user r of
        None \<Rightarrow> (a, [])
      | Some _ \<Rightarrow> (let (mgr, outs) = ClearSession (ja_sessions a) r in (a\<lparr>ja_sessions := mgr\<rparr>, outs)))"

section \<open>The registry against its table\<close>

abbreviation jwt_agrees :: "('d \<Rightarrow> string \<rightharpoonup> string) \<Rightarrow> 'd jwt_auth \<Rightarrow> bool" where
  "jwt_agrees view a \<equiv> agrees view (\<lambda>p. p) (ja_users a) (ja_db a)"

locale jwt_reg_laws = kv_laws T view txview
  for T :: "('d, 'tx) jwt_table" and view :: "'d \<Rightarrow> string \<rightharpoonup> string" and txview :: "'tx \<Rightarrow> string \<rightharpoonup> string"
begin

lemma AddUser_cases:
  assumes "jwt_AddUser T u a = (a', r)" "jwt_agrees view a"
  shows "jwt_agrees view a' \<and> ja_sessions a' = ja_sessions a
    \<and> (if r = None then ja_users a (user_ID u) = None \<and> ja_users a' = (ja_users a)(user_ID u \<mapsto> user_Password u)
       else ja_users a' = ja_users a)"
  using assms
  by (auto simp: jwt_AddUser_def jwt_addUser_def Let_def dest: agrees_add [where enc = "\<lambda>p. p"]
      split: option.splits prod.splits)

lemma DeleteUser_cases:
  assumes "jwt_DeleteUser T n a = (a', r)" "jwt_agrees view a"
  shows "jwt_agrees view a' \<and> ja_sessions a' = ja_sessions a
    \<and> (if r = None then ja_users a n \<noteq> None \<and> n \<noteq> Administrator \<and> ja_users a' = (ja_users a)(n := None)
       else ja_users a' = ja_users a)"
  using assms
  by (auto simp: jwt_DeleteUser_def jwt_deleteUser_def dest: agrees_delete [where enc = "\<lambda>p. p"]
      split: option.splits prod.splits if_splits)

lemma ResetPassword_cases:
  assumes "jwt_ResetPassword T n old new force a = (a', r)" "jwt_agrees view a"
  shows "jwt_agrees view a' \<and> ja_sessions a' = ja_sessions a
    \<and> (if r = None then ja_users a n \<noteq> None \<and> (force \<or> ja_users a n = Some old) \<and> new \<noteq> ''''
           \<and> ja_users a' = (ja_users a)(n \<mapsto> new)
       else ja_users a' = ja_users a)"
  using assms
  by (auto simp: jwt_ResetPassword_def jwt_updateUser_def dest: agrees_update [where enc = "\<lambda>p. p"]
      split: option.splits prod.splits if_splits)

lemma loadUsers_eq: "agrees view (\<lambda>p. p) m d \<Longrightarrow> plain_list T d = Inr kvs \<Longrightarrow> jwt_loadUsers T d = Inr m"
  using agrees_list [of "\<lambda>p. p" m d kvs] by (simp add: jwt_loadUsers_def option.map_ident comp_def)

end

locale jwt_reg_live = jwt_reg_laws T view txview + kv_live T view txview
  for T :: "('d, 'tx) jwt_table" and view :: "'d \<Rightarrow> string \<rightharpoonup> string" and txview :: "'tx \<Rightarrow> string \<rightharpoonup> string"
begin

lemma view_None: "jwt_agrees view a \<Longrightarrow> view (ja_db a) n = None \<longleftrightarrow> ja_users a n = None"
  by (simp add: agrees_def)

lemma AddUser_live:
  assumes "jwt_agrees view a" "ja_users a (user_ID u) = None"
  shows "\<exists>a'. jwt_AddUser T u a = (a', None)"
proof -
  have "view (ja_db a) (user_ID u) = None" using assms by (simp add: view_None)
  from write_add_live [OF this] obtain d where "jwt_addUser T u (ja_db a) = (d, None)"
    unfolding jwt_addUser_def by blast
  with assms(2) show ?thesis by (simp add: jwt_AddUser_def)
qed

lemma DeleteUser_live:
  assumes "jwt_agrees view a" "ja_users a n \<noteq> None" "n \<noteq> Administrator"
  shows "\<exists>a'. jwt_DeleteUser T n a = (a', None)"
  using write_delete_live [of "\<lambda>e. e" "\<lambda>e. e" "\<lambda>e. e" n "ja_db a"] assms by (auto simp: jwt_DeleteUser_def jwt_deleteUser_def)

lemma ResetPassword_live:
  assumes "jwt_agrees view a" "ja_users a n = Some p" "force \<or> p = old" "new \<noteq> ''''"
  shows "\<exists>a'. jwt_ResetPassword T n old new force a = (a', None)"
proof -
  have "view (ja_db a) n \<noteq> None" using assms by (simp add: view_None)
  from write_update_live [OF this] obtain d where "jwt_updateUser T n new (ja_db a) = (d, None)"
    unfolding jwt_updateUser_def by blast
  with assms show ?thesis by (auto simp: jwt_ResetPassword_def)
qed

lemma New_live:
  "agrees view (\<lambda>p. p) m d \<Longrightarrow> \<exists>a. jwt_NewAuthenticator T d = Inr a \<and> (m Administrator \<noteq> None \<longrightarrow> ja_users a = m)"
  using read_list_live [of "\<lambda>e. e" "\<lambda>e. e" d] loadUsers_eq [of m d] by (auto simp: jwt_NewAuthenticator_def Let_def)

end

text \<open>The registry of passwords is a registry of users that protects the administrator.\<close>

sublocale jwt_reg_live \<subseteq> jwt_reg: user_registry "\<lambda>a. jwt_agrees view a" "\<lambda>a. dom (ja_users a)" user_ID
  "jwt_AddUser T" "jwt_DeleteUser T" "\<lambda>n. n = Administrator"
proof unfold_locales
  fix s u s' r
  assume "jwt_agrees view s" "jwt_AddUser T u s = (s', r)"
  then show "jwt_agrees view s' \<and> (r = None \<longleftrightarrow> user_ID u \<notin> dom (ja_users s)) \<and> dom (ja_users s') = insert (user_ID u) (dom (ja_users s))"
    using AddUser_cases [of u s s' r] AddUser_live [of s u] by (cases "r = None") (auto simp: domIff)
next
  fix s n s' r
  assume "jwt_agrees view s" "jwt_DeleteUser T n s = (s', r)"
  then show "jwt_agrees view s' \<and> (r = None \<longleftrightarrow> n \<in> dom (ja_users s) \<and> \<not> n = Administrator) \<and>
      dom (ja_users s') = (if n = Administrator then dom (ja_users s) else dom (ja_users s) - {n})"
    using DeleteUser_cases [of n s s' r] DeleteUser_live [of s n] by (cases "r = None") (auto simp: domIff)
qed

interpretation jwt_mem: jwt_reg_live mem_table map_of "\<lambda>(d, t). map_of t"
  by unfold_locales

lemma jwt_reg_liveI: "kv_live T view txview \<Longrightarrow> jwt_reg_live T view txview"
  by (simp add: jwt_reg_live_def jwt_reg_laws_def kv_live_def)

section \<open>A token library\<close>

text \<open>
  A library that satisfies the laws: a token is the list of its parts, encoded with an escape
  character so that it can be read back.
\<close>

fun enc_str :: "string \<Rightarrow> string" where
  "enc_str [] = ''.''"
| "enc_str (c # cs) = (if c = CHR ''.'' \<or> c = CHR ''!'' then CHR ''!'' # c # enc_str cs else c # enc_str cs)"

fun dec_str :: "string \<Rightarrow> (string \<times> string) option" where
  "dec_str [] = None"
| "dec_str (c # cs) =
     (if c = CHR ''.'' then Some ([], cs)
      else if c = CHR ''!'' then
        (case cs of [] \<Rightarrow> None | d # ds \<Rightarrow> map_option (\<lambda>(x, rest). (d # x, rest)) (dec_str ds))
      else map_option (\<lambda>(x, rest). (c # x, rest)) (dec_str cs))"

lemma dec_enc_str [simp]: "dec_str (enc_str s @ t) = Some (s, t)"
  by (induction s) auto

fun enc_claim :: "claim \<Rightarrow> string" where
  "enc_claim (ClaimNum i) = CHR ''n'' # enc_str (itoa i)"
| "enc_claim (ClaimStr s) = CHR ''s'' # enc_str s"
| "enc_claim ClaimOther = CHR ''o'' # enc_str ''''"

definition dec_claim :: "string \<Rightarrow> (claim \<times> string) option" where
  "dec_claim s =
     (case s of
        [] \<Rightarrow> None
      | c # cs \<Rightarrow>
          (case dec_str cs of
             None \<Rightarrow> None
           | Some (x, rest) \<Rightarrow>
               if c = CHR ''n'' then map_option (\<lambda>i. (ClaimNum i, rest)) (atoi x)
               else if c = CHR ''s'' then Some (ClaimStr x, rest)
               else Some (ClaimOther, rest)))"

lemma dec_enc_claim: "claim_exact c \<Longrightarrow> dec_claim (enc_claim c @ t) = Some (c, t)"
  by (cases c) (auto simp: dec_claim_def atoi_itoa)

fun enc_claims :: "claims \<Rightarrow> string" where
  "enc_claims [] = []"
| "enc_claims ((k, c) # cs) = enc_str k @ enc_claim c @ enc_claims cs"

text \<open>The length of the text bounds the number of claims.\<close>

fun dec_claims :: "nat \<Rightarrow> string \<Rightarrow> claims option" where
  "dec_claims _ [] = Some []"
| "dec_claims 0 _ = None"
| "dec_claims (Suc n) s =
     (case dec_str s of
        None \<Rightarrow> None
      | Some (k, s') \<Rightarrow>
          (case dec_claim s' of
             None \<Rightarrow> None
           | Some (c, s'') \<Rightarrow> map_option ((#) (k, c)) (dec_claims n s'')))"

lemma enc_str_nonempty [simp]: "enc_str s \<noteq> []"
  by (cases s) auto

lemma dec_enc_claims:
  "list_all (claim_exact \<circ> snd) cs \<Longrightarrow> length (enc_claims cs) \<le> n \<Longrightarrow> dec_claims n (enc_claims cs) = Some cs"
proof (induction cs arbitrary: n)
  case (Cons kc cs)
  obtain k c where kc: "kc = (k, c)" by (cases kc)
  obtain m where n: "n = Suc m" using Cons.prems(2) kc by (cases n) auto
  have "length (enc_str k) > 0" by simp
  then have "length (enc_claims cs) \<le> m" using Cons.prems(2) kc n by (simp del: length_greater_0_conv)
  then have "dec_claims m (enc_claims cs) = Some cs" using Cons by simp
  moreover obtain x xs where "enc_str k = x # xs" by (cases "enc_str k") simp_all
  moreover have "dec_claim (enc_claim c @ enc_claims cs) = Some (c, enc_claims cs)"
    using Cons.prems(1) kc by (intro dec_enc_claim) simp
  moreover have "dec_str (enc_str k @ enc_claim c @ enc_claims cs) = Some (k, enc_claim c @ enc_claims cs)" by simp
  ultimately show ?case unfolding kc n by simp
qed simp

fun enc_method :: "sign_method \<Rightarrow> string" where
  "enc_method (HMAC h) = CHR ''h'' # enc_str h"
| "enc_method (OtherMethod h) = CHR ''m'' # enc_str h"

definition plain_decode :: "string \<Rightarrow> (sign_method \<times> string \<times> claims) option" where
  "plain_decode raw =
     (case raw of
        [] \<Rightarrow> None
      | k # raw' \<Rightarrow>
          (case dec_str raw' of
             None \<Rightarrow> None
           | Some (h, raw'') \<Rightarrow>
               (case dec_str raw'' of
                  None \<Rightarrow> None
                | Some (secret, raw''') \<Rightarrow>
                    map_option (\<lambda>cs. (if k = CHR ''h'' then HMAC h else OtherMethod h, secret, cs))
                      (dec_claims (length raw''') raw'''))))"

definition plain_jwt :: jwt_lib where
  "plain_jwt =
     \<lparr>jwtSign = (\<lambda>m secret cs.
        if list_all (claim_exact \<circ> snd) cs then Inr (enc_method m @ enc_str secret @ enc_claims cs) else Inl ''claim''),
      jwtDecode = (\<lambda>raw. map_option (\<lambda>(m, secret, cs). (m, cs)) (plain_decode raw)),
      jwtVerify = (\<lambda>m key raw. case plain_decode raw of Some (m', key', _) \<Rightarrow> m' = m \<and> key' = key | None \<Rightarrow> False)\<rparr>"

lemma plain_decode_sign:
  "list_all (claim_exact \<circ> snd) cs \<Longrightarrow> plain_decode (enc_method m @ enc_str secret @ enc_claims cs) = Some (m, secret, cs)"
  by (cases m) (simp_all add: plain_decode_def dec_enc_claims)

interpretation plain_jwt: jwt_laws plain_jwt
  by unfold_locales (auto simp: plain_jwt_def plain_decode_sign split: if_splits)

section \<open>Specification: a map of passwords\<close>

datatype jwt_op = JwtAdd user | JwtDelete string | JwtReset string string string bool

fun jwt_exec :: "('d, 'tx) jwt_table \<Rightarrow> jwt_op \<Rightarrow> 'd jwt_auth \<Rightarrow> 'd jwt_auth \<times> goerr option" where
  "jwt_exec T (JwtAdd u) a = jwt_AddUser T u a"
| "jwt_exec T (JwtDelete n) a = jwt_DeleteUser T n a"
| "jwt_exec T (JwtReset n old new force) a = jwt_ResetPassword T n old new force a"

fun jwt_run :: "('d, 'tx) jwt_table \<Rightarrow> jwt_op list \<Rightarrow> 'd jwt_auth \<Rightarrow> 'd jwt_auth \<times> bool list" where
  "jwt_run T [] a = (a, [])"
| "jwt_run T (x # xs) a =
     (let (a', r) = jwt_exec T x a; (a'', oks) = jwt_run T xs a' in (a'', (r = None) # oks))"

fun password_ok :: "jwt_op \<Rightarrow> (string \<rightharpoonup> string) \<Rightarrow> bool" where
  "password_ok (JwtAdd u) m \<longleftrightarrow> m (user_ID u) = None"
| "password_ok (JwtDelete n) m \<longleftrightarrow> m n \<noteq> None \<and> n \<noteq> Administrator"
| "password_ok (JwtReset n old new force) m \<longleftrightarrow> m n \<noteq> None \<and> (force \<or> m n = Some old) \<and> new \<noteq> ''''"

fun password_step :: "jwt_op \<Rightarrow> (string \<rightharpoonup> string) \<Rightarrow> string \<rightharpoonup> string" where
  "password_step (JwtAdd u) m = m(user_ID u \<mapsto> user_Password u)"
| "password_step (JwtDelete n) m = m(n := None)"
| "password_step (JwtReset n old new force) m = m(n \<mapsto> new)"

fun password_run :: "jwt_op list \<Rightarrow> (string \<rightharpoonup> string) \<Rightarrow> (string \<rightharpoonup> string) \<times> bool list" where
  "password_run [] m = (m, [])"
| "password_run (x # xs) m =
     (let (m', oks) = password_run xs (if password_ok x m then password_step x m else m)
      in (m', password_ok x m # oks))"

context jwt_reg_live
begin

lemma exec_refines:
  assumes "jwt_exec T x a = (a', r)" "jwt_agrees view a"
  shows "jwt_agrees view a' \<and> ja_sessions a' = ja_sessions a \<and> (r = None \<longleftrightarrow> password_ok x (ja_users a))
    \<and> ja_users a' = (if password_ok x (ja_users a) then password_step x (ja_users a) else ja_users a)"
proof (cases x)
  case (JwtAdd u)
  then show ?thesis using assms AddUser_cases [of u a a' r] AddUser_live [of a u] by (cases r) auto
next
  case (JwtDelete n)
  then show ?thesis using assms DeleteUser_cases [of n a a' r] DeleteUser_live [of a n] by (cases r) auto
next
  case (JwtReset n old new force)
  then show ?thesis using assms ResetPassword_cases [of n old new force a a' r] ResetPassword_live [of a n _ force old new]
    by (cases r) auto
qed

lemma run_refines:
  "jwt_run T ops a = (a', oks) \<Longrightarrow> jwt_agrees view a \<Longrightarrow>
   jwt_agrees view a' \<and> password_run ops (ja_users a) = (ja_users a', oks)"
proof (induction ops arbitrary: a oks)
  case (Cons x ops)
  obtain a1 r where x: "jwt_exec T x a = (a1, r)" by (cases "jwt_exec T x a")
  obtain oks' where rs: "jwt_run T ops a1 = (a', oks')" "oks = (r = None) # oks'"
    using Cons.prems(1) x by (auto split: prod.splits)
  note e = exec_refines [OF x Cons.prems(2)]
  then have "jwt_agrees view a' \<and> password_run ops (ja_users a1) = (ja_users a', oks')"
    by (intro Cons.IH [OF rs(1)]) blast
  with e rs(2) show ?case by (simp split: prod.splits)
qed simp

end

section \<open>Properties\<close>

text \<open>
  C26. On a table that does not fail the registry implements a map of passwords: after any sequence
  of additions, deletions and password changes exactly the specified requests have succeeded, a
  token is issued to a user exactly with the user's current password (given that the library
  signs), the administrator is never deleted, and a restart reads the same passwords back.
\<close>

theorem jwt_registry_refines_passwords:
  assumes "kv_live T view txview"
    and "agrees view (\<lambda>p. p) (ja_users a) (ja_db a)"
    and "jwt_run T ops a = (a', oks')"
    and "password_run ops (ja_users a) = (m, oks)"
    and "\<forall>n. \<exists>raw. repo_CreateToken J tokenRepo now n = Inr raw"
  shows "oks' = oks
    \<and> (\<forall>n p. (\<exists>raw. jwt_CreateToken J now n p a' = Inr raw) \<longleftrightarrow> m n = Some p)
    \<and> (jwt_HasUser a Administrator \<longrightarrow> jwt_HasUser a' Administrator)
    \<and> (\<exists>b. jwt_NewAuthenticator T (ja_db a') = Inr b \<and> (jwt_HasUser a' Administrator \<longrightarrow> ja_users b = m))"
proof -
  note L = jwt_reg_liveI [OF assms(1)]
  have r: "agrees view (\<lambda>p. p) (ja_users a') (ja_db a')" "m = ja_users a'" "oks' = oks"
    using jwt_reg_live.run_refines [OF L assms(3,2)] assms(4) by simp_all
  have "password_run ops n = (n', os) \<Longrightarrow> n Administrator \<noteq> None \<Longrightarrow> n' Administrator \<noteq> None" for n n' os
  proof (induction ops arbitrary: n n' os)
    case (Cons x ops)
    then show ?case by (cases x) (auto split: prod.splits if_splits)
  qed simp
  from this [OF assms(4)] have "jwt_HasUser a Administrator \<longrightarrow> jwt_HasUser a' Administrator"
    by (simp add: jwt_HasUser_def r(2))
  moreover have "(\<exists>raw. jwt_CreateToken J now n p a' = Inr raw) \<longleftrightarrow> m n = Some p" for n p
    using assms(5) by (auto simp: jwt_CreateToken_def r(2) split: option.splits)
  ultimately show ?thesis
    using r(2,3) jwt_reg_live.New_live [OF L r(1)] by (auto simp: jwt_HasUser_def)
qed

text \<open>Logging in with the right password.\<close>

lemma login_authenticates:
  assumes "jwt_laws J" "rq_login r = Inr (Json \<lparr>lp_name = name, lp_password = pw\<rparr>)"
    and "ja_users a name = Some pw" "name \<noteq> ''''" "0 \<le> now" "now \<le> 2 ^ 62"
    and "repo_CreateToken J tokenRepo now name = Inr raw"
    and "jwt_Login J now key r a = (a', outs)"
    and "rq_cookies q = browser outs cookies"
  shows "\<exists>mgr r'. AddSession key (ja_sessions a) r raw = (mgr, r', outs) \<and> a' = a\<lparr>ja_sessions := mgr\<rparr>"
    and "jwt_Authenticate J t q a' =
      (if t > expireAt tokenRepo now * nanos then Inl (APIError ServerError ErrExpiredToken) else Inr name)"
    and "now + 24 * 3600 * nanos - nanos < expireAt tokenRepo now * nanos"
    and "expireAt tokenRepo now * nanos \<le> now + 24 * 3600 * nanos"
proof -
  let ?e = "expireAt tokenRepo now"
  show e: "?e * nanos \<le> now + 24 * 3600 * nanos" "now + 24 * 3600 * nanos - nanos < ?e * nanos"
    using assms(5,6) by (simp_all add: expireAt_def tokenRepo_def)
  have "\<bar>?e\<bar> \<le> 2 ^ 53" using assms(5,6) by (simp add: expireAt_def tokenRepo_def)
  then have p: "ParseToken J tokenRepo t raw = (if t > ?e * nanos then Inl ErrExpiredToken else Inr name)" for t
    by (rule jwt_laws.token_parses [OF assms(1,7,4)])
  have raw: "raw \<noteq> ''''" using jwt_laws.sign_nonempty [OF assms(1)] assms(7) by (auto simp: repo_CreateToken_def)
  show s: "\<exists>mgr r'. AddSession key (ja_sessions a) r raw = (mgr, r', outs) \<and> a' = a\<lparr>ja_sessions := mgr\<rparr>"
    using assms(2,3,7,8) by (auto simp: jwt_Login_def jwt_CreateToken_def split: prod.splits)
  then obtain mgr r' where s: "AddSession key (ja_sessions a) r raw = (mgr, r', outs)" "a' = a\<lparr>ja_sessions := mgr\<rparr>" by blast
  show "jwt_Authenticate J t q a' = (if t > ?e * nanos then Inl (APIError ServerError ErrExpiredToken) else Inr name)"
    using AddSession_GetSession [OF s(1) assms(9)] raw p s(2) by (simp add: jwt_Authenticate_def)
qed


definition sample_jwt :: "string mem_db jwt_auth" where
  "sample_jwt =
     \<lparr>ja_users = [Administrator \<mapsto> AdminPasswd, ''bob'' \<mapsto> ''pw''], ja_sessions = session_New JwtSessionCookieName,
      ja_db = [(Administrator, AdminPasswd), (''bob'', ''pw'')]\<rparr>"

definition sample_request :: http_request where
  "sample_request =
     \<lparr>rq_path = ''/web/login'', rq_host = ''sc'', rq_query = [], rq_tls = False, rq_headers = [], rq_cookies = [],
      rq_user = None, rq_login = Inr (Json \<lparr>lp_name = ''bob'', lp_password = ''pw''\<rparr>)\<rparr>"

lemma sample_jwt_agrees: "agrees map_of (\<lambda>p. p) (ja_users sample_jwt) (ja_db sample_jwt)"
  by (auto simp: agrees_def sample_jwt_def)

lemma plain_jwt_signs:
  "0 \<le> now \<Longrightarrow> now \<le> 2 ^ 62 \<Longrightarrow> \<exists>raw. repo_CreateToken plain_jwt tokenRepo now n = Inr raw"
  by (simp add: repo_CreateToken_def plain_jwt_def expireAt_def tokenRepo_def)

theorem jwt_registry_refines_passwords_witness:
  "\<exists>a'. jwt_run mem_table [JwtReset ''bob'' ''pw'' ''new'' False, JwtReset ''bob'' ''pw'' ''x'' False, JwtDelete Administrator] sample_jwt
      = (a', [True, False, False])
    \<and> (\<exists>raw. jwt_CreateToken plain_jwt 0 ''bob'' ''new'' a' = Inr raw)
    \<and> \<not> (\<exists>raw. jwt_CreateToken plain_jwt 0 ''bob'' ''pw'' a' = Inr raw)
    \<and> (\<exists>b. jwt_NewAuthenticator mem_table (ja_db a') = Inr b)"
proof -
  let ?ops = "[JwtReset ''bob'' ''pw'' ''new'' False, JwtReset ''bob'' ''pw'' ''x'' False, JwtDelete Administrator]"
  obtain a' oks where r: "jwt_run mem_table ?ops sample_jwt = (a', oks)" by fastforce
  have p: "password_run ?ops (ja_users sample_jwt) = ((ja_users sample_jwt)(''bob'' \<mapsto> ''new''), [True, False, False])"
    by (simp add: sample_jwt_def)
  have s: "\<forall>n. \<exists>raw. repo_CreateToken plain_jwt tokenRepo 0 n = Inr raw" using plain_jwt_signs [of 0] by simp
  note R = jwt_registry_refines_passwords [OF mem.kv_live_axioms sample_jwt_agrees r p s]
  have t: "(\<exists>raw. jwt_CreateToken plain_jwt 0 ''bob'' q a' = Inr raw) \<longleftrightarrow> q = ''new''" for q
    using spec [OF spec [OF conjunct1 [OF conjunct2 [OF R]]], of "''bob''" q] by auto
  show ?thesis using R r t [of "''pw''"] t [of "''new''"] by blast
qed


end
