(* ===== verification/CasAuth.thy ===== *)
theory CasAuth
  imports Session
begin

text \<open>
  Authentication by a CAS server (\<^verbatim>\<open>pkg/authentication/cas\<close>): reading its answer to a ticket
  (\<^verbatim>\<open>service_response.go\<close>, \<^verbatim>\<open>xml_service_response.go\<close>), the store of accepted tickets
  (\<^verbatim>\<open>memory_store.go\<close>) and the client (\<^verbatim>\<open>client.go\<close>, \<^verbatim>\<open>authenticator.go\<close>). The server's
  HTTP answers and the YAML library are arguments. An answer whose text is not XML is an error of
  the decoder (\<open>Inl\<close>), else the decoded record.
\<close>

section \<open>The answer of the server\<close>

record xml_attributes =
  xa_AuthenticationDate :: time
  xa_LongTermToken :: bool
  xa_IsFromNewLogin :: bool
  xa_MemberOf :: "string list"
  xa_UserAttributes :: "((string \<times> string) list \<times> (string \<times> string) list) option"
  xa_ExtraAttributes :: "(string \<times> string) list"

record xml_success =
  xs_User :: string
  xs_ProxyGrantingTicket :: string
  xs_Proxies :: "string list option"
  xs_Attributes :: "xml_attributes option"
  xs_ExtraAttributes :: "(string \<times> string) list"

record xml_service_response =
  xr_Failure :: "(string \<times> string) option"
  xr_Success :: "xml_success option"

type_synonym user_attributes = "string \<rightharpoonup> string list"

record auth_response =
  ar_User :: string
  ar_ProxyGrantingTicket :: string
  ar_Proxies :: "string list"
  ar_AuthenticationDate :: time
  ar_IsNewLogin :: bool
  ar_IsRememberedLogin :: bool
  ar_MemberOf :: "string list"
  ar_Attributes :: user_attributes

text \<open>\<open>Get\<close> reads the first value; it panics on a key with an empty list.\<close>

definition attr_Get :: "user_attributes \<Rightarrow> string \<Rightarrow> string outcome" where
  "attr_Get a name =
     (case a name of
        None \<Rightarrow> Done ''''
      | Some [] \<Rightarrow> Panicked ''index out of range''
      | Some (v # _) \<Rightarrow> Done v)"

definition attr_Add :: "string \<Rightarrow> string \<Rightarrow> user_attributes \<Rightarrow> user_attributes" where
  "attr_Add name v a = a(name \<mapsto> (case a name of None \<Rightarrow> [] | Some vs \<Rightarrow> vs) @ [v])"

definition attr_Add_all :: "(string \<times> string) list \<Rightarrow> user_attributes \<Rightarrow> user_attributes" where
  "attr_Add_all kvs a = foldl (\<lambda>a (k, v). attr_Add k v a) a kvs"

text \<open>What \<^verbatim>\<open>yaml.v2\<close> decodes a value to, as far as the program distinguishes it.\<close>

datatype yaml_value = YString string | YSlice "yaml_value list" | YNil | YOther

text \<open>\<open>reflect.TypeOf\<close> of a nil value is nil, and asking it for its kind panics.\<close>

fun ruby_slice :: "string \<Rightarrow> yaml_value list \<Rightarrow> user_attributes \<Rightarrow> user_attributes outcome" where
  "ruby_slice key [] a = Done a"
| "ruby_slice key (YString s # es) a = ruby_slice key es (attr_Add key s a)"
| "ruby_slice key (YNil # es) a = Panicked ''nil pointer dereference''"
| "ruby_slice key (_ # es) a = ruby_slice key es a"

definition addRubycasAttribute ::
  "(string \<Rightarrow> goerr + yaml_value) \<Rightarrow> string \<Rightarrow> string \<Rightarrow> user_attributes \<Rightarrow> user_attributes outcome" where
  "addRubycasAttribute yaml key v a =
     (if \<not> hasPrefix v ''---'' then Done (attr_Add key v a)
      else if v = ''--- true'' then Done (attr_Add key ''true'' a)
      else if v = ''--- false'' then Done (attr_Add key ''false'' a)
      else (case yaml v of
              Inl e \<Rightarrow> Done (attr_Add key e a)
            | Inr (YSlice es) \<Rightarrow> ruby_slice key es a
            | Inr (YString s) \<Rightarrow> Done (attr_Add key s a)
            | Inr YNil \<Rightarrow> Panicked ''nil pointer dereference''
            | Inr YOther \<Rightarrow> Done a))"

fun ruby_all ::
  "(string \<Rightarrow> goerr + yaml_value) \<Rightarrow> (string \<times> string) list \<Rightarrow> user_attributes \<Rightarrow> user_attributes outcome" where
  "ruby_all yaml [] a = Done a"
| "ruby_all yaml ((k, v) # kvs) a =
     (case addRubycasAttribute yaml k (trimSpace v) a of
        Panicked m \<Rightarrow> Panicked m
      | Done a' \<Rightarrow> ruby_all yaml kvs a')"

definition trimmed :: "(string \<times> string) list \<Rightarrow> (string \<times> string) list" where
  "trimmed kvs = map (\<lambda>(k, v). (k, trimSpace v)) kvs"

text \<open>The attributes inside the element \<^verbatim>\<open>attributes\<close>, in the order in which they are added.\<close>

definition xml_pairs :: "xml_attributes \<Rightarrow> (string \<times> string) list" where
  "xml_pairs a =
     (case xa_UserAttributes a of
        None \<Rightarrow> []
      | Some (named, others) \<Rightarrow> trimmed (filter (\<lambda>(n, v). n \<noteq> '''') named) @ trimmed others)
     @ trimmed (xa_ExtraAttributes a)"

definition ParseServiceResponse ::
  "(string \<Rightarrow> goerr + yaml_value) \<Rightarrow> goerr + xml_service_response \<Rightarrow> (goerr + auth_response) outcome" where
  "ParseServiceResponse yaml data =
     (case data of
        Inl e \<Rightarrow> Done (Inl e)
      | Inr x \<Rightarrow>
          (case xr_Failure x of
             Some (code, msg) \<Rightarrow> Done (Inl (code @ '': '' @ trimSpace msg))
           | None \<Rightarrow>
               (case xr_Success x of
                  None \<Rightarrow> Panicked ''nil pointer dereference''
                | Some s \<Rightarrow>
                    (let r0 = \<lparr>ar_User = xs_User s, ar_ProxyGrantingTicket = xs_ProxyGrantingTicket s,
                               ar_Proxies = (case xs_Proxies s of None \<Rightarrow> [] | Some p \<Rightarrow> p),
                               ar_AuthenticationDate = 0, ar_IsNewLogin = False, ar_IsRememberedLogin = False,
                               ar_MemberOf = [], ar_Attributes = Map.empty\<rparr>;
                         r = (case xs_Attributes s of
                                None \<Rightarrow> r0
                              | Some a \<Rightarrow> r0\<lparr>ar_AuthenticationDate := xa_AuthenticationDate a,
                                             ar_IsRememberedLogin := xa_LongTermToken a,
                                             ar_IsNewLogin := xa_IsFromNewLogin a, ar_MemberOf := xa_MemberOf a,
                                             ar_Attributes := attr_Add_all (xml_pairs a) Map.empty\<rparr>)
                     in case ruby_all yaml (xs_ExtraAttributes s) (ar_Attributes r) of
                          Panicked m \<Rightarrow> Panicked m
                        | Done attrs \<Rightarrow> Done (Inr (r\<lparr>ar_Attributes := attrs\<rparr>))))))"

section \<open>The store of tickets\<close>

type_synonym memory_store = "string \<rightharpoonup> auth_response"

definition store_Read :: "memory_store \<Rightarrow> string \<Rightarrow> auth_response option" where
  "store_Read s ticket = s ticket"

definition store_Write :: "string \<Rightarrow> auth_response \<Rightarrow> memory_store \<Rightarrow> memory_store" where
  "store_Write ticket r s = s(ticket \<mapsto> r)"

definition store_Delete :: "string \<Rightarrow> memory_store \<Rightarrow> memory_store" where
  "store_Delete ticket s = s(ticket := None)"

section \<open>The client\<close>

record cas_body =
  cb_text :: string
  cb_xml :: "goerr + xml_service_response"

text \<open>
  The server: the answer to a ticket on the page \<^verbatim>\<open>serviceValidate\<close> and on the older
  \<^verbatim>\<open>validate\<close>, for the service a request names: an error before an answer, or a status and a
  body that can be read or not.
\<close>

record cas_server =
  casServiceValidate :: "string \<Rightarrow> url \<Rightarrow> goerr + (nat \<times> (goerr + cas_body))"
  casValidate :: "string \<Rightarrow> url \<Rightarrow> goerr + (nat \<times> (goerr + string))"
  casYaml :: "string \<Rightarrow> goerr + yaml_value"

record cas_client =
  cc_tickets :: memory_store
  cc_sessions :: session_mgr

abbreviation CasSessionCookieName :: string where "CasSessionCookieName \<equiv> ''_cas_session''"

definition cas_NewClient :: cas_client where
  "cas_NewClient = \<lparr>cc_tickets = Map.empty, cc_sessions = session_New CasSessionCookieName\<rparr>"

definition encode_query :: "(string \<times> string) list \<Rightarrow> string list \<Rightarrow> (string \<times> string) list" where
  "encode_query q clean = sort_key fst (filter (\<lambda>(k, v). k \<notin> set clean) q)"

definition requestURL :: "http_request \<Rightarrow> url" where
  "requestURL r =
     \<lparr>url_scheme =
        (let scheme = get_first (rq_headers r) ''X-Forwarded-Proto''
         in if scheme \<noteq> '''' then scheme else if rq_tls r then ''https'' else ''http''),
      url_host = rq_host r, url_path = rq_path r, url_query = rq_query r\<rparr>"

definition sanitisedURL :: "url \<Rightarrow> url" where
  "sanitisedURL u = u\<lparr>url_query := encode_query (url_query u) [''gateway'', ''renew'', ''service'', ''ticket'']\<rparr>"

text \<open>The service that login and logout return to: the request's URL with another path.\<close>

definition casUrlForRequest :: "http_request \<Rightarrow> string \<Rightarrow> url" where
  "casUrlForRequest r service = sanitisedURL ((requestURL r)\<lparr>url_path := service\<rparr>)"

definition validateTicketCas1 ::
  "cas_server \<Rightarrow> string \<Rightarrow> http_request \<Rightarrow> cas_client \<Rightarrow> cas_client \<times> goerr option outcome" where
  "validateTicketCas1 S ticket r c =
     (case casValidate S ticket (sanitisedURL (requestURL r)) of
        Inl e \<Rightarrow> (c, Done (Some e))
      | Inr (_, Inl e) \<Rightarrow> (c, Done (Some e))
      | Inr (status, Inr body) \<Rightarrow>
          if status \<noteq> 200 then (c, Done (Some (''cas: validate ticket: '' @ body)))
          else if body = ''no'' @ [CHR 0x0A, CHR 0x0A] then (c, Done None)
          else if length body < 5 then (c, Panicked ''slice bounds out of range'')
          else (c\<lparr>cc_tickets := store_Write ticket
                   \<lparr>ar_User = drop 4 (take (length body - 1) body), ar_ProxyGrantingTicket = '''', ar_Proxies = [],
                    ar_AuthenticationDate = 0, ar_IsNewLogin = False, ar_IsRememberedLogin = False,
                    ar_MemberOf = [], ar_Attributes = Map.empty\<rparr> (cc_tickets c)\<rparr>, Done None))"

definition validateTicket ::
  "cas_server \<Rightarrow> string \<Rightarrow> http_request \<Rightarrow> cas_client \<Rightarrow> cas_client \<times> goerr option outcome" where
  "validateTicket S ticket r c =
     (case casServiceValidate S ticket (sanitisedURL (requestURL r)) of
        Inl e \<Rightarrow> (c, Done (Some e))
      | Inr (status, body) \<Rightarrow>
          if status = 404 then validateTicketCas1 S ticket r c
          else (case body of
                  Inl e \<Rightarrow> (c, Done (Some e))
                | Inr b \<Rightarrow>
                    if status \<noteq> 200 then (c, Done (Some (''cas: validate ticket: '' @ cb_text b)))
                    else (case ParseServiceResponse (casYaml S) (cb_xml b) of
                            Panicked m \<Rightarrow> (c, Panicked m)
                          | Done (Inl e) \<Rightarrow> (c, Done (Some e))
                          | Done (Inr success) \<Rightarrow>
                              (c\<lparr>cc_tickets := store_Write ticket success (cc_tickets c)\<rparr>, Done None))))"

definition GetAuthResponse ::
  "http_request \<Rightarrow> cas_client \<Rightarrow> cas_client \<times> (goerr + auth_response) \<times> http_out list" where
  "GetAuthResponse r c =
     (let ticket = GetSession (cc_sessions c) r
      in case store_Read (cc_tickets c) ticket of
           None \<Rightarrow>
             (let (mgr, outs) = ClearSession (cc_sessions c) r
              in (c\<lparr>cc_sessions := mgr\<rparr>, Inl ''invalid ticket'', outs))
         | Some resp \<Rightarrow> (c, Inr resp, []))"

definition SaveTicket ::
  "cas_server \<Rightarrow> string \<Rightarrow> http_request \<Rightarrow> cas_client \<Rightarrow> cas_client \<times> http_out list \<times> goerr option outcome" where
  "SaveTicket S sessionKey r c =
     (let ticket = get_first (rq_query r) ''ticket''
      in if ticket = '''' then (c, [], Done (Some ''url has no ticket''))
         else (case validateTicket S ticket r c of
                 (c', Panicked m) \<Rightarrow> (c', [], Panicked m)
               | (c', Done (Some e)) \<Rightarrow> (c', [], Done (Some e))
               | (c', Done None) \<Rightarrow>
                   (let (mgr, _, outs) = AddSession sessionKey (cc_sessions c') r ticket
                    in (c'\<lparr>cc_sessions := mgr\<rparr>, outs, Done None))))"

definition RemoveTicket :: "http_request \<Rightarrow> cas_client \<Rightarrow> cas_client \<times> http_out list" where
  "RemoveTicket r c =
     (let ticket = GetSession (cc_sessions c) r;
          c' = (if ticket \<noteq> '''' then c\<lparr>cc_tickets := store_Delete ticket (cc_tickets c)\<rparr> else c);
          (mgr, outs) = ClearSession (cc_sessions c') r
      in (c'\<lparr>cc_sessions := mgr\<rparr>, outs))"

definition RedirectToLogout :: "http_request \<Rightarrow> string \<Rightarrow> cas_client \<Rightarrow> cas_client \<times> http_out list" where
  "RedirectToLogout r service c =
     (let (mgr, outs) = ClearSession (cc_sessions c) r
      in (c\<lparr>cc_sessions := mgr\<rparr>, outs @ [RedirectCas ''logout'' (casUrlForRequest r service)]))"

definition RedirectToLogin :: "http_request \<Rightarrow> string \<Rightarrow> http_out list" where
  "RedirectToLogin r service = [RedirectCas ''login'' (casUrlForRequest r service)]"

section \<open>The authenticator\<close>

definition cas_Authenticate :: "http_request \<Rightarrow> cas_client \<Rightarrow> cas_client \<times> string \<times> http_out list" where
  "cas_Authenticate r c =
     (case GetAuthResponse r c of
        (c', Inl _, outs) \<Rightarrow> (c', '''', outs)
      | (c', Inr resp, outs) \<Rightarrow> (c', ar_User resp, outs))"

definition cas_Logout :: "http_request \<Rightarrow> cas_client \<Rightarrow> cas_client \<times> http_out list" where
  "cas_Logout r c =
     (let (c1, outs1) = RemoveTicket r c; (c2, outs2) = RedirectToLogout r '''' c1 in (c2, outs1 @ outs2))"

section \<open>Attributes\<close>

text \<open>The values a list of pairs gives a key, in order; a key without pairs is not in the map.\<close>

definition values_of :: "(string \<times> string) list \<Rightarrow> string \<Rightarrow> string list" where
  "values_of kvs k = map snd (filter (\<lambda>kv. fst kv = k) kvs)"

definition grouped :: "(string \<times> string) list \<Rightarrow> user_attributes" where
  "grouped kvs k = (if values_of kvs k = [] then None else Some (values_of kvs k))"

lemma attr_Add_grouped: "attr_Add k v (grouped kvs) = grouped (kvs @ [(k, v)])"
  by (rule ext) (auto simp: attr_Add_def grouped_def values_of_def)

lemma attr_Add_all_grouped: "attr_Add_all kvs (grouped kvs') = grouped (kvs' @ kvs)"
proof (induction kvs arbitrary: kvs')
  case (Cons kv kvs)
  obtain k v where "kv = (k, v)" by (cases kv)
  then show ?case using Cons [of "kvs' @ [(k, v)]"] by (simp add: attr_Add_all_def attr_Add_grouped)
qed (simp add: attr_Add_all_def)

lemma grouped_Nil: "grouped [] = Map.empty"
  by (rule ext) (simp add: grouped_def values_of_def)

lemma ruby_all_plain:
  "\<forall>(k, v) \<in> set kvs. \<not> hasPrefix (trimSpace v) ''---'' \<Longrightarrow> ruby_all yaml kvs (grouped kvs') = Done (grouped (kvs' @ trimmed kvs))"
proof (induction kvs arbitrary: kvs')
  case (Cons kv kvs)
  obtain k v where kv: "kv = (k, v)" by (cases kv)
  show ?case using Cons.prems Cons.IH [of "kvs' @ [(k, trimSpace v)]"]
    by (simp add: kv addRubycasAttribute_def attr_Add_grouped trimmed_def)
qed (simp add: trimmed_def)

section \<open>Properties\<close>

text \<open>
  Reading an accepted ticket: unless an extra attribute is a YAML document, the answer of the
  server is read without panic, names the user, and its attributes are exactly the attributes of
  the answer, trimmed, each with its values in document order.
\<close>

theorem cas_response_attributes:
  assumes "xr_Failure x = None" "xr_Success x = Some s"
    and "\<forall>(k, v) \<in> set (xs_ExtraAttributes s). \<not> hasPrefix (trimSpace v) ''---''"
  shows "\<exists>r. ParseServiceResponse yaml (Inr x) = Done (Inr r) \<and> ar_User r = xs_User s
    \<and> ar_Attributes r = grouped ((case xs_Attributes s of None \<Rightarrow> [] | Some a \<Rightarrow> xml_pairs a) @ trimmed (xs_ExtraAttributes s))"
proof -
  have "ruby_all yaml (xs_ExtraAttributes s) Map.empty = Done (grouped (trimmed (xs_ExtraAttributes s)))"
    using ruby_all_plain [OF assms(3), of yaml "[]"] by (simp add: grouped_Nil)
  moreover have "ruby_all yaml (xs_ExtraAttributes s) (attr_Add_all kvs Map.empty) = Done (grouped (kvs @ trimmed (xs_ExtraAttributes s)))" for kvs
    using ruby_all_plain [OF assms(3), of yaml kvs] attr_Add_all_grouped [of kvs "[]"] by (simp add: grouped_Nil)
  ultimately show ?thesis
    using assms(1,2) by (cases "xs_Attributes s") (simp_all add: ParseServiceResponse_def Let_def)
qed

definition sample_success :: xml_success where
  "sample_success =
     \<lparr>xs_User = ''ann'', xs_ProxyGrantingTicket = '''', xs_Proxies = None,
      xs_Attributes = Some \<lparr>xa_AuthenticationDate = 7, xa_LongTermToken = False, xa_IsFromNewLogin = True,
        xa_MemberOf = [], xa_UserAttributes = None, xa_ExtraAttributes = [(''mail'', ''a@b'')]\<rparr>,
      xs_ExtraAttributes = [(''mail'', ''c@d'')]\<rparr>"

theorem cas_response_attributes_witness:
  "\<exists>r. ParseServiceResponse (\<lambda>s. Inl s) (Inr \<lparr>xr_Failure = None, xr_Success = Some sample_success\<rparr>) = Done (Inr r)
    \<and> ar_User r = ''ann'' \<and> ar_Attributes r ''mail'' = Some [''a@b'', ''c@d'']"
proof -
  have t: "trimSpace ''a@b'' = ''a@b''" "trimSpace ''c@d'' = ''c@d''" by (simp_all add: trimSpace_plain)
  have "\<forall>(k, v) \<in> set (xs_ExtraAttributes sample_success). \<not> hasPrefix (trimSpace v) ''---''"
    by (simp add: sample_success_def t hasPrefix_def)
  from cas_response_attributes [OF _ _ this, of "\<lparr>xr_Failure = None, xr_Success = Some sample_success\<rparr>" "\<lambda>s. Inl s"]
  obtain r where "ParseServiceResponse (\<lambda>s. Inl s) (Inr \<lparr>xr_Failure = None, xr_Success = Some sample_success\<rparr>) = Done (Inr r)"
    "ar_User r = ''ann''" "ar_Attributes r = grouped [(''mail'', ''a@b''), (''mail'', ''c@d'')]"
    by (auto simp: sample_success_def xml_pairs_def trimmed_def t)
  then show ?thesis by (auto simp: grouped_def values_of_def)
qed

text \<open>
  C29. A CAS session: when the server accepts the ticket of the redirected browser, the browser gets
  a cookie that authenticates the user the server named; after the logout the same cookie, even if
  it is kept, authenticates nobody, and other tickets are not affected.
\<close>

theorem cas_session_lifecycle:
  assumes "get_first (rq_query r) ''ticket'' = ticket" "ticket \<noteq> ''''"
    and "casServiceValidate S ticket (sanitisedURL (requestURL r)) = Inr (200, Inr b)"
    and "ParseServiceResponse (casYaml S) (cb_xml b) = Done (Inr resp)"
    and "SaveTicket S key r c = (c', outs, res)"
    and "rq_cookies q = browser outs cookies"
    and "cas_Logout q c' = (c'', outs')"
    and "rq_cookies q' = rq_cookies q" "cc_tickets c '''' = None"
  shows "res = Done None \<and> cas_Authenticate q c' = (c', ar_User resp, [])
    \<and> fst (snd (cas_Authenticate q' c'')) = ''''
    \<and> (\<forall>t. t \<noteq> ticket \<longrightarrow> cc_tickets c'' t = cc_tickets c t)"
proof -
  let ?mgr = "(cc_sessions c)\<lparr>sm_sessions := (sm_sessions (cc_sessions c))(key \<mapsto> ticket)\<rparr>"
  let ?c = "\<lparr>cc_tickets = (cc_tickets c)(ticket \<mapsto> resp), cc_sessions = ?mgr\<rparr>"
  have "SaveTicket S key r c = (?c, [SetCookie (sm_key ?mgr) key 0], Done None)"
    using assms(1-4) by (simp add: SaveTicket_def validateTicket_def store_Write_def AddSession_def Let_def)
  then have s: "res = Done None" "c' = ?c" "outs = [SetCookie (sm_key (cc_sessions c)) key 0]" using assms(5) by simp_all
  then have g: "GetSession (cc_sessions ?c) q = ticket" "map_of (rq_cookies q) (sm_key (cc_sessions c)) = Some key"
    using assms(6) by (simp_all add: GetSession_def)
  then have "cas_Authenticate q c' = (c', ar_User resp, [])"
    using s(2) by (simp add: cas_Authenticate_def GetAuthResponse_def store_Read_def)
  moreover have c'': "cc_tickets c'' = (cc_tickets c')(ticket := None)"
      "GetSession (cc_sessions c'') q' = ''''"
    using assms(2,7,8) s(2) g
    by (auto simp: cas_Logout_def RemoveTicket_def RedirectToLogout_def store_Delete_def ClearSession_def GetSession_def Let_def split: if_splits)
  moreover have "fst (snd (cas_Authenticate q' c'')) = ''''"
    using c'' assms(2,9) s(2) by (simp add: cas_Authenticate_def GetAuthResponse_def store_Read_def split: prod.splits)
  ultimately show ?thesis using s by simp
qed

definition sample_server :: cas_server where
  "sample_server =
     \<lparr>casServiceValidate = (\<lambda>t u. Inr (200, Inr \<lparr>cb_text = '''',
        cb_xml = Inr \<lparr>xr_Failure = None, xr_Success = Some (sample_success\<lparr>xs_Attributes := None, xs_ExtraAttributes := []\<rparr>)\<rparr>\<rparr>)),
      casValidate = (\<lambda>t u. Inl ''unused''), casYaml = (\<lambda>s. Inl s)\<rparr>"

definition cas_request :: http_request where
  "cas_request =
     \<lparr>rq_path = ''/web/casredirect'', rq_host = ''sc'', rq_query = [(''ticket'', ''ST-1'')], rq_tls = False,
      rq_headers = [], rq_cookies = [], rq_user = None, rq_login = Inl ''no body''\<rparr>"

theorem cas_session_lifecycle_witness:
  "\<exists>c' outs. SaveTicket sample_server ''k1'' cas_request cas_NewClient = (c', outs, Done None)
    \<and> cas_Authenticate (cas_request\<lparr>rq_cookies := browser outs []\<rparr>) c' = (c', ''ann'', [])"
proof -
  obtain c' outs res where s: "SaveTicket sample_server ''k1'' cas_request cas_NewClient = (c', outs, res)"
    by (metis prod.collapse)
  let ?q = "cas_request\<lparr>rq_cookies := browser outs []\<rparr>"
  obtain c'' outs' where o: "cas_Logout ?q c' = (c'', outs')" by fastforce
  have t: "get_first (rq_query cas_request) ''ticket'' = ''ST-1''" by (simp add: cas_request_def get_first_def)
  obtain b resp where b: "casServiceValidate sample_server ''ST-1'' (sanitisedURL (requestURL cas_request)) = Inr (200, Inr b)"
    "ParseServiceResponse (casYaml sample_server) (cb_xml b) = Done (Inr resp)" "ar_User resp = ''ann''"
    by (simp add: sample_server_def ParseServiceResponse_def sample_success_def Let_def)
  from cas_session_lifecycle [OF t _ b(1,2) s _ o, of "[]" ?q] s b(3) show ?thesis by (simp add: cas_NewClient_def)
qed

text \<open>
  Answers that make the reader panic: an answer with neither success nor failure, an extra
  attribute whose YAML document is null, and an answer of the old protocol shorter than five bytes.
\<close>

theorem cas_reader_panics:
  "ParseServiceResponse yaml (Inr \<lparr>xr_Failure = None, xr_Success = None\<rparr>) = Panicked ''nil pointer dereference''
   \<and> (yaml ''--- null'' = Inr YNil \<longrightarrow> addRubycasAttribute yaml k ''--- null'' a = Panicked ''nil pointer dereference'')
   \<and> (casServiceValidate S ticket (sanitisedURL (requestURL r)) = Inr (404, body) \<longrightarrow>
      casValidate S ticket (sanitisedURL (requestURL r)) = Inr (200, Inr ''yes'') \<longrightarrow>
      validateTicket S ticket r c = (c, Panicked ''slice bounds out of range''))"
  by (simp add: ParseServiceResponse_def addRubycasAttribute_def hasPrefix_def validateTicket_def validateTicketCas1_def)

theorem cas_reader_panics_witness:
  "validateTicket (sample_server\<lparr>casServiceValidate := (\<lambda>t u. Inr (404, Inl '''')), casValidate := (\<lambda>t u. Inr (200, Inr ''yes''))\<rparr>)
     ''ST-1'' cas_request cas_NewClient = (cas_NewClient, Panicked ''slice bounds out of range'')"
  using cas_reader_panics [of "\<lambda>s. Inl s" "''k''" Map.empty
      "sample_server\<lparr>casServiceValidate := (\<lambda>t u. Inr (404, Inl '''')), casValidate := (\<lambda>t u. Inr (200, Inr ''yes''))\<rparr>"
      "''ST-1''" cas_request "Inl ''''" cas_NewClient] by simp

end
