(* ===== verification/Authn.thy ===== *)
theory Authn
  imports JwtAuth CasAuth
begin

text \<open>
  The authenticator (\<^verbatim>\<open>pkg/authentication/authenticator.go\<close>) that tries the password sessions
  first and the CAS sessions second, and the web handlers and the middleware around it
  (\<^verbatim>\<open>middleware.go\<close>). A handler returns the changed authenticator, the request as the next
  handler sees it where that matters, and what it wrote.
\<close>

section \<open>The authenticator\<close>

record 'd authenticator =
  an_jwt :: "'d jwt_auth"
  an_cas :: "cas_client option"

text \<open>\<open>parse\<close> is the verdict of \<^verbatim>\<open>url.Parse\<close> on the address of the CAS server.\<close>

definition authn_New ::
  "('d, 'tx) jwt_table \<Rightarrow> (string \<Rightarrow> goerr option) \<Rightarrow> string \<Rightarrow> 'd \<Rightarrow> goerr + 'd authenticator" where
  "authn_New T parse casServer d =
     (case jwt_NewAuthenticator T d of
        Inl e \<Rightarrow> Inl e
      | Inr j \<Rightarrow>
          if casServer \<noteq> '''' then
            (case parse casServer of
               Some e \<Rightarrow> Inl e
             | None \<Rightarrow> Inr \<lparr>an_jwt = j, an_cas = Some cas_NewClient\<rparr>)
          else Inr \<lparr>an_jwt = j, an_cas = None\<rparr>)"

definition named_user :: "string \<Rightarrow> user" where
  "named_user name =
     \<lparr>user_ID = name, user_CreationTimestamp = 0, user_DeletionTimestamp = 0, user_Name = name,
      user_Password = '''', user_Projects = []\<rparr>"

definition authn_Authenticate ::
  "('d, 'tx) jwt_table \<Rightarrow> jwt_lib \<Rightarrow> int \<Rightarrow> http_request \<Rightarrow> 'd authenticator \<Rightarrow>
   'd authenticator \<times> (api_error + string) \<times> http_out list" where
  "authn_Authenticate T J now req a =
     (case jwt_Authenticate J now req (an_jwt a) of
        Inl err \<Rightarrow> (a, Inl err, [])
      | Inr user \<Rightarrow>
          if user \<noteq> '''' then (a, Inr user, [])
          else (case an_cas a of
                  None \<Rightarrow> (a, Inr '''', [])
                | Some c \<Rightarrow>
                    (let (c', user', outs) = cas_Authenticate req c;
                         j' = (if user' \<noteq> '''' \<and> \<not> jwt_HasUser (an_jwt a) user'
                               then fst (jwt_AddUser T (named_user user') (an_jwt a)) else an_jwt a)
                     in (\<lparr>an_jwt = j', an_cas = Some c'\<rparr>, Inr user', outs))))"

section \<open>Web handlers\<close>

abbreviation WebLogoutPath :: string where "WebLogoutPath \<equiv> ''/web/logout''"
abbreviation WebLoginPath :: string where "WebLoginPath \<equiv> ''/web/login''"
abbreviation WebRolePath :: string where "WebRolePath \<equiv> ''/web/role''"
abbreviation WebCASRedirectPath :: string where "WebCASRedirectPath \<equiv> ''/web/casredirect''"

definition indexPath :: "http_request \<Rightarrow> string \<Rightarrow> url" where
  "indexPath r index = (requestURL r)\<lparr>url_path := index, url_query := encode_query (rq_query r) [''ticket'', ''service'']\<rparr>"

definition web_role ::
  "jwt_lib \<Rightarrow> int \<Rightarrow> http_request \<Rightarrow> 'd authenticator \<Rightarrow> 'd authenticator \<times> http_out list" where
  "web_role J now r a =
     (let (a', user, authBy, outs) =
            (case an_cas a of
               None \<Rightarrow> (a, '''', '''', [])
             | Some c \<Rightarrow> (let (c', user, outs) = cas_Authenticate r c in (a\<lparr>an_cas := Some c'\<rparr>, user, ''CAS'', outs)));
          (user', authBy') =
            (if user = '''' then
               (case jwt_Authenticate J now r (an_jwt a') of
                  Inl _ \<Rightarrow> ('''', authBy)
                | Inr u \<Rightarrow> (u, if u \<noteq> '''' then ''JWT'' else authBy))
             else (user, authBy))
      in (a', outs @ [WriteBody 200 [(''user'', user'), (''authBy'', authBy')]]))"

definition web_casredirect ::
  "cas_server \<Rightarrow> string \<Rightarrow> http_request \<Rightarrow> 'd authenticator \<Rightarrow> 'd authenticator \<times> http_out list outcome" where
  "web_casredirect S sessionKey r a =
     (case an_cas a of
        None \<Rightarrow> (a, Done [Redirect (indexPath r ''/index'')])
      | Some c \<Rightarrow>
          (case SaveTicket S sessionKey r c of
             (c', outs, Panicked m) \<Rightarrow> (a\<lparr>an_cas := Some c'\<rparr>, Panicked m)
           | (c', outs, Done (Some e)) \<Rightarrow> (a\<lparr>an_cas := Some c'\<rparr>, Done [WriteBody 401 [(''err'', e)]])
           | (c', outs, Done None) \<Rightarrow> (a\<lparr>an_cas := Some c'\<rparr>, Done (outs @ [Redirect (indexPath r ''/index'')]))))"

definition web_login ::
  "jwt_lib \<Rightarrow> int \<Rightarrow> string \<Rightarrow> http_request \<Rightarrow> 'd authenticator \<Rightarrow> 'd authenticator \<times> http_out list" where
  "web_login J now sessionKey r a = (let (j, outs) = jwt_Login J now sessionKey r (an_jwt a) in (a\<lparr>an_jwt := j\<rparr>, outs))"

definition web_logout :: "jwt_lib \<Rightarrow> int \<Rightarrow> http_request \<Rightarrow> 'd authenticator \<Rightarrow> 'd authenticator \<times> http_out list" where
  "web_logout J now r a =
     (case jwt_Authenticate J now r (an_jwt a) of
        Inr (x # xs) \<Rightarrow> (let (j, outs) = jwt_Logout r (an_jwt a) in (a\<lparr>an_jwt := j\<rparr>, outs))
      | _ \<Rightarrow>
          (case an_cas a of
             None \<Rightarrow> (a, [])
           | Some c \<Rightarrow> (let (c', outs) = cas_Logout r c in (a\<lparr>an_cas := Some c'\<rparr>, outs))))"

section \<open>The middleware\<close>

definition authExceptionPaths :: "string list" where
  "authExceptionPaths = [''/assets'', ''/apis/ws.zcloud.cn'', WebRolePath, WebCASRedirectPath]"

definition jumpExceptionalPaths :: "string list" where
  "jumpExceptionalPaths = [''/apis'', ''/login'', ''/web'']"

text \<open>
  The middleware never stops the chain: the next handler always runs, with the returned request.
\<close>

definition authn_Middleware ::
  "('d, 'tx) jwt_table \<Rightarrow> jwt_lib \<Rightarrow> int \<Rightarrow> http_request \<Rightarrow> 'd authenticator \<Rightarrow>
   'd authenticator \<times> http_request \<times> http_out list" where
  "authn_Middleware T J now req a =
     (if list_ex (hasPrefix (rq_path req)) authExceptionPaths then (a, req, [])
      else (case authn_Authenticate T J now req a of
              (a', Inl err, outs) \<Rightarrow> (a', req, outs)
            | (a', Inr userName, outs) \<Rightarrow>
                if userName \<noteq> '''' then (a', req\<lparr>rq_user := Some userName\<rparr>, outs)
                else if list_ex (hasPrefix (rq_path req)) jumpExceptionalPaths then (a', req, outs)
                else (case an_cas a' of
                        Some _ \<Rightarrow> (a', req, outs @ RedirectToLogin req WebCASRedirectPath)
                      | None \<Rightarrow> (a', req, outs @ [Redirect (indexPath req ''/login'')]))))"

section \<open>Properties\<close>


definition cas_session_request :: http_request where
  "cas_session_request = cas_request\<lparr>rq_path := ''/index'', rq_cookies := [(CasSessionCookieName, ''k1'')]\<rparr>"

definition sample_authn :: "string mem_db authenticator" where
  "sample_authn =
     \<lparr>an_jwt = sample_jwt,
      an_cas = Some \<lparr>cc_tickets = [''ST-1'' \<mapsto>
          \<lparr>ar_User = ''ann'', ar_ProxyGrantingTicket = '''', ar_Proxies = [], ar_AuthenticationDate = 0, ar_IsNewLogin = False,
           ar_IsRememberedLogin = False, ar_MemberOf = [], ar_Attributes = Map.empty\<rparr>],
        cc_sessions = \<lparr>sm_key = CasSessionCookieName, sm_sessions = [''k1'' \<mapsto> ''ST-1'']\<rparr>\<rparr>\<rparr>"

lemma sample_authn_cas:
  "jwt_Authenticate J now cas_session_request (an_jwt sample_authn) = Inr ''''"
  "\<exists>c. an_cas sample_authn = Some c \<and> cas_Authenticate cas_session_request c = (c, ''ann'', [])"
  by (simp_all add: sample_authn_def sample_jwt_def cas_session_request_def cas_request_def jwt_Authenticate_def GetSession_def
      session_New_def getFromHeader_def get_first_def cas_Authenticate_def GetAuthResponse_def store_Read_def)


text \<open>
  A user that first arrives through CAS is entered into the registry of passwords with the empty
  password, and the login page does not refuse an empty password: from then on anybody who knows
  the name can log in as that user.
\<close>

theorem cas_user_has_empty_password:
  assumes "kv_live T view txview" "jwt_laws J"
    and "agrees view (\<lambda>p. p) (ja_users (an_jwt a)) (ja_db (an_jwt a))"
    and "jwt_Authenticate J now req (an_jwt a) = Inr ''''"
    and "an_cas a = Some c" "cas_Authenticate req c = (c', u, outs)"
    and "u \<noteq> ''''" "\<not> jwt_HasUser (an_jwt a) u"
    and "rq_login r = Inr (Json \<lparr>lp_name = u, lp_password = ''''\<rparr>)"
    and "0 \<le> now'" "now' \<le> 2 ^ 62" "repo_CreateToken J tokenRepo now' u = Inr raw"
  shows "\<exists>a'. authn_Authenticate T J now req a = (a', Inr u, outs)
    \<and> (\<exists>a'' key_outs. web_login J now' key r a' = (a'', key_outs)
        \<and> (\<forall>q. rq_cookies q = browser key_outs cookies \<longrightarrow> jwt_Authenticate J now' q (an_jwt a'') = Inr u))"
proof -
  note L = jwt_reg_liveI [OF assms(1)]
  have "ja_users (an_jwt a) (user_ID (named_user u)) = None" using assms(8) by (simp add: jwt_HasUser_def named_user_def)
  from jwt_reg_live.AddUser_live [OF L assms(3) this] obtain j where j: "jwt_AddUser T (named_user u) (an_jwt a) = (j, None)" by blast
  have u: "ja_users j u = Some ''''"
    using jwt_reg_laws.AddUser_cases [OF conjunct1 [OF L [unfolded jwt_reg_live_def]] j assms(3)] by (simp add: named_user_def)
  let ?a = "\<lparr>an_jwt = j, an_cas = Some c'\<rparr>"
  have "authn_Authenticate T J now req a = (?a, Inr u, outs)"
    using assms(4-8) j by (simp add: authn_Authenticate_def)
  moreover obtain j' key_outs where l: "jwt_Login J now' key r j = (j', key_outs)" by fastforce
  have "jwt_Authenticate J now' q j' = Inr u" if "rq_cookies q = browser key_outs cookies" for q
    using login_authenticates(2,3) [OF assms(2,9) u assms(7,10-12) l that] by simp
  with l have "\<exists>a'' key_outs. web_login J now' key r ?a = (a'', key_outs)
      \<and> (\<forall>q. rq_cookies q = browser key_outs cookies \<longrightarrow> jwt_Authenticate J now' q (an_jwt a'') = Inr u)"
    by (simp add: web_login_def)
  ultimately show ?thesis by blast
qed

theorem cas_user_has_empty_password_witness:
  "\<exists>a' a'' outs. authn_Authenticate mem_table plain_jwt 0 cas_session_request sample_authn = (a', Inr ''ann'', [])
    \<and> web_login plain_jwt 9 ''k2'' (sample_request\<lparr>rq_login := Inr (Json \<lparr>lp_name = ''ann'', lp_password = ''''\<rparr>)\<rparr>) a' = (a'', outs)
    \<and> jwt_Authenticate plain_jwt 9 (sample_request\<lparr>rq_cookies := browser outs []\<rparr>) (an_jwt a'') = Inr ''ann''"
proof -
  obtain c where c: "an_cas sample_authn = Some c" "cas_Authenticate cas_session_request c = (c, ''ann'', [])"
    using sample_authn_cas(2) by blast
  obtain raw where raw: "repo_CreateToken plain_jwt tokenRepo 9 ''ann'' = Inr raw" using plain_jwt_signs [of 9] by auto
  have j: "agrees map_of (\<lambda>p. p) (ja_users (an_jwt sample_authn)) (ja_db (an_jwt sample_authn))"
    "\<not> jwt_HasUser (an_jwt sample_authn) ''ann''"
    using sample_jwt_agrees by (simp_all add: sample_authn_def jwt_HasUser_def sample_jwt_def)
  have r: "rq_login (sample_request\<lparr>rq_login := Inr (Json \<lparr>lp_name = ''ann'', lp_password = ''''\<rparr>)\<rparr>)
      = Inr (Json \<lparr>lp_name = ''ann'', lp_password = ''''\<rparr>)" by simp
  have n: "''ann'' \<noteq> ''''" "(0 :: int) \<le> 9" "(9 :: int) \<le> 2 ^ 62" by simp_all
  from cas_user_has_empty_password [OF mem.kv_live_axioms plain_jwt.jwt_laws_axioms j(1) sample_authn_cas(1) [of plain_jwt 0]
      c n(1) j(2) r n(2,3) raw, of "''k2''" "[]"]
  obtain a' a'' outs where "authn_Authenticate mem_table plain_jwt 0 cas_session_request sample_authn = (a', Inr ''ann'', [])"
    "web_login plain_jwt 9 ''k2'' (sample_request\<lparr>rq_login := Inr (Json \<lparr>lp_name = ''ann'', lp_password = ''''\<rparr>)\<rparr>) a' = (a'', outs)"
    "\<And>q. rq_cookies q = browser outs [] \<Longrightarrow> jwt_Authenticate plain_jwt 9 q (an_jwt a'') = Inr ''ann''"
    by blast
  moreover from this(3) [of "sample_request\<lparr>rq_cookies := browser outs []\<rparr>"]
  have "jwt_Authenticate plain_jwt 9 (sample_request\<lparr>rq_cookies := browser outs []\<rparr>) (an_jwt a'') = Inr ''ann''" by simp
  ultimately show ?thesis by blast
qed

end
