(* ===== verification/UserManager.thy ===== *)
theory UserManager
  imports Authn
begin

text \<open>
  The handlers of the user resource (\<^verbatim>\<open>pkg/handler/user_manager.go\<close>), which keep the registry of
  passwords and the authorizer together, and the handler every request of the API passes first
  (\<^verbatim>\<open>authorizationHandler\<close> of \<^verbatim>\<open>cluster_manager.go\<close>). The current user of a request is what the
  middleware put into it.
\<close>

section \<open>Shared helpers of the handlers\<close>

definition getCurrentUser :: "string option \<Rightarrow> string" where
  "getCurrentUser u = (case u of None \<Rightarrow> '''' | Some n \<Rightarrow> n)"

definition isAdmin :: "string \<Rightarrow> bool" where
  "isAdmin u \<longleftrightarrow> u = Administrator"

definition HiddenNamespaces :: "string list" where
  "HiddenNamespaces = [''zcloud'', ''ingress-nginx'', ''kube-node-lease'', ''kube-public'', ''kube-system'']"

definition IsNamespaceVisiable :: "string \<Rightarrow> bool \<Rightarrow> bool" where
  "IsNamespaceVisiable ns enableDebug \<longleftrightarrow> enableDebug \<or> ns \<notin> set HiddenNamespaces"

section \<open>The user resource\<close>

datatype user_input = UserPassword string | ResetPasswordInput string string | OtherInput

record user_ctx =
  uc_current :: "string option"
  uc_resource :: user
  uc_action :: "string \<times> user_input"

record ('d, 'e) user_mgr =
  um_authenticator :: "'d jwt_auth"
  um_authorizer :: "'e authorizer"

record ('d, 'tx, 'e, 'ty) user_env =
  ue_jwt :: "('d, 'tx) jwt_table"
  ue_az :: "('e, 'ty) az_table"
  ue_lib :: jwt_lib

definition um_Create ::
  "('d, 'tx, 'e, 'ty) user_env \<Rightarrow> time \<Rightarrow> user_ctx \<Rightarrow> ('d, 'e) user_mgr \<Rightarrow> ('d, 'e) user_mgr \<times> (api_error + user)" where
  "um_Create E now ctx m =
     (if \<not> isAdmin (getCurrentUser (uc_current ctx))
      then (m, Inl (APIError PermissionDenied ''only admin can create user''))
      else if user_Password (uc_resource ctx) = '''' then (m, Inl (APIError NotNullable ''empty password''))
      else (let user = (uc_resource ctx)\<lparr>user_ID := user_Name (uc_resource ctx), user_CreationTimestamp := now\<rparr>
            in case jwt_AddUser (ue_jwt E) user (um_authenticator m) of
                 (j, Some _) \<Rightarrow> (m\<lparr>um_authenticator := j\<rparr>, Inl (APIError DuplicateResource ''duplicate user name''))
               | (j, None) \<Rightarrow>
                   (case az_AddUser (ue_az E) user (um_authorizer m) of
                      (z, Some _) \<Rightarrow> (\<lparr>um_authenticator = j, um_authorizer = z\<rparr>, Inl (APIError DuplicateResource ''duplicate user name''))
                    | (z, None) \<Rightarrow> (\<lparr>um_authenticator = j, um_authorizer = z\<rparr>, Inr user))))"

definition um_Get :: "user_ctx \<Rightarrow> ('d, 'e) user_mgr \<Rightarrow> api_error + user option" where
  "um_Get ctx m =
     (let currentUser = getCurrentUser (uc_current ctx); target = user_ID (uc_resource ctx)
      in if \<not> isAdmin currentUser \<and> currentUser \<noteq> target then Inr None
         else (case az_GetUser (um_authorizer m) target of
                 Some u \<Rightarrow> Inr (Some u)
               | None \<Rightarrow> Inl (APIError NotFound (''no found user '' @ target))))"

definition um_Delete ::
  "('d, 'tx, 'e, 'ty) user_env \<Rightarrow> user_ctx \<Rightarrow> ('d, 'e) user_mgr \<Rightarrow> ('d, 'e) user_mgr \<times> api_error option" where
  "um_Delete E ctx m =
     (if \<not> isAdmin (getCurrentUser (uc_current ctx))
      then (m, Some (APIError PermissionDenied ''only admin can delete user''))
      else (let userName = user_ID (uc_resource ctx)
            in case jwt_DeleteUser (ue_jwt E) userName (um_authenticator m) of
                 (j, Some e) \<Rightarrow> (m\<lparr>um_authenticator := j\<rparr>, Some (APIError NotFound e))
               | (j, None) \<Rightarrow>
                   (case az_DeleteUser (ue_az E) userName (um_authorizer m) of
                      (z, Some e) \<Rightarrow> (\<lparr>um_authenticator = j, um_authorizer = z\<rparr>, Some (APIError NotFound e))
                    | (z, None) \<Rightarrow> (\<lparr>um_authenticator = j, um_authorizer = z\<rparr>, None))))"

definition um_Update ::
  "('d, 'tx, 'e, 'ty) user_env \<Rightarrow> user_ctx \<Rightarrow> ('d, 'e) user_mgr \<Rightarrow> ('d, 'e) user_mgr \<times> (api_error + user)" where
  "um_Update E ctx m =
     (if \<not> isAdmin (getCurrentUser (uc_current ctx))
      then (m, Inl (APIError PermissionDenied ''only admin could update user''))
      else (let user = uc_resource ctx;
                (j, r) = (if user_Password user \<noteq> ''''
                          then jwt_ResetPassword (ue_jwt E) (user_ID user) '''' (user_Password user) True (um_authenticator m)
                          else (um_authenticator m, None))
            in case r of
                 Some e \<Rightarrow> (m\<lparr>um_authenticator := j\<rparr>, Inl (APIError NotFound e))
               | None \<Rightarrow>
                   (case az_UpdateUser (ue_az E) user (um_authorizer m) of
                      (z, Some e) \<Rightarrow> (\<lparr>um_authenticator = j, um_authorizer = z\<rparr>, Inl (APIError NotFound e))
                    | (z, None) \<Rightarrow> (\<lparr>um_authenticator = j, um_authorizer = z\<rparr>, Inr user))))"

text \<open>\<open>names\<close> is the order in which Go enumerates the map of users.\<close>

definition um_List :: "string list \<Rightarrow> user_ctx \<Rightarrow> ('d, 'e) user_mgr \<Rightarrow> user list" where
  "um_List names ctx m =
     (let currentUser = getCurrentUser (uc_current ctx)
      in if isAdmin currentUser then az_ListUser names (um_authorizer m)
         else (case az_GetUser (um_authorizer m) currentUser of None \<Rightarrow> [] | Some u \<Rightarrow> [u]))"

definition um_login ::
  "('d, 'tx, 'e, 'ty) user_env \<Rightarrow> int \<Rightarrow> user_ctx \<Rightarrow> ('d, 'e) user_mgr \<Rightarrow> api_error + string" where
  "um_login E now ctx m =
     (case snd (uc_action ctx) of
        UserPassword pw \<Rightarrow>
          if pw = '''' then Inl (APIError NotNullable ''empty password'')
          else (case jwt_CreateToken (ue_lib E) now (user_ID (uc_resource ctx)) pw (um_authenticator m) of
                  Inl e \<Rightarrow> Inl (APIError InvalidBodyContent e)
                | Inr token \<Rightarrow> Inr token)
      | _ \<Rightarrow> Inl (APIError InvalidFormat ''login param not valid''))"

definition um_resetPassword ::
  "('d, 'tx, 'e, 'ty) user_env \<Rightarrow> user_ctx \<Rightarrow> ('d, 'e) user_mgr \<Rightarrow> ('d, 'e) user_mgr \<times> api_error option" where
  "um_resetPassword E ctx m =
     (case snd (uc_action ctx) of
        ResetPasswordInput old new \<Rightarrow>
          (let userName = getCurrentUser (uc_current ctx)
           in if userName \<noteq> user_ID (uc_resource ctx)
              then (m, Some (APIError PermissionDenied ''only user himself could reset his password''))
              else (case jwt_ResetPassword (ue_jwt E) userName old new False (um_authenticator m) of
                      (j, Some e) \<Rightarrow> (m\<lparr>um_authenticator := j\<rparr>, Some (APIError PermissionDenied e))
                    | (j, None) \<Rightarrow> (m\<lparr>um_authenticator := j\<rparr>, None)))
      | _ \<Rightarrow> (m, Some (APIError InvalidFormat ''reset password param not valid'')))"

datatype action_result = ActToken string | ActNothing

definition um_Action ::
  "('d, 'tx, 'e, 'ty) user_env \<Rightarrow> int \<Rightarrow> user_ctx \<Rightarrow> ('d, 'e) user_mgr \<Rightarrow> ('d, 'e) user_mgr \<times> (api_error + action_result)" where
  "um_Action E now ctx m =
     (if fst (uc_action ctx) = ''login'' then
        (m, map_sum (\<lambda>e. e) ActToken (um_login E now ctx m))
      else if fst (uc_action ctx) = ''resetPassword'' then
        (case um_resetPassword E ctx m of
           (m', Some e) \<Rightarrow> (m', Inl e)
         | (m', None) \<Rightarrow> (m', Inr ActNothing))
      else (m, Inr ActNothing))"

section \<open>The handler in front of the API\<close>

datatype res_kind = KUser | KCluster | KNamespace | KOther

text \<open>
  A request: its user, the kind of its resource with the name of the action if there is one, and
  the ancestors of the resource from the root.
\<close>

record api_ctx =
  ac_current :: "string option"
  ac_kind :: res_kind
  ac_action :: "string option"
  ac_ancestors :: "(res_kind \<times> string) list"

definition authorizationHandler ::
  "('e, 'ty) az_table \<Rightarrow> bool \<Rightarrow> time \<Rightarrow> api_ctx \<Rightarrow> 'e authorizer \<Rightarrow> 'e authorizer \<times> api_error option" where
  "authorizationHandler T enableDebug now ctx a =
     (if ac_kind ctx = KUser \<and> ac_action ctx = Some ''login'' then (a, None)
      else (let user = getCurrentUser (ac_current ctx)
            in if user = '''' then (a, Some (APIError Unauthorized ''user is unknowned''))
               else (let a' = (if az_GetUser a user = None
                               then fst (az_AddUser T ((named_user user)\<lparr>user_CreationTimestamp := now\<rparr>) a) else a)
                     in case ac_ancestors ctx of
                          (KCluster, cluster) # (KNamespace, namespace) # _ \<Rightarrow>
                            if \<not> IsNamespaceVisiable namespace enableDebug
                            then (a', Some (APIError PermissionDenied (''user '' @ user
                                   @ '' has no sufficient permission to work on namespace '' @ namespace)))
                            else if \<not> Authorize a' user cluster namespace
                            then (a', Some (APIError PermissionDenied (''user '' @ user
                                   @ '' has no sufficient permission to work on cluster '' @ cluster @ '' namespace '' @ namespace)))
                            else (a', None)
                        | _ \<Rightarrow> (a', None))))"

section \<open>Both registries\<close>

locale users_live = J: jwt_reg_live "ue_jwt E" viewJ txviewJ + Z: az_live "ue_az E" viewZ txviewZ
  for E :: "('d, 'tx, 'e, 'ty) user_env" and viewJ txviewJ viewZ txviewZ

sublocale users_live \<subseteq> pair: registry_pair "\<lambda>a. jwt_agrees viewJ a" "\<lambda>a. dom (ja_users a)" user_ID
  "jwt_AddUser (ue_jwt E)" "jwt_DeleteUser (ue_jwt E)" "\<lambda>n. n = Administrator"
  "\<lambda>a. az_agrees viewZ a" "\<lambda>a. dom (az_users a)" "az_AddUser (ue_az E)" "az_DeleteUser (ue_az E)"
  by unfold_locales

definition um_synced ::
  "('d \<Rightarrow> string \<rightharpoonup> string) \<Rightarrow> ('e \<Rightarrow> string \<rightharpoonup> auth_user json) \<Rightarrow> ('d, 'e) user_mgr \<Rightarrow> bool" where
  "um_synced viewJ viewZ m \<longleftrightarrow>
     synced (\<lambda>a. jwt_agrees viewJ a) (\<lambda>a. dom (ja_users a)) (\<lambda>a. az_agrees viewZ a) (\<lambda>a. dom (az_users a))
       (um_authenticator m) (um_authorizer m)"

datatype um_req = UmCreate user_ctx | UmDelete user_ctx | UmUpdate user_ctx | UmAction user_ctx

text \<open>A request's new state and whether it succeeded.\<close>

fun um_exec :: "('d, 'tx, 'e, 'ty) user_env \<Rightarrow> time \<Rightarrow> um_req \<Rightarrow> ('d, 'e) user_mgr \<Rightarrow> ('d, 'e) user_mgr \<times> bool" where
  "um_exec E now (UmCreate ctx) m = (case um_Create E now ctx m of (m', Inl _) \<Rightarrow> (m', False) | (m', Inr _) \<Rightarrow> (m', True))"
| "um_exec E now (UmDelete ctx) m = (case um_Delete E ctx m of (m', r) \<Rightarrow> (m', r = None))"
| "um_exec E now (UmUpdate ctx) m = (case um_Update E ctx m of (m', Inl _) \<Rightarrow> (m', False) | (m', Inr _) \<Rightarrow> (m', True))"
| "um_exec E now (UmAction ctx) m = (case um_Action E now ctx m of (m', Inl _) \<Rightarrow> (m', False) | (m', Inr _) \<Rightarrow> (m', True))"

fun um_run :: "('d, 'tx, 'e, 'ty) user_env \<Rightarrow> (time \<times> um_req) list \<Rightarrow> ('d, 'e) user_mgr \<Rightarrow> ('d, 'e) user_mgr" where
  "um_run E [] m = m"
| "um_run E ((now, x) # xs) m = um_run E xs (fst (um_exec E now x m))"

abbreviation um_names :: "('d, 'e) user_mgr \<Rightarrow> string set" where
  "um_names m \<equiv> dom (ja_users (um_authenticator m))"

lemma jwt_agrees_sessions [simp]: "jwt_agrees view (a\<lparr>ja_sessions := s\<rparr>) \<longleftrightarrow> jwt_agrees view a"
  by simp

context users_live
begin

lemma Create_synced:
  assumes "um_synced viewJ viewZ m" "um_Create E now ctx m = (m', r)"
  shows "um_synced viewJ viewZ m'
    \<and> ((\<exists>u. r = Inr u) \<longleftrightarrow> isAdmin (getCurrentUser (uc_current ctx)) \<and> user_Password (uc_resource ctx) \<noteq> ''''
         \<and> user_Name (uc_resource ctx) \<notin> um_names m)
    \<and> um_names m' = (if \<exists>u. r = Inr u then insert (user_Name (uc_resource ctx)) (um_names m) else um_names m)"
proof (cases "isAdmin (getCurrentUser (uc_current ctx)) \<and> user_Password (uc_resource ctx) \<noteq> ''''")
  case False
  then show ?thesis using assms by (auto simp: um_Create_def split: if_splits)
next
  case True
  let ?u = "(uc_resource ctx)\<lparr>user_ID := user_Name (uc_resource ctx), user_CreationTimestamp := now\<rparr>"
  obtain j rj where j: "jwt_AddUser (ue_jwt E) ?u (um_authenticator m) = (j, rj)" by fastforce
  obtain z rz where z: "az_AddUser (ue_az E) ?u (um_authorizer m) = (z, rz)" by fastforce
  note s = assms(1) [unfolded um_synced_def]
  show ?thesis
  proof (cases rj)
    case None
    note b = pair.add_both [OF s j [unfolded None] z]
    have "m' = \<lparr>um_authenticator = j, um_authorizer = z\<rparr>" "r = Inr ?u"
      using assms(2) True j z None b by (simp_all add: um_Create_def Let_def)
    with b True show ?thesis by (simp add: um_synced_def)
  next
    case (Some e)
    note b = pair.add_refused [OF s j [unfolded Some]]
    have "m' = m\<lparr>um_authenticator := j\<rparr>" "\<exists>e. r = Inl e"
      using assms(2) True j Some by (auto simp: um_Create_def Let_def)
    with b True show ?thesis by (auto simp: um_synced_def)
  qed
qed

lemma Delete_synced:
  assumes "um_synced viewJ viewZ m" "um_Delete E ctx m = (m', r)"
  shows "um_synced viewJ viewZ m'
    \<and> (r = None \<longleftrightarrow> isAdmin (getCurrentUser (uc_current ctx)) \<and> user_ID (uc_resource ctx) \<in> um_names m - {Administrator})
    \<and> um_names m' = (if r = None then um_names m - {user_ID (uc_resource ctx)} else um_names m)"
proof (cases "isAdmin (getCurrentUser (uc_current ctx))")
  case False
  then show ?thesis using assms by (auto simp: um_Delete_def)
next
  case True
  let ?n = "user_ID (uc_resource ctx)"
  obtain j rj where j: "jwt_DeleteUser (ue_jwt E) ?n (um_authenticator m) = (j, rj)" by fastforce
  obtain z rz where z: "az_DeleteUser (ue_az E) ?n (um_authorizer m) = (z, rz)" by fastforce
  note s = assms(1) [unfolded um_synced_def]
  show ?thesis
  proof (cases rj)
    case None
    note b = pair.del_both [OF s j [unfolded None] z]
    have "m' = \<lparr>um_authenticator = j, um_authorizer = z\<rparr>" "r = None"
      using assms(2) True j z None b by (simp_all add: um_Delete_def Let_def)
    with b True show ?thesis by (simp add: um_synced_def)
  next
    case (Some e)
    note b = pair.del_refused [OF s j [unfolded Some]]
    have "m' = m\<lparr>um_authenticator := j\<rparr>" "r \<noteq> None"
      using assms(2) True j Some by (auto simp: um_Delete_def Let_def)
    with b True show ?thesis by (auto simp: um_synced_def)
  qed
qed

lemma ResetPassword_names:
  assumes "jwt_ResetPassword (ue_jwt E) n old new force a = (a', r)" "jwt_agrees viewJ a"
  shows "jwt_agrees viewJ a' \<and> dom (ja_users a') = dom (ja_users a)"
  using J.ResetPassword_cases [OF assms] by (auto split: if_splits)

lemma UpdateUser_names:
  assumes "az_UpdateUser (ue_az E) u a = (a', r)" "az_agrees viewZ a"
  shows "az_agrees viewZ a' \<and> dom (az_users a') = dom (az_users a)"
proof -
  have "az_agrees viewZ a' \<and> dom (grants a') = dom (grants a)"
    using Z.exec_refines [of "AzUpdate u" a a' r] assms by (simp add: insert_absorb domIff)
  then show ?thesis by (simp add: dom_grants)
qed

lemma synced_parts:
  "um_synced viewJ viewZ m \<longleftrightarrow>
   jwt_agrees viewJ (um_authenticator m) \<and> az_agrees viewZ (um_authorizer m)
   \<and> um_names m = dom (az_users (um_authorizer m))"
  by (simp add: um_synced_def synced_def)

lemma Update_synced:
  assumes "um_synced viewJ viewZ m" "um_Update E ctx m = (m', r)"
  shows "um_synced viewJ viewZ m' \<and> um_names m' = um_names m"
proof -
  have "(um_authenticator m' = um_authenticator m
        \<or> (\<exists>n old new force rj. jwt_ResetPassword (ue_jwt E) n old new force (um_authenticator m) = (um_authenticator m', rj)))
      \<and> (um_authorizer m' = um_authorizer m \<or> (\<exists>u rz. az_UpdateUser (ue_az E) u (um_authorizer m) = (um_authorizer m', rz)))"
    using assms(2) by (auto simp: um_Update_def Let_def split: if_splits option.splits prod.splits)
  with assms(1) show ?thesis
    unfolding synced_parts using ResetPassword_names UpdateUser_names by (elim conjE disjE exE) (metis, metis, metis, metis)
qed

lemma Action_synced:
  assumes "um_synced viewJ viewZ m" "um_Action E now ctx m = (m', r)"
  shows "um_synced viewJ viewZ m' \<and> um_names m' = um_names m"
proof -
  have "(um_authenticator m' = um_authenticator m
        \<or> (\<exists>n old new force rj. jwt_ResetPassword (ue_jwt E) n old new force (um_authenticator m) = (um_authenticator m', rj)))
      \<and> um_authorizer m' = um_authorizer m"
    using assms(2)
    by (auto simp: um_Action_def um_resetPassword_def Let_def split: if_splits option.splits prod.splits user_input.splits)
  with assms(1) show ?thesis
    unfolding synced_parts using ResetPassword_names by (elim conjE disjE exE) (metis, metis)
qed

lemma Add_names:
  "jwt_agrees viewJ a \<Longrightarrow> jwt_AddUser (ue_jwt E) u a = (a', r) \<Longrightarrow>
     (r = None \<longleftrightarrow> user_ID u \<notin> dom (ja_users a)) \<and> dom (ja_users a') = insert (user_ID u) (dom (ja_users a))"
  "az_agrees viewZ b \<Longrightarrow> az_AddUser (ue_az E) u b = (b', s) \<Longrightarrow>
     (s = None \<longleftrightarrow> user_ID u \<notin> dom (az_users b)) \<and> dom (az_users b') = insert (user_ID u) (dom (az_users b))"
  using J.jwt_reg.add_law [of a u a' r] Z.az_reg.add_law [of b u b' s] by simp_all

lemma exec_synced:
  assumes "um_synced viewJ viewZ m" "Administrator \<in> um_names m"
  shows "um_synced viewJ viewZ (fst (um_exec E now x m)) \<and> Administrator \<in> um_names (fst (um_exec E now x m))"
proof (cases x)
  case (UmCreate ctx)
  obtain m' r where c: "um_Create E now ctx m = (m', r)" by fastforce
  then show ?thesis using Create_synced [OF assms(1) c] assms(2) UmCreate by (cases r) auto
next
  case (UmDelete ctx)
  obtain m' r where c: "um_Delete E ctx m = (m', r)" by fastforce
  then show ?thesis using Delete_synced [OF assms(1) c] assms(2) UmDelete by (cases r) auto
next
  case (UmUpdate ctx)
  obtain m' r where c: "um_Update E ctx m = (m', r)" by fastforce
  then show ?thesis using Update_synced [OF assms(1) c] assms(2) UmUpdate by (cases r) auto
next
  case (UmAction ctx)
  obtain m' r where c: "um_Action E now ctx m = (m', r)" by fastforce
  then show ?thesis using Action_synced [OF assms(1) c] assms(2) UmAction by (cases r) auto
qed

lemma run_synced:
  "um_synced viewJ viewZ m \<Longrightarrow> Administrator \<in> um_names m \<Longrightarrow>
   um_synced viewJ viewZ (um_run E xs m) \<and> Administrator \<in> um_names (um_run E xs m)"
proof (induction xs arbitrary: m)
  case (Cons x xs)
  obtain now y where "x = (now, y)" by (cases x)
  then show ?case using Cons.IH exec_synced [OF Cons.prems, of now y] by simp
qed simp

end

lemma users_liveI:
  "kv_live (ue_jwt E) viewJ txviewJ \<Longrightarrow> kv_live (ue_az E) viewZ txviewZ \<Longrightarrow> users_live E viewJ txviewJ viewZ txviewZ"
  by (simp add: users_live_def jwt_reg_liveI az_liveI)

definition mem_users :: "(string mem_db, string mem_db \<times> string mem_db, auth_user json mem_db, auth_user json mem_db \<times> auth_user json mem_db) user_env" where
  "mem_users = \<lparr>ue_jwt = mem_table, ue_az = mem_table, ue_lib = plain_jwt\<rparr>"

interpretation mem_users: users_live mem_users map_of "\<lambda>(d, t). map_of t" map_of "\<lambda>(d, t). map_of t"
  unfolding mem_users_def by (rule users_liveI) (simp_all add: mem.kv_live_axioms)

section \<open>Properties\<close>


definition admin_ctx :: "user \<Rightarrow> user_ctx" where
  "admin_ctx u = \<lparr>uc_current = Some Administrator, uc_resource = u, uc_action = ('''', OtherInput)\<rparr>"

definition sample_users :: "(string mem_db, auth_user json mem_db) user_mgr" where
  "sample_users = \<lparr>um_authenticator = sample_jwt, um_authorizer = sample_authorizer\<rparr>"

lemma sample_users_synced: "um_synced map_of map_of sample_users" "jwt_HasUser (um_authenticator sample_users) Administrator"
  using sample_jwt_agrees sample_agrees
  by (auto simp: um_synced_def synced_def sample_users_def jwt_HasUser_def sample_jwt_def sample_authorizer_def Let_def)

lemma mem_users_live:
  "kv_live (ue_jwt mem_users) map_of (\<lambda>(d, t). map_of t)" "kv_live (ue_az mem_users) map_of (\<lambda>(d, t). map_of t)"
  by (simp_all add: mem_users_def mem.kv_live_axioms)


text \<open>
  C24. The handler in front of the API lets a request on a resource of a namespace pass exactly when
  the namespace is visible and the user's grants cover it; a user it does not know yet is
  registered without projects, and the grants of the others do not change.
\<close>

theorem authorization_handler_permits:
  assumes "kv_live T view txview" "az_agrees view a"
    and "authorizationHandler T dbg now ctx a = (a', r)"
    and "ac_kind ctx \<noteq> KUser" "getCurrentUser (ac_current ctx) = u" "u \<noteq> ''''"
    and "ac_ancestors ctx = (KCluster, c) # (KNamespace, n) # rest"
  shows "(r = None \<longleftrightarrow> IsNamespaceVisiable n dbg \<and> permits (grants a) u c n)
    \<and> az_agrees view a' \<and> grants a' = (if az_HasUser a u then grants a else (grants a)(u \<mapsto> []))"
proof (cases "az_users a u")
  case (Some x)
  then show ?thesis using assms(2-7)
    by (auto simp: authorizationHandler_def az_GetUser_def az_HasUser_def Authorize_permits split: if_splits)
next
  case None
  let ?u = "(named_user u)\<lparr>user_CreationTimestamp := now\<rparr>"
  have id: "user_ID ?u = u" "user_Projects ?u = []" by (simp_all add: named_user_def)
  obtain b where b: "az_AddUser T ?u a = (b, None)"
    using az_live.AddUser_live [OF az_liveI [OF assms(1)] assms(2), of ?u] None id by auto
  have L: "az_laws T view txview" using assms(1) by (simp add: az_laws_def kv_live_def)
  have g: "az_agrees view b" "grants b = (grants a)(u \<mapsto> [])"
    using az_laws.AddUser_cases [OF L b assms(2)] id by simp_all
  have "permits (grants b) u c n \<longleftrightarrow> permits (grants a) u c n"
    using None by (simp add: g(2) permits_def) (simp add: grants_def)
  then show ?thesis using assms(3-7) None b g
    by (auto simp: authorizationHandler_def az_GetUser_def az_HasUser_def Authorize_permits split: if_splits)
qed

definition ns_ctx :: "string \<Rightarrow> string \<Rightarrow> string \<Rightarrow> api_ctx" where
  "ns_ctx u c n = \<lparr>ac_current = Some u, ac_kind = KOther, ac_action = None, ac_ancestors = [(KCluster, c), (KNamespace, n)]\<rparr>"

theorem authorization_handler_permits_witness:
  "\<exists>a'. authorizationHandler mem_table False 7 (ns_ctx Administrator ''local'' ''default'') sample_authorizer = (a', None)
    \<and> grants a' = grants sample_authorizer"
proof -
  obtain a' r where h: "authorizationHandler mem_table False 7 (ns_ctx Administrator ''local'' ''default'') sample_authorizer = (a', r)"
    by fastforce
  have "IsNamespaceVisiable ''default'' False" "permits (grants sample_authorizer) Administrator ''local'' ''default''"
    "az_HasUser sample_authorizer Administrator"
    by (simp_all add: IsNamespaceVisiable_def HiddenNamespaces_def permits_def az_HasUser_def sample_authorizer_def Let_def)
  with authorization_handler_permits [OF mem.kv_live_axioms sample_agrees h, of Administrator "''local''" "''default''" "[]"] h
  show ?thesis by (simp add: ns_ctx_def getCurrentUser_def)
qed

text \<open>
  A deleted user whose token is still valid is registered again with the authorizer by its next
  request. The name then cannot be used for a new user: the creation reports a duplicate, although
  the registry of passwords has accepted the new account.
\<close>

theorem deleted_user_blocks_name:
  assumes "kv_live (ue_jwt E) viewJ txviewJ" "kv_live (ue_az E) viewZ txviewZ"
    and "um_synced viewJ viewZ m" "um_Delete E dctx m = (m1, None)"
    and "ac_kind actx \<noteq> KUser" "getCurrentUser (ac_current actx) = user_ID (uc_resource dctx)"
    and "user_ID (uc_resource dctx) \<noteq> ''''"
    and "authorizationHandler (ue_az E) dbg now actx (um_authorizer m1) = (z, r)"
    and "uc_current cctx = Some Administrator" "user_Password (uc_resource cctx) \<noteq> ''''"
    and "user_Name (uc_resource cctx) = user_ID (uc_resource dctx)"
    and "um_Create E now' cctx (m1\<lparr>um_authorizer := z\<rparr>) = (m2, r2)"
  shows "az_HasUser z (user_ID (uc_resource dctx))
    \<and> r2 = Inl (APIError DuplicateResource ''duplicate user name'')
    \<and> jwt_HasUser (um_authenticator m2) (user_ID (uc_resource dctx))"
proof -
  note L = users_liveI [OF assms(1,2)]
  let ?n = "user_ID (uc_resource dctx)"
  let ?u = "(named_user ?n)\<lparr>user_CreationTimestamp := now\<rparr>"
  have id: "user_ID ?u = ?n" by (simp add: named_user_def)
  have s1: "um_synced viewJ viewZ m1" and n1: "?n \<notin> um_names m1"
    using users_live.Delete_synced [OF L assms(3,4)] by auto
  then have p: "jwt_agrees viewJ (um_authenticator m1)" "az_agrees viewZ (um_authorizer m1)" "?n \<notin> dom (az_users (um_authorizer m1))"
    using users_live.synced_parts [OF L] by simp_all
  obtain b rb where b: "az_AddUser (ue_az E) ?u (um_authorizer m1) = (b, rb)" by fastforce
  have "dom (az_users b) = insert ?n (dom (az_users (um_authorizer m1)))"
    using users_live.Add_names(2) [OF L p(2) b] id by simp
  moreover have "z = b"
    using assms(5-8) p(3) b by (auto simp: authorizationHandler_def az_GetUser_def Let_def domIff split: if_splits list.splits prod.splits res_kind.splits)
  ultimately have z: "az_users z ?n \<noteq> None" by auto
  let ?c = "(uc_resource cctx)\<lparr>user_ID := user_Name (uc_resource cctx), user_CreationTimestamp := now'\<rparr>"
  have c: "user_ID ?c = ?n" using assms(11) by simp
  obtain j rj where j: "jwt_AddUser (ue_jwt E) ?c (um_authenticator m1) = (j, rj)" by fastforce
  have "rj = None" "?n \<in> dom (ja_users j)"
    using users_live.Add_names(1) [OF L p(1) j] n1 c by simp_all
  moreover from z have "\<exists>e. az_AddUser (ue_az E) ?c z = (z, Some e)" using c by (auto simp: az_AddUser_def)
  ultimately show ?thesis
    using assms(9,10,12) j z by (auto simp: um_Create_def isAdmin_def getCurrentUser_def az_HasUser_def jwt_HasUser_def)
qed

theorem deleted_user_blocks_name_witness:
  "\<exists>m1 z r m2. um_Delete mem_users (admin_ctx (sample_user ''bob'' [])) sample_users = (m1, None)
    \<and> authorizationHandler (ue_az mem_users) False 7 (ns_ctx ''bob'' ''local'' ''default'') (um_authorizer m1) = (z, r)
    \<and> um_Create mem_users 8 (admin_ctx (sample_user ''bob'' [])) (m1\<lparr>um_authorizer := z\<rparr>)
      = (m2, Inl (APIError DuplicateResource ''duplicate user name''))
    \<and> jwt_HasUser (um_authenticator m2) ''bob''"
proof -
  let ?d = "admin_ctx (sample_user ''bob'' [])"
  obtain m1 rd where d: "um_Delete mem_users ?d sample_users = (m1, rd)" by fastforce
  have "rd = None"
    using mem_users.Delete_synced [OF sample_users_synced(1) d]
    by (simp add: admin_ctx_def isAdmin_def getCurrentUser_def sample_user_def sample_users_def sample_jwt_def)
  note d = d [unfolded this]
  obtain z r where h: "authorizationHandler (ue_az mem_users) False 7 (ns_ctx ''bob'' ''local'' ''default'') (um_authorizer m1) = (z, r)"
    by fastforce
  obtain m2 r2 where c: "um_Create mem_users 8 ?d (m1\<lparr>um_authorizer := z\<rparr>) = (m2, r2)" by fastforce
  from deleted_user_blocks_name [OF mem_users_live sample_users_synced(1) d _ _ _ h _ _ _ c] d h c show ?thesis
    by (simp add: admin_ctx_def ns_ctx_def getCurrentUser_def sample_user_def)
qed

text \<open>
  C27. A user that was created can log in through the API with exactly the given password and then
  acts under that name with exactly the given projects.
\<close>

theorem created_user_logs_in:
  assumes "kv_live (ue_jwt E) viewJ txviewJ" "kv_live (ue_az E) viewZ txviewZ" "jwt_laws (ue_lib E)"
    and "um_synced viewJ viewZ m" "um_Create E now ctx m = (m', Inr u)"
    and "user_ID (uc_resource lctx) = user_Name (uc_resource ctx)" "user_Name (uc_resource ctx) \<noteq> ''''"
    and "user_Name (uc_resource ctx) \<noteq> Administrator"
    and "snd (uc_action lctx) = UserPassword pw" "0 \<le> now'" "now' \<le> 2 ^ 62"
    and "repo_CreateToken (ue_lib E) tokenRepo now' (user_Name (uc_resource ctx)) = Inr raw"
  shows "um_login E now' lctx m' =
      (if pw = user_Password (uc_resource ctx) then Inr raw
       else if pw = '''' then Inl (APIError NotNullable ''empty password'')
       else Inl (APIError InvalidBodyContent ''password isn't correct''))
    \<and> ParseToken (ue_lib E) tokenRepo now' raw = Inr (user_Name (uc_resource ctx))
    \<and> (\<forall>c n. Authorize (um_authorizer m') (user_Name (uc_resource ctx)) c n
         \<longleftrightarrow> (\<exists>p \<in> set (user_Projects (uc_resource ctx)). covers p c n))"
proof -
  let ?n = "user_Name (uc_resource ctx)"
  let ?u = "(uc_resource ctx)\<lparr>user_ID := ?n, user_CreationTimestamp := now\<rparr>"
  obtain j z where jz: "jwt_AddUser (ue_jwt E) ?u (um_authenticator m) = (j, None)"
      "az_AddUser (ue_az E) ?u (um_authorizer m) = (z, None)" "m' = \<lparr>um_authenticator = j, um_authorizer = z\<rparr>"
      and pw: "user_Password (uc_resource ctx) \<noteq> ''''"
    using assms(5) by (auto simp: um_Create_def Let_def split: if_splits prod.splits option.splits)
  have s: "jwt_agrees viewJ (um_authenticator m)" "az_agrees viewZ (um_authorizer m)"
    using assms(4) by (simp_all add: um_synced_def synced_def)
  have L: "jwt_reg_laws (ue_jwt E) viewJ txviewJ" "az_laws (ue_az E) viewZ txviewZ"
    using assms(1,2) by (simp_all add: jwt_reg_laws_def az_laws_def kv_live_def)
  have u: "ja_users j ?n = Some (user_Password (uc_resource ctx))" "grants z ?n = Some (user_Projects (uc_resource ctx))"
    using jwt_reg_laws.AddUser_cases [OF L(1) jz(1) s(1)] az_laws.AddUser_cases [OF L(2) jz(2) s(2)] by simp_all
  have "\<bar>expireAt tokenRepo now'\<bar> \<le> 2 ^ 53" "\<not> now' > expireAt tokenRepo now' * nanos"
    using assms(10,11) by (simp_all add: expireAt_def tokenRepo_def)
  then have "ParseToken (ue_lib E) tokenRepo now' raw = Inr ?n"
    using jwt_laws.token_parses [OF assms(3,12,7)] by simp
  moreover have "Authorize (um_authorizer m') ?n c n \<longleftrightarrow> (\<exists>p \<in> set (user_Projects (uc_resource ctx)). covers p c n)" for c n
    using assms(8) u(2) jz(3) by (simp add: Authorize_permits permits_def)
  ultimately show ?thesis
    using u(1) jz(3) assms(6,9,12) pw by (auto simp: um_login_def jwt_CreateToken_def)
qed

theorem created_user_logs_in_witness:
  "\<exists>m' u raw. um_Create mem_users 7 (admin_ctx (sample_user ''eve'' [sample_project])) sample_users = (m', Inr u)
    \<and> um_login mem_users 9 ((admin_ctx (sample_user ''eve'' []))\<lparr>uc_action := (''login'', UserPassword ''pw'')\<rparr>) m' = Inr raw
    \<and> ParseToken plain_jwt tokenRepo 9 raw = Inr ''eve''
    \<and> Authorize (um_authorizer m') ''eve'' ''local'' ''default''"
proof -
  let ?c = "admin_ctx (sample_user ''eve'' [sample_project])"
  let ?l = "(admin_ctx (sample_user ''eve'' []))\<lparr>uc_action := (''login'', UserPassword ''pw'')\<rparr>"
  obtain m' r where c: "um_Create mem_users 7 ?c sample_users = (m', r)" by fastforce
  obtain u where u: "r = Inr u"
    using mem_users.Create_synced [OF sample_users_synced(1) c]
    by (auto simp: admin_ctx_def isAdmin_def getCurrentUser_def sample_user_def sample_users_def sample_jwt_def)
  note c = c [unfolded u]
  obtain raw where raw: "repo_CreateToken plain_jwt tokenRepo 9 ''eve'' = Inr raw" using plain_jwt_signs [of 9] by auto
  have lib: "ue_lib mem_users = plain_jwt" by (simp add: mem_users_def)
  from created_user_logs_in [OF mem_users_live _ sample_users_synced(1) c, of ?l "''pw''" 9 raw] raw c show ?thesis
    by (simp add: lib plain_jwt.jwt_laws_axioms admin_ctx_def sample_user_def covers_def sample_project_def)
qed

end
