(* ===== verification/Kube.thy ===== *)
theory Kube
  imports Prelude "HOL-Library.AList"
begin

text \<open>
  The API server of a cluster, as the handlers see it through the client of
  \<^verbatim>\<open>github.com/zdnscloud/gok8s\<close>. Neither is part of the repository, so the operations on the
  objects of one kind are a record over an unknown state \<open>'k\<close> of the server. The locale
  \<open>kube_laws\<close> states the documented behaviour the handlers rely on, \<open>kube_live\<close> that the server
  answers; the operations shared by the handlers of namespaced resources
  (\<^verbatim>\<open>configmap_manager.go\<close>, \<^verbatim>\<open>secret_manager.go\<close>, \<^verbatim>\<open>limitrange_manager.go\<close>,
  \<^verbatim>\<open>resourcequota_manager.go\<close> in \<^verbatim>\<open>pkg/handler\<close>) are the combinators \<open>crud_*\<close>.
\<close>

section \<open>Objects and errors\<close>

text \<open>Errors of the server by their class, and the program's own errors.\<close>

datatype k8s_err = K8sNotFound string | K8sAlreadyExists string | K8sOther string | OwnErr string

fun k8s_text :: "k8s_err \<Rightarrow> string" where
  "k8s_text (K8sNotFound m) = m"
| "k8s_text (K8sAlreadyExists m) = m"
| "k8s_text (K8sOther m) = m"
| "k8s_text (OwnErr m) = m"

fun IsNotFound :: "k8s_err \<Rightarrow> bool" where
  "IsNotFound (K8sNotFound m) = True"
| "IsNotFound _ = False"

fun IsAlreadyExists :: "k8s_err \<Rightarrow> bool" where
  "IsAlreadyExists (K8sAlreadyExists m) = True"
| "IsAlreadyExists _ = False"

text \<open>An object: the metadata the program uses and the body of its kind.\<close>

record 'b k8s_obj =
  ko_name :: string
  ko_namespace :: string
  ko_creation :: time
  ko_deletion :: "time option"
  ko_body :: 'b

abbreviation ko_key :: "'b k8s_obj \<Rightarrow> string \<times> string" where
  "ko_key obj \<equiv> (ko_namespace obj, ko_name obj)"

definition new_obj :: "string \<Rightarrow> string \<Rightarrow> 'b \<Rightarrow> 'b k8s_obj" where
  "new_obj ns name body = \<lparr>ko_name = name, ko_namespace = ns, ko_creation = 0, ko_deletion = None, ko_body = body\<rparr>"

record ('k, 'b) kube_api =
  kGet :: "string \<Rightarrow> string \<Rightarrow> 'k \<Rightarrow> k8s_err + 'b k8s_obj"
  kList :: "string \<Rightarrow> 'k \<Rightarrow> k8s_err + 'b k8s_obj list"
  kCreate :: "'b k8s_obj \<Rightarrow> 'k \<Rightarrow> 'k \<times> k8s_err option"
  kUpdate :: "'b k8s_obj \<Rightarrow> 'k \<Rightarrow> 'k \<times> k8s_err option"
  kDelete :: "string \<Rightarrow> string \<Rightarrow> 'k \<Rightarrow> 'k \<times> k8s_err option"

text \<open>
  The clusters that are ready, with the state of their servers: a name that is missing is a cluster
  the manager does not know or that is not ready (\<^verbatim>\<open>GetReady\<close> returns nil).
\<close>

type_synonym 'k kubes = "string \<rightharpoonup> 'k"

section \<open>Laws\<close>

text \<open>
  \<open>view\<close> is what is stored; \<open>kept\<close> is the part of a body the server stores as submitted (it may fill
  in the rest). A deletion removes the object or marks it as being deleted.
\<close>

locale kube_laws =
  fixes K :: "('k, 'b) kube_api"
    and view :: "'k \<Rightarrow> string \<times> string \<rightharpoonup> 'b k8s_obj"
    and kept :: "'b \<Rightarrow> 's"
  assumes get_view: "kGet K ns n k = Inr obj \<Longrightarrow> view k (ns, n) = Some obj"
    and view_key: "view k (ns, n) = Some obj \<Longrightarrow> ko_key obj = (ns, n)"
    and list_view: "kList K ns k = Inr objs \<Longrightarrow> set objs = {obj. \<exists>n. view k (ns, n) = Some obj}"
    and create_view: "kCreate K obj k = (k', None) \<Longrightarrow>
      view k (ko_key obj) = None
      \<and> (\<exists>obj'. view k' = (view k)(ko_key obj \<mapsto> obj') \<and> ko_deletion obj' = None \<and> kept (ko_body obj') = kept (ko_body obj))"
    and create_err: "kCreate K obj k = (k', Some e) \<Longrightarrow> view k' = view k"
    and update_view: "kUpdate K obj k = (k', None) \<Longrightarrow>
      (\<exists>obj0 obj'. view k (ko_key obj) = Some obj0 \<and> view k' = (view k)(ko_key obj \<mapsto> obj')
        \<and> ko_creation obj' = ko_creation obj0 \<and> ko_deletion obj' = ko_deletion obj0 \<and> kept (ko_body obj') = kept (ko_body obj))"
    and update_err: "kUpdate K obj k = (k', Some e) \<Longrightarrow> view k' = view k"
    and delete_view: "kDelete K ns n k = (k', None) \<Longrightarrow>
      view k (ns, n) \<noteq> None
      \<and> (view k' = (view k)((ns, n) := None)
         \<or> (\<exists>obj t. view k (ns, n) = Some obj \<and> view k' = (view k)((ns, n) \<mapsto> obj\<lparr>ko_deletion := Some t\<rparr>)))"
    and delete_err: "kDelete K ns n k = (k', Some e) \<Longrightarrow> view k' = view k"

locale kube_live = kube_laws +
  assumes get_live: "view k (ns, n) = Some obj \<Longrightarrow> kGet K ns n k = Inr obj"
    and get_missing: "view k (ns, n) = None \<Longrightarrow> \<exists>m. kGet K ns n k = Inl (K8sNotFound m)"
    and list_live: "\<exists>objs. kList K ns k = Inr objs"

section \<open>An in-memory server\<close>

type_synonym 'b mem_kube = "((string \<times> string) \<times> 'b k8s_obj) list"

definition at_key :: "string \<times> string \<Rightarrow> 'b k8s_obj \<Rightarrow> 'b k8s_obj" where
  "at_key key obj = obj\<lparr>ko_namespace := fst key, ko_name := snd key\<rparr>"

definition mem_view :: "'b mem_kube \<Rightarrow> string \<times> string \<rightharpoonup> 'b k8s_obj" where
  "mem_view k key = map_option (at_key key) (map_of k key)"

definition mem_kube :: "('b mem_kube, 'b) kube_api" where
  "mem_kube =
     \<lparr>kGet = (\<lambda>ns n k. case mem_view k (ns, n) of None \<Rightarrow> Inl (K8sNotFound ''not found'') | Some obj \<Rightarrow> Inr obj),
      kList = (\<lambda>ns k. Inr (map (\<lambda>(key, obj). at_key key obj) (filter (\<lambda>kv. fst (fst kv) = ns) (AList.clearjunk k)))),
      kCreate = (\<lambda>obj k. case map_of k (ko_key obj) of
        None \<Rightarrow> ((ko_key obj, obj\<lparr>ko_deletion := None\<rparr>) # k, None)
      | Some _ \<Rightarrow> (k, Some (K8sAlreadyExists ''exists''))),
      kUpdate = (\<lambda>obj k. case map_of k (ko_key obj) of
        None \<Rightarrow> (k, Some (K8sNotFound ''not found''))
      | Some old \<Rightarrow> ((ko_key obj, obj\<lparr>ko_creation := ko_creation old, ko_deletion := ko_deletion old\<rparr>) # k, None)),
      kDelete = (\<lambda>ns n k. case map_of k (ns, n) of
        None \<Rightarrow> (k, Some (K8sNotFound ''not found''))
      | Some _ \<Rightarrow> (AList.delete (ns, n) k, None))\<rparr>"

lemma at_key_sel [simp]:
  "ko_deletion (at_key key obj) = ko_deletion obj" "ko_creation (at_key key obj) = ko_creation obj"
  "ko_body (at_key key obj) = ko_body obj" "ko_name (at_key key obj) = snd key" "ko_namespace (at_key key obj) = fst key"
  by (simp_all add: at_key_def)

lemma mem_view_Cons: "mem_view ((key, obj) # k) = (mem_view k)(key \<mapsto> at_key key obj)"
  by (rule ext) (simp add: mem_view_def)

lemma mem_view_delete: "mem_view (AList.delete key k) = (mem_view k)(key := None)"
  by (rule ext) (simp add: mem_view_def AList.delete_conv')

lemma mem_view_None: "mem_view k key = None \<longleftrightarrow> map_of k key = None"
  by (simp add: mem_view_def)

lemma mem_kube_list:
  "set (map (\<lambda>(key, obj). at_key key obj) (filter (\<lambda>kv. fst (fst kv) = ns) (AList.clearjunk k)))
   = {obj. \<exists>n. mem_view k (ns, n) = Some obj}"
proof -
  have "(key, obj) \<in> set (AList.clearjunk k) \<longleftrightarrow> map_of k key = Some obj" for key obj
    by (metis AList.distinct_clearjunk AList.map_of_clearjunk map_of_SomeD map_of_is_SomeI)
  then have "x \<in> set (map (\<lambda>(key, obj). at_key key obj) (filter (\<lambda>kv. fst (fst kv) = ns) (AList.clearjunk k)))
      \<longleftrightarrow> (\<exists>n obj. map_of k (ns, n) = Some obj \<and> x = at_key (ns, n) obj)" for x
    by force
  moreover have "x \<in> {obj. \<exists>n. mem_view k (ns, n) = Some obj} \<longleftrightarrow> (\<exists>n obj. map_of k (ns, n) = Some obj \<and> x = at_key (ns, n) obj)" for x
    by (auto simp: mem_view_def)
  ultimately show ?thesis by blast
qed

interpretation mem_kube: kube_live mem_kube mem_view "\<lambda>b. b"
proof (unfold_locales, goal_cases)
  case (3 ns k objs)
  then have "objs = map (\<lambda>(key, obj). at_key key obj) (filter (\<lambda>kv. fst (fst kv) = ns) (AList.clearjunk k))"
    by (simp add: mem_kube_def)
  then show ?case by (simp only: mem_kube_list)
next
  case (6 obj k k')
  then obtain old where "map_of k (ko_key obj) = Some old" "k' = (ko_key obj, obj\<lparr>ko_creation := ko_creation old, ko_deletion := ko_deletion old\<rparr>) # k"
    by (auto simp: mem_kube_def split: option.splits)
  then show ?case
    by (intro exI [of _ "at_key (ko_key obj) old"]
          exI [of _ "at_key (ko_key obj) (obj\<lparr>ko_creation := ko_creation old, ko_deletion := ko_deletion old\<rparr>)"])
      (simp add: mem_view_Cons, simp add: mem_view_def)
qed (auto simp: mem_kube_def mem_view_Cons mem_view_delete mem_view_None split: option.splits,
     auto simp: mem_view_def)

section \<open>The shape of the handlers\<close>

text \<open>
  A request on a resource of a namespace: the cluster and namespace it is in and the resource.
\<close>

record 'r sub_ctx =
  sx_cluster :: string
  sx_namespace :: string
  sx_resource :: 'r

definition no_cluster :: api_error where
  "no_cluster = APIError NotFound ''cluster doesn't exist''"

text \<open>A changing handler: find the cluster, act on its server, answer.\<close>

definition on_cluster ::
  "'r sub_ctx \<Rightarrow> ('k \<Rightarrow> 'k \<times> (api_error + 'a)) \<Rightarrow> 'k kubes \<Rightarrow> 'k kubes \<times> (api_error + 'a)" where
  "on_cluster ctx f ks =
     (case ks (sx_cluster ctx) of
        None \<Rightarrow> (ks, Inl no_cluster)
      | Some k \<Rightarrow> (let (k', r) = f k in (ks(sx_cluster ctx \<mapsto> k'), r)))"

definition read_cluster :: "'r sub_ctx \<Rightarrow> ('k \<Rightarrow> api_error + 'a) \<Rightarrow> 'k kubes \<Rightarrow> api_error + 'a" where
  "read_cluster ctx f ks =
     (case ks (sx_cluster ctx) of None \<Rightarrow> Inl no_cluster | Some k \<Rightarrow> f k)"

text \<open>\<open>conv\<close> makes the object; a failed conversion is an error of another kind than the server's.\<close>

definition crud_create ::
  "('k, 'b) kube_api \<Rightarrow> goerr + 'b k8s_obj \<Rightarrow> 'k \<Rightarrow> 'k \<times> k8s_err option" where
  "crud_create K conv k = (case conv of Inl e \<Rightarrow> (k, Some (OwnErr e)) | Inr obj \<Rightarrow> kCreate K obj k)"

definition answer :: "(k8s_err \<Rightarrow> api_error) \<Rightarrow> 'a \<Rightarrow> 'k \<times> k8s_err option \<Rightarrow> 'k \<times> (api_error + 'a)" where
  "answer err a kr = (case kr of (k, None) \<Rightarrow> (k, Inr a) | (k, Some e) \<Rightarrow> (k, Inl (err e)))"

section \<open>What a client finds after a change\<close>

context kube_live
begin

lemma create_then_get:
  assumes "kCreate K obj k = (k', None)"
  shows "\<exists>obj'. kGet K (ko_namespace obj) (ko_name obj) k' = Inr obj' \<and> ko_key obj' = ko_key obj
    \<and> ko_deletion obj' = None \<and> kept (ko_body obj') = kept (ko_body obj)"
proof -
  obtain obj' where o: "view k' = (view k)(ko_key obj \<mapsto> obj')" "ko_deletion obj' = None" "kept (ko_body obj') = kept (ko_body obj)"
    using create_view [OF assms] by blast
  then have "view k' (ko_namespace obj, ko_name obj) = Some obj'" by simp
  from get_live [OF this] view_key [OF this] o(2,3) show ?thesis by simp
qed

lemma update_then_get:
  assumes "kUpdate K obj k = (k', None)"
  shows "\<exists>obj'. kGet K (ko_namespace obj) (ko_name obj) k' = Inr obj' \<and> ko_key obj' = ko_key obj
    \<and> kept (ko_body obj') = kept (ko_body obj)"
proof -
  obtain obj' where o: "view k' = (view k)(ko_key obj \<mapsto> obj')" "kept (ko_body obj') = kept (ko_body obj)"
    using update_view [OF assms] by blast
  then have "view k' (ko_namespace obj, ko_name obj) = Some obj'" by simp
  from get_live [OF this] view_key [OF this] o(2) show ?thesis by simp
qed

lemma delete_then_get:
  assumes "kDelete K ns n k = (k', None)"
  shows "(\<exists>m. kGet K ns n k' = Inl (K8sNotFound m)) \<or> (\<exists>obj t. kGet K ns n k' = Inr obj \<and> ko_deletion obj = Some t)"
proof -
  from delete_view [OF assms] consider "view k' (ns, n) = None" | obj t where "view k' (ns, n) = Some (obj\<lparr>ko_deletion := Some t\<rparr>)"
    by auto
  then show ?thesis
  proof cases
    case 1
    then show ?thesis using get_missing by blast
  next
    case (2 obj t)
    then show ?thesis using get_live by fastforce
  qed
qed

end

section \<open>A server with several kinds of object\<close>

text \<open>
  The objects of one kind are a part of the state of the server; \<open>lift_api\<close> acts on that part.
\<close>

definition lift_api :: "('k \<Rightarrow> 'a) \<Rightarrow> ('a \<Rightarrow> 'k \<Rightarrow> 'k) \<Rightarrow> ('a, 'b) kube_api \<Rightarrow> ('k, 'b) kube_api" where
  "lift_api get put K =
     \<lparr>kGet = (\<lambda>ns n k. kGet K ns n (get k)),
      kList = (\<lambda>ns k. kList K ns (get k)),
      kCreate = (\<lambda>obj k. let (a, r) = kCreate K obj (get k) in (put a k, r)),
      kUpdate = (\<lambda>obj k. let (a, r) = kUpdate K obj (get k) in (put a k, r)),
      kDelete = (\<lambda>ns n k. let (a, r) = kDelete K ns n (get k) in (put a k, r))\<rparr>"

lemma lift_api_live:
  assumes "kube_live K view kept" "\<And>a k. get (put a k) = a"
  shows "kube_live (lift_api get put K) (\<lambda>k. view (get k)) kept"
proof -
  have K: "kube_laws K view kept" using assms(1) by (simp add: kube_live_def)
  have view: "kCreate (lift_api get put K) obj k = (k', r) \<Longrightarrow> kCreate K obj (get k) = (get k', r)"
    "kUpdate (lift_api get put K) obj k = (k', r) \<Longrightarrow> kUpdate K obj (get k) = (get k', r)"
    "kDelete (lift_api get put K) ns n k = (k', r) \<Longrightarrow> kDelete K ns n (get k) = (get k', r)"
    "kGet (lift_api get put K) ns n k = kGet K ns n (get k)" "kList (lift_api get put K) ns k = kList K ns (get k)" for obj k k' r ns n
    by (auto simp: lift_api_def assms(2) split: prod.splits)
  note rules = kube_laws.get_view [OF K] kube_laws.view_key [OF K] kube_laws.list_view [OF K]
    kube_laws.create_view [OF K view(1)] kube_laws.create_err [OF K view(1)] kube_laws.update_view [OF K view(2)]
    kube_laws.update_err [OF K view(2)] kube_laws.delete_view [OF K view(3)] kube_laws.delete_err [OF K view(3)]
    kube_live.get_live [OF assms(1)] kube_live.get_missing [OF assms(1)]
  show ?thesis
    by (unfold_locales; (unfold view(4,5))?; (erule rules | rule kube_live.list_live [OF assms(1)]))
qed

end
