(* ===== verification/KubeResources.thy ===== *)
theory KubeResources
  imports Kube
begin

text \<open>
  The handlers of four namespaced resources: configuration maps, secrets, resource quotas and limit
  ranges (\<^verbatim>\<open>configmap_manager.go\<close>, \<^verbatim>\<open>secret_manager.go\<close>, \<^verbatim>\<open>resourcequota_manager.go\<close>,
  \<^verbatim>\<open>limitrange_manager.go\<close> and the name tables of \<^verbatim>\<open>k8sutil.go\<close> in \<^verbatim>\<open>pkg/handler\<close>). A Go map is an
  association list in the order in which it is enumerated; the order means nothing. The quantities
  of \<^verbatim>\<open>apimachinery\<close> are an unknown type \<open>'q\<close> with its parser and printer.
\<close>

section \<open>Configuration maps\<close>

record config_map =
  cm_ID :: string
  cm_CreationTimestamp :: time
  cm_DeletionTimestamp :: "time option"
  cm_Name :: string
  cm_Configs :: "(string \<times> string) list"

type_synonym pairs = "(string \<times> string) list"

abbreviation ErrDuplicateKeyInConfigMap :: goerr where "ErrDuplicateKeyInConfigMap \<equiv> ''duplicate key in configmap''"
abbreviation ErrUpdateDeletingConfigMap :: goerr where "ErrUpdateDeletingConfigMap \<equiv> ''configmap is deleting''"

text \<open>The loops that build a map and stop at a repeated key.\<close>

fun build_map :: "goerr \<Rightarrow> pairs \<Rightarrow> pairs \<Rightarrow> goerr + pairs" where
  "build_map dup data [] = Inr data"
| "build_map dup data ((k, v) # kvs) =
     (if map_of data k \<noteq> None then Inl dup else build_map dup (data @ [(k, v)]) kvs)"

definition scConfigMapToK8sConfigMap :: "config_map \<Rightarrow> string \<Rightarrow> goerr + pairs k8s_obj" where
  "scConfigMapToK8sConfigMap cm ns =
     map_sum (\<lambda>e. e) (new_obj ns (cm_Name cm)) (build_map ErrDuplicateKeyInConfigMap [] (cm_Configs cm))"

definition k8sConfigMapToSCConfigMap :: "pairs k8s_obj \<Rightarrow> config_map" where
  "k8sConfigMapToSCConfigMap obj =
     \<lparr>cm_ID = ko_name obj, cm_CreationTimestamp = ko_creation obj, cm_DeletionTimestamp = ko_deletion obj,
      cm_Name = ko_name obj, cm_Configs = ko_body obj\<rparr>"

definition createConfigMap :: "('k, pairs) kube_api \<Rightarrow> string \<Rightarrow> config_map \<Rightarrow> 'k \<Rightarrow> 'k \<times> k8s_err option" where
  "createConfigMap K ns cm = crud_create K (scConfigMapToK8sConfigMap cm ns)"

definition updateConfigMap :: "('k, pairs) kube_api \<Rightarrow> string \<Rightarrow> config_map \<Rightarrow> 'k \<Rightarrow> 'k \<times> k8s_err option" where
  "updateConfigMap K ns cm k =
     (case kGet K ns (cm_ID cm) k of
        Inl e \<Rightarrow> (k, Some e)
      | Inr target \<Rightarrow>
          if ko_deletion target \<noteq> None then (k, Some (OwnErr ErrUpdateDeletingConfigMap))
          else (case scConfigMapToK8sConfigMap cm ns of
                  Inl e \<Rightarrow> (k, Some (OwnErr e))
                | Inr obj \<Rightarrow> kUpdate K (target\<lparr>ko_body := ko_body obj\<rparr>) k))"

definition cm_Create :: "('k, pairs) kube_api \<Rightarrow> config_map sub_ctx \<Rightarrow> 'k kubes \<Rightarrow> 'k kubes \<times> (api_error + config_map)" where
  "cm_Create K ctx = on_cluster ctx (\<lambda>k.
     let cm = sx_resource ctx
     in answer (\<lambda>e. if IsAlreadyExists e then APIError DuplicateResource (''duplicate configmap name '' @ cm_Name cm)
                    else if e = OwnErr ErrDuplicateKeyInConfigMap
                    then APIError DuplicateResource (''duplicate key in configmap '' @ cm_Name cm)
                    else APIError ConnectClusterFailed (''create configmap failed '' @ k8s_text e))
          (cm\<lparr>cm_ID := cm_Name cm\<rparr>) (createConfigMap K (sx_namespace ctx) cm k))"

definition cm_Update :: "('k, pairs) kube_api \<Rightarrow> config_map sub_ctx \<Rightarrow> 'k kubes \<Rightarrow> 'k kubes \<times> (api_error + config_map)" where
  "cm_Update K ctx = on_cluster ctx (\<lambda>k.
     let cm = sx_resource ctx
     in answer (\<lambda>e. if IsNotFound e then APIError NotFound (''no found configmap '' @ cm_ID cm)
                    else APIError ConnectClusterFailed (''update configmap failed '' @ k8s_text e))
          cm (updateConfigMap K (sx_namespace ctx) cm k))"

definition cm_List :: "('k, pairs) kube_api \<Rightarrow> config_map sub_ctx \<Rightarrow> 'k kubes \<Rightarrow> api_error + config_map list" where
  "cm_List K ctx = read_cluster ctx (\<lambda>k.
     case kList K (sx_namespace ctx) k of
       Inl e \<Rightarrow> Inl (if IsNotFound e then APIError NotFound ''no found configmaps''
                    else APIError ServerError (''list configmaps failed '' @ k8s_text e))
     | Inr objs \<Rightarrow> Inr (map k8sConfigMapToSCConfigMap objs))"

definition cm_Get :: "('k, pairs) kube_api \<Rightarrow> config_map sub_ctx \<Rightarrow> 'k kubes \<Rightarrow> api_error + config_map" where
  "cm_Get K ctx = read_cluster ctx (\<lambda>k.
     let cid = cm_ID (sx_resource ctx)
     in case kGet K (sx_namespace ctx) cid k of
          Inl e \<Rightarrow> Inl (if IsNotFound e then APIError NotFound (''no found configmap '' @ cid)
                       else APIError ServerError (''get configmap '' @ cid @ '' failed '' @ k8s_text e))
        | Inr obj \<Rightarrow> Inr (k8sConfigMapToSCConfigMap obj))"

text \<open>The message of a missing map names the namespace, not the map.\<close>

definition cm_Delete :: "('k, pairs) kube_api \<Rightarrow> config_map sub_ctx \<Rightarrow> 'k kubes \<Rightarrow> 'k kubes \<times> (api_error + unit)" where
  "cm_Delete K ctx = on_cluster ctx (\<lambda>k.
     answer (\<lambda>e. if IsNotFound e then APIError NotFound (''configmap '' @ sx_namespace ctx @ '' desn't exist'')
                 else APIError ServerError (''delete configmap failed '' @ k8s_text e))
       () (kDelete K (sx_namespace ctx) (cm_ID (sx_resource ctx)) k))"

section \<open>Secrets\<close>

record secret =
  sec_ID :: string
  sec_CreationTimestamp :: time
  sec_DeletionTimestamp :: "time option"
  sec_Name :: string
  sec_Data :: "(string \<times> string) list"

record secret_body =
  sb_data :: pairs
  sb_type :: string

abbreviation ErrDuplicateKeyInSecret :: goerr where "ErrDuplicateKeyInSecret \<equiv> ''duplicate key in secret''"
abbreviation ErrUpdateDeletingSecret :: goerr where "ErrUpdateDeletingSecret \<equiv> ''secret is deleting''"

definition scSecretToK8sSecret :: "secret \<Rightarrow> string \<Rightarrow> goerr + secret_body k8s_obj" where
  "scSecretToK8sSecret s ns =
     map_sum (\<lambda>e. e) (\<lambda>data. new_obj ns (sec_Name s) \<lparr>sb_data = data, sb_type = ''Opaque''\<rparr>)
       (build_map ErrDuplicateKeyInSecret [] (sec_Data s))"

definition k8sSecretToSCSecret :: "secret_body k8s_obj \<Rightarrow> secret" where
  "k8sSecretToSCSecret obj =
     \<lparr>sec_ID = ko_name obj, sec_CreationTimestamp = ko_creation obj, sec_DeletionTimestamp = ko_deletion obj,
      sec_Name = ko_name obj, sec_Data = sb_data (ko_body obj)\<rparr>"

definition createSecret :: "('k, secret_body) kube_api \<Rightarrow> string \<Rightarrow> secret \<Rightarrow> 'k \<Rightarrow> 'k \<times> k8s_err option" where
  "createSecret K ns s = crud_create K (scSecretToK8sSecret s ns)"

definition updateSecret :: "('k, secret_body) kube_api \<Rightarrow> string \<Rightarrow> secret \<Rightarrow> 'k \<Rightarrow> 'k \<times> k8s_err option" where
  "updateSecret K ns s k =
     (case kGet K ns (sec_ID s) k of
        Inl e \<Rightarrow> (k, Some e)
      | Inr target \<Rightarrow>
          if ko_deletion target \<noteq> None then (k, Some (OwnErr ErrUpdateDeletingSecret))
          else (case scSecretToK8sSecret s ns of
                  Inl e \<Rightarrow> (k, Some (OwnErr e))
                | Inr obj \<Rightarrow>
                    kUpdate K (target\<lparr>ko_body := (ko_body target)
                      \<lparr>sb_data := sb_data (ko_body obj), sb_type := sb_type (ko_body obj)\<rparr>\<rparr>) k))"

definition sec_Create :: "('k, secret_body) kube_api \<Rightarrow> secret sub_ctx \<Rightarrow> 'k kubes \<Rightarrow> 'k kubes \<times> (api_error + secret)" where
  "sec_Create K ctx = on_cluster ctx (\<lambda>k.
     let s = sx_resource ctx
     in answer (\<lambda>e. if IsAlreadyExists e then APIError DuplicateResource (''duplicate secret name '' @ sec_Name s)
                    else APIError ConnectClusterFailed (''create secret failed '' @ k8s_text e))
          (s\<lparr>sec_ID := sec_Name s\<rparr>) (createSecret K (sx_namespace ctx) s k))"

definition sec_Update :: "('k, secret_body) kube_api \<Rightarrow> secret sub_ctx \<Rightarrow> 'k kubes \<Rightarrow> 'k kubes \<times> (api_error + secret)" where
  "sec_Update K ctx = on_cluster ctx (\<lambda>k.
     let s = sx_resource ctx
     in answer (\<lambda>e. if IsNotFound e then APIError NotFound (''no found secret '' @ sec_ID s)
                    else APIError ConnectClusterFailed (''update secret '' @ sec_ID s @ '' failed '' @ k8s_text e))
          s (updateSecret K (sx_namespace ctx) s k))"

definition sec_List :: "('k, secret_body) kube_api \<Rightarrow> secret sub_ctx \<Rightarrow> 'k kubes \<Rightarrow> api_error + secret list" where
  "sec_List K ctx = read_cluster ctx (\<lambda>k.
     case kList K (sx_namespace ctx) k of
       Inl e \<Rightarrow> Inl (if IsNotFound e then APIError NotFound ''no found secrets''
                    else APIError ServerError (''list secrets failed '' @ k8s_text e))
     | Inr objs \<Rightarrow> Inr (map k8sSecretToSCSecret objs))"

definition sec_Get :: "('k, secret_body) kube_api \<Rightarrow> secret sub_ctx \<Rightarrow> 'k kubes \<Rightarrow> api_error + secret" where
  "sec_Get K ctx = read_cluster ctx (\<lambda>k.
     let cid = sec_ID (sx_resource ctx)
     in case kGet K (sx_namespace ctx) cid k of
          Inl e \<Rightarrow> Inl (if IsNotFound e then APIError NotFound (''no found secret '' @ cid)
                       else APIError ServerError (''get secret '' @ cid @ '' failed '' @ k8s_text e))
        | Inr obj \<Rightarrow> Inr (k8sSecretToSCSecret obj))"

definition sec_Delete :: "('k, secret_body) kube_api \<Rightarrow> secret sub_ctx \<Rightarrow> 'k kubes \<Rightarrow> 'k kubes \<times> (api_error + unit)" where
  "sec_Delete K ctx ks =
     (case ks (sx_cluster ctx) of
        None \<Rightarrow> (ks, Inl (APIError NotFound ''cluster doesn`t exists''))
      | Some _ \<Rightarrow>
          on_cluster ctx (\<lambda>k.
            answer (\<lambda>e. if IsNotFound e then APIError NotFound (''no found secret '' @ sec_ID (sx_resource ctx))
                        else APIError ServerError (''delete secret failed '' @ k8s_text e))
              () (kDelete K (sx_namespace ctx) (sec_ID (sx_resource ctx)) k)) ks)"

section \<open>Quantities and resource names\<close>

record 'q quantity_lib =
  parseQuantity :: "string \<Rightarrow> goerr + 'q"
  quantityString :: "'q \<Rightarrow> string"

text \<open>
  \<open>strings.ToLower\<close> as far as equality with an ASCII text goes: besides the capital letters only the
  dotted capital I and the Kelvin sign are mapped to ASCII.
\<close>

definition lower_char :: "char \<Rightarrow> char" where
  "lower_char c = (if 65 \<le> (of_char c :: nat) \<and> (of_char c :: nat) \<le> 90 then char_of ((of_char c :: nat) + 32) else c)"

function toLower :: "string \<Rightarrow> string" where
  "toLower s =
     (case s of
        [] \<Rightarrow> []
      | c # cs \<Rightarrow>
          if hasPrefix s [CHR 0xC4, CHR 0xB0] then CHR ''i'' # toLower (drop 1 cs)
          else if hasPrefix s [CHR 0xE2, CHR 0x84, CHR 0xAA] then CHR ''k'' # toLower (drop 2 cs)
          else lower_char c # toLower cs)"
  by pat_completeness auto
termination
  by (relation "measure length") auto

declare toLower.simps [simp del]

definition scResourceNameToK8sResourceName :: "string \<Rightarrow> goerr + string" where
  "scResourceNameToK8sResourceName name =
     (if toLower name \<in> {''cpu'', ''memory''} then Inr (toLower name)
      else Inl (''resoucename '' @ name @ '' isn`t supported''))"

definition scQuotaResourceNameToK8sResourceName :: "string \<Rightarrow> goerr + string" where
  "scQuotaResourceNameToK8sResourceName name =
     (if toLower name \<in> {''requests.cpu'', ''requests.memory'', ''limits.cpu'', ''limits.memory'', ''requests.storage''}
      then Inr (toLower name)
      else Inl (''resourcename '' @ name @ '' isn`t supported''))"

type_synonym 'q resource_list = "(string \<times> 'q) list"

text \<open>The loop shared by both translations of a resource list; a name given twice keeps its last quantity.\<close>

fun to_k8s_list ::
  "(string \<Rightarrow> goerr + string) \<Rightarrow> 'q quantity_lib \<Rightarrow> 'q resource_list \<Rightarrow> pairs \<Rightarrow> goerr + 'q resource_list" where
  "to_k8s_list nm Q acc [] = Inr acc"
| "to_k8s_list nm Q acc ((name, quantity) # kvs) =
     (case nm name of
        Inl e \<Rightarrow> Inl (''parse resource name '' @ name @ '' failed: '' @ e)
      | Inr k8sname \<Rightarrow>
          (case parseQuantity Q quantity of
             Inl e \<Rightarrow> Inl (''parse resource '' @ name @ '' quantity '' @ quantity @ '' failed: '' @ e)
           | Inr q \<Rightarrow> to_k8s_list nm Q (AList.update k8sname q acc) kvs))"

definition scQuotaResourceListToK8sResourceList :: "'q quantity_lib \<Rightarrow> pairs \<Rightarrow> goerr + 'q resource_list" where
  "scQuotaResourceListToK8sResourceList Q = to_k8s_list scQuotaResourceNameToK8sResourceName Q []"

definition scLimitResourceListToK8sResourceList :: "'q quantity_lib \<Rightarrow> pairs \<Rightarrow> goerr + 'q resource_list" where
  "scLimitResourceListToK8sResourceList Q = to_k8s_list scResourceNameToK8sResourceName Q []"

definition k8sResourceListToSCQuotaResourceList :: "'q quantity_lib \<Rightarrow> 'q resource_list \<Rightarrow> pairs" where
  "k8sResourceListToSCQuotaResourceList Q rl =
     map (\<lambda>(n, q). (n, quantityString Q q))
       (filter (\<lambda>(n, q). n \<in> {''requests.cpu'', ''requests.memory'', ''limits.cpu'', ''limits.memory'', ''requests.storage''}) rl)"

definition k8sResourceListToSCLimitResourceList :: "'q quantity_lib \<Rightarrow> 'q resource_list \<Rightarrow> pairs" where
  "k8sResourceListToSCLimitResourceList Q rl =
     map (\<lambda>(n, q). (n, quantityString Q q)) (filter (\<lambda>(n, q). n \<in> {''cpu'', ''memory''}) rl)"

section \<open>Resource quotas\<close>

record resource_quota =
  rq_ID :: string
  rq_CreationTimestamp :: time
  rq_DeletionTimestamp :: "time option"
  rq_Name :: string
  rq_Limits :: pairs
  rq_StatusLimits :: pairs
  rq_StatusUsed :: pairs

record 'q quota_body =
  qb_hard :: "'q resource_list"
  qb_statusHard :: "'q resource_list"
  qb_statusUsed :: "'q resource_list"

definition k8sResourceQuotaToSCResourceQuota :: "'q quantity_lib \<Rightarrow> 'q quota_body k8s_obj \<Rightarrow> resource_quota" where
  "k8sResourceQuotaToSCResourceQuota Q obj =
     \<lparr>rq_ID = ko_name obj, rq_CreationTimestamp = ko_creation obj, rq_DeletionTimestamp = ko_deletion obj,
      rq_Name = ko_name obj, rq_Limits = k8sResourceListToSCQuotaResourceList Q (qb_hard (ko_body obj)),
      rq_StatusLimits = k8sResourceListToSCQuotaResourceList Q (qb_statusHard (ko_body obj)),
      rq_StatusUsed = k8sResourceListToSCQuotaResourceList Q (qb_statusUsed (ko_body obj))\<rparr>"

definition scResourceQuotaToK8s :: "'q quantity_lib \<Rightarrow> resource_quota \<Rightarrow> string \<Rightarrow> goerr + 'q quota_body k8s_obj" where
  "scResourceQuotaToK8s Q r ns =
     map_sum (\<lambda>e. e) (\<lambda>hard. new_obj ns (rq_Name r) \<lparr>qb_hard = hard, qb_statusHard = [], qb_statusUsed = []\<rparr>)
       (scQuotaResourceListToK8sResourceList Q (rq_Limits r))"

definition createResourceQuota ::
  "'q quantity_lib \<Rightarrow> ('k, 'q quota_body) kube_api \<Rightarrow> string \<Rightarrow> resource_quota \<Rightarrow> 'k \<Rightarrow> 'k \<times> k8s_err option" where
  "createResourceQuota Q K ns r = crud_create K (scResourceQuotaToK8s Q r ns)"

definition rq_Create ::
  "'q quantity_lib \<Rightarrow> ('k, 'q quota_body) kube_api \<Rightarrow> resource_quota sub_ctx \<Rightarrow> 'k kubes \<Rightarrow> 'k kubes \<times> (api_error + resource_quota)" where
  "rq_Create Q K ctx = on_cluster ctx (\<lambda>k.
     let r = sx_resource ctx
     in answer (\<lambda>e. if IsAlreadyExists e then APIError DuplicateResource (''duplicate resourceQuota name '' @ rq_Name r)
                    else APIError ConnectClusterFailed (''create resourceQuota failed '' @ k8s_text e))
          (r\<lparr>rq_ID := rq_Name r\<rparr>) (createResourceQuota Q K (sx_namespace ctx) r k))"

definition rq_List ::
  "'q quantity_lib \<Rightarrow> ('k, 'q quota_body) kube_api \<Rightarrow> resource_quota sub_ctx \<Rightarrow> 'k kubes \<Rightarrow> api_error + resource_quota list" where
  "rq_List Q K ctx = read_cluster ctx (\<lambda>k.
     case kList K (sx_namespace ctx) k of
       Inl e \<Rightarrow> Inl (if IsNotFound e then APIError NotFound ''no found resourceQuotas''
                    else APIError ServerError (''list resourceQuotas failed '' @ k8s_text e))
     | Inr objs \<Rightarrow> Inr (map (k8sResourceQuotaToSCResourceQuota Q) objs))"

definition rq_Get ::
  "'q quantity_lib \<Rightarrow> ('k, 'q quota_body) kube_api \<Rightarrow> resource_quota sub_ctx \<Rightarrow> 'k kubes \<Rightarrow> api_error + resource_quota" where
  "rq_Get Q K ctx = read_cluster ctx (\<lambda>k.
     let cid = rq_ID (sx_resource ctx)
     in case kGet K (sx_namespace ctx) cid k of
          Inl e \<Rightarrow> Inl (if IsNotFound e then APIError NotFound (''no found resourceQuota '' @ cid)
                       else APIError ServerError (''get resourceQuota '' @ cid @ '' failed '' @ k8s_text e))
        | Inr obj \<Rightarrow> Inr (k8sResourceQuotaToSCResourceQuota Q obj))"

definition rq_Delete ::
  "('k, 'q quota_body) kube_api \<Rightarrow> resource_quota sub_ctx \<Rightarrow> 'k kubes \<Rightarrow> 'k kubes \<times> (api_error + unit)" where
  "rq_Delete K ctx = on_cluster ctx (\<lambda>k.
     let cid = rq_ID (sx_resource ctx)
     in answer (\<lambda>e. if IsNotFound e then APIError NotFound (''no found resourceQuota '' @ cid)
                    else APIError ServerError (''delete resourceQuota '' @ cid @ '' failed '' @ k8s_text e))
          () (kDelete K (sx_namespace ctx) cid k))"

section \<open>Limit ranges\<close>

record limit_range =
  lr_ID :: string
  lr_CreationTimestamp :: time
  lr_DeletionTimestamp :: "time option"
  lr_Name :: string
  lr_Max :: pairs
  lr_Min :: pairs

record 'q limit_item =
  li_type :: string
  li_max :: "'q resource_list"
  li_min :: "'q resource_list"

abbreviation LimitTypeContainer :: string where "LimitTypeContainer \<equiv> ''Container''"

definition scLimitRangeToK8s :: "'q quantity_lib \<Rightarrow> limit_range \<Rightarrow> string \<Rightarrow> goerr + 'q limit_item list k8s_obj" where
  "scLimitRangeToK8s Q l ns =
     (if lr_Max l = [] \<and> lr_Min l = [] then Inl ''limit range must set min or max''
      else (case scLimitResourceListToK8sResourceList Q (lr_Max l) of
              Inl e \<Rightarrow> Inl (''parse limitrange max failed: '' @ e)
            | Inr mx \<Rightarrow>
                (case scLimitResourceListToK8sResourceList Q (lr_Min l) of
                   Inl e \<Rightarrow> Inl (''parse limitrange min failed: '' @ e)
                 | Inr mn \<Rightarrow> Inr (new_obj ns (lr_Name l) [\<lparr>li_type = LimitTypeContainer, li_max = mx, li_min = mn\<rparr>]))))"

definition createLimitRange ::
  "'q quantity_lib \<Rightarrow> ('k, 'q limit_item list) kube_api \<Rightarrow> string \<Rightarrow> limit_range \<Rightarrow> 'k \<Rightarrow> 'k \<times> k8s_err option" where
  "createLimitRange Q K ns l = crud_create K (scLimitRangeToK8s Q l ns)"

definition k8sLimitRangeToSCLimitRange :: "'q quantity_lib \<Rightarrow> 'q limit_item list k8s_obj \<Rightarrow> limit_range" where
  "k8sLimitRangeToSCLimitRange Q obj =
     (let l = \<lparr>lr_ID = ko_name obj, lr_CreationTimestamp = ko_creation obj, lr_DeletionTimestamp = ko_deletion obj,
               lr_Name = ko_name obj, lr_Max = [], lr_Min = []\<rparr>
      in case List.find (\<lambda>i. li_type i = LimitTypeContainer) (ko_body obj) of
           None \<Rightarrow> l
         | Some i \<Rightarrow> l\<lparr>lr_Max := k8sResourceListToSCLimitResourceList Q (li_max i),
                       lr_Min := k8sResourceListToSCLimitResourceList Q (li_min i)\<rparr>)"

definition lr_Create ::
  "'q quantity_lib \<Rightarrow> ('k, 'q limit_item list) kube_api \<Rightarrow> limit_range sub_ctx \<Rightarrow> 'k kubes \<Rightarrow> 'k kubes \<times> (api_error + limit_range)" where
  "lr_Create Q K ctx = on_cluster ctx (\<lambda>k.
     let l = sx_resource ctx
     in answer (\<lambda>e. if IsAlreadyExists e then APIError DuplicateResource (''duplicate limitRange name '' @ lr_Name l)
                    else APIError ConnectClusterFailed (''create limitRange failed '' @ k8s_text e))
          (l\<lparr>lr_ID := lr_Name l\<rparr>) (createLimitRange Q K (sx_namespace ctx) l k))"

definition lr_List ::
  "'q quantity_lib \<Rightarrow> ('k, 'q limit_item list) kube_api \<Rightarrow> limit_range sub_ctx \<Rightarrow> 'k kubes \<Rightarrow> api_error + limit_range list" where
  "lr_List Q K ctx = read_cluster ctx (\<lambda>k.
     case kList K (sx_namespace ctx) k of
       Inl e \<Rightarrow> Inl (if IsNotFound e then APIError NotFound ''no found limitRanges''
                    else APIError ServerError (''list limitRanges failed '' @ k8s_text e))
     | Inr objs \<Rightarrow> Inr (map (k8sLimitRangeToSCLimitRange Q) objs))"

definition lr_Get ::
  "'q quantity_lib \<Rightarrow> ('k, 'q limit_item list) kube_api \<Rightarrow> limit_range sub_ctx \<Rightarrow> 'k kubes \<Rightarrow> api_error + limit_range" where
  "lr_Get Q K ctx = read_cluster ctx (\<lambda>k.
     let cid = lr_ID (sx_resource ctx)
     in case kGet K (sx_namespace ctx) cid k of
          Inl e \<Rightarrow> Inl (if IsNotFound e then APIError NotFound (''no found limitRange '' @ cid)
                       else APIError ServerError (''get limitRange '' @ cid @ '' failed '' @ k8s_text e))
        | Inr obj \<Rightarrow> Inr (k8sLimitRangeToSCLimitRange Q obj))"

definition lr_Delete ::
  "('k, 'q limit_item list) kube_api \<Rightarrow> limit_range sub_ctx \<Rightarrow> 'k kubes \<Rightarrow> 'k kubes \<times> (api_error + unit)" where
  "lr_Delete K ctx = on_cluster ctx (\<lambda>k.
     let cid = lr_ID (sx_resource ctx)
     in answer (\<lambda>e. if IsNotFound e then APIError NotFound (''no found limitRange '' @ cid)
                    else APIError ServerError (''delete limitRange '' @ cid @ '' failed '' @ k8s_text e))
          () (kDelete K (sx_namespace ctx) cid k))"

section \<open>Conversions there and back\<close>

lemma build_map_eq:
  "build_map dup data kvs =
     (if distinct (map fst kvs) \<and> set (map fst kvs) \<inter> set (map fst data) = {} then Inr (data @ kvs) else Inl dup)"
proof (induction dup data kvs rule: build_map.induct)
  case (2 dup data k v kvs)
  show ?case
  proof (cases "map_of data k = None")
    case True
    then have "k \<notin> set (map fst data)" by (simp add: map_of_eq_None_iff)
    then show ?thesis using 2 True by auto
  next
    case False
    then have "k \<in> set (map fst data)" by (auto simp: map_of_eq_None_iff)
    then show ?thesis using False by auto
  qed
qed simp

lemma build_map_Nil: "build_map dup [] kvs = (if distinct (map fst kvs) then Inr kvs else Inl dup)"
  by (simp add: build_map_eq)

text \<open>A table of resource names gives only supported names and leaves these alone.\<close>

definition name_table :: "(string \<Rightarrow> goerr + string) \<Rightarrow> string set \<Rightarrow> bool" where
  "name_table nm A \<longleftrightarrow> (\<forall>x y. nm x = Inr y \<longrightarrow> y \<in> A) \<and> (\<forall>y \<in> A. nm y = Inr y)"

lemma toLower_plain:
  "list_all (\<lambda>c. (of_char c :: nat) < 65 \<or> 90 < (of_char c :: nat) \<and> (of_char c :: nat) < 128) s \<Longrightarrow> toLower s = s"
proof (induction s)
  case (Cons c s)
  moreover have "of_char c < (128 :: nat)" using Cons.prems by auto
  ultimately show ?case
    by (auto simp: toLower.simps [of "c # s"] hasPrefix_def lower_char_def)
qed (simp add: toLower.simps)

lemma quota_names:
  "name_table scQuotaResourceNameToK8sResourceName
     {''requests.cpu'', ''requests.memory'', ''limits.cpu'', ''limits.memory'', ''requests.storage''}"
  by (auto simp: name_table_def scQuotaResourceNameToK8sResourceName_def toLower_plain split: if_splits)

lemma limit_names: "name_table scResourceNameToK8sResourceName {''cpu'', ''memory''}"
  by (auto simp: name_table_def scResourceNameToK8sResourceName_def toLower_plain split: if_splits)

lemma to_k8s_list_keys:
  "name_table nm A \<Longrightarrow> to_k8s_list nm Q acc kvs = Inr h \<Longrightarrow> distinct (map fst acc) \<Longrightarrow> fst ` set acc \<subseteq> A \<Longrightarrow>
   distinct (map fst h) \<and> fst ` set h \<subseteq> A"
proof (induction nm Q acc kvs arbitrary: h rule: to_k8s_list.induct)
  case (2 nm Q acc name quantity kvs)
  obtain n where n: "nm name = Inr n" using "2.prems"(2) by (cases "nm name") auto
  obtain q where q: "parseQuantity Q quantity = Inr q" using "2.prems"(2) n by (cases "parseQuantity Q quantity") auto
  have "n \<in> A" using "2.prems"(1) n by (auto simp: name_table_def)
  then have "fst ` set (AList.update n q acc) \<subseteq> A" using "2.prems"(4) by (simp add: AList.dom_update)
  moreover have "distinct (map fst (AList.update n q acc))" using "2.prems"(3) by (rule distinct_update)
  moreover have "to_k8s_list nm Q (AList.update n q acc) kvs = Inr h" using "2.prems"(2) n q by simp
  ultimately show ?case using "2.IH" [OF n q "2.prems"(1)] by blast
qed simp

lemma to_k8s_list_shown:
  assumes "name_table nm A" "\<And>q. parseQuantity Q (quantityString Q q) = Inr q"
  shows "fst ` set rl \<subseteq> A \<Longrightarrow> to_k8s_list nm Q acc (map (\<lambda>(n, q). (n, quantityString Q q)) rl)
      = Inr (foldl (\<lambda>a (n, q). AList.update n q a) acc rl)"
proof (induction rl arbitrary: acc)
  case (Cons x rl)
  obtain n q where x: "x = (n, q)" by (cases x)
  then have "nm n = Inr n" using Cons.prems assms(1) by (auto simp: name_table_def)
  then show ?case using Cons assms(2) by (simp add: x)
qed simp

lemma map_of_fold_update:
  "distinct (map fst rl) \<Longrightarrow> map_of (foldl (\<lambda>a (n, q). AList.update n q a) acc rl) = map_of acc ++ map_of rl"
proof (induction rl arbitrary: acc)
  case (Cons x rl)
  obtain n q where x: "x = (n, q)" by (cases x)
  have "map_of acc ++ map_of (x # rl) = (map_of acc)(n \<mapsto> q) ++ map_of rl"
    using Cons.prems by (simp add: x map_add_upd_left dom_map_of_conv_image_fst)
  moreover have "map_of (foldl (\<lambda>a (n, q). AList.update n q a) acc (x # rl)) = (map_of acc)(n \<mapsto> q) ++ map_of rl"
    using Cons by (simp add: x AList.update_conv')
  ultimately show ?case by (simp only:)
qed simp

text \<open>
  The quantities of a stored list, written as text and read again, are the same quantities.
\<close>

definition proper :: "'q resource_list \<Rightarrow> (string \<rightharpoonup> 'q) \<times> bool" where
  "proper rl = (map_of rl, distinct (map fst rl))"

lemma shown_list_means:
  assumes "name_table nm A" "\<And>q. parseQuantity Q (quantityString Q q) = Inr q"
    and "to_k8s_list nm Q [] submitted = Inr h" "proper stored = proper h"
  shows "\<exists>h'. to_k8s_list nm Q [] (map (\<lambda>(n, q). (n, quantityString Q q)) (filter (\<lambda>(n, q). n \<in> A) stored)) = Inr h'
    \<and> map_of h' = map_of h"
proof -
  have h: "distinct (map fst h)" "fst ` set h \<subseteq> A" using to_k8s_list_keys [OF assms(1,3)] by simp_all
  have m: "map_of stored = map_of h" "distinct (map fst stored)" using assms(4) h(1) by (simp_all add: proper_def)
  have "fst ` set stored = dom (map_of stored)" "fst ` set h = dom (map_of h)" by (simp_all add: dom_map_of_conv_image_fst)
  then have k: "fst ` set stored \<subseteq> A" using m(1) h(2) by simp
  then have "filter (\<lambda>(n, q). n \<in> A) stored = stored" by (auto simp: filter_id_conv)
  with to_k8s_list_shown [OF assms(1,2) k, of "[]"] map_of_fold_update [OF m(2), of "[]"] m(1) show ?thesis by simp
qed

section \<open>Properties\<close>

lemma on_cluster_answer:
  "on_cluster ctx (\<lambda>k. answer err a (f k)) ks = (ks', Inr b) \<longleftrightarrow>
   (\<exists>k k'. ks (sx_cluster ctx) = Some k \<and> f k = (k', None) \<and> ks' = ks(sx_cluster ctx \<mapsto> k') \<and> b = a)"
  by (auto simp: on_cluster_def answer_def split: option.splits prod.splits)

lemma crud_create_ok: "crud_create K conv k = (k', None) \<longleftrightarrow> (\<exists>obj. conv = Inr obj \<and> kCreate K obj k = (k', None))"
  by (auto simp: crud_create_def split: sum.splits)

lemma cm_create_get:
  assumes "kube_live K view map_of" "cm_Create K ctx ks = (ks', Inr cm)"
  shows "distinct (map fst (cm_Configs (sx_resource ctx)))
    \<and> (\<exists>cm'. cm_Get K (ctx\<lparr>sx_resource := cm\<rparr>) ks' = Inr cm' \<and> cm_Name cm' = cm_Name (sx_resource ctx)
         \<and> map_of (cm_Configs cm') = map_of (cm_Configs (sx_resource ctx)))"
proof -
  let ?cm = "sx_resource ctx" and ?ns = "sx_namespace ctx"
  obtain k k' obj where c: "scConfigMapToK8sConfigMap ?cm ?ns = Inr obj" "kCreate K obj k = (k', None)"
    "ks' = ks(sx_cluster ctx \<mapsto> k')" "cm = ?cm\<lparr>cm_ID := cm_Name ?cm\<rparr>"
    using assms(2) by (auto simp: cm_Create_def on_cluster_answer createConfigMap_def crud_create_ok Let_def)
  then have o: "distinct (map fst (cm_Configs ?cm))" "obj = new_obj ?ns (cm_Name ?cm) (cm_Configs ?cm)"
    by (auto simp: scConfigMapToK8sConfigMap_def build_map_Nil split: if_splits)
  obtain obj' where "kGet K ?ns (cm_Name ?cm) k' = Inr obj'" "ko_name obj' = cm_Name ?cm" "map_of (ko_body obj') = map_of (cm_Configs ?cm)"
    using kube_live.create_then_get [OF assms(1) c(2)] by (auto simp: o(2) new_obj_def)
  then show ?thesis
    using o(1) c(3,4) by (auto simp: cm_Get_def read_cluster_def k8sConfigMapToSCConfigMap_def Let_def)
qed

lemma cm_update_get:
  assumes "kube_live K view map_of" "cm_Update K ctx ks = (ks', Inr cm)"
  shows "\<exists>cm'. cm_Get K ctx ks' = Inr cm' \<and> map_of (cm_Configs cm') = map_of (cm_Configs (sx_resource ctx))"
proof -
  let ?cm = "sx_resource ctx" and ?ns = "sx_namespace ctx"
  obtain k k' where c: "updateConfigMap K ?ns ?cm k = (k', None)" "ks' = ks(sx_cluster ctx \<mapsto> k')"
    using assms(2) by (auto simp: cm_Update_def on_cluster_answer Let_def)
  then obtain target obj where t: "kGet K ?ns (cm_ID ?cm) k = Inr target" "scConfigMapToK8sConfigMap ?cm ?ns = Inr obj"
    "kUpdate K (target\<lparr>ko_body := ko_body obj\<rparr>) k = (k', None)"
    by (auto simp: updateConfigMap_def split: sum.splits if_splits)
  have laws: "kube_laws K view map_of" using assms(1) by (simp add: kube_live_def)
  have key: "ko_key target = (?ns, cm_ID ?cm)"
    using kube_laws.view_key [OF laws kube_laws.get_view [OF laws t(1)]] .
  have "ko_body obj = cm_Configs ?cm" using t(2) by (auto simp: scConfigMapToK8sConfigMap_def build_map_Nil new_obj_def split: if_splits)
  then obtain obj' where "kGet K ?ns (cm_ID ?cm) k' = Inr obj'" "map_of (ko_body obj') = map_of (cm_Configs ?cm)"
    using kube_live.update_then_get [OF assms(1) t(3)] key by auto
  then show ?thesis
    using c(2) by (auto simp: cm_Get_def read_cluster_def k8sConfigMapToSCConfigMap_def Let_def)
qed

lemma cm_delete_get:
  assumes "kube_live K view map_of" "cm_Delete K ctx ks = (ks', Inr ())"
  shows "(\<exists>m. cm_Get K ctx ks' = Inl (APIError NotFound m))
    \<or> (\<exists>cm'. cm_Get K ctx ks' = Inr cm' \<and> cm_DeletionTimestamp cm' \<noteq> None)"
proof -
  obtain k k' where c: "kDelete K (sx_namespace ctx) (cm_ID (sx_resource ctx)) k = (k', None)" "ks' = ks(sx_cluster ctx \<mapsto> k')"
    using assms(2) by (auto simp: cm_Delete_def on_cluster_answer)
  from kube_live.delete_then_get [OF assms(1) c(1)] c(2) show ?thesis
    by (auto simp: cm_Get_def read_cluster_def k8sConfigMapToSCConfigMap_def Let_def)
qed

lemma sec_create_get:
  assumes "kube_live S view (\<lambda>b. (map_of (sb_data b), sb_type b))" "sec_Create S ctx ks = (ks', Inr s)"
  shows "distinct (map fst (sec_Data (sx_resource ctx)))
    \<and> (\<exists>s'. sec_Get S (ctx\<lparr>sx_resource := s\<rparr>) ks' = Inr s' \<and> sec_Name s' = sec_Name (sx_resource ctx)
         \<and> map_of (sec_Data s') = map_of (sec_Data (sx_resource ctx)))"
proof -
  let ?s = "sx_resource ctx" and ?ns = "sx_namespace ctx"
  obtain k k' obj where c: "scSecretToK8sSecret ?s ?ns = Inr obj" "kCreate S obj k = (k', None)"
    "ks' = ks(sx_cluster ctx \<mapsto> k')" "s = ?s\<lparr>sec_ID := sec_Name ?s\<rparr>"
    using assms(2) by (auto simp: sec_Create_def on_cluster_answer createSecret_def crud_create_ok Let_def)
  then have o: "distinct (map fst (sec_Data ?s))" "obj = new_obj ?ns (sec_Name ?s) \<lparr>sb_data = sec_Data ?s, sb_type = ''Opaque''\<rparr>"
    by (auto simp: scSecretToK8sSecret_def build_map_Nil split: if_splits)
  obtain obj' where "kGet S ?ns (sec_Name ?s) k' = Inr obj'" "ko_name obj' = sec_Name ?s"
    "map_of (sb_data (ko_body obj')) = map_of (sec_Data ?s)"
    using kube_live.create_then_get [OF assms(1) c(2)] by (auto simp: o(2) new_obj_def)
  then show ?thesis
    using o(1) c(3,4) by (auto simp: sec_Get_def read_cluster_def k8sSecretToSCSecret_def Let_def)
qed

text \<open>
  Configuration maps and secrets there and back: what was created is found under its name with
  exactly the submitted keys and values (a repeated key is refused), an update that succeeds
  replaces them all, and after a deletion the map is gone or shown as being deleted.
\<close>

theorem configs_roundtrip:
  assumes "kube_live K view map_of" "kube_live S viewS (\<lambda>b. (map_of (sb_data b), sb_type b))"
  shows "(cm_Create K ctx ks = (ks', Inr cm) \<longrightarrow>
       distinct (map fst (cm_Configs (sx_resource ctx)))
       \<and> (\<exists>cm'. cm_Get K (ctx\<lparr>sx_resource := cm\<rparr>) ks' = Inr cm' \<and> cm_Name cm' = cm_Name (sx_resource ctx)
            \<and> map_of (cm_Configs cm') = map_of (cm_Configs (sx_resource ctx))))
    \<and> (cm_Update K ctx ks = (ks', Inr cm) \<longrightarrow>
       (\<exists>cm'. cm_Get K ctx ks' = Inr cm' \<and> map_of (cm_Configs cm') = map_of (cm_Configs (sx_resource ctx))))
    \<and> (cm_Delete K ctx ks = (ks', Inr ()) \<longrightarrow>
       (\<exists>m. cm_Get K ctx ks' = Inl (APIError NotFound m))
       \<or> (\<exists>cm'. cm_Get K ctx ks' = Inr cm' \<and> cm_DeletionTimestamp cm' \<noteq> None))
    \<and> (sec_Create S sctx ss = (ss', Inr s) \<longrightarrow>
       distinct (map fst (sec_Data (sx_resource sctx)))
       \<and> (\<exists>s'. sec_Get S (sctx\<lparr>sx_resource := s\<rparr>) ss' = Inr s' \<and> sec_Name s' = sec_Name (sx_resource sctx)
            \<and> map_of (sec_Data s') = map_of (sec_Data (sx_resource sctx))))"
  using cm_create_get [OF assms(1)] cm_update_get [OF assms(1)] cm_delete_get [OF assms(1)] sec_create_get [OF assms(2)]
  by blast

text \<open>The in-memory server keeps every part of a body.\<close>

lemma mem_kube_kept: "kube_live mem_kube mem_view f"
proof (unfold_locales, goal_cases)
  case (4 obj k k')
  then show ?case using mem_kube.create_view [OF 4] by metis
next
  case (6 obj k k')
  then show ?case using mem_kube.update_view [OF 6] by metis
next
  case (8 ns n k k')
  then show ?case by (rule mem_kube.delete_view)
qed (fact mem_kube.get_view mem_kube.view_key mem_kube.list_view mem_kube.create_err mem_kube.update_err mem_kube.delete_err
    mem_kube.get_live mem_kube.get_missing mem_kube.list_live)+

definition sample_cm_ctx :: "config_map sub_ctx" where
  "sample_cm_ctx =
     \<lparr>sx_cluster = ''local'', sx_namespace = ''default'',
      sx_resource = \<lparr>cm_ID = '''', cm_CreationTimestamp = 0, cm_DeletionTimestamp = None, cm_Name = ''conf'',
        cm_Configs = [(''a'', ''1''), (''b'', ''2'')]\<rparr>\<rparr>"

theorem configs_roundtrip_witness:
  "\<exists>ks' cm cm'. cm_Create mem_kube sample_cm_ctx [''local'' \<mapsto> []] = (ks', Inr cm)
    \<and> cm_Get mem_kube (sample_cm_ctx\<lparr>sx_resource := cm\<rparr>) ks' = Inr cm' \<and> cm_Name cm' = ''conf''
    \<and> map_of (cm_Configs cm') ''b'' = Some ''2''"
proof -
  obtain ks' cm where c: "cm_Create mem_kube sample_cm_ctx [''local'' \<mapsto> []] = (ks', Inr cm)"
    by (simp add: cm_Create_def on_cluster_def answer_def createConfigMap_def crud_create_def scConfigMapToK8sConfigMap_def
        sample_cm_ctx_def new_obj_def mem_kube_def Let_def)
  from configs_roundtrip [OF mem_kube_kept mem_kube_kept, THEN conjunct1, THEN mp, OF this]
  obtain cm' where "cm_Get mem_kube (sample_cm_ctx\<lparr>sx_resource := cm\<rparr>) ks' = Inr cm'" "cm_Name cm' = cm_Name (sx_resource sample_cm_ctx)"
    "map_of (cm_Configs cm') = map_of (cm_Configs (sx_resource sample_cm_ctx))" by blast
  with c show ?thesis by (auto simp: sample_cm_ctx_def)
qed

lemma scQuota_keys: "scQuotaResourceListToK8sResourceList Q kvs = Inr h \<Longrightarrow> distinct (map fst h)"
  using to_k8s_list_keys [OF quota_names, of Q "[]" kvs h] by (simp add: scQuotaResourceListToK8sResourceList_def)

lemma scLimit_keys: "scLimitResourceListToK8sResourceList Q kvs = Inr h \<Longrightarrow> distinct (map fst h)"
  using to_k8s_list_keys [OF limit_names, of Q "[]" kvs h] by (simp add: scLimitResourceListToK8sResourceList_def)

lemma rq_create_get:
  assumes "kube_live K view (\<lambda>b. proper (qb_hard b))" "\<And>q. parseQuantity Q (quantityString Q q) = Inr q"
    and "rq_Create Q K ctx ks = (ks', Inr r)"
  shows "\<exists>r' h h'. rq_Get Q K (ctx\<lparr>sx_resource := r\<rparr>) ks' = Inr r' \<and> rq_Name r' = rq_Name (sx_resource ctx)
    \<and> scQuotaResourceListToK8sResourceList Q (rq_Limits (sx_resource ctx)) = Inr h
    \<and> scQuotaResourceListToK8sResourceList Q (rq_Limits r') = Inr h' \<and> map_of h' = map_of h"
proof -
  let ?r = "sx_resource ctx" and ?ns = "sx_namespace ctx"
  obtain k k' obj where c: "scResourceQuotaToK8s Q ?r ?ns = Inr obj" "kCreate K obj k = (k', None)"
    "ks' = ks(sx_cluster ctx \<mapsto> k')" "r = ?r\<lparr>rq_ID := rq_Name ?r\<rparr>"
    using assms(3) by (auto simp: rq_Create_def on_cluster_answer createResourceQuota_def crud_create_ok Let_def)
  then obtain h where h: "scQuotaResourceListToK8sResourceList Q (rq_Limits ?r) = Inr h"
    "obj = new_obj ?ns (rq_Name ?r) \<lparr>qb_hard = h, qb_statusHard = [], qb_statusUsed = []\<rparr>"
    by (auto simp: scResourceQuotaToK8s_def map_sum_Inr_iff)
  obtain obj' where g: "kGet K ?ns (rq_Name ?r) k' = Inr obj'" "ko_name obj' = rq_Name ?r" "proper (qb_hard (ko_body obj')) = proper h"
    using kube_live.create_then_get [OF assms(1) c(2)] by (auto simp: h(2) new_obj_def)
  have "rq_Get Q K (ctx\<lparr>sx_resource := r\<rparr>) ks' = Inr (k8sResourceQuotaToSCResourceQuota Q obj')"
    using g(1) c(3,4) by (simp add: rq_Get_def read_cluster_def)
  moreover have "\<exists>h'. scQuotaResourceListToK8sResourceList Q (rq_Limits (k8sResourceQuotaToSCResourceQuota Q obj')) = Inr h' \<and> map_of h' = map_of h"
    using shown_list_means [OF quota_names assms(2) h(1) [unfolded scQuotaResourceListToK8sResourceList_def] g(3)]
    by (simp add: k8sResourceQuotaToSCResourceQuota_def k8sResourceListToSCQuotaResourceList_def scQuotaResourceListToK8sResourceList_def)
  ultimately show ?thesis using h(1) g(2) by (auto simp: k8sResourceQuotaToSCResourceQuota_def)
qed

lemma lr_create_get:
  assumes "kube_live K view (map (\<lambda>i. (li_type i, proper (li_max i), proper (li_min i))))"
    and "\<And>q. parseQuantity Q (quantityString Q q) = Inr q"
    and "lr_Create Q K ctx ks = (ks', Inr l)"
  shows "\<exists>l' mx mx' mn mn'. lr_Get Q K (ctx\<lparr>sx_resource := l\<rparr>) ks' = Inr l' \<and> lr_Name l' = lr_Name (sx_resource ctx)
    \<and> scLimitResourceListToK8sResourceList Q (lr_Max (sx_resource ctx)) = Inr mx
    \<and> scLimitResourceListToK8sResourceList Q (lr_Max l') = Inr mx' \<and> map_of mx' = map_of mx
    \<and> scLimitResourceListToK8sResourceList Q (lr_Min (sx_resource ctx)) = Inr mn
    \<and> scLimitResourceListToK8sResourceList Q (lr_Min l') = Inr mn' \<and> map_of mn' = map_of mn"
proof -
  let ?l = "sx_resource ctx" and ?ns = "sx_namespace ctx"
  obtain k k' obj where c: "scLimitRangeToK8s Q ?l ?ns = Inr obj" "kCreate K obj k = (k', None)"
    "ks' = ks(sx_cluster ctx \<mapsto> k')" "l = ?l\<lparr>lr_ID := lr_Name ?l\<rparr>"
    using assms(3) by (auto simp: lr_Create_def on_cluster_answer createLimitRange_def crud_create_ok Let_def)
  then obtain mx mn where m: "scLimitResourceListToK8sResourceList Q (lr_Max ?l) = Inr mx"
    "scLimitResourceListToK8sResourceList Q (lr_Min ?l) = Inr mn"
    "obj = new_obj ?ns (lr_Name ?l) [\<lparr>li_type = LimitTypeContainer, li_max = mx, li_min = mn\<rparr>]"
    by (auto simp: scLimitRangeToK8s_def split: if_splits sum.splits)
  obtain obj' where g: "kGet K ?ns (lr_Name ?l) k' = Inr obj'" "ko_name obj' = lr_Name ?l"
    "map (\<lambda>i. (li_type i, proper (li_max i), proper (li_min i))) (ko_body obj') = [(LimitTypeContainer, proper mx, proper mn)]"
    using kube_live.create_then_get [OF assms(1) c(2)] by (auto simp: m(3) new_obj_def)
  then obtain i where i: "ko_body obj' = [i]" "li_type i = LimitTypeContainer" "proper (li_max i) = proper mx" "proper (li_min i) = proper mn"
    by auto
  have G: "lr_Get Q K (ctx\<lparr>sx_resource := l\<rparr>) ks' = Inr (k8sLimitRangeToSCLimitRange Q obj')"
    using g(1) c(3,4) by (simp add: lr_Get_def read_cluster_def)
  note shown = shown_list_means [OF limit_names assms(2)]
  from shown [OF m(1) [unfolded scLimitResourceListToK8sResourceList_def] i(3)]
    shown [OF m(2) [unfolded scLimitResourceListToK8sResourceList_def] i(4)]
  obtain mx' mn' where s: "scLimitResourceListToK8sResourceList Q (lr_Max (k8sLimitRangeToSCLimitRange Q obj')) = Inr mx'" "map_of mx' = map_of mx"
    "scLimitResourceListToK8sResourceList Q (lr_Min (k8sLimitRangeToSCLimitRange Q obj')) = Inr mn'" "map_of mn' = map_of mn"
    by (auto simp: k8sLimitRangeToSCLimitRange_def k8sResourceListToSCLimitResourceList_def scLimitResourceListToK8sResourceList_def i(1,2))
  have "lr_Name (k8sLimitRangeToSCLimitRange Q obj') = lr_Name ?l" by (simp add: k8sLimitRangeToSCLimitRange_def i(1,2) g(2))
  with G s m(1,2) show ?thesis by blast
qed

text \<open>
  Resource quotas and limit ranges there and back: the limits shown for a created quota or range
  mean the same quantities as the submitted ones, even where their text differs, because reading
  them again gives the same resource list.
\<close>

theorem limits_roundtrip:
  assumes "kube_live K view (\<lambda>b. proper (qb_hard b))"
    and "kube_live L viewL (map (\<lambda>i. (li_type i, proper (li_max i), proper (li_min i))))"
    and "\<forall>q. parseQuantity Q (quantityString Q q) = Inr q"
  shows "(rq_Create Q K ctx ks = (ks', Inr r) \<longrightarrow>
       (\<exists>r' h h'. rq_Get Q K (ctx\<lparr>sx_resource := r\<rparr>) ks' = Inr r' \<and> rq_Name r' = rq_Name (sx_resource ctx)
          \<and> scQuotaResourceListToK8sResourceList Q (rq_Limits (sx_resource ctx)) = Inr h
          \<and> scQuotaResourceListToK8sResourceList Q (rq_Limits r') = Inr h' \<and> map_of h' = map_of h))
    \<and> (lr_Create Q L lctx ls = (ls', Inr l) \<longrightarrow>
       (\<exists>l' mx mx' mn mn'. lr_Get Q L (lctx\<lparr>sx_resource := l\<rparr>) ls' = Inr l' \<and> lr_Name l' = lr_Name (sx_resource lctx)
          \<and> scLimitResourceListToK8sResourceList Q (lr_Max (sx_resource lctx)) = Inr mx
          \<and> scLimitResourceListToK8sResourceList Q (lr_Max l') = Inr mx' \<and> map_of mx' = map_of mx
          \<and> scLimitResourceListToK8sResourceList Q (lr_Min (sx_resource lctx)) = Inr mn
          \<and> scLimitResourceListToK8sResourceList Q (lr_Min l') = Inr mn' \<and> map_of mn' = map_of mn))"
  using rq_create_get [OF assms(1), of Q] lr_create_get [OF assms(2), of Q] assms(3) by simp

text \<open>Quantities for the example: natural numbers in decimal.\<close>

definition nat_quantity :: "nat quantity_lib" where
  "nat_quantity =
     \<lparr>parseQuantity = (\<lambda>s. case atoi_digits s of None \<Rightarrow> Inl ''quantity'' | Some n \<Rightarrow> Inr n), quantityString = formatNat\<rparr>"

definition sample_rq_ctx :: "resource_quota sub_ctx" where
  "sample_rq_ctx =
     \<lparr>sx_cluster = ''local'', sx_namespace = ''default'',
      sx_resource = \<lparr>rq_ID = '''', rq_CreationTimestamp = 0, rq_DeletionTimestamp = None, rq_Name = ''q'',
        rq_Limits = [(''Limits.CPU'', ''007'')], rq_StatusLimits = [], rq_StatusUsed = []\<rparr>\<rparr>"

theorem limits_roundtrip_witness:
  "\<exists>ks' r r' h'. rq_Create nat_quantity mem_kube sample_rq_ctx [''local'' \<mapsto> []] = (ks', Inr r)
    \<and> rq_Get nat_quantity mem_kube (sample_rq_ctx\<lparr>sx_resource := r\<rparr>) ks' = Inr r' \<and> rq_Name r' = ''q''
    \<and> scQuotaResourceListToK8sResourceList nat_quantity (rq_Limits r') = Inr h' \<and> map_of h' ''limits.cpu'' = Some 7"
proof -
  have Q: "\<forall>q. parseQuantity nat_quantity (quantityString nat_quantity q) = Inr q"
    by (simp add: nat_quantity_def atoi_digits_def formatNat_digits)
  have h: "scQuotaResourceListToK8sResourceList nat_quantity (rq_Limits (sx_resource sample_rq_ctx)) = Inr [(''limits.cpu'', 7)]"
    by (simp add: sample_rq_ctx_def scQuotaResourceListToK8sResourceList_def scQuotaResourceNameToK8sResourceName_def
        toLower.simps hasPrefix_def lower_char_def nat_quantity_def atoi_digits_def is_digit_def decimal_val_def digit_val_def char_of_def bit_0)
  obtain ks' r where c: "rq_Create nat_quantity mem_kube sample_rq_ctx [''local'' \<mapsto> []] = (ks', Inr r)"
    using h by (simp add: rq_Create_def on_cluster_def answer_def createResourceQuota_def crud_create_def scResourceQuotaToK8s_def
        new_obj_def mem_kube_def Let_def sample_rq_ctx_def)
  from limits_roundtrip [OF mem_kube_kept mem_kube_kept Q, THEN conjunct1, THEN mp, OF c]
  obtain r' h' where "rq_Get nat_quantity mem_kube (sample_rq_ctx\<lparr>sx_resource := r\<rparr>) ks' = Inr r'" "rq_Name r' = rq_Name (sx_resource sample_rq_ctx)"
    "scQuotaResourceListToK8sResourceList nat_quantity (rq_Limits r') = Inr h'" "map_of h' = map_of [(''limits.cpu'', 7)]"
    using h by auto
  then show ?thesis using c by (auto simp: sample_rq_ctx_def)
qed

end
