(* ===== verification/GoFloat.thy ===== *)
theory GoFloat
  imports Prelude
begin

text \<open>
  Go's signed 64 bit integers with their wrap-around, and what \<^verbatim>\<open>fmt.Sprintf("%.2f",
  float64(a)/float64(b))\<close> prints for such integers \<open>a\<close> and \<open>b\<close>, which the program shows as the used
  share of a resource. Conversion and division round to 53 bits, to the nearest value and to
  the even one of two nearest; the quotients of 64 bit integers are never subnormal or infinite unless \<open>b\<close>
  is 0. The printer rounds the exact value of the quotient the same way to two decimals. A
  non-negative floating point number is a pair of numerator and denominator.
\<close>

section \<open>Integers\<close>

definition int64 :: "int \<Rightarrow> int" where
  "int64 x = (x + 2 ^ 63) mod 2 ^ 64 - 2 ^ 63"

lemma int64_id: "- (2 ^ 63) \<le> x \<Longrightarrow> x < 2 ^ 63 \<Longrightarrow> int64 x = x"
  by (simp add: int64_def)

definition add64 :: "int \<Rightarrow> int \<Rightarrow> int" where
  "add64 x y = int64 (x + y)"

lemma int64_add: "int64 (int64 x + y) = int64 (x + y)"
proof -
  have *: "((x + a) mod b + y) mod b = (x + y + a) mod b" for a b :: int
    by (subst mod_add_left_eq) (simp add: ac_simps)
  have "int64 x + y + 2 ^ 63 = (x + 2 ^ 63) mod 2 ^ 64 + y" by (simp add: int64_def)
  then show ?thesis using * [of "2 ^ 63" "2 ^ 64"] by (simp only: int64_def)
qed

text \<open>The loops that add up a resource give the sum, wrapped once.\<close>

lemma fold_add64: "int64 (foldl add64 a xs) = int64 (a + sum_list xs)"
proof (induction xs arbitrary: a)
  case (Cons x xs)
  have "int64 (foldl add64 (add64 a x) xs) = int64 (int64 (a + x) + sum_list xs)" using Cons by (simp add: add64_def [of a x])
  also have "\<dots> = int64 (a + x + sum_list xs)" by (rule int64_add)
  finally show ?case by (simp add: add.assoc)
qed simp

section \<open>Rounding\<close>

definition round_div :: "int \<Rightarrow> int \<Rightarrow> int" where
  "round_div n d =
     (let q = n div d; r = n mod d
      in if 2 * r < d then q else if 2 * r > d then q + 1 else if even q then q else q + 1)"

function bits :: "int \<Rightarrow> int" where
  "bits n = (if n \<le> 0 then 0 else 1 + bits (n div 2))"
  by auto
termination
  by (relation "measure nat") auto

declare bits.simps [simp del]

text \<open>
  \<open>float64 (n, d)\<close>: the quotient is scaled by a power of two so that its integer part has 53 bits.
\<close>

definition scaled :: "int \<Rightarrow> int \<times> int \<Rightarrow> int \<times> int" where
  "scaled s x = (fst x * 2 ^ nat s, snd x * 2 ^ nat (- s))"

definition float64 :: "int \<times> int \<Rightarrow> int \<times> int" where
  "float64 x =
     (if fst x = 0 then (0, 1)
      else let s = 53 + bits (snd x) - bits (fst x);
               t = (if fst (scaled s x) div snd (scaled s x) \<ge> 2 ^ 53 then s - 1 else s);
               m = round_div (fst (scaled t x)) (snd (scaled t x))
           in (m * 2 ^ nat (- t), 2 ^ nat t))"

definition float64_div :: "int \<times> int \<Rightarrow> int \<times> int \<Rightarrow> int \<times> int" where
  "float64_div x y = float64 (fst x * snd y, snd x * fst y)"

section \<open>Printing\<close>

definition fixed2 :: "int \<Rightarrow> string" where
  "fixed2 c = itoa (c div 100) @ ''.'' @ itoa (c div 10 mod 10) @ itoa (c mod 10)"

definition percents :: "int \<Rightarrow> int \<Rightarrow> int" where
  "percents a b = (let q = float64_div (float64 (a, 1)) (float64 (b, 1)) in round_div (100 * fst q) (snd q))"

definition ratio :: "int \<Rightarrow> int \<Rightarrow> string" where
  "ratio a b =
     (if b = 0 then (if a = 0 then ''NaN'' else if a > 0 then ''+Inf'' else ''-Inf'')
      else (if (a < 0) \<noteq> (b < 0) then ''-'' else '''') @ fixed2 (percents \<bar>a\<bar> \<bar>b\<bar>))"

section \<open>A share of what is there\<close>

lemma round_div_mono:
  assumes "0 < d" "n \<le> n'"
  shows "round_div n d \<le> round_div n' d"
proof (cases "n div d = n' div d")
  case True
  then have "n mod d \<le> n' mod d" using assms(2) by (simp only: minus_mult_div_eq_mod [symmetric] True diff_mono)
  then show ?thesis using True by (simp add: round_div_def Let_def)
next
  case False
  then have "n div d < n' div d" using zdiv_mono1 [OF assms(2,1)] by linarith
  moreover have "round_div n d \<le> n div d + 1" "n' div d \<le> round_div n' d" by (simp_all add: round_div_def Let_def)
  ultimately show ?thesis by linarith
qed

lemma round_div_exact: "0 < d \<Longrightarrow> round_div (q * d) d = q"
  by (simp add: round_div_def)

lemma round_div_nonneg: "0 \<le> n \<Longrightarrow> 0 < d \<Longrightarrow> 0 \<le> round_div n d"
  using round_div_mono [of d 0 n] round_div_exact [of d 0] by simp

lemma bits_le: "n < 2 ^ k \<Longrightarrow> bits n \<le> int k"
proof (induction k arbitrary: n)
  case (Suc k)
  then have "n div 2 < 2 ^ k" by simp
  then show ?case using Suc.IH [of "n div 2"] by (simp add: bits.simps [of n])
qed (simp add: bits.simps)

lemma bits_pos: "0 \<le> bits n"
  by (induction n rule: bits.induct) (simp add: bits.simps)

lemma bits_mono: "n \<le> n' \<Longrightarrow> bits n \<le> bits n'"
proof (induction n arbitrary: n' rule: bits.induct)
  case (1 n)
  show ?case
  proof (cases "n \<le> 0")
    case True
    then show ?thesis using bits_pos [of n'] by (simp add: bits.simps [of n])
  next
    case False
    then have "bits (n div 2) \<le> bits (n' div 2)" using 1 by (simp add: zdiv_mono1)
    then show ?thesis using False 1 by (simp add: bits.simps [of n] bits.simps [of n'])
  qed
qed

text \<open>Integers below \<open>2 ^ 53\<close> are exact.\<close>

lemma float64_exact:
  assumes "0 \<le> a" "a < 2 ^ 53"
  shows "\<exists>p. 0 < p \<and> float64 (a, 1) = (a * p, p)"
proof (cases "a = 0")
  case False
  let ?s = "54 - bits a"
  have s: "1 \<le> ?s" using bits_le [of a 53] assms(2) by simp
  have b: "bits 1 = 1" by (simp add: bits.simps)
  define t where "t = (if fst (scaled ?s (a, 1)) div snd (scaled ?s (a, 1)) \<ge> 2 ^ 53 then ?s - 1 else ?s)"
  have t: "0 \<le> t" using s by (simp add: t_def)
  have "float64 (a, 1) = (round_div (fst (scaled t (a, 1))) (snd (scaled t (a, 1))) * 2 ^ nat (- t), 2 ^ nat t)"
    using False by (simp add: float64_def Let_def b t_def)
  also have "\<dots> = (a * 2 ^ nat t, 2 ^ nat t)"
    using t round_div_exact [of 1 "a * 2 ^ nat t"] by (simp add: scaled_def)
  finally show ?thesis by (intro exI [of _ "2 ^ nat t"]) simp
qed (intro exI [of _ 1], simp add: float64_def)

text \<open>Rounding keeps a quotient between 0 and 1 there.\<close>

lemma float64_unit:
  assumes "0 \<le> n" "n \<le> d" "0 < d"
  shows "0 \<le> fst (float64 (n, d)) \<and> fst (float64 (n, d)) \<le> snd (float64 (n, d)) \<and> 0 < snd (float64 (n, d))"
proof (cases "n = 0")
  case False
  let ?s = "53 + bits d - bits n"
  define t where "t = (if fst (scaled ?s (n, d)) div snd (scaled ?s (n, d)) \<ge> 2 ^ 53 then ?s - 1 else ?s)"
  have t: "0 \<le> t" using bits_mono [OF assms(2)] by (simp add: t_def)
  have "float64 (n, d) = (round_div (fst (scaled t (n, d))) (snd (scaled t (n, d))) * 2 ^ nat (- t), 2 ^ nat t)"
    using False by (simp add: float64_def Let_def t_def)
  then have f: "float64 (n, d) = (round_div (n * 2 ^ nat t) d, 2 ^ nat t)" using t by (simp add: scaled_def)
  have "round_div (n * 2 ^ nat t) d \<le> round_div (2 ^ nat t * d) d"
    using assms by (intro round_div_mono) (simp_all add: mult.commute)
  then show ?thesis using assms round_div_exact [of d] round_div_nonneg [of "n * 2 ^ nat t" d] by (simp add: f)
qed (simp add: float64_def)

lemma ratio_share:
  assumes "0 \<le> a" "a \<le> b" "0 < b" "b < 2 ^ 53"
  shows "\<exists>c. 0 \<le> c \<and> c \<le> 100 \<and> ratio a b = fixed2 c"
proof -
  obtain p r where pr: "0 < p" "float64 (a, 1) = (a * p, p)" "0 < r" "float64 (b, 1) = (b * r, r)"
    using float64_exact [of a] float64_exact [of b] assms by fastforce
  let ?q = "float64_div (float64 (a, 1)) (float64 (b, 1))"
  have "0 \<le> fst ?q \<and> fst ?q \<le> snd ?q \<and> 0 < snd ?q"
    unfolding float64_div_def pr(2,4) fst_conv snd_conv
    using pr assms mult_right_mono [OF assms(2), of "p * r"] by (intro float64_unit) (simp_all add: ac_simps)
  then have "0 \<le> round_div (100 * fst ?q) (snd ?q)" "round_div (100 * fst ?q) (snd ?q) \<le> round_div (100 * snd ?q) (snd ?q)"
    by (simp_all add: round_div_nonneg round_div_mono)
  moreover have "round_div (100 * snd ?q) (snd ?q) = 100" using \<open>0 \<le> fst ?q \<and> fst ?q \<le> snd ?q \<and> 0 < snd ?q\<close> by (simp add: round_div_exact)
  ultimately show ?thesis using assms by (intro exI [of _ "percents a b"]) (simp add: ratio_def percents_def Let_def)
qed

end
