(* ===== verification/Nodes.thy ===== *)
theory Nodes
  imports UserManager ZkeTypes KubeResources GoFloat
begin

text \<open>
  The nodes of a cluster (\<^verbatim>\<open>pkg/handler/node_manager.go\<close>): how a node of the server is shown, with
  the use of its resources, and the actions that cordon, drain and release it. The quantities in the
  state of a node are read as integers (\<^verbatim>\<open>MilliValue\<close>, \<^verbatim>\<open>Value\<close>); \<open>na_ready\<close> is the test of
  \<^verbatim>\<open>gok8s/helper\<close>.
\<close>

section \<open>Nodes of the server\<close>

record taint =
  taint_Key :: string
  taint_Effect :: string
  taint_TimeAdded :: "time option"

record node_body =
  nb_Labels :: "(string \<times> string) list"
  nb_Annotations :: "(string \<times> string) list"
  nb_Unschedulable :: bool
  nb_Taints :: "taint list"
  nb_Addresses :: "(string \<times> string) list"
  nb_Cpu :: int
  nb_Memory :: int
  nb_Pods :: int
  nb_OperatingSystem :: string
  nb_KernelVersion :: string
  nb_OSImage :: string
  nb_ContainerRuntimeVersion :: string
  nb_Conditions :: "(string \<times> string) list"

record pod =
  pod_Phase :: string
  pod_NodeName :: string

text \<open>What the handlers read from a server besides the objects of one kind.\<close>

record 'k node_api =
  na_nodes :: "('k, node_body) kube_api"
  na_pods :: "'k \<Rightarrow> k8s_err + pod list"
  na_nodeMetrics :: "string \<Rightarrow> 'k \<Rightarrow> k8s_err + (string \<times> int \<times> int) list"
  na_podMetrics :: "string \<Rightarrow> 'k \<Rightarrow> k8s_err + (string \<times> (int \<times> int) list) list"
  na_version :: "'k \<Rightarrow> k8s_err + string"
  na_ready :: "node_body k8s_obj \<Rightarrow> bool"

abbreviation NSReady :: string where "NSReady \<equiv> ''Ready''"
abbreviation NSNotReady :: string where "NSNotReady \<equiv> ''NotReady''"
abbreviation NSCordoned :: string where "NSCordoned \<equiv> ''Cordoned''"
abbreviation NSDrained :: string where "NSDrained \<equiv> ''Drained''"
abbreviation NodeCordon :: string where "NodeCordon \<equiv> ''cordon''"
abbreviation NodeUnCordon :: string where "NodeUnCordon \<equiv> ''uncordon''"
abbreviation NodeDrain :: string where "NodeDrain \<equiv> ''drain''"
abbreviation nodeDrainedNoExecuteTaintKey :: string where "nodeDrainedNoExecuteTaintKey \<equiv> ''node.zcloud.cn/unexecutable''"

section \<open>Showing a node\<close>

definition isNodeCordoned :: "node_body \<Rightarrow> bool" where
  "isNodeCordoned n = nb_Unschedulable n"

definition isNodeDrained :: "node_body \<Rightarrow> bool" where
  "isNodeDrained n = list_ex (\<lambda>t. taint_Key t = nodeDrainedNoExecuteTaintKey) (nb_Taints n)"

definition zkeRoles :: "node_role list" where
  "zkeRoles = [RoleControlPlane, RoleWorker, RoleEdge, RoleStorage]"

definition getRoleFromLabels :: "(string \<times> string) list \<Rightarrow> node_role list" where
  "getRoleFromLabels labels =
     filter (\<lambda>r. map_of labels (''node-role.kubernetes.io/'' @ r) = Some ''true'') zkeRoles"

definition checkNodeByRole :: "node_body \<Rightarrow> node_role \<Rightarrow> bool" where
  "checkNodeByRole n role = HasRole (empty_node\<lparr>node_Roles := getRoleFromLabels (nb_Labels n)\<rparr>) role"

text \<open>The last host name and the first address of the node itself.\<close>

definition node_address_step :: "string \<times> string \<Rightarrow> string \<times> string \<Rightarrow> string \<times> string" where
  "node_address_step acc addr =
     (let (address, host) = acc; (ty, a) = addr
      in if ty = ''Hostname'' then (address, a)
         else if (ty = ''InternalIP'' \<or> ty = ''ExternalIP'') \<and> address = '''' then (a, host)
         else (address, host))"

definition node_addresses :: "(string \<times> string) list \<Rightarrow> string \<times> string" where
  "node_addresses addrs = foldl node_address_step ('''', '''') addrs"

definition getPodCountOnNode :: "'k node_api \<Rightarrow> string \<Rightarrow> 'k \<Rightarrow> string \<Rightarrow> int" where
  "getPodCountOnNode N name k n =
     (case na_pods N k of
        Inl _ \<Rightarrow> 0
      | Inr pods \<Rightarrow> int (length (filter (\<lambda>p. pod_Phase p = ''Running'' \<and> (name = '''' \<or> pod_NodeName p = name) \<and> pod_NodeName p = n) pods)))"

definition getNodeMetrics :: "'k node_api \<Rightarrow> string \<Rightarrow> 'k \<Rightarrow> string \<Rightarrow> int \<times> int" where
  "getNodeMetrics N name k n =
     (case na_nodeMetrics N name k of
        Inl _ \<Rightarrow> (0, 0)
      | Inr ms \<Rightarrow> (case map_of (rev ms) n of None \<Rightarrow> (0, 0) | Some u \<Rightarrow> u))"

definition k8sNodeToSCNode ::
  "'k node_api \<Rightarrow> node_body k8s_obj \<Rightarrow> (string \<Rightarrow> int \<times> int) \<Rightarrow> (string \<Rightarrow> int) \<Rightarrow> node" where
  "k8sNodeToSCNode N obj nodeMetrics podCountOnNode =
     (let n = ko_body obj;
          (address, host) = node_addresses (nb_Addresses n);
          (cpuUsed, memoryUsed) = nodeMetrics (ko_name obj);
          podUsed = podCountOnNode (ko_name obj);
          status = (if isNodeDrained n then NSDrained else if isNodeCordoned n then NSCordoned
                    else if \<not> na_ready N obj then NSNotReady else NSReady)
      in \<lparr>node_ID = host, node_CreationTimestamp = ko_creation obj,
          node_DeletionTimestamp = (case ko_deletion obj of None \<Rightarrow> 0 | Some t \<Rightarrow> t),
          node_Name = host, node_Status = status, node_Address = address,
          node_Roles = getRoleFromLabels (nb_Labels n), node_Labels = nb_Labels n, node_Annotations = nb_Annotations n,
          node_OperatingSystem = nb_OperatingSystem n @ '' '' @ nb_KernelVersion n,
          node_OperatingSystemImage = nb_OSImage n, node_DockerVersion = nb_ContainerRuntimeVersion n,
          node_Cpu = nb_Cpu n, node_CpuUsed = cpuUsed, node_CpuUsedRatio = ratio cpuUsed (nb_Cpu n),
          node_Memory = nb_Memory n, node_MemoryUsed = memoryUsed, node_MemoryUsedRatio = ratio memoryUsed (nb_Memory n),
          node_Pod = nb_Pods n, node_PodUsed = podUsed, node_PodUsedRatio = ratio podUsed (nb_Pods n)\<rparr>)"

definition getNodes :: "'k node_api \<Rightarrow> 'k \<Rightarrow> k8s_err + node list" where
  "getNodes N k =
     (case kList (na_nodes N) '''' k of
        Inl e \<Rightarrow> Inl e
      | Inr k8sNodes \<Rightarrow>
          Inr (map (\<lambda>obj. k8sNodeToSCNode N obj (getNodeMetrics N '''' k) (getPodCountOnNode N '''' k)) k8sNodes))"

definition getK8SNode :: "'k node_api \<Rightarrow> string \<Rightarrow> 'k \<Rightarrow> k8s_err + node_body k8s_obj" where
  "getK8SNode N name = kGet (na_nodes N) '''' name"

definition node_Get :: "'k node_api \<Rightarrow> node sub_ctx \<Rightarrow> 'k kubes \<Rightarrow> api_error + node" where
  "node_Get N ctx = read_cluster ctx (\<lambda>k.
     let name = node_ID (sx_resource ctx)
     in case getK8SNode N name k of
          Inl e \<Rightarrow> Inl (if IsNotFound e then APIError NotFound (''no found node '' @ name)
                       else APIError ServerError (''get node '' @ name @ '' failed:'' @ k8s_text e))
        | Inr obj \<Rightarrow> Inr (k8sNodeToSCNode N obj (getNodeMetrics N name k) (getPodCountOnNode N name k)))"

definition node_List :: "'k node_api \<Rightarrow> node sub_ctx \<Rightarrow> 'k kubes \<Rightarrow> api_error + node list" where
  "node_List N ctx = read_cluster ctx (\<lambda>k.
     case getNodes N k of
       Inl e \<Rightarrow> Inl (if IsNotFound e then APIError NotFound ''no found nodes''
                    else APIError ServerError (''list nodes failed '' @ k8s_text e))
     | Inr nodes \<Rightarrow> Inr nodes)"

section \<open>Actions\<close>

definition getK8sNodeIfNotControlplaneOrStorage :: "'k node_api \<Rightarrow> string \<Rightarrow> 'k \<Rightarrow> api_error + node_body k8s_obj" where
  "getK8sNodeIfNotControlplaneOrStorage N name k =
     (case getK8SNode N name k of
        Inl e \<Rightarrow> Inl (if IsNotFound e then APIError NotFound (''node '' @ name @ '' desn't exist'') else APIError ServerError (k8s_text e))
      | Inr node \<Rightarrow>
          if checkNodeByRole (ko_body node) RoleControlPlane
          then Inl (APIError PermissionDenied ''can not cordon|drain|uncordon a controlplane node'')
          else if checkNodeByRole (ko_body node) RoleStorage
          then Inl (APIError PermissionDenied ''can not cordon|drain|uncordon a storage node'')
          else Inr node)"

definition update_node :: "'k node_api \<Rightarrow> string \<Rightarrow> node_body k8s_obj \<Rightarrow> 'k \<Rightarrow> 'k \<times> (api_error + unit)" where
  "update_node N name node k =
     (case kUpdate (na_nodes N) node k of
        (k', Some e) \<Rightarrow> (k', Inl (APIError ServerError (''update node '' @ name @ '' failed '' @ k8s_text e)))
      | (k', None) \<Rightarrow> (k', Inr ()))"

definition cordonNode :: "'k node_api \<Rightarrow> string \<Rightarrow> 'k \<Rightarrow> 'k \<times> (api_error + unit)" where
  "cordonNode N name k =
     (case getK8sNodeIfNotControlplaneOrStorage N name k of
        Inl e \<Rightarrow> (k, Inl e)
      | Inr node \<Rightarrow>
          if isNodeCordoned (ko_body node) \<or> isNodeDrained (ko_body node)
          then (k, Inl (APIError PermissionDenied (''node '' @ name @ '' is already cordoned or drained'')))
          else update_node N name (node\<lparr>ko_body := (ko_body node)\<lparr>nb_Unschedulable := True\<rparr>\<rparr>) k)"

definition drainNode :: "'k node_api \<Rightarrow> time \<Rightarrow> string \<Rightarrow> 'k \<Rightarrow> 'k \<times> (api_error + unit)" where
  "drainNode N now name k =
     (case getK8sNodeIfNotControlplaneOrStorage N name k of
        Inl e \<Rightarrow> (k, Inl e)
      | Inr node \<Rightarrow>
          if isNodeDrained (ko_body node)
          then (k, Inl (APIError PermissionDenied (''node '' @ name @ '' is already drained'')))
          else update_node N name (node\<lparr>ko_body := (ko_body node)
                 \<lparr>nb_Taints := nb_Taints (ko_body node) @ [\<lparr>taint_Key = nodeDrainedNoExecuteTaintKey, taint_Effect = ''NoExecute'', taint_TimeAdded = Some now\<rparr>],
                  nb_Unschedulable := True\<rparr>\<rparr>) k)"

definition uncordonNode :: "'k node_api \<Rightarrow> string \<Rightarrow> 'k \<Rightarrow> 'k \<times> (api_error + unit)" where
  "uncordonNode N name k =
     (case getK8sNodeIfNotControlplaneOrStorage N name k of
        Inl e \<Rightarrow> (k, Inl e)
      | Inr node \<Rightarrow>
          (let n = ko_body node;
               n' = (if isNodeDrained n
                     then n\<lparr>nb_Taints := remove_first (\<lambda>t. taint_Key t = nodeDrainedNoExecuteTaintKey) (nb_Taints n)\<rparr> else n)
           in if isNodeCordoned n' then update_node N name (node\<lparr>ko_body := n'\<lparr>nb_Unschedulable := False\<rparr>\<rparr>) k
              else (k, Inl (APIError PermissionDenied (''node '' @ name @ '' isn't cordoned'')))))"

text \<open>An unknown action does nothing and succeeds.\<close>

definition node_Action :: "'k node_api \<Rightarrow> time \<Rightarrow> string option \<Rightarrow> string \<Rightarrow> node sub_ctx \<Rightarrow> 'k kubes \<Rightarrow> 'k kubes \<times> (api_error + unit)" where
  "node_Action N now current action ctx ks =
     (if \<not> isAdmin (getCurrentUser current)
      then (ks, Inl (APIError PermissionDenied ''only admin can call node action api''))
      else on_cluster ctx (\<lambda>k.
        let node = node_ID (sx_resource ctx)
        in if action = NodeCordon then cordonNode N node k
           else if action = NodeUnCordon then uncordonNode N node k
           else if action = NodeDrain then drainNode N now node k
           else (k, Inr ())) ks)"

section \<open>Specification: the states of a node\<close>

text \<open>
  A node is seen as whether it takes no new pods and whether it was drained; \<open>sched_step\<close> says when
  an action is accepted and what it makes of the node.
\<close>

definition node_state :: "node_body \<Rightarrow> bool \<times> bool" where
  "node_state n = (isNodeCordoned n, isNodeDrained n)"

definition sched_step :: "string \<Rightarrow> bool \<times> bool \<Rightarrow> (bool \<times> bool) option" where
  "sched_step action s =
     (if action = NodeCordon then (if s = (False, False) then Some (True, False) else None)
      else if action = NodeDrain then (if snd s then None else Some (True, True))
      else if action = NodeUnCordon then (if fst s then Some (False, False) else None)
      else None)"

abbreviation drain_taint :: "taint \<Rightarrow> bool" where
  "drain_taint t \<equiv> taint_Key t = nodeDrainedNoExecuteTaintKey"

definition once_drained :: "node_body \<Rightarrow> bool" where
  "once_drained n \<longleftrightarrow> length (filter drain_taint (nb_Taints n)) \<le> 1"

definition managed :: "node_body \<Rightarrow> bool" where
  "managed n \<longleftrightarrow> \<not> checkNodeByRole n RoleControlPlane \<and> \<not> checkNodeByRole n RoleStorage"

text \<open>The parts of a node the actions depend on, which the server keeps.\<close>

definition node_kept :: "node_body \<Rightarrow> (string \<times> string) list \<times> bool \<times> taint list" where
  "node_kept n = (nb_Labels n, nb_Unschedulable n, nb_Taints n)"

definition other_taints :: "node_body \<Rightarrow> taint list" where
  "other_taints n = filter (\<lambda>t. \<not> drain_taint t) (nb_Taints n)"

lemma drained_iff: "isNodeDrained n \<longleftrightarrow> filter drain_taint (nb_Taints n) \<noteq> []"
  by (auto simp: isNodeDrained_def list_ex_iff filter_empty_conv)

lemma filter_remove_first:
  "filter P (remove_first P xs) = tl (filter P xs)" "filter (\<lambda>x. \<not> P x) (remove_first P xs) = filter (\<lambda>x. \<not> P x) xs"
  by (induction xs) auto

lemma kept_state:
  assumes "node_kept n = node_kept n'"
  shows "node_state n = node_state n'" "once_drained n = once_drained n'" "managed n = managed n'" "other_taints n = other_taints n'"
    "nb_Labels n = nb_Labels n'"
  using assms by (auto simp: node_kept_def node_state_def once_drained_def managed_def isNodeCordoned_def isNodeDrained_def
      checkNodeByRole_def other_taints_def)

text \<open>What the three actions make of the body of a node.\<close>

definition acted :: "time \<Rightarrow> string \<Rightarrow> node_body \<Rightarrow> node_body" where
  "acted now action n =
     (if action = NodeCordon then n\<lparr>nb_Unschedulable := True\<rparr>
      else if action = NodeDrain
      then n\<lparr>nb_Taints := nb_Taints n @ [\<lparr>taint_Key = nodeDrainedNoExecuteTaintKey, taint_Effect = ''NoExecute'', taint_TimeAdded = Some now\<rparr>],
             nb_Unschedulable := True\<rparr>
      else n\<lparr>nb_Taints := remove_first drain_taint (nb_Taints n), nb_Unschedulable := False\<rparr>)"

lemma acted_state:
  assumes "once_drained n" "sched_step action (node_state n) = Some s"
  shows "node_state (acted now action n) = s" "once_drained (acted now action n)"
    "other_taints (acted now action n) = other_taints n" "nb_Labels (acted now action n) = nb_Labels n"
proof -
  have tl: "tl (filter drain_taint (nb_Taints n)) = []"
    using assms(1) by (cases "filter drain_taint (nb_Taints n)") (auto simp: once_drained_def)
  show "node_state (acted now action n) = s"
    using assms(2) tl by (auto simp: acted_def sched_step_def node_state_def drained_iff isNodeCordoned_def filter_remove_first split: if_splits)
  show "once_drained (acted now action n)"
    using assms tl by (auto simp: acted_def sched_step_def node_state_def once_drained_def drained_iff isNodeCordoned_def filter_remove_first split: if_splits)
  show "other_taints (acted now action n) = other_taints n"
    by (simp add: acted_def other_taints_def filter_remove_first)
  show "nb_Labels (acted now action n) = nb_Labels n" by (simp add: acted_def)
qed

lemma uncordon_body:
  "(if isNodeDrained n then n\<lparr>nb_Taints := remove_first drain_taint (nb_Taints n)\<rparr> else n)\<lparr>nb_Unschedulable := False\<rparr> = acted now NodeUnCordon n"
  by (simp add: acted_def isNodeDrained_def)

definition run_action :: "'k node_api \<Rightarrow> time \<Rightarrow> string \<Rightarrow> string \<Rightarrow> 'k \<Rightarrow> 'k \<times> (api_error + unit)" where
  "run_action N now action name k =
     (if action = NodeCordon then cordonNode N name k else if action = NodeUnCordon then uncordonNode N name k else drainNode N now name k)"

text \<open>Every action reads the node, refuses it or updates it.\<close>

lemma run_action_cases:
  assumes "action \<in> {NodeCordon, NodeUnCordon, NodeDrain}" "getK8SNode N name k = Inr obj"
  shows "if managed (ko_body obj) \<and> sched_step action (node_state (ko_body obj)) \<noteq> None
    then run_action N now action name k = update_node N name (obj\<lparr>ko_body := acted now action (ko_body obj)\<rparr>) k
    else \<exists>m. run_action N now action name k = (k, Inl (APIError PermissionDenied m))"
  using assms
  by (auto simp: run_action_def cordonNode_def drainNode_def uncordonNode_def getK8sNodeIfNotControlplaneOrStorage_def managed_def
      sched_step_def node_state_def acted_def isNodeCordoned_def isNodeDrained_def Let_def)

definition shown_state :: "bool \<times> bool \<Rightarrow> string set" where
  "shown_state s = (if snd s then {NSDrained} else if fst s then {NSCordoned} else {NSReady, NSNotReady})"

lemma node_status: "node_Status (k8sNodeToSCNode N obj ms pc) \<in> shown_state (node_state (ko_body obj))"
  by (simp add: k8sNodeToSCNode_def shown_state_def node_state_def Let_def split: prod.split)

lemma run_action_effect:
  assumes "kube_live (na_nodes N) view node_kept" "action \<in> {NodeCordon, NodeUnCordon, NodeDrain}"
    and "view k ('''', name) = Some obj" "once_drained (ko_body obj)" "run_action N now action name k = (k', r)"
  shows "case r of Inl e \<Rightarrow> view k' = view k
    | Inr _ \<Rightarrow> \<exists>obj'. view k' = (view k)(('''', name) \<mapsto> obj') \<and> managed (ko_body obj)
        \<and> sched_step action (node_state (ko_body obj)) = Some (node_state (ko_body obj'))
        \<and> once_drained (ko_body obj') \<and> other_taints (ko_body obj') = other_taints (ko_body obj)
        \<and> nb_Labels (ko_body obj') = nb_Labels (ko_body obj)"
proof -
  have L: "kube_laws (na_nodes N) view node_kept" using assms(1) by (simp add: kube_live_def)
  have g: "getK8SNode N name k = Inr obj" using kube_live.get_live [OF assms(1,3)] by (simp add: getK8SNode_def)
  have key: "ko_key obj = ('''', name)" using kube_laws.view_key [OF L assms(3)] .
  show ?thesis
  proof (cases "managed (ko_body obj) \<and> sched_step action (node_state (ko_body obj)) \<noteq> None")
    case False
    then show ?thesis using run_action_cases [OF assms(2) g, of now] assms(5) by auto
  next
    case True
    then obtain s where s: "sched_step action (node_state (ko_body obj)) = Some s" by blast
    let ?new = "obj\<lparr>ko_body := acted now action (ko_body obj)\<rparr>"
    have u: "update_node N name ?new k = (k', r)" using run_action_cases [OF assms(2) g, of now] True assms(5) by simp
    show ?thesis
    proof (cases r)
      case (Inl e)
      then obtain e' where "kUpdate (na_nodes N) ?new k = (k', Some e')" using u by (auto simp: update_node_def split: prod.splits option.splits)
      then show ?thesis using kube_laws.update_err [OF L] Inl by simp
    next
      case (Inr x)
      then have "kUpdate (na_nodes N) ?new k = (k', None)" using u by (auto simp: update_node_def split: prod.splits option.splits)
      from kube_laws.update_view [OF L this] obtain obj' where o: "view k' = (view k)(('''', name) \<mapsto> obj')"
        "node_kept (ko_body obj') = node_kept (acted now action (ko_body obj))" using key by auto
      show ?thesis using acted_state [OF assms(4) s, of now] kept_state [OF o(2)] o(1) True s by (auto simp: Inr)
    qed
  qed
qed

text \<open>
  C31. The actions on a node. An action of the administrator that succeeds changes that node only, which
  is neither a control plane nor a storage node, and moves it as the states of a node allow: a node
  that takes pods can be cordoned, one that is not drained drained, one that takes no pods
  released, which also undoes the draining; labels and other taints stay, and the node is
  shown in its new state. An action that fails changes nothing; a node that was
  drained and then allowed pods again by other means accepts none. Other users are refused.
\<close>

theorem node_actions_follow_states:
  assumes "kube_live (na_nodes N) view node_kept" "action \<in> {NodeCordon, NodeUnCordon, NodeDrain}"
    and "ks (sx_cluster ctx) = Some k" "view k ('''', node_ID (sx_resource ctx)) = Some obj" "once_drained (ko_body obj)"
    and "node_Action N now current action ctx ks = (ks', r)"
  shows "(getCurrentUser current \<noteq> Administrator \<longrightarrow> ks' = ks \<and> r = Inl (APIError PermissionDenied ''only admin can call node action api''))
    \<and> (node_state (ko_body obj) = (False, True) \<longrightarrow> r \<noteq> Inr ())
    \<and> (\<exists>k'. ks' = ks(sx_cluster ctx \<mapsto> k')
       \<and> (case r of Inl e \<Rightarrow> view k' = view k
          | Inr _ \<Rightarrow> \<exists>obj' n. view k' = (view k)(('''', node_ID (sx_resource ctx)) \<mapsto> obj') \<and> managed (ko_body obj)
              \<and> sched_step action (node_state (ko_body obj)) = Some (node_state (ko_body obj'))
              \<and> once_drained (ko_body obj') \<and> other_taints (ko_body obj') = other_taints (ko_body obj)
              \<and> nb_Labels (ko_body obj') = nb_Labels (ko_body obj)
              \<and> node_Get N ctx ks' = Inr n \<and> node_Status n \<in> shown_state (node_state (ko_body obj'))))"
proof (cases "getCurrentUser current = Administrator")
  case False
  then show ?thesis using assms(3,6) by (auto simp: node_Action_def isAdmin_def intro!: exI [of _ k])
next
  case True
  obtain k' where a: "run_action N now action (node_ID (sx_resource ctx)) k = (k', r)" "ks' = ks(sx_cluster ctx \<mapsto> k')"
    using assms(2,3,6) True by (auto simp: node_Action_def isAdmin_def on_cluster_def run_action_def split: prod.splits)
  note e = run_action_effect [OF assms(1,2,4,5) a(1)]
  show ?thesis
  proof (cases r)
    case (Inl err)
    then show ?thesis using e a(2) True by auto
  next
    case (Inr x)
    then obtain obj' where o: "view k' = (view k)(('''', node_ID (sx_resource ctx)) \<mapsto> obj')" "managed (ko_body obj)"
        "sched_step action (node_state (ko_body obj)) = Some (node_state (ko_body obj'))" "once_drained (ko_body obj')"
        "other_taints (ko_body obj') = other_taints (ko_body obj)" "nb_Labels (ko_body obj') = nb_Labels (ko_body obj)"
      using e by auto
    have "getK8SNode N (node_ID (sx_resource ctx)) k' = Inr obj'"
      using kube_live.get_live [OF assms(1), of k'] o(1) by (simp add: getK8SNode_def)
    then have g: "node_Get N ctx ks' = Inr (k8sNodeToSCNode N obj' (getNodeMetrics N (node_ID (sx_resource ctx)) k') (getPodCountOnNode N (node_ID (sx_resource ctx)) k'))"
      by (simp add: node_Get_def read_cluster_def a(2) Let_def)
    have "node_state (ko_body obj) \<noteq> (False, True)" using o(3) by (auto simp: sched_step_def split: if_splits)
    then show ?thesis using True Inr o g a(2) node_status by (auto intro!: exI [of _ k'] exI [of _ obj'])
  qed
qed

text \<open>A worker node is drained.\<close>

definition mem_nodes :: "node_body mem_kube node_api" where
  "mem_nodes =
     \<lparr>na_nodes = mem_kube, na_pods = (\<lambda>k. Inr []), na_nodeMetrics = (\<lambda>n k. Inr []), na_podMetrics = (\<lambda>n k. Inr []),
      na_version = (\<lambda>k. Inr ''v1''), na_ready = (\<lambda>obj. True)\<rparr>"

definition sample_node :: node_body where
  "sample_node =
     \<lparr>nb_Labels = [(''node-role.kubernetes.io/worker'', ''true'')], nb_Annotations = [], nb_Unschedulable = False, nb_Taints = [],
      nb_Addresses = [(''Hostname'', ''w1''), (''InternalIP'', ''10.0.0.1'')], nb_Cpu = 4000, nb_Memory = 8, nb_Pods = 110,
      nb_OperatingSystem = ''linux'', nb_KernelVersion = ''4'', nb_OSImage = ''os'', nb_ContainerRuntimeVersion = ''docker'', nb_Conditions = []\<rparr>"

abbreviation node_request :: "string \<Rightarrow> node sub_ctx" where
  "node_request name \<equiv> \<lparr>sx_cluster = ''local'', sx_namespace = '''', sx_resource = empty_node\<lparr>node_ID := name\<rparr>\<rparr>"

theorem node_actions_follow_states_witness:
  "\<exists>ks' n. node_Action mem_nodes 5 (Some Administrator) NodeDrain (node_request ''w1'') [''local'' \<mapsto> [(('''', ''w1''), new_obj '''' ''w1'' sample_node)]]
       = (ks', Inr ()) \<and> node_Get mem_nodes (node_request ''w1'') ks' = Inr n \<and> node_Status n = NSDrained"
proof -
  let ?k = "[(('''', ''w1''), new_obj '''' ''w1'' sample_node)]"
  have v: "mem_view ?k ('''', node_ID (sx_resource (node_request ''w1''))) = Some (at_key ('''', ''w1'') (new_obj '''' ''w1'' sample_node))"
    by (simp add: mem_view_def)
  have o: "once_drained (ko_body (at_key ('''', ''w1'') (new_obj '''' ''w1'' sample_node)))"
    by (simp add: once_drained_def new_obj_def sample_node_def)
  have L: "kube_live (na_nodes mem_nodes) mem_view node_kept" by (simp add: mem_nodes_def mem_kube_kept)
  obtain ks' where a: "node_Action mem_nodes 5 (Some Administrator) NodeDrain (node_request ''w1'') [''local'' \<mapsto> ?k] = (ks', Inr ())"
    by (simp add: node_Action_def getCurrentUser_def isAdmin_def on_cluster_def drainNode_def getK8sNodeIfNotControlplaneOrStorage_def
        getK8SNode_def mem_nodes_def mem_kube_def mem_view_def checkNodeByRole_def HasRole_def getRoleFromLabels_def zkeRoles_def sample_node_def
        new_obj_def isNodeDrained_def update_node_def at_key_def empty_node_def Let_def)
  note t = node_actions_follow_states [OF L _ _ v o a]
  obtain n and obj' :: "node_body k8s_obj" where
    "node_Get mem_nodes (node_request ''w1'') ks' = Inr n" "node_Status n \<in> shown_state (node_state (ko_body obj'))"
    "sched_step NodeDrain (node_state sample_node) = Some (node_state (ko_body obj'))"
    using t by (simp add: new_obj_def) blast
  then have "node_Status n = NSDrained" by (auto simp: sched_step_def shown_state_def split: if_splits dest: sym [of "(True, True)"])
  then show ?thesis using a \<open>node_Get mem_nodes (node_request ''w1'') ks' = Inr n\<close> by blast
qed

end
