(* ===== verification/UserQuota.thy ===== *)
theory UserQuota
  imports UserManager KubeResources "HOL-Library.List_Lexorder" "HOL-Library.Char_ord" "HOL-Library.Product_Lexorder"
begin

text \<open>
  Requests for a namespace with a quota (\<^verbatim>\<open>pkg/handler/userquota_manager.go\<close>,
  \<^verbatim>\<open>pkg/types/userquota.go\<close>) and the operations on namespaces they use
  (\<^verbatim>\<open>namespace_manager.go\<close>). A user asks for a namespace; the administrator approves the request,
  which creates the namespace with its quota and grants it to the user, or rejects it. The state is
  the table of requests, the authorizer and the servers of the ready clusters; the manager takes no
  lock, a request is one step. The base of the resource is flattened.
\<close>

section \<open>Data\<close>

record user_quota =
  uq_ID :: string
  uq_CreationTimestamp :: time
  uq_Name :: string
  uq_ClusterName :: string
  uq_Namespace :: string
  uq_UserName :: string
  uq_CPU :: string
  uq_Memory :: string
  uq_Storage :: string
  uq_RequestType :: string
  uq_Status :: string
  uq_Purpose :: string
  uq_Requestor :: string
  uq_Telephone :: string
  uq_RejectionReason :: string
  uq_ResponseTimestamp :: time

abbreviation TypeUserQuotaCreate :: string where "TypeUserQuotaCreate \<equiv> ''create''"
abbreviation TypeUserQuotaUpdate :: string where "TypeUserQuotaUpdate \<equiv> ''update''"
abbreviation StatusUserQuotaProcessing :: string where "StatusUserQuotaProcessing \<equiv> ''processing''"
abbreviation StatusUserQuotaApproval :: string where "StatusUserQuotaApproval \<equiv> ''approval''"
abbreviation StatusUserQuotaRejection :: string where "StatusUserQuotaRejection \<equiv> ''rejection''"
abbreviation ActionApproval :: string where "ActionApproval \<equiv> ''approval''"
abbreviation ActionRejection :: string where "ActionRejection \<equiv> ''reject''"

datatype quota_input = ClusterInfo string | Rejection string | OtherQuotaInput

record quota_ctx =
  qc_current :: "string option"
  qc_resource :: user_quota
  qc_action :: "string \<times> quota_input"

type_synonym ('d, 'tx) quota_table = "('d, 'tx, user_quota json) kvzoo"

text \<open>What the manager works with: its table, the authorizer's, the client and the quantities.\<close>

record ('d, 'tx, 'e, 'ty, 'k, 'q) quota_env =
  qe_table :: "('d, 'tx) quota_table"
  qe_az :: "('e, 'ty) az_table"
  qe_ns :: "('k, unit) kube_api"
  qe_rq :: "('k, 'q quota_body) kube_api"
  qe_Q :: "'q quantity_lib"

record ('d, 'e, 'k) quota_world =
  qw_db :: 'd
  qw_authorizer :: "'e authorizer"
  qw_kubes :: "'k kubes"

section \<open>Namespaces on a server\<close>

definition createNamespace :: "('k, unit) kube_api \<Rightarrow> string \<Rightarrow> 'k \<Rightarrow> 'k \<times> k8s_err option" where
  "createNamespace K name = kCreate K (new_obj '''' name ())"

definition deleteNamespace :: "('k, unit) kube_api \<Rightarrow> string \<Rightarrow> 'k \<Rightarrow> 'k \<times> k8s_err option" where
  "deleteNamespace K name = kDelete K '''' name"

definition getNamespace :: "('k, unit) kube_api \<Rightarrow> string \<Rightarrow> 'k \<Rightarrow> k8s_err + unit k8s_obj" where
  "getNamespace K name = kGet K '''' name"

definition hasNamespace :: "('k, unit) kube_api \<Rightarrow> string \<Rightarrow> 'k \<Rightarrow> bool" where
  "hasNamespace K name k = (case getNamespace K name k of Inl _ \<Rightarrow> False | Inr _ \<Rightarrow> True)"

section \<open>Helpers\<close>

text \<open>The regular expression matches one byte, so the matches are the bytes of the class.\<close>

definition namespaceRegex :: "char \<Rightarrow> bool" where
  "namespaceRegex c \<longleftrightarrow> c = CHR ''-'' \<or> (97 \<le> (of_char c :: nat) \<and> (of_char c :: nat) \<le> 122)
     \<or> (48 \<le> (of_char c :: nat) \<and> (of_char c :: nat) \<le> 57)"

definition checkUserQuotaParamsValid :: "'q quantity_lib \<Rightarrow> user_quota \<Rightarrow> goerr option" where
  "checkUserQuotaParamsValid Q quota =
     (if length (filter namespaceRegex (uq_Namespace quota)) \<noteq> length (uq_Namespace quota)
      then Some (''namespace '' @ uq_Namespace quota @ '' is invalid, must match regex [-a-z0-9]'')
      else case parseQuantity Q (uq_CPU quota) of
        Inl e \<Rightarrow> Some (''cpu '' @ uq_CPU quota @ '' is invalid: '' @ e)
      | Inr _ \<Rightarrow> (case parseQuantity Q (uq_Memory quota) of
          Inl e \<Rightarrow> Some (''memory '' @ uq_Memory quota @ '' is invalid: '' @ e)
        | Inr _ \<Rightarrow> (case parseQuantity Q (uq_Storage quota) of
            Inl e \<Rightarrow> Some (''storage '' @ uq_Storage quota @ '' is invalid: '' @ e)
          | Inr _ \<Rightarrow> None)))"

definition storageResourceValueToSCUserQuota :: "user_quota json option \<Rightarrow> goerr + user_quota" where
  "storageResourceValueToSCUserQuota value =
     (case value of None \<Rightarrow> Inl ''value from db should not be empty'' | Some v \<Rightarrow> json_unmarshal v)"

definition getUserQuotaFromDB :: "('d, 'tx) quota_table \<Rightarrow> 'tx \<Rightarrow> string \<Rightarrow> goerr + user_quota" where
  "getUserQuotaFromDB T tx uid =
     (case kvGet T tx uid of Inl e \<Rightarrow> Inl e | Inr value \<Rightarrow> storageResourceValueToSCUserQuota value)"

definition setUserQuota :: "user_quota \<Rightarrow> string \<Rightarrow> string \<Rightarrow> time \<Rightarrow> user_quota" where
  "setUserQuota q userName requestType creationTimestamp =
     q\<lparr>uq_Name := uq_Namespace q, uq_ID := uq_Namespace q, uq_CreationTimestamp := creationTimestamp,
       uq_Status := StatusUserQuotaProcessing, uq_UserName := userName, uq_RequestType := requestType\<rparr>"

definition setUserQuotaByAdmin :: "time \<Rightarrow> user_quota \<Rightarrow> string \<Rightarrow> string \<Rightarrow> string \<Rightarrow> user_quota" where
  "setUserQuotaByAdmin now q clusterName reason status =
     q\<lparr>uq_ClusterName := clusterName, uq_RejectionReason := reason, uq_Status := status, uq_ResponseTimestamp := now\<rparr>"

text \<open>
  The new limits replace the old ones; the result is the object with which a failed approval puts
  the old limits back.
\<close>

definition updateResourceQuota ::
  "'q quantity_lib \<Rightarrow> ('k, 'q quota_body) kube_api \<Rightarrow> string \<Rightarrow> pairs \<Rightarrow> 'k \<Rightarrow> 'k \<times> (k8s_err + 'q quota_body k8s_obj)" where
  "updateResourceQuota Q K namespace limits k =
     (case kGet K namespace namespace k of
        Inl e \<Rightarrow> (k, Inl e)
      | Inr obj \<Rightarrow>
          (case scQuotaResourceListToK8sResourceList Q limits of
             Inl e \<Rightarrow> (k, Inl (OwnErr e))
           | Inr k8sHard \<Rightarrow>
               (case kUpdate K (obj\<lparr>ko_body := (ko_body obj)\<lparr>qb_hard := k8sHard\<rparr>\<rparr>) k of
                  (k', Some e) \<Rightarrow> (k', Inl e)
                | (k', None) \<Rightarrow> (k', Inr obj))))"

text \<open>Leaving a handler with an error runs the deferred \<^verbatim>\<open>tx.Rollback()\<close>.\<close>

definition abandon :: "('d, 'tx) quota_table \<Rightarrow> 'tx \<Rightarrow> ('d, 'e, 'k) quota_world \<Rightarrow> ('d, 'e, 'k) quota_world" where
  "abandon T tx w = w\<lparr>qw_db := kvRollback T tx\<rparr>"

definition commit_tx ::
  "('d, 'tx) quota_table \<Rightarrow> 'tx \<Rightarrow> ('d, 'e, 'k) quota_world \<Rightarrow> ('d, 'e, 'k) quota_world \<times> goerr option" where
  "commit_tx T tx w =
     (case kvCommit T tx of
        Inl e \<Rightarrow> (abandon T tx w, Some e)
      | Inr d \<Rightarrow> (w\<lparr>qw_db := d\<rparr>, None))"

text \<open>The beginning four handlers share: a transaction and the stored request.\<close>

definition with_quota ::
  "('d, 'tx) quota_table \<Rightarrow> (goerr \<Rightarrow> api_error) \<Rightarrow> (goerr \<Rightarrow> api_error) \<Rightarrow> string \<Rightarrow>
   ('tx \<Rightarrow> user_quota \<Rightarrow> ('d, 'e, 'k) quota_world \<times> (api_error + 'a)) \<Rightarrow>
   ('d, 'e, 'k) quota_world \<Rightarrow> ('d, 'e, 'k) quota_world \<times> (api_error + 'a)" where
  "with_quota T errBegin errGet uid body w =
     (case kvBegin T (qw_db w) of
        Inl e \<Rightarrow> (w, Inl (errBegin e))
      | Inr tx \<Rightarrow>
          (case getUserQuotaFromDB T tx uid of
             Inl e \<Rightarrow> (abandon T tx w, Inl (errGet e))
           | Inr quota \<Rightarrow> body tx quota))"

section \<open>Handlers\<close>

definition uq_Create ::
  "('d, 'tx, 'e, 'ty, 'k, 'q) quota_env \<Rightarrow> time \<Rightarrow> quota_ctx \<Rightarrow> ('d, 'e, 'k) quota_world \<Rightarrow>
   ('d, 'e, 'k) quota_world \<times> (api_error + user_quota)" where
  "uq_Create E now ctx w =
     (let userName = getCurrentUser (qc_current ctx); T = qe_table E
      in if userName = '''' then (w, Inl (APIError ConnectClusterFailed ''create userquota failed: user name should not be empty''))
         else case checkUserQuotaParamsValid (qe_Q E) (qc_resource ctx) of
           Some e \<Rightarrow> (w, Inl (APIError InvalidClusterConfig (''params is invalid: '' @ e)))
         | None \<Rightarrow>
             (let userQuota = setUserQuota (qc_resource ctx) userName TypeUserQuotaCreate now;
                  err = (\<lambda>e. APIError ServerError (''create user '' @ userName @ '' quota with namespace ''
                           @ uq_Namespace userQuota @ '' failed '' @ e))
              in case kvBegin T (qw_db w) of
                   Inl e \<Rightarrow> (w, Inl (err e))
                 | Inr tx \<Rightarrow>
                     (case kvAdd T tx (uq_ID userQuota) (json_marshal userQuota) of
                        Inl e \<Rightarrow> (abandon T tx w, Inl (err e))
                      | Inr tx' \<Rightarrow>
                          (case commit_tx T tx' w of
                             (w', Some e) \<Rightarrow> (w', Inl (APIError ServerError (''commit userquota table failed: '' @ e)))
                           | (w', None) \<Rightarrow> (w', Inr userQuota)))))"

text \<open>
  The order of \<^verbatim>\<open>types.UserQuotas\<close>; requests never share a name, so it decides every pair.
\<close>

definition quota_order :: "user_quota \<Rightarrow> time \<times> string \<times> string" where
  "quota_order q = (uq_CreationTimestamp q, uq_UserName q, uq_Name q)"

definition uq_List ::
  "('d, 'tx, 'e, 'ty, 'k, 'q) quota_env \<Rightarrow> quota_ctx \<Rightarrow> ('d, 'e, 'k) quota_world \<Rightarrow> api_error + user_quota list" where
  "uq_List E ctx w =
     (let userName = getCurrentUser (qc_current ctx);
          err = (\<lambda>e. APIError ServerError (''list user '' @ userName @ '' quotas failed '' @ e))
      in case plain_list (qe_table E) (qw_db w) of
           Inl e \<Rightarrow> Inl (err e)
         | Inr values \<Rightarrow>
             (case unmarshal_all (map snd values) of
                Inl e \<Rightarrow> Inl (err e)
              | Inr quotas \<Rightarrow>
                  Inr (sort_key quota_order
                    (filter (\<lambda>quota. \<not> (\<not> isAdmin userName \<and> uq_UserName quota \<noteq> userName)) quotas))))"

definition uq_Get ::
  "('d, 'tx, 'e, 'ty, 'k, 'q) quota_env \<Rightarrow> quota_ctx \<Rightarrow> ('d, 'e, 'k) quota_world \<Rightarrow> api_error + user_quota" where
  "uq_Get E ctx w =
     (let userName = getCurrentUser (qc_current ctx); uid = uq_ID (qc_resource ctx);
          err = (\<lambda>e. APIError ServerError (''get user '' @ userName @ '' quota failed '' @ e))
      in case kvBegin (qe_table E) (qw_db w) of
           Inl e \<Rightarrow> Inl (err e)
         | Inr tx \<Rightarrow>
             (case getUserQuotaFromDB (qe_table E) tx uid of
                Inl e \<Rightarrow> Inl (err e)
              | Inr quota \<Rightarrow>
                  if \<not> isAdmin userName \<and> uq_UserName quota \<noteq> userName
                  then Inl (APIError NotFound (''no found user quota '' @ uid @ '' for user '' @ userName))
                  else Inr quota))"

definition uq_Update ::
  "('d, 'tx, 'e, 'ty, 'k, 'q) quota_env \<Rightarrow> quota_ctx \<Rightarrow> ('d, 'e, 'k) quota_world \<Rightarrow>
   ('d, 'e, 'k) quota_world \<times> (api_error + user_quota)" where
  "uq_Update E ctx w =
     (let userName = getCurrentUser (qc_current ctx); T = qe_table E; req = qc_resource ctx;
          err = (\<lambda>e. APIError ServerError (''update user '' @ userName @ '' quota with namespace ''
                   @ uq_Namespace req @ '' failed '' @ e))
      in if userName = '''' then (w, Inl (APIError ConnectClusterFailed ''update user quota failed: user name should not be empty''))
         else case checkUserQuotaParamsValid (qe_Q E) req of
           Some e \<Rightarrow> (w, Inl (APIError InvalidClusterConfig (''params is invalid: '' @ e)))
         | None \<Rightarrow> with_quota T err err (uq_ID req) (\<lambda>tx quota.
             if uq_UserName quota \<noteq> userName
             then (abandon T tx w, Inl (APIError ServerError
                     (''user '' @ userName @ '' can`t update quota which belong to '' @ uq_UserName quota)))
             else if uq_Status quota = StatusUserQuotaProcessing
             then (abandon T tx w, Inl (APIError ServerError ''can`t update user quota which status is processing''))
             else if uq_Namespace quota \<noteq> uq_Namespace req \<or> uq_ClusterName quota \<noteq> uq_ClusterName req
             then (abandon T tx w, Inl (APIError ServerError ''can`t update namespace or clusterName for quota''))
             else (let userQuota = setUserQuota req userName TypeUserQuotaUpdate (uq_CreationTimestamp quota)
                   in case kvUpdate T tx (uq_ID userQuota) (json_marshal userQuota) of
                        Inl e \<Rightarrow> (abandon T tx w, Inl (err e))
                      | Inr tx' \<Rightarrow>
                          (case commit_tx T tx' w of
                             (w', Some e) \<Rightarrow> (w', Inl (APIError ServerError (''commit user_resource_quota table failed: '' @ e)))
                           | (w', None) \<Rightarrow> (w', Inr userQuota)))) w)"

definition put_kube :: "string \<Rightarrow> 'k \<Rightarrow> ('d, 'e, 'k) quota_world \<Rightarrow> ('d, 'e, 'k) quota_world" where
  "put_kube c k w = w\<lparr>qw_kubes := (qw_kubes w)(c \<mapsto> k)\<rparr>"

text \<open>The end of \<open>Delete\<close>: the first project of that cluster and namespace is taken from the user.\<close>

definition revoke_project ::
  "('e, 'ty) az_table \<Rightarrow> user_quota \<Rightarrow> ('d, 'e, 'k) quota_world \<Rightarrow> ('d, 'e, 'k) quota_world" where
  "revoke_project Z quota w =
     (case az_GetUser (qw_authorizer w) (uq_UserName quota) of
        None \<Rightarrow> w
      | Some user \<Rightarrow>
          w\<lparr>qw_authorizer := fst (az_UpdateUser Z
              (user\<lparr>user_Projects := remove_first
                 (\<lambda>project. prj_Cluster project = uq_ClusterName quota \<and> prj_Namespace project = uq_Namespace quota)
                 (user_Projects user)\<rparr>) (qw_authorizer w))\<rparr>)"

text \<open>The deletion of the record, after the namespace was dealt with.\<close>

definition delete_record ::
  "('d, 'tx, 'e, 'ty, 'k, 'q) quota_env \<Rightarrow> 'tx \<Rightarrow> string \<Rightarrow> user_quota \<Rightarrow> ('d, 'e, 'k) quota_world \<Rightarrow>
   ('d, 'e, 'k) quota_world \<times> (api_error + unit)" where
  "delete_record E tx uid quota w =
     (let T = qe_table E; err = (\<lambda>e. APIError ServerError (''delete user quota failed: '' @ e))
      in case kvDelete T tx uid of
           Inl e \<Rightarrow> (abandon T tx w, Inl (err e))
         | Inr tx' \<Rightarrow>
             (case commit_tx T tx' w of
                (w', Some e) \<Rightarrow> (w', Inl (err e))
              | (w', None) \<Rightarrow> (if uq_ClusterName quota \<noteq> '''' then revoke_project (qe_az E) quota w' else w', Inr ())))"

definition uq_Delete ::
  "('d, 'tx, 'e, 'ty, 'k, 'q) quota_env \<Rightarrow> quota_ctx \<Rightarrow> ('d, 'e, 'k) quota_world \<Rightarrow>
   ('d, 'e, 'k) quota_world \<times> (api_error + unit)" where
  "uq_Delete E ctx w =
     (let userName = getCurrentUser (qc_current ctx); T = qe_table E; req = qc_resource ctx;
          err = (\<lambda>e. APIError ServerError (''delete user '' @ userName @ '' quota with namespace ''
                   @ uq_Namespace req @ '' failed '' @ e))
      in if userName = '''' then (w, Inl (APIError ConnectClusterFailed ''update user quota failed: user name should not be empty''))
         else with_quota T err err (uq_ID req) (\<lambda>tx quota.
           if \<not> isAdmin userName \<and> uq_UserName quota \<noteq> userName
           then (abandon T tx w, Inl (APIError ServerError
                   (''user '' @ userName @ '' can`t delete quota which belong to '' @ uq_UserName quota)))
           else if uq_Status quota = StatusUserQuotaProcessing
           then (abandon T tx w, Inl (APIError ServerError ''can`t delete user quota which status is processing''))
           else if uq_ClusterName quota = '''' then delete_record E tx (uq_ID req) quota w
           else (case qw_kubes w (uq_ClusterName quota) of
                   None \<Rightarrow> (abandon T tx w, Inl no_cluster)
                 | Some k \<Rightarrow>
                     (let (k', r) = deleteNamespace (qe_ns E) (uq_Namespace quota) k;
                          w' = put_kube (uq_ClusterName quota) k' w
                      in case r of
                           Some e \<Rightarrow>
                             if \<not> IsNotFound e
                             then (abandon T tx w', Inl (APIError ServerError (''delete namespace failed '' @ k8s_text e)))
                             else delete_record E tx (uq_ID req) quota w'
                         | None \<Rightarrow> delete_record E tx (uq_ID req) quota w'))) w)"

section \<open>Approval and rejection\<close>

text \<open>
  The part of \<open>approval\<close> that prepares the cluster: the namespace with its quota is created, or the
  quota of an existing namespace is changed. The result says how to undo it: \<open>None\<close> is the deletion
  of the namespace, \<open>Some\<close> the object with the old limits.
\<close>

definition prepare_namespace ::
  "('d, 'tx, 'e, 'ty, 'k, 'q) quota_env \<Rightarrow> user_quota \<Rightarrow> 'k \<Rightarrow> 'k \<times> (api_error + 'q quota_body k8s_obj option)" where
  "prepare_namespace E quota k =
     (let ns = uq_Namespace quota;
          resourceQuota = \<lparr>rq_ID = '''', rq_CreationTimestamp = 0, rq_DeletionTimestamp = None, rq_Name = ns,
                           rq_Limits = [(''requests.storage'', uq_Storage quota)], rq_StatusLimits = [], rq_StatusUsed = []\<rparr>
      in if \<not> hasNamespace (qe_ns E) ns k then
           (case createNamespace (qe_ns E) ns k of
              (k1, Some e) \<Rightarrow> (k1, Inl (APIError ConnectClusterFailed
                 (''create user '' @ uq_UserName quota @ '' namespace '' @ ns @ '' failed '' @ k8s_text e)))
            | (k1, None) \<Rightarrow>
                (case createResourceQuota (qe_Q E) (qe_rq E) ns resourceQuota k1 of
                   (k2, Some e) \<Rightarrow> (fst (deleteNamespace (qe_ns E) ns k2), Inl (APIError ServerError
                      (''create user '' @ uq_UserName quota @ '' resourcequota with namespace '' @ ns @ '' failed '' @ k8s_text e)))
                 | (k2, None) \<Rightarrow> (k2, Inr None)))
         else
           (case updateResourceQuota (qe_Q E) (qe_rq E) ns (rq_Limits resourceQuota) k of
              (k1, Inl e) \<Rightarrow> (k1, Inl (APIError ConnectClusterFailed
                 (''update user '' @ uq_UserName quota @ '' resourcequota with namespace '' @ ns @ '' failed '' @ k8s_text e)))
            | (k1, Inr old) \<Rightarrow> (k1, Inr (Some old))))"

definition rollbackResource ::
  "('d, 'tx, 'e, 'ty, 'k, 'q) quota_env \<Rightarrow> user_quota \<Rightarrow> 'q quota_body k8s_obj option \<Rightarrow> 'k \<Rightarrow> 'k" where
  "rollbackResource E quota undo k =
     (case undo of
        None \<Rightarrow> fst (deleteNamespace (qe_ns E) (uq_Namespace quota) k)
      | Some old \<Rightarrow> fst (kUpdate (qe_rq E) old k))"

definition grant_project ::
  "('e, 'ty) az_table \<Rightarrow> string \<Rightarrow> string \<Rightarrow> string \<Rightarrow> ('d, 'e, 'k) quota_world \<Rightarrow> ('d, 'e, 'k) quota_world" where
  "grant_project Z userName clusterName namespace w =
     (case az_GetUser (qw_authorizer w) userName of
        None \<Rightarrow> w
      | Some user \<Rightarrow>
          w\<lparr>qw_authorizer := fst (az_UpdateUser Z
              (user\<lparr>user_Projects := user_Projects user @ [\<lparr>prj_Cluster = clusterName, prj_Namespace = namespace\<rparr>]\<rparr>)
              (qw_authorizer w))\<rparr>)"

text \<open>The end of \<open>approval\<close>: the answer of the administrator is stored, the namespace granted.\<close>

definition store_approval ::
  "('d, 'tx, 'e, 'ty, 'k, 'q) quota_env \<Rightarrow> time \<Rightarrow> 'tx \<Rightarrow> string \<Rightarrow> string \<Rightarrow> user_quota \<Rightarrow> 'k \<Rightarrow>
   'q quota_body k8s_obj option \<Rightarrow> ('d, 'e, 'k) quota_world \<Rightarrow> ('d, 'e, 'k) quota_world \<times> (api_error + unit)" where
  "store_approval E now tx uid clusterName quota0 k undo w =
     (let T = qe_table E;
          quota = setUserQuotaByAdmin now quota0 clusterName '''' StatusUserQuotaApproval;
          err = (\<lambda>e. APIError ServerError (''approval user '' @ uq_UserName quota @ '' quota with namespace ''
                   @ uq_Namespace quota @ '' failed '' @ e));
          undone = put_kube clusterName (rollbackResource E quota undo k) w
      in case kvUpdate T tx uid (json_marshal quota) of
           Inl e \<Rightarrow> (abandon T tx undone, Inl (err e))
         | Inr tx' \<Rightarrow>
             (case kvCommit T tx' of
                Inl e \<Rightarrow> (abandon T tx' undone, Inl (err e))
              | Inr d \<Rightarrow>
                  (let w' = (put_kube clusterName k w)\<lparr>qw_db := d\<rparr>
                   in (if undo = None then grant_project (qe_az E) (uq_UserName quota) clusterName (uq_Namespace quota) w' else w',
                       Inr ()))))"

definition uq_approval ::
  "('d, 'tx, 'e, 'ty, 'k, 'q) quota_env \<Rightarrow> time \<Rightarrow> quota_ctx \<Rightarrow> ('d, 'e, 'k) quota_world \<Rightarrow>
   ('d, 'e, 'k) quota_world \<times> (api_error + unit)" where
  "uq_approval E now ctx w =
     (case snd (qc_action ctx) of
        ClusterInfo clusterName \<Rightarrow>
          if clusterName = '''' then (w, Inl (APIError InvalidFormat ''approval param is not valid''))
          else (case qw_kubes w clusterName of
            None \<Rightarrow> (w, Inl (APIError NotFound (''cluster '' @ clusterName @ '' doesn't exist'')))
          | Some k \<Rightarrow>
              (let T = qe_table E; uid = uq_ID (qc_resource ctx);
                   err = (\<lambda>e. APIError ServerError (''approval user quota '' @ uid @ '' failed '' @ e))
               in with_quota T err err uid (\<lambda>tx quota.
                    if uq_Status quota \<noteq> StatusUserQuotaProcessing
                    then (abandon T tx w, Inl (APIError ServerError (''approval user quota '' @ uid
                            @ '' failed: only approval request that status is processing'')))
                    else (case prepare_namespace E quota k of
                            (k', Inl e) \<Rightarrow> (abandon T tx (put_kube clusterName k' w), Inl e)
                          | (k', Inr undo) \<Rightarrow> store_approval E now tx uid clusterName quota k' undo w)) w))
      | _ \<Rightarrow> (w, Inl (APIError InvalidFormat ''approval param is not valid'')))"

definition uq_reject ::
  "('d, 'tx, 'e, 'ty, 'k, 'q) quota_env \<Rightarrow> time \<Rightarrow> quota_ctx \<Rightarrow> ('d, 'e, 'k) quota_world \<Rightarrow>
   ('d, 'e, 'k) quota_world \<times> (api_error + unit)" where
  "uq_reject E now ctx w =
     (case snd (qc_action ctx) of
        Rejection reason \<Rightarrow>
          if reason = '''' then (w, Inl (APIError InvalidFormat ''rejection param is not valid''))
          else (let T = qe_table E; uid = uq_ID (qc_resource ctx)
                in with_quota T (\<lambda>e. APIError ServerError (''reject user quota '' @ uid @ '' failed '' @ e))
                     (\<lambda>e. APIError ServerError (''reject user quota '' @ uid @ '' failed: '' @ e)) uid (\<lambda>tx quota0.
                     if uq_Status quota0 \<noteq> StatusUserQuotaProcessing
                     then (abandon T tx w, Inl (APIError ServerError (''reject user quota '' @ uid
                             @ '' failed: only reject request that status is processing'')))
                     else (let quota = setUserQuotaByAdmin now quota0 (uq_ClusterName quota0) reason StatusUserQuotaRejection;
                               err = (\<lambda>e. APIError ServerError (''reject user '' @ uq_UserName quota @ '' quota with namespace ''
                                        @ uq_Namespace quota @ '' failed '' @ e))
                           in case kvUpdate T tx uid (json_marshal quota) of
                                Inl e \<Rightarrow> (abandon T tx w, Inl (err e))
                              | Inr tx' \<Rightarrow>
                                  (case commit_tx T tx' w of
                                     (w', Some e) \<Rightarrow> (w', Inl (err e))
                                   | (w', None) \<Rightarrow> (w', Inr ())))) w)
      | _ \<Rightarrow> (w, Inl (APIError InvalidFormat ''rejection param is not valid'')))"

definition uq_Action ::
  "('d, 'tx, 'e, 'ty, 'k, 'q) quota_env \<Rightarrow> time \<Rightarrow> quota_ctx \<Rightarrow> ('d, 'e, 'k) quota_world \<Rightarrow>
   ('d, 'e, 'k) quota_world \<times> (api_error + unit)" where
  "uq_Action E now ctx w =
     (if \<not> isAdmin (getCurrentUser (qc_current ctx))
      then (w, Inl (APIError PermissionDenied ''only admin can approval or reject user quota''))
      else if fst (qc_action ctx) = ActionApproval then uq_approval E now ctx w
      else if fst (qc_action ctx) = ActionRejection then uq_reject E now ctx w
      else (w, Inl (APIError InvalidAction (''action '' @ fst (qc_action ctx) @ '' is unknown''))))"

end
