(* ===== verification/UserQuotaProps.thy ===== *)
theory UserQuotaProps
  imports UserQuota
begin

text \<open>
  What the requests for namespaces promise: the workflow of a request as a step relation on the map
  of stored requests and that every handler follows it (\<open>quota_laws\<close>, for any table with the
  laws of a table), what approval and deletion do on the cluster and to the grants
  (\<open>quota_cluster\<close>), and a way around the grants (\<open>quota_live\<close>).
\<close>

section \<open>Specification: the life of a request\<close>

text \<open>
  One successful request of user \<open>u\<close> on the map of stored requests, by namespace.
\<close>

inductive quota_step :: "string \<Rightarrow> (string \<rightharpoonup> user_quota) \<Rightarrow> (string \<rightharpoonup> user_quota) \<Rightarrow> bool" where
  submit: "m ns = None \<Longrightarrow> uq_Namespace q = ns \<Longrightarrow> u \<noteq> '''' \<Longrightarrow>
     quota_step u m (m(ns \<mapsto> setUserQuota q u TypeUserQuotaCreate now))"
| resubmit: "m ns = Some q0 \<Longrightarrow> uq_UserName q0 = u \<Longrightarrow> uq_Status q0 \<noteq> StatusUserQuotaProcessing \<Longrightarrow>
     uq_Namespace q = ns \<Longrightarrow> uq_ClusterName q = uq_ClusterName q0 \<Longrightarrow>
     quota_step u m (m(ns \<mapsto> setUserQuota q u TypeUserQuotaUpdate (uq_CreationTimestamp q0)))"
| withdraw: "m ns = Some q0 \<Longrightarrow> uq_UserName q0 = u \<or> u = Administrator \<Longrightarrow>
     uq_Status q0 \<noteq> StatusUserQuotaProcessing \<Longrightarrow> quota_step u m (m(ns := None))"
| approve: "m ns = Some q0 \<Longrightarrow> u = Administrator \<Longrightarrow> uq_Status q0 = StatusUserQuotaProcessing \<Longrightarrow> c \<noteq> '''' \<Longrightarrow>
     quota_step u m (m(ns \<mapsto> setUserQuotaByAdmin now q0 c '''' StatusUserQuotaApproval))"
| reject: "m ns = Some q0 \<Longrightarrow> u = Administrator \<Longrightarrow> uq_Status q0 = StatusUserQuotaProcessing \<Longrightarrow> reason \<noteq> '''' \<Longrightarrow>
     quota_step u m (m(ns \<mapsto> setUserQuotaByAdmin now q0 (uq_ClusterName q0) reason StatusUserQuotaRejection))"

text \<open>What holds of every stored request.\<close>

definition quota_ok :: "'q quantity_lib \<Rightarrow> string \<Rightarrow> user_quota \<Rightarrow> bool" where
  "quota_ok Q ns q \<longleftrightarrow>
     uq_ID q = ns \<and> uq_Name q = ns \<and> uq_Namespace q = ns \<and> uq_UserName q \<noteq> ''''
     \<and> uq_Status q \<in> {StatusUserQuotaProcessing, StatusUserQuotaApproval, StatusUserQuotaRejection}
     \<and> (uq_Status q = StatusUserQuotaApproval \<longrightarrow> uq_ClusterName q \<noteq> '''')
     \<and> checkUserQuotaParamsValid Q q = None"

definition quotas_ok :: "'q quantity_lib \<Rightarrow> (string \<rightharpoonup> user_quota) \<Rightarrow> bool" where
  "quotas_ok Q m \<longleftrightarrow> (\<forall>ns q. m ns = Some q \<longrightarrow> quota_ok Q ns q)"

lemma length_filter_all: "length (filter P xs) = length xs \<longleftrightarrow> list_all P xs"
  using length_filter_less [of _ xs P] by (fastforce simp: list_all_iff)

lemma params_valid_iff:
  "checkUserQuotaParamsValid Q q = None \<longleftrightarrow> list_all namespaceRegex (uq_Namespace q)
     \<and> (\<forall>t \<in> {uq_CPU q, uq_Memory q, uq_Storage q}. \<exists>x. parseQuantity Q t = Inr x)"
  by (auto simp: checkUserQuotaParamsValid_def length_filter_all split: sum.splits)

lemma set_sel [simp]:
  "uq_ID (setUserQuota q u t now) = uq_Namespace q" "uq_Name (setUserQuota q u t now) = uq_Namespace q"
  "uq_Namespace (setUserQuota q u t now) = uq_Namespace q" "uq_UserName (setUserQuota q u t now) = u"
  "uq_Status (setUserQuota q u t now) = StatusUserQuotaProcessing" "uq_ClusterName (setUserQuota q u t now) = uq_ClusterName q"
  "uq_CPU (setUserQuota q u t now) = uq_CPU q" "uq_Memory (setUserQuota q u t now) = uq_Memory q"
  "uq_Storage (setUserQuota q u t now) = uq_Storage q"
  by (simp_all add: setUserQuota_def)

lemma admin_sel [simp]:
  "uq_ID (setUserQuotaByAdmin now q c r s) = uq_ID q" "uq_Name (setUserQuotaByAdmin now q c r s) = uq_Name q"
  "uq_Namespace (setUserQuotaByAdmin now q c r s) = uq_Namespace q" "uq_UserName (setUserQuotaByAdmin now q c r s) = uq_UserName q"
  "uq_Status (setUserQuotaByAdmin now q c r s) = s" "uq_ClusterName (setUserQuotaByAdmin now q c r s) = c"
  "uq_CPU (setUserQuotaByAdmin now q c r s) = uq_CPU q" "uq_Memory (setUserQuotaByAdmin now q c r s) = uq_Memory q"
  "uq_Storage (setUserQuotaByAdmin now q c r s) = uq_Storage q"
  by (simp_all add: setUserQuotaByAdmin_def)

lemma quotas_ok_upd: "quotas_ok Q m \<Longrightarrow> quota_ok Q ns q \<Longrightarrow> quotas_ok Q (m(ns \<mapsto> q))"
  by (simp add: quotas_ok_def)

lemma quotas_ok_del: "quotas_ok Q m \<Longrightarrow> quotas_ok Q (m(ns := None))"
  by (simp add: quotas_ok_def)

lemma quotas_ok_key: "quotas_ok Q m \<Longrightarrow> m k = Some q \<Longrightarrow> uq_Namespace q = k"
  by (simp add: quotas_ok_def quota_ok_def)

lemma quota_ok_set:
  "checkUserQuotaParamsValid Q q = None \<Longrightarrow> u \<noteq> '''' \<Longrightarrow> quota_ok Q (uq_Namespace q) (setUserQuota q u t now)"
  by (simp add: quota_ok_def params_valid_iff)

lemma quota_ok_admin:
  "quota_ok Q ns q \<Longrightarrow> s = StatusUserQuotaApproval \<and> c \<noteq> '''' \<or> s = StatusUserQuotaRejection \<Longrightarrow>
   quota_ok Q ns (setUserQuotaByAdmin now q c r s)"
  by (auto simp: quota_ok_def params_valid_iff)

section \<open>Requests\<close>

datatype quota_op = QCreate time quota_ctx | QUpdate quota_ctx | QDelete quota_ctx | QAction time quota_ctx

fun op_ctx :: "quota_op \<Rightarrow> quota_ctx" where
  "op_ctx (QCreate _ ctx) = ctx"
| "op_ctx (QUpdate ctx) = ctx"
| "op_ctx (QDelete ctx) = ctx"
| "op_ctx (QAction _ ctx) = ctx"

abbreviation op_user :: "quota_op \<Rightarrow> string" where
  "op_user x \<equiv> getCurrentUser (qc_current (op_ctx x))"

definition outcome :: "'w \<times> (api_error + 'a) \<Rightarrow> 'w \<times> api_error option" where
  "outcome wr = (case wr of (w, Inl e) \<Rightarrow> (w, Some e) | (w, Inr _) \<Rightarrow> (w, None))"

fun quota_exec ::
  "('d, 'tx, 'e, 'ty, 'k, 'q) quota_env \<Rightarrow> quota_op \<Rightarrow> ('d, 'e, 'k) quota_world \<Rightarrow> ('d, 'e, 'k) quota_world \<times> api_error option" where
  "quota_exec E (QCreate now ctx) w = outcome (uq_Create E now ctx w)"
| "quota_exec E (QUpdate ctx) w = outcome (uq_Update E ctx w)"
| "quota_exec E (QDelete ctx) w = outcome (uq_Delete E ctx w)"
| "quota_exec E (QAction now ctx) w = outcome (uq_Action E now ctx w)"

lemma outcome_iff:
  "outcome p = (w, None) \<longleftrightarrow> (\<exists>a. p = (w, Inr a))" "outcome p = (w, Some e) \<longleftrightarrow> p = (w, Inl e)"
  by (cases p; cases "snd p"; auto simp: outcome_def)+

text \<open>The map of stored requests.\<close>

abbreviation stores :: "('d \<Rightarrow> string \<rightharpoonup> user_quota json) \<Rightarrow> (string \<rightharpoonup> user_quota) \<Rightarrow> ('d, 'e, 'k) quota_world \<Rightarrow> bool" where
  "stores view m w \<equiv> agrees view Json m (qw_db w)"

lemma world_sel [simp]:
  "qw_db (abandon T tx w) = kvRollback T tx" "qw_kubes (abandon T tx w) = qw_kubes w" "qw_authorizer (abandon T tx w) = qw_authorizer w"
  "qw_db (put_kube c k w) = qw_db w" "qw_kubes (put_kube c k w) = (qw_kubes w)(c \<mapsto> k)" "qw_authorizer (put_kube c k w) = qw_authorizer w"
  "qw_db (revoke_project Z q w) = qw_db w" "qw_kubes (revoke_project Z q w) = qw_kubes w"
  "qw_db (grant_project Z u c n w) = qw_db w" "qw_kubes (grant_project Z u c n w) = qw_kubes w"
  by (simp_all add: abandon_def put_kube_def revoke_project_def grant_project_def split: option.split)

locale quota_laws = kv_laws "qe_table E" view txview
  for E :: "('d, 'tx, 'e, 'ty, 'k, 'q) quota_env" and view txview
begin

text \<open>A transaction that was begun on the map \<open>m\<close> and now shows \<open>m'\<close>.\<close>

definition open_tx :: "(string \<rightharpoonup> user_quota) \<Rightarrow> (string \<rightharpoonup> user_quota) \<Rightarrow> 'tx \<Rightarrow> bool" where
  "open_tx m m' tx \<longleftrightarrow> txview tx = map_option Json \<circ> m' \<and> view (kvRollback (qe_table E) tx) = map_option Json \<circ> m"

lemma open_begin: "agrees view Json m d \<Longrightarrow> kvBegin (qe_table E) d = Inr tx \<Longrightarrow> open_tx m m tx"
  by (simp add: open_tx_def agrees_def begin_view begin_rollback)

lemma open_get: "open_tx m m' tx \<Longrightarrow> getUserQuotaFromDB (qe_table E) tx k = Inr q \<Longrightarrow> m' k = Some q"
  by (cases "m' k") (auto simp: open_tx_def getUserQuotaFromDB_def storageResourceValueToSCUserQuota_def
      split: sum.splits option.splits dest!: get_view)

lemma open_add: "open_tx m m' tx \<Longrightarrow> kvAdd (qe_table E) tx k (json_marshal q) = Inr tx' \<Longrightarrow>
    m' k = None \<and> open_tx m (m'(k \<mapsto> q)) tx'"
  by (auto simp: open_tx_def json_marshal_def map_option_comp_upd dest!: add_view)

lemma open_update: "open_tx m m' tx \<Longrightarrow> kvUpdate (qe_table E) tx k (json_marshal q) = Inr tx' \<Longrightarrow> open_tx m (m'(k \<mapsto> q)) tx'"
  by (auto simp: open_tx_def json_marshal_def map_option_comp_upd dest!: update_view)

lemma open_delete: "open_tx m m' tx \<Longrightarrow> kvDelete (qe_table E) tx k = Inr tx' \<Longrightarrow> open_tx m (m'(k := None)) tx'"
  by (auto simp: open_tx_def map_option_comp_del dest!: delete_view)

lemma open_rollback: "open_tx m m' tx \<Longrightarrow> agrees view Json m (kvRollback (qe_table E) tx)"
  by (simp add: open_tx_def agrees_def)

lemma open_abandon: "open_tx m m' tx \<Longrightarrow> stores view m (abandon (qe_table E) tx w)"
  by (simp add: open_tx_def agrees_def)

lemma open_commit: "open_tx m m' tx \<Longrightarrow> kvCommit (qe_table E) tx = Inr d \<Longrightarrow> agrees view Json m' d"
  by (simp add: open_tx_def agrees_def commit_view)

lemma open_commit_tx:
  "open_tx m m' tx \<Longrightarrow> commit_tx (qe_table E) tx w = (w', r) \<Longrightarrow> stores view (if r = None then m' else m) w'"
  using open_abandon [of m m' tx w] by (auto simp: commit_tx_def open_commit split: sum.splits)

lemma with_quota_cases:
  assumes "with_quota (qe_table E) eb eg uid body w = (w', r)" "stores view m w"
  shows "(\<exists>e. r = Inl e \<and> stores view m w') \<or> (\<exists>tx q. open_tx m m tx \<and> m uid = Some q \<and> body tx q = (w', r))"
proof (cases "kvBegin (qe_table E) (qw_db w)")
  case (Inr tx)
  then have o: "open_tx m m tx" using open_begin assms(2) by blast
  then show ?thesis using assms(1) Inr open_get [OF o] open_abandon [OF o]
    by (auto simp: with_quota_def split: sum.splits)
qed (use assms in \<open>auto simp: with_quota_def\<close>)

text \<open>
  The outcome of a handler: an error and the same map, or success and a step of the user.
\<close>

definition follows :: "string \<Rightarrow> (string \<rightharpoonup> user_quota) \<Rightarrow> ('d, 'e, 'k) quota_world \<times> (api_error + 'a) \<Rightarrow> bool" where
  "follows u m wr \<longleftrightarrow>
     (case snd wr of
        Inl e \<Rightarrow> stores view m (fst wr)
      | Inr _ \<Rightarrow> \<exists>m'. stores view m' (fst wr) \<and> quota_step u m m' \<and> (quotas_ok (qe_Q E) m \<longrightarrow> quotas_ok (qe_Q E) m'))"

lemma follows_err: "stores view m w \<Longrightarrow> follows u m (w, Inl e)"
  by (simp add: follows_def)

lemma follows_with_quota:
  assumes "stores view m w" "\<And>tx q. open_tx m m tx \<Longrightarrow> m uid = Some q \<Longrightarrow> follows u m (body tx q)"
  shows "follows u m (with_quota (qe_table E) eb eg uid body w)"
proof -
  obtain w' r where "with_quota (qe_table E) eb eg uid body w = (w', r)" by fastforce
  with with_quota_cases [OF this assms(1)] assms(2) show ?thesis by (metis follows_err)
qed

lemma follows_commit:
  assumes "open_tx m m' tx" "quota_step u m m'" "quotas_ok (qe_Q E) m \<Longrightarrow> quotas_ok (qe_Q E) m'"
    and "\<And>w'. qw_db (f w') = qw_db w'"
  shows "follows u m (case commit_tx (qe_table E) tx w of (w', Some e) \<Rightarrow> (w', Inl (err e)) | (w', None) \<Rightarrow> (f w', Inr a))"
proof -
  obtain w' r where c: "commit_tx (qe_table E) tx w = (w', r)" by fastforce
  from open_commit_tx [OF assms(1) this] c assms(2-4) show ?thesis
    by (cases r) (auto simp: follows_def)
qed

text \<open>The steps of a handler, as rules.\<close>

lemma follows_if: "(P \<Longrightarrow> follows u m a) \<Longrightarrow> (\<not> P \<Longrightarrow> follows u m b) \<Longrightarrow> follows u m (if P then a else b)"
  by simp

lemma follows_abandon: "open_tx m m' tx \<Longrightarrow> follows u m (abandon (qe_table E) tx w, Inl e)"
  by (intro follows_err open_abandon)

text \<open>The last step of every handler but the approval: one write and its commit.\<close>

definition write_commit ::
  "('tx \<Rightarrow> goerr + 'tx) \<Rightarrow> (goerr \<Rightarrow> api_error) \<Rightarrow> (goerr \<Rightarrow> api_error) \<Rightarrow>
   (('d, 'e, 'k) quota_world \<Rightarrow> ('d, 'e, 'k) quota_world) \<Rightarrow> 'a \<Rightarrow> 'tx \<Rightarrow> ('d, 'e, 'k) quota_world \<Rightarrow>
   ('d, 'e, 'k) quota_world \<times> (api_error + 'a)" where
  "write_commit wr err1 err2 f a tx w =
     (case wr tx of
        Inl e \<Rightarrow> (abandon (qe_table E) tx w, Inl (err1 e))
      | Inr tx' \<Rightarrow> (case commit_tx (qe_table E) tx' w of (w', Some e) \<Rightarrow> (w', Inl (err2 e)) | (w', None) \<Rightarrow> (f w', Inr a)))"

lemma follows_write:
  assumes "open_tx m m tx" "\<And>tx'. wr tx = Inr tx' \<Longrightarrow> open_tx m m' tx'" "quota_step u m m'"
    and "quotas_ok (qe_Q E) m \<Longrightarrow> quotas_ok (qe_Q E) m'" "\<And>w'. qw_db (f w') = qw_db w'"
  shows "follows u m (write_commit wr err1 err2 f a tx w)"
  using assms by (auto simp: write_commit_def split: sum.split intro: follows_abandon follows_commit)

lemma follows_update:
  assumes "open_tx m m tx" "quota_step u m (m(k \<mapsto> q))" "quotas_ok (qe_Q E) m \<Longrightarrow> quotas_ok (qe_Q E) (m(k \<mapsto> q))"
  shows "follows u m (case kvUpdate (qe_table E) tx k (json_marshal q) of
     Inl e \<Rightarrow> (abandon (qe_table E) tx w, Inl (err1 e))
   | Inr tx' \<Rightarrow> (case commit_tx (qe_table E) tx' w of (w', Some e) \<Rightarrow> (w', Inl (err2 e)) | (w', None) \<Rightarrow> (w', Inr a)))"
  using follows_write [OF assms(1) open_update [OF assms(1)] assms(2,3), where f = "\<lambda>w. w"] by (simp add: write_commit_def)

lemma follows_add:
  assumes "open_tx m m tx" "m k = None \<Longrightarrow> quota_step u m (m(k \<mapsto> q))" "quotas_ok (qe_Q E) m \<Longrightarrow> quotas_ok (qe_Q E) (m(k \<mapsto> q))"
  shows "follows u m (case kvAdd (qe_table E) tx k (json_marshal q) of
     Inl e \<Rightarrow> (abandon (qe_table E) tx w, Inl (err1 e))
   | Inr tx' \<Rightarrow> (case commit_tx (qe_table E) tx' w of (w', Some e) \<Rightarrow> (w', Inl (err2 e)) | (w', None) \<Rightarrow> (w', Inr a)))"
proof (cases "kvAdd (qe_table E) tx k (json_marshal q)")
  case (Inr tx')
  from open_add [OF assms(1) this] show ?thesis
    using follows_commit [where f = "\<lambda>w. w", of m "m(k \<mapsto> q)" tx' u] assms(2,3) Inr by simp
qed (simp add: follows_abandon [OF assms(1)])

lemma delete_record_follows:
  assumes "open_tx m m tx" "quota_step u m (m(k := None))"
  shows "follows u m (delete_record E tx k q w)"
  unfolding delete_record_def Let_def
  by (rule follows_write [OF assms(1) open_delete [OF assms(1)] assms(2) quotas_ok_del, unfolded write_commit_def]) simp_all

lemma follows_begin:
  assumes "stores view m w" "\<And>tx. open_tx m m tx \<Longrightarrow> follows u m (g tx)"
  shows "follows u m (case kvBegin (qe_table E) (qw_db w) of Inl e \<Rightarrow> (w, Inl (err e)) | Inr tx \<Rightarrow> g tx)"
  using assms open_begin [OF assms(1)] by (auto split: sum.split intro: follows_err)

lemma follows_check:
  assumes "stores view m w" "c = None \<Longrightarrow> follows u m b"
  shows "follows u m (case c of None \<Rightarrow> b | Some e \<Rightarrow> (w, Inl (err e)))"
  using assms by (auto split: option.split intro: follows_err)

lemmas follows_rules = follows_if follows_check follows_begin follows_with_quota follows_add follows_update follows_abandon follows_err

lemma Create_follows:
  assumes "stores view m w"
  shows "follows (getCurrentUser (qc_current ctx)) m (uq_Create E now ctx w)"
  unfolding uq_Create_def Let_def
  by (intro follows_rules assms) (auto intro: quota_step.submit quotas_ok_upd quota_ok_set)

lemma resubmit_step:
  assumes "quotas_ok Q m" "m k = Some q0" "uq_Namespace q0 = uq_Namespace q" "uq_ClusterName q0 = uq_ClusterName q"
    "uq_Status q0 \<noteq> StatusUserQuotaProcessing" "uq_UserName q0 = u"
  shows "quota_step u m (m(uq_Namespace q \<mapsto> setUserQuota q u TypeUserQuotaUpdate (uq_CreationTimestamp q0)))"
  using assms quotas_ok_key [OF assms(1,2)] by (intro quota_step.resubmit) auto

lemma Update_follows:
  assumes "stores view m w" "quotas_ok (qe_Q E) m"
  shows "follows (getCurrentUser (qc_current ctx)) m (uq_Update E ctx w)"
  unfolding uq_Update_def Let_def
  by (intro follows_rules assms(1))
    (auto intro: resubmit_step [OF assms(2)] quotas_ok_upd quota_ok_set)

lemma Delete_follows:
  assumes "stores view m w"
  shows "follows (getCurrentUser (qc_current ctx)) m (uq_Delete E ctx w)"
proof -
  have *: "follows u m (let (k', r) = deleteNamespace (qe_ns E) n k; w' = put_kube c k' w
      in case r of Some e \<Rightarrow> if \<not> IsNotFound e then (abandon (qe_table E) tx w', Inl (err e)) else delete_record E tx uid q w'
         | None \<Rightarrow> delete_record E tx uid q w')"
    if "open_tx m m tx" "quota_step u m (m(uid := None))" for u k n c tx q uid err
    using that by (auto simp: Let_def split: prod.split option.split intro: follows_abandon delete_record_follows)
  show ?thesis
    unfolding uq_Delete_def Let_def
    by (intro follows_rules assms delete_record_follows)
      (auto simp: isAdmin_def split: option.split intro: follows_abandon quota_step.withdraw * [unfolded Let_def])
qed

lemma reject_follows: "stores view m w \<Longrightarrow> follows Administrator m (uq_reject E now ctx w)"
  unfolding uq_reject_def Let_def
  by (cases "snd (qc_action ctx)"; simp only: quota_input.case; intro follows_rules)
    (auto simp: quotas_ok_def intro: quota_step.reject quota_ok_admin)

lemma store_approval_follows:
  assumes "open_tx m m tx" "m uid = Some q" "uq_Status q = StatusUserQuotaProcessing" "c \<noteq> ''''"
  shows "follows Administrator m (store_approval E now tx uid c q k undo w)"
proof -
  let ?q = "setUserQuotaByAdmin now q c '''' StatusUserQuotaApproval"
  have step: "quota_step Administrator m (m(uid \<mapsto> ?q))"
    by (rule quota_step.approve) (use assms in simp_all)
  have "quotas_ok (qe_Q E) m \<Longrightarrow> quotas_ok (qe_Q E) (m(uid \<mapsto> ?q))"
    using assms by (auto simp: quotas_ok_def intro: quota_ok_admin)
  then show ?thesis
    using open_update [OF assms(1), of uid ?q] step assms(1)
    by (auto simp: store_approval_def Let_def follows_def split: sum.split dest: open_commit open_rollback)
qed

lemma follows_prepared:
  assumes "open_tx m m tx" "m uid = Some q" "uq_Status q = StatusUserQuotaProcessing" "c \<noteq> ''''"
  shows "follows Administrator m (case p of (k', Inl e) \<Rightarrow> (abandon (qe_table E) tx (put_kube c k' w), Inl e)
     | (k', Inr undo) \<Rightarrow> store_approval E now tx uid c q k' undo w)"
  by (cases p; cases "snd p") (auto intro: follows_abandon [OF assms(1)] store_approval_follows [OF assms])

lemma follows_cluster:
  "stores view m w \<Longrightarrow> (\<And>k. follows u m (f k)) \<Longrightarrow> follows u m (case ks c of None \<Rightarrow> (w, Inl e) | Some k \<Rightarrow> f k)"
  by (auto split: option.split intro: follows_err)

lemma approval_follows: "stores view m w \<Longrightarrow> follows Administrator m (uq_approval E now ctx w)"
  unfolding uq_approval_def Let_def
  by (cases "snd (qc_action ctx)"; simp only: quota_input.case; intro follows_rules follows_cluster follows_prepared) auto

lemma Action_follows: "stores view m w \<Longrightarrow> follows (getCurrentUser (qc_current ctx)) m (uq_Action E now ctx w)"
  by (auto simp: uq_Action_def isAdmin_def follows_err approval_follows reject_follows)

lemma follows_outcome:
  "follows u m p \<Longrightarrow> quotas_ok (qe_Q E) m \<Longrightarrow> outcome p = (w', r) \<Longrightarrow>
   \<exists>m'. stores view m' w' \<and> quotas_ok (qe_Q E) m' \<and> (if r = None then quota_step u m m' else m' = m)"
  by (cases r) (auto simp: follows_def outcome_iff)

lemma exec_follows:
  assumes "stores view m w" "quotas_ok (qe_Q E) m" "quota_exec E x w = (w', r)"
  shows "\<exists>m'. stores view m' w' \<and> quotas_ok (qe_Q E) m' \<and> (if r = None then quota_step (op_user x) m m' else m' = m)"
proof (cases x)
  case (QCreate now ctx)
  then show ?thesis using follows_outcome [OF Create_follows [OF assms(1)] assms(2)] assms(3) by simp
next
  case (QUpdate ctx)
  then show ?thesis using follows_outcome [OF Update_follows [OF assms(1,2)] assms(2)] assms(3) by simp
next
  case (QDelete ctx)
  then show ?thesis using follows_outcome [OF Delete_follows [OF assms(1)] assms(2)] assms(3) by simp
next
  case (QAction now ctx)
  then show ?thesis using follows_outcome [OF Action_follows [OF assms(1)] assms(2)] assms(3) by simp
qed

end

section \<open>What approval and deletion do to the cluster and the grants\<close>

text \<open>
  \<open>leaving\<close>: the namespace is gone or being deleted. The kinds of object are independent, except that deleting a namespace deletes its quotas.
\<close>

definition leaving :: "('k \<Rightarrow> string \<times> string \<rightharpoonup> unit k8s_obj) \<Rightarrow> string \<Rightarrow> 'k \<Rightarrow> bool" where
  "leaving nsview n k = (case nsview k ('''', n) of None \<Rightarrow> True | Some obj \<Rightarrow> ko_deletion obj \<noteq> None)"

locale quota_cluster = NS: kube_live "qe_ns E" nsview nskept + RQ: kube_live "qe_rq E" rqview "\<lambda>b. map_of (qb_hard b)"
  for E :: "('d, 'tx, 'e, 'ty, 'k, 'q) quota_env" and nsview and nskept :: "unit \<Rightarrow> 's" and rqview +
  assumes quota_create_frame: "nsview (fst (kCreate (qe_rq E) obj k)) = nsview k"
    and quota_update_frame: "nsview (fst (kUpdate (qe_rq E) obj k)) = nsview k"
    and delete_missing: "kDelete (qe_ns E) ns n k = (k', Some (K8sNotFound e)) \<Longrightarrow> nsview k (ns, n) = None"
begin

lemma hasNamespace_iff: "hasNamespace (qe_ns E) n k \<longleftrightarrow> nsview k ('''', n) \<noteq> None"
proof (cases "nsview k ('''', n)")
  case None
  then show ?thesis using NS.get_missing [OF None] by (auto simp: hasNamespace_def getNamespace_def)
next
  case (Some obj)
  then show ?thesis using NS.get_live [OF Some] by (simp add: hasNamespace_def getNamespace_def)
qed

lemma storage_list: "scQuotaResourceListToK8sResourceList Q [(''requests.storage'', s)] = Inr h \<Longrightarrow>
    \<exists>st. parseQuantity Q s = Inr st \<and> map_of h = [''requests.storage'' \<mapsto> st]"
proof -
  have "scQuotaResourceNameToK8sResourceName ''requests.storage'' = Inr ''requests.storage''"
    using quota_names by (simp add: name_table_def)
  then show "scQuotaResourceListToK8sResourceList Q [(''requests.storage'', s)] = Inr h \<Longrightarrow> ?thesis"
    by (auto simp: scQuotaResourceListToK8sResourceList_def split: sum.splits)
qed

lemma prepare_ok:
  assumes "prepare_namespace E q k = (k', Inr undo)"
  shows "hasNamespace (qe_ns E) (uq_Namespace q) k' \<and> (undo = None \<longleftrightarrow> \<not> hasNamespace (qe_ns E) (uq_Namespace q) k)
    \<and> (\<exists>st obj. parseQuantity (qe_Q E) (uq_Storage q) = Inr st
         \<and> kGet (qe_rq E) (uq_Namespace q) (uq_Namespace q) k' = Inr obj \<and> map_of (qb_hard (ko_body obj)) = [''requests.storage'' \<mapsto> st])"
proof (cases "hasNamespace (qe_ns E) (uq_Namespace q) k")
  case True
  then obtain old where u: "updateResourceQuota (qe_Q E) (qe_rq E) (uq_Namespace q) [(''requests.storage'', uq_Storage q)] k = (k', Inr old)"
    "undo = Some old"
    using assms by (auto simp: prepare_namespace_def Let_def split: prod.splits sum.splits)
  then obtain h where h: "scQuotaResourceListToK8sResourceList (qe_Q E) [(''requests.storage'', uq_Storage q)] = Inr h"
    "kUpdate (qe_rq E) (old\<lparr>ko_body := (ko_body old)\<lparr>qb_hard := h\<rparr>\<rparr>) k = (k', None)" "kGet (qe_rq E) (uq_Namespace q) (uq_Namespace q) k = Inr old"
    by (auto simp: updateResourceQuota_def split: prod.splits sum.splits option.splits)
  have "ko_key old = (uq_Namespace q, uq_Namespace q)" using RQ.view_key [OF RQ.get_view [OF h(3)]] .
  then show ?thesis
    using RQ.update_then_get [OF h(2)] storage_list [OF h(1)] quota_update_frame [of _ k] h(2) True u(2)
    by (auto simp: hasNamespace_iff) (metis fst_conv)
next
  case False
  then obtain k1 where c: "createNamespace (qe_ns E) (uq_Namespace q) k = (k1, None)"
    "createResourceQuota (qe_Q E) (qe_rq E) (uq_Namespace q)
       \<lparr>rq_ID = '''', rq_CreationTimestamp = 0, rq_DeletionTimestamp = None, rq_Name = uq_Namespace q,
        rq_Limits = [(''requests.storage'', uq_Storage q)], rq_StatusLimits = [], rq_StatusUsed = []\<rparr> k1 = (k', None)" "undo = None"
    using assms by (auto simp: prepare_namespace_def Let_def split: prod.splits sum.splits option.splits)
  then obtain h where h: "scQuotaResourceListToK8sResourceList (qe_Q E) [(''requests.storage'', uq_Storage q)] = Inr h"
    "kCreate (qe_rq E) (new_obj (uq_Namespace q) (uq_Namespace q) \<lparr>qb_hard = h, qb_statusHard = [], qb_statusUsed = []\<rparr>) k1 = (k', None)"
    by (auto simp: createResourceQuota_def crud_create_def scResourceQuotaToK8s_def map_sum_Inr_iff split: sum.splits)
  have "nsview k1 ('''', uq_Namespace q) \<noteq> None"
    using NS.create_view [OF c(1) [unfolded createNamespace_def]] by (auto simp: new_obj_def)
  moreover have "nsview k' = nsview k1" using quota_create_frame [of _ k1] h(2) by (metis fst_conv)
  ultimately show ?thesis
    using RQ.create_then_get [OF h(2)] storage_list [OF h(1)] False c(3) by (auto simp: hasNamespace_iff new_obj_def)
qed

lemma delete_leaves:
  assumes "deleteNamespace (qe_ns E) n k = (k', r)" "r = None \<or> (\<exists>e. r = Some e \<and> IsNotFound e)"
  shows "leaving nsview n k'"
  using assms(2)
proof
  assume "r = None"
  with NS.delete_view [of "''''" n k k'] assms(1) show ?thesis by (auto simp: leaving_def deleteNamespace_def)
next
  assume "\<exists>e. r = Some e \<and> IsNotFound e"
  then obtain e where "r = Some (K8sNotFound e)" by (metis IsNotFound.elims(2))
  with delete_missing [of "''''" n k k' e] NS.delete_err [of "''''" n k k'] assms(1) show ?thesis
    by (simp add: leaving_def deleteNamespace_def)
qed

end

definition add_grant :: "string \<Rightarrow> string \<Rightarrow> string \<Rightarrow> (string \<rightharpoonup> project list) \<Rightarrow> (string \<rightharpoonup> project list)" where
  "add_grant u c n g = (case g u of None \<Rightarrow> g | Some ps \<Rightarrow> g(u \<mapsto> ps @ [\<lparr>prj_Cluster = c, prj_Namespace = n\<rparr>]))"

definition drop_grant :: "string \<Rightarrow> string \<Rightarrow> string \<Rightarrow> (string \<rightharpoonup> project list) \<Rightarrow> (string \<rightharpoonup> project list)" where
  "drop_grant u c n g = (case g u of None \<Rightarrow> g | Some ps \<Rightarrow> g(u \<mapsto> remove1 \<lparr>prj_Cluster = c, prj_Namespace = n\<rparr> ps))"

lemma remove_first_project:
  "remove_first (\<lambda>p. prj_Cluster p = c \<and> prj_Namespace p = n) ps = remove1 \<lparr>prj_Cluster = c, prj_Namespace = n\<rparr> ps"
  by (induction ps) auto

lemma grants_UpdateUser:
  "grants (fst (az_UpdateUser Z u a)) = (if grants a (user_ID u) = None then grants a else (grants a)(user_ID u \<mapsto> user_Projects u))"
  by (auto simp: az_UpdateUser_def grants_def Let_def split: option.split prod.split)

lemma grants_grant: "grants (qw_authorizer (grant_project Z u c n w)) = add_grant u c n (grants (qw_authorizer w))"
  by (auto simp: grant_project_def add_grant_def az_GetUser_def shown_user_def grants_UpdateUser split: option.split)
    (auto simp: grants_def)

lemma grants_revoke:
  "grants (qw_authorizer (revoke_project Z q w)) = drop_grant (uq_UserName q) (uq_ClusterName q) (uq_Namespace q) (grants (qw_authorizer w))"
  by (auto simp: revoke_project_def drop_grant_def az_GetUser_def shown_user_def grants_UpdateUser remove_first_project split: option.split)
    (auto simp: grants_def)

context quota_laws
begin

lemma approval_effect:
  assumes "quota_cluster E nsview nskept rqview" "stores view m w"
    and "uq_approval E now ctx w = (w', Inr x)"
  shows "\<exists>q c k k' st obj. m (uq_ID (qc_resource ctx)) = Some q \<and> snd (qc_action ctx) = ClusterInfo c \<and> qw_kubes w c = Some k
    \<and> qw_kubes w' = (qw_kubes w)(c \<mapsto> k') \<and> hasNamespace (qe_ns E) (uq_Namespace q) k'
    \<and> parseQuantity (qe_Q E) (uq_Storage q) = Inr st \<and> kGet (qe_rq E) (uq_Namespace q) (uq_Namespace q) k' = Inr obj
    \<and> map_of (qb_hard (ko_body obj)) = [''requests.storage'' \<mapsto> st]
    \<and> grants (qw_authorizer w') = (if hasNamespace (qe_ns E) (uq_Namespace q) k then grants (qw_authorizer w)
         else add_grant (uq_UserName q) c (uq_Namespace q) (grants (qw_authorizer w)))"
proof -
  obtain c k where c: "snd (qc_action ctx) = ClusterInfo c" "c \<noteq> ''''" "qw_kubes w c = Some k"
    using assms(3) by (auto simp: uq_approval_def split: quota_input.splits if_splits option.splits)
  obtain tx q where q: "m (uq_ID (qc_resource ctx)) = Some q"
    "(case prepare_namespace E q k of (k', Inl e) \<Rightarrow> (abandon (qe_table E) tx (put_kube c k' w), Inl e)
      | (k', Inr undo) \<Rightarrow> store_approval E now tx (uq_ID (qc_resource ctx)) c q k' undo w) = (w', Inr x)"
    using assms(3) c with_quota_cases [OF _ assms(2)]
    by (fastforce simp: uq_approval_def Let_def split: if_splits)
  then obtain k' undo where p: "prepare_namespace E q k = (k', Inr undo)"
    "store_approval E now tx (uq_ID (qc_resource ctx)) c q k' undo w = (w', Inr x)"
    by (auto split: prod.splits sum.splits)
  note ok = quota_cluster.prepare_ok [OF assms(1) p(1)]
  have "qw_kubes w' = (qw_kubes w)(c \<mapsto> k')"
    "grants (qw_authorizer w') = (if undo = None then add_grant (uq_UserName q) c (uq_Namespace q) (grants (qw_authorizer w))
       else grants (qw_authorizer w))"
    using p(2) by (auto simp: store_approval_def Let_def grants_grant split: sum.splits if_splits)
  with ok c q(1) show ?thesis by auto
qed

lemma delete_record_ok:
  assumes "delete_record E tx uid q w = (w', Inr x)"
  shows "qw_kubes w' = qw_kubes w \<and> grants (qw_authorizer w') = (if uq_ClusterName q = '''' then grants (qw_authorizer w)
     else drop_grant (uq_UserName q) (uq_ClusterName q) (uq_Namespace q) (grants (qw_authorizer w)))"
  using assms by (auto simp: delete_record_def commit_tx_def Let_def grants_revoke split: sum.splits prod.splits option.splits)

lemma deletion_effect:
  assumes "quota_cluster E nsview nskept rqview" "stores view m w" "uq_Delete E ctx w = (w', Inr x)"
  shows "\<exists>q. m (uq_ID (qc_resource ctx)) = Some q
    \<and> (if uq_ClusterName q = '''' then qw_kubes w' = qw_kubes w \<and> grants (qw_authorizer w') = grants (qw_authorizer w)
       else (\<exists>k'. qw_kubes w' = (qw_kubes w)(uq_ClusterName q \<mapsto> k') \<and> leaving nsview (uq_Namespace q) k')
         \<and> grants (qw_authorizer w') = drop_grant (uq_UserName q) (uq_ClusterName q) (uq_Namespace q) (grants (qw_authorizer w)))"
proof -
  let ?uid = "uq_ID (qc_resource ctx)"
  obtain tx q where q: "m ?uid = Some q"
    "(if uq_ClusterName q = '''' then delete_record E tx ?uid q w
      else case qw_kubes w (uq_ClusterName q) of None \<Rightarrow> (abandon (qe_table E) tx w, Inl no_cluster)
      | Some k \<Rightarrow> (let (k', r) = deleteNamespace (qe_ns E) (uq_Namespace q) k; w' = put_kube (uq_ClusterName q) k' w
          in case r of Some e \<Rightarrow> if \<not> IsNotFound e then (abandon (qe_table E) tx w', Inl (APIError ServerError (''delete namespace failed '' @ k8s_text e)))
                                else delete_record E tx ?uid q w'
             | None \<Rightarrow> delete_record E tx ?uid q w')) = (w', Inr x)"
    using assms(3) with_quota_cases [OF _ assms(2)] by (fastforce simp: uq_Delete_def Let_def split: if_splits)
  show ?thesis
  proof (cases "uq_ClusterName q = ''''")
    case True
    then show ?thesis using q delete_record_ok [of tx ?uid q w] by simp
  next
    case False
    then obtain k where k: "qw_kubes w (uq_ClusterName q) = Some k" using q(2) by (auto split: option.splits)
    obtain k' r where d: "deleteNamespace (qe_ns E) (uq_Namespace q) k = (k', r)" by fastforce
    with False k q(2) have r: "r = None \<or> (\<exists>e. r = Some e \<and> IsNotFound e)"
      "delete_record E tx ?uid q (put_kube (uq_ClusterName q) k' w) = (w', Inr x)"
      by (auto simp: Let_def split: option.splits if_splits)
    from quota_cluster.delete_leaves [OF assms(1) d r(1)] delete_record_ok [OF r(2)] False q(1) show ?thesis by auto
  qed
qed

text \<open>The requests a user sees.\<close>

lemma List_shows:
  assumes "stores view m w" "uq_List E ctx w = Inr qs"
  shows "set qs = {q. \<exists>ns. m ns = Some q \<and> (getCurrentUser (qc_current ctx) = Administrator \<or> uq_UserName q = getCurrentUser (qc_current ctx))}
    \<and> sorted (map quota_order qs)"
proof -
  obtain kvs quotas where l: "plain_list (qe_table E) (qw_db w) = Inr kvs" "unmarshal_all (map snd kvs) = Inr quotas"
    "qs = sort_key quota_order (filter (\<lambda>q. \<not> (\<not> isAdmin (getCurrentUser (qc_current ctx)) \<and> uq_UserName q \<noteq> getCurrentUser (qc_current ctx))) quotas)"
    using assms(2) by (auto simp: uq_List_def Let_def split: sum.splits)
  have d: "map_of kvs = map_option Json \<circ> m" "distinct (map fst kvs)" using agrees_list [OF assms(1) l(1)] by simp_all
  have "q \<in> set quotas \<longleftrightarrow> (\<exists>ns. m ns = Some q)" for q
  proof -
    have "map snd kvs = map Json quotas" using unmarshal_all_Inr [OF l(2)] .
    then have "q \<in> set quotas \<longleftrightarrow> Json q \<in> snd ` set kvs"
      by (metis (no_types, lifting) image_iff json.inject list.set_map)
    also have "\<dots> \<longleftrightarrow> (\<exists>ns. map_of kvs ns = Some (Json q))" using d(2) by force
    also have "\<dots> \<longleftrightarrow> (\<exists>ns. m ns = Some q)" by (auto simp: d(1))
    finally show ?thesis .
  qed
  then show ?thesis by (auto simp: l(3) isAdmin_def)
qed

end

section \<open>Runs\<close>

fun quota_run ::
  "('d, 'tx, 'e, 'ty, 'k, 'q) quota_env \<Rightarrow> quota_op list \<Rightarrow> ('d, 'e, 'k) quota_world \<Rightarrow>
   ('d, 'e, 'k) quota_world \<times> (quota_op \<times> api_error option) list" where
  "quota_run E [] w = (w, [])"
| "quota_run E (x # xs) w = (let (w', r) = quota_exec E x w; (w'', rs) = quota_run E xs w' in (w'', (x, r) # rs))"

text \<open>The steps of the users whose requests succeeded, in order.\<close>

fun quota_path :: "string list \<Rightarrow> (string \<rightharpoonup> user_quota) \<Rightarrow> (string \<rightharpoonup> user_quota) \<Rightarrow> bool" where
  "quota_path [] m m' \<longleftrightarrow> m' = m"
| "quota_path (u # us) m m' \<longleftrightarrow> (\<exists>m1. quota_step u m m1 \<and> quota_path us m1 m')"

definition successful :: "(quota_op \<times> api_error option) list \<Rightarrow> string list" where
  "successful rs = map (\<lambda>(x, r). op_user x) (filter (\<lambda>(x, r). r = None) rs)"

context quota_laws
begin

lemma run_follows:
  "quota_run E xs w = (w', rs) \<Longrightarrow> stores view m w \<Longrightarrow> quotas_ok (qe_Q E) m \<Longrightarrow>
   \<exists>m'. stores view m' w' \<and> quotas_ok (qe_Q E) m' \<and> quota_path (successful rs) m m'"
proof (induction xs arbitrary: w m rs)
  case Nil
  then show ?case by (auto simp: successful_def)
next
  case (Cons x xs)
  obtain w1 r where x: "quota_exec E x w = (w1, r)" by fastforce
  obtain rs' where xs: "quota_run E xs w1 = (w', rs')" "rs = (x, r) # rs'"
    using Cons.prems(1) x by (auto split: prod.splits)
  obtain m1 where m1: "stores view m1 w1" "quotas_ok (qe_Q E) m1" "if r = None then quota_step (op_user x) m m1 else m1 = m"
    using exec_follows [OF Cons.prems(2,3) x] by blast
  obtain m' where "stores view m' w'" "quotas_ok (qe_Q E) m'" "quota_path (successful rs') m1 m'"
    using Cons.IH [OF xs(1) m1(1,2)] by blast
  with m1(3) show ?case by (auto simp: xs(2) successful_def split: if_splits)
qed

end

text \<open>
  C12. Whatever requests users make, and whichever of them fail, the table holds well-formed requests, at
  most one for a namespace, that went through the steps of the workflow: a request is submitted
  by its user and is in process until the administrator approves or rejects it; only then may its
  user submit it again, for the same namespace and cluster, and only its user or the administrator
  delete it. A failed request changes nothing. The list of a user shows exactly its own requests,
  that of the administrator all, by age.
\<close>

theorem quota_requests_follow_workflow:
  assumes "kv_laws (qe_table E) view txview" "stores view m w" "quotas_ok (qe_Q E) m" "quota_run E xs w = (w', rs)"
  shows "\<exists>m'. stores view m' w' \<and> quotas_ok (qe_Q E) m' \<and> quota_path (successful rs) m m'
    \<and> (\<forall>ctx qs. uq_List E ctx w' = Inr qs \<longrightarrow>
         set qs = {q. \<exists>ns. m' ns = Some q
           \<and> (getCurrentUser (qc_current ctx) = Administrator \<or> uq_UserName q = getCurrentUser (qc_current ctx))}
         \<and> sorted (map quota_order qs))"
proof -
  have L: "quota_laws E view txview" using assms(1) by (simp add: quota_laws_def)
  obtain m' where m': "stores view m' w'" "quotas_ok (qe_Q E) m'" "quota_path (successful rs) m m'"
    using quota_laws.run_follows [OF L assms(4,2,3)] by blast
  show ?thesis
    using m' quota_laws.List_shows [OF L m'(1)] by (intro exI [of _ m']) simp
qed

text \<open>
  C13. An approval that succeeds leaves the namespace on the chosen cluster with a quota of exactly the
  requested storage, and grants it to the user if the namespace was not there before; no other
  grant changes. A deletion that succeeds leaves the namespace gone or being deleted and takes
  that grant away.
\<close>

theorem quota_approval_and_deletion:
  assumes "kv_laws (qe_table E) view txview" "quota_cluster E nsview nskept rqview" "stores view m w"
  shows "(uq_approval E now ctx w = (w', Inr ()) \<longrightarrow>
       (\<exists>q c k k' st obj. m (uq_ID (qc_resource ctx)) = Some q \<and> snd (qc_action ctx) = ClusterInfo c \<and> qw_kubes w c = Some k
          \<and> qw_kubes w' = (qw_kubes w)(c \<mapsto> k') \<and> hasNamespace (qe_ns E) (uq_Namespace q) k'
          \<and> parseQuantity (qe_Q E) (uq_Storage q) = Inr st \<and> kGet (qe_rq E) (uq_Namespace q) (uq_Namespace q) k' = Inr obj
          \<and> map_of (qb_hard (ko_body obj)) = [''requests.storage'' \<mapsto> st]
          \<and> grants (qw_authorizer w') = (if hasNamespace (qe_ns E) (uq_Namespace q) k then grants (qw_authorizer w)
               else add_grant (uq_UserName q) c (uq_Namespace q) (grants (qw_authorizer w)))))
    \<and> (uq_Delete E ctx w = (w', Inr ()) \<longrightarrow>
       (\<exists>q. m (uq_ID (qc_resource ctx)) = Some q
          \<and> (if uq_ClusterName q = '''' then qw_kubes w' = qw_kubes w \<and> grants (qw_authorizer w') = grants (qw_authorizer w)
             else (\<exists>k'. qw_kubes w' = (qw_kubes w)(uq_ClusterName q \<mapsto> k') \<and> leaving nsview (uq_Namespace q) k')
               \<and> grants (qw_authorizer w') = drop_grant (uq_UserName q) (uq_ClusterName q) (uq_Namespace q) (grants (qw_authorizer w)))))"
proof -
  have L: "quota_laws E view txview" using assms(1) by (simp add: quota_laws_def)
  show ?thesis
    using quota_laws.approval_effect [OF L assms(2,3)] quota_laws.deletion_effect [OF L assms(2,3)] by blast
qed

section \<open>A user deletes a namespace of others\<close>

locale quota_live = quota_laws E view txview + kv_live "qe_table E" view txview
  for E :: "('d, 'tx, 'e, 'ty, 'k, 'q) quota_env" and view txview
begin

lemma live_commit: "\<exists>d. commit_tx (qe_table E) tx w = (w\<lparr>qw_db := d\<rparr>, None)"
  using commit_ok [of tx] by (auto simp: commit_tx_def)

lemma live_begin: "stores view m w \<Longrightarrow> \<exists>tx. kvBegin (qe_table E) (qw_db w) = Inr tx \<and> open_tx m m tx"
  using begin_ok [of "qw_db w"] open_begin by blast

lemma live_get:
  assumes "open_tx m m tx" "m uid = Some q"
  shows "getUserQuotaFromDB (qe_table E) tx uid = Inr q"
proof -
  obtain r where "kvGet (qe_table E) tx uid = Inr r" using get_ok by blast
  with get_view [OF this] assms show ?thesis
    by (simp add: getUserQuotaFromDB_def storageResourceValueToSCUserQuota_def open_tx_def)
qed

lemma live_with_quota:
  assumes "stores view m w" "m uid = Some q" "\<And>tx. open_tx m m tx \<Longrightarrow> P (body tx q)"
  shows "P (with_quota (qe_table E) eb eg uid body w)"
  using live_begin [OF assms(1)] live_get [of m _ uid q] assms(2,3) by (auto simp: with_quota_def)

lemma live_Create:
  assumes "stores view m w" "m (uq_Namespace (qc_resource ctx)) = None" "getCurrentUser (qc_current ctx) \<noteq> ''''"
    and "checkUserQuotaParamsValid (qe_Q E) (qc_resource ctx) = None"
  shows "\<exists>d. uq_Create E now ctx w = (w\<lparr>qw_db := d\<rparr>, Inr (setUserQuota (qc_resource ctx) (getCurrentUser (qc_current ctx)) TypeUserQuotaCreate now))
    \<and> agrees view Json (m(uq_Namespace (qc_resource ctx) \<mapsto> setUserQuota (qc_resource ctx) (getCurrentUser (qc_current ctx)) TypeUserQuotaCreate now)) d"
proof -
  let ?q = "setUserQuota (qc_resource ctx) (getCurrentUser (qc_current ctx)) TypeUserQuotaCreate now"
  obtain tx where tx: "kvBegin (qe_table E) (qw_db w) = Inr tx" "open_tx m m tx" using live_begin [OF assms(1)] by blast
  then obtain tx' where a: "kvAdd (qe_table E) tx (uq_ID ?q) (json_marshal ?q) = Inr tx'"
    using add_ok [of tx "uq_ID ?q"] assms(2) by (auto simp: open_tx_def)
  obtain d where d: "commit_tx (qe_table E) tx' w = (w\<lparr>qw_db := d\<rparr>, None)" using live_commit by blast
  have "agrees view Json (m(uq_Namespace (qc_resource ctx) \<mapsto> ?q)) d"
    using open_commit_tx [OF conjunct2 [OF open_add [OF tx(2) a]] d] by simp
  then show ?thesis using tx(1) a d assms(3,4) by (intro exI [of _ d]) (simp add: uq_Create_def Let_def)
qed

lemma live_reject:
  assumes "stores view m w" "m (uq_ID (qc_resource ctx)) = Some q" "uq_Status q = StatusUserQuotaProcessing"
    and "snd (qc_action ctx) = Rejection reason" "reason \<noteq> ''''"
  shows "\<exists>d. uq_reject E now ctx w = (w\<lparr>qw_db := d\<rparr>, Inr ())
    \<and> agrees view Json (m(uq_ID (qc_resource ctx) \<mapsto> setUserQuotaByAdmin now q (uq_ClusterName q) reason StatusUserQuotaRejection)) d"
proof -
  let ?q = "setUserQuotaByAdmin now q (uq_ClusterName q) reason StatusUserQuotaRejection" and ?uid = "uq_ID (qc_resource ctx)"
  have *: "\<exists>d. (case kvUpdate (qe_table E) tx ?uid (json_marshal ?q) of
        Inl e \<Rightarrow> (abandon (qe_table E) tx w, Inl (err1 e))
      | Inr tx' \<Rightarrow> (case commit_tx (qe_table E) tx' w of (w', Some e) \<Rightarrow> (w', Inl (err2 e)) | (w', None) \<Rightarrow> (w', Inr ())))
      = (w\<lparr>qw_db := d\<rparr>, Inr ()) \<and> agrees view Json (m(?uid \<mapsto> ?q)) d" if tx: "open_tx m m tx" for tx err1 err2
  proof -
    obtain tx' where u: "kvUpdate (qe_table E) tx ?uid (json_marshal ?q) = Inr tx'"
      using update_ok [of tx ?uid] tx assms(2) by (auto simp: open_tx_def)
    obtain d where d: "commit_tx (qe_table E) tx' w = (w\<lparr>qw_db := d\<rparr>, None)" using live_commit by blast
    show ?thesis using u d open_commit_tx [OF open_update [OF tx u] d] by (intro exI [of _ d]) simp
  qed
  have "\<exists>d. wr = (w\<lparr>qw_db := d\<rparr>, Inr ()) \<and> agrees view Json (m(?uid \<mapsto> ?q)) d"
    if "wr = uq_reject E now ctx w" for wr
    unfolding that uq_reject_def Let_def assms(4) quota_input.case if_not_P [OF assms(5)]
    by (rule live_with_quota [OF assms(1,2)]) (simp only: assms(3) * not_True_eq_False if_False simp_thms)
  then show ?thesis by simp
qed

lemma live_Delete:
  assumes "stores view m w" "m (uq_ID (qc_resource ctx)) = Some q" "uq_Status q \<noteq> StatusUserQuotaProcessing"
    and "getCurrentUser (qc_current ctx) = uq_UserName q" "uq_UserName q \<noteq> ''''" "uq_ClusterName q \<noteq> ''''"
    and "qw_kubes w (uq_ClusterName q) = Some k" "deleteNamespace (qe_ns E) (uq_Namespace q) k = (k', None)"
  shows "\<exists>w'. uq_Delete E ctx w = (w', Inr ()) \<and> qw_kubes w' = (qw_kubes w)(uq_ClusterName q \<mapsto> k')"
proof -
  let ?uid = "uq_ID (qc_resource ctx)"
  have *: "\<exists>w'. delete_record E tx ?uid q (put_kube (uq_ClusterName q) k' w) = (w', Inr ())
      \<and> qw_kubes w' = (qw_kubes w)(uq_ClusterName q \<mapsto> k')" if "open_tx m m tx" for tx
  proof -
    obtain tx' where "kvDelete (qe_table E) tx ?uid = Inr tx'" using delete_ok by blast
    moreover obtain d where "commit_tx (qe_table E) tx' (put_kube (uq_ClusterName q) k' w) = ((put_kube (uq_ClusterName q) k' w)\<lparr>qw_db := d\<rparr>, None)"
      using live_commit by blast
    ultimately show ?thesis by (simp add: delete_record_def Let_def)
  qed
  have "\<exists>w'. wr = (w', Inr ()) \<and> qw_kubes w' = (qw_kubes w)(uq_ClusterName q \<mapsto> k')" if "wr = uq_Delete E ctx w" for wr
    unfolding that uq_Delete_def Let_def assms(4) if_not_P [OF assms(5)]
    by (rule live_with_quota [OF assms(1,2)]) (simp only: assms(3,6-8) * simp_thms if_False option.case prod.case)
  then show ?thesis by simp
qed

end

text \<open>
  Any user can delete any namespace of a ready cluster, also a system namespace and whatever its
  grants are: a request may name a cluster, the rejection of the administrator keeps it, and the
  deletion of the rejected request deletes the namespace there.
\<close>

theorem quota_delete_escalation:
  assumes "kv_live (qe_table E) view txview" "stores view m w" "m (uq_Namespace q) = None" "u \<noteq> ''''"
    and "checkUserQuotaParamsValid (qe_Q E) q = None" "uq_ClusterName q \<noteq> ''''" "reason \<noteq> ''''" "uq_ID q' = uq_Namespace q"
    and "qw_kubes w (uq_ClusterName q) = Some k" "deleteNamespace (qe_ns E) (uq_Namespace q) k = (k', None)"
  shows "\<exists>w' rs. quota_run E
       [QCreate t1 \<lparr>qc_current = Some u, qc_resource = q, qc_action = a\<rparr>,
        QAction t2 \<lparr>qc_current = Some Administrator, qc_resource = q', qc_action = (ActionRejection, Rejection reason)\<rparr>,
        QDelete \<lparr>qc_current = Some u, qc_resource = q', qc_action = a\<rparr>] w = (w', rs)
     \<and> map snd rs = [None, None, None] \<and> qw_kubes w' = (qw_kubes w)(uq_ClusterName q \<mapsto> k')"
proof -
  have L: "quota_live E view txview" using assms(1) by (simp add: quota_live_def quota_laws_def kv_live_def)
  let ?c1 = "\<lparr>qc_current = Some u, qc_resource = q, qc_action = a\<rparr>"
    and ?c2 = "\<lparr>qc_current = Some Administrator, qc_resource = q', qc_action = (ActionRejection, Rejection reason)\<rparr>"
    and ?c3 = "\<lparr>qc_current = Some u, qc_resource = q', qc_action = a\<rparr>"
    and ?q1 = "setUserQuota q u TypeUserQuotaCreate t1"
  let ?q2 = "setUserQuotaByAdmin t2 ?q1 (uq_ClusterName ?q1) reason StatusUserQuotaRejection"
  obtain d1 where d1: "uq_Create E t1 ?c1 w = (w\<lparr>qw_db := d1\<rparr>, Inr ?q1)" "agrees view Json (m(uq_Namespace q \<mapsto> ?q1)) d1"
    using quota_live.live_Create [OF L assms(2), of ?c1 t1] assms(3-5) by (auto simp: getCurrentUser_def)
  obtain d2 where d2: "uq_reject E t2 ?c2 (w\<lparr>qw_db := d1\<rparr>) = (w\<lparr>qw_db := d2\<rparr>, Inr ())" "agrees view Json (m(uq_Namespace q \<mapsto> ?q2)) d2"
    using quota_live.live_reject [OF L, of "m(uq_Namespace q \<mapsto> ?q1)" "w\<lparr>qw_db := d1\<rparr>" ?c2 ?q1 reason t2] d1(2) assms(7,8) by auto
  obtain w' where w': "uq_Delete E ?c3 (w\<lparr>qw_db := d2\<rparr>) = (w', Inr ())" "qw_kubes w' = (qw_kubes w)(uq_ClusterName q \<mapsto> k')"
    using quota_live.live_Delete [OF L, of "m(uq_Namespace q \<mapsto> ?q2)" "w\<lparr>qw_db := d2\<rparr>" ?c3 ?q2 k k'] d2(2) assms(4,6,8-10)
    by (auto simp: getCurrentUser_def)
  have "quota_exec E (QAction t2 ?c2) (w\<lparr>qw_db := d1\<rparr>) = (w\<lparr>qw_db := d2\<rparr>, None)"
    using d2(1) by (simp add: uq_Action_def outcome_def getCurrentUser_def isAdmin_def)
  moreover have "quota_exec E (QCreate t1 ?c1) w = (w\<lparr>qw_db := d1\<rparr>, None)" "quota_exec E (QDelete ?c3) (w\<lparr>qw_db := d2\<rparr>) = (w', None)"
    using d1(1) w'(1) by (simp_all add: outcome_def)
  ultimately show ?thesis using w'(2) by (simp del: quota_exec.simps)
qed

section \<open>An example\<close>

text \<open>Tables and server in memory; the server holds namespaces and quotas.\<close>

type_synonym mem_cluster = "unit mem_kube \<times> nat quota_body mem_kube"

definition mem_env ::
  "(user_quota json mem_db, user_quota json mem_db \<times> user_quota json mem_db, auth_user json mem_db,
    auth_user json mem_db \<times> auth_user json mem_db, mem_cluster, nat) quota_env" where
  "mem_env =
     \<lparr>qe_table = mem_table, qe_az = mem_table, qe_ns = lift_api fst (\<lambda>a k. (a, snd k)) mem_kube,
      qe_rq = lift_api snd (\<lambda>b k. (fst k, b)) mem_kube, qe_Q = nat_quantity\<rparr>"

lemma mem_env_sel [simp]:
  "qe_table mem_env = mem_table" "qe_az mem_env = mem_table" "qe_ns mem_env = lift_api fst (\<lambda>a k. (a, snd k)) mem_kube"
  "qe_rq mem_env = lift_api snd (\<lambda>b k. (fst k, b)) mem_kube" "qe_Q mem_env = nat_quantity"
  by (simp_all add: mem_env_def)

lemma mem_env_table:
  "kv_laws (qe_table mem_env) map_of (\<lambda>(d, t). map_of t)" "kv_live (qe_table mem_env) map_of (\<lambda>(d, t). map_of t)"
  by (simp_all add: mem.kv_laws_axioms mem.kv_live_axioms)

interpretation mem_quota: quota_cluster mem_env "\<lambda>k. mem_view (fst k)" "\<lambda>b. b" "\<lambda>k. mem_view (snd k)"
  unfolding quota_cluster_def quota_cluster_axioms_def mem_env_sel
  by (intro conjI lift_api_live mem_kube_kept) (auto simp: lift_api_def mem_kube_def mem_view_None split: prod.splits option.splits if_splits)

interpretation mem_quota_table: quota_live mem_env map_of "\<lambda>(d, t). map_of t"
  by (simp add: quota_live_def quota_laws_def mem.kv_laws_axioms mem.kv_live_axioms)

definition sample_quota :: "string \<Rightarrow> string \<Rightarrow> user_quota" where
  "sample_quota ns c =
     \<lparr>uq_ID = '''', uq_CreationTimestamp = 0, uq_Name = '''', uq_ClusterName = c, uq_Namespace = ns, uq_UserName = '''',
      uq_CPU = ''1'', uq_Memory = ''2'', uq_Storage = ''3'', uq_RequestType = '''', uq_Status = '''', uq_Purpose = '''',
      uq_Requestor = '''', uq_Telephone = '''', uq_RejectionReason = '''', uq_ResponseTimestamp = 0\<rparr>"

definition sample_world :: "user_quota json mem_db \<Rightarrow> (user_quota json mem_db, auth_user json mem_db, mem_cluster) quota_world" where
  "sample_world db =
     \<lparr>qw_db = db,
      qw_authorizer = \<lparr>az_users = [''bob'' \<mapsto> \<lparr>au_Projects = [], au_CreationTimestamp = 0, au_DeletionTimestamp = 0\<rparr>],
        az_db = [(''bob'', Json \<lparr>au_Projects = [], au_CreationTimestamp = 0, au_DeletionTimestamp = 0\<rparr>)]\<rparr>,
      qw_kubes = [''local'' \<mapsto> ([(('''', ''kube-system''), new_obj '''' ''kube-system'' ())], [])]\<rparr>"

lemma sample_parse: "parseQuantity nat_quantity ''1'' = Inr 1" "parseQuantity nat_quantity ''2'' = Inr 2" "parseQuantity nat_quantity ''3'' = Inr 3"
  by (simp_all add: nat_quantity_def atoi_digits_def is_digit_def decimal_val_def digit_val_def)

lemma sample_valid: "list_all namespaceRegex ns \<Longrightarrow> checkUserQuotaParamsValid nat_quantity (sample_quota ns c) = None"
  by (simp add: params_valid_iff sample_quota_def sample_parse)

theorem quota_requests_follow_workflow_witness:
  "\<exists>m'. stores map_of m' (fst (quota_run mem_env
       [QCreate 7 \<lparr>qc_current = Some ''bob'', qc_resource = sample_quota ''dev'' '''', qc_action = ('''', OtherQuotaInput)\<rparr>] (sample_world [])))
     \<and> quotas_ok nat_quantity m' \<and> quota_path [''bob''] Map.empty m'"
proof -
  let ?x = "QCreate 7 \<lparr>qc_current = Some ''bob'', qc_resource = sample_quota ''dev'' '''', qc_action = ('''', OtherQuotaInput)\<rparr>"
  have st: "stores map_of Map.empty (sample_world [])" by (rule ext | simp add: agrees_def sample_world_def)+
  obtain w' rs where r: "quota_run mem_env [?x] (sample_world []) = (w', rs)" by fastforce
  have "list_all namespaceRegex ''dev''" by (simp add: namespaceRegex_def)
  then have "snd (quota_exec mem_env ?x (sample_world [])) = None"
    using mem_quota_table.live_Create [OF st, of "\<lparr>qc_current = Some ''bob'', qc_resource = sample_quota ''dev'' '''', qc_action = ('''', OtherQuotaInput)\<rparr>" 7]
      sample_valid [of "''dev''" "''''"] by (auto simp: getCurrentUser_def outcome_def)
  then have "successful rs = [''bob'']" using r by (auto simp: successful_def getCurrentUser_def split: prod.splits simp del: quota_exec.simps)
  with quota_requests_follow_workflow [OF mem_env_table(1) st _ r]
  show ?thesis unfolding r by (auto simp: quotas_ok_def)
qed

text \<open>The administrator approves the request of bob.\<close>

definition sample_approval :: quota_ctx where
  "sample_approval =
     \<lparr>qc_current = Some Administrator, qc_resource = (sample_quota '''' '''')\<lparr>uq_ID := ''dev''\<rparr>,
      qc_action = (ActionApproval, ClusterInfo ''local'')\<rparr>"

theorem quota_approval_and_deletion_witness:
  "\<exists>w' k'. uq_approval mem_env 9 sample_approval
       (sample_world [(''dev'', Json (setUserQuota (sample_quota ''dev'' '''') ''bob'' TypeUserQuotaCreate 7))]) = (w', Inr ())
     \<and> qw_kubes w' ''local'' = Some k' \<and> hasNamespace (qe_ns mem_env) ''dev'' k'
     \<and> grants (qw_authorizer w') ''bob'' = Some [\<lparr>prj_Cluster = ''local'', prj_Namespace = ''dev''\<rparr>]"
proof -
  let ?q = "setUserQuota (sample_quota ''dev'' '''') ''bob'' TypeUserQuotaCreate 7"
  let ?w = "sample_world [(''dev'', Json ?q)]"
  have st: "stores map_of [''dev'' \<mapsto> ?q] ?w" by (simp add: agrees_def sample_world_def fun_eq_iff)
  have "scQuotaResourceListToK8sResourceList nat_quantity [(''requests.storage'', ''3'')] = Inr [(''requests.storage'', 3)]"
    using quota_names by (simp add: scQuotaResourceListToK8sResourceList_def sample_parse name_table_def)
  then have "snd (prepare_namespace mem_env ?q (the (qw_kubes ?w ''local''))) = Inr None"
    by (simp add: prepare_namespace_def Let_def hasNamespace_def getNamespace_def createNamespace_def createResourceQuota_def
        crud_create_def scResourceQuotaToK8s_def lift_api_def mem_kube_def mem_view_def new_obj_def sample_world_def sample_quota_def setUserQuota_def)
  then obtain w' where a: "uq_approval mem_env 9 sample_approval ?w = (w', Inr ())"
    by (cases "prepare_namespace mem_env ?q (the (qw_kubes ?w ''local''))")
      (simp add: uq_approval_def sample_approval_def sample_world_def with_quota_def getUserQuotaFromDB_def
        storageResourceValueToSCUserQuota_def store_approval_def Let_def)
  have f: "uq_ID (qc_resource sample_approval) = ''dev''" "snd (qc_action sample_approval) = ClusterInfo ''local''" "uq_Namespace ?q = ''dev''"
    "uq_UserName ?q = ''bob''" "\<not> hasNamespace (qe_ns mem_env) ''dev'' (the (qw_kubes ?w ''local''))" "grants (qw_authorizer ?w) ''bob'' = Some []"
    by (simp_all add: sample_approval_def sample_quota_def mem_quota.hasNamespace_iff [unfolded mem_env_sel] sample_world_def grants_def mem_view_def)
  from conjunct1 [OF quota_approval_and_deletion [OF mem_env_table(1) mem_quota.quota_cluster_axioms st], THEN mp, OF a]
  obtain k' where "qw_kubes w' = (qw_kubes ?w)(''local'' \<mapsto> k')" "hasNamespace (qe_ns mem_env) ''dev'' k'"
    "grants (qw_authorizer w') = add_grant ''bob'' ''local'' ''dev'' (grants (qw_authorizer ?w))"
    using f by (auto simp del: mem_env_sel)
  then show ?thesis using a f(6) by (intro exI [of _ w'] exI [of _ k']) (simp add: add_grant_def del: mem_env_sel)
qed

theorem quota_delete_escalation_witness:
  "\<exists>w' rs. quota_run mem_env
       [QCreate 7 \<lparr>qc_current = Some ''bob'', qc_resource = sample_quota ''kube-system'' ''local'', qc_action = ('''', OtherQuotaInput)\<rparr>,
        QAction 8 \<lparr>qc_current = Some Administrator, qc_resource = (sample_quota '''' '''')\<lparr>uq_ID := ''kube-system''\<rparr>,
          qc_action = (ActionRejection, Rejection ''no'')\<rparr>,
        QDelete \<lparr>qc_current = Some ''bob'', qc_resource = (sample_quota '''' '''')\<lparr>uq_ID := ''kube-system''\<rparr>,
          qc_action = ('''', OtherQuotaInput)\<rparr>] (sample_world []) = (w', rs)
     \<and> map snd rs = [None, None, None] \<and> qw_kubes w' ''local'' = Some ([], [])
     \<and> \<not> Authorize (qw_authorizer (sample_world [])) ''bob'' ''local'' ''kube-system''"
proof -
  have st: "stores map_of Map.empty (sample_world [])" by (simp add: agrees_def sample_world_def fun_eq_iff)
  have "list_all namespaceRegex ''kube-system''" by (simp add: namespaceRegex_def)
  then have v: "checkUserQuotaParamsValid (qe_Q mem_env) (sample_quota ''kube-system'' ''local'') = None"
    by (simp add: sample_valid)
  have k: "qw_kubes (sample_world []) (uq_ClusterName (sample_quota ''kube-system'' ''local''))
      = Some ([(('''', ''kube-system''), new_obj '''' ''kube-system'' ())], [])"
    by (simp add: sample_world_def sample_quota_def)
  have d: "deleteNamespace (qe_ns mem_env) (uq_Namespace (sample_quota ''kube-system'' ''local''))
      ([(('''', ''kube-system''), new_obj '''' ''kube-system'' ())], []) = (([], []), None)"
    by (simp add: deleteNamespace_def lift_api_def mem_kube_def sample_quota_def)
  have "\<not> Authorize (qw_authorizer (sample_world [])) ''bob'' ''local'' ''kube-system''"
    by (simp add: Authorize_def sample_world_def)
  with quota_delete_escalation [OF mem_env_table(2) st _ _ v _ _ _ k d, of "''bob''" "''no''" "(sample_quota '''' '''')\<lparr>uq_ID := ''kube-system''\<rparr>" 7
      "('''', OtherQuotaInput)" 8]
  show ?thesis by (auto simp: sample_quota_def)
qed

end
