(* ===== verification/Access.thy ===== *)
theory Access
  imports ZkeManager Nodes UserQuotaProps
begin

text \<open>
  What a user sees and may change of clusters and namespaces (\<^verbatim>\<open>pkg/handler/cluster_manager.go\<close>,
  \<^verbatim>\<open>namespace_manager.go\<close>, \<^verbatim>\<open>pkg/types/namespace.go\<close>). The handlers of clusters stand in front of the
  cluster manager of \<^verbatim>\<open>pkg/zke\<close>; the state of the server of a cluster is an argument \<open>k\<close>.
\<close>

section \<open>Clusters\<close>

definition add_usage :: "cluster_usage \<Rightarrow> node \<Rightarrow> cluster_usage" where
  "add_usage u n =
     (if HasRole n RoleControlPlane then u
      else u\<lparr>use_Cpu := add64 (use_Cpu u) (node_Cpu n), use_CpuUsed := add64 (use_CpuUsed u) (node_CpuUsed n),
             use_Memory := add64 (use_Memory u) (node_Memory n), use_MemoryUsed := add64 (use_MemoryUsed u) (node_MemoryUsed n),
             use_Pod := add64 (use_Pod u) (node_Pod n), use_PodUsed := add64 (use_PodUsed u) (node_PodUsed n)\<rparr>)"

definition usage_ratios :: "cluster_usage \<Rightarrow> cluster_usage" where
  "usage_ratios u =
     (let u1 = (if use_Cpu u > 0 then u\<lparr>use_CpuUsedRatio := ratio (use_CpuUsed u) (use_Cpu u)\<rparr> else u);
          u2 = (if use_Memory u1 > 0 then u1\<lparr>use_MemoryUsedRatio := ratio (use_MemoryUsed u1) (use_Memory u1)\<rparr> else u1)
      in if use_Pod u2 > 0 then u2\<lparr>use_PodUsedRatio := ratio (use_PodUsed u2) (use_Pod u2)\<rparr> else u2)"

definition getClusterInfo :: "'s node_api \<Rightarrow> 'k zcluster \<Rightarrow> sc_cluster \<Rightarrow> 's \<Rightarrow> sc_cluster" where
  "getClusterInfo N c sc k =
     (if \<not> IsReady c then sc
      else (case na_version N k of
              Inl _ \<Rightarrow> sc
            | Inr version \<Rightarrow>
                (let sc1 = sc\<lparr>sc_Version := version\<rparr>
                 in case getNodes N k of
                      Inl _ \<Rightarrow> sc1
                    | Inr nodes \<Rightarrow>
                        sc1\<lparr>sc_NodesCount := int (length nodes),
                            sc_Usage := usage_ratios (foldl add_usage (sc_Usage sc1) nodes)\<rparr>)))"

definition cl_Create ::
  "('d, 'tx, 'fs) zke_ctx \<Rightarrow> 'fs \<Rightarrow> time \<Rightarrow> string option \<Rightarrow> sc_cluster \<Rightarrow> ('d, 'k, 'fs) zke_world \<Rightarrow>
   ('d, 'k, 'fs) zke_world \<times> (api_error + sc_cluster)" where
  "cl_Create X fs now current resource w =
     (if \<not> isAdmin (getCurrentUser current) then (w, Inl (APIError PermissionDenied ''only admin can create cluster''))
      else zke_Create X fs now resource w)"

definition cl_Update ::
  "('d, 'tx, 'fs) zke_ctx \<Rightarrow> (string \<Rightarrow> goerr + bool) \<Rightarrow> string option \<Rightarrow> sc_cluster \<Rightarrow> ('d, 'k, 'fs) zke_world \<Rightarrow>
   ('d, 'k, 'fs) zke_world \<times> (api_error + sc_cluster)" where
  "cl_Update X isStorageNode current resource w =
     (if \<not> isAdmin (getCurrentUser current) then (w, Inl (APIError PermissionDenied ''only admin can update cluster''))
      else zke_Update X isStorageNode resource w)"

definition cl_Delete ::
  "('d, 'tx, 'fs) zke_ctx \<Rightarrow> time \<Rightarrow> string option \<Rightarrow> string \<Rightarrow> ('d, 'k, 'fs) zke_world \<Rightarrow>
   ('d, 'k, 'fs) zke_world \<times> api_error option outcome" where
  "cl_Delete X now current cid w =
     (if \<not> isAdmin (getCurrentUser current) then (w, Done (Some (APIError PermissionDenied ''only admin can delete cluster'')))
      else zke_Delete X now cid w)"

abbreviation CSCancelAction :: string where "CSCancelAction \<equiv> ''cancel''"

definition cl_Action ::
  "string option \<Rightarrow> string \<Rightarrow> string \<Rightarrow> ('d, 'k, 'fs) zke_world \<Rightarrow> ('d, 'k, 'fs) zke_world \<times> api_error option outcome" where
  "cl_Action current action cid w =
     (if \<not> isAdmin (getCurrentUser current)
      then (w, Done (Some (APIError PermissionDenied ''only admin can call cluster action apis'')))
      else if action = CSCancelAction then zke_CancelCluster cid w
      else (w, Done None))"

definition cl_Get ::
  "'s node_api \<Rightarrow> 'e authorizer \<Rightarrow> string option \<Rightarrow> string \<Rightarrow> ('d, 'k, 'fs) zke_world \<Rightarrow> 's \<Rightarrow> api_error + sc_cluster" where
  "cl_Get N a current cid w k =
     (if \<not> Authorize a (getCurrentUser current) cid ''''
      then Inl (APIError Unauthorized ''user has no permission to access the cluster'')
      else (case zke_get cid w of
              None \<Rightarrow> Inl no_cluster
            | Some c \<Rightarrow>
                (let sc = ToScCluster c (obj w c)
                 in Inr (if IsReady (obj w c) then getClusterInfo N (obj w c) sc k else sc))))"

definition cl_List :: "'e authorizer \<Rightarrow> string option \<Rightarrow> string \<Rightarrow> ('d, 'k, 'fs) zke_world \<Rightarrow> sc_cluster list" where
  "cl_List a current onlyReady w =
     (let shown = filter (\<lambda>c. Authorize a (getCurrentUser current) (c_Name (obj w c)) '''') (zke_List w)
      in map (\<lambda>c. ToScCluster c (obj w c))
           (if onlyReady = ''true'' then filter (\<lambda>c. IsReady (obj w c)) shown else shown))"

text \<open>
  The listener the cluster manager asks before a node is removed: \<open>hosts\<close> are the hosts of the
  storage clusters, as the server reports them. The boolean beside an error is not used.
\<close>

definition IsStorageNode :: "'k zcluster \<Rightarrow> ('k \<Rightarrow> k8s_err + string list list) \<Rightarrow> string \<Rightarrow> goerr + bool" where
  "IsStorageNode c getStorageClusters node =
     (case c_kubeClient c of
        None \<Rightarrow> Inl (''cluster '' @ c_Name c @ '' kubeClient is nil'')
      | Some k \<Rightarrow>
          (case getStorageClusters k of
             Inl e \<Rightarrow> Inl (k8s_text e)
           | Inr hosts \<Rightarrow> Inr (list_ex (\<lambda>hs. node \<in> set hs) hosts)))"

section \<open>Namespaces\<close>

record namespace =
  ns_ID :: string
  ns_CreationTimestamp :: time
  ns_DeletionTimestamp :: "time option"
  ns_Name :: string
  ns_Cpu :: int
  ns_CpuUsed :: int
  ns_CpuUsedRatio :: string
  ns_Memory :: int
  ns_MemoryUsed :: int
  ns_MemoryUsedRatio :: string
  ns_Pod :: int
  ns_PodUsed :: int
  ns_PodUsedRatio :: string
  ns_PodsUseMostCPU :: "(string \<times> int) list"
  ns_PodsUseMostMemory :: "(string \<times> int) list"

definition k8sNamespaceToSCNamespace :: "unit k8s_obj \<Rightarrow> namespace" where
  "k8sNamespaceToSCNamespace o' =
     \<lparr>ns_ID = ko_name o', ns_CreationTimestamp = ko_creation o', ns_DeletionTimestamp = ko_deletion o', ns_Name = ko_name o',
      ns_Cpu = 0, ns_CpuUsed = 0, ns_CpuUsedRatio = '''', ns_Memory = 0, ns_MemoryUsed = 0, ns_MemoryUsedRatio = '''',
      ns_Pod = 0, ns_PodUsed = 0, ns_PodUsedRatio = '''', ns_PodsUseMostCPU = [], ns_PodsUseMostMemory = []\<rparr>"

definition add_capacity :: "namespace \<Rightarrow> node \<Rightarrow> namespace" where
  "add_capacity ns n =
     (if HasRole n RoleControlPlane then ns
      else ns\<lparr>ns_Cpu := add64 (ns_Cpu ns) (node_Cpu n), ns_Memory := add64 (ns_Memory ns) (node_Memory n),
              ns_Pod := add64 (ns_Pod ns) (node_Pod n)\<rparr>)"

text \<open>The pods that use most; pods of equal use may come in any order, here in that of the server.\<close>

definition most :: "(string \<times> int) list \<Rightarrow> (string \<times> int) list" where
  "most pods = take 5 (sort_key (\<lambda>p. - snd p) pods)"

definition pod_usage :: "(string \<times> (int \<times> int) list) list \<Rightarrow> namespace \<Rightarrow> namespace" where
  "pod_usage metrics ns =
     (let cpu = map (\<lambda>(name, cs). (name, foldl add64 0 (map fst cs))) metrics;
          memory = map (\<lambda>(name, cs). (name, foldl add64 0 (map snd cs))) metrics;
          ns1 = ns\<lparr>ns_CpuUsed := foldl add64 (ns_CpuUsed ns) (map snd cpu),
                   ns_MemoryUsed := foldl add64 (ns_MemoryUsed ns) (map snd memory),
                   ns_PodsUseMostCPU := most cpu, ns_PodsUseMostMemory := most memory, ns_PodUsed := int (length metrics)\<rparr>;
          ns2 = (if ns_Cpu ns1 > 0 then ns1\<lparr>ns_CpuUsedRatio := ratio (ns_CpuUsed ns1) (ns_Cpu ns1)\<rparr> else ns1);
          ns3 = (if ns_Memory ns2 > 0 then ns2\<lparr>ns_MemoryUsedRatio := ratio (ns_MemoryUsed ns2) (ns_Memory ns2)\<rparr> else ns2)
      in if ns_Pod ns3 > 0 then ns3\<lparr>ns_PodUsedRatio := ratio (ns_PodUsed ns3) (ns_Pod ns3)\<rparr> else ns3)"

definition getNamespaceInfo :: "('s, unit) kube_api \<Rightarrow> 's node_api \<Rightarrow> string \<Rightarrow> 's \<Rightarrow> k8s_err + namespace" where
  "getNamespaceInfo K N name k =
     (case getNamespace K name k of
        Inl e \<Rightarrow> Inl e
      | Inr o' \<Rightarrow>
          Inr (let ns = k8sNamespaceToSCNamespace o'
               in case getNodes N k of
                    Inl _ \<Rightarrow> ns
                  | Inr nodes \<Rightarrow>
                      (let ns1 = foldl add_capacity ns nodes
                       in case na_podMetrics N name k of Inl _ \<Rightarrow> ns1 | Inr metrics \<Rightarrow> pod_usage metrics ns1)))"

definition isExistsInUserQuotaTable :: "('d, 'tx) quota_table \<Rightarrow> string \<Rightarrow> 'd \<Rightarrow> goerr + bool" where
  "isExistsInUserQuotaTable T namespace d =
     (case kvBegin T d of
        Inl e \<Rightarrow> Inl e
      | Inr tx \<Rightarrow> Inr (case kvGet T tx namespace of Inl _ \<Rightarrow> False | Inr value \<Rightarrow> value \<noteq> None))"

definition nsm_Create ::
  "('s, unit) kube_api \<Rightarrow> string option \<Rightarrow> namespace sub_ctx \<Rightarrow> 's kubes \<Rightarrow> 's kubes \<times> (api_error + namespace)" where
  "nsm_Create K current ctx ks =
     (if \<not> isAdmin (getCurrentUser current) then (ks, Inl (APIError PermissionDenied ''only admin can create namespace''))
      else on_cluster ctx (\<lambda>k.
        let ns = sx_resource ctx
        in answer (\<lambda>e. if IsAlreadyExists e then APIError DuplicateResource (''duplicate namespace name '' @ ns_Name ns)
                       else APIError ConnectClusterFailed (''create namespace failed '' @ k8s_text e))
             (ns\<lparr>ns_ID := ns_Name ns\<rparr>) (createNamespace K (ns_Name ns) k)) ks)"

definition nsm_List ::
  "('s, unit) kube_api \<Rightarrow> bool \<Rightarrow> 'e authorizer \<Rightarrow> string option \<Rightarrow> namespace sub_ctx \<Rightarrow> 's kubes \<Rightarrow> api_error + namespace list" where
  "nsm_List K enableDebug a current ctx = read_cluster ctx (\<lambda>k.
     case kList K '''' k of
       Inl e \<Rightarrow> Inl (if IsNotFound e then APIError NotFound ''no found namespaces''
                    else APIError ServerError (''list namespaces failed '' @ k8s_text e))
     | Inr objs \<Rightarrow>
         Inr (map k8sNamespaceToSCNamespace (filter (\<lambda>o'. Authorize a (getCurrentUser current) (sx_cluster ctx) (ko_name o'))
           (filter (\<lambda>o'. IsNamespaceVisiable (ko_name o') enableDebug) objs))))"

text \<open>
  A hidden namespace is answered by neither a resource nor an error. When the namespace cannot be
  read, the message is built from the nil result, which panics.
\<close>

definition nsm_Get ::
  "('s, unit) kube_api \<Rightarrow> 's node_api \<Rightarrow> bool \<Rightarrow> 'e authorizer \<Rightarrow> string option \<Rightarrow> namespace sub_ctx \<Rightarrow> 's kubes \<Rightarrow>
   (api_error + namespace option) outcome" where
  "nsm_Get K N enableDebug a current ctx ks =
     (let name = ns_ID (sx_resource ctx)
      in if \<not> IsNamespaceVisiable name enableDebug then Done (Inr None)
         else (case ks (sx_cluster ctx) of
                 None \<Rightarrow> Done (Inl no_cluster)
               | Some k \<Rightarrow>
                   if \<not> Authorize a (getCurrentUser current) (sx_cluster ctx) name
                   then Done (Inl (APIError Unauthorized ''user has no permission to access the namespace''))
                   else (case getNamespaceInfo K N name k of
                           Inl e \<Rightarrow> Panicked ''nil pointer dereference''
                         | Inr ns \<Rightarrow> Done (Inr (Some ns)))))"

definition nsm_Delete ::
  "('s, unit) kube_api \<Rightarrow> ('d, 'tx) quota_table \<Rightarrow> bool \<Rightarrow> string option \<Rightarrow> namespace sub_ctx \<Rightarrow> 'd \<Rightarrow> 's kubes \<Rightarrow>
   's kubes \<times> (api_error + namespace)" where
  "nsm_Delete K T enableDebug current ctx d ks =
     (let ns = sx_resource ctx
      in if \<not> IsNamespaceVisiable (ns_ID ns) enableDebug
         then (ks, Inl (APIError PermissionDenied ''system namespace can only be deleted at debug mod''))
         else if \<not> isAdmin (getCurrentUser current)
         then (ks, Inl (APIError PermissionDenied ''only admin can delete namespace''))
         else on_cluster ctx (\<lambda>k.
           case isExistsInUserQuotaTable T (ns_ID ns) d of
             Inl e \<Rightarrow> (k, Inl (APIError NotFound (''check exist for namespace '' @ ns_ID ns @ '' failed '' @ e)))
           | Inr True \<Rightarrow> (k, Inl (APIError PermissionDenied (''can`t delete namespace '' @ ns_ID ns @ '' for other user using'')))
           | Inr False \<Rightarrow>
               answer (\<lambda>e. if IsNotFound e then APIError NotFound (''namespace '' @ ns_Name ns @ '' desn't exist'')
                           else APIError ServerError (''delete namespace failed '' @ k8s_text e))
                 ns (deleteNamespace K (ns_ID ns) k)) ks)"

section \<open>Searching a pod\<close>

type_synonym owners = "(string \<times> string) list"

definition searchPod ::
  "('s, owners) kube_api \<Rightarrow> ('s, owners) kube_api \<Rightarrow> 'e authorizer \<Rightarrow> string option \<Rightarrow> string option \<Rightarrow>
   namespace sub_ctx \<Rightarrow> 's kubes \<Rightarrow> api_error + string \<times> string" where
  "searchPod pods replicaSets a current podToSearch ctx = read_cluster ctx (\<lambda>k.
     let namespace = ns_ID (sx_resource ctx)
     in if \<not> Authorize a (getCurrentUser current) (sx_cluster ctx) namespace
        then Inl (APIError Unauthorized ''user has no permission to access the namespace'')
        else case podToSearch of
          None \<Rightarrow> Inl (APIError InvalidFormat ''search pod param not valid'')
        | Some name \<Rightarrow>
            if name = '''' then Inl (APIError NotNullable ''empty pod name'')
            else (case kGet pods namespace name k of
                    Inl e \<Rightarrow> Inl (APIError NotFound (''search pod get err:'' @ k8s_text e))
                  | Inr pod \<Rightarrow>
                      (case ko_body pod of
                         [(kind, owner)] \<Rightarrow>
                           if kind \<noteq> ''ReplicaSet'' then Inr (kind, owner)
                           else (case kGet replicaSets namespace owner k of
                                   Inl e \<Rightarrow> Inl (APIError ServerError (''get replicaset failed:'' @ k8s_text e))
                                 | Inr rs \<Rightarrow>
                                     (case ko_body rs of
                                        [rsOwner] \<Rightarrow> Inr rsOwner
                                      | os \<Rightarrow> Inl (APIError ServerError (''replicaset has '' @ itoa (int (length os)) @ '' owners''))))
                       | _ \<Rightarrow> Inr (''pod'', ko_name pod))))"

abbreviation ActionSearchPod :: string where "ActionSearchPod \<equiv> ''searchPod''"

definition nsm_Action ::
  "('s, owners) kube_api \<Rightarrow> ('s, owners) kube_api \<Rightarrow> 'e authorizer \<Rightarrow> string option \<Rightarrow> string \<Rightarrow> string option \<Rightarrow>
   namespace sub_ctx \<Rightarrow> 's kubes \<Rightarrow> api_error + (string \<times> string) option" where
  "nsm_Action pods replicaSets a current action podToSearch ctx ks =
     (if action = ActionSearchPod then map_sum (\<lambda>e. e) Some (searchPod pods replicaSets a current podToSearch ctx ks) else Inr None)"

section \<open>Properties\<close>

lemma Authorize_cluster: "Authorize a u c n \<Longrightarrow> Authorize a u c ''''"
  by (auto simp: Authorize_def covers_def list_ex_iff split: if_splits option.splits)

lemma ToScCluster_Name [simp]: "sc_Name (ToScCluster c z) = c_Name z"
  by (simp add: ToScCluster_def sc_of_config_def)

lemma getClusterInfo_Name [simp]: "sc_Name (getClusterInfo N z sc k) = sc_Name sc"
  by (simp add: getClusterInfo_def Let_def split: sum.split)

lemma cl_List_names:
  "sc_Name ` set (cl_List a current '''' w) = {n. (\<exists>c \<in> set (w_clusters w). c_Name (obj w c) = n) \<and> Authorize a (getCurrentUser current) n ''''}"
  "n \<in> sc_Name ` set (cl_List a current onlyReady w) \<Longrightarrow> Authorize a (getCurrentUser current) n ''''"
  by (auto simp: cl_List_def zke_List_def Let_def image_iff split: if_splits)

lemma nsm_List_shows:
  assumes "kube_laws K view kept" "ks (sx_cluster ctx) = Some k" "nsm_List K dbg a current ctx ks = Inr nss"
  shows "ns_Name ` set nss = {n. view k ('''', n) \<noteq> None \<and> IsNamespaceVisiable n dbg \<and> Authorize a (getCurrentUser current) (sx_cluster ctx) n}"
proof -
  obtain objs where o: "kList K '''' k = Inr objs"
    "nss = map k8sNamespaceToSCNamespace (filter (\<lambda>o'. Authorize a (getCurrentUser current) (sx_cluster ctx) (ko_name o'))
             (filter (\<lambda>o'. IsNamespaceVisiable (ko_name o') dbg) objs))"
    using assms(2,3) by (auto simp: nsm_List_def read_cluster_def split: sum.splits)
  have v: "set objs = {obj. \<exists>n. view k ('''', n) = Some obj}" using kube_laws.list_view [OF assms(1) o(1)] .
  have "ns_Name ` set nss = ko_name ` {ob \<in> set objs. IsNamespaceVisiable (ko_name ob) dbg \<and> Authorize a (getCurrentUser current) (sx_cluster ctx) (ko_name ob)}"
    by (auto simp: o(2) k8sNamespaceToSCNamespace_def image_iff)
  also have "\<dots> = {n. view k ('''', n) \<noteq> None \<and> IsNamespaceVisiable n dbg \<and> Authorize a (getCurrentUser current) (sx_cluster ctx) n}"
    using kube_laws.view_key [OF assms(1)] by (auto simp: v image_iff) (metis prod.inject)
  finally show ?thesis .
qed

text \<open>A request on a resource of a namespace, by a registered user.\<close>

definition request_in :: "string option \<Rightarrow> string \<Rightarrow> string \<Rightarrow> api_ctx" where
  "request_in current c n =
     \<lparr>ac_current = current, ac_kind = KOther, ac_action = None, ac_ancestors = [(KCluster, c), (KNamespace, n)]\<rparr>"

lemma handler_known_user:
  assumes "az_HasUser a (getCurrentUser current)" "getCurrentUser current \<noteq> ''''"
  shows "snd (authorizationHandler T dbg now (request_in current c n) a) = None
    \<longleftrightarrow> IsNamespaceVisiable n dbg \<and> Authorize a (getCurrentUser current) c n"
  using assms by (auto simp: authorizationHandler_def request_in_def az_GetUser_def az_HasUser_def Let_def split: if_splits)

text \<open>
  C14. What a user sees is what it may use: the list of namespaces of a cluster shows exactly the
  existing ones on whose resources the authorization handler accepts the user's requests; the
  cluster of a namespace it may use is in its list of clusters and can be read; a cluster it
  may not use is in neither.
\<close>

theorem access_is_consistent:
  assumes "kube_laws K view kept" "ks (sx_cluster ctx) = Some k" "nsm_List K dbg a current ctx ks = Inr nss"
    and "getCurrentUser current = u" "az_HasUser a u" "u \<noteq> ''''"
  shows "ns_Name ` set nss = {n. view k ('''', n) \<noteq> None
       \<and> snd (authorizationHandler T dbg now (request_in current (sx_cluster ctx) n) a) = None}
    \<and> (nss \<noteq> [] \<longrightarrow> zke_get (sx_cluster ctx) w \<noteq> None \<longrightarrow>
         sx_cluster ctx \<in> sc_Name ` set (cl_List a current '''' w)
         \<and> (\<exists>sc. cl_Get N a current (sx_cluster ctx) w k' = Inr sc \<and> sc_Name sc = sx_cluster ctx))
    \<and> (\<forall>c. \<not> Authorize a u c '''' \<longrightarrow> c \<notin> sc_Name ` set (cl_List a current onlyReady w)
         \<and> cl_Get N a current c w k' = Inl (APIError Unauthorized ''user has no permission to access the cluster''))"
proof (intro conjI)
  note shown = nsm_List_shows [OF assms(1-3)]
  show "ns_Name ` set nss = {n. view k ('''', n) \<noteq> None
       \<and> snd (authorizationHandler T dbg now (request_in current (sx_cluster ctx) n) a) = None}"
    unfolding shown using assms(4-6) by (simp add: handler_known_user)
  show "nss \<noteq> [] \<longrightarrow> zke_get (sx_cluster ctx) w \<noteq> None \<longrightarrow> sx_cluster ctx \<in> sc_Name ` set (cl_List a current '''' w)
         \<and> (\<exists>sc. cl_Get N a current (sx_cluster ctx) w k' = Inr sc \<and> sc_Name sc = sx_cluster ctx)"
  proof (intro impI)
    assume ne: "nss \<noteq> []" and g: "zke_get (sx_cluster ctx) w \<noteq> None"
    from ne obtain n where "n \<in> ns_Name ` set nss" by (cases nss) auto
    then have au: "Authorize a u (sx_cluster ctx) ''''" using shown Authorize_cluster assms(4) by auto
    obtain x where x: "zke_get (sx_cluster ctx) w = Some x" using g by blast
    then have m: "x \<in> set (w_clusters w)" "c_Name (obj w x) = sx_cluster ctx" by (auto simp: zke_get_def find_Some_iff)
    have "sc_Name (getClusterInfo N (obj w x) (ToScCluster x (obj w x)) k') = sx_cluster ctx"
      using m(2) by simp
    then show "sx_cluster ctx \<in> sc_Name ` set (cl_List a current '''' w)
        \<and> (\<exists>sc. cl_Get N a current (sx_cluster ctx) w k' = Inr sc \<and> sc_Name sc = sx_cluster ctx)"
      using au m x assms(4) unfolding cl_List_names by (auto simp: cl_Get_def Let_def)
  qed
  show "\<forall>c. \<not> Authorize a u c '''' \<longrightarrow> c \<notin> sc_Name ` set (cl_List a current onlyReady w)
         \<and> cl_Get N a current c w k' = Inl (APIError Unauthorized ''user has no permission to access the cluster'')"
    using assms(4) cl_List_names(2) [of _ a current onlyReady w] by (auto simp: cl_Get_def dest: imageI [of _ _ sc_Name])
qed

text \<open>A cluster with two namespaces, one of them granted to bob.\<close>

definition access_ctx :: "string \<Rightarrow> namespace sub_ctx" where
  "access_ctx n = \<lparr>sx_cluster = ''local'', sx_namespace = '''', sx_resource = (k8sNamespaceToSCNamespace (new_obj '''' n ()))\<rparr>"

definition access_kubes :: "unit mem_kube kubes" where
  "access_kubes = [''local'' \<mapsto> [(('''', ''default''), new_obj '''' ''default'' ()), (('''', ''dev''), new_obj '''' ''dev'' ())]]"

definition bob_grants :: "auth_user json mem_db authorizer" where
  "bob_grants =
     \<lparr>az_users = [''bob'' \<mapsto> \<lparr>au_Projects = [\<lparr>prj_Cluster = ''local'', prj_Namespace = ''dev''\<rparr>], au_CreationTimestamp = 0, au_DeletionTimestamp = 0\<rparr>],
      az_db = []\<rparr>"

definition one_cluster :: "(nat, nat, nat) zke_world" where
  "one_cluster = \<lparr>w_heap = [newCluster ''local'' CSRunning], w_clusters = [0], w_db = 0, w_scVersion = '''', w_workers = [], w_outs = []\<rparr>"

definition no_nodes :: "unit mem_kube node_api" where
  "no_nodes =
     \<lparr>na_nodes = lift_api (\<lambda>k. []) (\<lambda>a k. k) mem_kube, na_pods = (\<lambda>k. Inr []), na_nodeMetrics = (\<lambda>n k. Inr []), na_podMetrics = (\<lambda>n k. Inr []),
      na_version = (\<lambda>k. Inr ''v1''), na_ready = (\<lambda>o'. True)\<rparr>"

theorem access_is_consistent_witness:
  "\<exists>nss. nsm_List mem_kube False bob_grants (Some ''bob'') (access_ctx '''') access_kubes = Inr nss
     \<and> ns_Name ` set nss = {''dev''} \<and> ''local'' \<in> sc_Name ` set (cl_List bob_grants (Some ''bob'') '''' one_cluster)"
proof -
  let ?nss = "[k8sNamespaceToSCNamespace (new_obj '''' ''dev'' ())]"
  have l: "nsm_List mem_kube False bob_grants (Some ''bob'') (access_ctx '''') access_kubes = Inr ?nss"
    by (simp add: nsm_List_def read_cluster_def access_ctx_def access_kubes_def mem_kube_def bob_grants_def getCurrentUser_def
        Authorize_def covers_def IsNamespaceVisiable_def HiddenNamespaces_def new_obj_def at_key_def)
  have k: "access_kubes (sx_cluster (access_ctx '''')) = Some [(('''', ''default''), new_obj '''' ''default'' ()), (('''', ''dev''), new_obj '''' ''dev'' ())]"
    by (simp add: access_kubes_def access_ctx_def)
  have u: "getCurrentUser (Some ''bob'') = ''bob''" "az_HasUser bob_grants ''bob''" by (simp_all add: getCurrentUser_def az_HasUser_def bob_grants_def)
  have g: "zke_get (sx_cluster (access_ctx '''')) one_cluster \<noteq> None"
    by (simp add: zke_get_def one_cluster_def access_ctx_def newCluster_def)
  from access_is_consistent [OF mem_kube.kube_laws_axioms k l u, of mem_table 0 one_cluster no_nodes "[]" "''''"] g
  have "sx_cluster (access_ctx '''') \<in> sc_Name ` set (cl_List bob_grants (Some ''bob'') '''' one_cluster)" by blast
  then show ?thesis using l by (auto simp: access_ctx_def k8sNamespaceToSCNamespace_def new_obj_def)
qed



text \<open>
  Reading a namespace that is visible and granted but does not exist panics instead of reporting
  that it was not found; so does an error of the server.
\<close>

theorem namespace_get_panics:
  assumes "IsNamespaceVisiable (ns_ID (sx_resource ctx)) dbg" "ks (sx_cluster ctx) = Some k"
    and "Authorize a (getCurrentUser current) (sx_cluster ctx) (ns_ID (sx_resource ctx))"
    and "kube_live K view kept" "view k ('''', ns_ID (sx_resource ctx)) = None"
  shows "\<exists>p. nsm_Get K N dbg a current ctx ks = Panicked p"
  using kube_live.get_missing [OF assms(4,5)] assms(1-3)
  by (auto simp: nsm_Get_def getNamespaceInfo_def getNamespace_def)

theorem namespace_get_panics_witness:
  "\<exists>p. nsm_Get mem_kube no_nodes False bob_grants (Some Administrator) (access_ctx ''gone'') access_kubes = Panicked p"
proof (rule namespace_get_panics [OF _ _ _ mem_kube.kube_live_axioms])
  show "access_kubes (sx_cluster (access_ctx ''gone'')) = Some [(('''', ''default''), new_obj '''' ''default'' ()), (('''', ''dev''), new_obj '''' ''dev'' ())]"
    by (simp add: access_kubes_def access_ctx_def)
  show "IsNamespaceVisiable (ns_ID (sx_resource (access_ctx ''gone''))) False"
    "Authorize bob_grants (getCurrentUser (Some Administrator)) (sx_cluster (access_ctx ''gone'')) (ns_ID (sx_resource (access_ctx ''gone'')))"
    "mem_view [(('''', ''default''), new_obj '''' ''default'' ()), (('''', ''dev''), new_obj '''' ''dev'' ())] ('''', ns_ID (sx_resource (access_ctx ''gone''))) = None"
    by (simp_all add: access_ctx_def IsNamespaceVisiable_def HiddenNamespaces_def Authorize_def getCurrentUser_def mem_view_def k8sNamespaceToSCNamespace_def new_obj_def)
qed

end
