(* ===== verification/GlobalDns.thy ===== *)
theory GlobalDns
  imports Nodes GoNet
begin

text \<open>
  The DNS of the ingresses (\<^verbatim>\<open>pkg/globaldns\<close>): for every cluster a syncer keeps a zone of a DNS
  server filled with an address record for each host of the cluster's ingresses and each address
  of its ready edge nodes. The DNS server (\<^verbatim>\<open>vanguard\<close>) is a function \<open>H\<close> that executes commands on
  an unknown state; the names of \<^verbatim>\<open>g53\<close> are an unknown type with their library. Errors of the
  server are only logged by the program. A syncer handles one event at a time.
\<close>

section \<open>Names and commands\<close>

record 'n name_lib =
  nameFromString :: "string \<Rightarrow> goerr + 'n"
  nameString :: "'n \<Rightarrow> string"
  nameEquals :: "'n \<Rightarrow> 'n \<Rightarrow> bool"
  isSubDomain :: "'n \<Rightarrow> 'n \<Rightarrow> bool"

record auth_rr =
  rr_View :: string
  rr_Zone :: string
  rr_Name :: string
  rr_Ttl :: string
  rr_Type :: string
  rr_Rdata :: string

datatype dns_cmd =
    Ping
  | AddAuthZoneCmd string
  | DeleteAuthZoneCmd string
  | AddAuthRrsCmd "auth_rr list"
  | DeleteAuthRrsCmd "auth_rr list"
  | UpdateAuthRrsCmd "auth_rr list" "auth_rr list"

type_synonym 'z dns_proxy = "dns_cmd \<Rightarrow> 'z \<Rightarrow> 'z \<times> goerr option"

section \<open>The proxy\<close>

definition genAuthRRs :: "'n name_lib \<Rightarrow> 'n \<Rightarrow> 'n list \<Rightarrow> string list \<Rightarrow> auth_rr list" where
  "genAuthRRs L zoneName domains ips =
     concat (map (\<lambda>domain. map (\<lambda>ip.
       \<lparr>rr_View = ''default'', rr_Zone = nameString L zoneName, rr_Name = nameString L domain, rr_Ttl = ''3600'', rr_Type = ''A'', rr_Rdata = ip\<rparr>) ips) domains)"

definition AddAuthZone :: "'n name_lib \<Rightarrow> 'z dns_proxy \<Rightarrow> 'n \<Rightarrow> 'z \<Rightarrow> 'z \<times> goerr option" where
  "AddAuthZone L H zoneName z =
     H (AddAuthZoneCmd (nameString L zoneName)) (fst (H (DeleteAuthZoneCmd (nameString L zoneName)) z))"

definition DeleteAuthZone :: "'n name_lib \<Rightarrow> 'z dns_proxy \<Rightarrow> 'n \<Rightarrow> 'z \<Rightarrow> 'z \<times> goerr option" where
  "DeleteAuthZone L H zoneName = H (DeleteAuthZoneCmd (nameString L zoneName))"

definition AddAuthRRs :: "'n name_lib \<Rightarrow> 'z dns_proxy \<Rightarrow> 'n \<Rightarrow> 'n list \<Rightarrow> string list \<Rightarrow> 'z \<Rightarrow> 'z \<times> goerr option" where
  "AddAuthRRs L H zoneName domains ips z =
     (if length domains = 0 \<or> length ips = 0 then (z, None) else H (AddAuthRrsCmd (genAuthRRs L zoneName domains ips)) z)"

definition DeleteAuthRRs :: "'n name_lib \<Rightarrow> 'z dns_proxy \<Rightarrow> 'n \<Rightarrow> 'n list \<Rightarrow> string list \<Rightarrow> 'z \<Rightarrow> 'z \<times> goerr option" where
  "DeleteAuthRRs L H zoneName domains ips z =
     (if length domains = 0 \<or> length ips = 0 then (z, None) else H (DeleteAuthRrsCmd (genAuthRRs L zoneName domains ips)) z)"

definition UpdateAuthRRs :: "'n name_lib \<Rightarrow> 'z dns_proxy \<Rightarrow> 'n \<Rightarrow> 'n list \<Rightarrow> 'n list \<Rightarrow> string list \<Rightarrow> 'z \<Rightarrow> 'z \<times> goerr option" where
  "UpdateAuthRRs L H zoneName oldDomains newDomains ips z =
     (if (length oldDomains = 0 \<and> length newDomains = 0) \<or> length ips = 0 then (z, None)
      else H (UpdateAuthRrsCmd (genAuthRRs L zoneName oldDomains ips) (genAuthRRs L zoneName newDomains ips)) z)"

definition atoi_error :: "string \<Rightarrow> goerr" where
  "atoi_error s =
     ''strconv.Atoi: parsing '' @ [CHR 0x22] @ s @ [CHR 0x22] @
     (if atoi_digits (if s \<noteq> [] \<and> hd s \<in> {CHR ''-'', CHR ''+''} then tl s else s) = None then '': invalid syntax''
      else '': value out of range'')"

text \<open>\<open>getProxy\<close> is the client of the server; a proxy is used only after it answered a ping.\<close>

definition newDnsProxy :: "(string \<Rightarrow> int \<Rightarrow> goerr + 'z dns_proxy) \<Rightarrow> string \<Rightarrow> 'z \<Rightarrow> 'z \<times> (goerr + 'z dns_proxy)" where
  "newDnsProxy getProxy addr z =
     (case split addr '':'' of
        [ip, p] \<Rightarrow>
          (case atoi p of
             None \<Rightarrow> (z, Inl (''globaldns httpcmd port '' @ p @ '' is invalid: '' @ atoi_error p))
           | Some port \<Rightarrow>
               (case getProxy ip port of
                  Inl e \<Rightarrow> (z, Inl (''new globaldns proxy failed: '' @ e))
                | Inr H \<Rightarrow>
                    (case H Ping z of
                       (z', Some e) \<Rightarrow> (z', Inl (''new globaldns proxy failed: '' @ e))
                     | (z', None) \<Rightarrow> (z', Inr H))))
      | _ \<Rightarrow> (z, Inl (''globaldns httpcmd addr '' @ addr @ '' is invalid'')))"

section \<open>One cluster\<close>

record 'n syncer =
  sy_zoneName :: 'n
  sy_edgeNodeIPs :: "string list"
  sy_ingressDomains :: "'n list"

abbreviation EdgeNodeLabel :: string where "EdgeNodeLabel \<equiv> ''node-role.kubernetes.io/edge''"

abbreviation is_edge :: "node_body \<Rightarrow> bool" where
  "is_edge n \<equiv> map_of (nb_Labels n) EdgeNodeLabel = Some ''true''"

definition getK8sNodeIP :: "node_body \<Rightarrow> string" where
  "getK8sNodeIP n =
     (case List.find (\<lambda>(ty, a). (ty = ''InternalIP'' \<or> ty = ''ExternalIP'') \<and> a \<noteq> '''') (nb_Addresses n) of
        None \<Rightarrow> '''' | Some (_, a) \<Rightarrow> a)"

definition isNodeReady :: "node_body \<Rightarrow> bool" where
  "isNodeReady n \<longleftrightarrow> list_ex (\<lambda>(ty, st). ty = ''Ready'' \<and> st = ''True'') (nb_Conditions n)"

definition dns_addNode :: "'n name_lib \<Rightarrow> 'z dns_proxy \<Rightarrow> node_body \<Rightarrow> 'n syncer \<times> 'z \<Rightarrow> 'n syncer \<times> 'z" where
  "dns_addNode L H n sz =
     (let (s, z) = sz; nodeIP = getK8sNodeIP n
      in if nodeIP = '''' \<or> nodeIP \<in> set (sy_edgeNodeIPs s) then (s, z)
         else (s\<lparr>sy_edgeNodeIPs := sy_edgeNodeIPs s @ [nodeIP]\<rparr>, fst (AddAuthRRs L H (sy_zoneName s) (sy_ingressDomains s) [nodeIP] z)))"

definition dns_deleteNode :: "'n name_lib \<Rightarrow> 'z dns_proxy \<Rightarrow> node_body \<Rightarrow> 'n syncer \<times> 'z \<Rightarrow> 'n syncer \<times> 'z" where
  "dns_deleteNode L H n sz =
     (let (s, z) = sz; nodeIP = getK8sNodeIP n
      in if nodeIP = '''' \<or> nodeIP \<notin> set (sy_edgeNodeIPs s) then (s, z)
         else (s\<lparr>sy_edgeNodeIPs := remove1 nodeIP (sy_edgeNodeIPs s)\<rparr>,
               fst (DeleteAuthRRs L H (sy_zoneName s) (sy_ingressDomains s) [nodeIP] z)))"

definition OnNewNode :: "'n name_lib \<Rightarrow> 'z dns_proxy \<Rightarrow> node_body \<Rightarrow> 'n syncer \<times> 'z \<Rightarrow> 'n syncer \<times> 'z" where
  "OnNewNode L H n sz = (if \<not> isNodeReady n then sz else dns_addNode L H n sz)"

definition OnDeleteNode :: "'n name_lib \<Rightarrow> 'z dns_proxy \<Rightarrow> node_body \<Rightarrow> 'n syncer \<times> 'z \<Rightarrow> 'n syncer \<times> 'z" where
  "OnDeleteNode L H n sz = (if \<not> isNodeReady n then sz else dns_deleteNode L H n sz)"

definition OnUpdateNode :: "'n name_lib \<Rightarrow> 'z dns_proxy \<Rightarrow> node_body \<Rightarrow> node_body \<Rightarrow> 'n syncer \<times> 'z \<Rightarrow> 'n syncer \<times> 'z" where
  "OnUpdateNode L H old new sz =
     (if isNodeReady new \<noteq> isNodeReady old
      then (if isNodeReady new then dns_addNode L H new sz else dns_deleteNode L H new sz) else sz)"

definition hasIngressDomain :: "'n name_lib \<Rightarrow> 'n syncer \<Rightarrow> 'n \<Rightarrow> bool" where
  "hasIngressDomain L s domainName = list_ex (\<lambda>domain. nameEquals L domain domainName) (sy_ingressDomains s)"

datatype 'n host_domain = HostError goerr | NotInZone | HostDomain 'n bool

definition k8sIngressHostToSCDomain :: "'n name_lib \<Rightarrow> 'n syncer \<Rightarrow> string \<Rightarrow> 'n host_domain" where
  "k8sIngressHostToSCDomain L s host =
     (case nameFromString L host of
        Inl e \<Rightarrow> HostError e
      | Inr d \<Rightarrow> if \<not> isSubDomain L d (sy_zoneName s) then NotInZone else HostDomain d (hasIngressDomain L s d))"

text \<open>
  The loops over the rules of an ingress that collect the domains that exist, or do not exist; a
  host that is no name ends the handler.
\<close>

fun collect_domains :: "'n name_lib \<Rightarrow> 'n syncer \<Rightarrow> bool \<Rightarrow> string list \<Rightarrow> 'n list option" where
  "collect_domains L s needExist [] = Some []"
| "collect_domains L s needExist (host # hosts) =
     (case k8sIngressHostToSCDomain L s host of
        HostError e \<Rightarrow> None
      | NotInZone \<Rightarrow> collect_domains L s needExist hosts
      | HostDomain d exist \<Rightarrow>
          if exist \<noteq> needExist then collect_domains L s needExist hosts
          else map_option ((#) d) (collect_domains L s needExist hosts))"

definition OnNewIngress :: "'n name_lib \<Rightarrow> 'z dns_proxy \<Rightarrow> string list \<Rightarrow> 'n syncer \<times> 'z \<Rightarrow> 'n syncer \<times> 'z" where
  "OnNewIngress L H hosts sz =
     (let (s, z) = sz
      in case collect_domains L s False hosts of
           None \<Rightarrow> (s, z)
         | Some newDomains \<Rightarrow>
             (s\<lparr>sy_ingressDomains := sy_ingressDomains s @ newDomains\<rparr>,
              fst (AddAuthRRs L H (sy_zoneName s) newDomains (sy_edgeNodeIPs s) z)))"

fun deleteIngressDomains :: "'n name_lib \<Rightarrow> 'n list \<Rightarrow> 'n list \<Rightarrow> 'n list" where
  "deleteIngressDomains L [] ds = ds"
| "deleteIngressDomains L (d # dels) ds = deleteIngressDomains L dels (remove_first (\<lambda>x. nameEquals L d x) ds)"

definition OnDeleteIngress :: "'n name_lib \<Rightarrow> 'z dns_proxy \<Rightarrow> string list \<Rightarrow> 'n syncer \<times> 'z \<Rightarrow> 'n syncer \<times> 'z" where
  "OnDeleteIngress L H hosts sz =
     (let (s, z) = sz
      in case collect_domains L s True hosts of
           None \<Rightarrow> (s, z)
         | Some oldDomains \<Rightarrow>
             (s\<lparr>sy_ingressDomains := deleteIngressDomains L oldDomains (sy_ingressDomains s)\<rparr>,
              fst (DeleteAuthRRs L H (sy_zoneName s) oldDomains (sy_edgeNodeIPs s) z)))"

text \<open>The hosts of one ingress that the other does not have, compared as texts.\<close>

definition diffK8sIngressRules :: "'n name_lib \<Rightarrow> 'n syncer \<Rightarrow> string list \<Rightarrow> string list \<Rightarrow> bool \<Rightarrow> 'n list option" where
  "diffK8sIngressRules L s hosts1 hosts2 needExist = collect_domains L s needExist (filter (\<lambda>h. h \<notin> set hosts2) hosts1)"

definition OnUpdateIngress :: "'n name_lib \<Rightarrow> 'z dns_proxy \<Rightarrow> string list \<Rightarrow> string list \<Rightarrow> 'n syncer \<times> 'z \<Rightarrow> 'n syncer \<times> 'z" where
  "OnUpdateIngress L H old new sz =
     (let (s, z) = sz
      in case diffK8sIngressRules L s old new True of
           None \<Rightarrow> (s, z)
         | Some oldDomains \<Rightarrow>
             (case diffK8sIngressRules L s new old False of
                None \<Rightarrow> (s, z)
              | Some newDomains \<Rightarrow>
                  if length oldDomains = 0 \<and> length newDomains = 0 then (s, z)
                  else (s\<lparr>sy_ingressDomains := deleteIngressDomains L oldDomains (sy_ingressDomains s) @ newDomains\<rparr>,
                        fst (UpdateAuthRRs L H (sy_zoneName s) oldDomains newDomains (sy_edgeNodeIPs s) z))))"

datatype dns_event =
    NodeCreated node_body
  | NodeUpdated node_body node_body
  | NodeDeleted node_body
  | IngressCreated "string list"
  | IngressUpdated "string list" "string list"
  | IngressDeleted "string list"

fun dns_handle :: "'n name_lib \<Rightarrow> 'z dns_proxy \<Rightarrow> dns_event \<Rightarrow> 'n syncer \<times> 'z \<Rightarrow> 'n syncer \<times> 'z" where
  "dns_handle L H (NodeCreated n) sz = (if is_edge n then OnNewNode L H n sz else sz)"
| "dns_handle L H (NodeUpdated old new) sz = (if is_edge new then OnUpdateNode L H old new sz else sz)"
| "dns_handle L H (NodeDeleted n) sz = (if is_edge n then OnDeleteNode L H n sz else sz)"
| "dns_handle L H (IngressCreated hosts) sz = OnNewIngress L H hosts sz"
| "dns_handle L H (IngressUpdated old new) sz = OnUpdateIngress L H old new sz"
| "dns_handle L H (IngressDeleted hosts) sz = OnDeleteIngress L H hosts sz"

definition initClusterDNSSyncer ::
  "'n name_lib \<Rightarrow> 'z dns_proxy \<Rightarrow> goerr + node_body list \<Rightarrow> 'n \<Rightarrow> 'z \<Rightarrow> 'z \<times> (goerr + 'n syncer)" where
  "initClusterDNSSyncer L H edgeNodes zoneName z =
     (case edgeNodes of
        Inl e \<Rightarrow> (z, Inl (''list all edge nodes failed: '' @ e))
      | Inr nodes \<Rightarrow>
          (case AddAuthZone L H zoneName z of
             (z', Some e) \<Rightarrow> (z', Inl (''add zone '' @ nameString L zoneName @ '' to globaldns failed: '' @ e))
           | (z', None) \<Rightarrow>
               (let (s, z'') = foldl (\<lambda>sz n. OnNewNode L H n sz)
                      (\<lparr>sy_zoneName = zoneName, sy_edgeNodeIPs = [], sy_ingressDomains = []\<rparr>, z') nodes
                in (z'', Inr s))))"

section \<open>All clusters\<close>

text \<open>What is read from the cache of a cluster: its configuration and its edge nodes.\<close>

record dns_cache =
  dc_clusterConfig :: "goerr + (string \<rightharpoonup> string json)"
  dc_edgeNodes :: "goerr + node_body list"

type_synonym 'n syncers = "(string \<times> 'n syncer) list"

definition newClusterDNSSyncer ::
  "'n name_lib \<Rightarrow> 'z dns_proxy \<Rightarrow> string \<Rightarrow> dns_cache \<Rightarrow> 'n syncers \<times> 'z \<Rightarrow> ('n syncers \<times> 'z) \<times> goerr option" where
  "newClusterDNSSyncer L H clusterName c gz =
     (let (g, z) = gz
      in if map_of g clusterName \<noteq> None then ((g, z), Some (''duplicate cluster name '' @ clusterName))
         else case dc_clusterConfig c of
           Inl e \<Rightarrow> ((g, z), Some (''get full-cluster-state configmap failed: '' @ e))
         | Inr data \<Rightarrow>
             (case json_unmarshal (case data ''cluster-config'' of None \<Rightarrow> NotJson '''' | Some v \<Rightarrow> v) of
                Inl e \<Rightarrow> ((g, z), Some (''unmarshal full-cluster-state configmap failed: '' @ e))
              | Inr clusterDomain \<Rightarrow>
                  if clusterDomain = '''' then ((g, z), Some (''cluster '' @ clusterName @ '' zone should not be empty''))
                  else (case nameFromString L clusterDomain of
                          Inl e \<Rightarrow> ((g, z), Some (''parse cluster '' @ clusterName @ '' zone name '' @ clusterDomain @ '' failed: '' @ e))
                        | Inr zoneName \<Rightarrow>
                            (case List.find (\<lambda>(cluster, s). nameEquals L (sy_zoneName s) zoneName) g of
                               Some (cluster, s) \<Rightarrow>
                                 ((g, z), Some (''duplicate cluster zone '' @ clusterDomain @ '', the zone has been belongs to cluster '' @ cluster))
                             | None \<Rightarrow>
                                 (case initClusterDNSSyncer L H (dc_edgeNodes c) zoneName z of
                                    (z', Inl e) \<Rightarrow> ((g, z'), Some e)
                                  | (z', Inr s) \<Rightarrow> ((g @ [(clusterName, s)], z'), None))))))"

text \<open>The events of the bus, and those of the controllers of the syncers.\<close>

datatype gdns_event = ClusterCreated string dns_cache | ClusterDeleted string | SyncerEvent string dns_event

fun gdns_step :: "'n name_lib \<Rightarrow> 'z dns_proxy \<Rightarrow> gdns_event \<Rightarrow> 'n syncers \<times> 'z \<Rightarrow> 'n syncers \<times> 'z" where
  "gdns_step L H (ClusterCreated name c) gz = fst (newClusterDNSSyncer L H name c gz)"
| "gdns_step L H (ClusterDeleted name) (g, z) =
     (case map_of g name of
        None \<Rightarrow> (g, z)
      | Some s \<Rightarrow> (AList.delete name g, fst (DeleteAuthZone L H (sy_zoneName s) z)))"
| "gdns_step L H (SyncerEvent name e) (g, z) =
     (case map_of g name of
        None \<Rightarrow> (g, z)
      | Some s \<Rightarrow> (let (s', z') = dns_handle L H e (s, z) in (AList.update name s' g, z')))"


section \<open>The records of the server\<close>

text \<open>
  \<open>key\<close> is what the server and the names compare of a name. The names of an ingress, and the pairs
  of a domain and an address that a syncer asks for.
\<close>

abbreviation name_key :: "'n name_lib \<Rightarrow> (string \<Rightarrow> string) \<Rightarrow> 'n \<Rightarrow> string" where
  "name_key L key d \<equiv> key (nameString L d)"

definition host_names :: "'n name_lib \<Rightarrow> string list \<Rightarrow> 'n list" where
  "host_names L hosts = concat (map (\<lambda>h. case nameFromString L h of Inl e \<Rightarrow> [] | Inr d \<Rightarrow> [d]) hosts)"

definition rr_pair :: "(string \<Rightarrow> string) \<Rightarrow> auth_rr \<Rightarrow> string \<times> string" where
  "rr_pair key rr = (key (rr_Name rr), rr_Rdata rr)"

definition dns_records :: "'n name_lib \<Rightarrow> (string \<Rightarrow> string) \<Rightarrow> 'n syncer \<Rightarrow> (string \<times> string) set" where
  "dns_records L key s = name_key L key ` set (sy_ingressDomains s) \<times> set (sy_edgeNodeIPs s)"

definition plain_rrs :: "(string \<Rightarrow> string) \<Rightarrow> (string \<Rightarrow> bool) \<Rightarrow> string \<Rightarrow> auth_rr list \<Rightarrow> bool" where
  "plain_rrs key addr zone rrs \<longleftrightarrow>
     distinct (map (rr_pair key) rrs) \<and>
     list_all (\<lambda>rr. rr_View rr = ''default'' \<and> key (rr_Zone rr) = zone \<and> rr_Type rr = ''A'' \<and> addr (rr_Rdata rr)) rrs"

text \<open>
  What is relied on of a server that is reachable: it drops and adds zones, and adds, deletes and
  replaces address records of a zone it has.
\<close>

locale dns_server =
  fixes L :: "'n name_lib" and H :: "'z dns_proxy" and zones :: "'z \<Rightarrow> string \<rightharpoonup> (string \<times> string) set"
    and key :: "string \<Rightarrow> string" and addr :: "string \<Rightarrow> bool"
  assumes equals: "nameEquals L a b \<longleftrightarrow> name_key L key a = name_key L key b"
    and drop_zone: "zones (fst (H (DeleteAuthZoneCmd n) z)) = (zones z)(key n := None)"
    and add_zone: "zones z (key n) = None \<Longrightarrow> zones (fst (H (AddAuthZoneCmd n) z)) = (zones z)(key n \<mapsto> {})"
    and add_zone_ok: "zones z (key n) = None \<Longrightarrow> snd (H (AddAuthZoneCmd n) z) = None"
    and add_rrs: "zones z k = Some S \<Longrightarrow> plain_rrs key addr k rrs \<Longrightarrow> S \<inter> rr_pair key ` set rrs = {} \<Longrightarrow>
      zones (fst (H (AddAuthRrsCmd rrs) z)) = (zones z)(k \<mapsto> S \<union> rr_pair key ` set rrs)"
    and delete_rrs: "zones z k = Some S \<Longrightarrow> plain_rrs key addr k rrs \<Longrightarrow> rr_pair key ` set rrs \<subseteq> S \<Longrightarrow>
      zones (fst (H (DeleteAuthRrsCmd rrs) z)) = (zones z)(k \<mapsto> S - rr_pair key ` set rrs)"
    and update_rrs: "zones z k = Some S \<Longrightarrow> plain_rrs key addr k old \<Longrightarrow> plain_rrs key addr k new \<Longrightarrow>
      rr_pair key ` set old \<subseteq> S \<Longrightarrow> S \<inter> rr_pair key ` set new = {} \<Longrightarrow>
      zones (fst (H (UpdateAuthRrsCmd old new) z)) = (zones z)(k \<mapsto> (S - rr_pair key ` set old) \<union> rr_pair key ` set new)"

lemma rr_pairs: "rr_pair key ` set (genAuthRRs L zn ds ips) = name_key L key ` set ds \<times> set ips"
  by (force simp: genAuthRRs_def rr_pair_def)

lemma plain_genAuthRRs:
  assumes "distinct (map (name_key L key) ds)" "distinct ips" "\<forall>ip \<in> set ips. addr ip"
  shows "plain_rrs key addr (name_key L key zn) (genAuthRRs L zn ds ips)"
proof -
  have "map (rr_pair key) (genAuthRRs L zn ds ips) = List.product (map (name_key L key) ds) ips"
    by (simp add: genAuthRRs_def rr_pair_def product_concat_map map_concat comp_def)
  with assms show ?thesis
    by (auto simp: plain_rrs_def distinct_product list_all_iff genAuthRRs_def)
qed

lemma collect_domains_names:
  "collect_domains L s b hosts = Some ds \<Longrightarrow>
     ds = filter (\<lambda>d. isSubDomain L d (sy_zoneName s) \<and> hasIngressDomain L s d = b) (host_names L hosts)"
  by (induction hosts arbitrary: ds)
     (auto simp: k8sIngressHostToSCDomain_def host_names_def split: sum.splits if_splits)

lemma collect_domains_total:
  "\<forall>h \<in> set hosts. \<exists>d. nameFromString L h = Inr d \<Longrightarrow> \<exists>ds. collect_domains L s b hosts = Some ds"
  by (induction hosts) (auto simp: k8sIngressHostToSCDomain_def)

lemma set_host_names: "d \<in> set (host_names L hosts) \<longleftrightarrow> (\<exists>h \<in> set hosts. nameFromString L h = Inr d)"
  by (force simp: host_names_def split: sum.splits)

lemma host_names_Cons: "host_names L (h # hosts) = (case nameFromString L h of Inl e \<Rightarrow> [] | Inr d \<Rightarrow> [d]) @ host_names L hosts"
  by (simp add: host_names_def)

lemma distinct_host_names_filter:
  "distinct (map f (host_names L hosts)) \<Longrightarrow> distinct (map f (host_names L (filter P hosts)))"
proof (induction hosts)
  case (Cons h hosts)
  moreover have "set (host_names L (filter P hosts)) \<subseteq> set (host_names L hosts)" by (auto simp: set_host_names)
  ultimately show ?case by (auto simp: host_names_Cons split: sum.splits dest: image_mono)
qed (simp add: host_names_def)

lemma distinct_map_filterI: "distinct (map f xs) \<Longrightarrow> distinct (map f (filter P xs))"
  by (rule distinct_map_filter)

text \<open>The hosts and addresses of an event that the exactness of the records rests on.\<close>

fun event_hosts :: "dns_event \<Rightarrow> string list list" where
  "event_hosts (IngressCreated hosts) = [hosts]"
| "event_hosts (IngressUpdated old new) = [old, new]"
| "event_hosts (IngressDeleted hosts) = [hosts]"
| "event_hosts _ = []"

fun event_nodes :: "dns_event \<Rightarrow> node_body list" where
  "event_nodes (NodeCreated n) = [n]"
| "event_nodes (NodeUpdated old new) = [new]"
| "event_nodes (NodeDeleted n) = [n]"
| "event_nodes _ = []"

definition plain_event :: "'n name_lib \<Rightarrow> (string \<Rightarrow> string) \<Rightarrow> (string \<Rightarrow> bool) \<Rightarrow> dns_event \<Rightarrow> bool" where
  "plain_event L key addr e \<longleftrightarrow>
     list_all (\<lambda>hosts. distinct (map (name_key L key) (host_names L hosts))) (event_hosts e) \<and>
     list_all (\<lambda>n. addr (getK8sNodeIP n)) (event_nodes e)"

definition syncer_ok :: "'n name_lib \<Rightarrow> (string \<Rightarrow> string) \<Rightarrow> (string \<Rightarrow> bool) \<Rightarrow> 'n syncer \<Rightarrow> bool" where
  "syncer_ok L key addr s \<longleftrightarrow>
     distinct (map (name_key L key) (sy_ingressDomains s)) \<and> distinct (sy_edgeNodeIPs s) \<and> list_all addr (sy_edgeNodeIPs s)"

context dns_server
begin

abbreviation nk where "nk \<equiv> name_key L key"

definition served where
  "served s z \<longleftrightarrow> syncer_ok L key addr s \<and> zones z (nk (sy_zoneName s)) = Some (dns_records L key s)"

definition step_ok where
  "step_ok s z s' z' \<longleftrightarrow> served s' z' \<and> sy_zoneName s' = sy_zoneName s \<and> (\<forall>k. k \<noteq> nk (sy_zoneName s) \<longrightarrow> zones z' k = zones z k)"

lemma step_ok_refl [simp]: "served s z \<Longrightarrow> step_ok s z s z"
  by (simp add: step_ok_def)

lemma has_domain: "hasIngressDomain L s d \<longleftrightarrow> nk d \<in> nk ` set (sy_ingressDomains s)"
  unfolding hasIngressDomain_def list_ex_iff equals image_iff by metis

lemma collected:
  assumes "collect_domains L s b hosts = Some ds" "distinct (map nk (host_names L hosts))"
  shows collected_distinct: "distinct (map nk ds)"
    and collected_old: "b \<Longrightarrow> nk ` set ds \<subseteq> nk ` set (sy_ingressDomains s)"
    and collected_new: "\<not> b \<Longrightarrow> nk ` set (sy_ingressDomains s) \<inter> nk ` set ds = {}"
proof -
  show "distinct (map nk ds)" using collect_domains_names [OF assms(1)] assms(2) by (simp add: distinct_map_filter)
  have *: "(k \<in> nk ` set (sy_ingressDomains s)) = b" if "k \<in> nk ` set ds" for k
    using that collect_domains_names [OF assms(1)] by (auto simp: has_domain)
  show "b \<Longrightarrow> nk ` set ds \<subseteq> nk ` set (sy_ingressDomains s)" using * by blast
  show "\<not> b \<Longrightarrow> nk ` set (sy_ingressDomains s) \<inter> nk ` set ds = {}" using * by blast
qed

lemma delete_domains:
  "distinct (map nk ds) \<Longrightarrow> deleteIngressDomains L dels ds = filter (\<lambda>x. nk x \<notin> nk ` set dels) ds"
proof (induction dels arbitrary: ds)
  case (Cons d dels)
  have "remove_first (\<lambda>x. nameEquals L d x) ds = filter (\<lambda>x. nk x \<noteq> nk d) ds"
    using remove_first_map_key [OF Cons.prems, of "nk d"] by (simp add: equals eq_commute)
  then show ?case by (simp add: Cons.IH distinct_map_filterI Cons.prems conj_commute)
qed simp

lemma added:
  assumes "served s z" "distinct (map nk ds)" "distinct ips" "list_all addr ips"
    and fresh: "dns_records L key s \<inter> (nk ` set ds \<times> set ips) = {}"
  shows "zones (fst (AddAuthRRs L H (sy_zoneName s) ds ips z)) =
           (zones z)(nk (sy_zoneName s) \<mapsto> dns_records L key s \<union> nk ` set ds \<times> set ips)"
proof (cases "ds = [] \<or> ips = []")
  case True
  with assms(1) show ?thesis by (auto simp: AddAuthRRs_def served_def fun_upd_idem)
next
  case False
  with add_rrs [OF _ plain_genAuthRRs, of z L "sy_zoneName s" "dns_records L key s" ds ips] assms show ?thesis
    by (simp add: AddAuthRRs_def served_def rr_pairs list_all_iff)
qed

lemma deleted:
  assumes "served s z" "distinct (map nk ds)" "distinct ips" "list_all addr ips"
    and part: "nk ` set ds \<times> set ips \<subseteq> dns_records L key s"
  shows "zones (fst (DeleteAuthRRs L H (sy_zoneName s) ds ips z)) =
           (zones z)(nk (sy_zoneName s) \<mapsto> dns_records L key s - nk ` set ds \<times> set ips)"
proof (cases "ds = [] \<or> ips = []")
  case True
  with assms(1) show ?thesis by (auto simp: DeleteAuthRRs_def served_def fun_upd_idem)
next
  case False
  with delete_rrs [OF _ plain_genAuthRRs, of z L "sy_zoneName s" "dns_records L key s" ds ips] assms show ?thesis
    by (simp add: DeleteAuthRRs_def served_def rr_pairs list_all_iff)
qed

lemma updated:
  assumes "served s z" "distinct (map nk old)" "distinct (map nk new)" "distinct ips" "list_all addr ips"
    and part: "nk ` set old \<times> set ips \<subseteq> dns_records L key s" and fresh: "dns_records L key s \<inter> (nk ` set new \<times> set ips) = {}"
  shows "zones (fst (UpdateAuthRRs L H (sy_zoneName s) old new ips z)) =
           (zones z)(nk (sy_zoneName s) \<mapsto> (dns_records L key s - nk ` set old \<times> set ips) \<union> nk ` set new \<times> set ips)"
proof (cases "(old = [] \<and> new = []) \<or> ips = []")
  case True
  with assms(1) show ?thesis by (auto simp: UpdateAuthRRs_def served_def fun_upd_idem)
next
  case False
  with update_rrs [OF _ plain_genAuthRRs plain_genAuthRRs, of z L "sy_zoneName s" "dns_records L key s" old ips new ips] assms
  show ?thesis by (auto simp: UpdateAuthRRs_def served_def rr_pairs list_all_iff)
qed

end

context dns_server
begin

lemma step_addNode:
  assumes ok: "served s z" and a: "addr (getK8sNodeIP n)" and r: "dns_addNode L H n (s, z) = (s', z')"
  shows "step_ok s z s' z'"
proof (cases "getK8sNodeIP n = '''' \<or> getK8sNodeIP n \<in> set (sy_edgeNodeIPs s)")
  case False
  let ?ip = "getK8sNodeIP n"
  from r False have s': "s' = s\<lparr>sy_edgeNodeIPs := sy_edgeNodeIPs s @ [?ip]\<rparr>"
    and z': "z' = fst (AddAuthRRs L H (sy_zoneName s) (sy_ingressDomains s) [?ip] z)" by (auto simp: dns_addNode_def Let_def)
  have "dns_records L key s \<inter> (nk ` set (sy_ingressDomains s) \<times> set [?ip]) = {}" using False by (auto simp: dns_records_def)
  then have "zones z' = (zones z)(nk (sy_zoneName s) \<mapsto> dns_records L key s \<union> nk ` set (sy_ingressDomains s) \<times> set [?ip])"
    unfolding z' using ok a by (intro added) (auto simp: served_def syncer_ok_def)
  with ok a False show ?thesis
    by (auto simp: s' step_ok_def served_def syncer_ok_def dns_records_def)
qed (use ok r in \<open>auto simp: dns_addNode_def\<close>)

lemma step_deleteNode:
  assumes ok: "served s z" and r: "dns_deleteNode L H n (s, z) = (s', z')"
  shows "step_ok s z s' z'"
proof (cases "getK8sNodeIP n = '''' \<or> getK8sNodeIP n \<notin> set (sy_edgeNodeIPs s)")
  case False
  let ?ip = "getK8sNodeIP n"
  from r False have s': "s' = s\<lparr>sy_edgeNodeIPs := remove1 ?ip (sy_edgeNodeIPs s)\<rparr>"
    and z': "z' = fst (DeleteAuthRRs L H (sy_zoneName s) (sy_ingressDomains s) [?ip] z)" by (auto simp: dns_deleteNode_def Let_def)
  have "nk ` set (sy_ingressDomains s) \<times> set [?ip] \<subseteq> dns_records L key s" using False by (auto simp: dns_records_def)
  then have "zones z' = (zones z)(nk (sy_zoneName s) \<mapsto> dns_records L key s - nk ` set (sy_ingressDomains s) \<times> set [?ip])"
    unfolding z' using ok False by (intro deleted) (auto simp: served_def syncer_ok_def list_all_iff)
  with ok False show ?thesis
    by (auto simp: s' step_ok_def served_def syncer_ok_def dns_records_def list_all_iff)
qed (use ok r in \<open>auto simp: dns_deleteNode_def\<close>)

lemma step_OnNewIngress:
  assumes ok: "served s z" and d: "distinct (map nk (host_names L hosts))" and r: "OnNewIngress L H hosts (s, z) = (s', z')"
  shows "step_ok s z s' z'"
proof (cases "collect_domains L s False hosts")
  case (Some ds)
  with r have s': "s' = s\<lparr>sy_ingressDomains := sy_ingressDomains s @ ds\<rparr>"
    and z': "z' = fst (AddAuthRRs L H (sy_zoneName s) ds (sy_edgeNodeIPs s) z)" by (auto simp: OnNewIngress_def)
  note ds = collected_distinct [OF Some d] and new = collected_new [OF Some d, simplified]
  from new have "dns_records L key s \<inter> (nk ` set ds \<times> set (sy_edgeNodeIPs s)) = {}" by (auto simp: dns_records_def)
  then have "zones z' = (zones z)(nk (sy_zoneName s) \<mapsto> dns_records L key s \<union> nk ` set ds \<times> set (sy_edgeNodeIPs s))"
    unfolding z' using ok ds by (intro added) (auto simp: served_def syncer_ok_def)
  with ok ds new show ?thesis by (auto simp: s' step_ok_def served_def syncer_ok_def dns_records_def image_Un)
qed (use ok r in \<open>auto simp: OnNewIngress_def\<close>)

lemma step_OnDeleteIngress:
  assumes ok: "served s z" and d: "distinct (map nk (host_names L hosts))" and r: "OnDeleteIngress L H hosts (s, z) = (s', z')"
  shows "step_ok s z s' z'"
proof (cases "collect_domains L s True hosts")
  case (Some ds)
  with r ok have s': "s' = s\<lparr>sy_ingressDomains := filter (\<lambda>x. nk x \<notin> nk ` set ds) (sy_ingressDomains s)\<rparr>"
    and z': "z' = fst (DeleteAuthRRs L H (sy_zoneName s) ds (sy_edgeNodeIPs s) z)"
    by (auto simp: OnDeleteIngress_def delete_domains served_def syncer_ok_def)
  note ds = collected_distinct [OF Some d] and old = collected_old [OF Some d, simplified]
  from old have "nk ` set ds \<times> set (sy_edgeNodeIPs s) \<subseteq> dns_records L key s" by (auto simp: dns_records_def)
  then have "zones z' = (zones z)(nk (sy_zoneName s) \<mapsto> dns_records L key s - nk ` set ds \<times> set (sy_edgeNodeIPs s))"
    unfolding z' using ok ds by (intro deleted) (auto simp: served_def syncer_ok_def)
  with ok ds show ?thesis
    by (auto simp: s' step_ok_def served_def syncer_ok_def dns_records_def distinct_map_filter)
qed (use ok r in \<open>auto simp: OnDeleteIngress_def\<close>)

lemma step_OnUpdateIngress:
  assumes ok: "served s z" and d: "distinct (map nk (host_names L old))" "distinct (map nk (host_names L new))"
    and r: "OnUpdateIngress L H old new (s, z) = (s', z')"
  shows "step_ok s z s' z'"
proof (cases "\<exists>os ns. diffK8sIngressRules L s old new True = Some os \<and> diffK8sIngressRules L s new old False = Some ns \<and> \<not> (os = [] \<and> ns = [])")
  case True
  then obtain os ns where o: "diffK8sIngressRules L s old new True = Some os" and n: "diffK8sIngressRules L s new old False = Some ns"
    and ne: "\<not> (os = [] \<and> ns = [])" by blast
  with r ok have s': "s' = s\<lparr>sy_ingressDomains := filter (\<lambda>x. nk x \<notin> nk ` set os) (sy_ingressDomains s) @ ns\<rparr>"
    and z': "z' = fst (UpdateAuthRRs L H (sy_zoneName s) os ns (sy_edgeNodeIPs s) z)"
    by (auto simp: OnUpdateIngress_def delete_domains served_def syncer_ok_def)
  from collected [OF o [unfolded diffK8sIngressRules_def] distinct_host_names_filter [OF d(1)]]
  have os: "distinct (map nk os)" "nk ` set os \<subseteq> nk ` set (sy_ingressDomains s)" by auto
  from collected [OF n [unfolded diffK8sIngressRules_def] distinct_host_names_filter [OF d(2)]]
  have ns: "distinct (map nk ns)" "nk ` set (sy_ingressDomains s) \<inter> nk ` set ns = {}" by auto
  have "zones z' = (zones z)(nk (sy_zoneName s) \<mapsto> (dns_records L key s - nk ` set os \<times> set (sy_edgeNodeIPs s)) \<union> nk ` set ns \<times> set (sy_edgeNodeIPs s))"
    unfolding z' using ok os ns by (intro updated) (auto simp: served_def syncer_ok_def dns_records_def)
  with ok os ns show ?thesis
    by (auto simp: s' step_ok_def served_def syncer_ok_def dns_records_def distinct_map_filter)
next
  case False
  with r have "s' = s \<and> z' = z" by (auto simp: OnUpdateIngress_def split: option.splits)
  with ok show ?thesis by simp
qed

lemma step_handle:
  "served s z \<Longrightarrow> plain_event L key addr e \<Longrightarrow> dns_handle L H e (s, z) = (s', z') \<Longrightarrow> step_ok s z s' z'"
  by (cases e)
     (auto simp: plain_event_def OnNewNode_def OnDeleteNode_def OnUpdateNode_def split: if_splits
        intro: step_addNode step_deleteNode step_OnNewIngress step_OnUpdateIngress step_OnDeleteIngress)

end

text \<open>All syncers: different clusters, different zones, each zone with exactly the records of its syncer.\<close>

definition syncers_served ::
  "'n name_lib \<Rightarrow> (string \<Rightarrow> string) \<Rightarrow> (string \<Rightarrow> bool) \<Rightarrow> ('z \<Rightarrow> string \<rightharpoonup> (string \<times> string) set) \<Rightarrow> 'n syncers \<Rightarrow> 'z \<Rightarrow> bool" where
  "syncers_served L key addr zones g z \<longleftrightarrow>
     distinct (map fst g) \<and> distinct (map (\<lambda>(c, s). name_key L key (sy_zoneName s)) g) \<and>
     (\<forall>(c, s) \<in> set g. syncer_ok L key addr s \<and> zones z (name_key L key (sy_zoneName s)) = Some (dns_records L key s))"

definition syncer_zones :: "'n name_lib \<Rightarrow> (string \<Rightarrow> string) \<Rightarrow> 'n syncers \<Rightarrow> string set" where
  "syncer_zones L key g = (\<lambda>(c, s). name_key L key (sy_zoneName s)) ` set g"

fun plain_gdns_event :: "'n name_lib \<Rightarrow> (string \<Rightarrow> string) \<Rightarrow> (string \<Rightarrow> bool) \<Rightarrow> gdns_event \<Rightarrow> bool" where
  "plain_gdns_event L key addr (ClusterCreated c d) = list_all (\<lambda>n. addr (getK8sNodeIP n)) (case dc_edgeNodes d of Inl e \<Rightarrow> [] | Inr ns \<Rightarrow> ns)"
| "plain_gdns_event L key addr (ClusterDeleted c) = True"
| "plain_gdns_event L key addr (SyncerEvent c e) = plain_event L key addr e"

lemma map_update_key:
  assumes "distinct (map fst g)" "map_of g c = Some s" "f (c, s') = f (c, s)"
  shows "map f (AList.update c s' g) = map f g"
  using assms by (induction g) (auto simp: map_of_eq_None_iff split: if_splits)

lemma set_update_distinct:
  "distinct (map fst g) \<Longrightarrow> set (AList.update c s g) = insert (c, s) {p \<in> set g. fst p \<noteq> c}"
  by (induction g) force+

context dns_server
begin

lemma served_initially:
  assumes "initClusterDNSSyncer L H (Inr nodes) zn z = (z', r)" "list_all (\<lambda>n. addr (getK8sNodeIP n)) nodes"
  shows "\<exists>s. r = Inr s \<and> served s z' \<and> sy_zoneName s = zn \<and> (\<forall>k. k \<noteq> nk zn \<longrightarrow> zones z' k = zones z k)"
proof -
  let ?s = "\<lparr>sy_zoneName = zn, sy_edgeNodeIPs = [], sy_ingressDomains = []\<rparr>"
  let ?z = "fst (AddAuthZone L H zn z)"
  have zs: "zones ?z = (zones z)(nk zn \<mapsto> {})" and ok: "snd (AddAuthZone L H zn z) = None"
    by (simp_all add: AddAuthZone_def drop_zone add_zone add_zone_ok)
  have "served ?s ?z" by (simp add: served_def syncer_ok_def dns_records_def zs)
  moreover have "served s z1 \<Longrightarrow> foldl (\<lambda>sz n. OnNewNode L H n sz) (s, z1) nodes = (s2, z2) \<Longrightarrow> step_ok s z1 s2 z2" for s s2 z1 z2
    using assms(2)
  proof (induction nodes arbitrary: s z1)
    case (Cons n nodes)
    obtain s1 z3 where r: "OnNewNode L H n (s, z1) = (s1, z3)" by force
    with Cons.prems have "step_ok s z1 s1 z3" by (auto simp: OnNewNode_def intro: step_addNode split: if_splits)
    with Cons.IH [of s1 z3] Cons.prems r show ?case by (auto simp: step_ok_def)
  qed simp
  moreover obtain s2 z2 where f: "foldl (\<lambda>sz n. OnNewNode L H n sz) (?s, ?z) nodes = (s2, z2)" by force
  ultimately have "step_ok ?s ?z s2 z2" by blast
  moreover from assms(1) ok f have "z' = z2 \<and> r = Inr s2"
    by (auto simp: initClusterDNSSyncer_def split: prod.splits option.splits)
  ultimately show ?thesis by (auto simp: step_ok_def zs)
qed

end

context dns_server
begin

abbreviation all_served where "all_served \<equiv> syncers_served L key addr zones"

abbreviation zone_of where "zone_of \<equiv> (\<lambda>(c, s). nk (sy_zoneName s))"

lemma all_servedD: "all_served g z \<Longrightarrow> (c, s) \<in> set g \<Longrightarrow> served s z"
  by (auto simp: syncers_served_def served_def)

lemma all_served_frame:
  "all_served g z \<Longrightarrow> (\<And>k. k \<in> syncer_zones L key g \<Longrightarrow> zones z' k = zones z k) \<Longrightarrow> all_served g z'"
  by (fastforce simp: syncers_served_def syncer_zones_def)

lemma all_served_snoc:
  "all_served g z \<Longrightarrow> served s z \<Longrightarrow> map_of g c = None \<Longrightarrow> nk (sy_zoneName s) \<notin> syncer_zones L key g \<Longrightarrow> all_served (g @ [(c, s)]) z"
  by (auto simp: syncers_served_def served_def syncer_zones_def map_of_eq_None_iff)

lemma all_served_delete: "all_served g z \<Longrightarrow> all_served (AList.delete c g) z"
  by (auto simp: syncers_served_def AList.delete_eq distinct_map_filter split: prod.splits)

lemma other_zone:
  assumes "all_served g z" "(c, s) \<in> set g" "(c', s') \<in> set g" "c' \<noteq> c"
  shows "nk (sy_zoneName s') \<noteq> nk (sy_zoneName s)"
  using assms inj_onD [of zone_of "set g" "(c, s)" "(c', s')"] by (auto simp: syncers_served_def distinct_map)

definition kept where
  "kept g z g' z' \<longleftrightarrow> all_served g' z' \<and>
     (\<forall>k. k \<notin> syncer_zones L key g' \<longrightarrow> zones z' k = None \<or> k \<notin> syncer_zones L key g \<and> zones z' k = zones z k)"

lemma kept_refl: "all_served g z \<Longrightarrow> kept g z g z"
  by (simp add: kept_def)

lemma kept_trans: "kept g z g1 z1 \<Longrightarrow> kept g1 z1 g' z' \<Longrightarrow> kept g z g' z'"
  unfolding kept_def by metis

lemma step_created:
  assumes ok: "all_served g z" and pl: "plain_gdns_event L key addr (ClusterCreated c d)"
    and st: "newClusterDNSSyncer L H c d (g, z) = ((g', z'), e)"
  shows "kept g z g' z'"
proof (cases e)
  case (Some x)
  have "z' = z \<and> g' = g" if "dc_edgeNodes d = Inl y" for y
    using st that by (auto simp: newClusterDNSSyncer_def initClusterDNSSyncer_def split: if_splits sum.splits option.splits)
  moreover have "z' = z \<and> g' = g" if ns: "dc_edgeNodes d = Inr ns" for ns
  proof -
    have "\<exists>s. snd (initClusterDNSSyncer L H (Inr ns) zn z) = Inr s" for zn
      using served_initially [of ns zn z] ns pl by (metis plain_gdns_event.simps(1) prod.collapse sum.case(2))
    then show ?thesis using st Some ns
      by (auto simp: newClusterDNSSyncer_def Let_def split: if_splits sum.splits option.splits prod.splits) (metis Inl_Inr_False snd_conv)+
  qed
  ultimately show ?thesis using kept_refl [OF ok] by (cases "dc_edgeNodes d") auto
next
  case None
  with st obtain zn s where new: "map_of g c = None" and fresh: "List.find (\<lambda>(cluster, s). nameEquals L (sy_zoneName s) zn) g = None"
    and i: "initClusterDNSSyncer L H (dc_edgeNodes d) zn z = (z', Inr s)" and g': "g' = g @ [(c, s)]"
    by (auto simp: newClusterDNSSyncer_def Let_def split: if_splits sum.splits option.splits prod.splits)
  from i obtain ns where ns: "dc_edgeNodes d = Inr ns" by (cases "dc_edgeNodes d") (auto simp: initClusterDNSSyncer_def)
  from served_initially [of ns zn z z' "Inr s"] i ns pl have s: "served s z'" "sy_zoneName s = zn"
    and fr: "\<forall>k. k \<noteq> nk zn \<longrightarrow> zones z' k = zones z k" by auto
  from fresh have z: "nk zn \<notin> syncer_zones L key g"
    by (fastforce simp: find_None_iff syncer_zones_def equals)
  have "all_served g z'" using all_served_frame [OF ok] fr z by metis
  with s new z have "all_served g' z'" unfolding g' by (intro all_served_snoc) auto
  with fr s g' show ?thesis by (auto simp: kept_def syncer_zones_def)
qed

end

context dns_server
begin

lemma step_deleted:
  assumes ok: "all_served g z" and st: "gdns_step L H (ClusterDeleted c) (g, z) = (g', z')"
  shows "kept g z g' z'"
proof (cases "map_of g c")
  case (Some s)
  with st have g': "g' = AList.delete c g" and z': "zones z' = (zones z)(nk (sy_zoneName s) := None)"
    by (auto simp: DeleteAuthZone_def drop_zone)
  have "nk (sy_zoneName s) \<notin> syncer_zones L key g'"
    using other_zone [OF ok map_of_SomeD [OF Some]] by (fastforce simp: syncer_zones_def g' AList.delete_eq)
  then have "all_served g' z'" using all_served_frame [OF all_served_delete [OF ok]] z' g' by fastforce
  moreover have "k \<in> syncer_zones L key g \<Longrightarrow> k \<notin> syncer_zones L key g' \<Longrightarrow> k = nk (sy_zoneName s)" for k
    using Some ok by (auto simp: syncer_zones_def g' AList.delete_eq syncers_served_def image_iff) (metis map_of_is_SomeI option.inject)
  ultimately show ?thesis using z' by (auto simp: kept_def)
qed (use ok st kept_refl in auto)

lemma step_syncer:
  assumes ok: "all_served g z" and pl: "plain_event L key addr e" and st: "gdns_step L H (SyncerEvent c e) (g, z) = (g', z')"
  shows "kept g z g' z'"
proof (cases "map_of g c")
  case (Some s)
  note in_g = map_of_SomeD [OF Some]
  from Some st obtain s' where h: "dns_handle L H e (s, z) = (s', z')" and g': "g' = AList.update c s' g"
    by (auto split: prod.splits)
  from step_handle [OF all_servedD [OF ok in_g] pl h]
  have s': "served s' z'" and zn: "sy_zoneName s' = sy_zoneName s" and fr: "\<forall>k. k \<noteq> nk (sy_zoneName s) \<longrightarrow> zones z' k = zones z k"
    by (auto simp: step_ok_def)
  from ok have d: "distinct (map fst g)" "distinct (map zone_of g)" by (simp_all add: syncers_served_def)
  have m: "map fst g' = map fst g" "map zone_of g' = map zone_of g"
    unfolding g' by (rule map_update_key [OF d(1) Some], simp add: zn)+
  have "served t z'" if "(a, t) \<in> set g'" for a t
  proof (cases "a = c")
    case True
    with that s' show ?thesis by (auto simp: g' set_update_distinct d)
  next
    case False
    with that have t: "(a, t) \<in> set g" by (auto simp: g' set_update_distinct d)
    from other_zone [OF ok in_g t False] fr all_servedD [OF ok t] show ?thesis by (simp add: served_def)
  qed
  with d m have "all_served g' z'" by (auto simp: syncers_served_def served_def)
  moreover have "nk (sy_zoneName s) \<in> syncer_zones L key g'"
    by (force simp: syncer_zones_def g' set_update_distinct d zn)
  moreover have "syncer_zones L key g' = syncer_zones L key g" using m(2) by (metis list.set_map syncer_zones_def)
  ultimately show ?thesis using fr by (metis kept_def)
qed (use ok st kept_refl in auto)

lemma gdns_step_served:
  assumes "all_served g z" "plain_gdns_event L key addr e" "gdns_step L H e (g, z) = (g', z')"
  shows "kept g z g' z'"
proof (cases e)
  case (ClusterCreated c d)
  obtain x where "newClusterDNSSyncer L H c d (g, z) = ((g', z'), x)"
    using assms(3) ClusterCreated by (metis gdns_step.simps(1) prod.collapse)
  with step_created [of g z c d g' z' x] assms ClusterCreated show ?thesis by auto
next
  case (ClusterDeleted c)
  with step_deleted [of g z c g' z'] assms show ?thesis by simp
next
  case (SyncerEvent c e')
  with step_syncer [of g z e' c g' z'] assms show ?thesis by auto
qed

lemma gdns_run_served:
  assumes "foldl (\<lambda>gz e. gdns_step L H e gz) (g, z) es = (g', z')" "all_served g z" "list_all (plain_gdns_event L key addr) es"
  shows "kept g z g' z'"
  using assms
proof (induction es arbitrary: g z)
  case (Cons e es)
  obtain g1 z1 where s: "gdns_step L H e (g, z) = (g1, z1)" by force
  with gdns_step_served [OF Cons.prems(2) _ s] Cons.prems have k: "kept g z g1 z1" by simp
  with Cons.IH [of g1 z1] Cons.prems s have "kept g1 z1 g' z'" by (auto simp: kept_def)
  with k show ?case by (rule kept_trans)
qed (use kept_refl in auto)

end

section \<open>The ingresses and nodes of a cluster\<close>

text \<open>
  A cluster has ingresses and nodes; its events tell how they change. What the domain name system
  should answer: every host of an ingress in the zone of the cluster, with the address of every ready
  edge node.
\<close>

record dns_world =
  dw_ingresses :: "string \<rightharpoonup> string list"
  dw_nodes :: "string \<rightharpoonup> node_body"

inductive cluster_event :: "dns_world \<Rightarrow> dns_event \<Rightarrow> dns_world \<Rightarrow> bool" where
  ingress_created: "dw_ingresses w i = None \<Longrightarrow>
    cluster_event w (IngressCreated hosts) (w\<lparr>dw_ingresses := (dw_ingresses w)(i \<mapsto> hosts)\<rparr>)"
| ingress_updated: "dw_ingresses w i = Some old \<Longrightarrow>
    cluster_event w (IngressUpdated old new) (w\<lparr>dw_ingresses := (dw_ingresses w)(i \<mapsto> new)\<rparr>)"
| ingress_deleted: "dw_ingresses w i = Some hosts \<Longrightarrow>
    cluster_event w (IngressDeleted hosts) (w\<lparr>dw_ingresses := (dw_ingresses w)(i := None)\<rparr>)"
| node_listed: "dw_nodes w i = Some n \<Longrightarrow> cluster_event w (NodeCreated n) w"
| node_created: "dw_nodes w i = None \<Longrightarrow> cluster_event w (NodeCreated n) (w\<lparr>dw_nodes := (dw_nodes w)(i \<mapsto> n)\<rparr>)"
| node_updated: "dw_nodes w i = Some old \<Longrightarrow> cluster_event w (NodeUpdated old new) (w\<lparr>dw_nodes := (dw_nodes w)(i \<mapsto> new)\<rparr>)"
| node_deleted: "dw_nodes w i = Some n \<Longrightarrow> cluster_event w (NodeDeleted n) (w\<lparr>dw_nodes := (dw_nodes w)(i := None)\<rparr>)"

definition zone_hosts :: "'n name_lib \<Rightarrow> (string \<Rightarrow> string) \<Rightarrow> 'n \<Rightarrow> string list \<Rightarrow> string set" where
  "zone_hosts L key zone hosts = name_key L key ` {d \<in> set (host_names L hosts). isSubDomain L d zone}"

definition world_hosts :: "'n name_lib \<Rightarrow> (string \<Rightarrow> string) \<Rightarrow> 'n \<Rightarrow> dns_world \<Rightarrow> string set" where
  "world_hosts L key zone w = (\<Union>hosts \<in> ran (dw_ingresses w). zone_hosts L key zone hosts)"

definition edge_ips :: "node_body \<Rightarrow> string set" where
  "edge_ips n = (if is_edge n \<and> isNodeReady n \<and> getK8sNodeIP n \<noteq> '''' then {getK8sNodeIP n} else {})"

definition world_ips :: "dns_world \<Rightarrow> string set" where
  "world_ips w = (\<Union>n \<in> ran (dw_nodes w). edge_ips n)"

text \<open>
  The clusters for which this is promised: the hosts are names, no two of them the same; the nodes
  have addresses of their own; an update keeps the edge role and the address of a node and writes a host that
  stays as before.
\<close>

definition tidy :: "'n name_lib \<Rightarrow> (string \<Rightarrow> string) \<Rightarrow> (string \<Rightarrow> bool) \<Rightarrow> dns_world \<Rightarrow> bool" where
  "tidy L key addr w \<longleftrightarrow>
     (\<forall>i hosts. dw_ingresses w i = Some hosts \<longrightarrow>
        (\<forall>h \<in> set hosts. \<exists>d. nameFromString L h = Inr d) \<and> distinct (map (name_key L key) (host_names L hosts))) \<and>
     (\<forall>i j hosts hosts'. dw_ingresses w i = Some hosts \<longrightarrow> dw_ingresses w j = Some hosts' \<longrightarrow> i \<noteq> j \<longrightarrow>
        name_key L key ` set (host_names L hosts) \<inter> name_key L key ` set (host_names L hosts') = {}) \<and>
     (\<forall>i n. dw_nodes w i = Some n \<longrightarrow> addr (getK8sNodeIP n)) \<and>
     (\<forall>i j n n'. dw_nodes w i = Some n \<longrightarrow> dw_nodes w j = Some n' \<longrightarrow> i \<noteq> j \<longrightarrow> getK8sNodeIP n \<noteq> getK8sNodeIP n')"

fun gentle :: "'n name_lib \<Rightarrow> (string \<Rightarrow> string) \<Rightarrow> dns_event \<Rightarrow> bool" where
  "gentle L key (NodeUpdated old new) \<longleftrightarrow> is_edge old = is_edge new \<and> getK8sNodeIP old = getK8sNodeIP new"
| "gentle L key (IngressUpdated old new) \<longleftrightarrow>
     (\<forall>h \<in> set old. \<forall>h' \<in> set new. \<forall>d d'. nameFromString L h = Inr d \<longrightarrow> nameFromString L h' = Inr d' \<longrightarrow>
        name_key L key d = name_key L key d' \<longrightarrow> h = h')"
| "gentle L key _ \<longleftrightarrow> True"

inductive cluster_run :: "'n name_lib \<Rightarrow> (string \<Rightarrow> string) \<Rightarrow> (string \<Rightarrow> bool) \<Rightarrow> dns_world \<Rightarrow> dns_event list \<Rightarrow> dns_world \<Rightarrow> bool"
  for L key addr w0 where
  run_start: "tidy L key addr w0 \<Longrightarrow> cluster_run L key addr w0 [] w0"
| run_event: "cluster_run L key addr w0 es w \<Longrightarrow> cluster_event w e w' \<Longrightarrow> gentle L key e \<Longrightarrow> tidy L key addr w' \<Longrightarrow>
    cluster_run L key addr w0 (es @ [e]) w'"


text \<open>What the rest of a map contributes beside one key.\<close>

definition others :: "('a \<Rightarrow> 'b set) \<Rightarrow> ('k \<rightharpoonup> 'a) \<Rightarrow> 'k \<Rightarrow> 'b set" where
  "others f m i = (\<Union>x \<in> {x. \<exists>j. j \<noteq> i \<and> m j = Some x}. f x)"

lemma ran_split: "(\<Union>x \<in> ran m. f x) = (case m i of None \<Rightarrow> {} | Some x \<Rightarrow> f x) \<union> others f m i"
  by (auto simp: others_def ran_def split: option.splits) (metis option.inject option.discI)+

lemma others_upd [simp]: "others f (m(i := v)) i = others f m i"
  by (auto simp: others_def)

context dns_server
begin

definition follows where
  "follows w s \<longleftrightarrow> nk ` set (sy_ingressDomains s) = world_hosts L key (sy_zoneName s) w \<and> set (sy_edgeNodeIPs s) = world_ips w"

lemma addNode_ips: "dns_addNode L H n (s, z) = (s', z') \<Longrightarrow>
    set (sy_edgeNodeIPs s') = set (sy_edgeNodeIPs s) \<union> ({getK8sNodeIP n} - {''''}) \<and> sy_zoneName s' = sy_zoneName s \<and> sy_ingressDomains s' = sy_ingressDomains s"
  by (auto simp: dns_addNode_def Let_def split: if_splits)

lemma deleteNode_ips: "distinct (sy_edgeNodeIPs s) \<Longrightarrow> '''' \<notin> set (sy_edgeNodeIPs s) \<Longrightarrow> dns_deleteNode L H n (s, z) = (s', z') \<Longrightarrow>
    set (sy_edgeNodeIPs s') = set (sy_edgeNodeIPs s) - {getK8sNodeIP n} \<and> sy_zoneName s' = sy_zoneName s \<and> sy_ingressDomains s' = sy_ingressDomains s"
  by (auto simp: dns_deleteNode_def Let_def split: if_splits)

lemma collected_keys:
  "collect_domains L s b hosts = Some ds \<Longrightarrow>
     nk ` set ds = {k \<in> zone_hosts L key (sy_zoneName s) hosts. (k \<in> nk ` set (sy_ingressDomains s)) = b}"
  by (drule collect_domains_names) (auto simp: zone_hosts_def has_domain)

lemma filter_keys: "nk ` set (filter (\<lambda>x. nk x \<notin> K) ds) = nk ` set ds - K"
  by auto

lemma new_ingress_domains:
  assumes "\<forall>h \<in> set hosts. \<exists>d. nameFromString L h = Inr d" "OnNewIngress L H hosts (s, z) = (s', z')"
  shows "nk ` set (sy_ingressDomains s') = nk ` set (sy_ingressDomains s) \<union> zone_hosts L key (sy_zoneName s) hosts
    \<and> sy_zoneName s' = sy_zoneName s \<and> sy_edgeNodeIPs s' = sy_edgeNodeIPs s"
proof -
  from collect_domains_total [OF assms(1)] obtain ds where ds: "collect_domains L s False hosts = Some ds" by blast
  with assms(2) have s': "s' = s\<lparr>sy_ingressDomains := sy_ingressDomains s @ ds\<rparr>" by (simp add: OnNewIngress_def)
  have "nk ` set (sy_ingressDomains s') = nk ` set (sy_ingressDomains s) \<union> nk ` set ds" by (simp add: s' image_Un)
  with collected_keys [OF ds] show ?thesis by (auto simp: s')
qed

lemma delete_ingress_domains:
  assumes "\<forall>h \<in> set hosts. \<exists>d. nameFromString L h = Inr d" "distinct (map nk (sy_ingressDomains s))" "OnDeleteIngress L H hosts (s, z) = (s', z')"
  shows "nk ` set (sy_ingressDomains s') = nk ` set (sy_ingressDomains s) - zone_hosts L key (sy_zoneName s) hosts
    \<and> sy_zoneName s' = sy_zoneName s \<and> sy_edgeNodeIPs s' = sy_edgeNodeIPs s"
proof -
  from collect_domains_total [OF assms(1)] obtain ds where ds: "collect_domains L s True hosts = Some ds" by blast
  with assms(2,3) have s': "s' = s\<lparr>sy_ingressDomains := filter (\<lambda>x. nk x \<notin> nk ` set ds) (sy_ingressDomains s)\<rparr>"
    by (auto simp: OnDeleteIngress_def delete_domains)
  have "nk ` set (sy_ingressDomains s') = nk ` set (sy_ingressDomains s) - nk ` set ds"
    by (simp add: s' filter_keys del: set_filter)
  with collected_keys [OF ds] show ?thesis by (auto simp: s')
qed

lemma update_ingress_domains:
  assumes h: "\<forall>h \<in> set old. \<exists>d. nameFromString L h = Inr d" "\<forall>h \<in> set new. \<exists>d. nameFromString L h = Inr d"
    and d: "distinct (map nk (sy_ingressDomains s))" and r: "OnUpdateIngress L H old new (s, z) = (s', z')"
  shows "nk ` set (sy_ingressDomains s') =
      (nk ` set (sy_ingressDomains s) - zone_hosts L key (sy_zoneName s) (filter (\<lambda>h. h \<notin> set new) old))
      \<union> (zone_hosts L key (sy_zoneName s) (filter (\<lambda>h. h \<notin> set old) new) - nk ` set (sy_ingressDomains s))
    \<and> sy_zoneName s' = sy_zoneName s \<and> sy_edgeNodeIPs s' = sy_edgeNodeIPs s"
proof -
  from collect_domains_total [of "filter (\<lambda>h. h \<notin> set new) old" L s True] h(1)
  obtain os where o: "collect_domains L s True (filter (\<lambda>h. h \<notin> set new) old) = Some os" by auto
  from collect_domains_total [of "filter (\<lambda>h. h \<notin> set old) new" L s False] h(2)
  obtain ns where n: "collect_domains L s False (filter (\<lambda>h. h \<notin> set old) new) = Some ns" by auto
  from r o n d have s': "s' = s\<lparr>sy_ingressDomains := filter (\<lambda>x. nk x \<notin> nk ` set os) (sy_ingressDomains s) @ ns\<rparr>"
    by (auto simp: OnUpdateIngress_def diffK8sIngressRules_def delete_domains split: if_splits)
  have "nk ` set (sy_ingressDomains s') = (nk ` set (sy_ingressDomains s) - nk ` set os) \<union> nk ` set ns"
    by (simp add: s' image_Un filter_keys del: set_filter)
  with collected_keys [OF o] collected_keys [OF n] show ?thesis by (auto simp: s')
qed

end


lemma zone_hosts_sub: "zone_hosts L key zn hosts \<subseteq> name_key L key ` set (host_names L hosts)"
  by (auto simp: zone_hosts_def)

lemma zone_hosts_others:
  assumes t: "tidy L key addr w" and i: "dw_ingresses w i = Some hosts"
  shows "zone_hosts L key zn hosts \<inter> others (zone_hosts L key zn) (dw_ingresses w) i = {}"
proof (rule equals0I)
  fix k assume k: "k \<in> zone_hosts L key zn hosts \<inter> others (zone_hosts L key zn) (dw_ingresses w) i"
  then obtain j hosts' where j: "j \<noteq> i" "dw_ingresses w j = Some hosts'" and "k \<in> zone_hosts L key zn hosts'"
    by (auto simp: others_def)
  with k have "k \<in> name_key L key ` set (host_names L hosts) \<inter> name_key L key ` set (host_names L hosts')"
    using zone_hosts_sub by fastforce
  with t i j show False by (auto simp: tidy_def)
qed

lemma edge_ips_others:
  "tidy L key addr w \<Longrightarrow> dw_nodes w i = Some n \<Longrightarrow> getK8sNodeIP n \<notin> others edge_ips (dw_nodes w) i"
  by (auto simp: tidy_def others_def edge_ips_def split: if_splits)

lemma zone_hosts_partition: "zone_hosts L key zn (filter P hosts) \<union> zone_hosts L key zn (filter (\<lambda>h. \<not> P h) hosts) = zone_hosts L key zn hosts"
  by (auto simp: zone_hosts_def set_host_names)

lemma host_names_inj:
  "distinct (map f (host_names L hosts)) \<Longrightarrow> h \<in> set hosts \<Longrightarrow> h' \<in> set hosts \<Longrightarrow>
     nameFromString L h = Inr d \<Longrightarrow> nameFromString L h' = Inr d' \<Longrightarrow> f d = f d' \<Longrightarrow> h = h'"
proof (induction hosts)
  case (Cons x hosts)
  have "f y \<in> f ` set (host_names L hosts)" if "g \<in> set hosts" "nameFromString L g = Inr y" for g y
    using that set_host_names [of y L hosts] by blast
  with Cons show ?case by (auto simp: host_names_Cons) metis+
qed simp

lemma zone_hosts_disjoint:
  assumes "\<And>h h' d d'. h \<in> set xs \<Longrightarrow> h' \<in> set ys \<Longrightarrow> nameFromString L h = Inr d \<Longrightarrow> nameFromString L h' = Inr d' \<Longrightarrow>
    name_key L key d \<noteq> name_key L key d'"
  shows "zone_hosts L key zn xs \<inter> zone_hosts L key zn ys = {}"
  using assms by (auto simp: zone_hosts_def set_host_names)

lemma world_hosts_split: "world_hosts L key zn w =
    (case dw_ingresses w i of None \<Rightarrow> {} | Some hosts \<Rightarrow> zone_hosts L key zn hosts) \<union> others (zone_hosts L key zn) (dw_ingresses w) i"
  unfolding world_hosts_def by (rule ran_split)

lemma world_ips_split: "world_ips w =
    (case dw_nodes w i of None \<Rightarrow> {} | Some n \<Rightarrow> edge_ips n) \<union> others edge_ips (dw_nodes w) i"
  unfolding world_ips_def by (rule ran_split)

lemma tidy_hosts: "tidy L key addr w \<Longrightarrow> dw_ingresses w i = Some hosts \<Longrightarrow> \<forall>h \<in> set hosts. \<exists>d. nameFromString L h = Inr d"
  and tidy_distinct: "tidy L key addr w \<Longrightarrow> dw_ingresses w i = Some hosts \<Longrightarrow> distinct (map (name_key L key) (host_names L hosts))"
  unfolding tidy_def by blast+

lemma tidy_addr: "tidy L key addr w \<Longrightarrow> dw_nodes w i = Some n \<Longrightarrow> addr (getK8sNodeIP n)"
  unfolding tidy_def by blast

lemma updated_hosts:
  assumes t: "tidy L key addr w" "tidy L key addr (w\<lparr>dw_ingresses := (dw_ingresses w)(i \<mapsto> new)\<rparr>)" and i: "dw_ingresses w i = Some old"
    and g: "gentle L key (IngressUpdated old new)"
  shows "(world_hosts L key zn w - zone_hosts L key zn (filter (\<lambda>h. h \<notin> set new) old))
      \<union> (zone_hosts L key zn (filter (\<lambda>h. h \<notin> set old) new) - world_hosts L key zn w) =
    world_hosts L key zn (w\<lparr>dw_ingresses := (dw_ingresses w)(i \<mapsto> new)\<rparr>)"
proof -
  let ?Z = "zone_hosts L key zn" let ?R = "others ?Z (dw_ingresses w) i"
  let ?gone = "filter (\<lambda>h. h \<notin> set new) old" and ?stay = "filter (\<lambda>h. h \<in> set new) old" and ?new = "filter (\<lambda>h. h \<notin> set old) new"
  have "?Z ?stay = ?Z (filter (\<lambda>h. h \<in> set old) new)" by (auto simp: zone_hosts_def set_host_names)
  then have n: "?Z new = ?Z ?stay \<union> ?Z ?new" using zone_hosts_partition [of L key zn "\<lambda>h. h \<in> set old" new] by simp
  have o: "?Z old = ?Z ?stay \<union> ?Z ?gone" using zone_hosts_partition [of L key zn "\<lambda>h. h \<in> set new" old] by simp
  have "?Z ?stay \<inter> ?Z ?gone = {}"
    by (rule zone_hosts_disjoint, clarsimp) (metis host_names_inj [OF tidy_distinct [OF t(1) i]])
  moreover have "?Z old \<inter> ?Z ?new = {}" by (rule zone_hosts_disjoint) (use g in auto)
  moreover have "?Z old \<inter> ?R = {}" by (rule zone_hosts_others [OF t(1) i])
  moreover have "?Z new \<inter> ?R = {}" using zone_hosts_others [OF t(2), of i new zn] by simp
  ultimately show ?thesis unfolding world_hosts_split [of L key zn _ i] using i n o by auto
qed

context dns_server
begin

lemma follows_node:
  assumes f: "follows w s" and s': "sy_zoneName s' = sy_zoneName s \<and> sy_ingressDomains s' = sy_ingressDomains s"
    and w': "dw_ingresses w' = dw_ingresses w" and ips: "set (sy_edgeNodeIPs s') = world_ips w'"
  shows "follows w' s'"
  using assms by (simp add: follows_def world_hosts_def)

lemma follows_ingress:
  assumes f: "follows w s" and s': "sy_zoneName s' = sy_zoneName s \<and> sy_edgeNodeIPs s' = sy_edgeNodeIPs s"
    and w': "dw_nodes w' = dw_nodes w" and hosts: "nk ` set (sy_ingressDomains s') = world_hosts L key (sy_zoneName s) w'"
  shows "follows w' s'"
  using assms by (simp add: follows_def world_ips_def)

lemma no_empty_ip: "follows w s \<Longrightarrow> '''' \<notin> set (sy_edgeNodeIPs s)"
  by (auto simp: follows_def world_ips_def edge_ips_def split: if_splits)

lemma follows_new_node:
  assumes f: "follows w s" and r: "dns_handle L H (NodeCreated n) (s, z) = (s', z')"
    and w': "dw_ingresses w' = dw_ingresses w" "world_ips w' = world_ips w \<union> edge_ips n"
  shows "follows w' s'"
proof -
  have "sy_zoneName s' = sy_zoneName s \<and> sy_ingressDomains s' = sy_ingressDomains s \<and> set (sy_edgeNodeIPs s') = set (sy_edgeNodeIPs s) \<union> edge_ips n"
    using r by (auto simp: OnNewNode_def edge_ips_def dest!: addNode_ips split: if_splits)
  then show ?thesis by (intro follows_node [OF f]) (use f w' in \<open>auto simp: follows_def\<close>)
qed

lemma follows_step:
  assumes ok: "served s z" and f: "follows w s" and t: "tidy L key addr w" "tidy L key addr w'"
    and ev: "cluster_event w e w'" and g: "gentle L key e" and r: "dns_handle L H e (s, z) = (s', z')"
  shows "follows w' s'"
proof -
  from ok have d: "distinct (map nk (sy_ingressDomains s))" "distinct (sy_edgeNodeIPs s)" by (auto simp: served_def syncer_ok_def)
  note del = deleteNode_ips [OF d(2) no_empty_ip [OF f]]
  show ?thesis using ev
  proof cases
    case (ingress_created i hosts)
    with new_ingress_domains [of hosts s z s' z'] r tidy_hosts [OF t(2), of i hosts]
    have n: "nk ` set (sy_ingressDomains s') = nk ` set (sy_ingressDomains s) \<union> zone_hosts L key (sy_zoneName s) hosts"
      and k: "sy_zoneName s' = sy_zoneName s \<and> sy_edgeNodeIPs s' = sy_edgeNodeIPs s" by auto
    with f ingress_created show ?thesis
      by (intro follows_ingress [OF f k]) (auto simp: follows_def world_hosts_split [of L key _ _ i])
  next
    case (ingress_updated i old new)
    with update_ingress_domains [of old new s z s' z'] r d tidy_hosts [OF t(1), of i old] tidy_hosts [OF t(2), of i new]
    have n: "nk ` set (sy_ingressDomains s') = (nk ` set (sy_ingressDomains s) - zone_hosts L key (sy_zoneName s) (filter (\<lambda>h. h \<notin> set new) old))
        \<union> (zone_hosts L key (sy_zoneName s) (filter (\<lambda>h. h \<notin> set old) new) - nk ` set (sy_ingressDomains s))"
      and k: "sy_zoneName s' = sy_zoneName s \<and> sy_edgeNodeIPs s' = sy_edgeNodeIPs s" by auto
    with f ingress_updated updated_hosts [of L key addr w i new old "sy_zoneName s"] t g show ?thesis
      by (intro follows_ingress [OF f k]) (auto simp: follows_def)
  next
    case (ingress_deleted i hosts)
    with delete_ingress_domains [of hosts s z s' z'] r d tidy_hosts [OF t(1), of i hosts]
    have n: "nk ` set (sy_ingressDomains s') = nk ` set (sy_ingressDomains s) - zone_hosts L key (sy_zoneName s) hosts"
      and k: "sy_zoneName s' = sy_zoneName s \<and> sy_edgeNodeIPs s' = sy_edgeNodeIPs s" by auto
    with f ingress_deleted zone_hosts_others [OF t(1), of i hosts "sy_zoneName s"] show ?thesis
      by (intro follows_ingress [OF f k]) (auto simp: follows_def world_hosts_split [of L key _ _ i])
  next
    case (node_listed i n)
    with r show ?thesis by (intro follows_new_node [OF f]) (auto simp: world_ips_split [of w i])
  next
    case (node_created i n)
    with r show ?thesis by (intro follows_new_node [OF f]) (auto simp: world_ips_split [of _ i])
  next
    case (node_updated i old new)
    with edge_ips_others [OF t(1), of i old] g r f show ?thesis
      by (intro follows_node [OF f])
         (auto simp: follows_def OnUpdateNode_def edge_ips_def world_ips_split [of _ i] dest!: addNode_ips del split: if_splits)
  next
    case (node_deleted i n)
    with edge_ips_others [OF t(1), of i n] r f show ?thesis
      by (intro follows_node [OF f])
         (auto simp: follows_def OnDeleteNode_def edge_ips_def world_ips_split [of _ i] dest!: del split: if_splits)
  qed
qed

end

context dns_server
begin

lemma init_ips:
  "foldl (\<lambda>sz n. OnNewNode L H n sz) (s, z) nodes = (s', z') \<Longrightarrow>
     set (sy_edgeNodeIPs s') = set (sy_edgeNodeIPs s) \<union> {getK8sNodeIP n |n. n \<in> set nodes \<and> isNodeReady n \<and> getK8sNodeIP n \<noteq> ''''} \<and>
     sy_ingressDomains s' = sy_ingressDomains s"
proof (induction nodes arbitrary: s z)
  case (Cons n nodes)
  obtain s1 z1 where r: "OnNewNode L H n (s, z) = (s1, z1)" by force
  then have "set (sy_edgeNodeIPs s1) = set (sy_edgeNodeIPs s) \<union> (if isNodeReady n then {getK8sNodeIP n} - {''''} else {})"
    "sy_ingressDomains s1 = sy_ingressDomains s"
    by (auto simp: OnNewNode_def dest!: addNode_ips split: if_splits)
  with Cons.IH [of s1 z1] Cons.prems r show ?case by (auto split: if_splits)
qed simp

lemma follows_initially:
  assumes i: "initClusterDNSSyncer L H (Inr nodes) zn z = (z', Inr s)"
    and n: "set nodes = {n \<in> ran (dw_nodes w). is_edge n}" and w: "dw_ingresses w = Map.empty"
  shows "follows w s"
proof -
  from i obtain z1 where "foldl (\<lambda>sz n. OnNewNode L H n sz) (\<lparr>sy_zoneName = zn, sy_edgeNodeIPs = [], sy_ingressDomains = []\<rparr>, z1) nodes = (s, z')"
    by (auto simp: initClusterDNSSyncer_def split: prod.splits option.splits)
  from init_ips [OF this] n w show ?thesis by (auto simp: follows_def world_ips_def edge_ips_def world_hosts_def)
qed

lemma plain_from_tidy:
  "cluster_event w e w' \<Longrightarrow> tidy L key addr w \<Longrightarrow> tidy L key addr w' \<Longrightarrow> plain_event L key addr e"
proof (induction rule: cluster_event.induct)
  case (ingress_created w i hosts)
  then show ?case using tidy_distinct [of L key addr _ i hosts] by (auto simp: plain_event_def)
next
  case (ingress_updated w i old new)
  then show ?case using tidy_distinct [of L key addr w i old] tidy_distinct [OF ingress_updated(3), of i new] by (simp add: plain_event_def)
next
  case (node_created w i n)
  then show ?case using tidy_addr [OF node_created(3), of i n] by (simp add: plain_event_def)
next
  case (node_updated w i old new)
  then show ?case using tidy_addr [OF node_updated(3), of i new] by (simp add: plain_event_def)
qed (simp_all add: plain_event_def tidy_distinct tidy_addr)

lemma run_follows:
  assumes "cluster_run L key addr w0 es w" "served s0 z0" "follows w0 s0" "foldl (\<lambda>sz e. dns_handle L H e sz) (s0, z0) es = (s, z)"
  shows "tidy L key addr w \<and> follows w s \<and> step_ok s0 z0 s z"
  using assms
proof (induction arbitrary: s z rule: cluster_run.induct)
  case (run_event es w e w')
  obtain s1 z1 where r: "foldl (\<lambda>sz e. dns_handle L H e sz) (s0, z0) es = (s1, z1)" by force
  with run_event have t: "tidy L key addr w" "follows w s1" and k: "step_ok s0 z0 s1 z1" by auto
  from r run_event.prems have h: "dns_handle L H e (s1, z1) = (s, z)" by simp
  have o: "served s1 z1" using k by (simp add: step_ok_def)
  from step_handle [OF o plain_from_tidy [OF run_event.hyps(2) t(1) run_event.hyps(4)] h] have "step_ok s1 z1 s z" .
  with k have "step_ok s0 z0 s z" by (auto simp: step_ok_def)
  moreover have "follows w' s" by (rule follows_step [OF o t(2,1) run_event.hyps(4,2,3) h])
  ultimately show ?case using run_event.hyps by blast
qed auto

end

section \<open>A server in memory\<close>

definition ascii_lower :: "string \<Rightarrow> string" where
  "ascii_lower = map (\<lambda>c. if CHR ''A'' \<le> c \<and> c \<le> CHR ''Z'' then char_of (of_char c + (32 :: nat)) else c)"

definition text_names :: "string name_lib" where
  "text_names = \<lparr>nameFromString = (\<lambda>s. if s = '''' then Inl ''empty name'' else Inr s), nameString = (\<lambda>s. s),
     nameEquals = (\<lambda>a b. ascii_lower a = ascii_lower b),
     isSubDomain = (\<lambda>d z. ascii_lower d = ascii_lower z \<or> drop (length d - (length z + 1)) (ascii_lower d) = CHR ''.'' # ascii_lower z)\<rparr>"

definition put_rr :: "auth_rr \<Rightarrow> (string \<rightharpoonup> (string \<times> string) set) \<Rightarrow> (string \<rightharpoonup> (string \<times> string) set)" where
  "put_rr rr z = (let k = ascii_lower (rr_Zone rr) in z(k := map_option (insert (rr_pair ascii_lower rr)) (z k)))"

definition drop_rr :: "auth_rr \<Rightarrow> (string \<rightharpoonup> (string \<times> string) set) \<Rightarrow> (string \<rightharpoonup> (string \<times> string) set)" where
  "drop_rr rr z = (let k = ascii_lower (rr_Zone rr) in z(k := map_option (\<lambda>S. S - {rr_pair ascii_lower rr}) (z k)))"

fun mem_dns :: "(string \<rightharpoonup> (string \<times> string) set) dns_proxy" where
  "mem_dns Ping z = (z, None)"
| "mem_dns (AddAuthZoneCmd n) z = (if z (ascii_lower n) = None then (z(ascii_lower n \<mapsto> {}), None) else (z, Some ''duplicate zone''))"
| "mem_dns (DeleteAuthZoneCmd n) z = (z(ascii_lower n := None), if z (ascii_lower n) = None then Some ''unknown zone'' else None)"
| "mem_dns (AddAuthRrsCmd rrs) z = (fold put_rr rrs z, None)"
| "mem_dns (DeleteAuthRrsCmd rrs) z = (fold drop_rr rrs z, None)"
| "mem_dns (UpdateAuthRrsCmd old new) z = (fold put_rr new (fold drop_rr old z), None)"

lemma fold_put_rr: "z k = Some S \<Longrightarrow> \<forall>rr \<in> set rrs. ascii_lower (rr_Zone rr) = k \<Longrightarrow>
    fold put_rr rrs z = z(k \<mapsto> S \<union> rr_pair ascii_lower ` set rrs)"
  by (induction rrs arbitrary: z S) (auto simp: put_rr_def fun_upd_idem)

lemma fold_drop_rr: "z k = Some S \<Longrightarrow> \<forall>rr \<in> set rrs. ascii_lower (rr_Zone rr) = k \<Longrightarrow>
    fold drop_rr rrs z = z(k \<mapsto> S - rr_pair ascii_lower ` set rrs)"
  by (induction rrs arbitrary: z S) (auto simp: drop_rr_def fun_upd_idem Diff_insert2 [symmetric] intro: arg_cong)

lemma plain_zone: "plain_rrs key addr k rrs \<Longrightarrow> \<forall>rr \<in> set rrs. key (rr_Zone rr) = k"
  by (simp add: plain_rrs_def list_all_iff)

interpretation mem_dns: dns_server text_names mem_dns "\<lambda>z. z" ascii_lower "\<lambda>a. True"
proof unfold_locales
  fix z :: "string \<rightharpoonup> (string \<times> string) set" and k S old new
  assume "z k = Some S" "plain_rrs ascii_lower (\<lambda>a. True) k old" "plain_rrs ascii_lower (\<lambda>a. True) k new"
  then show "fst (mem_dns (UpdateAuthRrsCmd old new) z) = z(k \<mapsto> S - rr_pair ascii_lower ` set old \<union> rr_pair ascii_lower ` set new)"
    by (simp add: fold_drop_rr fold_put_rr [of "z(k \<mapsto> S - rr_pair ascii_lower ` set old)" k] plain_zone)
qed (auto simp: text_names_def fold_put_rr fold_drop_rr dest!: plain_zone)

section \<open>Properties\<close>



definition edge_node :: node_body where
  "edge_node = \<lparr>nb_Labels = [(EdgeNodeLabel, ''true'')], nb_Annotations = [], nb_Unschedulable = False, nb_Taints = [],
     nb_Addresses = [(''Hostname'', ''n1''), (''InternalIP'', ''10.0.0.1'')], nb_Cpu = 0, nb_Memory = 0, nb_Pods = 0,
     nb_OperatingSystem = '''', nb_KernelVersion = '''', nb_OSImage = '''', nb_ContainerRuntimeVersion = '''', nb_Conditions = [(''Ready'', ''True'')]\<rparr>"

definition sample_cache :: dns_cache where
  "sample_cache = \<lparr>dc_clusterConfig = Inr [''cluster-config'' \<mapsto> Json ''c.cn''], dc_edgeNodes = Inr [edge_node]\<rparr>"

definition sample_syncer :: "string list \<Rightarrow> string syncer" where
  "sample_syncer ds = \<lparr>sy_zoneName = ''c.cn'', sy_edgeNodeIPs = [''10.0.0.1''], sy_ingressDomains = ds\<rparr>"

lemma edge_node_facts: "getK8sNodeIP edge_node = ''10.0.0.1''" "isNodeReady edge_node" "is_edge edge_node"
  by (simp_all add: edge_node_def getK8sNodeIP_def isNodeReady_def)

lemma sample_init: "initClusterDNSSyncer text_names mem_dns (Inr [edge_node]) ''c.cn'' Map.empty = ([''c.cn'' \<mapsto> {}], Inr (sample_syncer []))"
proof -
  have "ascii_lower ''c.cn'' = ''c.cn''" by code_simp
  then show ?thesis
    by (simp add: initClusterDNSSyncer_def AddAuthZone_def text_names_def OnNewNode_def dns_addNode_def edge_node_facts AddAuthRRs_def sample_syncer_def)
qed

lemma sample_ingress: "dns_handle text_names mem_dns (IngressCreated [''A.c.cn'']) (sample_syncer [], z) =
    (sample_syncer [''A.c.cn''], fst (AddAuthRRs text_names mem_dns ''c.cn'' [''A.c.cn''] [''10.0.0.1''] z))"
proof -
  have "isSubDomain text_names ''A.c.cn'' ''c.cn''" by code_simp
  then show ?thesis
    by (simp add: OnNewIngress_def k8sIngressHostToSCDomain_def hasIngressDomain_def text_names_def sample_syncer_def)
qed



definition sample_dns_world :: "string list option \<Rightarrow> dns_world" where
  "sample_dns_world hosts = \<lparr>dw_ingresses = Map.empty(''web'' := hosts), dw_nodes = [''n1'' \<mapsto> edge_node]\<rparr>"


end
