(* ===== verification/Alarm.thy ===== *)
theory Alarm
  imports Kvzoo "HOL-Library.Sublist"
begin

text \<open>
  The alarms (\<^verbatim>\<open>pkg/alarm\<close>): a list in memory and a table, numbered by a counter; the sources of
  alarms (Kubernetes events of two components, and the program itself); the listeners behind the
  web sockets; the mail that goes with an alarm. An addition increments the counter only after it
  released the lock, so the two halves of an addition are steps of their own. Time is given: the
  start of a month before now is an argument.
\<close>

section \<open>Data\<close>

record alarm =
  am_ID :: string
  am_UID :: uint64
  am_Time :: time
  am_Cluster :: string
  am_Type :: string
  am_Namespace :: string
  am_Kind :: string
  am_Name :: string
  am_Reason :: string
  am_Message :: string
  am_Acknowledged :: bool

abbreviation EventType :: string where "EventType \<equiv> ''Event''"
abbreviation ZcloudType :: string where "ZcloudType \<equiv> ''Alarm''"

definition new_alarm :: "time \<Rightarrow> alarm" where
  "new_alarm now = \<lparr>am_ID = '''', am_UID = 0, am_Time = now, am_Cluster = '''', am_Type = '''', am_Namespace = '''', am_Kind = '''',
     am_Name = '''', am_Reason = '''', am_Message = '''', am_Acknowledged = False\<rparr>"

record mail_from =
  mf_User :: string
  mf_Password :: string
  mf_Host :: string
  mf_Port :: int

record threshold =
  th_ID :: string
  th_Cpu :: int
  th_Memory :: int
  th_Storage :: int
  th_PodCount :: int
  th_MailFrom :: mail_from
  th_MailTo :: "string list"

abbreviation ThresholdTable :: string where "ThresholdTable \<equiv> ''threshold''"

text \<open>The counter, the list from the oldest alarm to the newest, and the table.\<close>

record 'd alarm_cache =
  ac_eventID :: uint64
  ac_alarmList :: "alarm list"
  ac_table :: 'd

type_synonym ('d, 'tx) alarm_table = "('d, 'tx, alarm json) kvzoo"
type_synonym ('t, 'tx) threshold_table = "('t, 'tx, threshold json) kvzoo"

abbreviation MaxAlarmCount :: nat where "MaxAlarmCount \<equiv> 1000"

section \<open>The table\<close>

definition addAlarmToDB :: "('d, 'tx) alarm_table \<Rightarrow> alarm \<Rightarrow> 'd \<Rightarrow> 'd \<times> goerr option" where
  "addAlarmToDB T a = kv_write T (\<lambda>e. ''begin transaction failed: '' @ e) id
     (\<lambda>tx. map_err id (kvAdd T tx (formatUint (am_UID a)) (json_marshal a)))"

definition updateAlarmToDB :: "('d, 'tx) alarm_table \<Rightarrow> alarm \<Rightarrow> 'd \<Rightarrow> 'd \<times> goerr option" where
  "updateAlarmToDB T a = kv_write T (\<lambda>e. ''begin transaction failed: '' @ e) id
     (\<lambda>tx. map_err id (kvUpdate T tx (formatUint (am_UID a)) (json_marshal a)))"

definition getAlarmsFromDB :: "('d, 'tx) alarm_table \<Rightarrow> 'd \<Rightarrow> goerr + alarm list" where
  "getAlarmsFromDB T d =
     (case kv_read T id (\<lambda>tx. map_err id (kvList T tx)) d of
        Inl e \<Rightarrow> Inl e
      | Inr values \<Rightarrow> (case unmarshal_all (map snd values) of Inl e \<Rightarrow> Inl e | Inr alarms \<Rightarrow> Inr (sort_key am_UID alarms)))"

definition deleteAlarmFromDB :: "('d, 'tx) alarm_table \<Rightarrow> string \<Rightarrow> 'd \<Rightarrow> 'd \<times> goerr option" where
  "deleteAlarmFromDB T k = kv_write T id id (\<lambda>tx. map_err id (kvDelete T tx k))"

text \<open>A missing threshold is told apart from other errors.\<close>

datatype read_error = ErrNotFound | ReadError goerr

fun read_text :: "read_error \<Rightarrow> goerr" where
  "read_text ErrNotFound = ''key not found''"
| "read_text (ReadError e) = e"

definition getThresholdFromDB :: "('t, 'tx) threshold_table \<Rightarrow> string \<Rightarrow> 't \<Rightarrow> read_error + threshold" where
  "getThresholdFromDB T name d =
     (case kvBegin T d of
        Inl e \<Rightarrow> Inl (ReadError e)
      | Inr tx \<Rightarrow>
          (case kvGet T tx name of
             Inl e \<Rightarrow> Inl (ReadError e)
           | Inr None \<Rightarrow> Inl ErrNotFound
           | Inr (Some value) \<Rightarrow> (case json_unmarshal value of Inl e \<Rightarrow> Inl (ReadError e) | Inr t \<Rightarrow> Inr t)))"

section \<open>Mail\<close>

record mail =
  ml_From :: string
  ml_To :: "string list"
  ml_Subject :: string
  ml_Body :: "alarm json"
  ml_Host :: string
  ml_Port :: int
  ml_Password :: string

definition genMessage :: "alarm \<Rightarrow> alarm json" where
  "genMessage a = json_marshal a"

text \<open>The mail an alarm is sent as, if any; \<open>dial\<close> delivers it. The first error message lacks an argument.\<close>

definition SendMail ::
  "('t, 'tx) threshold_table \<Rightarrow> (mail \<Rightarrow> goerr option) \<Rightarrow> alarm \<Rightarrow> 't \<Rightarrow> mail option \<times> goerr option" where
  "SendMail T dial a d =
     (case getThresholdFromDB T ThresholdTable d of
        Inl e \<Rightarrow> (None, Some (''get threshold '' @ read_text e @ '' failed: %!s(MISSING)''))
      | Inr t \<Rightarrow>
          (let f = th_MailFrom t
           in if length (mf_User f) = 0 \<or> length (mf_Host f) = 0 \<or> mf_Port f = 0 \<or> length (mf_Password f) = 0 \<or> length (th_MailTo t) = 0
              then (None, None)
              else (let m = \<lparr>ml_From = mf_User f, ml_To = th_MailTo t, ml_Subject = ''Singlecloud Alarm'', ml_Body = genMessage a,
                             ml_Host = mf_Host f, ml_Port = mf_Port f, ml_Password = mf_Password f\<rparr>
                    in (Some m, dial m))))"

section \<open>The cache\<close>

definition initFromDB :: "('d, 'tx) alarm_table \<Rightarrow> 'd \<Rightarrow> goerr + 'd alarm_cache" where
  "initFromDB T d =
     (case getAlarmsFromDB T d of
        Inl e \<Rightarrow> Inl e
      | Inr alarms \<Rightarrow> Inr \<lparr>ac_eventID = (if length alarms > 0 then am_UID (last alarms) else 0), ac_alarmList = alarms, ac_table = d\<rparr>)"

definition isRepeat :: "alarm \<Rightarrow> alarm \<Rightarrow> bool" where
  "isRepeat lastAlarm newAlarm \<longleftrightarrow>
     am_Cluster lastAlarm = am_Cluster newAlarm \<and> am_Namespace lastAlarm = am_Namespace newAlarm \<and> am_Kind lastAlarm = am_Kind newAlarm \<and>
     am_Reason lastAlarm = am_Reason newAlarm \<and> am_Message lastAlarm = am_Message newAlarm \<and> am_Name lastAlarm = am_Name newAlarm"

definition ClusterKinds :: "string list" where
  "ClusterKinds = [''Node'', ''node'', ''Cluster'', ''cluster'']"

text \<open>The numbers deleted from the table count up from the first one of the list.\<close>

fun delete_front :: "('d, 'tx) alarm_table \<Rightarrow> uint64 \<Rightarrow> nat \<Rightarrow> nat \<Rightarrow> 'd alarm_cache \<Rightarrow> 'd alarm_cache \<times> goerr option" where
  "delete_front T firstID i 0 c = (c, None)"
| "delete_front T firstID i (Suc n) c =
     (case deleteAlarmFromDB T (formatUint (of_nat i + firstID)) (ac_table c) of
        (d, Some e) \<Rightarrow> (c\<lparr>ac_table := d\<rparr>, Some e)
      | (d, None) \<Rightarrow> delete_front T firstID (Suc i) n (c\<lparr>ac_table := d, ac_alarmList := tl (ac_alarmList c)\<rparr>))"

definition delNum :: "time \<Rightarrow> alarm list \<Rightarrow> nat" where
  "delNum oneMonthLater alarms = 1 + length (takeWhile (\<lambda>a. \<not> oneMonthLater < am_Time a) (tl alarms))"

definition deleteoldest :: "('d, 'tx) alarm_table \<Rightarrow> time \<Rightarrow> 'd alarm_cache \<Rightarrow> 'd alarm_cache \<times> goerr option" where
  "deleteoldest T oneMonthLater c =
     delete_front T (am_UID (hd (ac_alarmList c))) 0 (delNum oneMonthLater (ac_alarmList c)) c"

text \<open>The part of an addition under the lock, with the alarm that was stored, and the rest.\<close>

definition clear_namespace :: "alarm \<Rightarrow> alarm" where
  "clear_namespace a = (if am_Kind a \<in> set ClusterKinds then a\<lparr>am_Namespace := ''''\<rparr> else a)"

definition stamp_alarm :: "uint64 \<Rightarrow> alarm \<Rightarrow> alarm" where
  "stamp_alarm uid a = a\<lparr>am_UID := uid, am_ID := formatUint uid\<rparr>"

definition add_locked :: "('d, 'tx) alarm_table \<Rightarrow> time \<Rightarrow> alarm \<Rightarrow> 'd alarm_cache \<Rightarrow> 'd alarm_cache \<times> alarm option" where
  "add_locked T oneMonthLater a0 c =
     (let a = clear_namespace a0; a' = stamp_alarm (ac_eventID c + 1) a
      in if length (ac_alarmList c) > 0 \<and> isRepeat (last (ac_alarmList c)) a then (c, None)
         else case addAlarmToDB T a' (ac_table c) of
           (d, Some e) \<Rightarrow> (c\<lparr>ac_table := d\<rparr>, None)
         | (d, None) \<Rightarrow>
             (let c' = c\<lparr>ac_table := d, ac_alarmList := ac_alarmList c @ [a']\<rparr>
              in (if length (ac_alarmList c') > MaxAlarmCount then fst (deleteoldest T oneMonthLater c') else c', Some a')))"

definition add_finish :: "'d alarm_cache \<Rightarrow> 'd alarm_cache" where
  "add_finish c = c\<lparr>ac_eventID := ac_eventID c + 1\<rparr>"

definition alarm_Add ::
  "('d, 'tx) alarm_table \<Rightarrow> ('t, 'tt) threshold_table \<Rightarrow> (mail \<Rightarrow> goerr option) \<Rightarrow> time \<Rightarrow> 't \<Rightarrow> alarm \<Rightarrow> 'd alarm_cache \<Rightarrow> 'd alarm_cache \<times> mail option" where
  "alarm_Add T TH dial oneMonthLater th a c =
     (case add_locked T oneMonthLater a c of
        (c', None) \<Rightarrow> (c', None)
      | (c', Some a') \<Rightarrow> (add_finish c', fst (SendMail TH dial a' th)))"

text \<open>Looking up by number from the nearer end.\<close>

definition getAlarmFromOutdated :: "uint64 \<Rightarrow> alarm list \<Rightarrow> nat option" where
  "getAlarmFromOutdated uid alarms = List.find (\<lambda>i. am_UID (alarms ! i) = uid) [0..<length alarms]"

definition getAlarmFromLatest :: "uint64 \<Rightarrow> alarm list \<Rightarrow> nat option" where
  "getAlarmFromLatest uid alarms = List.find (\<lambda>i. am_UID (alarms ! i) = uid) (rev [0..<length alarms])"

definition getAlarmFromList :: "uint64 \<Rightarrow> alarm list \<Rightarrow> nat option outcome" where
  "getAlarmFromList uid alarms =
     (case alarms of
        [] \<Rightarrow> Panicked ''nil pointer dereference''
      | first # _ \<Rightarrow>
          if uid - am_UID first < am_UID (last alarms) - uid then Done (getAlarmFromOutdated uid alarms)
          else Done (getAlarmFromLatest uid alarms))"

definition alarm_Update :: "('d, 'tx) alarm_table \<Rightarrow> alarm \<Rightarrow> 'd alarm_cache \<Rightarrow> 'd alarm_cache \<times> goerr option outcome" where
  "alarm_Update T a c =
     (case updateAlarmToDB T a (ac_table c) of
        (d, Some e) \<Rightarrow> (c\<lparr>ac_table := d\<rparr>, Done (Some e))
      | (d, None) \<Rightarrow>
          (case getAlarmFromList (am_UID a) (ac_alarmList c) of
             Panicked p \<Rightarrow> (c\<lparr>ac_table := d\<rparr>, Panicked p)
           | Done None \<Rightarrow> (c\<lparr>ac_table := d\<rparr>, Done (Some (''can not find alarm id '' @ formatUint (am_UID a))))
           | Done (Some i) \<Rightarrow>
               (c\<lparr>ac_table := d, ac_alarmList := (ac_alarmList c)[i := (ac_alarmList c ! i)\<lparr>am_Acknowledged := True\<rparr>]\<rparr>, Done None)))"

text \<open>An alarm of the cluster that cannot be deleted from the table stays in the list.\<close>

fun delete_of_cluster :: "('d, 'tx) alarm_table \<Rightarrow> string \<Rightarrow> alarm list \<Rightarrow> 'd \<Rightarrow> 'd \<times> alarm list" where
  "delete_of_cluster T cluster [] d = (d, [])"
| "delete_of_cluster T cluster (a # as) d =
     (if am_Cluster a = cluster
      then (case deleteAlarmFromDB T (formatUint (am_UID a)) d of
              (d', Some e) \<Rightarrow> (let (d'', as') = delete_of_cluster T cluster as d' in (d'', a # as'))
            | (d', None) \<Rightarrow> delete_of_cluster T cluster as d')
      else (let (d'', as') = delete_of_cluster T cluster as d in (d'', a # as')))"

definition deleteAlarmForCluster :: "('d, 'tx) alarm_table \<Rightarrow> string \<Rightarrow> 'd alarm_cache \<Rightarrow> 'd alarm_cache" where
  "deleteAlarmForCluster T cluster c =
     (let (d, as) = delete_of_cluster T cluster (ac_alarmList c) (ac_table c) in c\<lparr>ac_table := d, ac_alarmList := as\<rparr>)"

definition getUnAckNumber :: "'d alarm_cache \<Rightarrow> nat" where
  "getUnAckNumber c = length (filter (\<lambda>a. \<not> am_Acknowledged a) (rev (ac_alarmList c)))"

definition getAlarmsAfterID :: "uint64 \<Rightarrow> 'd alarm_cache \<Rightarrow> alarm list" where
  "getAlarmsAfterID lastID c = sort_key am_UID (takeWhile (\<lambda>a. am_UID a > lastID) (rev (ac_alarmList c)))"

section \<open>The manager\<close>

definition alarm_List :: "'d alarm_cache \<Rightarrow> alarm list" where
  "alarm_List c = rev (ac_alarmList c)"

definition alarm_Update_handler :: "('d, 'tx) alarm_table \<Rightarrow> alarm \<Rightarrow> 'd alarm_cache \<Rightarrow> 'd alarm_cache \<times> (api_error + alarm) outcome" where
  "alarm_Update_handler T a c =
     (case alarm_Update T a c of
        (c', Panicked p) \<Rightarrow> (c', Panicked p)
      | (c', Done (Some e)) \<Rightarrow>
          (c', Done (Inl (APIError ConnectClusterFailed (''update alarm id '' @ formatUint (am_UID a) @ '' to table failed: '' @ e))))
      | (c', Done None) \<Rightarrow> (c', Done (Inr a)))"

section \<open>The sources\<close>

record k8s_alarm_event =
  ke_LastTimestamp :: time
  ke_Source :: string
  ke_Namespace :: string
  ke_Kind :: string
  ke_Name :: string
  ke_Reason :: string
  ke_Message :: string

abbreviation resourceMonitorSource :: string where "resourceMonitorSource \<equiv> ''resource-monitor''"
abbreviation clusterAgentCollectorSource :: string where "clusterAgentCollectorSource \<equiv> ''cluster-agent-collector''"

definition checkEventTypeAndKind :: "k8s_alarm_event \<Rightarrow> bool" where
  "checkEventTypeAndKind e \<longleftrightarrow> ke_Source e \<in> set [resourceMonitorSource, clusterAgentCollectorSource]"

record event_cache =
  ec_cluster :: string
  ec_startTime :: time

definition k8sEventToAlarm :: "event_cache \<Rightarrow> k8s_alarm_event \<Rightarrow> alarm" where
  "k8sEventToAlarm ec e =
     (let a = (new_alarm (ke_LastTimestamp e))\<lparr>am_Cluster := ec_cluster ec, am_Namespace := ke_Namespace e, am_Kind := ke_Kind e,
            am_Name := ke_Name e, am_Reason := ke_Reason e, am_Message := ke_Message e\<rparr>;
          a = (if ke_Source e = resourceMonitorSource then a\<lparr>am_Type := EventType\<rparr> else a)
      in if ke_Source e = clusterAgentCollectorSource then a\<lparr>am_Type := ZcloudType\<rparr> else a)"

text \<open>The alarm of a created or changed Kubernetes event.\<close>

definition event_alarm :: "event_cache \<Rightarrow> k8s_alarm_event \<Rightarrow> alarm option" where
  "event_alarm ec e = (if ec_startTime ec < ke_LastTimestamp e \<and> checkEventTypeAndKind e then Some (k8sEventToAlarm ec e) else None)"

definition zcloud_alarm :: "alarm \<Rightarrow> alarm" where
  "zcloud_alarm a = a\<lparr>am_Type := ZcloudType\<rparr>"


section \<open>The listeners\<close>

text \<open>
  A listener keeps the last number it sent. One round of its loop sends what is newer, or waits
  (\<open>None\<close>); \<open>publish_all\<close> runs rounds until the loop waits. The other loop sends the number of
  alarms that are not acknowledged when it changed.
\<close>

definition publish_round :: "'d alarm_cache \<Rightarrow> uint64 \<times> alarm list \<Rightarrow> (uint64 \<times> alarm list) option" where
  "publish_round c l =
     (let (lastID, out) = l; alarms = getAlarmsAfterID lastID c; n = length alarms
      in if n = 0 then None else Some (lastID + of_nat n, out @ alarms))"

partial_function (option) publish_all :: "'d alarm_cache \<Rightarrow> uint64 \<times> alarm list \<Rightarrow> (uint64 \<times> alarm list) option" where
  "publish_all c l = (case publish_round c l of None \<Rightarrow> Some l | Some l' \<Rightarrow> publish_all c l')"

definition publish_ack :: "'d alarm_cache \<Rightarrow> nat \<times> nat list \<Rightarrow> (nat \<times> nat list) option" where
  "publish_ack c l = (let (unAck, out) = l; num = getUnAckNumber c in if unAck = num then None else Some (num, out @ [num]))"

section \<open>Runs\<close>

text \<open>The steps of the goroutines; \<open>pending\<close> counts the additions that have released the lock but not incremented the counter.\<close>

datatype alarm_op = AddLocked time alarm | AddFinish | UpdateAlarm alarm | ClusterGone string

fun alarm_step :: "('d, 'tx) alarm_table \<Rightarrow> alarm_op \<Rightarrow> 'd alarm_cache \<times> nat \<Rightarrow> 'd alarm_cache \<times> nat" where
  "alarm_step T (AddLocked oneMonthLater a) (c, pending) =
     (case add_locked T oneMonthLater a c of (c', None) \<Rightarrow> (c', pending) | (c', Some _) \<Rightarrow> (c', Suc pending))"
| "alarm_step T AddFinish (c, pending) = (if pending = 0 then (c, 0) else (add_finish c, pending - 1))"
| "alarm_step T (UpdateAlarm a) (c, pending) = (fst (alarm_Update T a c), pending)"
| "alarm_step T (ClusterGone cluster) (c, pending) = (deleteAlarmForCluster T cluster c, pending)"

section \<open>The invariant\<close>

text \<open>
  The list is ordered by number without repetition, no number is beyond the counter (one more while
  an addition is under way), and every alarm of the list is in the table; the table holds alarms
  under their numbers.
\<close>

definition keyed :: "(string \<rightharpoonup> alarm json) \<Rightarrow> bool" where
  "keyed V \<longleftrightarrow> (\<forall>k v. V k = Some v \<longrightarrow> (\<exists>a. v = Json a \<and> k = formatUint (am_UID a)))"

definition stored :: "(string \<rightharpoonup> alarm json) \<Rightarrow> alarm list \<Rightarrow> bool" where
  "stored V alarms \<longleftrightarrow> (\<forall>a \<in> set alarms. V (formatUint (am_UID a)) \<noteq> None)"

definition alarm_inv :: "(string \<rightharpoonup> alarm json) \<Rightarrow> 'd alarm_cache \<Rightarrow> nat \<Rightarrow> bool" where
  "alarm_inv V c pending \<longleftrightarrow>
     sorted_wrt (<) (map (unat \<circ> am_UID) (ac_alarmList c)) \<and>
     (\<forall>a \<in> set (ac_alarmList c). unat (am_UID a) \<le> unat (ac_eventID c) + min 1 pending) \<and>
     stored V (ac_alarmList c) \<and> keyed V"

lemma sorted_gap:
  "sorted_wrt (<) (xs :: nat list) \<Longrightarrow> i < length xs \<Longrightarrow> xs ! 0 + i \<le> xs ! i"
proof (induction i)
  case (Suc i)
  then have "xs ! i < xs ! Suc i" by (simp add: sorted_wrt_nth_less)
  with Suc show ?case by simp
qed simp

lemma sorted_wrt_snoc: "sorted_wrt (<) xs \<Longrightarrow> \<forall>x \<in> set xs. x < y \<Longrightarrow> sorted_wrt (<) (xs @ [y :: nat])"
  by (simp add: sorted_wrt_append)

lemma subseq_subset: "subseq xs ys \<Longrightarrow> set xs \<subseteq> set ys"
  by (induction rule: list_emb.induct) auto

lemma subseq_sorted_wrt: "subseq xs ys \<Longrightarrow> sorted_wrt R ys \<Longrightarrow> sorted_wrt R xs"
  by (induction rule: list_emb.induct) (auto dest: subseq_subset)

lemma find_in: "List.find P xs = Some x \<Longrightarrow> x \<in> set xs \<and> P x"
  by (auto simp: find_Some_iff)

lemma keyed_upd: "keyed V \<Longrightarrow> keyed (V(formatUint (am_UID a) \<mapsto> Json a))"
  by (auto simp: keyed_def)

lemma keyed_del: "keyed V \<Longrightarrow> keyed (V(k := None))"
  by (auto simp: keyed_def split: if_splits)

locale alarm_store = kv_laws T view txview
  for T :: "('d, 'tx, alarm json) kvzoo" and view :: "'d \<Rightarrow> string \<rightharpoonup> alarm json" and txview :: "'tx \<Rightarrow> string \<rightharpoonup> alarm json"
begin

abbreviation inv :: "'d alarm_cache \<Rightarrow> nat \<Rightarrow> bool" where "inv c pending \<equiv> alarm_inv (view (ac_table c)) c pending"

lemma add_cases:
  "addAlarmToDB T a d = (d', r) \<Longrightarrow>
     (r = None \<and> view d (formatUint (am_UID a)) = None \<and> view d' = (view d)(formatUint (am_UID a) \<mapsto> Json a)) \<or> (r \<noteq> None \<and> view d' = view d)"
  using write_add by (simp add: addAlarmToDB_def json_marshal_def)

lemma update_cases:
  "updateAlarmToDB T a d = (d', r) \<Longrightarrow>
     (r = None \<and> view d (formatUint (am_UID a)) \<noteq> None \<and> view d' = (view d)(formatUint (am_UID a) \<mapsto> Json a)) \<or> (r \<noteq> None \<and> view d' = view d)"
  using write_update by (simp add: updateAlarmToDB_def json_marshal_def)

lemma delete_cases:
  "deleteAlarmFromDB T k d = (d', r) \<Longrightarrow> (r = None \<and> view d' = (view d)(k := None)) \<or> (r \<noteq> None \<and> view d' = view d)"
  using write_delete by (simp add: deleteAlarmFromDB_def)

text \<open>Deleting the oldest never takes an alarm that stays from the table.\<close>

lemma delete_front_inv:
  assumes "delete_front T f i n c = (c', r)" "inv c p" "n \<le> length (ac_alarmList c)"
    and "\<forall>j < length (ac_alarmList c). unat f + i + j \<le> unat (am_UID (ac_alarmList c ! j))"
  shows "inv c' p \<and> ac_eventID c' = ac_eventID c \<and> (\<exists>m. m \<le> n \<and> ac_alarmList c' = drop m (ac_alarmList c) \<and> (r = None \<longrightarrow> m = n))"
  using assms
proof (induction n arbitrary: i c)
  case (Suc n)
  let ?k = "formatUint (of_nat i + f)"
  from Suc.prems(3) obtain a as where l: "ac_alarmList c = a # as" by (cases "ac_alarmList c") auto
  from Suc.prems(4) l have ge: "unat f + i \<le> unat (am_UID a)" by fastforce
  then have "unat f + i < 2 ^ 64" using unsigned_less [of "am_UID a", where ?'a = nat] by simp
  then have ki: "unat (of_nat i + f) = unat f + i" by (simp add: unat_word_ariths unat_of_nat)
  have other: "am_UID b \<noteq> of_nat i + f" if "b \<in> set as" for b
  proof -
    from that obtain j where "j < length as" "b = as ! j" by (auto simp: in_set_conv_nth)
    with Suc.prems(4) l have "unat f + i + Suc j \<le> unat (am_UID b)" by fastforce
    with ki show ?thesis by (metis Suc_n_not_le_n add_Suc_right le_add1 order_trans)
  qed
  obtain d e where d: "deleteAlarmFromDB T ?k (ac_table c) = (d, e)" by force
  show ?case
  proof (cases e)
    case None
    with delete_cases [OF d] have v: "view d = (view (ac_table c))(?k := None)" by simp
    let ?c = "c\<lparr>ac_table := d, ac_alarmList := as\<rparr>"
    have "inv ?c p" using Suc.prems(2) v l other by (auto simp: alarm_inv_def stored_def keyed_del)
    moreover have "\<forall>j < length as. unat f + Suc i + j \<le> unat (am_UID (as ! j))" using Suc.prems(4) l by fastforce
    moreover have "delete_front T f (Suc i) n ?c = (c', r)" using Suc.prems(1) d None l by simp
    ultimately obtain m where "inv c' p" "ac_eventID c' = ac_eventID c" "m \<le> n" "ac_alarmList c' = drop m as" "r = None \<longrightarrow> m = n"
      using Suc.IH [of "Suc i" ?c] Suc.prems(3) l by auto
    then show ?thesis using l by (intro conjI exI [of _ "Suc m"]) auto
  next
    case (Some x)
    with delete_cases [OF d] Suc.prems d have "c' = c\<lparr>ac_table := d\<rparr>" "view d = view (ac_table c)" "r = Some x" by auto
    with Suc.prems(2) show ?thesis by (auto simp: alarm_inv_def intro: exI [of _ 0])
  qed
qed auto

end

lemma inv_table: "alarm_inv V (c\<lparr>ac_table := d\<rparr>) p = alarm_inv V c p"
  by (simp add: alarm_inv_def)

lemma delNum_le: "alarms \<noteq> [] \<Longrightarrow> delNum t alarms \<le> length alarms"
  using length_takeWhile_le [of _ "tl alarms"] by (cases alarms) (auto simp: delNum_def)

context alarm_store
begin

lemma deleteoldest_inv:
  assumes "deleteoldest T t c = (c', r)" "inv c p" "ac_alarmList c \<noteq> []"
  shows "inv c' p \<and> ac_eventID c' = ac_eventID c \<and>
    (\<exists>m \<le> delNum t (ac_alarmList c). ac_alarmList c' = drop m (ac_alarmList c) \<and> (r = None \<longrightarrow> m = delNum t (ac_alarmList c)))"
proof -
  have "\<forall>j < length (ac_alarmList c). unat (am_UID (hd (ac_alarmList c))) + 0 + j \<le> unat (am_UID (ac_alarmList c ! j))"
    using sorted_gap [of "map (unat \<circ> am_UID) (ac_alarmList c)"] assms(2,3) by (auto simp: alarm_inv_def hd_conv_nth)
  from delete_front_inv [OF assms(1) [unfolded deleteoldest_def] assms(2) delNum_le [OF assms(3)] this] show ?thesis by blast
qed

lemma add_locked_inv:
  assumes i: "inv c p" and b: "unat (ac_eventID c) + 1 < 2 ^ 64" and r: "add_locked T t a c = (c', s)"
  shows "inv c' (if s = None then p else Suc p) \<and> ac_eventID c' = ac_eventID c"
proof -
  define a2 where "a2 = stamp_alarm (ac_eventID c + 1) (clear_namespace a)"
  obtain d e where d: "addAlarmToDB T a2 (ac_table c) = (d, e)" by force
  have u: "unat (am_UID a2) = unat (ac_eventID c) + 1" using b by (simp add: a2_def stamp_alarm_def unat_word_ariths)
  let ?c1 = "c\<lparr>ac_table := d, ac_alarmList := ac_alarmList c @ [a2]\<rparr>"
  consider "c' = c" "s = None" | x where "e = Some x" "c' = c\<lparr>ac_table := d\<rparr>" "s = None"
    | c1 where "e = None" "c1 = ?c1" "s = Some a2" "c' = c1 \<or> c' = fst (deleteoldest T t c1)"
    using r d by (cases e) (auto simp: add_locked_def Let_def a2_def split: if_splits)
  then show ?thesis
  proof cases
    case 3
    with add_cases [OF d] have v: "view (ac_table c) (formatUint (am_UID a2)) = None" "view d = (view (ac_table c))(formatUint (am_UID a2) \<mapsto> Json a2)" by auto
    have "unat (am_UID x) < unat (am_UID a2)" if x: "x \<in> set (ac_alarmList c)" for x
    proof -
      from x i have "view (ac_table c) (formatUint (am_UID x)) \<noteq> None" "unat (am_UID x) \<le> unat (ac_eventID c) + 1"
        by (fastforce simp: alarm_inv_def stored_def)+
      moreover from this(1) v(1) have "am_UID x \<noteq> am_UID a2" by auto
      ultimately show ?thesis using u by (metis le_neq_implies_less word_unat_eq_iff)
    qed
    then have "inv c1 (Suc p)" using i v u 3(2)
      by (auto simp: alarm_inv_def stored_def keyed_upd sorted_wrt_append)
    moreover from this have "inv (fst (deleteoldest T t c1)) (Suc p) \<and> ac_eventID (fst (deleteoldest T t c1)) = ac_eventID c1"
      using deleteoldest_inv [of t c1 "fst (deleteoldest T t c1)" "snd (deleteoldest T t c1)" "Suc p"] 3(2) by simp
    ultimately show ?thesis using 3 by auto
  next
    case 2
    with add_cases [OF d] i show ?thesis by (auto simp: inv_table)
  qed (use i in auto)
qed

lemma update_inv:
  assumes i: "inv c p"
  shows "inv (fst (alarm_Update T a c)) p \<and> ac_eventID (fst (alarm_Update T a c)) = ac_eventID c"
proof -
  obtain d e where d: "updateAlarmToDB T a (ac_table c) = (d, e)" by force
  have v: "alarm_inv (view d) c p"
    using update_cases [OF d] i by (auto simp: alarm_inv_def stored_def keyed_upd)
  have m: "map (unat \<circ> am_UID) ((ac_alarmList c)[j := (ac_alarmList c ! j)\<lparr>am_Acknowledged := True\<rparr>]) = map (unat \<circ> am_UID) (ac_alarmList c)" for j
    by (cases "j < length (ac_alarmList c)") (simp_all add: map_update list_update_same_conv list_update_beyond)
  have "alarm_inv (view d) (c\<lparr>ac_table := d, ac_alarmList := (ac_alarmList c)[j := (ac_alarmList c ! j)\<lparr>am_Acknowledged := True\<rparr>]\<rparr>) p" if "j < length (ac_alarmList c)" for j
    using v that by (auto simp: alarm_inv_def m stored_def dest!: set_update_subset_insert [THEN subsetD])
  moreover have "getAlarmFromList (am_UID a) (ac_alarmList c) = Done (Some j) \<Longrightarrow> j < length (ac_alarmList c)" for j
    by (auto simp: getAlarmFromList_def getAlarmFromOutdated_def getAlarmFromLatest_def dest!: find_in split: list.splits if_splits)
  ultimately show ?thesis using d v
    by (auto simp: alarm_Update_def inv_table split: option.splits outcome.splits)
qed

lemma delete_of_cluster_inv:
  assumes "delete_of_cluster T cluster alarms d = (d', alarms')" "keyed (view d)" "distinct (map am_UID alarms)"
  shows "keyed (view d') \<and> subseq alarms' alarms \<and>
     (\<forall>u. u \<in> am_UID ` set alarms' \<or> u \<notin> am_UID ` set alarms \<longrightarrow> view d' (formatUint u) = view d (formatUint u))"
  using assms
proof (induction alarms arbitrary: d d' alarms')
  case (Cons a alarms)
  show ?case
  proof (cases "am_Cluster a = cluster")
    case True
    obtain d1 e where d: "deleteAlarmFromDB T (formatUint (am_UID a)) d = (d1, e)" by force
    obtain d2 as where r: "delete_of_cluster T cluster alarms d1 = (d2, as)" by force
    have k: "keyed (view d1)" using delete_cases [OF d] Cons.prems(2) by (auto simp: keyed_del)
    note IH = Cons.IH [OF r k]
    show ?thesis
    proof (cases e)
      case None
      with delete_cases [OF d] have v: "view d1 = (view d)(formatUint (am_UID a) := None)" by simp
      from None d r True Cons.prems have "d' = d2" "alarms' = as" by auto
      with IH Cons.prems(3) have k: "keyed (view d')" "subseq alarms' alarms"
        and o: "\<And>u. u \<in> am_UID ` set alarms' \<or> u \<notin> am_UID ` set alarms \<Longrightarrow> view d' (formatUint u) = view d1 (formatUint u)" by auto
      have "am_UID a \<notin> am_UID ` set alarms'" using subseq_subset [OF k(2)] Cons.prems(3) by auto
      with k o v show ?thesis by auto
    next
      case (Some x)
      with delete_cases [OF d] have v: "view d1 = view d" by simp
      from Some d r True Cons.prems have "d' = d2" "alarms' = a # as" by auto
      with IH v Cons.prems(3) show ?thesis by auto
    qed
  next
    case False
    obtain d2 as where r: "delete_of_cluster T cluster alarms d = (d2, as)" by force
    with False Cons.prems have "d' = d2" "alarms' = a # as" by auto
    with Cons.IH [OF r Cons.prems(2)] Cons.prems(3) show ?thesis by auto
  qed
qed auto

end


lemma distinct_uids: "distinct (map (unat \<circ> am_UID) xs) \<Longrightarrow> distinct (map am_UID xs)"
  by (simp add: distinct_map comp_inj_on_iff inj_on_def)

lemma inv_distinct: "alarm_inv V c p \<Longrightarrow> distinct (map am_UID (ac_alarmList c))"
proof -
  assume "alarm_inv V c p"
  then have "distinct (map (unat \<circ> am_UID) (ac_alarmList c))" by (auto simp: alarm_inv_def strict_sorted_iff)
  then show ?thesis by (rule distinct_uids)
qed

context alarm_store
begin

lemma cluster_gone_inv:
  assumes i: "inv c p" shows "inv (deleteAlarmForCluster T cluster c) p \<and> ac_eventID (deleteAlarmForCluster T cluster c) = ac_eventID c"
proof -
  obtain d as where r: "delete_of_cluster T cluster (ac_alarmList c) (ac_table c) = (d, as)" by force
  from delete_of_cluster_inv [OF r _ inv_distinct [OF i]] i
  have "keyed (view d)" and s: "subseq as (ac_alarmList c)" and v: "\<forall>a \<in> set as. view d (formatUint (am_UID a)) = view (ac_table c) (formatUint (am_UID a))"
    by (auto simp: alarm_inv_def)
  moreover have "set as \<subseteq> set (ac_alarmList c)" using s by (rule subseq_subset)
  moreover have "sorted_wrt (<) (map (unat \<circ> am_UID) as)"
    using i s by (auto simp: alarm_inv_def intro: subseq_sorted_wrt [OF subseq_map])
  ultimately show ?thesis using i r by (auto simp: deleteAlarmForCluster_def alarm_inv_def stored_def)
qed

lemma step_inv:
  assumes "inv c p" "unat (ac_eventID c) + p + 1 < 2 ^ 64" "alarm_step T e (c, p) = (c', p')"
  shows "inv c' p' \<and> unat (ac_eventID c') + p' \<le> unat (ac_eventID c) + p + 1"
proof (cases e)
  case (AddLocked t a)
  obtain c1 s where r: "add_locked T t a c = (c1, s)" by force
  with add_locked_inv [OF assms(1) _ r] assms(2,3) AddLocked show ?thesis by (cases s) auto
next
  case AddFinish
  show ?thesis
  proof (cases "p = 0")
    case False
    have u: "unat (ac_eventID c + 1) = unat (ac_eventID c) + 1" using assms(2) by (simp add: unat_word_ariths)
    from assms(1) False have "\<forall>a \<in> set (ac_alarmList c). unat (am_UID a) \<le> unat (ac_eventID c) + 1" by (auto simp: alarm_inv_def)
    with assms AddFinish False u show ?thesis by (force simp: add_finish_def alarm_inv_def)
  qed (use assms AddFinish in auto)
next
  case (UpdateAlarm a)
  with update_inv [OF assms(1), of a] assms(3) show ?thesis by auto
next
  case (ClusterGone cl)
  with cluster_gone_inv [OF assms(1), of cl] assms(3) show ?thesis by auto
qed

lemma run_inv:
  assumes "foldl (\<lambda>s e. alarm_step T e s) (c, p) es = (c', p')" "inv c p" "unat (ac_eventID c) + p + length es < 2 ^ 64"
  shows "inv c' p'"
  using assms
proof (induction es arbitrary: c p)
  case (Cons e es)
  obtain c1 p1 where s: "alarm_step T e (c, p) = (c1, p1)" by force
  from step_inv [OF Cons.prems(2) _ s] Cons.prems(3) have "inv c1 p1" "unat (ac_eventID c1) + p1 \<le> unat (ac_eventID c) + p + 1" by auto
  with Cons.IH [of c1 p1] Cons.prems s show ?case by simp
qed simp

end

section \<open>Listening\<close>

lemma takeWhile_rev_sorted:
  "sorted_wrt (<) (map (unat \<circ> f) xs) \<Longrightarrow> takeWhile (\<lambda>a. f a > l) (rev xs) = rev (filter (\<lambda>a. f a > (l :: uint64)) xs)"
proof (induction xs rule: rev_induct)
  case (snoc x xs)
  have "filter (\<lambda>a. l < f a) xs = []" if "\<not> l < f x"
    using snoc.prems that by (auto simp: sorted_wrt_append filter_empty_conv word_less_nat_alt)
  with snoc show ?case by (auto simp: sorted_wrt_append)
qed simp

lemma after_id:
  assumes "alarm_inv V c p" shows "getAlarmsAfterID l c = filter (\<lambda>a. l < am_UID a) (ac_alarmList c)"
proof -
  let ?xs = "filter (\<lambda>a. l < am_UID a) (ac_alarmList c)"
  have s: "sorted_wrt (<) (map (unat \<circ> am_UID) (ac_alarmList c))" using assms by (simp add: alarm_inv_def)
  then have "sorted_wrt (<) (map (unat \<circ> am_UID) ?xs)" by (auto simp: sorted_wrt_map intro: sorted_wrt_filter)
  then have "sorted_wrt (<) (map am_UID ?xs)" by (simp add: sorted_wrt_map word_less_nat_alt)
  then have "sorted (map am_UID ?xs)" "distinct (map am_UID ?xs)" by (simp_all add: strict_sorted_iff)
  then have "sort_key am_UID (rev ?xs) = ?xs"
    by (intro sort_key_unique) auto
  then show ?thesis by (simp add: getAlarmsAfterID_def takeWhile_rev_sorted [OF s])
qed

text \<open>A round sends at most as many alarms as there are numbers up to the last one, so the number it remembers does not pass it.\<close>

lemma newer_count:
  assumes "alarm_inv V c p" "filter (\<lambda>a. l < am_UID a) (ac_alarmList c) \<noteq> []"
  shows "unat l + length (filter (\<lambda>a. l < am_UID a) (ac_alarmList c)) \<le> unat (am_UID (last (ac_alarmList c)))"
proof -
  let ?xs = "filter (\<lambda>a. l < am_UID a) (ac_alarmList c)" and ?u = "map (unat \<circ> am_UID) (ac_alarmList c)"
  have ne: "ac_alarmList c \<noteq> []" using assms(2) by auto
  have s: "sorted_wrt (<) ?u" using assms(1) by (simp add: alarm_inv_def)
  have top: "unat (am_UID a) \<le> unat (am_UID (last (ac_alarmList c)))" if "a \<in> set (ac_alarmList c)" for a
  proof -
    obtain ys y where e: "ac_alarmList c = ys @ [y]" using ne by (cases "ac_alarmList c" rule: rev_cases) auto
    from s that show ?thesis unfolding e by (auto simp: sorted_wrt_append)
  qed
  have "inj_on (unat \<circ> am_UID) (set (ac_alarmList c))" using s by (simp add: strict_sorted_iff distinct_map)
  then have "card ((unat \<circ> am_UID) ` set ?xs) = card (set ?xs)" by (intro card_image) (auto intro: inj_on_subset)
  also have "\<dots> = length ?xs" using s by (intro distinct_card) (simp add: strict_sorted_iff distinct_map)
  finally have "length ?xs = card ((unat \<circ> am_UID) ` set ?xs)" by simp
  also have "\<dots> \<le> card {unat l <.. unat (am_UID (last (ac_alarmList c)))}"
    by (rule card_mono) (auto simp: word_less_nat_alt intro: top)
  finally have "length ?xs \<le> unat (am_UID (last (ac_alarmList c))) - unat l" by simp
  moreover have "unat l < unat (am_UID (last (ac_alarmList c)))"
  proof -
    from assms(2) obtain a where "a \<in> set (ac_alarmList c)" "l < am_UID a" by (auto simp: filter_empty_conv)
    with top show ?thesis by (fastforce simp: word_less_nat_alt)
  qed
  ultimately show ?thesis by simp
qed

lemma publish_all_ends:
  assumes i: "alarm_inv V c p"
  shows "\<exists>l' xs. publish_all c (l, out) = Some (l', out @ xs) \<and> l \<le> l' \<and> filter (\<lambda>a. l' < am_UID a) (ac_alarmList c) = []
    \<and> set xs = set (filter (\<lambda>a. l < am_UID a) (ac_alarmList c)) \<and> prefix (filter (\<lambda>a. l < am_UID a) (ac_alarmList c)) xs
    \<and> (l' = l \<or> l' \<le> am_UID (last (ac_alarmList c)))"
proof (induction "unat (am_UID (last (ac_alarmList c))) - unat l" arbitrary: l out rule: less_induct)
  case less
  let ?F = "\<lambda>l. filter (\<lambda>a. l < am_UID a) (ac_alarmList c)" and ?m = "am_UID (last (ac_alarmList c))"
  show ?case
  proof (cases "?F l = []")
    case True
    then have "publish_all c (l, out) = Some (l, out)"
      by (subst publish_all.simps) (simp add: publish_round_def Let_def after_id [OF i])
    with True show ?thesis by (intro exI [of _ l] exI [of _ "[]"]) simp
  next
    case False
    let ?n = "length (?F l)"
    note le = newer_count [OF i False]
    then have u: "unat (l + of_nat ?n) = unat l + ?n"
      using unsigned_less [of ?m, where 'a = nat] by (simp add: unat_word_ariths unat_of_nat)
    from False have pos: "0 < ?n" by simp
    have "unat ?m - unat (l + of_nat ?n) < unat ?m - unat l" using u le pos by linarith
    from less [OF this, of "out @ ?F l"]
    obtain l' xs where r: "publish_all c (l + of_nat ?n, out @ ?F l) = Some (l', (out @ ?F l) @ xs)" "l + of_nat ?n \<le> l'" "?F l' = []"
      "set xs = set (?F (l + of_nat ?n))" "l' = l + of_nat ?n \<or> l' \<le> ?m" by blast
    have "publish_all c (l, out) = publish_all c (l + of_nat ?n, out @ ?F l)"
      using False by (subst publish_all.simps) (simp add: publish_round_def Let_def after_id [OF i])
    moreover have "l \<le> l + of_nat ?n" "l + of_nat ?n \<le> ?m" using u le by (simp_all add: word_le_nat_alt)
    moreover from this(1) have "set (?F (l + of_nat ?n)) \<subseteq> set (?F l)" by auto
    ultimately show ?thesis using r by (intro exI [of _ l'] exI [of _ "?F l @ xs"]) auto
  qed
qed

text \<open>
  C30. The loop of a listener always comes to rest: whatever the numbers in the list, after finitely
  many rounds it waits, and it has then sent every alarm newer than the last number it had, the
  oldest first, and nothing else; where their numbers follow one another, each exactly once.
\<close>

theorem alarm_listener_comes_to_rest:
  assumes "alarm_inv V c pending"
  shows "\<exists>lastID' sent. publish_all c (lastID, out) = Some (lastID', out @ sent) \<and> getAlarmsAfterID lastID' c = []
    \<and> set sent = {a \<in> set (alarm_List c). lastID < am_UID a} \<and> prefix (getAlarmsAfterID lastID c) sent
    \<and> (map (unat \<circ> am_UID) (getAlarmsAfterID lastID c) = [Suc (unat lastID) ..< Suc (unat lastID) + length (getAlarmsAfterID lastID c)]
         \<longrightarrow> sent = getAlarmsAfterID lastID c)"
proof -
  let ?F = "filter (\<lambda>a. lastID < am_UID a) (ac_alarmList c)"
  from publish_all_ends [OF assms, of lastID out] obtain l' xs
    where r: "publish_all c (lastID, out) = Some (l', out @ xs)" "filter (\<lambda>a. l' < am_UID a) (ac_alarmList c) = []" "set xs = set ?F" "prefix ?F xs" by blast
  have "xs = ?F" if "map (unat \<circ> am_UID) ?F = [Suc (unat lastID) ..< Suc (unat lastID) + length ?F]"
  proof (cases "?F = []")
    case True
    with r(3) show ?thesis by simp
  next
    case False
    let ?l = "lastID + of_nat (length ?F)"
    have u: "unat ?l = unat lastID + length ?F" using newer_count [OF assms False] unsigned_less [of "am_UID (last (ac_alarmList c))", where 'a = nat]
      by (simp add: unat_word_ariths unat_of_nat)
    have "unat (am_UID a) \<le> unat ?l" if a: "a \<in> set ?F" for a
    proof -
      have "(unat \<circ> am_UID) a \<in> set (map (unat \<circ> am_UID) ?F)" using a by (simp only: set_map) (rule imageI)
      then show ?thesis using that u unfolding \<open>map (unat \<circ> am_UID) ?F = _\<close> by auto
    qed
    then have e: "filter (\<lambda>a. ?l < am_UID a) (ac_alarmList c) = []"
      using u by (force simp: filter_empty_conv word_less_nat_alt not_less)
    have "publish_all c (lastID, out) = publish_all c (?l, out @ ?F)"
      using False by (subst publish_all.simps) (simp add: publish_round_def Let_def after_id [OF assms])
    also have "\<dots> = Some (?l, out @ ?F)" using e by (subst publish_all.simps) (simp add: publish_round_def Let_def after_id [OF assms])
    finally show ?thesis using r(1) by simp
  qed
  with r show ?thesis by (simp add: after_id [OF assms] alarm_List_def)
qed

section \<open>Calls one after another\<close>

text \<open>
  While additions do not overlap and clusters stay, the table mirrors the list, the numbers are
  consecutive and end at the counter.
\<close>

definition table_of :: "alarm list \<Rightarrow> string \<rightharpoonup> alarm json" where
  "table_of alarms = map_of (map (\<lambda>a. (formatUint (am_UID a), Json a)) alarms)"

definition mirrored :: "(string \<rightharpoonup> alarm json) \<Rightarrow> 'd alarm_cache \<Rightarrow> bool" where
  "mirrored V c \<longleftrightarrow> V = table_of (ac_alarmList c) \<and> length (ac_alarmList c) \<le> min MaxAlarmCount (unat (ac_eventID c)) \<and>
     map (unat \<circ> am_UID) (ac_alarmList c) = [Suc (unat (ac_eventID c)) - length (ac_alarmList c) ..< Suc (unat (ac_eventID c))]"

inductive alarm_calls :: "('d, 'tx) alarm_table \<Rightarrow> 'd alarm_cache \<Rightarrow> 'd alarm_cache \<Rightarrow> bool" for T c0 where
  calls_start: "alarm_calls T c0 c0"
| call_add: "alarm_calls T c0 c \<Longrightarrow> unat (ac_eventID c) + 1 < 2 ^ 64 \<Longrightarrow> add_locked T oneMonthLater a c = (c', s) \<Longrightarrow>
    alarm_calls T c0 (if s = None then c' else add_finish c')"
| call_acknowledge: "alarm_calls T c0 c \<Longrightarrow> a \<in> set (alarm_List c) \<Longrightarrow> alarm_calls T c0 (fst (alarm_Update T (a\<lparr>am_Acknowledged := True\<rparr>) c))"

lemma dom_table_of: "dom (table_of alarms) = (\<lambda>a. formatUint (am_UID a)) ` set alarms"
  by (force simp: table_of_def dom_map_of_conv_image_fst)

lemma table_of_snoc: "formatUint (am_UID a) \<notin> dom (table_of alarms) \<Longrightarrow> table_of (alarms @ [a]) = (table_of alarms)(formatUint (am_UID a) \<mapsto> Json a)"
  by (auto simp: table_of_def map_add_def fun_eq_iff split: option.splits)

lemma table_of_tl: "distinct (map am_UID (a # alarms)) \<Longrightarrow> (table_of (a # alarms))(formatUint (am_UID a) := None) = table_of alarms"
proof -
  assume "distinct (map am_UID (a # alarms))"
  then have "formatUint (am_UID a) \<notin> dom (table_of alarms)" unfolding dom_table_of by auto
  then show ?thesis by (auto simp: table_of_def fun_eq_iff)
qed

lemma table_of_update:
  assumes "distinct (map am_UID alarms)" "i < length alarms" "am_UID b = am_UID (alarms ! i)"
  shows "table_of (alarms[i := b]) = (table_of alarms)(formatUint (am_UID b) \<mapsto> Json b)"
  using assms
proof (induction alarms arbitrary: i)
  case (Cons a alarms)
  show ?case
  proof (cases i)
    case 0
    with Cons.prems show ?thesis by (auto simp: table_of_def fun_eq_iff)
  next
    case (Suc j)
    with Cons.prems have j: "j < length alarms" "am_UID b = am_UID (alarms ! j)" "distinct (map am_UID alarms)" by auto
    then have "am_UID b \<in> am_UID ` set alarms" by simp
    with Cons.prems(1) have "am_UID b \<noteq> am_UID a" by auto
    with Cons.IH [OF j(3,1,2)] Suc show ?thesis by (auto simp: table_of_def fun_eq_iff)
  qed
qed simp

lemma mirrored_inv: "mirrored V c \<Longrightarrow> alarm_inv V c 0"
proof -
  assume m: "mirrored V c"
  let ?u = "map (unat \<circ> am_UID) (ac_alarmList c)"
  have "sorted_wrt (<) ?u" using m by (simp add: mirrored_def del: upt_Suc)
  moreover have "unat (am_UID a) \<le> unat (ac_eventID c)" if "a \<in> set (ac_alarmList c)" for a
  proof -
    have "(unat \<circ> am_UID) a \<in> set ?u" using that by (simp only: set_map) (rule imageI)
    then show ?thesis using m unfolding mirrored_def by auto
  qed
  moreover have "stored V (ac_alarmList c)" using m dom_table_of [of "ac_alarmList c"] by (auto simp: mirrored_def stored_def)
  moreover have "keyed V" using m by (auto simp: keyed_def mirrored_def table_of_def dest!: map_of_SomeD)
  ultimately show ?thesis by (simp add: alarm_inv_def)
qed

locale alarm_live = alarm_store T view txview + kv_live T view txview
  for T :: "('d, 'tx, alarm json) kvzoo" and view :: "'d \<Rightarrow> string \<rightharpoonup> alarm json" and txview :: "'tx \<Rightarrow> string \<rightharpoonup> alarm json"
begin

lemma delete_front_mirror:
  assumes "delete_front T f i n c = (c', r)" "view (ac_table c) = table_of (ac_alarmList c)" "n \<le> length (ac_alarmList c)"
    and "map (unat \<circ> am_UID) (ac_alarmList c) = [unat f + i ..< unat f + i + length (ac_alarmList c)]"
  shows "r = None \<and> ac_alarmList c' = drop n (ac_alarmList c) \<and> view (ac_table c') = table_of (drop n (ac_alarmList c)) \<and> ac_eventID c' = ac_eventID c"
  using assms
proof (induction n arbitrary: i c)
  case (Suc n)
  from Suc.prems(3) obtain a as where l: "ac_alarmList c = a # as" by (cases "ac_alarmList c") auto
  have up: "[unat f + i ..< unat f + i + length (a # as)] = (unat f + i) # [unat f + Suc i ..< unat f + Suc i + length as]"
    by (simp add: upt_conv_Cons del: upt_Suc)
  from Suc.prems(4) l up have a: "unat (am_UID a) = unat f + i" and as: "map (unat \<circ> am_UID) as = [unat f + Suc i ..< unat f + Suc i + length as]"
    by (simp_all add: comp_def del: upt_Suc)
  have "unat (of_nat i + f) = unat f + i" using a unsigned_less [of "am_UID a", where 'a = nat] by (simp add: unat_word_ariths unat_of_nat)
  with a have k: "of_nat i + f = am_UID a" by (simp add: word_unat_eq_iff)
  have "distinct (map (unat \<circ> am_UID) (a # as))" unfolding l [symmetric] Suc.prems(4) by (rule distinct_upt)
  then have "distinct (map am_UID (a # as))" by (rule distinct_uids)
  then have tl: "(table_of (a # as))(formatUint (am_UID a) := None) = table_of as" by (rule table_of_tl)
  obtain d where d: "deleteAlarmFromDB T (formatUint (am_UID a)) (ac_table c) = (d, None)" "view d = (view (ac_table c))(formatUint (am_UID a) := None)"
    using write_delete_live unfolding deleteAlarmFromDB_def by metis
  let ?c = "c\<lparr>ac_table := d, ac_alarmList := as\<rparr>"
  have "delete_front T f (Suc i) n ?c = (c', r)" using Suc.prems(1) d k l by simp
  moreover have "view (ac_table ?c) = table_of (ac_alarmList ?c)" using d(2) tl Suc.prems(2) l by simp
  ultimately show ?case using Suc.IH [of "Suc i" ?c] Suc.prems(3) l as by (simp add: comp_def del: upt_Suc)
qed simp

lemma deleteoldest_mirror:
  assumes m: "view (ac_table c) = table_of (ac_alarmList c)" and ne: "ac_alarmList c \<noteq> []"
    and u: "map (unat \<circ> am_UID) (ac_alarmList c) = [s ..< s + length (ac_alarmList c)]"
  obtains n c' where "deleteoldest T t c = (c', None)" "0 < n" "n \<le> length (ac_alarmList c)" "ac_alarmList c' = drop n (ac_alarmList c)"
    "view (ac_table c') = table_of (drop n (ac_alarmList c))" "ac_eventID c' = ac_eventID c"
proof -
  have "unat (am_UID (hd (ac_alarmList c))) = s"
    using ne u by (cases "ac_alarmList c") (auto simp: upt_conv_Cons simp del: upt_Suc)
  then have "map (unat \<circ> am_UID) (ac_alarmList c) = [unat (am_UID (hd (ac_alarmList c))) + 0 ..< unat (am_UID (hd (ac_alarmList c))) + 0 + length (ac_alarmList c)]"
    using u by simp
  from delete_front_mirror [OF _ m delNum_le [OF ne] this] delNum_le [OF ne, of t] that [of "fst (deleteoldest T t c)" "delNum t (ac_alarmList c)"]
  show ?thesis by (metis deleteoldest_def delNum_def add_gr_0 prod.collapse zero_less_one)
qed

end

context alarm_live
begin

lemma mirrored_add:
  assumes m: "mirrored (view (ac_table c)) c" and b: "unat (ac_eventID c) + 1 < 2 ^ 64" and r: "add_locked T t a c = (c', s)"
  shows "mirrored (view (ac_table (if s = None then c' else add_finish c'))) (if s = None then c' else add_finish c')"
proof -
  define a2 where "a2 = stamp_alarm (ac_eventID c + 1) (clear_namespace a)"
  let ?L = "ac_alarmList c" and ?e = "unat (ac_eventID c)"
  have u: "am_UID a2 = ac_eventID c + 1" "unat (ac_eventID c + 1) = ?e + 1" using b by (simp_all add: a2_def stamp_alarm_def unat_word_ariths)
  from m have V: "view (ac_table c) = table_of ?L" and len: "length ?L \<le> MaxAlarmCount" "length ?L \<le> ?e"
    and up: "map (unat \<circ> am_UID) ?L = [Suc ?e - length ?L ..< Suc ?e]" by (simp_all add: mirrored_def del: upt_Suc)
  have fresh: "formatUint (am_UID a2) \<notin> dom (table_of ?L)"
  proof
    assume "formatUint (am_UID a2) \<in> dom (table_of ?L)"
    then obtain x where "x \<in> set ?L" "am_UID x = am_UID a2" by (auto simp: dom_table_of)
    with mirrored_inv [OF m] u show False by (auto simp: alarm_inv_def)
  qed
  obtain d where d: "addAlarmToDB T a2 (ac_table c) = (d, None)" "view d = (table_of ?L)(formatUint (am_UID a2) \<mapsto> Json a2)"
    using write_add_live [of "ac_table c" "formatUint (am_UID a2)"] fresh V unfolding addAlarmToDB_def json_marshal_def by (metis domIff)
  let ?c1 = "c\<lparr>ac_table := d, ac_alarmList := ?L @ [a2]\<rparr>"
  have up1: "map (unat \<circ> am_UID) (?L @ [a2]) = [Suc ?e - length ?L ..< (Suc ?e - length ?L) + length (?L @ [a2])]"
    using len up u by (simp add: Suc_diff_le)
  have m1: "view (ac_table ?c1) = table_of (ac_alarmList ?c1)" using d(2) fresh by (simp add: table_of_snoc)
  consider "s = None" "c' = c" | "s = Some a2" "length ?L < MaxAlarmCount" "c' = ?c1" | "s = Some a2" "c' = fst (deleteoldest T t ?c1)" "length ?L = MaxAlarmCount"
    using r [unfolded add_locked_def Let_def, folded a2_def] len(1) unfolding d(1) prod.case option.case
    by (cases "length ?L < MaxAlarmCount") (force split: if_splits)+
  then show ?thesis
  proof cases
    case 2
    with m1 up1 len u show ?thesis by (simp add: mirrored_def add_finish_def Suc_diff_le)
  next
    case 3
    obtain n c2 where c2: "deleteoldest T t ?c1 = (c2, None)" "0 < n" "n \<le> length (?L @ [a2])" "ac_alarmList c2 = drop n (?L @ [a2])"
      "view (ac_table c2) = table_of (drop n (?L @ [a2]))" "ac_eventID c2 = ac_eventID c"
      by (rule deleteoldest_mirror [OF m1, of "Suc ?e - length ?L" t]) (use up1 in \<open>simp_all del: upt_Suc drop_append\<close>)
    let ?l = "length (ac_alarmList c2)"
    have l: "?l = Suc (length ?L) - n" using c2(4) by (simp del: drop_append)
    have "(Suc ?e - length ?L) + n = Suc (?e + 1) - ?l" "(Suc ?e - length ?L) + length (?L @ [a2]) = Suc (?e + 1)" "?l \<le> MaxAlarmCount" "?l \<le> ?e + 1"
      using l len c2(2,3) by simp_all
    moreover have "map (unat \<circ> am_UID) (ac_alarmList c2) = [(Suc ?e - length ?L) + n ..< (Suc ?e - length ?L) + length (?L @ [a2])]"
      unfolding c2(4) using up1 by (simp only: drop_map [symmetric] drop_upt)
    ultimately have "map (unat \<circ> am_UID) (ac_alarmList c2) = [Suc (?e + 1) - ?l ..< Suc (?e + 1)]" "?l \<le> MaxAlarmCount" "?l \<le> ?e + 1" by simp_all
    moreover have "view (ac_table c2) = table_of (ac_alarmList c2)" using c2(4,5) by simp
    moreover have "c' = c2" using 3(2) c2(1) by simp
    ultimately show ?thesis using 3(1) c2(6) u(2) by (simp add: mirrored_def add_finish_def del: upt_Suc)
  qed (use m in simp)
qed

end

lemma lookup_finds:
  assumes "sorted_wrt (<) (map (unat \<circ> am_UID) xs)" "j < length xs"
  shows "getAlarmFromList (am_UID (xs ! j)) xs = Done (Some j)"
proof -
  have "distinct (map am_UID xs)" using assms(1) by (intro distinct_uids) (simp add: strict_sorted_iff)
  then have "k = j" if "k < length xs" "am_UID (xs ! k) = am_UID (xs ! j)" for k
    using that assms(2) by (metis distinct_conv_nth length_map nth_map)
  then have "List.find (\<lambda>i. am_UID (xs ! i) = am_UID (xs ! j)) ys = Some j" if "set ys = {0..<length xs}" for ys
    using that assms(2) find_in [of _ ys] by (cases "List.find (\<lambda>i. am_UID (xs ! i) = am_UID (xs ! j)) ys") (force simp: find_None_iff)+
  with assms(2) show ?thesis
    by (cases xs) (auto simp: getAlarmFromList_def getAlarmFromOutdated_def getAlarmFromLatest_def simp del: upt_Suc)
qed

context alarm_live
begin

lemma mirrored_acknowledge:
  assumes m: "mirrored (view (ac_table c)) c" and a: "a \<in> set (ac_alarmList c)"
  shows "mirrored (view (ac_table (fst (alarm_Update T (a\<lparr>am_Acknowledged := True\<rparr>) c)))) (fst (alarm_Update T (a\<lparr>am_Acknowledged := True\<rparr>) c))
    \<and> snd (alarm_Update T (a\<lparr>am_Acknowledged := True\<rparr>) c) = Done None"
proof -
  let ?L = "ac_alarmList c" and ?a = "a\<lparr>am_Acknowledged := True\<rparr>"
  from a obtain j where j: "j < length ?L" "a = ?L ! j" by (auto simp: in_set_conv_nth)
  note i = mirrored_inv [OF m]
  have s: "sorted_wrt (<) (map (unat \<circ> am_UID) ?L)" "distinct (map am_UID ?L)" using i inv_distinct [OF i] by (simp_all add: alarm_inv_def)
  from m have V: "view (ac_table c) = table_of ?L" by (simp add: mirrored_def)
  have "view (ac_table c) (formatUint (am_UID ?a)) \<noteq> None" using i a by (simp add: alarm_inv_def stored_def)
  then obtain d where d: "updateAlarmToDB T ?a (ac_table c) = (d, None)" "view d = (view (ac_table c))(formatUint (am_UID ?a) \<mapsto> Json ?a)"
    using write_update_live unfolding updateAlarmToDB_def json_marshal_def by metis
  have f: "getAlarmFromList (am_UID ?a) ?L = Done (Some j)" using lookup_finds [OF s(1) j(1)] j(2) by simp
  have e: "alarm_Update T ?a c = (c\<lparr>ac_table := d, ac_alarmList := ?L[j := ?a]\<rparr>, Done None)"
    using d(1) f j(2) by (simp add: alarm_Update_def)
  have t: "table_of (?L[j := ?a]) = (table_of ?L)(formatUint (am_UID ?a) \<mapsto> Json ?a)"
    by (rule table_of_update) (use s(2) j in auto)
  have "map (unat \<circ> am_UID) (?L[j := ?a]) = map (unat \<circ> am_UID) ?L"
    using j by (simp add: map_update list_update_same_conv)
  with m d(2) t V e show ?thesis by (simp add: mirrored_def del: upt_Suc)
qed

lemma calls_mirrored: "alarm_calls T c0 c \<Longrightarrow> mirrored (view (ac_table c0)) c0 \<Longrightarrow> mirrored (view (ac_table c)) c"
proof (induction rule: alarm_calls.induct)
  case (call_add c t a c' s)
  then show ?case using mirrored_add by blast
next
  case (call_acknowledge c a)
  then show ?case using mirrored_acknowledge by (simp add: alarm_List_def)
qed

lemma restart_mirrored:
  assumes m: "mirrored (view (ac_table c)) c"
  shows "initFromDB T (ac_table c) = Inr (c\<lparr>ac_eventID := if ac_alarmList c = [] then 0 else ac_eventID c\<rparr>)"
proof -
  let ?L = "ac_alarmList c" and ?can = "map (\<lambda>a. (formatUint (am_UID a), Json a)) (ac_alarmList c)"
  obtain kvs where kvs: "kv_read T id (\<lambda>tx. map_err id (kvList T tx)) (ac_table c) = Inr kvs" using read_list_live by blast
  from read_list [OF kvs] m have k: "map_of kvs = map_of ?can" "distinct (map fst kvs)" by (simp_all add: mirrored_def table_of_def)
  have dl: "distinct (map am_UID ?L)" using inv_distinct [OF mirrored_inv [OF m]] .
  then have "distinct (map fst ?can)" by (simp add: distinct_map inj_on_def)
  then have "mset kvs = mset ?can" using map_of_eq_mset [OF k(1,2)] by simp
  then have vals: "mset (map snd kvs) = image_mset Json (mset ?L)" by (simp only: mset_map) (simp add: multiset.map_comp comp_def)
  then have "set (map snd kvs) \<subseteq> range Json" using mset_eq_setD [of "map snd kvs" "map Json ?L"] by auto
  then obtain logs where logs: "map snd kvs = map Json logs" using list_in_range by blast
  have "image_mset Json (mset logs) = image_mset Json (mset ?L)" using vals unfolding logs by simp
  then have ms: "mset logs = mset ?L" by (rule multiset.inj_map_strong [rotated]) auto
  have "sorted (map am_UID ?L)" using mirrored_inv [OF m]
    by (auto simp: alarm_inv_def sorted_wrt_map word_le_nat_alt intro: sorted_wrt_mono_rel [rotated])
  then have sk: "sort_key am_UID logs = ?L" using ms dl by (intro sort_key_unique) auto
  have "am_UID (last ?L) = ac_eventID c" if "?L \<noteq> []"
  proof -
    have "unat (am_UID (last ?L)) = last (map (unat \<circ> am_UID) ?L)" using that by (simp add: last_map)
    also have "\<dots> = unat (ac_eventID c)" using m that by (simp add: mirrored_def del: upt_Suc)
    finally show ?thesis by (simp add: word_unat_eq_iff)
  qed
  with kvs logs sk show ?thesis by (simp add: initFromDB_def getAlarmsFromDB_def)
qed

end

section \<open>Properties\<close>

interpretation mem_alarms: alarm_live mem_table map_of "\<lambda>(d, t). map_of t"
  by unfold_locales

definition no_alarms :: "'d \<Rightarrow> 'd alarm_cache" where
  "no_alarms d = \<lparr>ac_eventID = 0, ac_alarmList = [], ac_table = d\<rparr>"

text \<open>
  C20. However the goroutines that add, acknowledge and delete alarms interleave, and whatever fails in
  the table: the list is ordered by number, no number occurs twice or passes the counter (by one
  while an addition is under way), and every alarm of the list is in the table, which holds alarms
  under their own numbers.
\<close>

theorem alarm_cache_invariant:
  assumes "kv_laws T view txview" "view d = Map.empty" "length steps < 2 ^ 64"
    and "foldl (\<lambda>s e. alarm_step T e s) (no_alarms d, 0) steps = (c, pending)"
  shows "sorted_wrt (<) (map (unat \<circ> am_UID) (rev (alarm_List c)))
    \<and> (\<forall>a \<in> set (alarm_List c). unat (am_UID a) \<le> unat (ac_eventID c) + min 1 pending
         \<and> (\<exists>b. view (ac_table c) (formatUint (am_UID a)) = Some (Json b) \<and> am_UID b = am_UID a))"
proof -
  from assms(1) have S: "alarm_store T view txview" by (simp add: alarm_store_def)
  have "alarm_inv (view (ac_table (no_alarms d))) (no_alarms d) 0" by (simp add: alarm_inv_def no_alarms_def stored_def keyed_def assms(2))
  from alarm_store.run_inv [OF S assms(4) this] assms(3) have i: "alarm_inv (view (ac_table c)) c pending" by (simp add: no_alarms_def)
  have "\<exists>b. view (ac_table c) (formatUint (am_UID a)) = Some (Json b) \<and> am_UID b = am_UID a" if a: "a \<in> set (ac_alarmList c)" for a
  proof -
    from i a obtain v where v: "view (ac_table c) (formatUint (am_UID a)) = Some v" by (auto simp: alarm_inv_def stored_def)
    moreover from i v obtain b where "v = Json b" "formatUint (am_UID a) = formatUint (am_UID b)"
      unfolding alarm_inv_def keyed_def by blast
    ultimately show ?thesis by auto
  qed
  with i show ?thesis by (simp add: alarm_inv_def alarm_List_def)
qed

definition sample_alarm :: "string \<Rightarrow> alarm" where
  "sample_alarm m = (new_alarm 7)\<lparr>am_Cluster := ''local'', am_Kind := ''Pod'', am_Message := m\<rparr>"

definition sample_steps :: "alarm_op list" where
  "sample_steps = [AddLocked 0 (sample_alarm ''a''), AddFinish, AddLocked 0 (sample_alarm ''b''), AddLocked 0 (sample_alarm ''c''), AddFinish]"

theorem alarm_cache_invariant_witness:
  "\<exists>c. foldl (\<lambda>s e. alarm_step mem_table e s) (no_alarms [], 0) sample_steps = (c, 0)
     \<and> map am_Message (alarm_List c) = [''b'', ''a''] \<and> sorted_wrt (<) (map (unat \<circ> am_UID) (rev (alarm_List c)))"
proof -
  obtain c p where r: "foldl (\<lambda>s e. alarm_step mem_table e s) (no_alarms [], 0) sample_steps = (c, p)" by force
  have "map am_Message (alarm_List (fst (foldl (\<lambda>s e. alarm_step mem_table e s) (no_alarms [], 0) sample_steps))) = [''b'', ''a'']
     \<and> snd (foldl (\<lambda>s e. alarm_step mem_table e s) (no_alarms [], 0) sample_steps) = 0" by code_simp
  moreover have "length sample_steps < 2 ^ 64" by (simp add: sample_steps_def)
  ultimately show ?thesis
    using alarm_cache_invariant [OF mem.kv_laws_axioms _ _ r] r by simp
qed

text \<open>
  C39. When calls follow one another, the table works, no cluster is removed and clients send back
  the alarms they read: the numbers of the list are consecutive and end at the counter, there are at
  most \<open>MaxAlarmCount\<close>, and a restart finds the same list and, unless it is empty, the same counter.
\<close>

theorem alarm_restart:
  assumes "kv_live T view txview" "view d = Map.empty" "alarm_calls T (no_alarms d) c"
  shows "length (alarm_List c) \<le> MaxAlarmCount
    \<and> map (unat \<circ> am_UID) (rev (alarm_List c)) = [Suc (unat (ac_eventID c)) - length (alarm_List c) ..< Suc (unat (ac_eventID c))]
    \<and> initFromDB T (ac_table c) = Inr (c\<lparr>ac_eventID := if alarm_List c = [] then 0 else ac_eventID c\<rparr>)"
proof -
  from assms(1) have S: "alarm_live T view txview" by (simp add: alarm_live_def alarm_store_def kv_live_def)
  have "mirrored (view (ac_table (no_alarms d))) (no_alarms d)" by (simp add: mirrored_def no_alarms_def table_of_def assms(2))
  from alarm_live.calls_mirrored [OF S assms(3) this] have m: "mirrored (view (ac_table c)) c" .
  with alarm_live.restart_mirrored [OF S m] show ?thesis by (simp add: mirrored_def alarm_List_def del: upt_Suc)
qed

definition sample_add :: "string \<Rightarrow> alarm json mem_db alarm_cache \<Rightarrow> alarm json mem_db alarm_cache" where
  "sample_add m c = (case add_locked mem_table 0 (sample_alarm m) c of (c', s) \<Rightarrow> if s = None then c' else add_finish c')"

lemma sample_calls: "alarm_calls mem_table c0 c \<Longrightarrow> unat (ac_eventID c) + 1 < 2 ^ 64 \<Longrightarrow> alarm_calls mem_table c0 (sample_add m c)"
  by (cases "add_locked mem_table 0 (sample_alarm m) c") (simp only: sample_add_def prod.case call_add)

theorem alarm_restart_witness:
  "\<exists>c. map am_Message (alarm_List c) = [''b'', ''a''] \<and> initFromDB mem_table (ac_table c) = Inr c"
proof -
  have "ac_eventID (no_alarms ([] :: alarm json mem_db)) = 0" "ac_eventID (sample_add ''a'' (no_alarms [])) = 1" by code_simp+
  then have "alarm_calls mem_table (no_alarms []) (sample_add ''b'' (sample_add ''a'' (no_alarms [])))"
    by (intro sample_calls calls_start) simp_all
  moreover have m: "map am_Message (alarm_List (sample_add ''b'' (sample_add ''a'' (no_alarms [])))) = [''b'', ''a'']" by code_simp
  then have "alarm_List (sample_add ''b'' (sample_add ''a'' (no_alarms []))) \<noteq> []" by force
  ultimately show ?thesis
    using alarm_restart [OF mem.kv_live_axioms, of "[]" "sample_add ''b'' (sample_add ''a'' (no_alarms []))"] m
    by (intro exI [of _ "sample_add ''b'' (sample_add ''a'' (no_alarms []))"]) simp
qed

definition gap_cache :: "unit alarm_cache" where
  "gap_cache = \<lparr>ac_eventID = 7, ac_alarmList = [stamp_alarm 5 (sample_alarm ''a''), stamp_alarm 7 (sample_alarm ''b'')], ac_table = ()\<rparr>"

theorem alarm_listener_comes_to_rest_witness:
  "\<exists>lastID' sent. publish_all gap_cache (4, []) = Some (lastID', sent) \<and> set sent = set (alarm_List gap_cache) \<and> getAlarmsAfterID lastID' gap_cache = []"
proof -
  have "alarm_inv (table_of (ac_alarmList gap_cache)) gap_cache 0"
    by (auto simp: alarm_inv_def gap_cache_def stamp_alarm_def stored_def keyed_def table_of_def split: if_splits)
  from alarm_listener_comes_to_rest [OF this, of 4 "[]"] show ?thesis
    by (auto simp: gap_cache_def alarm_List_def stamp_alarm_def)
qed

end
