(* ===== verification/Threshold.thy ===== *)
theory Threshold
  imports Alarm UserManager KubeResources
begin

text \<open>
  The alarm thresholds (\<^verbatim>\<open>pkg/handler/threshold_manager.go\<close>): one record in a table and in memory, copied
  as a configuration map into every ready cluster when it changes and into a cluster when it appears.
  The ready clusters are given in the order of \<^verbatim>\<open>ListReady\<close>, with their servers.
\<close>

section \<open>Operations\<close>

abbreviation ZCloudNamespace :: string where "ZCloudNamespace \<equiv> ''zcloud''"

record 't threshold_manager =
  tm_table :: 't
  tm_threshold :: threshold

definition addThresholdToDB :: "('t, 'tx) threshold_table \<Rightarrow> threshold \<Rightarrow> 't \<Rightarrow> 't \<times> goerr option" where
  "addThresholdToDB T th = kv_write T (\<lambda>e. ''begin transaction failed: '' @ e) id
     (\<lambda>tx. map_err id (kvAdd T tx (th_ID th) (json_marshal th)))"

definition updateThresholdToDB :: "('t, 'tx) threshold_table \<Rightarrow> threshold \<Rightarrow> 't \<Rightarrow> 't \<times> goerr option" where
  "updateThresholdToDB T th = kv_write T (\<lambda>e. ''begin transaction failed: '' @ e) id
     (\<lambda>tx. map_err id (kvUpdate T tx (th_ID th) (json_marshal th)))"

definition default_threshold :: "string \<Rightarrow> threshold" where
  "default_threshold name =
     \<lparr>th_ID = name, th_Cpu = 80, th_Memory = 80, th_Storage = 80, th_PodCount = 80,
      th_MailFrom = \<lparr>mf_User = '''', mf_Password = '''', mf_Host = '''', mf_Port = 0\<rparr>, th_MailTo = []\<rparr>"

definition createDefaultThreshold :: "('t, 'tx) threshold_table \<Rightarrow> string \<Rightarrow> 't \<Rightarrow> 't \<times> (goerr + threshold)" where
  "createDefaultThreshold T name d =
     (case addThresholdToDB T (default_threshold name) d of
        (d', Some e) \<Rightarrow> (d', Inl e) | (d', None) \<Rightarrow> (d', Inr (default_threshold name)))"

definition initThreshold :: "('t, 'tx) threshold_table \<Rightarrow> 't \<Rightarrow> 't \<times> (goerr + 't threshold_manager)" where
  "initThreshold T d =
     (case getThresholdFromDB T ThresholdTable d of
        Inr th \<Rightarrow> (d, Inr \<lparr>tm_table = d, tm_threshold = th\<rparr>)
      | Inl ErrNotFound \<Rightarrow>
          (case createDefaultThreshold T ThresholdTable d of
             (d', Inl e) \<Rightarrow> (d', Inl (''create default threshold failed: '' @ e))
           | (d', Inr th) \<Rightarrow> (d', Inr \<lparr>tm_table = d', tm_threshold = th\<rparr>))
      | Inl (ReadError e) \<Rightarrow> (d, Inl (''get threshold from DB failed: '' @ e)))"

definition thresholdToConfigmap :: "threshold \<Rightarrow> config_map" where
  "thresholdToConfigmap th =
     \<lparr>cm_ID = '''', cm_CreationTimestamp = 0, cm_DeletionTimestamp = None, cm_Name = ThresholdTable,
      cm_Configs = [(''cpu'', itoa (th_Cpu th)), (''memory'', itoa (th_Memory th)), (''storage'', itoa (th_Storage th)),
        (''podCount'', itoa (th_PodCount th))]\<rparr>"

text \<open>A cluster that appears gets the map; when that fails an alarm is published.\<close>

definition th_cluster_created ::
  "('k, pairs) kube_api \<Rightarrow> time \<Rightarrow> string \<Rightarrow> 't threshold_manager \<Rightarrow> 'k \<Rightarrow> 'k \<times> alarm option" where
  "th_cluster_created K now cluster m k =
     (case createConfigMap K ZCloudNamespace (thresholdToConfigmap (tm_threshold m)) k of
        (k', None) \<Rightarrow> (k', None)
      | (k', Some e) \<Rightarrow>
          (k', Some ((new_alarm now)\<lparr>am_Cluster := cluster, am_Namespace := ZCloudNamespace, am_Kind := ''Threshold'',
             am_Name := th_ID (tm_threshold m), am_Reason := k8s_text e,
             am_Message := ''failed to apply threshold to cluster '' @ cluster\<rparr>)))"

fun push_threshold :: "('k, pairs) kube_api \<Rightarrow> threshold \<Rightarrow> (string \<times> 'k) list \<Rightarrow> (string \<times> 'k) list \<times> goerr option" where
  "push_threshold K th [] = ([], None)"
| "push_threshold K th ((c, k) # ready) =
     (let sccm = (thresholdToConfigmap th)\<lparr>cm_ID := ThresholdTable\<rparr>;
          next = (\<lambda>k'. let (ready', r) = push_threshold K th ready in ((c, k') # ready', r))
      in case updateConfigMap K ZCloudNamespace sccm k of
           (k', None) \<Rightarrow> next k'
         | (k', Some e) \<Rightarrow>
             if IsNotFound e
             then (case createConfigMap K ZCloudNamespace sccm k' of
                     (k'', None) \<Rightarrow> next k''
                   | (k'', Some e') \<Rightarrow>
                       ((c, k'') # ready, Some (''cluster '' @ c @ '' doesn't have threshold, create it first but failed: '' @ k8s_text e')))
             else ((c, k') # ready, Some (''in cluster '' @ c @ '' failed: '' @ k8s_text e)))"

definition updateThreshold ::
  "('t, 'tx) threshold_table \<Rightarrow> ('k, pairs) kube_api \<Rightarrow> threshold \<Rightarrow> 't \<Rightarrow> (string \<times> 'k) list \<Rightarrow> ('t \<times> (string \<times> 'k) list) \<times> goerr option" where
  "updateThreshold T K th d ready =
     (case updateThresholdToDB T th d of
        (d', Some e) \<Rightarrow> ((d', ready), Some e)
      | (d', None) \<Rightarrow> (let (ready', r) = push_threshold K th ready in ((d', ready'), r)))"

definition th_Update ::
  "('t, 'tx) threshold_table \<Rightarrow> ('k, pairs) kube_api \<Rightarrow> string option \<Rightarrow> threshold \<Rightarrow> 't threshold_manager \<times> (string \<times> 'k) list \<Rightarrow>
   ('t threshold_manager \<times> (string \<times> 'k) list) \<times> (api_error + threshold)" where
  "th_Update T K current th s =
     (let (m, ready) = s
      in if \<not> isAdmin (getCurrentUser current) then ((m, ready), Inl (APIError PermissionDenied ''only admin can update threshold''))
         else (case updateThreshold T K th (tm_table m) ready of
                 ((d, ready'), Some e) \<Rightarrow>
                   ((\<lparr>tm_table = d, tm_threshold = th\<rparr>, ready'), Inl (APIError ConnectClusterFailed (''update threshold failed '' @ e)))
               | ((d, ready'), None) \<Rightarrow> ((\<lparr>tm_table = d, tm_threshold = th\<rparr>, ready'), Inr th)))"

definition th_Get :: "string option \<Rightarrow> 't threshold_manager \<Rightarrow> api_error + threshold" where
  "th_Get current m =
     (if \<not> isAdmin (getCurrentUser current) then Inl (APIError PermissionDenied ''only admin can get threshold'') else Inr (tm_threshold m))"

definition th_List :: "string option \<Rightarrow> 't threshold_manager \<Rightarrow> api_error + threshold list" where
  "th_List current m =
     (if \<not> isAdmin (getCurrentUser current) then Inl (APIError PermissionDenied ''only admin can get thresholds'') else Inr [tm_threshold m])"

section \<open>Properties\<close>

text \<open>What a cluster holds when the thresholds have reached it.\<close>

definition has_threshold :: "('k, pairs) kube_api \<Rightarrow> threshold \<Rightarrow> 'k \<Rightarrow> bool" where
  "has_threshold K th k \<longleftrightarrow> (\<exists>obj. kGet K ZCloudNamespace ThresholdTable k = Inr obj \<and>
     map_of (ko_body obj) = [''cpu'' \<mapsto> itoa (th_Cpu th), ''memory'' \<mapsto> itoa (th_Memory th), ''storage'' \<mapsto> itoa (th_Storage th), ''podCount'' \<mapsto> itoa (th_PodCount th)])"

lemma threshold_object:
  "scConfigMapToK8sConfigMap ((thresholdToConfigmap th)\<lparr>cm_ID := i\<rparr>) ns = Inr (new_obj ns ThresholdTable (cm_Configs (thresholdToConfigmap th)))"
  by (simp add: scConfigMapToK8sConfigMap_def thresholdToConfigmap_def)

lemma threshold_configs:
  "map_of (cm_Configs (thresholdToConfigmap th)) =
     [''cpu'' \<mapsto> itoa (th_Cpu th), ''memory'' \<mapsto> itoa (th_Memory th), ''storage'' \<mapsto> itoa (th_Storage th), ''podCount'' \<mapsto> itoa (th_PodCount th)]"
  by (simp add: thresholdToConfigmap_def fun_eq_iff)

lemma create_has_threshold:
  assumes "kube_live K view map_of" "createConfigMap K ZCloudNamespace ((thresholdToConfigmap th)\<lparr>cm_ID := i\<rparr>) k = (k', None)"
  shows "has_threshold K th k'"
proof -
  from assms(2) have "kCreate K (new_obj ZCloudNamespace ThresholdTable (cm_Configs (thresholdToConfigmap th))) k = (k', None)"
    by (simp add: createConfigMap_def crud_create_def threshold_object)
  from kube_live.create_then_get [OF assms(1) this] show ?thesis
    unfolding has_threshold_def threshold_configs [symmetric] by (auto simp: new_obj_def)
qed

lemma update_has_threshold:
  assumes live: "kube_live K view map_of" and u: "updateConfigMap K ZCloudNamespace ((thresholdToConfigmap th)\<lparr>cm_ID := ThresholdTable\<rparr>) k = (k', None)"
  shows "has_threshold K th k'"
proof -
  from u obtain target where t: "kGet K ZCloudNamespace ThresholdTable k = Inr target"
    and k': "kUpdate K (target\<lparr>ko_body := cm_Configs (thresholdToConfigmap th)\<rparr>) k = (k', None)"
    by (auto simp: updateConfigMap_def threshold_object new_obj_def split: sum.splits if_splits)
  have laws: "kube_laws K view map_of" using live by (simp add: kube_live_def)
  have v: "view k (ZCloudNamespace, ThresholdTable) = Some target" by (rule kube_laws.get_view [OF laws t])
  have "ko_namespace target = ZCloudNamespace" "ko_name target = ThresholdTable" using kube_laws.view_key [OF laws, OF v] by simp_all
  then obtain obj where "kGet K ZCloudNamespace ThresholdTable k' = Inr obj" "map_of (ko_body obj) = map_of (cm_Configs (thresholdToConfigmap th))"
    using kube_live.update_then_get [OF live k'] by auto
  then show ?thesis unfolding has_threshold_def threshold_configs by blast
qed

lemma push_has_threshold:
  assumes "kube_live K view map_of" "push_threshold K th ready = (ready', None)"
  shows "map fst ready' = map fst ready \<and> list_all (\<lambda>ck. has_threshold K th (snd ck)) ready'"
  using assms(2)
proof (induction ready arbitrary: ready')
  case (Cons ck ready)
  then show ?case
    using update_has_threshold [OF assms(1)] create_has_threshold [OF assms(1)]
    by (cases ck) (auto simp: Let_def split: prod.splits option.splits if_splits)
qed simp

text \<open>
  A change of the thresholds that is reported as done is in memory and in the table, where a restart
  finds it, and every ready cluster holds it in its configuration map. Only the administrator may
  change or read them. A change that failed is in memory all the same.
\<close>

theorem threshold_update_reaches_clusters:
  assumes "kv_live T view txview" "kube_live K kview map_of"
    and "th_Update T K current th (m, ready) = ((m', ready'), r)"
  shows "(\<not> isAdmin (getCurrentUser current) \<longrightarrow> m' = m \<and> ready' = ready \<and> r \<noteq> Inr th \<and> \<not> (\<exists>x. th_Get current m = Inr x))
    \<and> (isAdmin (getCurrentUser current) \<longrightarrow> th_Get current m' = Inr th)
    \<and> (r = Inr th \<longrightarrow> map fst ready' = map fst ready \<and> list_all (\<lambda>ck. has_threshold K th (snd ck)) ready'
         \<and> (th_ID th = ThresholdTable \<longrightarrow> initThreshold T (tm_table m') = (tm_table m', Inr m')))"
proof -
  have laws: "kv_laws T view txview" using assms(1) by (simp add: kv_live_def)
  have "map fst ready' = map fst ready \<and> list_all (\<lambda>ck. has_threshold K th (snd ck)) ready'
         \<and> (th_ID th = ThresholdTable \<longrightarrow> initThreshold T (tm_table m') = (tm_table m', Inr m'))" if r: "r = Inr th"
  proof -
    from assms(3) r obtain d where d: "updateThresholdToDB T th (tm_table m) = (d, None)" "push_threshold K th ready = (ready', None)"
      "m' = \<lparr>tm_table = d, tm_threshold = th\<rparr>"
      by (auto simp: th_Update_def updateThreshold_def split: if_splits prod.splits option.splits)
    from kv_laws.write_update [OF laws d(1) [unfolded updateThresholdToDB_def]]
    have v: "view d (th_ID th) = Some (Json th)" by (simp add: json_marshal_def)
    obtain tx where tx: "kvBegin T d = Inr tx" using kv_live.begin_ok [OF assms(1)] by blast
    obtain g where g: "kvGet T tx (th_ID th) = Inr g" using kv_live.get_ok [OF assms(1)] by blast
    have "g = Some (Json th)" using kv_laws.get_view [OF laws, OF g] kv_laws.begin_view [OF laws, OF tx] v by simp
    with tx g have "getThresholdFromDB T (th_ID th) d = Inr th" by (simp add: getThresholdFromDB_def)
    then have "getThresholdFromDB T ThresholdTable d = Inr th" if "th_ID th = ThresholdTable" using that by simp
    then have "th_ID th = ThresholdTable \<longrightarrow> initThreshold T (tm_table m') = (tm_table m', Inr m')" by (simp add: initThreshold_def d(3))
    with push_has_threshold [OF assms(2) d(2)] show ?thesis by blast
  qed
  with assms(3) show ?thesis
    by (auto simp: th_Update_def th_Get_def split: if_splits prod.splits option.splits)
qed

theorem threshold_update_reaches_clusters_witness:
  "\<exists>m' k. th_Update mem_table mem_kube (Some Administrator) ((default_threshold ThresholdTable)\<lparr>th_Cpu := 90\<rparr>)
       (\<lparr>tm_table = [(ThresholdTable, Json (default_threshold ThresholdTable))], tm_threshold = default_threshold ThresholdTable\<rparr>, [(''local'', [])]) =
       ((m', [(''local'', k)]), Inr ((default_threshold ThresholdTable)\<lparr>th_Cpu := 90\<rparr>))
     \<and> has_threshold mem_kube ((default_threshold ThresholdTable)\<lparr>th_Cpu := 90\<rparr>) k \<and> initThreshold mem_table (tm_table m') = (tm_table m', Inr m')"
proof -
  let ?th = "(default_threshold ThresholdTable)\<lparr>th_Cpu := 90\<rparr>"
  let ?m = "\<lparr>tm_table = [(ThresholdTable, Json (default_threshold ThresholdTable))], tm_threshold = default_threshold ThresholdTable\<rparr>"
  obtain m' ready' r where u: "th_Update mem_table mem_kube (Some Administrator) ?th (?m, [(''local'', [])]) = ((m', ready'), r)" by (metis prod.collapse)
  have "updateThresholdToDB mem_table ?th (tm_table ?m) = ([(ThresholdTable, Json ?th)], None)"
    by (simp add: updateThresholdToDB_def kv_write_def json_marshal_def default_threshold_def)
  moreover have "updateConfigMap mem_kube ZCloudNamespace ((thresholdToConfigmap ?th)\<lparr>cm_ID := ThresholdTable\<rparr>) [] = ([], Some (K8sNotFound ''not found''))"
    by (simp add: updateConfigMap_def mem_kube_def mem_view_def)
  moreover have "snd (createConfigMap mem_kube ZCloudNamespace ((thresholdToConfigmap ?th)\<lparr>cm_ID := ThresholdTable\<rparr>) []) = None"
    by (simp add: createConfigMap_def crud_create_def threshold_object mem_kube_def mem_view_def)
  ultimately have r: "r = Inr ?th" using u
    by (auto simp: th_Update_def updateThreshold_def isAdmin_def getCurrentUser_def split: prod.splits option.splits)
  have "th_ID ?th = ThresholdTable" by (simp add: default_threshold_def)
  from threshold_update_reaches_clusters [OF mem.kv_live_axioms mem_kube_kept u] r this
  have p: "map fst ready' = [''local'']" "list_all (\<lambda>ck. has_threshold mem_kube ?th (snd ck)) ready'" "initThreshold mem_table (tm_table m') = (tm_table m', Inr m')"
    by simp_all
  from p(1) obtain k where "ready' = [(''local'', k)]" by (cases ready') auto
  with u r p show ?thesis by auto
qed

end
