(* ===== verification/PodTemplate.thy ===== *)
theory PodTemplate
  imports KubeResources
begin

text \<open>
  The pods of a workload (\<^verbatim>\<open>pkg/handler/podtemplate.go\<close>, and the helpers of \<^verbatim>\<open>k8sutil.go\<close> and
  \<^verbatim>\<open>pvc_manager.go\<close> it calls): containers with ports, environment and volumes are translated to a
  pod specification and back, and the claims for their volumes are created and deleted. The hash
  of the configuration a workload uses is a parameter.
\<close>

section \<open>Containers\<close>

record container_port =
  cp_Name :: string
  cp_Port :: int
  cp_Protocol :: string

record env_var =
  ev_Name :: string
  ev_Value :: string

record volume =
  vo_Type :: string
  vo_Name :: string
  vo_MountPath :: string

record container =
  ct_Name :: string
  ct_Image :: string
  ct_Command :: "string list"
  ct_Args :: "string list"
  ct_ExposedPorts :: "container_port list"
  ct_Env :: "env_var list"
  ct_Volumes :: "volume list"

record pv_template =
  pt_Name :: string
  pt_Size :: string
  pt_StorageClassName :: string

record exposed_metric =
  xm_Path :: string
  xm_Port :: int

record advanced_options =
  ao_ExposedMetric :: exposed_metric
  ao_ReloadWhenConfigChange :: bool
  ao_DeletePVsWhenDeleteWorkload :: bool
  ao_InjectServiceMesh :: bool

abbreviation VolumeTypeConfigMap :: string where "VolumeTypeConfigMap \<equiv> ''configmap''"
abbreviation VolumeTypeSecret :: string where "VolumeTypeSecret \<equiv> ''secret''"
abbreviation VolumeTypePersistentVolume :: string where "VolumeTypePersistentVolume \<equiv> ''persistentVolume''"
abbreviation StorageClassNameTemp :: string where "StorageClassNameTemp \<equiv> ''temporary''"

section \<open>Pod specifications\<close>

datatype 'q volume_source = ConfigMapSource string | SecretSource string | EmptyDirSource "'q option" | ClaimSource string | OtherSource

record 'q k8s_volume =
  kv_Name :: string
  kv_Source :: "'q volume_source"

record volume_mount =
  vm_Name :: string
  vm_MountPath :: string
  vm_ReadOnly :: bool

text \<open>A port of 32 bits; the requests are the quantities every container gets.\<close>

record k8s_container =
  kc_Name :: string
  kc_Image :: string
  kc_Command :: "string list"
  kc_Args :: "string list"
  kc_VolumeMounts :: "volume_mount list"
  kc_Ports :: "(string \<times> int \<times> string) list"
  kc_Env :: "(string \<times> string) list"
  kc_Requests :: "(string \<times> string) list"

record 'q pod_spec =
  ps_Containers :: "k8s_container list"
  ps_Volumes :: "'q k8s_volume list"

record 'q claim =
  cl_AccessModes :: "string list"
  cl_Storage :: "'q option"
  cl_StorageClassName :: "string option"
  cl_VolumeName :: string
  cl_Capacity :: "'q option"
  cl_Phase :: string
  cl_Provisioner :: "string option"

definition int32 :: "int \<Rightarrow> int" where
  "int32 i = sint (word_of_int i :: 32 word)"

text \<open>What \<open>strconv.Atoi\<close> returns beside an error that is ignored: zero, or the nearest number of 64 bits.\<close>

definition atoi_value :: "string \<Rightarrow> int" where
  "atoi_value s =
     (case atoi s of
        Some n \<Rightarrow> n
      | None \<Rightarrow>
          (case s of
             [] \<Rightarrow> 0
           | c # cs \<Rightarrow>
               if c = CHR ''-'' then (if atoi_digits cs = None then 0 else - (2 ^ 63))
               else if atoi_digits s \<noteq> None \<or> (c = CHR ''+'' \<and> atoi_digits cs \<noteq> None) then 2 ^ 63 - 1
               else 0))"

lemma atoi_value_itoa: "- (2 ^ 63) \<le> i \<Longrightarrow> i < 2 ^ 63 \<Longrightarrow> atoi_value (itoa i) = i"
  by (simp add: atoi_value_def atoi_itoa)

section \<open>Ports\<close>

definition scPortProtocolToK8SProtocol :: "string \<Rightarrow> goerr + string" where
  "scPortProtocolToK8SProtocol protocol =
     (if toLower protocol = ''tcp'' then Inr ''TCP''
      else if toLower protocol = ''udp'' then Inr ''UDP''
      else Inl (''protocol '' @ protocol @ '' isn't supported''))"

definition is_lower :: "char \<Rightarrow> bool" where
  "is_lower c \<longleftrightarrow> 97 \<le> (of_char c :: nat) \<and> (of_char c :: nat) \<le> 122"

fun has_double_hyphen :: "string \<Rightarrow> bool" where
  "has_double_hyphen (a # b # s) \<longleftrightarrow> (a = CHR ''-'' \<and> b = CHR ''-'') \<or> has_double_hyphen (b # s)"
| "has_double_hyphen _ \<longleftrightarrow> False"

definition validatePortName :: "string \<Rightarrow> goerr option" where
  "validatePortName name =
     (if length name > 15 then Some ''must be no more than 15 characters''
      else if \<not> (name \<noteq> [] \<and> list_all (\<lambda>c. c = CHR ''-'' \<or> is_lower c \<or> is_digit c) name)
      then Some ''must contain only alpha-numeric characters (a-z, 0-9), and hyphens (-)''
      else if \<not> list_ex is_lower name then Some ''must contain at least one letter (a-z)''
      else if has_double_hyphen name then Some ''must not contain consecutive hyphens(--)''
      else if length name > 0 \<and> (name ! 0 = CHR ''-'' \<or> name ! (length name - 1) = CHR ''-'')
      then Some ''must not begin or end with a hyphen (-)''
      else None)"

fun sc_ports :: "string list \<Rightarrow> container_port list \<Rightarrow> goerr + (string \<times> int \<times> string) list" where
  "sc_ports portNames [] = Inr []"
| "sc_ports portNames (spec # specs) =
     (case scPortProtocolToK8SProtocol (cp_Protocol spec) of
        Inl e \<Rightarrow> Inl (''invalid protocol '' @ cp_Protocol spec @ '' for container port'')
      | Inr protocol \<Rightarrow>
          (case validatePortName (cp_Name spec) of
             Some e \<Rightarrow> Inl (''exposed port name '' @ cp_Name spec @ '' invalid: '' @ e)
           | None \<Rightarrow>
               if cp_Name spec \<in> set portNames then Inl (''duplicate container port name '' @ cp_Name spec)
               else map_sum (\<lambda>e. e) ((#) (cp_Name spec, int32 (cp_Port spec), protocol)) (sc_ports (portNames @ [cp_Name spec]) specs)))"

section \<open>Volumes\<close>

text \<open>
  The volume of a mount: its name, its source and whether it is read only. A persistent volume is an
  empty directory or a claim of the workload.
\<close>

definition volume_of ::
  "'q k8s_volume list \<Rightarrow> (string \<times> 'q claim) list \<Rightarrow> string \<Rightarrow> nat \<Rightarrow> volume \<Rightarrow> goerr + string \<times> 'q volume_source \<times> bool" where
  "volume_of emptyDirs pvcs container i v =
     (let generated = container @ ''-vol'' @ formatNat i
      in if vo_Type v = VolumeTypeConfigMap then Inr (generated, ConfigMapSource (vo_Name v), True)
         else if vo_Type v = VolumeTypeSecret then Inr (generated, SecretSource (vo_Name v), True)
         else if vo_Type v = VolumeTypePersistentVolume then
           (case List.find (\<lambda>d. kv_Name d = vo_Name v) emptyDirs of
              Some d \<Rightarrow> Inr (kv_Name d, kv_Source d, False)
            | None \<Rightarrow>
                if list_ex (\<lambda>pvc. fst pvc = vo_Name v) pvcs then Inr (vo_Name v, ClaimSource (vo_Name v), False)
                else Inl (''no found volume '' @ vo_Name v @ '' in persistent volume''))
         else Inl (''volume type '' @ vo_Type v @ '' is unsupported''))"

definition add_volume :: "volume \<Rightarrow> string \<Rightarrow> 'q volume_source \<Rightarrow> 'q k8s_volume list \<Rightarrow> 'q k8s_volume list" where
  "add_volume v name source vols =
     (if vo_Type v = VolumeTypePersistentVolume \<and> list_ex (\<lambda>k. kv_Name k = name) vols then vols
      else vols @ [\<lparr>kv_Name = name, kv_Source = source\<rparr>])"

fun sc_volumes ::
  "'q k8s_volume list \<Rightarrow> (string \<times> 'q claim) list \<Rightarrow> string \<Rightarrow> nat \<Rightarrow> volume list \<Rightarrow> 'q k8s_volume list \<Rightarrow>
   goerr + 'q k8s_volume list \<times> volume_mount list" where
  "sc_volumes emptyDirs pvcs container i [] vols = Inr (vols, [])"
| "sc_volumes emptyDirs pvcs container i (v # vs) vols =
     (case volume_of emptyDirs pvcs container i v of
        Inl e \<Rightarrow> Inl e
      | Inr (name, source, readOnly) \<Rightarrow>
          map_sum (\<lambda>e. e) (\<lambda>(vols', ms). (vols', \<lparr>vm_Name = name, vm_MountPath = vo_MountPath v, vm_ReadOnly = readOnly\<rparr> # ms))
            (sc_volumes emptyDirs pvcs container (Suc i) vs (add_volume v name source vols)))"

fun sc_containers ::
  "'q k8s_volume list \<Rightarrow> (string \<times> 'q claim) list \<Rightarrow> container list \<Rightarrow> 'q k8s_volume list \<Rightarrow>
   goerr + 'q k8s_volume list \<times> k8s_container list" where
  "sc_containers emptyDirs pvcs [] vols = Inr (vols, [])"
| "sc_containers emptyDirs pvcs (c # cs) vols =
     (case sc_volumes emptyDirs pvcs (ct_Name c) 0 (ct_Volumes c) vols of
        Inl e \<Rightarrow> Inl e
      | Inr (vols', mounts) \<Rightarrow>
          (case sc_ports [] (ct_ExposedPorts c) of
             Inl e \<Rightarrow> Inl e
           | Inr ports \<Rightarrow>
               map_sum (\<lambda>e. e) (\<lambda>(vols'', kcs). (vols'',
                   \<lparr>kc_Name = ct_Name c, kc_Image = ct_Image c, kc_Command = ct_Command c, kc_Args = ct_Args c, kc_VolumeMounts = mounts,
                    kc_Ports = ports, kc_Env = map (\<lambda>e. (ev_Name e, ev_Value e)) (ct_Env c),
                    kc_Requests = [(''cpu'', ''10m''), (''memory'', ''20Mi'')]\<rparr> # kcs))
                 (sc_containers emptyDirs pvcs cs vols')))"

definition scContainersAndPVToK8sPodSpec ::
  "container list \<Rightarrow> 'q k8s_volume list \<Rightarrow> (string \<times> 'q claim) list \<Rightarrow> goerr + 'q pod_spec" where
  "scContainersAndPVToK8sPodSpec containers emptyDirs pvcs =
     map_sum (\<lambda>e. e) (\<lambda>(vols, kcs). \<lparr>ps_Containers = kcs, ps_Volumes = vols\<rparr>) (sc_containers emptyDirs pvcs containers [])"

section \<open>Showing a pod\<close>

definition shown_volume :: "'q k8s_volume \<Rightarrow> volume_mount \<Rightarrow> volume list" where
  "shown_volume v vm =
     (case kv_Source v of
        ConfigMapSource n \<Rightarrow> [\<lparr>vo_Type = VolumeTypeConfigMap, vo_Name = n, vo_MountPath = vm_MountPath vm\<rparr>]
      | SecretSource n \<Rightarrow> [\<lparr>vo_Type = VolumeTypeSecret, vo_Name = n, vo_MountPath = vm_MountPath vm\<rparr>]
      | ClaimSource n \<Rightarrow> [\<lparr>vo_Type = VolumeTypePersistentVolume, vo_Name = n, vo_MountPath = vm_MountPath vm\<rparr>]
      | EmptyDirSource s \<Rightarrow> [\<lparr>vo_Type = VolumeTypePersistentVolume, vo_Name = kv_Name v, vo_MountPath = vm_MountPath vm\<rparr>]
      | OtherSource \<Rightarrow> [])"

definition shown_template :: "'q quantity_lib \<Rightarrow> 'q k8s_volume \<Rightarrow> pv_template" where
  "shown_template Q v =
     (case kv_Source v of
        ClaimSource n \<Rightarrow> \<lparr>pt_Name = n, pt_Size = '''', pt_StorageClassName = ''''\<rparr>
      | EmptyDirSource s \<Rightarrow>
          \<lparr>pt_Name = kv_Name v, pt_Size = (case s of None \<Rightarrow> '''' | Some q \<Rightarrow> quantityString Q q), pt_StorageClassName = StorageClassNameTemp\<rparr>
      | _ \<Rightarrow> \<lparr>pt_Name = '''', pt_Size = '''', pt_StorageClassName = ''''\<rparr>)"

definition add_template :: "pv_template \<Rightarrow> pv_template list \<Rightarrow> pv_template list" where
  "add_template t ts = (if pt_Name t \<noteq> '''' \<and> \<not> list_ex (\<lambda>t'. pt_Name t' = pt_Name t) ts then ts @ [t] else ts)"

fun shown_mounts :: "'q quantity_lib \<Rightarrow> 'q k8s_volume list \<Rightarrow> volume_mount list \<Rightarrow> pv_template list \<Rightarrow> volume list \<times> pv_template list" where
  "shown_mounts Q vols [] ts = ([], ts)"
| "shown_mounts Q vols (vm # vms) ts =
     (case List.find (\<lambda>v. kv_Name v = vm_Name vm) vols of
        None \<Rightarrow> shown_mounts Q vols vms ts
      | Some v \<Rightarrow> (let (vs, ts') = shown_mounts Q vols vms (add_template (shown_template Q v) ts) in (shown_volume v vm @ vs, ts')))"

definition shown_ports :: "(string \<times> int \<times> string) list \<Rightarrow> container_port list" where
  "shown_ports = map (\<lambda>(n, p, proto). \<lparr>cp_Name = n, cp_Port = p, cp_Protocol = toLower proto\<rparr>)"

fun k8sPodSpecToScContainersAndVCTemplates ::
  "'q quantity_lib \<Rightarrow> k8s_container list \<Rightarrow> 'q k8s_volume list \<Rightarrow> pv_template list \<Rightarrow> container list \<times> pv_template list" where
  "k8sPodSpecToScContainersAndVCTemplates Q [] vols ts = ([], ts)"
| "k8sPodSpecToScContainersAndVCTemplates Q (kc # kcs) vols ts =
     (let (vs, ts1) = shown_mounts Q vols (kc_VolumeMounts kc) ts;
          (cs, ts2) = k8sPodSpecToScContainersAndVCTemplates Q kcs vols ts1
      in (\<lparr>ct_Name = kc_Name kc, ct_Image = kc_Image kc, ct_Command = kc_Command kc, ct_Args = kc_Args kc,
           ct_ExposedPorts = shown_ports (kc_Ports kc), ct_Env = map (\<lambda>(n, v). \<lparr>ev_Name = n, ev_Value = v\<rparr>) (kc_Env kc), ct_Volumes = vs\<rparr> # cs, ts2))"

section \<open>Claims\<close>

text \<open>
  What is used of the server of a cluster: claims, volumes, storage classes (their parameters),
  configuration maps and secrets.
\<close>

record ('k, 'q) pod_env =
  pe_Q :: "'q quantity_lib"
  pe_claims :: "('k, 'q claim) kube_api"
  pe_pvs :: "('k, unit) kube_api"
  pe_classes :: "('k, pairs) kube_api"
  pe_cms :: "('k, pairs) kube_api"
  pe_secrets :: "('k, secret_body) kube_api"
  pe_hash :: "(string \<rightharpoonup> string \<rightharpoonup> string) \<Rightarrow> (string \<rightharpoonup> string \<rightharpoonup> string) \<Rightarrow> string"

definition deletePVC :: "('k, 'q) pod_env \<Rightarrow> string \<Rightarrow> string \<Rightarrow> 'k \<Rightarrow> 'k" where
  "deletePVC P ns name k =
     (case kGet (pe_claims P) ns name k of
        Inl e \<Rightarrow> k
      | Inr obj \<Rightarrow>
          (let k1 = fst (kDelete (pe_claims P) ns name k); volumeName = cl_VolumeName (ko_body obj)
           in if volumeName \<noteq> '''' then
                (case kGet (pe_pvs P) '''' volumeName k1 of Inl e \<Rightarrow> k1 | Inr pv \<Rightarrow> fst (kDelete (pe_pvs P) '''' volumeName k1))
              else k1))"

definition deletePVCs :: "('k, 'q) pod_env \<Rightarrow> string \<Rightarrow> (string \<times> 'q claim) list \<Rightarrow> 'k \<Rightarrow> 'k" where
  "deletePVCs P ns pvcs k = fold (\<lambda>pvc. deletePVC P ns (fst pvc)) pvcs k"

fun create_claims :: "('k, 'q) pod_env \<Rightarrow> string \<Rightarrow> (string \<times> 'q claim) list \<Rightarrow> 'k \<Rightarrow> 'k \<times> goerr option" where
  "create_claims P ns [] k = (k, None)"
| "create_claims P ns ((name, c) # pvcs) k =
     (case kCreate (pe_claims P) (new_obj ns name c) k of
        (k', Some e) \<Rightarrow> (k', Some (''create pvc '' @ name @ '' with namespace '' @ ns @ '' failed: '' @ k8s_text e))
      | (k', None) \<Rightarrow> create_claims P ns pvcs k')"

definition createPVCs :: "('k, 'q) pod_env \<Rightarrow> string \<Rightarrow> (string \<times> 'q claim) list \<Rightarrow> 'k \<Rightarrow> 'k \<times> goerr option" where
  "createPVCs P ns pvcs k =
     (case create_claims P ns pvcs k of (k', None) \<Rightarrow> (k', None) | (k', Some e) \<Rightarrow> (deletePVCs P ns pvcs k', Some e))"

definition deleteWorkLoadPVCs :: "('k, 'q) pod_env \<Rightarrow> string \<Rightarrow> 'q k8s_volume list \<Rightarrow> 'k \<Rightarrow> 'k" where
  "deleteWorkLoadPVCs P ns vols k =
     fold (\<lambda>v k. case kv_Source v of ClaimSource n \<Rightarrow> deletePVC P ns n k | _ \<Rightarrow> k) vols k"

text \<open>The claim of a template, and the templates of the claims a workload mounts.\<close>

record shown_claim =
  sh_Name :: string
  sh_RequestStorageSize :: string
  sh_StorageClassName :: string
  sh_VolumeName :: string
  sh_ActualStorageSize :: string
  sh_Status :: string
  sh_Driver :: string
  sh_CreationTimestamp :: time
  sh_DeletionTimestamp :: "time option"

definition k8sPVCToSCPVC :: "'q quantity_lib \<Rightarrow> 'q claim k8s_obj \<Rightarrow> shown_claim" where
  "k8sPVCToSCPVC Q obj =
     \<lparr>sh_Name = ko_name obj,
      sh_RequestStorageSize = (case cl_Storage (ko_body obj) of None \<Rightarrow> '''' | Some q \<Rightarrow> quantityString Q q),
      sh_StorageClassName = (case cl_StorageClassName (ko_body obj) of None \<Rightarrow> '''' | Some n \<Rightarrow> n),
      sh_VolumeName = cl_VolumeName (ko_body obj),
      sh_ActualStorageSize = (case cl_Capacity (ko_body obj) of None \<Rightarrow> '''' | Some q \<Rightarrow> quantityString Q q),
      sh_Status = cl_Phase (ko_body obj),
      sh_Driver = (case cl_Provisioner (ko_body obj) of None \<Rightarrow> '''' | Some p \<Rightarrow> p),
      sh_CreationTimestamp = ko_creation obj, sh_DeletionTimestamp = ko_deletion obj\<rparr>"

fun getPVCs :: "('k, 'q) pod_env \<Rightarrow> string \<Rightarrow> pv_template list \<Rightarrow> 'k \<Rightarrow> k8s_err + pv_template list" where
  "getPVCs P ns [] k = Inr []"
| "getPVCs P ns (t # ts) k =
     (if pt_StorageClassName t \<noteq> StorageClassNameTemp
      then (case kGet (pe_claims P) ns (pt_Name t) k of
              Inl e \<Rightarrow> Inl e
            | Inr obj \<Rightarrow>
                (let pvc = k8sPVCToSCPVC (pe_Q P) obj
                 in map_sum (\<lambda>e. e) ((#) \<lparr>pt_Name = sh_Name pvc, pt_Size = sh_RequestStorageSize pvc, pt_StorageClassName = sh_StorageClassName pvc\<rparr>)
                      (getPVCs P ns ts k)))
      else getPVCs P ns ts k)"

text \<open>A storage class without an access mode makes the error message call a nil error.\<close>

fun scPVCsToK8sVolumesAndPVCs ::
  "('k, 'q) pod_env \<Rightarrow> 'k \<Rightarrow> pv_template list \<Rightarrow> (goerr + 'q k8s_volume list \<times> (string \<times> 'q claim) list) outcome" where
  "scPVCsToK8sVolumesAndPVCs P k [] = Done (Inr ([], []))"
| "scPVCsToK8sVolumesAndPVCs P k (pv # pvs) =
     (let sc = pt_StorageClassName pv;
          size = (if pt_Size pv = '''' then Inr None else map_sum (\<lambda>e. e) Some (parseQuantity (pe_Q P) (pt_Size pv)));
          rest = (\<lambda>f. case scPVCsToK8sVolumesAndPVCs P k pvs of Done (Inr r) \<Rightarrow> Done (Inr (f r)) | r \<Rightarrow> r)
      in if sc = '''' then Done (Inl ''persistent volume storageclass name should not be empty'')
         else case size of
           Inl e \<Rightarrow> Done (Inl (''parse storage size '' @ pt_Size pv @ '' failed: '' @ e))
         | Inr q \<Rightarrow>
             if sc = StorageClassNameTemp
             then rest (\<lambda>(ds, cs). (\<lparr>kv_Name = pt_Name pv, kv_Source = EmptyDirSource q\<rparr> # ds, cs))
             else
               (case kGet (pe_classes P) '''' sc k of
                  Inl e \<Rightarrow> Done (Inl (''get storageClass '' @ sc @ '' failed: '' @ k8s_text e))
                | Inr obj \<Rightarrow>
                    (case map_of (ko_body obj) ''accessMode'' of
                       None \<Rightarrow> Panicked ''nil pointer dereference''
                     | Some mode \<Rightarrow>
                         (case q of
                            None \<Rightarrow> Done (Inl ''persistentClaimVolumes storage size must not be zero'')
                          | Some q' \<Rightarrow>
                              rest (\<lambda>(ds, cs). (ds, (pt_Name pv,
                                \<lparr>cl_AccessModes = [mode], cl_Storage = Some q', cl_StorageClassName = Some sc, cl_VolumeName = '''',
                                 cl_Capacity = None, cl_Phase = '''', cl_Provisioner = None\<rparr>) # cs))))))"

definition scPodSpecToK8sPodSpecAndPVCs ::
  "('k, 'q) pod_env \<Rightarrow> 'k \<Rightarrow> container list \<Rightarrow> pv_template list \<Rightarrow> (goerr + 'q pod_spec \<times> (string \<times> 'q claim) list) outcome" where
  "scPodSpecToK8sPodSpecAndPVCs P k containers pvs =
     (case scPVCsToK8sVolumesAndPVCs P k pvs of
        Panicked p \<Rightarrow> Panicked p
      | Done (Inl e) \<Rightarrow> Done (Inl e)
      | Done (Inr (emptyDirs, pvcs)) \<Rightarrow>
          Done (map_sum (\<lambda>e. e) (\<lambda>spec. (spec, pvcs)) (scContainersAndPVToK8sPodSpec containers emptyDirs pvcs)))"

section \<open>The metadata of a workload and of its pods\<close>

text \<open>The configuration maps and secrets the containers mount, each read once.\<close>

fun config_volumes ::
  "('k, 'q) pod_env \<Rightarrow> string \<Rightarrow> 'k \<Rightarrow> volume list \<Rightarrow> (string \<times> pairs) list \<times> (string \<times> pairs) list \<Rightarrow>
   string list \<times> string list \<Rightarrow> k8s_err + (string \<times> pairs) list \<times> (string \<times> pairs) list" where
  "config_volumes P ns k [] res seen = Inr res"
| "config_volumes P ns k (v # vs) (cms, ss) (cmNames, sNames) =
     (if vo_Type v = VolumeTypeConfigMap \<and> vo_Name v \<notin> set cmNames
      then (case kGet (pe_cms P) ns (vo_Name v) k of
              Inl e \<Rightarrow> Inl e | Inr cm \<Rightarrow> config_volumes P ns k vs (cms @ [(ko_name cm, ko_body cm)], ss) (vo_Name v # cmNames, sNames))
      else if vo_Type v = VolumeTypeSecret \<and> vo_Name v \<notin> set sNames
      then (case kGet (pe_secrets P) ns (vo_Name v) k of
              Inl e \<Rightarrow> Inl e | Inr s \<Rightarrow> config_volumes P ns k vs (cms, ss @ [(ko_name s, sb_data (ko_body s))]) (cmNames, vo_Name v # sNames))
      else config_volumes P ns k vs (cms, ss) (cmNames, sNames))"

definition getConfigmapAndSecretContainersUse ::
  "('k, 'q) pod_env \<Rightarrow> string \<Rightarrow> 'k \<Rightarrow> container list \<Rightarrow> k8s_err + (string \<times> pairs) list \<times> (string \<times> pairs) list" where
  "getConfigmapAndSecretContainersUse P ns k containers = config_volumes P ns k (concat (map ct_Volumes containers)) ([], []) ([], [])"

definition by_name :: "(string \<times> pairs) list \<Rightarrow> string \<rightharpoonup> string \<rightharpoonup> string" where
  "by_name objs = map_of (rev (map (\<lambda>(n, data). (n, map_of data)) objs))"

definition calculateConfigHash :: "('k, 'q) pod_env \<Rightarrow> (string \<times> pairs) list \<times> (string \<times> pairs) list \<Rightarrow> string" where
  "calculateConfigHash P configs = pe_hash P (by_name (fst configs)) (by_name (snd configs))"

record template_meta =
  tp_Labels :: pairs
  tp_Annotations :: pairs

definition createPodTempateObjectMeta ::
  "('k, 'q) pod_env \<Rightarrow> string \<Rightarrow> string \<Rightarrow> 'k \<Rightarrow> advanced_options \<Rightarrow> container list \<Rightarrow> goerr + template_meta" where
  "createPodTempateObjectMeta P name ns k opts containers =
     (let metric = (if xm_Port (ao_ExposedMetric opts) \<noteq> 0 \<and> xm_Path (ao_ExposedMetric opts) \<noteq> ''''
              then [(''prometheus.io/scrape'', ''true''), (''prometheus.io/port'', itoa (xm_Port (ao_ExposedMetric opts))),
                    (''prometheus.io/path'', xm_Path (ao_ExposedMetric opts))] else []);
          mesh = (if ao_InjectServiceMesh opts then [(''linkerd.io/inject'', ''enabled'')] else []);
          meta = (\<lambda>hash. \<lparr>tp_Labels = [(''app'', name)], tp_Annotations = metric @ hash @ mesh\<rparr>)
      in if ao_ReloadWhenConfigChange opts
         then (case getConfigmapAndSecretContainersUse P ns k containers of
                 Inl e \<Rightarrow> Inl (k8s_text e)
               | Inr configs \<Rightarrow>
                   Inr (meta (if length (fst configs) + length (snd configs) > 0 then [(''zcloud.cn/config-hash'', calculateConfigHash P configs)] else [])))
         else Inr (meta []))"

definition k8sAnnotationsToScExposedMetric :: "pairs \<Rightarrow> exposed_metric" where
  "k8sAnnotationsToScExposedMetric annotations =
     (if map_of annotations ''prometheus.io/scrape'' = Some ''true''
      then \<lparr>xm_Path = (case map_of annotations ''prometheus.io/path'' of None \<Rightarrow> '''' | Some p \<Rightarrow> p),
            xm_Port = (case map_of annotations ''prometheus.io/port'' of None \<Rightarrow> 0 | Some p \<Rightarrow> atoi_value p)\<rparr>
      else \<lparr>xm_Path = '''', xm_Port = 0\<rparr>)"

text \<open>The annotations of a workload; the options are kept as JSON under a key of their own.\<close>

record owner_meta =
  om_Options :: "advanced_options json option"
  om_Annotations :: pairs

abbreviation ChangeCauseAnnotation :: string where "ChangeCauseAnnotation \<equiv> ''kubernetes.io/change-cause''"
abbreviation AnnkeyForDeletePVsWhenDeleteWorkload :: string where "AnnkeyForDeletePVsWhenDeleteWorkload \<equiv> ''zcloud_delete_pvs_when_delete_workload''"

definition generatePodOwnerObjectMeta :: "advanced_options \<Rightarrow> string \<Rightarrow> owner_meta" where
  "generatePodOwnerObjectMeta opts memo =
     \<lparr>om_Options = Some (json_marshal opts),
      om_Annotations = [(ChangeCauseAnnotation, if memo = '''' then ''init version'' else memo)]
        @ (if ao_ReloadWhenConfigChange opts then [(''zcloud.cn/update-on-config-change'', ''true'')] else [])
        @ (if ao_DeletePVsWhenDeleteWorkload opts then [(AnnkeyForDeletePVsWhenDeleteWorkload, ''true'')] else [])\<rparr>"

definition addWorkloadUpdateMemoToAnnotations :: "pairs \<Rightarrow> string \<Rightarrow> pairs" where
  "addWorkloadUpdateMemoToAnnotations annotations memo = AList.update ChangeCauseAnnotation memo annotations"

record 'q pod_template =
  pm_Meta :: template_meta
  pm_Spec :: "'q pod_spec"

text \<open>The claims of a stateful set are created by the server, those of other workloads here.\<close>

definition createPodTempateSpec ::
  "('k, 'q) pod_env \<Rightarrow> bool \<Rightarrow> string \<Rightarrow> string \<Rightarrow> advanced_options \<Rightarrow> container list \<Rightarrow> pv_template list \<Rightarrow> 'k \<Rightarrow>
   ('k \<times> (goerr + 'q pod_template \<times> (string \<times> 'q claim) list)) outcome" where
  "createPodTempateSpec P isStatefulSet ns name opts containers pvs k =
     (case scPodSpecToK8sPodSpecAndPVCs P k containers pvs of
        Panicked p \<Rightarrow> Panicked p
      | Done (Inl e) \<Rightarrow> Done (k, Inl e)
      | Done (Inr (spec, pvcs)) \<Rightarrow>
          (case createPodTempateObjectMeta P name ns k opts containers of
             Inl e \<Rightarrow> Done (k, Inl e)
           | Inr meta \<Rightarrow>
               (let r = Inr (\<lparr>pm_Meta = meta, pm_Spec = spec\<rparr>, pvcs)
                in if isStatefulSet then Done (k, r)
                   else case createPVCs P ns pvcs k of
                     (k', Some e) \<Rightarrow> Done (k', Inl e)
                   | (k', None) \<Rightarrow> Done (k', r))))"

section \<open>What is shown is what was submitted\<close>

abbreviation gen_name :: "string \<Rightarrow> nat \<Rightarrow> string" where
  "gen_name c i \<equiv> c @ ''-vol'' @ formatNat i"

lemma list_all_digits_formatNat: "list_all is_digit (formatNat n)"
proof (induction n rule: formatNat.induct)
  case (1 n)
  then show ?case by (subst formatNat.simps) (simp add: list_all_iff)
qed

lemma gen_name_inject: "gen_name c i = gen_name c' j \<longleftrightarrow> c = c' \<and> i = j"
proof
  assume eq: "gen_name c i = gen_name c' j"
  have t: "takeWhile is_digit (rev (gen_name x n)) = rev (formatNat n)" for x n
  proof -
    have "\<not> is_digit (CHR ''l'')" by (simp add: is_digit_def)
    then show ?thesis using list_all_digits_formatNat [of n] takeWhile_append2 [of "rev (formatNat n)" is_digit "rev (x @ ''-vol'')"]
      by (simp add: list_all_iff)
  qed
  from arg_cong [OF eq, of "\<lambda>s. takeWhile is_digit (rev s)"] have "formatNat i = formatNat j" by (simp only: t rev_is_rev_conv)
  with eq show "c = c' \<and> i = j" by simp
qed simp

definition pv_source :: "'q k8s_volume list \<Rightarrow> (string \<times> 'q claim) list \<Rightarrow> string \<Rightarrow> 'q volume_source option" where
  "pv_source emptyDirs pvcs n =
     (case List.find (\<lambda>d. kv_Name d = n) emptyDirs of
        Some d \<Rightarrow> Some (kv_Source d)
      | None \<Rightarrow> if list_ex (\<lambda>pvc. fst pvc = n) pvcs then Some (ClaimSource n) else None)"

text \<open>The volumes a workload declares: empty directories and claims, none named like a volume made for a container.\<close>

definition plain_volumes :: "'q k8s_volume list \<Rightarrow> (string \<times> 'q claim) list \<Rightarrow> container list \<Rightarrow> bool" where
  "plain_volumes emptyDirs pvcs cs \<longleftrightarrow>
     (\<forall>d \<in> set emptyDirs. \<exists>q. kv_Source d = EmptyDirSource q) \<and>
     (\<forall>c \<in> set cs. \<forall>i. pv_source emptyDirs pvcs (gen_name (ct_Name c) i) = None)"

definition vols_inv :: "'q k8s_volume list \<Rightarrow> (string \<times> 'q claim) list \<Rightarrow> (string \<times> nat) set \<Rightarrow> 'q k8s_volume list \<Rightarrow> bool" where
  "vols_inv emptyDirs pvcs G vols \<longleftrightarrow>
     distinct (map kv_Name vols) \<and>
     (\<forall>v \<in> set vols. (\<exists>(c, i) \<in> G. kv_Name v = gen_name c i) \<or> pv_source emptyDirs pvcs (kv_Name v) = Some (kv_Source v))"

definition mounted :: "'q k8s_volume list \<Rightarrow> volume \<Rightarrow> volume_mount \<Rightarrow> bool" where
  "mounted vols v m \<longleftrightarrow> (\<exists>k \<in> set vols. kv_Name k = vm_Name m \<and> shown_volume k m = [v])"

lemma mounted_mono: "mounted vols v m \<Longrightarrow> set vols \<subseteq> set vols' \<Longrightarrow> mounted vols' v m"
  by (auto simp: mounted_def)

lemma find_name: "distinct (map kv_Name vols) \<Longrightarrow> k \<in> set vols \<Longrightarrow> List.find (\<lambda>v. kv_Name v = kv_Name k) vols = Some k"
  by (induction vols) auto

lemma shown_mounts_mounted:
  "distinct (map kv_Name vols) \<Longrightarrow> list_all2 (mounted vols) vs ms \<Longrightarrow> fst (shown_mounts Q vols ms ts) = vs"
proof (induction ms arbitrary: vs ts)
  case (Cons m ms)
  from Cons.prems(2) obtain v vs' where vs: "vs = v # vs'" "mounted vols v m" "list_all2 (mounted vols) vs' ms" by (cases vs) auto
  then obtain k where k: "k \<in> set vols" "kv_Name k = vm_Name m" "shown_volume k m = [v]" by (auto simp: mounted_def)
  with find_name [OF Cons.prems(1) k(1)] Cons.IH [OF Cons.prems(1) vs(3)] vs(1) show ?case by (auto split: prod.splits) (metis fst_conv)+
qed simp

lemma find_Some_in: "List.find P xs = Some x \<Longrightarrow> x \<in> set xs \<and> P x"
  by (auto simp: find_Some_iff)

lemma volume_of_ok:
  assumes "volume_of emptyDirs pvcs c i v = Inr (n, s, r)" "\<forall>d \<in> set emptyDirs. \<exists>q. kv_Source d = EmptyDirSource q"
  shows "shown_volume \<lparr>kv_Name = n, kv_Source = s\<rparr> \<lparr>vm_Name = n, vm_MountPath = vo_MountPath v, vm_ReadOnly = r\<rparr> = [v]
    \<and> (if vo_Type v = VolumeTypePersistentVolume then pv_source emptyDirs pvcs n = Some s else n = gen_name c i)"
proof (cases "vo_Type v = VolumeTypePersistentVolume")
  case True
  show ?thesis
  proof (cases "List.find (\<lambda>d. kv_Name d = vo_Name v) emptyDirs")
    case None
    with assms(1) True have "n = vo_Name v" "s = ClaimSource n" "list_ex (\<lambda>pvc. fst pvc = n) pvcs" by (auto simp: volume_of_def Let_def split: if_splits)
    with None True show ?thesis by (simp add: shown_volume_def pv_source_def)
  next
    case (Some d)
    from find_Some_in [OF Some] assms(2) obtain q where d: "kv_Name d = vo_Name v" "kv_Source d = EmptyDirSource q" by blast
    with assms(1) True Some have "n = vo_Name v" "s = EmptyDirSource q" by (auto simp: volume_of_def Let_def)
    with Some True d show ?thesis by (simp add: shown_volume_def pv_source_def)
  qed
next
  case False
  with assms(1) show ?thesis by (auto simp: volume_of_def shown_volume_def Let_def split: if_splits)
qed

definition unclaimed :: "'q k8s_volume list \<Rightarrow> (string \<times> 'q claim) list \<Rightarrow> (string \<times> nat) set \<Rightarrow> bool" where
  "unclaimed emptyDirs pvcs G \<longleftrightarrow> (\<forall>(c, i) \<in> G. pv_source emptyDirs pvcs (gen_name c i) = None)"

lemma vols_inv_mono: "vols_inv ed pvcs G vols \<Longrightarrow> G \<subseteq> G' \<Longrightarrow> vols_inv ed pvcs G' vols"
  unfolding vols_inv_def by blast

lemma add_volume_ok:
  assumes inv: "vols_inv ed pvcs G vols" and un: "unclaimed ed pvcs (insert (c, i) G)" and new: "(c, i) \<notin> G"
    and v: "volume_of ed pvcs c i v = Inr (n, s, r)" and ed: "\<forall>d \<in> set ed. \<exists>q. kv_Source d = EmptyDirSource q"
  shows "vols_inv ed pvcs (insert (c, i) G) (add_volume v n s vols) \<and> set vols \<subseteq> set (add_volume v n s vols)
    \<and> mounted (add_volume v n s vols) v \<lparr>vm_Name = n, vm_MountPath = vo_MountPath v, vm_ReadOnly = r\<rparr>"
proof -
  let ?k = "\<lparr>kv_Name = n, kv_Source = s\<rparr>" and ?m = "\<lparr>vm_Name = n, vm_MountPath = vo_MountPath v, vm_ReadOnly = r\<rparr>"
  note ok = volume_of_ok [OF v ed]
  have other: "kv_Name k = n \<Longrightarrow> k \<in> set vols \<Longrightarrow> vo_Type v = VolumeTypePersistentVolume \<and> k = ?k" for k
  proof -
    assume k: "kv_Name k = n" "k \<in> set vols"
    with inv consider c' j where "(c', j) \<in> G" "n = gen_name c' j" | "pv_source ed pvcs n = Some (kv_Source k)" by (auto simp: vols_inv_def)
    then show ?thesis
    proof cases
      case 1
      then have "pv_source ed pvcs n = None" using un by (auto simp: unclaimed_def)
      with ok have "gen_name c' j = gen_name c i" using 1 by (auto split: if_splits)
      then have "c' = c \<and> j = i" by (simp only: gen_name_inject)
      with new 1(1) show ?thesis by simp
    next
      case 2
      have "pv_source ed pvcs (gen_name c i) = None" using un by (auto simp: unclaimed_def)
      with 2 ok k show ?thesis by (auto split: if_splits)
    qed
  qed
  show ?thesis
  proof (cases "list_ex (\<lambda>k. kv_Name k = n) vols")
    case True
    then obtain k where "k \<in> set vols" "kv_Name k = n" by (auto simp: list_ex_iff)
    with other have k: "?k \<in> set vols" "vo_Type v = VolumeTypePersistentVolume" by auto
    with True ok inv show ?thesis by (auto simp: add_volume_def mounted_def intro: vols_inv_mono intro!: bexI [of _ ?k])
  next
    case False
    then have a: "add_volume v n s vols = vols @ [?k]" "n \<notin> kv_Name ` set vols" by (auto simp: add_volume_def list_ex_iff)
    moreover have "(\<exists>(c', j) \<in> insert (c, i) G. n = gen_name c' j) \<or> pv_source ed pvcs n = Some s" using ok by (auto split: if_splits)
    ultimately have "vols_inv ed pvcs (insert (c, i) G) (vols @ [?k])" using inv vols_inv_mono [OF inv, of "insert (c, i) G"]
      by (fastforce simp: vols_inv_def)
    with a ok show ?thesis by (auto simp: mounted_def)
  qed
qed

lemma sc_volumes_ok:
  assumes "sc_volumes ed pvcs c i vs vols = Inr (vols', ms)" "vols_inv ed pvcs G vols" "unclaimed ed pvcs (G \<union> {c} \<times> UNIV)"
    and "\<forall>j \<ge> i. (c, j) \<notin> G" "\<forall>d \<in> set ed. \<exists>q. kv_Source d = EmptyDirSource q"
  shows "vols_inv ed pvcs (G \<union> {c} \<times> UNIV) vols' \<and> set vols \<subseteq> set vols' \<and> list_all2 (mounted vols') vs ms"
  using assms
proof (induction vs arbitrary: i vols ms G)
  case Nil
  then show ?case by (auto intro: vols_inv_mono)
next
  case (Cons v vs)
  from Cons.prems(1) obtain n s r ms' where v: "volume_of ed pvcs c i v = Inr (n, s, r)"
    and rest: "sc_volumes ed pvcs c (Suc i) vs (add_volume v n s vols) = Inr (vols', ms')"
    and ms: "ms = \<lparr>vm_Name = n, vm_MountPath = vo_MountPath v, vm_ReadOnly = r\<rparr> # ms'"
    by (auto simp: map_sum_Inr_iff split: sum.splits)
  have un: "unclaimed ed pvcs (insert (c, i) G)" using Cons.prems(3) by (auto simp: unclaimed_def)
  have new: "(c, i) \<notin> G" using Cons.prems(4) by simp
  note a = add_volume_ok [OF Cons.prems(2) un new v Cons.prems(5)]
  have u: "insert (c, i) (G \<union> {c} \<times> UNIV) = G \<union> {c} \<times> UNIV" by auto
  have "vols_inv ed pvcs (G \<union> {c} \<times> UNIV) vols' \<and> set (add_volume v n s vols) \<subseteq> set vols' \<and> list_all2 (mounted vols') vs ms'"
    using Cons.IH [OF rest, of "insert (c, i) G"] a Cons.prems(3-5) by (simp add: u)
  with a ms show ?case by (auto intro: mounted_mono)
qed

definition plain_ports :: "container_port list \<Rightarrow> bool" where
  "plain_ports ps \<longleftrightarrow> (\<forall>p \<in> set ps. cp_Protocol p \<in> {''tcp'', ''udp''} \<and> - (2 ^ 31) \<le> cp_Port p \<and> cp_Port p < 2 ^ 31)"

lemma int32_id: "- (2 ^ 31) \<le> i \<Longrightarrow> i < 2 ^ 31 \<Longrightarrow> int32 i = i"
  by (simp add: int32_def sint_sbintrunc' signed_take_bit_int_eq_self_iff)

lemma sc_ports_shown: "sc_ports names ps = Inr ports \<Longrightarrow> plain_ports ps \<Longrightarrow> shown_ports ports = ps"
proof (induction ps arbitrary: names ports)
  case (Cons p ps)
  have t: "toLower ''tcp'' = ''tcp''" "toLower ''udp'' = ''udp''" "toLower ''TCP'' = ''tcp''" "toLower ''UDP'' = ''udp''" by code_simp+
  from Cons.prems obtain proto ports' where pr: "scPortProtocolToK8SProtocol (cp_Protocol p) = Inr proto"
    and rest: "sc_ports (names @ [cp_Name p]) ps = Inr ports'" and ports: "ports = (cp_Name p, int32 (cp_Port p), proto) # ports'"
    by (auto simp: map_sum_Inr_iff split: sum.splits option.splits if_splits)
  have pl: "plain_ports ps" "cp_Protocol p \<in> {''tcp'', ''udp''}" "int32 (cp_Port p) = cp_Port p"
    using Cons.prems(2) int32_id by (auto simp: plain_ports_def)
  then have "toLower proto = cp_Protocol p" using pr t by (auto simp: scPortProtocolToK8SProtocol_def)
  with Cons.IH [OF rest pl(1)] pl(3) ports show ?case by (simp add: shown_ports_def)
qed (simp add: shown_ports_def)

lemma sc_containers_ok:
  assumes "sc_containers ed pvcs cs vols = Inr (vols', kcs)" "vols_inv ed pvcs G vols" "unclaimed ed pvcs (G \<union> (ct_Name ` set cs) \<times> UNIV)"
    and "distinct (map ct_Name cs)" "ct_Name ` set cs \<inter> fst ` G = {}" "\<forall>d \<in> set ed. \<exists>q. kv_Source d = EmptyDirSource q"
    and "\<forall>c \<in> set cs. plain_ports (ct_ExposedPorts c)"
  shows "(\<exists>G'. vols_inv ed pvcs G' vols') \<and> set vols \<subseteq> set vols' \<and>
    (\<forall>F Q ts. distinct (map kv_Name F) \<longrightarrow> set vols' \<subseteq> set F \<longrightarrow> fst (k8sPodSpecToScContainersAndVCTemplates Q kcs F ts) = cs)"
  using assms
proof (induction cs arbitrary: vols kcs G)
  case Nil
  then show ?case by auto
next
  case (Cons c cs)
  from Cons.prems(1) obtain vols1 mounts ports kcs' where v: "sc_volumes ed pvcs (ct_Name c) 0 (ct_Volumes c) vols = Inr (vols1, mounts)"
    and p: "sc_ports [] (ct_ExposedPorts c) = Inr ports" and rest: "sc_containers ed pvcs cs vols1 = Inr (vols', kcs')"
    and kcs: "kcs = \<lparr>kc_Name = ct_Name c, kc_Image = ct_Image c, kc_Command = ct_Command c, kc_Args = ct_Args c, kc_VolumeMounts = mounts,
        kc_Ports = ports, kc_Env = map (\<lambda>e. (ev_Name e, ev_Value e)) (ct_Env c), kc_Requests = [(''cpu'', ''10m''), (''memory'', ''20Mi'')]\<rparr> # kcs'"
    by (auto simp: map_sum_Inr_iff split: sum.splits)
  have un: "unclaimed ed pvcs (G \<union> {ct_Name c} \<times> UNIV)" using Cons.prems(3) by (auto simp: unclaimed_def)
  have fresh: "\<forall>j \<ge> 0. (ct_Name c, j) \<notin> G" using Cons.prems(5) by force
  note sv = sc_volumes_ok [OF v Cons.prems(2) un fresh Cons.prems(6)]
  have IH: "(\<exists>G'. vols_inv ed pvcs G' vols') \<and> set vols1 \<subseteq> set vols' \<and>
    (\<forall>F Q ts. distinct (map kv_Name F) \<longrightarrow> set vols' \<subseteq> set F \<longrightarrow> fst (k8sPodSpecToScContainersAndVCTemplates Q kcs' F ts) = cs)"
  proof (rule Cons.IH [OF rest, of "G \<union> {ct_Name c} \<times> UNIV"])
    show "unclaimed ed pvcs (G \<union> {ct_Name c} \<times> UNIV \<union> (ct_Name ` set cs) \<times> UNIV)" using Cons.prems(3) by (auto simp: unclaimed_def)
    have "ct_Name c \<notin> ct_Name ` set cs" using Cons.prems(4) by simp
    then show "ct_Name ` set cs \<inter> fst ` (G \<union> {ct_Name c} \<times> UNIV) = {}" using Cons.prems(5) by (auto simp: image_iff)
  qed (use sv Cons.prems(4,6,7) in auto)
  have "fst (k8sPodSpecToScContainersAndVCTemplates Q kcs F ts) = c # cs" if "distinct (map kv_Name F)" "set vols' \<subseteq> set F" for F Q ts
  proof -
    have "list_all2 (mounted F) (ct_Volumes c) mounts"
      using sv IH that(2) by (auto elim!: list_all2_mono intro: mounted_mono)
    from shown_mounts_mounted [OF that(1) this] obtain ts1 where m: "shown_mounts Q F mounts ts = (ct_Volumes c, ts1)" by (metis prod.collapse)
    have "shown_ports ports = ct_ExposedPorts c" using sc_ports_shown [OF p] Cons.prems(7) by simp
    moreover have "map (\<lambda>(n, v). \<lparr>ev_Name = n, ev_Value = v\<rparr>) (map (\<lambda>e. (ev_Name e, ev_Value e)) (ct_Env c)) = ct_Env c"
      by (simp add: comp_def) (intro map_idI, simp)
    ultimately show ?thesis using IH that m by (auto simp: kcs split: prod.splits) (metis fst_conv)
  qed
  with IH sv show ?case by blast
qed

definition sample_containers :: "container list" where
  "sample_containers =
     [\<lparr>ct_Name = ''web'', ct_Image = ''nginx'', ct_Command = [], ct_Args = [''-v''], ct_ExposedPorts = [\<lparr>cp_Name = ''http'', cp_Port = 80, cp_Protocol = ''tcp''\<rparr>],
       ct_Env = [\<lparr>ev_Name = ''A'', ev_Value = ''1''\<rparr>],
       ct_Volumes = [\<lparr>vo_Type = ''configmap'', vo_Name = ''conf'', vo_MountPath = ''/etc''\<rparr>, \<lparr>vo_Type = ''persistentVolume'', vo_Name = ''data'', vo_MountPath = ''/d''\<rparr>]\<rparr>,
      \<lparr>ct_Name = ''log'', ct_Image = ''fluent'', ct_Command = [], ct_Args = [], ct_ExposedPorts = [], ct_Env = [],
       ct_Volumes = [\<lparr>vo_Type = ''persistentVolume'', vo_Name = ''data'', vo_MountPath = ''/l''\<rparr>, \<lparr>vo_Type = ''persistentVolume'', vo_Name = ''tmp'', vo_MountPath = ''/t''\<rparr>]\<rparr>]"

definition sample_dirs :: "nat k8s_volume list" where
  "sample_dirs = [\<lparr>kv_Name = ''tmp'', kv_Source = EmptyDirSource None\<rparr>]"

definition sample_claims :: "(string \<times> nat claim) list" where
  "sample_claims = [(''data'', \<lparr>cl_AccessModes = [''ReadWriteOnce''], cl_Storage = Some 7, cl_StorageClassName = Some ''lvm'', cl_VolumeName = '''',
     cl_Capacity = None, cl_Phase = '''', cl_Provisioner = None\<rparr>)]"

text \<open>
  The containers shown for a pod specification are those it was made from: image, command,
  arguments, environment, ports and volumes, in the same order. Required are different container
  names, ports in range with their protocol in small letters, and no volume named like one that
  is made for a container.
\<close>

theorem containers_roundtrip:
  assumes "scContainersAndPVToK8sPodSpec containers emptyDirs pvcs = Inr spec"
    and "plain_volumes emptyDirs pvcs containers" "distinct (map ct_Name containers)" "\<forall>c \<in> set containers. plain_ports (ct_ExposedPorts c)"
  shows "fst (k8sPodSpecToScContainersAndVCTemplates Q (ps_Containers spec) (ps_Volumes spec) []) = containers"
proof -
  from assms(1) obtain vols kcs where r: "sc_containers emptyDirs pvcs containers [] = Inr (vols, kcs)" and s: "spec = \<lparr>ps_Containers = kcs, ps_Volumes = vols\<rparr>"
    by (auto simp: scContainersAndPVToK8sPodSpec_def map_sum_Inr_iff)
  have i: "vols_inv emptyDirs pvcs {} []" by (simp add: vols_inv_def)
  have "unclaimed emptyDirs pvcs ({} \<union> (ct_Name ` set containers) \<times> UNIV)" using assms(2) by (auto simp: plain_volumes_def unclaimed_def)
  from sc_containers_ok [OF r i this assms(3)] assms(2,4) s show ?thesis by (auto simp: plain_volumes_def vols_inv_def)
qed


theorem containers_roundtrip_witness:
  "\<exists>spec. scContainersAndPVToK8sPodSpec sample_containers sample_dirs sample_claims = Inr spec
    \<and> length (ps_Volumes spec) = 3 \<and> fst (k8sPodSpecToScContainersAndVCTemplates nat_quantity (ps_Containers spec) (ps_Volumes spec) []) = sample_containers"
proof -
  have "case scContainersAndPVToK8sPodSpec sample_containers sample_dirs sample_claims of Inr s \<Rightarrow> length (ps_Volumes s) = 3 | Inl e \<Rightarrow> False"
    by code_simp
  then obtain spec where s: "scContainersAndPVToK8sPodSpec sample_containers sample_dirs sample_claims = Inr spec" "length (ps_Volumes spec) = 3"
    by (auto split: sum.splits)
  have "plain_volumes sample_dirs sample_claims sample_containers"
    by (simp add: plain_volumes_def pv_source_def sample_dirs_def sample_claims_def sample_containers_def)
  moreover have "distinct (map ct_Name sample_containers)" "\<forall>c \<in> set sample_containers. plain_ports (ct_ExposedPorts c)"
    by (simp_all add: sample_containers_def plain_ports_def)
  ultimately show ?thesis using s containers_roundtrip [OF s(1)] by blast
qed

section \<open>Claims of a workload\<close>

text \<open>An object that is not there or is being deleted.\<close>

definition going :: "('a \<rightharpoonup> 'b k8s_obj) \<Rightarrow> 'a \<Rightarrow> bool" where
  "going objs key \<longleftrightarrow> (\<forall>obj. objs key = Some obj \<longrightarrow> ko_deletion obj \<noteq> None)"

text \<open>
  What the creation of claims relies on: the laws of the server for claims, that deleting a volume leaves the
  claims alone and that a claim that is there can be deleted.
\<close>

locale pod_claims = kube_live "pe_claims P" view kept
  for P :: "('k, 'q) pod_env" and view :: "'k \<Rightarrow> string \<times> string \<rightharpoonup> 'q claim k8s_obj" and kept :: "'q claim \<Rightarrow> 's" +
  assumes pvs_apart: "view (fst (kDelete (pe_pvs P) ns n k)) = view k"
    and delete_live: "view k (ns, n) \<noteq> None \<Longrightarrow> snd (kDelete (pe_claims P) ns n k) = None"
begin

lemma deletePVC_view:
  "going (view (deletePVC P ns n k)) (ns, n) \<and> (\<forall>key. key \<noteq> (ns, n) \<longrightarrow> view (deletePVC P ns n k) key = view k key)"
proof (cases "view k (ns, n)")
  case None
  with get_missing [OF None] show ?thesis by (auto simp: deletePVC_def going_def)
next
  case (Some obj)
  obtain k1 where k1: "kDelete (pe_claims P) ns n k = (k1, None)" using delete_live [of k ns n] Some
    by (cases "kDelete (pe_claims P) ns n k") auto
  have v: "view (deletePVC P ns n k) = view k1"
    by (simp add: deletePVC_def get_live [OF Some] k1 Let_def pvs_apart split: sum.split)
  have "going (view k1) (ns, n) \<and> (\<forall>key. key \<noteq> (ns, n) \<longrightarrow> view k1 key = view k key)" using delete_view [OF k1] by (auto simp: going_def)
  with v show ?thesis by (simp add: going_def)
qed

lemma deletePVCs_view:
  "(\<forall>n \<in> fst ` set pvcs. going (view (deletePVCs P ns pvcs k)) (ns, n)) \<and> (\<forall>key. going (view k) key \<longrightarrow> going (view (deletePVCs P ns pvcs k)) key)
    \<and> (\<forall>key. key \<notin> {ns} \<times> fst ` set pvcs \<longrightarrow> view (deletePVCs P ns pvcs k) key = view k key)"
proof (induction pvcs arbitrary: k)
  case (Cons p pvcs)
  let ?k = "deletePVC P ns (fst p) k"
  have "going (view k) key \<longrightarrow> going (view ?k) key" for key using deletePVC_view [of ns "fst p" k] unfolding going_def by metis
  with Cons.IH [of ?k] deletePVC_view [of ns "fst p" k] show ?case by (simp add: deletePVCs_def)
qed (simp add: deletePVCs_def)

lemma create_claims_frame:
  "create_claims P ns pvcs k = (k', r) \<Longrightarrow> key \<notin> {ns} \<times> fst ` set pvcs \<Longrightarrow> view k' key = view k key"
proof (induction pvcs arbitrary: k)
  case (Cons p pvcs)
  obtain n c where p: "p = (n, c)" by (cases p)
  obtain k1 e where k1: "kCreate (pe_claims P) (new_obj ns n c) k = (k1, e)" by force
  have "view k1 key = view k key" using create_view [of "new_obj ns n c" k k1] create_err [of "new_obj ns n c" k k1] k1 Cons.prems(2) p
    by (cases e) (auto simp: new_obj_def)
  then show ?case using Cons p k1 by (cases e) auto
qed simp

lemma create_claims_ok:
  "create_claims P ns pvcs k = (k', None) \<Longrightarrow>
    distinct (map fst pvcs) \<and> (\<forall>(n, c) \<in> set pvcs. view k (ns, n) = None \<and> (\<exists>obj. view k' (ns, n) = Some obj \<and> kept (ko_body obj) = kept c))"
proof (induction pvcs arbitrary: k)
  case (Cons p pvcs)
  obtain n c where p: "p = (n, c)" by (cases p)
  with Cons.prems obtain k1 where k1: "kCreate (pe_claims P) (new_obj ns n c) k = (k1, None)" and rest: "create_claims P ns pvcs k1 = (k', None)"
    by (auto split: prod.splits option.splits)
  from create_view [OF k1] obtain obj where o: "view k (ns, n) = None" "view k1 = (view k)((ns, n) \<mapsto> obj)" "kept (ko_body obj) = kept c"
    by (auto simp: new_obj_def)
  note IH = Cons.IH [OF rest]
  then have new: "n \<notin> fst ` set pvcs" using o(2) by fastforce
  then have "view k' (ns, n) = Some obj" using create_claims_frame [OF rest, of "(ns, n)"] o(2) by auto
  moreover have "view k (ns, m) = None" if "(m, d) \<in> set pvcs" for m d using IH that o(2) by (fastforce split: if_splits)
  ultimately show ?case using IH new o p by (auto simp: image_iff)
qed simp

end


text \<open>A server that keeps claims, volumes, storage classes, configuration maps and secrets in memory.\<close>

record mem_pods =
  mp_claims :: "nat claim mem_kube"
  mp_pvs :: "unit mem_kube"
  mp_classes :: "pairs mem_kube"
  mp_cms :: "pairs mem_kube"
  mp_secrets :: "secret_body mem_kube"

definition mem_pod_env :: "(mem_pods, nat) pod_env" where
  "mem_pod_env =
     \<lparr>pe_Q = nat_quantity,
      pe_claims = lift_api mp_claims (\<lambda>a k. k\<lparr>mp_claims := a\<rparr>) mem_kube,
      pe_pvs = lift_api mp_pvs (\<lambda>a k. k\<lparr>mp_pvs := a\<rparr>) mem_kube,
      pe_classes = lift_api mp_classes (\<lambda>a k. k\<lparr>mp_classes := a\<rparr>) mem_kube,
      pe_cms = lift_api mp_cms (\<lambda>a k. k\<lparr>mp_cms := a\<rparr>) mem_kube,
      pe_secrets = lift_api mp_secrets (\<lambda>a k. k\<lparr>mp_secrets := a\<rparr>) mem_kube,
      pe_hash = (\<lambda>cms ss. ''hash'')\<rparr>"

interpretation mem_pods: pod_claims mem_pod_env "\<lambda>k. mem_view (mp_claims k)" cl_Storage
proof -
  have l: "kube_live (lift_api mp_claims (\<lambda>a k. k\<lparr>mp_claims := a\<rparr>) mem_kube) (\<lambda>k. mem_view (mp_claims k)) cl_Storage"
    by (rule lift_api_live [OF mem_kube_kept]) simp
  show "pod_claims mem_pod_env (\<lambda>k. mem_view (mp_claims k)) cl_Storage"
    unfolding pod_claims_def pod_claims_axioms_def
    by (auto simp: mem_pod_env_def l) (auto simp: lift_api_def mem_kube_def mem_view_def split: prod.splits option.splits)
qed

text \<open>
  C34. Claims are created all or none. On success every claim was new, is there with what was asked for and
  nothing else changed. On failure none of the names has a claim any more, not even one that was there
  before and belongs to another workload; other claims are as they were.
\<close>

theorem createPVCs_all_or_none:
  assumes "pod_claims P view kept" "createPVCs P ns pvcs k = (k', r)"
  shows "(r = None \<longrightarrow> distinct (map fst pvcs)
      \<and> (\<forall>(n, c) \<in> set pvcs. view k (ns, n) = None \<and> (\<exists>obj. view k' (ns, n) = Some obj \<and> kept (ko_body obj) = kept c)))
    \<and> (r \<noteq> None \<longrightarrow> (\<forall>(n, c) \<in> set pvcs. going (view k') (ns, n)))
    \<and> (\<forall>key. key \<notin> {ns} \<times> fst ` set pvcs \<longrightarrow> view k' key = view k key)"
proof -
  obtain k1 r1 where c: "create_claims P ns pvcs k = (k1, r1)" by force
  have frame: "key \<notin> {ns} \<times> fst ` set pvcs \<Longrightarrow> view k1 key = view k key" for key
    by (rule pod_claims.create_claims_frame [OF assms(1) c])
  show ?thesis
  proof (cases r1)
    case None
    with c assms(2) have "k' = k1" "r = None" by (simp_all add: createPVCs_def)
    with pod_claims.create_claims_ok [OF assms(1), OF c [unfolded None]] frame show ?thesis by simp
  next
    case (Some e)
    with c assms(2) have k': "k' = deletePVCs P ns pvcs k1" "r = Some e" by (simp_all add: createPVCs_def)
    with pod_claims.deletePVCs_view [OF assms(1), of pvcs ns k1] frame show ?thesis by (auto simp: image_iff)
  qed
qed

definition taken_server :: mem_pods where
  "taken_server = \<lparr>mp_claims = [((''default'', ''data''), new_obj ''default'' ''data'' (snd (hd sample_claims)))], mp_pvs = [], mp_classes = [], mp_cms = [], mp_secrets = []\<rparr>"

theorem createPVCs_all_or_none_witness:
  "\<exists>k' e. createPVCs mem_pod_env ''default'' sample_claims taken_server = (k', Some e)
    \<and> mem_view (mp_claims taken_server) (''default'', ''data'') \<noteq> None \<and> going (mem_view (mp_claims k')) (''default'', ''data'')"
proof -
  have "snd (createPVCs mem_pod_env ''default'' sample_claims taken_server) \<noteq> None
      \<and> mem_view (mp_claims taken_server) (''default'', ''data'') \<noteq> None"
    by (simp add: createPVCs_def sample_claims_def taken_server_def mem_pod_env_def lift_api_def mem_kube_def new_obj_def mem_view_def)
  then obtain k' e where c: "createPVCs mem_pod_env ''default'' sample_claims taken_server = (k', Some e)"
    "mem_view (mp_claims taken_server) (''default'', ''data'') \<noteq> None"
    by (cases "createPVCs mem_pod_env ''default'' sample_claims taken_server") auto
  from createPVCs_all_or_none [OF mem_pods.pod_claims_axioms, OF c(1)] c show ?thesis by (simp add: sample_claims_def)
qed

section \<open>Well-formed pod specifications\<close>

definition wf_ports :: "(string \<times> int \<times> string) list \<Rightarrow> bool" where
  "wf_ports ports \<longleftrightarrow>
     distinct (map fst ports)
     \<and> list_all (\<lambda>(n, p, proto). validatePortName n = None \<and> - (2 ^ 31) \<le> p \<and> p < 2 ^ 31 \<and> proto \<in> {''TCP'', ''UDP''}) ports"

definition wf_mounts :: "'q k8s_volume list \<Rightarrow> volume_mount list \<Rightarrow> bool" where
  "wf_mounts vols ms \<longleftrightarrow> list_all (\<lambda>m. vm_Name m \<in> set (map kv_Name vols)) ms"

definition wf_pod_spec :: "'q pod_spec \<Rightarrow> bool" where
  "wf_pod_spec spec \<longleftrightarrow> list_all (\<lambda>c. wf_ports (kc_Ports c) \<and> wf_mounts (ps_Volumes spec) (kc_VolumeMounts c)) (ps_Containers spec)"

lemma int32_range: "- (2 ^ 31) \<le> int32 i \<and> int32 i < 2 ^ 31"
  using sint_greater_eq [of "word_of_int i :: 32 word"] sint_less [of "word_of_int i :: 32 word"] by (simp add: int32_def)

lemma sc_ports_wf: "sc_ports names ps = Inr ports \<Longrightarrow> wf_ports ports \<and> fst ` set ports \<inter> set names = {}"
proof (induction ps arbitrary: names ports)
  case (Cons p ps)
  then obtain proto ports' where pr: "scPortProtocolToK8SProtocol (cp_Protocol p) = Inr proto" and n: "validatePortName (cp_Name p) = None" "cp_Name p \<notin> set names"
    and rest: "sc_ports (names @ [cp_Name p]) ps = Inr ports'" and ports: "ports = (cp_Name p, int32 (cp_Port p), proto) # ports'"
    by (auto simp: map_sum_Inr_iff split: sum.splits option.splits if_splits)
  have "proto \<in> {''TCP'', ''UDP''}" using pr by (auto simp: scPortProtocolToK8SProtocol_def split: if_splits)
  with Cons.IH [OF rest] n ports int32_range [of "cp_Port p"] show ?case by (auto simp: wf_ports_def)
qed (simp add: wf_ports_def)

lemma wf_mounts_mono: "wf_mounts vols ms \<Longrightarrow> set vols \<subseteq> set vols' \<Longrightarrow> wf_mounts vols' ms"
  by (auto simp: wf_mounts_def list_all_iff)

lemma sc_volumes_wf: "sc_volumes ed pvcs c i vs vols = Inr (vols', ms) \<Longrightarrow> wf_mounts vols' ms \<and> set vols \<subseteq> set vols'"
proof (induction vs arbitrary: i vols ms)
  case (Cons v vs)
  from Cons.prems obtain n s r ms' where rest: "sc_volumes ed pvcs c (Suc i) vs (add_volume v n s vols) = Inr (vols', ms')"
    and ms: "ms = \<lparr>vm_Name = n, vm_MountPath = vo_MountPath v, vm_ReadOnly = r\<rparr> # ms'"
    by (auto simp: map_sum_Inr_iff split: sum.splits)
  have "set vols \<subseteq> set (add_volume v n s vols)" "n \<in> kv_Name ` set (add_volume v n s vols)" by (auto simp: add_volume_def list_ex_iff)
  with Cons.IH [OF rest] ms show ?case by (auto simp: wf_mounts_def)
qed (simp add: wf_mounts_def)

lemma sc_containers_wf:
  "sc_containers ed pvcs cs vols = Inr (vols', kcs) \<Longrightarrow> set vols \<subseteq> set vols' \<and> list_all (\<lambda>c. wf_ports (kc_Ports c) \<and> wf_mounts vols' (kc_VolumeMounts c)) kcs"
proof (induction cs arbitrary: vols kcs)
  case (Cons c cs)
  from Cons.prems obtain vols1 mounts ports kcs' where v: "sc_volumes ed pvcs (ct_Name c) 0 (ct_Volumes c) vols = Inr (vols1, mounts)"
    and p: "sc_ports [] (ct_ExposedPorts c) = Inr ports" and rest: "sc_containers ed pvcs cs vols1 = Inr (vols', kcs')"
    and kcs: "\<exists>kc. kcs = kc # kcs' \<and> kc_Ports kc = ports \<and> kc_VolumeMounts kc = mounts"
    by (auto simp: map_sum_Inr_iff split: sum.splits)
  with Cons.IH [OF rest] sc_volumes_wf [OF v] sc_ports_wf [OF p] show ?case by (auto intro: wf_mounts_mono)
qed simp

text \<open>
  C33. A pod specification that is made is well-formed, whatever was submitted: every mount of a container
  names a volume of the pod, the ports of a container have different names that are valid, numbers of
  32 bits and one of the two protocols of the server.
\<close>

theorem pod_spec_wellformed:
  assumes "scContainersAndPVToK8sPodSpec containers emptyDirs pvcs = Inr spec"
  shows "wf_pod_spec spec"
proof -
  from assms obtain vols kcs where r: "sc_containers emptyDirs pvcs containers [] = Inr (vols, kcs)" and s: "spec = \<lparr>ps_Containers = kcs, ps_Volumes = vols\<rparr>"
    by (auto simp: scContainersAndPVToK8sPodSpec_def map_sum_Inr_iff)
  from sc_containers_wf [OF r] s show ?thesis by (simp add: wf_pod_spec_def)
qed

theorem pod_spec_wellformed_witness:
  "\<exists>spec. scContainersAndPVToK8sPodSpec sample_containers sample_dirs sample_claims = Inr spec \<and> wf_pod_spec spec \<and> length (ps_Containers spec) = 2"
proof -
  have "case scContainersAndPVToK8sPodSpec sample_containers sample_dirs sample_claims of Inr s \<Rightarrow> length (ps_Containers s) = 2 | Inl e \<Rightarrow> False"
    by code_simp
  then obtain spec where s: "scContainersAndPVToK8sPodSpec sample_containers sample_dirs sample_claims = Inr spec" "length (ps_Containers spec) = 2"
    by (auto split: sum.splits)
  from pod_spec_wellformed [OF s(1)] s show ?thesis by blast
qed

end
