(* ===== verification/Workload.thy ===== *)
theory Workload
  imports PodTemplate
begin

text \<open>
  What the handlers of deployments, stateful sets, daemon sets, jobs, cron jobs and pods share
  (\<^verbatim>\<open>pkg/handler/pod_manager.go\<close>, \<^verbatim>\<open>workloadversion.go\<close>, and the functions that read a workload from the
  server): the objects of these kinds, the pods that belong to a workload, and the version history.
  The server, the conversion of label selectors, patches and the state of a pod are parameters.
\<close>

section \<open>Resources\<close>

record workload_condition =
  wc_Type :: string
  wc_Status :: string
  wc_LastTransitionTime :: time
  wc_LastUpdateTime :: time
  wc_Reason :: string
  wc_Message :: string

record workload_status =
  ws_ReadyReplicas :: int
  ws_Updating :: bool
  ws_CurrentReplicas :: int
  ws_UpdatingReplicas :: int
  ws_UpdatedReplicas :: int
  ws_Conditions :: "workload_condition list"

text \<open>A deployment, a stateful set or a daemon set: the three resources have the same fields.\<close>

record workload =
  wl_ID :: string
  wl_CreationTimestamp :: time
  wl_DeletionTimestamp :: "time option"
  wl_Name :: string
  wl_Replicas :: int
  wl_Containers :: "container list"
  wl_AdvancedOptions :: advanced_options
  wl_PersistentVolumes :: "pv_template list"
  wl_Status :: workload_status
  wl_Memo :: string

record version_info =
  vi_Name :: string
  vi_Namespace :: string
  vi_Version :: int
  vi_ChangeReason :: string
  vi_Containers :: "container list"

record roll_back_version =
  rb_Version :: int
  rb_Memo :: string

text \<open>The actions on a workload; an input of the wrong type is \<open>None\<close>.\<close>

datatype action = GetHistory | Rollback "roll_back_version option" | SetPodCount "int option" | UnknownAction string
datatype action_result = VersionHistory "version_info list" | PodCount int | NoResult

definition no_status :: workload_status where
  "no_status = \<lparr>ws_ReadyReplicas = 0, ws_Updating = False, ws_CurrentReplicas = 0, ws_UpdatingReplicas = 0, ws_UpdatedReplicas = 0, ws_Conditions = []\<rparr>"

definition no_options :: advanced_options where
  "no_options = \<lparr>ao_ExposedMetric = \<lparr>xm_Path = '''', xm_Port = 0\<rparr>, ao_ReloadWhenConfigChange = False, ao_DeletePVsWhenDeleteWorkload = False,
     ao_InjectServiceMesh = False\<rparr>"

section \<open>Objects of the server\<close>

datatype label_selector = LabelSelector (ls_MatchLabels: pairs) (ls_MatchExpressions: "(string \<times> string \<times> string list) list")

record owner_ref =
  or_Kind :: string
  or_Name :: string
  or_UID :: string
  or_Controller :: "bool option"

text \<open>What the three kinds of workload have in common.\<close>

record 'q owner_body =
  ob_UID :: string
  ob_Meta :: owner_meta
  ob_Selector :: "label_selector option"
  ob_Template :: "'q pod_template"
  ob_Conditions :: "workload_condition list"

record 'q deploy_body = "'q owner_body" +
  db_Replicas :: int
  db_Paused :: bool
  db_ObservedGeneration :: int
  db_StatusReplicas :: int
  db_ReadyReplicas :: int
  db_UpdatedReplicas :: int
  db_UnavailableReplicas :: int

record 'q sts_body = "'q owner_body" +
  sb_Replicas :: int
  sb_ServiceName :: string
  sb_VolumeClaimTemplates :: "(string \<times> 'q claim) list"
  sb_ReadyReplicas :: int
  sb_UpdatedReplicas :: int
  sb_CurrentRevision :: string
  sb_UpdateRevision :: string

record 'q ds_body = "'q owner_body" +
  dm_ObservedGeneration :: int
  dm_DesiredNumberScheduled :: int
  dm_NumberReady :: int
  dm_NumberAvailable :: int
  dm_NumberUnavailable :: int
  dm_UpdatedNumberScheduled :: int

record 'q rs_body =
  rs_Labels :: pairs
  rs_OwnerReferences :: "owner_ref list"
  rs_Meta :: owner_meta
  rs_Template :: "'q pod_template"
  rs_StatusReplicas :: int
  rs_ReadyReplicas :: int

text \<open>A revision holds the template of an earlier version, or what cannot be decoded; empty data is \<open>None\<close>.\<close>

record 'q revision_body =
  cr_Labels :: pairs
  cr_OwnerReferences :: "owner_ref list"
  cr_Annotations :: pairs
  cr_Revision :: int
  cr_Data :: "'q pod_template json option"

record 'q job_body =
  jb_UID :: string
  jb_OwnerReferences :: "owner_ref list"
  jb_Selector :: "label_selector option"
  jb_Spec :: "'q pod_spec"
  jb_RestartPolicy :: string
  jb_StartTime :: "time option"
  jb_CompletionTime :: "time option"
  jb_Active :: int
  jb_Succeeded :: int
  jb_Failed :: int
  jb_Conditions :: "(string \<times> string \<times> time \<times> time \<times> string \<times> string) list"

record object_reference =
  rf_Kind :: string
  rf_Namespace :: string
  rf_Name :: string
  rf_UID :: string
  rf_APIVersion :: string
  rf_ResourceVersion :: string
  rf_FieldPath :: string

record 'q cron_body =
  cj_Schedule :: string
  cj_Spec :: "'q pod_spec"
  cj_RestartPolicy :: string
  cj_LastScheduleTime :: "time option"
  cj_Active :: "object_reference list"

datatype k8s_container_state =
    Waiting string string
  | Running time
  | Terminated string int string time time
  | NoState

record k8s_container_status =
  ks_Name :: string
  ks_Ready :: bool
  ks_RestartCount :: int
  ks_Image :: string
  ks_ImageID :: string
  ks_ContainerID :: string
  ks_LastTerminationState :: k8s_container_state
  ks_State :: k8s_container_state

record 'q pod_body =
  pb_Labels :: pairs
  pb_OwnerReferences :: "owner_ref list"
  pb_Spec :: "'q pod_spec"
  pb_NodeName :: string
  pb_Phase :: string
  pb_StartTime :: "time option"
  pb_HostIP :: string
  pb_PodIP :: string
  pb_Conditions :: "(string \<times> string \<times> time \<times> time) list"
  pb_ContainerStatuses :: "k8s_container_status list"

text \<open>The patches the handlers send.\<close>

datatype 'q patch =
    ReplaceTemplate "'q pod_template" owner_meta
  | MergeReplicas int
  | StrategicMerge "'q pod_template json"

type_synonym ('k, 'q) patch_api = "string \<Rightarrow> string \<Rightarrow> 'q patch \<Rightarrow> 'k \<Rightarrow> 'k \<times> k8s_err option"

record ('k, 'q) work_env =
  we_P :: "('k, 'q) pod_env"
  we_deploys :: "('k, 'q deploy_body) kube_api"
  we_stss :: "('k, 'q sts_body) kube_api"
  we_dss :: "('k, 'q ds_body) kube_api"
  we_jobs :: "('k, 'q job_body) kube_api"
  we_crons :: "('k, 'q cron_body) kube_api"
  we_pods :: "('k, 'q pod_body) kube_api"
  we_rss :: "('k, 'q rs_body) kube_api"
  we_revisions :: "('k, 'q revision_body) kube_api"
  we_patchDeploy :: "('k, 'q) patch_api"
  we_patchSts :: "('k, 'q) patch_api"
  we_patchDs :: "('k, 'q) patch_api"
  we_selector :: "label_selector \<Rightarrow> goerr + (pairs \<Rightarrow> bool)"
  we_controllerUID :: "string list \<Rightarrow> goerr + (pairs \<Rightarrow> bool)"
  we_errorText :: "api_error \<Rightarrow> string"
  we_podState :: "'q pod_body k8s_obj \<Rightarrow> string"

text \<open>A listing with a label selector.\<close>

definition list_matching :: "('k, 'b) kube_api \<Rightarrow> ('b \<Rightarrow> pairs) \<Rightarrow> (pairs \<Rightarrow> bool) \<Rightarrow> string \<Rightarrow> 'k \<Rightarrow> k8s_err + 'b k8s_obj list" where
  "list_matching K labels matches ns k = map_sum (\<lambda>e. e) (filter (\<lambda>obj. matches (labels (ko_body obj)))) (kList K ns k)"

section \<open>Reading workloads\<close>

definition getWorkload :: "('k, 'b) kube_api \<Rightarrow> string \<Rightarrow> string \<Rightarrow> string \<Rightarrow> 'k \<Rightarrow> api_error + 'b k8s_obj" where
  "getWorkload K what ns name k =
     (case kGet K ns name k of
        Inl e \<Rightarrow> Inl (if IsNotFound e then APIError NotFound (''no found '' @ what @ '' '' @ name)
                     else APIError ServerError (''get '' @ what @ '' '' @ name @ '' failed '' @ k8s_text e))
      | Inr obj \<Rightarrow> Inr obj)"

definition getDeployment :: "('k, 'q) work_env \<Rightarrow> string \<Rightarrow> string \<Rightarrow> 'k \<Rightarrow> api_error + 'q deploy_body k8s_obj" where
  "getDeployment E = getWorkload (we_deploys E) ''deploy''"

definition getStatefulSet :: "('k, 'q) work_env \<Rightarrow> string \<Rightarrow> string \<Rightarrow> 'k \<Rightarrow> api_error + 'q sts_body k8s_obj" where
  "getStatefulSet E = getWorkload (we_stss E) ''statefulSet''"

definition getDaemonSet :: "('k, 'q) work_env \<Rightarrow> string \<Rightarrow> string \<Rightarrow> 'k \<Rightarrow> api_error + 'q ds_body k8s_obj" where
  "getDaemonSet E = getWorkload (we_dss E) ''daemonset''"

definition isControllerBy :: "owner_ref list \<Rightarrow> string \<Rightarrow> bool" where
  "isControllerBy refs uid \<longleftrightarrow> list_ex (\<lambda>ref. or_Controller ref = Some True \<and> or_UID ref = uid) refs"

definition getControllerRevisions ::
  "('k, 'q) work_env \<Rightarrow> string \<Rightarrow> label_selector \<Rightarrow> string \<Rightarrow> 'k \<Rightarrow> k8s_err + 'q revision_body k8s_obj list" where
  "getControllerRevisions E ns selector uid k =
     (case we_selector E selector of
        Inl e \<Rightarrow> Inl (OwnErr e)
      | Inr matches \<Rightarrow>
          map_sum (\<lambda>e. e) (filter (\<lambda>cr. isControllerBy (cr_OwnerReferences (ko_body cr)) uid))
            (list_matching (we_revisions E) cr_Labels matches ns k))"

text \<open>A selector that is missing matches nothing.\<close>

definition getReplicaSets :: "('k, 'q) work_env \<Rightarrow> 'q deploy_body k8s_obj \<Rightarrow> 'k \<Rightarrow> k8s_err + 'q rs_body k8s_obj list" where
  "getReplicaSets E deploy k =
     (case (case ob_Selector (ko_body deploy) of None \<Rightarrow> Inr (\<lambda>labels. False) | Some selector \<Rightarrow> we_selector E selector) of
        Inl e \<Rightarrow> Inl (OwnErr e)
      | Inr matches \<Rightarrow>
          map_sum (\<lambda>e. e) (filter (\<lambda>rs. isControllerBy (rs_OwnerReferences (ko_body rs)) (ob_UID (ko_body deploy))))
            (list_matching (we_rss E) rs_Labels matches (ko_namespace deploy) k))"

section \<open>Pods\<close>

record container_state =
  cs_Type :: string
  cs_ContainerID :: string
  cs_ExitCode :: int
  cs_Reason :: string
  cs_Message :: string
  cs_StartedAt :: time
  cs_FinishedAt :: time

record container_status =
  cu_Name :: string
  cu_Ready :: bool
  cu_RestartCount :: int
  cu_Image :: string
  cu_ImageID :: string
  cu_ContainerID :: string
  cu_LastState :: "container_state option"
  cu_State :: "container_state option"

record pod_status =
  pu_Phase :: string
  pu_StartTime :: time
  pu_HostIP :: string
  pu_PodIP :: string
  pu_PodConditions :: "(string \<times> string \<times> time \<times> time) list"
  pu_ContainerStatuses :: "container_status list"

record pod =
  po_ID :: string
  po_CreationTimestamp :: time
  po_DeletionTimestamp :: "time option"
  po_Name :: string
  po_NodeName :: string
  po_State :: string
  po_Containers :: "container list"
  po_Status :: pod_status

text \<open>A request on a pod names its owner.\<close>

record pod_request =
  pr_OwnerType :: string
  pr_OwnerName :: string
  pr_ID :: string

definition k8sContainerStateToScContainerState :: "k8s_container_state \<Rightarrow> container_state option" where
  "k8sContainerStateToScContainerState state =
     (case state of
        Waiting reason message \<Rightarrow>
          Some \<lparr>cs_Type = ''Waiting'', cs_ContainerID = '''', cs_ExitCode = 0, cs_Reason = reason, cs_Message = message, cs_StartedAt = 0, cs_FinishedAt = 0\<rparr>
      | Running started \<Rightarrow>
          Some \<lparr>cs_Type = ''Running'', cs_ContainerID = '''', cs_ExitCode = 0, cs_Reason = '''', cs_Message = '''', cs_StartedAt = started, cs_FinishedAt = 0\<rparr>
      | Terminated cid code reason started finished \<Rightarrow>
          Some \<lparr>cs_Type = ''Terminated'', cs_ContainerID = cid, cs_ExitCode = code, cs_Reason = reason, cs_Message = '''', cs_StartedAt = started,
            cs_FinishedAt = finished\<rparr>
      | NoState \<Rightarrow> None)"

definition k8sMetaV1TimePtrToISOTime :: "time option \<Rightarrow> time" where
  "k8sMetaV1TimePtrToISOTime t = (case t of None \<Rightarrow> 0 | Some t \<Rightarrow> t)"

definition k8sPodToSCPod :: "('k, 'q) work_env \<Rightarrow> 'q pod_body k8s_obj \<Rightarrow> pod" where
  "k8sPodToSCPod E obj =
     (let b = ko_body obj
      in \<lparr>po_ID = ko_name obj, po_CreationTimestamp = ko_creation obj, po_DeletionTimestamp = ko_deletion obj, po_Name = ko_name obj,
          po_NodeName = pb_NodeName b, po_State = we_podState E obj,
          po_Containers = fst (k8sPodSpecToScContainersAndVCTemplates (pe_Q (we_P E)) (ps_Containers (pb_Spec b)) (ps_Volumes (pb_Spec b)) []),
          po_Status =
            \<lparr>pu_Phase = pb_Phase b, pu_StartTime = k8sMetaV1TimePtrToISOTime (pb_StartTime b), pu_HostIP = pb_HostIP b, pu_PodIP = pb_PodIP b,
             pu_PodConditions = pb_Conditions b,
             pu_ContainerStatuses = map (\<lambda>s.
               \<lparr>cu_Name = ks_Name s, cu_Ready = ks_Ready s, cu_RestartCount = ks_RestartCount s, cu_Image = ks_Image s, cu_ImageID = ks_ImageID s,
                cu_ContainerID = ks_ContainerID s, cu_LastState = k8sContainerStateToScContainerState (ks_LastTerminationState s),
                cu_State = k8sContainerStateToScContainerState (ks_State s)\<rparr>) (pb_ContainerStatuses b)\<rparr>\<rparr>)"

abbreviation ResourceTypeDeployment :: string where "ResourceTypeDeployment \<equiv> ''deployment''"
abbreviation ResourceTypeDaemonSet :: string where "ResourceTypeDaemonSet \<equiv> ''daemonset''"
abbreviation ResourceTypeStatefulSet :: string where "ResourceTypeStatefulSet \<equiv> ''statefulset''"
abbreviation ResourceTypeJob :: string where "ResourceTypeJob \<equiv> ''job''"
abbreviation ResourceTypeCronJob :: string where "ResourceTypeCronJob \<equiv> ''cronjob''"

definition genJobSelector :: "('k, 'q) work_env \<Rightarrow> string \<Rightarrow> string \<Rightarrow> 'k \<Rightarrow> k8s_err + (pairs \<Rightarrow> bool) option" where
  "genJobSelector E ns name k =
     (case kGet (we_jobs E) ns name k of
        Inl e \<Rightarrow> Inl e
      | Inr job \<Rightarrow> map_sum OwnErr Some (we_controllerUID E [jb_UID (ko_body job)]))"

definition genCronJobSelector :: "('k, 'q) work_env \<Rightarrow> string \<Rightarrow> string \<Rightarrow> 'k \<Rightarrow> k8s_err + (pairs \<Rightarrow> bool) option" where
  "genCronJobSelector E ns name k =
     (case kGet (we_crons E) ns name k of
        Inl e \<Rightarrow> Inl e
      | Inr cron \<Rightarrow>
          if length (cj_Active (ko_body cron)) = 0 then Inr None
          else map_sum OwnErr Some (we_controllerUID E (map rf_UID (cj_Active (ko_body cron)))))"

text \<open>
  The error of a workload that is not there is the program's own and no error of the server, so it
  is never taken for one that says the object is missing. No selector is \<open>None\<close>.
\<close>

definition api_err :: "('k, 'q) work_env \<Rightarrow> api_error \<Rightarrow> k8s_err" where
  "api_err E e = OwnErr (we_errorText E e)"

definition getPodParentSelector :: "('k, 'q) work_env \<Rightarrow> string \<Rightarrow> string \<Rightarrow> string \<Rightarrow> 'k \<Rightarrow> k8s_err + (pairs \<Rightarrow> bool) option" where
  "getPodParentSelector E ns typ name k =
     (let conv = (\<lambda>selector. case selector of None \<Rightarrow> Inr None | Some s \<Rightarrow> map_sum OwnErr Some (we_selector E s))
      in if typ = ResourceTypeDeployment
         then (case getDeployment E ns name k of Inl e \<Rightarrow> Inl (api_err E e) | Inr obj \<Rightarrow> conv (ob_Selector (ko_body obj)))
         else if typ = ResourceTypeDaemonSet
         then (case getDaemonSet E ns name k of Inl e \<Rightarrow> Inl (api_err E e) | Inr obj \<Rightarrow> conv (ob_Selector (ko_body obj)))
         else if typ = ResourceTypeStatefulSet
         then (case getStatefulSet E ns name k of Inl e \<Rightarrow> Inl (api_err E e) | Inr obj \<Rightarrow> conv (ob_Selector (ko_body obj)))
         else if typ = ResourceTypeJob then genJobSelector E ns name k
         else if typ = ResourceTypeCronJob then genCronJobSelector E ns name k
         else Inl (OwnErr (''pod no such parent '' @ typ)))"

definition filterPodBasedOnOwner :: "'q pod_body k8s_obj list \<Rightarrow> string \<Rightarrow> string \<Rightarrow> 'q pod_body k8s_obj list" where
  "filterPodBasedOnOwner pods typ name =
     (let owned = (\<lambda>p kind owner. case pb_OwnerReferences (ko_body p) of [ref] \<Rightarrow> or_Kind ref = kind \<and> or_Name ref = owner | _ \<Rightarrow> False)
      in if typ = ResourceTypeDeployment
         then filter (\<lambda>p. case map_of (pb_Labels (ko_body p)) ''pod-template-hash'' of
                None \<Rightarrow> False | Some rsHash \<Rightarrow> owned p ''ReplicaSet'' (name @ ''-'' @ rsHash)) pods
         else if typ = ResourceTypeDaemonSet then filter (\<lambda>p. owned p ''DaemonSet'' name) pods
         else if typ = ResourceTypeStatefulSet then filter (\<lambda>p. owned p ''StatefulSet'' name) pods
         else if typ = ResourceTypeJob \<or> typ = ResourceTypeCronJob then pods
         else [])"

definition getOwnerPods :: "('k, 'q) work_env \<Rightarrow> string \<Rightarrow> string \<Rightarrow> string \<Rightarrow> 'k \<Rightarrow> k8s_err + 'q pod_body k8s_obj list" where
  "getOwnerPods E ns typ name k =
     (case getPodParentSelector E ns typ name k of
        Inl e \<Rightarrow> Inl e
      | Inr None \<Rightarrow> Inl (OwnErr (typ @ '' '' @ name @ '' has no selector''))
      | Inr (Some matches) \<Rightarrow>
          map_sum (\<lambda>e. e) (\<lambda>pods. filterPodBasedOnOwner pods typ name) (list_matching (we_pods E) pb_Labels matches ns k))"

definition pod_List :: "('k, 'q) work_env \<Rightarrow> pod_request sub_ctx \<Rightarrow> 'k kubes \<Rightarrow> api_error + pod list" where
  "pod_List E ctx = read_cluster ctx (\<lambda>k.
     case getOwnerPods E (sx_namespace ctx) (pr_OwnerType (sx_resource ctx)) (pr_OwnerName (sx_resource ctx)) k of
       Inl e \<Rightarrow> Inl (if IsNotFound e then APIError NotFound ''no found pods'' else APIError ServerError (''list pods failed '' @ k8s_text e))
     | Inr pods \<Rightarrow> Inr (map (k8sPodToSCPod E) pods))"

definition pod_Get :: "('k, 'q) work_env \<Rightarrow> pod_request sub_ctx \<Rightarrow> 'k kubes \<Rightarrow> api_error + pod" where
  "pod_Get E ctx = read_cluster ctx (\<lambda>k.
     case kGet (we_pods E) (sx_namespace ctx) (pr_ID (sx_resource ctx)) k of
       Inl e \<Rightarrow> Inl (if IsNotFound e then APIError NotFound (''no found pod '' @ pr_ID (sx_resource ctx))
                    else APIError ServerError (''get pod '' @ pr_ID (sx_resource ctx) @ '' failed '' @ k8s_text e))
     | Inr p \<Rightarrow> Inr (k8sPodToSCPod E p))"

text \<open>Deleting a pod of a cluster that is not ready reports success.\<close>

definition pod_Delete :: "('k, 'q) work_env \<Rightarrow> pod_request sub_ctx \<Rightarrow> 'k kubes \<Rightarrow> 'k kubes \<times> (api_error + unit)" where
  "pod_Delete E ctx ks =
     (case ks (sx_cluster ctx) of
        None \<Rightarrow> (ks, Inr ())
      | Some k \<Rightarrow>
          on_cluster ctx (\<lambda>k. answer (\<lambda>e. if IsNotFound e then APIError NotFound (''pod '' @ pr_ID (sx_resource ctx) @ '' desn't exist'')
              else APIError ServerError (''delete pod failed '' @ k8s_text e))
            () (kDelete (we_pods E) (sx_namespace ctx) (pr_ID (sx_resource ctx)) k)) ks)"

section \<open>Changing workloads\<close>

text \<open>
  A handler that may panic; the message about a missing cluster differs. Nothing is changed before
  a panic.
\<close>

definition on_cluster_o ::
  "string \<Rightarrow> 'r sub_ctx \<Rightarrow> ('k \<Rightarrow> ('k \<times> (api_error + 'a)) outcome) \<Rightarrow> 'k kubes \<Rightarrow> ('k kubes \<times> (api_error + 'a)) outcome" where
  "on_cluster_o missing ctx f ks =
     (case ks (sx_cluster ctx) of
        None \<Rightarrow> Done (ks, Inl (APIError NotFound missing))
      | Some k \<Rightarrow> (case f k of Panicked p \<Rightarrow> Panicked p | Done (k', r) \<Rightarrow> Done (ks(sx_cluster ctx \<mapsto> k'), r)))"

text \<open>The \<open>Update\<close> handlers: containers and volumes are replaced, claims are neither created nor deleted.\<close>

definition with_spec :: "'q pod_spec \<Rightarrow> string \<Rightarrow> ('q, 'z) owner_body_scheme \<Rightarrow> ('q, 'z) owner_body_scheme" where
  "with_spec spec memo b =
     b\<lparr>ob_Template := (ob_Template b)\<lparr>pm_Spec := spec\<rparr>,
       ob_Meta := (ob_Meta b)\<lparr>om_Annotations := addWorkloadUpdateMemoToAnnotations (om_Annotations (ob_Meta b)) memo\<rparr>\<rparr>"

definition update_workload ::
  "('k, 'q) work_env \<Rightarrow> ('k, ('q, 'z) owner_body_scheme) kube_api \<Rightarrow> string \<Rightarrow> string \<Rightarrow> workload sub_ctx \<Rightarrow> 'k kubes \<Rightarrow>
   ('k kubes \<times> (api_error + workload)) outcome" where
  "update_workload E K what kind ctx = on_cluster_o ''cluster doesn't exist'' ctx (\<lambda>k.
     let w = sx_resource ctx
     in case getWorkload K what (sx_namespace ctx) (wl_ID w) k of
          Inl e \<Rightarrow> Done (k, Inl e)
        | Inr obj \<Rightarrow>
            (case scPodSpecToK8sPodSpecAndPVCs (we_P E) k (wl_Containers w) (wl_PersistentVolumes w) of
               Panicked p \<Rightarrow> Panicked p
             | Done (Inl e) \<Rightarrow> Done (k, Inl (APIError ConnectClusterFailed (''update '' @ kind @ '' failed '' @ e)))
             | Done (Inr (spec, pvcs)) \<Rightarrow>
                 Done (answer (\<lambda>e. APIError ConnectClusterFailed (''update '' @ kind @ '' failed '' @ k8s_text e)) w
                   (kUpdate K (obj\<lparr>ko_body := with_spec spec (wl_Memo w) (ko_body obj)\<rparr>) k))))"

text \<open>The \<open>setPodCount\<close> actions.\<close>

definition set_pod_count ::
  "('k, 'b) kube_api \<Rightarrow> ('k, 'q) patch_api \<Rightarrow> ('b \<Rightarrow> int) \<Rightarrow> string \<Rightarrow> string \<Rightarrow> string \<Rightarrow> string \<Rightarrow> int option \<Rightarrow> 'k \<Rightarrow> 'k \<times> (api_error + action_result)" where
  "set_pod_count K patch replicas what kind ns name param k =
     (case param of
        None \<Rightarrow> (k, Inl (APIError InvalidFormat ''action set pod count param is not valid''))
      | Some n \<Rightarrow>
          (case getWorkload K what ns name k of
             Inl e \<Rightarrow> (k, Inl e)
           | Inr obj \<Rightarrow>
               if replicas (ko_body obj) \<noteq> n
               then answer (\<lambda>e. APIError ConnectClusterFailed (''set '' @ kind @ '' pod count failed: '' @ k8s_text e)) (PodCount n)
                      (patch (ko_namespace obj) (ko_name obj) (MergeReplicas n) k)
               else (k, Inr (PodCount n))))"

text \<open>The history without its last version; an empty history makes the bounds of the slice invalid.\<close>

definition version_history :: "version_info list \<Rightarrow> version_info list outcome" where
  "version_history infos =
     (if infos = [] then Panicked ''slice bounds out of range'' else Done (butlast (sort_key vi_Version infos)))"

definition k8sWorkloadConditionsToScWorkloadConditions :: "workload_condition list \<Rightarrow> bool \<Rightarrow> workload_condition list" where
  "k8sWorkloadConditionsToScWorkloadConditions conds isDeploy = map (\<lambda>c. if isDeploy then c else c\<lparr>wc_LastUpdateTime := 0\<rparr>) conds"

definition shown_options :: "('q, 'z) owner_body_scheme \<Rightarrow> advanced_options" where
  "shown_options b =
     (let opts = (case om_Options (ob_Meta b) of None \<Rightarrow> no_options | Some j \<Rightarrow> (case json_unmarshal j of Inl e \<Rightarrow> no_options | Inr opts \<Rightarrow> opts))
      in opts\<lparr>ao_ExposedMetric := k8sAnnotationsToScExposedMetric (tp_Annotations (pm_Meta (ob_Template b)))\<rparr>)"


section \<open>An in-memory server for workloads\<close>

record mem_work =
  mw_pods :: mem_pods
  mw_deploys :: "nat deploy_body mem_kube"
  mw_stss :: "nat sts_body mem_kube"
  mw_dss :: "nat ds_body mem_kube"
  mw_jobs :: "nat job_body mem_kube"
  mw_crons :: "nat cron_body mem_kube"
  mw_podobjs :: "nat pod_body mem_kube"
  mw_rss :: "nat rs_body mem_kube"
  mw_revisions :: "nat revision_body mem_kube"

definition mem_work_P :: "(mem_work, nat) pod_env" where
  "mem_work_P =
     \<lparr>pe_Q = nat_quantity,
      pe_claims = lift_api mw_pods (\<lambda>a k. k\<lparr>mw_pods := a\<rparr>) (pe_claims mem_pod_env),
      pe_pvs = lift_api mw_pods (\<lambda>a k. k\<lparr>mw_pods := a\<rparr>) (pe_pvs mem_pod_env),
      pe_classes = lift_api mw_pods (\<lambda>a k. k\<lparr>mw_pods := a\<rparr>) (pe_classes mem_pod_env),
      pe_cms = lift_api mw_pods (\<lambda>a k. k\<lparr>mw_pods := a\<rparr>) (pe_cms mem_pod_env),
      pe_secrets = lift_api mw_pods (\<lambda>a k. k\<lparr>mw_pods := a\<rparr>) (pe_secrets mem_pod_env),
      pe_hash = (\<lambda>cms ss. ''hash'')\<rparr>"

definition mem_patch :: "('k \<Rightarrow> 'b mem_kube) \<Rightarrow> ('b mem_kube \<Rightarrow> 'k \<Rightarrow> 'k) \<Rightarrow> ('q patch \<Rightarrow> 'b \<Rightarrow> 'b) \<Rightarrow> ('k, 'q) patch_api" where
  "mem_patch get put app ns n p k =
     (case map_of (get k) (ns, n) of
        None \<Rightarrow> (k, Some (K8sNotFound ''not found''))
      | Some obj \<Rightarrow> (put (((ns, n), obj\<lparr>ko_body := app p (ko_body obj)\<rparr>) # get k) k, None))"

fun patch_owner :: "'q patch \<Rightarrow> ('q, 'z) owner_body_scheme \<Rightarrow> ('q, 'z) owner_body_scheme" where
  "patch_owner (ReplaceTemplate t m) b = b\<lparr>ob_Template := t, ob_Meta := m\<rparr>"
| "patch_owner (MergeReplicas n) b = b"
| "patch_owner (StrategicMerge j) b = (case json_unmarshal j of Inl e \<Rightarrow> b | Inr t \<Rightarrow> b\<lparr>ob_Template := t\<rparr>)"

definition patch_deploy :: "'q patch \<Rightarrow> 'q deploy_body \<Rightarrow> 'q deploy_body" where
  "patch_deploy p b = (case p of MergeReplicas n \<Rightarrow> b\<lparr>db_Replicas := n\<rparr> | _ \<Rightarrow> patch_owner p b)"

definition patch_sts :: "'q patch \<Rightarrow> 'q sts_body \<Rightarrow> 'q sts_body" where
  "patch_sts p b = (case p of MergeReplicas n \<Rightarrow> b\<lparr>sb_Replicas := n\<rparr> | _ \<Rightarrow> patch_owner p b)"

definition matches_labels :: "label_selector \<Rightarrow> pairs \<Rightarrow> bool" where
  "matches_labels s labels \<longleftrightarrow> list_all (\<lambda>(k, v). map_of labels k = Some v) (ls_MatchLabels s)"

definition mem_work_env :: "(mem_work, nat) work_env" where
  "mem_work_env =
     \<lparr>we_P = mem_work_P,
      we_deploys = lift_api mw_deploys (\<lambda>a k. k\<lparr>mw_deploys := a\<rparr>) mem_kube,
      we_stss = lift_api mw_stss (\<lambda>a k. k\<lparr>mw_stss := a\<rparr>) mem_kube,
      we_dss = lift_api mw_dss (\<lambda>a k. k\<lparr>mw_dss := a\<rparr>) mem_kube,
      we_jobs = lift_api mw_jobs (\<lambda>a k. k\<lparr>mw_jobs := a\<rparr>) mem_kube,
      we_crons = lift_api mw_crons (\<lambda>a k. k\<lparr>mw_crons := a\<rparr>) mem_kube,
      we_pods = lift_api mw_podobjs (\<lambda>a k. k\<lparr>mw_podobjs := a\<rparr>) mem_kube,
      we_rss = lift_api mw_rss (\<lambda>a k. k\<lparr>mw_rss := a\<rparr>) mem_kube,
      we_revisions = lift_api mw_revisions (\<lambda>a k. k\<lparr>mw_revisions := a\<rparr>) mem_kube,
      we_patchDeploy = mem_patch mw_deploys (\<lambda>a k. k\<lparr>mw_deploys := a\<rparr>) patch_deploy,
      we_patchSts = mem_patch mw_stss (\<lambda>a k. k\<lparr>mw_stss := a\<rparr>) patch_sts,
      we_patchDs = mem_patch mw_dss (\<lambda>a k. k\<lparr>mw_dss := a\<rparr>) patch_owner,
      we_selector = (\<lambda>s. Inr (matches_labels s)),
      we_controllerUID = (\<lambda>uids. Inr (\<lambda>labels. list_ex (\<lambda>u. map_of labels ''controller-uid'' = Some u) uids)),
      we_errorText = (\<lambda>e. case e of APIError code msg \<Rightarrow> msg),
      we_podState = (\<lambda>p. pb_Phase (ko_body p))\<rparr>"

lemma lift_api_fst:
  "kCreate (lift_api get put K) obj k = map_prod (\<lambda>a. put a k) (\<lambda>r. r) (kCreate K obj (get k))"
  "kUpdate (lift_api get put K) obj k = map_prod (\<lambda>a. put a k) (\<lambda>r. r) (kUpdate K obj (get k))"
  "kDelete (lift_api get put K) ns n k = map_prod (\<lambda>a. put a k) (\<lambda>r. r) (kDelete K ns n (get k))"
  by (simp_all add: lift_api_def split: prod.splits)

lemma pod_claims_lift:
  assumes "pod_claims P view kept" "\<And>a k. get (put a k) = a" "pe_claims P' = lift_api get put (pe_claims P)" "pe_pvs P' = lift_api get put (pe_pvs P)"
  shows "pod_claims P' (\<lambda>k. view (get k)) kept"
  using assms pod_claims.pvs_apart [OF assms(1)] pod_claims.delete_live [OF assms(1)] pod_claims.axioms(1) [OF assms(1)]
  by (auto simp: pod_claims_def pod_claims_axioms_def lift_api_fst intro: lift_api_live)

lemma mem_pods_kept: "pod_claims mem_pod_env (\<lambda>k. mem_view (mp_claims k)) kept"
proof -
  have l: "kube_live (lift_api mp_claims (\<lambda>a k. k\<lparr>mp_claims := a\<rparr>) mem_kube) (\<lambda>k. mem_view (mp_claims k)) kept"
    by (rule lift_api_live [OF mem_kube_kept]) simp
  show ?thesis using mem_pods.pvs_apart mem_pods.delete_live
    by (simp add: pod_claims_def pod_claims_axioms_def mem_pod_env_def l)
qed

lemma mem_work_claims: "pod_claims mem_work_P (\<lambda>k. mem_view (mp_claims (mw_pods k))) kept"
  by (rule pod_claims_lift [OF mem_pods_kept, where get = mw_pods and put = "\<lambda>a k. k\<lparr>mw_pods := a\<rparr>"]) (simp_all add: mem_work_P_def)

end
