(* ===== verification/Deployment.thy ===== *)
theory Deployment
  imports Workload
begin

text \<open>
  Deployments (\<^verbatim>\<open>pkg/handler/deployment_manager.go\<close>): the handlers, the progress of an update, the
  history of versions, and going back to one of them.
\<close>

section \<open>Showing a deployment\<close>

abbreviation RevisionAnnotation :: string where "RevisionAnnotation \<equiv> ''deployment.kubernetes.io/revision''"

definition AnnotationsToSkip :: "string list" where
  "AnnotationsToSkip =
     [''kubectl.kubernetes.io/last-applied-configuration'', RevisionAnnotation, ''deployment.kubernetes.io/revision-history'',
      ''deployment.kubernetes.io/desired-replicas'', ''deployment.kubernetes.io/max-replicas'', ''deprecated.deployment.rollback.to'']"

definition deployIsUpdating :: "'q deploy_body \<Rightarrow> bool" where
  "deployIsUpdating b \<longleftrightarrow>
     map_of (om_Annotations (ob_Meta b)) RevisionAnnotation \<noteq> Some ''1''
     \<and> \<not> (db_ObservedGeneration b = 1
        \<or> (db_Replicas b = db_StatusReplicas b \<and> db_StatusReplicas b = db_ReadyReplicas b \<and> db_ReadyReplicas b = db_UpdatedReplicas b
           \<and> db_UnavailableReplicas b = 0))"

text \<open>The loop over the replica sets: those of the current and of the previous version count.\<close>

fun update_progress :: "int \<Rightarrow> string \<Rightarrow> string \<Rightarrow> 'q rs_body k8s_obj list \<Rightarrow> workload_status \<Rightarrow> workload_status" where
  "update_progress ready version previous [] st = st"
| "update_progress ready version previous (rs # rss) st =
     (case map_of (om_Annotations (rs_Meta (ko_body rs))) RevisionAnnotation of
        None \<Rightarrow> update_progress ready version previous rss st
      | Some v \<Rightarrow>
          if v = version
          then update_progress ready version previous rss
                 (st\<lparr>ws_UpdatedReplicas := rs_ReadyReplicas (ko_body rs),
                     ws_UpdatingReplicas := int32 (rs_StatusReplicas (ko_body rs) - rs_ReadyReplicas (ko_body rs))\<rparr>)
          else if v = previous
          then (if rs_StatusReplicas (ko_body rs) = 0 then no_status\<lparr>ws_ReadyReplicas := ready\<rparr>
                else update_progress ready version previous rss (st\<lparr>ws_CurrentReplicas := rs_StatusReplicas (ko_body rs)\<rparr>))
          else update_progress ready version previous rss st)"

definition getDeploymentUpdateStatus :: "('k, 'q) work_env \<Rightarrow> 'q deploy_body k8s_obj \<Rightarrow> 'k \<Rightarrow> goerr + workload_status" where
  "getDeploymentUpdateStatus E obj k =
     (case map_of (om_Annotations (ob_Meta (ko_body obj))) RevisionAnnotation of
        None \<Rightarrow> Inl (''deploy '' @ ko_name obj @ '' should has annotation deployment.kubernetes.io/revision'')
      | Some version \<Rightarrow>
          (let currentVersion = atoi_value version
           in case getReplicaSets E obj k of
                Inl e \<Rightarrow> Inl (k8s_text e)
              | Inr rss \<Rightarrow>
                  if length rss < 2 then Inl (''deploy '' @ ko_name obj @ '' should has at least two replicasets when updating'')
                  else Inr (update_progress (db_ReadyReplicas (ko_body obj)) version (itoa (currentVersion - 1)) rss
                              (no_status\<lparr>ws_ReadyReplicas := db_ReadyReplicas (ko_body obj), ws_Updating := True\<rparr>))))"

definition k8sDeployToSCDeploy :: "('k, 'q) work_env \<Rightarrow> 'k \<Rightarrow> 'q deploy_body k8s_obj \<Rightarrow> api_error + workload" where
  "k8sDeployToSCDeploy E k obj =
     (let b = ko_body obj;
          spec = pm_Spec (ob_Template b);
          shown = k8sPodSpecToScContainersAndVCTemplates (pe_Q (we_P E)) (ps_Containers spec) (ps_Volumes spec) []
      in case getPVCs (we_P E) (ko_namespace obj) (snd shown) k of
           Inl e \<Rightarrow> Inl (APIError (if IsNotFound e then NotFound else ServerError) (''get deploy '' @ ko_name obj @ '' pvc failed: '' @ k8s_text e))
         | Inr pvs \<Rightarrow>
             (case (if deployIsUpdating b then getDeploymentUpdateStatus E obj k else Inr (no_status\<lparr>ws_ReadyReplicas := db_ReadyReplicas b\<rparr>)) of
                Inl e \<Rightarrow> Inl (APIError ServerError (''get deploy '' @ ko_name obj @ '' status failed: '' @ e))
              | Inr status \<Rightarrow>
                  Inr \<lparr>wl_ID = ko_name obj, wl_CreationTimestamp = ko_creation obj, wl_DeletionTimestamp = ko_deletion obj, wl_Name = ko_name obj,
                    wl_Replicas = db_Replicas b, wl_Containers = fst shown, wl_AdvancedOptions = shown_options b, wl_PersistentVolumes = pvs,
                    wl_Status = status\<lparr>ws_Conditions := k8sWorkloadConditionsToScWorkloadConditions (ob_Conditions b) True\<rparr>, wl_Memo = ''''\<rparr>))"

fun show_all :: "('b k8s_obj \<Rightarrow> api_error + 'r) \<Rightarrow> 'b k8s_obj list \<Rightarrow> api_error + 'r list" where
  "show_all f [] = Inr []"
| "show_all f (obj # objs) = (case f obj of Inl e \<Rightarrow> Inl e | Inr r \<Rightarrow> map_sum (\<lambda>e. e) ((#) r) (show_all f objs))"

section \<open>Handlers\<close>

definition new_deploy :: "workload \<Rightarrow> 'q pod_template \<Rightarrow> 'q deploy_body" where
  "new_deploy d template =
     \<lparr>ob_UID = '''', ob_Meta = generatePodOwnerObjectMeta (wl_AdvancedOptions d) (wl_Memo d), ob_Selector = Some (LabelSelector [(''app'', wl_Name d)] []),
      ob_Template = template, ob_Conditions = [], db_Replicas = int32 (wl_Replicas d), db_Paused = False, db_ObservedGeneration = 0,
      db_StatusReplicas = 0, db_ReadyReplicas = 0, db_UpdatedReplicas = 0, db_UnavailableReplicas = 0\<rparr>"

definition createDeployment :: "('k, 'q) work_env \<Rightarrow> string \<Rightarrow> workload \<Rightarrow> 'k \<Rightarrow> ('k \<times> k8s_err option) outcome" where
  "createDeployment E ns d k =
     (case createPodTempateSpec (we_P E) False ns (wl_Name d) (wl_AdvancedOptions d) (wl_Containers d) (wl_PersistentVolumes d) k of
        Panicked p \<Rightarrow> Panicked p
      | Done (k1, Inl e) \<Rightarrow> Done (k1, Some (OwnErr e))
      | Done (k1, Inr (template, pvcs)) \<Rightarrow>
          (case kCreate (we_deploys E) (new_obj ns (wl_Name d) (new_deploy d template)) k1 of
             (k2, Some e) \<Rightarrow> Done (deletePVCs (we_P E) ns pvcs k2, Some e)
           | (k2, None) \<Rightarrow> Done (k2, None)))"

definition deploy_Create :: "('k, 'q) work_env \<Rightarrow> workload sub_ctx \<Rightarrow> 'k kubes \<Rightarrow> ('k kubes \<times> (api_error + workload)) outcome" where
  "deploy_Create E ctx = on_cluster_o ''cluster s doesn't exist'' ctx (\<lambda>k.
     let d = sx_resource ctx
     in case createDeployment E (sx_namespace ctx) d k of
          Panicked p \<Rightarrow> Panicked p
        | Done r \<Rightarrow>
            Done (answer (\<lambda>e. if IsAlreadyExists e then APIError DuplicateResource (''duplicate deploy name '' @ wl_Name d)
                              else APIError ConnectClusterFailed (''create deploy failed '' @ k8s_text e))
              (d\<lparr>wl_ID := wl_Name d\<rparr>) r))"

definition deploy_List :: "('k, 'q) work_env \<Rightarrow> workload sub_ctx \<Rightarrow> 'k kubes \<Rightarrow> api_error + workload list" where
  "deploy_List E ctx = read_cluster ctx (\<lambda>k.
     case kList (we_deploys E) (sx_namespace ctx) k of
       Inl e \<Rightarrow> Inl (if IsNotFound e then APIError NotFound ''no found deploys'' else APIError ServerError (''list deploys failed '' @ k8s_text e))
     | Inr objs \<Rightarrow> show_all (k8sDeployToSCDeploy E k) objs)"

definition deploy_Get :: "('k, 'q) work_env \<Rightarrow> workload sub_ctx \<Rightarrow> 'k kubes \<Rightarrow> api_error + workload" where
  "deploy_Get E ctx = read_cluster ctx (\<lambda>k.
     case getDeployment E (sx_namespace ctx) (wl_ID (sx_resource ctx)) k of
       Inl e \<Rightarrow> Inl e
     | Inr obj \<Rightarrow> k8sDeployToSCDeploy E k obj)"

definition deploy_Update :: "('k, 'q) work_env \<Rightarrow> workload sub_ctx \<Rightarrow> 'k kubes \<Rightarrow> ('k kubes \<times> (api_error + workload)) outcome" where
  "deploy_Update E = update_workload E (we_deploys E) ''deploy'' ''deployment''"

text \<open>A deletion that succeeded is also published; the subscribers are told the resource.\<close>

definition deploy_Delete :: "('k, 'q) work_env \<Rightarrow> workload sub_ctx \<Rightarrow> 'k kubes \<Rightarrow> ('k kubes \<times> (api_error + unit)) outcome" where
  "deploy_Delete E ctx = on_cluster_o ''cluster s doesn't exist'' ctx (\<lambda>k.
     let name = wl_ID (sx_resource ctx)
     in case getDeployment E (sx_namespace ctx) name k of
          Inl e \<Rightarrow> Done (k, Inl e)
        | Inr obj \<Rightarrow>
            (case kDelete (we_deploys E) (sx_namespace ctx) name k of
               (k', Some e) \<Rightarrow> Done (k', Inl (APIError ServerError (''delete deployment failed '' @ k8s_text e)))
             | (k', None) \<Rightarrow>
                 Done (if map_of (om_Annotations (ob_Meta (ko_body obj))) AnnkeyForDeletePVsWhenDeleteWorkload = Some ''true''
                       then deleteWorkLoadPVCs (we_P E) (sx_namespace ctx) (ps_Volumes (pm_Spec (ob_Template (ko_body obj)))) k'
                       else k', Inr ())))"

definition getDeploymentAndReplicaSets ::
  "('k, 'q) work_env \<Rightarrow> string \<Rightarrow> string \<Rightarrow> 'k \<Rightarrow> api_error + 'q deploy_body k8s_obj \<times> 'q rs_body k8s_obj list" where
  "getDeploymentAndReplicaSets E ns name k =
     (case getDeployment E ns name k of
        Inl e \<Rightarrow> Inl e
      | Inr obj \<Rightarrow>
          (case ob_Selector (ko_body obj) of
             None \<Rightarrow> Inl (APIError ServerError (''deploy '' @ name @ '' has no selector''))
           | Some selector \<Rightarrow>
               (case getReplicaSets E obj k of
                  Inl e \<Rightarrow> Inl (if IsNotFound e then APIError NotFound (''no found deploy '' @ name @ '' replicasets'')
                               else APIError ServerError (''get deploy '' @ name @ '' replicasets failed: '' @ k8s_text e))
                | Inr rss \<Rightarrow> Inr (obj, rss))))"

definition rs_version :: "('k, 'q) work_env \<Rightarrow> string \<Rightarrow> string \<Rightarrow> 'q rs_body k8s_obj \<Rightarrow> version_info list" where
  "rs_version E ns name rs =
     (let b = ko_body rs; spec = pm_Spec (rs_Template b)
      in case map_of (om_Annotations (rs_Meta b)) RevisionAnnotation of
           None \<Rightarrow> []
         | Some v \<Rightarrow>
             [\<lparr>vi_Name = name, vi_Namespace = ns, vi_Version = atoi_value v,
               vi_ChangeReason = (case map_of (om_Annotations (rs_Meta b)) ChangeCauseAnnotation of None \<Rightarrow> '''' | Some m \<Rightarrow> m),
               vi_Containers = fst (k8sPodSpecToScContainersAndVCTemplates (pe_Q (we_P E)) (ps_Containers spec) (ps_Volumes spec) [])\<rparr>])"

definition getDeploymentHistory :: "('k, 'q) work_env \<Rightarrow> string \<Rightarrow> string \<Rightarrow> 'k \<Rightarrow> (api_error + version_info list) outcome" where
  "getDeploymentHistory E ns name k =
     (case getDeploymentAndReplicaSets E ns name k of
        Inl e \<Rightarrow> Done (Inl e)
      | Inr (obj, rss) \<Rightarrow>
          (case version_history (concat (map (rs_version E ns name) rss)) of Panicked p \<Rightarrow> Panicked p | Done infos \<Rightarrow> Done (Inr infos)))"

text \<open>
  Going back: the template of the version without the label of its replica set; the annotations of the
  version, those about the rollout stay as they are.
\<close>

definition rollback_template :: "'q rs_body \<Rightarrow> 'q pod_template" where
  "rollback_template rs =
     (rs_Template rs)\<lparr>pm_Meta := (pm_Meta (rs_Template rs))\<lparr>tp_Labels := AList.delete ''pod-template-hash'' (tp_Labels (pm_Meta (rs_Template rs)))\<rparr>\<rparr>"

definition rollback_annotations :: "owner_meta \<Rightarrow> owner_meta \<Rightarrow> string \<Rightarrow> owner_meta" where
  "rollback_annotations deploy rs memo =
     \<lparr>om_Options = om_Options rs,
      om_Annotations = AList.update ChangeCauseAnnotation memo
        (filter (\<lambda>(k, v). k \<in> set AnnotationsToSkip) (om_Annotations deploy) @ filter (\<lambda>(k, v). k \<notin> set AnnotationsToSkip) (om_Annotations rs))\<rparr>"

definition deploy_rollback ::
  "('k, 'q) work_env \<Rightarrow> string \<Rightarrow> string \<Rightarrow> roll_back_version option \<Rightarrow> 'k \<Rightarrow> 'k \<times> (api_error + action_result)" where
  "deploy_rollback E ns name param k =
     (case param of
        None \<Rightarrow> (k, Inl (APIError InvalidFormat ''action rollback version param is not valid''))
      | Some p \<Rightarrow>
          (case getDeploymentAndReplicaSets E ns name k of
             Inl e \<Rightarrow> (k, Inl e)
           | Inr (obj, rss) \<Rightarrow>
               if db_Paused (ko_body obj) then (k, Inl (APIError ConnectClusterFailed ''cannot rollback a paused deployment''))
               else case List.find (\<lambda>rs. map_of (om_Annotations (rs_Meta (ko_body rs))) RevisionAnnotation = Some (itoa (rb_Version p))) rss of
                      None \<Rightarrow> (k, Inl (APIError ConnectClusterFailed ''rollback deployment failed no found version''))
                    | Some rs \<Rightarrow>
                        answer (\<lambda>e. APIError ConnectClusterFailed (''rollback deployment failed: '' @ k8s_text e)) NoResult
                          (we_patchDeploy E (ko_namespace obj) (ko_name obj)
                             (ReplaceTemplate (rollback_template (ko_body rs)) (rollback_annotations (ob_Meta (ko_body obj)) (rs_Meta (ko_body rs)) (rb_Memo p))) k)))"

definition deploy_Action :: "('k, 'q) work_env \<Rightarrow> workload sub_ctx \<Rightarrow> action \<Rightarrow> 'k kubes \<Rightarrow> ('k kubes \<times> (api_error + action_result)) outcome" where
  "deploy_Action E ctx a ks =
     (let ns = sx_namespace ctx; name = wl_ID (sx_resource ctx)
      in case a of
           GetHistory \<Rightarrow>
             on_cluster_o ''cluster doesn't exist'' ctx (\<lambda>k. case getDeploymentHistory E ns name k of
                 Panicked p \<Rightarrow> Panicked p | Done r \<Rightarrow> Done (k, map_sum (\<lambda>e. e) VersionHistory r)) ks
         | Rollback param \<Rightarrow> on_cluster_o ''cluster doesn't exist'' ctx (\<lambda>k. Done (deploy_rollback E ns name param k)) ks
         | SetPodCount param \<Rightarrow>
             on_cluster_o ''cluster s doesn't exist'' ctx
               (\<lambda>k. Done (set_pod_count (we_deploys E) (we_patchDeploy E) db_Replicas ''deploy'' ''deployment'' ns name param k)) ks
         | UnknownAction n \<Rightarrow> Done (ks, Inl (APIError InvalidAction (''action '' @ n @ '' is unknown''))))"


section \<open>Versions\<close>

lemma version_history_ok:
  assumes "distinct (map vi_Version infos)" "infos \<noteq> []"
  shows "\<exists>shown newest. version_history infos = Done shown \<and> mset infos = mset (shown @ [newest])
    \<and> sorted (map vi_Version shown) \<and> (\<forall>v \<in> set shown. vi_Version v < vi_Version newest)"
proof -
  let ?s = "sort_key vi_Version infos"
  have ne: "?s \<noteq> []" using assms(2) by (metis length_0_conv length_sort)
  then have split: "?s = butlast ?s @ [last ?s]" by simp
  have sorted: "sorted (map vi_Version ?s)" by simp
  have dist: "distinct (map vi_Version ?s)" using assms(1) by (metis distinct_map distinct_sort set_sort)
  have "sorted (map vi_Version (butlast ?s @ [last ?s]))" "distinct (map vi_Version (butlast ?s @ [last ?s]))"
    using sorted dist split by simp_all
  then have "sorted (map vi_Version (butlast ?s))" "\<forall>v \<in> set (butlast ?s). vi_Version v < vi_Version (last ?s)"
    by (auto simp: sorted_append order.strict_iff_order image_iff)
  moreover have "mset infos = mset (butlast ?s @ [last ?s])" using split by (metis mset_sort)
  ultimately show ?thesis using assms(2) by (auto simp: version_history_def)
qed

text \<open>
  The revisions of a deployment: each replica set that has one has a number of its own, written in
  decimal.
\<close>

definition revisions :: "'q rs_body k8s_obj list \<Rightarrow> string list" where
  "revisions rss = concat (map (\<lambda>rs. case map_of (om_Annotations (rs_Meta (ko_body rs))) RevisionAnnotation of None \<Rightarrow> [] | Some v \<Rightarrow> [v]) rss)"

definition numbered :: "'q rs_body k8s_obj list \<Rightarrow> bool" where
  "numbered rss \<longleftrightarrow> distinct (revisions rss) \<and> (\<forall>v \<in> set (revisions rss). \<exists>n \<ge> 1. n < 2 ^ 63 \<and> v = itoa n)"

abbreviation rs_containers :: "('k, 'q) work_env \<Rightarrow> 'q pod_template \<Rightarrow> container list" where
  "rs_containers E t \<equiv> fst (k8sPodSpecToScContainersAndVCTemplates (pe_Q (we_P E)) (ps_Containers (pm_Spec t)) (ps_Volumes (pm_Spec t)) [])"

lemma rs_versions:
  "map vi_Version (concat (map (rs_version E ns name) rss)) = map atoi_value (revisions rss)"
  by (induction rss) (auto simp: revisions_def rs_version_def Let_def split: option.splits)

lemma numbered_distinct:
  assumes "numbered rss"
  shows "distinct (map vi_Version (concat (map (rs_version E ns name) rss)))"
proof -
  have "inj_on atoi_value (set (revisions rss))"
  proof (rule inj_onI)
    fix x y
    assume "x \<in> set (revisions rss)" "y \<in> set (revisions rss)" and eq: "atoi_value x = atoi_value y"
    then obtain n m where "n \<ge> 1" "m \<ge> 1" "n < 2 ^ 63" "m < 2 ^ 63" "x = itoa n" "y = itoa m"
      using assms unfolding numbered_def by blast
    with eq atoi_value_itoa [of n] atoi_value_itoa [of m] show "x = y" by simp
  qed
  with assms show ?thesis unfolding rs_versions by (simp add: distinct_map numbered_def)
qed

lemma rs_version_Some:
  assumes "info \<in> set (rs_version E ns name rs)"
  obtains v where "map_of (om_Annotations (rs_Meta (ko_body rs))) RevisionAnnotation = Some v" "vi_Version info = atoi_value v"
    "vi_Containers info = rs_containers E (rs_Template (ko_body rs))"
  using assms by (cases "map_of (om_Annotations (rs_Meta (ko_body rs))) RevisionAnnotation") (auto simp: rs_version_def Let_def)

lemma find_version:
  assumes "numbered rss" "info \<in> set (concat (map (rs_version E ns name) rss))"
  shows "\<exists>rs. List.find (\<lambda>rs. map_of (om_Annotations (rs_Meta (ko_body rs))) RevisionAnnotation = Some (itoa (vi_Version info))) rss = Some rs
    \<and> rs_containers E (rs_Template (ko_body rs)) = vi_Containers info"
  using assms
proof (induction rss)
  case (Cons r rss)
  let ?ann = "\<lambda>rs. map_of (om_Annotations (rs_Meta (ko_body rs))) RevisionAnnotation"
  have tail: "numbered rss" using Cons.prems(1) by (auto simp: numbered_def revisions_def)
  show ?case
  proof (cases "info \<in> set (rs_version E ns name r)")
    case True
    then obtain v where v: "?ann r = Some v" "vi_Version info = atoi_value v"
      "vi_Containers info = rs_containers E (rs_Template (ko_body r))" by (rule rs_version_Some)
    then obtain n where n: "n \<ge> 1" "n < 2 ^ 63" "v = itoa n" using Cons.prems(1) by (auto simp: numbered_def revisions_def)
    with v atoi_value_itoa [of n] have "vi_Version info = n" by simp
    with v n show ?thesis by simp
  next
    case False
    with Cons.prems(2) have info: "info \<in> set (concat (map (rs_version E ns name) rss))" by simp
    then obtain r' where r': "r' \<in> set rss" "info \<in> set (rs_version E ns name r')" by auto
    then obtain v where v: "r' \<in> set rss" "?ann r' = Some v" "vi_Version info = atoi_value v"
      by (auto elim: rs_version_Some)
    then have mem: "v \<in> set (revisions rss)" by (auto simp: revisions_def intro!: bexI [of _ r'])
    then obtain n where n: "n \<ge> 1" "n < 2 ^ 63" "v = itoa n" using tail by (auto simp: numbered_def)
    with v atoi_value_itoa [of n] have "vi_Version info = n" by simp
    moreover have "?ann r \<noteq> Some v" using Cons.prems(1) mem by (auto simp: numbered_def revisions_def)
    ultimately show ?thesis using Cons.IH [OF tail info] n by simp
  qed
qed simp


section \<open>The server of deployments and claims\<close>

text \<open>
  What the server keeps of a deployment as it was sent; it sets the status and some annotations itself.
\<close>

definition deploy_kept :: "'q deploy_body \<Rightarrow> advanced_options json option \<times> 'q pod_template \<times> int" where
  "deploy_kept b = (om_Options (ob_Meta b), ob_Template b, db_Replicas b)"

definition claim_kept :: "'q claim \<Rightarrow> 'q option \<times> string option" where
  "claim_kept c = (cl_Storage c, cl_StorageClassName c)"

fun patched :: "'q patch \<Rightarrow> advanced_options json option \<times> 'q pod_template \<times> int \<Rightarrow> advanced_options json option \<times> 'q pod_template \<times> int" where
  "patched (ReplaceTemplate t m) (opts, t0, n) = (om_Options m, t, n)"
| "patched (MergeReplicas n') (opts, t0, n) = (opts, t0, n')"
| "patched (StrategicMerge j) (opts, t0, n) = (case json_unmarshal j of Inl e \<Rightarrow> (opts, t0, n) | Inr t \<Rightarrow> (opts, t, n))"

locale deploy_server = kube_live "we_deploys E" dview deploy_kept + claims: pod_claims "we_P E" cview claim_kept
  for E :: "('k, 'q) work_env" and dview and cview +
  assumes claims_apart: "dview (fst (kCreate (pe_claims (we_P E)) c k)) = dview k" "dview (fst (kDelete (pe_claims (we_P E)) ns n k)) = dview k"
    "dview (fst (kDelete (pe_pvs (we_P E)) ns n k)) = dview k"
    and deploys_apart: "cview (fst (kCreate (we_deploys E) d k)) = cview k" "cview (fst (kDelete (we_deploys E) ns n k)) = cview k"
    and patch_view: "we_patchDeploy E ns n p k = (k', None) \<Longrightarrow>
      \<exists>obj obj'. dview k (ns, n) = Some obj \<and> dview k' = (dview k)((ns, n) \<mapsto> obj') \<and> deploy_kept (ko_body obj') = patched p (deploy_kept (ko_body obj))"

text \<open>
  C37. The history of a deployment shows every version except the newest, oldest first, and the action
  panics when the deployment has no version yet. Going back to a version of the history leaves
  the deployment with exactly the containers the history shows for that version and with the number
  of pods it had.
\<close>

theorem deployment_history_rollback:
  assumes "deploy_server E dview cview" "getDeploymentAndReplicaSets E ns name k = Inr (obj, rss)" "numbered rss"
  shows "(revisions rss = [] \<longrightarrow> (\<exists>p. getDeploymentHistory E ns name k = Panicked p))
    \<and> (revisions rss \<noteq> [] \<longrightarrow> (\<exists>infos newest. getDeploymentHistory E ns name k = Done (Inr infos)
        \<and> mset (concat (map (rs_version E ns name) rss)) = mset (infos @ [newest])
        \<and> sorted (map vi_Version infos) \<and> (\<forall>v \<in> set infos. vi_Version v < vi_Version newest)
        \<and> (\<forall>v \<in> set infos. \<forall>memo k' r. deploy_rollback E ns name (Some \<lparr>rb_Version = vi_Version v, rb_Memo = memo\<rparr>) k = (k', Inr r) \<longrightarrow>
            (\<exists>obj'. dview k' (ns, name) = Some obj' \<and> rs_containers E (ob_Template (ko_body obj')) = vi_Containers v
              \<and> db_Replicas (ko_body obj') = db_Replicas (ko_body obj)))))"
proof (cases "revisions rss = []")
  case True
  then have "concat (map (rs_version E ns name) rss) = []" using rs_versions [of E ns name rss] by (metis map_is_Nil_conv)
  with assms(2) True show ?thesis by (auto simp: getDeploymentHistory_def version_history_def)
next
  case False
  let ?infos = "concat (map (rs_version E ns name) rss)"
  have "?infos \<noteq> []" using False rs_versions [of E ns name rss] by (metis map_is_Nil_conv)
  from version_history_ok [OF numbered_distinct [OF assms(3)] this]
  obtain infos newest where h: "version_history ?infos = Done infos" "mset ?infos = mset (infos @ [newest])" "sorted (map vi_Version infos)"
    "\<forall>v \<in> set infos. vi_Version v < vi_Version newest" by blast
  have hist: "getDeploymentHistory E ns name k = Done (Inr infos)" using assms(2) h(1) by (simp add: getDeploymentHistory_def)
  have obj: "dview k (ns, name) = Some obj" "ko_key obj = (ns, name)"
  proof -
    have g: "kGet (we_deploys E) ns name k = Inr obj" using assms(2)
      by (auto simp: getDeploymentAndReplicaSets_def getDeployment_def getWorkload_def split: sum.splits option.splits if_splits)
    have l: "kube_laws (we_deploys E) dview deploy_kept" using assms(1) by (simp add: deploy_server_def kube_live_def)
    show "dview k (ns, name) = Some obj" by (rule kube_laws.get_view [OF l, OF g])
    then show "ko_key obj = (ns, name)" by (rule kube_laws.view_key [OF l])
  qed
  have roll: "\<exists>obj'. dview k' (ns, name) = Some obj' \<and> rs_containers E (ob_Template (ko_body obj')) = vi_Containers v
      \<and> db_Replicas (ko_body obj') = db_Replicas (ko_body obj)"
    if v: "v \<in> set infos" and r: "deploy_rollback E ns name (Some \<lparr>rb_Version = vi_Version v, rb_Memo = memo\<rparr>) k = (k', Inr r)" for v memo k' r
  proof -
    have "v \<in> set ?infos" using v h(2) by (metis in_set_conv_decomp mset_eq_setD set_append UnI1)
    from find_version [OF assms(3) this] obtain rs where
      rs: "List.find (\<lambda>rs. map_of (om_Annotations (rs_Meta (ko_body rs))) RevisionAnnotation = Some (itoa (vi_Version v))) rss = Some rs"
      "rs_containers E (rs_Template (ko_body rs)) = vi_Containers v" by blast
    from r assms(2) rs(1) obj(2) obtain m where p: "we_patchDeploy E ns name (ReplaceTemplate (rollback_template (ko_body rs)) m) k = (k', None)"
      by (auto simp: deploy_rollback_def answer_def split: if_splits prod.splits option.splits)
    from deploy_server.patch_view [OF assms(1), OF p] obj(1) obtain obj' where "dview k' = (dview k)((ns, name) \<mapsto> obj')"
      "deploy_kept (ko_body obj') = (om_Options m, rollback_template (ko_body rs), db_Replicas (ko_body obj))"
      by (auto simp: deploy_kept_def)
    with rs(2) show ?thesis by (simp add: deploy_kept_def rollback_template_def)
  qed
  from False hist h roll show ?thesis by blast
qed


interpretation mem_deploys: deploy_server mem_work_env "\<lambda>k. mem_view (mw_deploys k)" "\<lambda>k. mem_view (mp_claims (mw_pods k))"
proof -
  have d: "kube_live (we_deploys mem_work_env) (\<lambda>k. mem_view (mw_deploys k)) deploy_kept"
    by (simp add: mem_work_env_def) (rule lift_api_live [OF mem_kube_kept], simp)
  have c: "pod_claims (we_P mem_work_env) (\<lambda>k. mem_view (mp_claims (mw_pods k))) claim_kept"
    by (simp add: mem_work_env_def mem_work_claims)
  have "deploy_server_axioms mem_work_env (\<lambda>k. mem_view (mw_deploys k)) (\<lambda>k. mem_view (mp_claims (mw_pods k)))"
  proof (unfold_locales, goal_cases)
    case (6 ns n p k k')
    then obtain obj where o: "map_of (mw_deploys k) (ns, n) = Some obj"
      "k' = k\<lparr>mw_deploys := ((ns, n), obj\<lparr>ko_body := patch_deploy p (ko_body obj)\<rparr>) # mw_deploys k\<rparr>"
      by (auto simp: mem_work_env_def mem_patch_def split: option.splits)
    moreover have "deploy_kept (patch_deploy p b) = patched p (deploy_kept b)" for b :: "nat deploy_body"
      by (cases p) (auto simp: patch_deploy_def deploy_kept_def split: sum.splits)
    ultimately show ?case by (simp add: mem_view_Cons) (simp add: mem_view_def, intro exI conjI, rule refl, simp)
  qed (simp_all add: mem_work_env_def mem_work_P_def lift_api_fst)
  with d c show "deploy_server mem_work_env (\<lambda>k. mem_view (mw_deploys k)) (\<lambda>k. mem_view (mp_claims (mw_pods k)))"
    by (simp add: deploy_server_def)
qed

text \<open>A deployment with two versions.\<close>

definition plain_template :: "string \<Rightarrow> nat pod_template" where
  "plain_template img =
     \<lparr>pm_Meta = \<lparr>tp_Labels = [(''app'', ''web''), (''pod-template-hash'', ''abc'')], tp_Annotations = []\<rparr>,
      pm_Spec = \<lparr>ps_Containers = [\<lparr>kc_Name = ''c'', kc_Image = img, kc_Command = [], kc_Args = [], kc_VolumeMounts = [], kc_Ports = [], kc_Env = [],
        kc_Requests = []\<rparr>], ps_Volumes = []\<rparr>\<rparr>"

definition sample_rs :: "string \<Rightarrow> string \<Rightarrow> nat rs_body" where
  "sample_rs version img =
     \<lparr>rs_Labels = [(''app'', ''web'')], rs_OwnerReferences = [\<lparr>or_Kind = ''Deployment'', or_Name = ''web'', or_UID = ''u1'', or_Controller = Some True\<rparr>],
      rs_Meta = \<lparr>om_Options = None, om_Annotations = [(RevisionAnnotation, version)]\<rparr>, rs_Template = plain_template img, rs_StatusReplicas = 0,
      rs_ReadyReplicas = 0\<rparr>"

definition sample_deploy :: "nat deploy_body" where
  "sample_deploy =
     \<lparr>ob_UID = ''u1'', ob_Meta = \<lparr>om_Options = None, om_Annotations = [(RevisionAnnotation, ''2'')]\<rparr>, ob_Selector = Some (LabelSelector [(''app'', ''web'')] []),
      ob_Template = plain_template ''nginx:2'', ob_Conditions = [], db_Replicas = 3, db_Paused = False, db_ObservedGeneration = 2,
      db_StatusReplicas = 3, db_ReadyReplicas = 3, db_UpdatedReplicas = 3, db_UnavailableReplicas = 0\<rparr>"

definition sample_rss :: "nat rs_body k8s_obj list" where
  "sample_rss = [new_obj ''default'' ''web-2'' (sample_rs ''2'' ''nginx:2''), new_obj ''default'' ''web-1'' (sample_rs ''1'' ''nginx:1'')]"

definition sample_work :: mem_work where
  "sample_work =
     \<lparr>mw_pods = taken_server, mw_deploys = [((''default'', ''web''), new_obj ''default'' ''web'' sample_deploy)], mw_stss = [], mw_dss = [], mw_jobs = [],
      mw_crons = [], mw_podobjs = [], mw_rss = map (\<lambda>rs. (ko_key rs, rs)) sample_rss, mw_revisions = []\<rparr>"

lemma sample_rss_numbered: "numbered sample_rss" "revisions sample_rss = [''2'', ''1'']"
proof -
  show r: "revisions sample_rss = [''2'', ''1'']" by (simp add: revisions_def sample_rss_def sample_rs_def new_obj_def)
  have "itoa 2 = ''2''" "itoa 1 = ''1''" by code_simp+
  then show "numbered sample_rss" unfolding numbered_def r by (auto intro: exI [of _ 2] exI [of _ 1])
qed

theorem deployment_history_rollback_witness:
  "\<exists>infos newest. getDeploymentHistory mem_work_env ''default'' ''web'' sample_work = Done (Inr infos)
    \<and> mset (concat (map (rs_version mem_work_env ''default'' ''web'') sample_rss)) = mset (infos @ [newest])
    \<and> sorted (map vi_Version infos)"
proof -
  have "getDeploymentAndReplicaSets mem_work_env ''default'' ''web'' sample_work = Inr (new_obj ''default'' ''web'' sample_deploy, sample_rss)"
    by code_simp
  from deployment_history_rollback [OF mem_deploys.deploy_server_axioms, OF this sample_rss_numbered(1)] sample_rss_numbered(2)
  show ?thesis by auto
qed


section \<open>Creating and showing a deployment\<close>

lemma scPVCs_Cons:
  assumes "scPVCsToK8sVolumesAndPVCs P k (t # pvs) = Done (Inr (ds, cs))"
  obtains (temp) q ds' where "pt_StorageClassName t = StorageClassNameTemp" "scPVCsToK8sVolumesAndPVCs P k pvs = Done (Inr (ds', cs))"
      "ds = \<lparr>kv_Name = pt_Name t, kv_Source = EmptyDirSource q\<rparr> # ds'"
    | (claim) mode q cs' where "pt_StorageClassName t \<noteq> StorageClassNameTemp" "scPVCsToK8sVolumesAndPVCs P k pvs = Done (Inr (ds, cs'))"
      "parseQuantity (pe_Q P) (pt_Size t) = Inr q"
      "cs = (pt_Name t, \<lparr>cl_AccessModes = [mode], cl_Storage = Some q, cl_StorageClassName = Some (pt_StorageClassName t), cl_VolumeName = '''',
         cl_Capacity = None, cl_Phase = '''', cl_Provisioner = None\<rparr>) # cs'"
proof (cases "pt_StorageClassName t = StorageClassNameTemp")
  case True
  with assms show ?thesis by (auto simp: Let_def split: sum.splits outcome.splits if_splits intro: temp)
next
  case False
  let ?size = "if pt_Size t = '''' then Inr None else map_sum (\<lambda>e. e) Some (parseQuantity (pe_Q P) (pt_Size t))"
  have ne: "pt_StorageClassName t \<noteq> ''''" using assms by (auto simp: Let_def)
  from assms ne obtain q0 where sz: "?size = Inr q0" by (cases ?size) (simp_all only: scPVCsToK8sVolumesAndPVCs.simps Let_def if_False sum.case, simp_all)
  have g: "(case kGet (pe_classes P) '''' (pt_StorageClassName t) k of Inl e \<Rightarrow> Done (Inl (''get storageClass '' @ pt_StorageClassName t @ '' failed: '' @ k8s_text e))
      | Inr obj \<Rightarrow> (case map_of (ko_body obj) ''accessMode'' of None \<Rightarrow> Panicked ''nil pointer dereference'' | Some mode \<Rightarrow>
         (case q0 of None \<Rightarrow> Done (Inl ''persistentClaimVolumes storage size must not be zero'')
          | Some q' \<Rightarrow> (case scPVCsToK8sVolumesAndPVCs P k pvs of Done (Inr r) \<Rightarrow> Done (Inr ((\<lambda>(ds, cs). (ds, (pt_Name t,
              \<lparr>cl_AccessModes = [mode], cl_Storage = Some q', cl_StorageClassName = Some (pt_StorageClassName t), cl_VolumeName = '''',
               cl_Capacity = None, cl_Phase = '''', cl_Provisioner = None\<rparr>) # cs)) r)) | r \<Rightarrow> r)))) = Done (Inr (ds, cs))"
    using assms False ne by (simp only: scPVCsToK8sVolumesAndPVCs.simps Let_def if_False sz sum.case)
  then obtain obj where o: "kGet (pe_classes P) '''' (pt_StorageClassName t) k = Inr obj" by (auto split: sum.splits)
  with g obtain mode where m: "map_of (ko_body obj) ''accessMode'' = Some mode" by (auto split: option.splits)
  with g o obtain q where q: "q0 = Some q" by (auto split: option.splits)
  with g o m obtain cs' where r: "scPVCsToK8sVolumesAndPVCs P k pvs = Done (Inr (ds, cs'))"
    "cs = (pt_Name t, \<lparr>cl_AccessModes = [mode], cl_Storage = Some q, cl_StorageClassName = Some (pt_StorageClassName t), cl_VolumeName = '''',
       cl_Capacity = None, cl_Phase = '''', cl_Provisioner = None\<rparr>) # cs'"
    by (auto split: outcome.splits sum.splits)
  have "parseQuantity (pe_Q P) (pt_Size t) = Inr q" using sz q by (auto simp: map_sum_Inr_iff split: if_splits)
  with r False show ?thesis by (intro claim)
qed

lemma scPVCs_shape:
  "scPVCsToK8sVolumesAndPVCs P k pvs = Done (Inr (ds, cs)) \<Longrightarrow>
    kv_Name ` set ds \<union> fst ` set cs \<subseteq> pt_Name ` set pvs \<and> (\<forall>d \<in> set ds. \<exists>q. kv_Source d = EmptyDirSource q)
    \<and> (\<forall>(n, c) \<in> set cs. \<exists>t \<in> set pvs. pt_Name t = n \<and> cl_StorageClassName c = Some (pt_StorageClassName t)
        \<and> (\<exists>q. parseQuantity (pe_Q P) (pt_Size t) = Inr q \<and> cl_Storage c = Some q))"
proof (induction pvs arbitrary: ds cs)
  case (Cons t pvs)
  from Cons.prems show ?case
  proof (cases rule: scPVCs_Cons)
    case (temp q ds')
    with Cons.IH [OF temp(2)] show ?thesis by (simp add: case_prod_unfold) blast
  next
    case (claim mode q cs')
    with Cons.IH [OF claim(2)] show ?thesis by (simp add: case_prod_unfold) blast
  qed
qed simp

definition claims_in :: "string set \<Rightarrow> 'q k8s_volume list \<Rightarrow> bool" where
  "claims_in names vols \<longleftrightarrow> (\<forall>v \<in> set vols. \<forall>n. kv_Source v = ClaimSource n \<longrightarrow> n \<in> names)"

lemma volume_of_claims:
  assumes "volume_of ed pvcs c i v = Inr (n, s, r)" "\<forall>d \<in> set ed. \<exists>q. kv_Source d = EmptyDirSource q" "s = ClaimSource m"
  shows "m \<in> fst ` set pvcs"
proof (cases "vo_Type v = VolumeTypePersistentVolume")
  case True
  show ?thesis
  proof (cases "List.find (\<lambda>d. kv_Name d = vo_Name v) ed")
    case None
    with True assms(1,3) have "list_ex (\<lambda>pvc. fst pvc = vo_Name v) pvcs" "m = vo_Name v" by (auto simp: volume_of_def Let_def split: if_splits)
    then show ?thesis by (force simp: list_ex_iff)
  next
    case (Some d)
    with True assms find_Some_in [OF Some] show ?thesis by (auto simp: volume_of_def Let_def)
  qed
next
  case False
  with assms(1,3) show ?thesis by (auto simp: volume_of_def Let_def split: if_splits)
qed

lemma sc_volumes_claims:
  assumes "\<forall>d \<in> set ed. \<exists>q. kv_Source d = EmptyDirSource q"
  shows "sc_volumes ed pvcs c i vs vols = Inr (vols', ms) \<Longrightarrow> claims_in (fst ` set pvcs) vols \<Longrightarrow> claims_in (fst ` set pvcs) vols'"
proof (induction vs arbitrary: i vols ms)
  case (Cons v vs)
  from Cons.prems(1) obtain n s r ms' where v: "volume_of ed pvcs c i v = Inr (n, s, r)"
    and rest: "sc_volumes ed pvcs c (Suc i) vs (add_volume v n s vols) = Inr (vols', ms')"
    by (auto simp: map_sum_Inr_iff split: sum.splits)
  have "claims_in (fst ` set pvcs) (add_volume v n s vols)" using Cons.prems(2) volume_of_claims [OF v assms]
    by (auto simp: claims_in_def add_volume_def)
  with Cons.IH [OF rest] show ?case by simp
qed simp

lemma sc_containers_claims:
  assumes "\<forall>d \<in> set ed. \<exists>q. kv_Source d = EmptyDirSource q"
  shows "sc_containers ed pvcs cs vols = Inr (vols', kcs) \<Longrightarrow> claims_in (fst ` set pvcs) vols \<Longrightarrow> claims_in (fst ` set pvcs) vols'"
proof (induction cs arbitrary: vols kcs)
  case (Cons c cs)
  from Cons.prems(1) obtain vols1 mounts kcs' where v: "sc_volumes ed pvcs (ct_Name c) 0 (ct_Volumes c) vols = Inr (vols1, mounts)"
    and rest: "sc_containers ed pvcs cs vols1 = Inr (vols', kcs')"
    by (auto simp: map_sum_Inr_iff split: sum.splits)
  from Cons.IH [OF rest sc_volumes_claims [OF assms v Cons.prems(2)]] show ?case .
qed simp

lemma shown_mounts_templates: "set (snd (shown_mounts Q vols ms ts)) \<subseteq> set ts \<union> shown_template Q ` set vols - {t. pt_Name t = ''''} \<union> set ts"
proof (induction ms arbitrary: ts)
  case (Cons m ms)
  show ?case
  proof (cases "List.find (\<lambda>v. kv_Name v = vm_Name m) vols")
    case None
    then show ?thesis using Cons.IH [of ts] by simp
  next
    case (Some v)
    have "set (add_template (shown_template Q v) ts) \<subseteq> set ts \<union> shown_template Q ` set vols - {t. pt_Name t = ''''} \<union> set ts"
      using find_Some_in [OF Some] by (auto simp: add_template_def)
    with Some Cons.IH [of "add_template (shown_template Q v) ts"] show ?thesis by (auto split: prod.splits) 
  qed
qed simp

lemma shown_templates:
  "set (snd (k8sPodSpecToScContainersAndVCTemplates Q kcs vols ts)) \<subseteq> set ts \<union> shown_template Q ` set vols - {t. pt_Name t = ''''} \<union> set ts"
proof (induction kcs arbitrary: ts)
  case (Cons kc kcs)
  obtain vs ts1 where m: "shown_mounts Q vols (kc_VolumeMounts kc) ts = (vs, ts1)" by force
  with shown_mounts_templates [of Q vols "kc_VolumeMounts kc" ts] Cons.IH [of ts1] show ?case by (auto split: prod.splits)
qed simp

text \<open>A shown template that is not temporary is a claim of the pod.\<close>

lemma shown_templates_claims:
  assumes "claims_in names vols" "t \<in> set (snd (k8sPodSpecToScContainersAndVCTemplates Q kcs vols []))" "pt_StorageClassName t \<noteq> StorageClassNameTemp"
  shows "pt_Name t \<in> names"
  using assms shown_templates [of Q kcs vols "[]"]
  by (fastforce simp: claims_in_def shown_template_def split: volume_source.splits)


context pod_claims
begin

lemma getPVCs_live:
  "(\<forall>t \<in> set ts. pt_StorageClassName t \<noteq> StorageClassNameTemp \<longrightarrow> view k (ns, pt_Name t) \<noteq> None) \<Longrightarrow>
    \<exists>pvs. getPVCs P ns ts k = Inr pvs \<and> (\<forall>p \<in> set pvs. \<exists>t \<in> set ts. \<exists>obj. pt_StorageClassName t \<noteq> StorageClassNameTemp \<and> view k (ns, pt_Name t) = Some obj
      \<and> pt_Name p = pt_Name t \<and> pt_StorageClassName p = (case cl_StorageClassName (ko_body obj) of None \<Rightarrow> '''' | Some n \<Rightarrow> n))"
proof (induction ts)
  case (Cons t ts)
  then obtain pvs where IH: "getPVCs P ns ts k = Inr pvs" "\<forall>p \<in> set pvs. \<exists>t \<in> set ts. \<exists>obj. pt_StorageClassName t \<noteq> StorageClassNameTemp \<and> view k (ns, pt_Name t) = Some obj
      \<and> pt_Name p = pt_Name t \<and> pt_StorageClassName p = (case cl_StorageClassName (ko_body obj) of None \<Rightarrow> '''' | Some n \<Rightarrow> n)" by auto
  show ?case
  proof (cases "pt_StorageClassName t = StorageClassNameTemp")
    case True
    with IH show ?thesis by (simp add: Bex_def) blast
  next
    case False
    with Cons.prems obtain obj where o: "view k (ns, pt_Name t) = Some obj" by auto
    let ?p = "\<lparr>pt_Name = ko_name obj, pt_Size = sh_RequestStorageSize (k8sPVCToSCPVC (pe_Q P) obj),
      pt_StorageClassName = (case cl_StorageClassName (ko_body obj) of None \<Rightarrow> '''' | Some n \<Rightarrow> n)\<rparr>"
    have "getPVCs P ns (t # ts) k = Inr (?p # pvs)" using False IH(1) get_live [OF o] by (simp add: Let_def k8sPVCToSCPVC_def)
    moreover have "ko_name obj = pt_Name t" using view_key [OF o] by simp
    ultimately show ?thesis using False IH(2) o by (intro exI [of _ "?p # pvs"]) auto
  qed
qed simp

end

text \<open>What a deployment must look like to be shown as it was submitted.\<close>

definition plain_workload :: "workload \<Rightarrow> bool" where
  "plain_workload w \<longleftrightarrow>
     distinct (map ct_Name (wl_Containers w)) \<and> (\<forall>c \<in> set (wl_Containers w). plain_ports (ct_ExposedPorts c))
     \<and> (\<forall>c \<in> set (wl_Containers w). \<forall>i. gen_name (ct_Name c) i \<notin> pt_Name ` set (wl_PersistentVolumes w))"

lemma plain_workload_volumes:
  assumes "plain_workload w" "scPVCsToK8sVolumesAndPVCs P k (wl_PersistentVolumes w) = Done (Inr (ds, cs))"
  shows "plain_volumes ds cs (wl_Containers w)"
proof -
  note sh = scPVCs_shape [OF assms(2)]
  have "pv_source ds cs n = None" if "n \<notin> pt_Name ` set (wl_PersistentVolumes w)" for n
  proof -
    have "n \<notin> kv_Name ` set ds" "n \<notin> fst ` set cs" using sh that by blast+
    then have "List.find (\<lambda>d. kv_Name d = n) ds = None" "\<not> list_ex (\<lambda>pvc. fst pvc = n) cs" by (auto simp: find_None_iff list_ex_iff image_iff)
    then show ?thesis by (simp add: pv_source_def)
  qed
  with assms(1) sh show ?thesis by (auto simp: plain_volumes_def plain_workload_def)
qed

lemma workload_containers_shown:
  assumes "plain_workload w" "scPVCsToK8sVolumesAndPVCs P k (wl_PersistentVolumes w) = Done (Inr (ds, pvcs))"
    and "scContainersAndPVToK8sPodSpec (wl_Containers w) ds pvcs = Inr spec"
  shows "fst (k8sPodSpecToScContainersAndVCTemplates Q (ps_Containers spec) (ps_Volumes spec) []) = wl_Containers w"
proof -
  from assms(3) obtain vols kcs where r: "sc_containers ds pvcs (wl_Containers w) [] = Inr (vols, kcs)" "spec = \<lparr>ps_Containers = kcs, ps_Volumes = vols\<rparr>"
    by (auto simp: scContainersAndPVToK8sPodSpec_def map_sum_Inr_iff)
  have i: "vols_inv ds pvcs {} []" by (simp add: vols_inv_def)
  have pv: "plain_volumes ds pvcs (wl_Containers w)" by (rule plain_workload_volumes [OF assms(1,2)])
  then have "unclaimed ds pvcs ({} \<union> (ct_Name ` set (wl_Containers w)) \<times> UNIV)" by (auto simp: plain_volumes_def unclaimed_def)
  from sc_containers_ok [OF r(1) i this] assms(1) pv r(2) show ?thesis by (auto simp: plain_volumes_def plain_workload_def vols_inv_def)
qed

lemma createPodTempateSpec_made:
  assumes "createPodTempateSpec P False ns name opts containers pvs k = Done (k', Inr (t, pvcs))"
  shows "\<exists>ds. scPVCsToK8sVolumesAndPVCs P k pvs = Done (Inr (ds, pvcs)) \<and> scContainersAndPVToK8sPodSpec containers ds pvcs = Inr (pm_Spec t)
    \<and> createPodTempateObjectMeta P name ns k opts containers = Inr (pm_Meta t) \<and> createPVCs P ns pvcs k = (k', None)"
proof -
  from assms obtain spec where s: "scPodSpecToK8sPodSpecAndPVCs P k containers pvs = Done (Inr (spec, pvcs))"
    by (auto simp: createPodTempateSpec_def Let_def split: outcome.splits sum.splits prod.splits option.splits)
  with assms obtain meta where m: "createPodTempateObjectMeta P name ns k opts containers = Inr meta" "t = \<lparr>pm_Meta = meta, pm_Spec = spec\<rparr>"
    "createPVCs P ns pvcs k = (k', None)"
    by (auto simp: createPodTempateSpec_def Let_def split: sum.splits prod.splits option.splits)
  from s obtain ds where "scPVCsToK8sVolumesAndPVCs P k pvs = Done (Inr (ds, pvcs))" "scContainersAndPVToK8sPodSpec containers ds pvcs = Inr spec"
    by (auto simp: scPodSpecToK8sPodSpecAndPVCs_def map_sum_Inr_iff split: outcome.splits sum.splits)
  with m show ?thesis by auto
qed

lemma exposed_metric_shown:
  assumes "createPodTempateObjectMeta P name ns k opts containers = Inr meta"
    and "xm_Port (ao_ExposedMetric opts) \<noteq> 0" "xm_Path (ao_ExposedMetric opts) \<noteq> ''''"
    and "- (2 ^ 63) \<le> xm_Port (ao_ExposedMetric opts)" "xm_Port (ao_ExposedMetric opts) < 2 ^ 63"
  shows "k8sAnnotationsToScExposedMetric (tp_Annotations meta) = ao_ExposedMetric opts"
proof -
  have "\<exists>rest. tp_Annotations meta = [(''prometheus.io/scrape'', ''true''), (''prometheus.io/port'', itoa (xm_Port (ao_ExposedMetric opts))),
      (''prometheus.io/path'', xm_Path (ao_ExposedMetric opts))] @ rest"
    using assms(1-3) by (auto simp: createPodTempateObjectMeta_def Let_def split: if_splits sum.splits)
  then show ?thesis using atoi_value_itoa [OF assms(4,5)] by (auto simp: k8sAnnotationsToScExposedMetric_def)
qed


text \<open>The controller of the server has seen the deployment: its status is set, what was sent is as before.\<close>

definition observed ::
  "('k \<Rightarrow> string \<times> string \<rightharpoonup> 'q deploy_body k8s_obj) \<Rightarrow> ('k \<Rightarrow> string \<times> string \<rightharpoonup> 'q claim k8s_obj) \<Rightarrow> string \<times> string \<Rightarrow> 'k \<Rightarrow> 'k \<Rightarrow> bool" where
  "observed dview cview key k1 k2 \<longleftrightarrow>
     cview k2 = cview k1 \<and> (\<exists>obj1 obj2. dview k1 key = Some obj1 \<and> dview k2 key = Some obj2 \<and> deploy_kept (ko_body obj2) = deploy_kept (ko_body obj1)
       \<and> \<not> deployIsUpdating (ko_body obj2))"

lemma createDeployment_stored:
  assumes "deploy_server E dview cview" "createDeployment E ns w k = Done (k', None)"
  shows "\<exists>ds pvcs t obj. scPVCsToK8sVolumesAndPVCs (we_P E) k (wl_PersistentVolumes w) = Done (Inr (ds, pvcs))
    \<and> scContainersAndPVToK8sPodSpec (wl_Containers w) ds pvcs = Inr (pm_Spec t)
    \<and> createPodTempateObjectMeta (we_P E) (wl_Name w) ns k (wl_AdvancedOptions w) (wl_Containers w) = Inr (pm_Meta t)
    \<and> dview k' (ns, wl_Name w) = Some obj \<and> deploy_kept (ko_body obj) = (Some (json_marshal (wl_AdvancedOptions w)), t, int32 (wl_Replicas w))
    \<and> (\<forall>(n, c) \<in> set pvcs. \<exists>cl. cview k' (ns, n) = Some cl \<and> claim_kept (ko_body cl) = claim_kept c)"
proof -
  from assms(2) obtain k1 t pvcs where t: "createPodTempateSpec (we_P E) False ns (wl_Name w) (wl_AdvancedOptions w) (wl_Containers w) (wl_PersistentVolumes w) k = Done (k1, Inr (t, pvcs))"
    and c: "kCreate (we_deploys E) (new_obj ns (wl_Name w) (new_deploy w t)) k1 = (k', None)"
    by (auto simp: createDeployment_def split: outcome.splits sum.splits prod.splits option.splits)
  obtain ds where m: "scPVCsToK8sVolumesAndPVCs (we_P E) k (wl_PersistentVolumes w) = Done (Inr (ds, pvcs))"
    "scContainersAndPVToK8sPodSpec (wl_Containers w) ds pvcs = Inr (pm_Spec t)"
    "createPodTempateObjectMeta (we_P E) (wl_Name w) ns k (wl_AdvancedOptions w) (wl_Containers w) = Inr (pm_Meta t)"
    and p: "createPVCs (we_P E) ns pvcs k = (k1, None)" using createPodTempateSpec_made [OF t] by (elim exE conjE) (rule that)
  have laws: "kube_laws (we_deploys E) dview deploy_kept" "pod_claims (we_P E) cview claim_kept"
    using assms(1) by (simp_all add: deploy_server_def kube_live_def)
  from kube_laws.create_view [OF laws(1), OF c] obtain obj where obj: "dview k' (ns, wl_Name w) = Some obj"
    "deploy_kept (ko_body obj) = deploy_kept (new_deploy w t)" by (auto simp: new_obj_def)
  have cl: "create_claims (we_P E) ns pvcs k = (k1, None)" using p by (auto simp: createPVCs_def split: prod.splits option.splits)
  have "cview k' = cview k1" using deploy_server.deploys_apart(1) [OF assms(1)] c by (metis fst_conv)
  with pod_claims.create_claims_ok [OF laws(2), OF cl] have "\<forall>(n, c) \<in> set pvcs. \<exists>cl. cview k' (ns, n) = Some cl \<and> claim_kept (ko_body cl) = claim_kept c"
    by auto
  with m obj show ?thesis by (auto simp: deploy_kept_def new_deploy_def generatePodOwnerObjectMeta_def)
qed

lemma deployment_shown:
  assumes "deploy_server E dview cview" "plain_workload w"
    and m: "scPVCsToK8sVolumesAndPVCs (we_P E) k (wl_PersistentVolumes w) = Done (Inr (ds, pvcs))"
      "scContainersAndPVToK8sPodSpec (wl_Containers w) ds pvcs = Inr (pm_Spec t)"
      "createPodTempateObjectMeta (we_P E) (wl_Name w) ns k (wl_AdvancedOptions w) (wl_Containers w) = Inr (pm_Meta t)"
    and obj: "ko_key obj = (ns, wl_Name w)" "deploy_kept (ko_body obj) = (Some (json_marshal (wl_AdvancedOptions w)), t, n)" "\<not> deployIsUpdating (ko_body obj)"
    and cl: "\<forall>(n, c) \<in> set pvcs. \<exists>cl. cview k2 (ns, n) = Some cl \<and> claim_kept (ko_body cl) = claim_kept c"
  shows "\<exists>d'. k8sDeployToSCDeploy E k2 obj = Inr d' \<and> wl_Name d' = wl_Name w \<and> wl_Containers d' = wl_Containers w \<and> wl_Replicas d' = n
    \<and> wl_AdvancedOptions d' = (wl_AdvancedOptions w)\<lparr>ao_ExposedMetric := k8sAnnotationsToScExposedMetric (tp_Annotations (pm_Meta t))\<rparr>
    \<and> (\<forall>p \<in> set (wl_PersistentVolumes d'). \<exists>q \<in> set (wl_PersistentVolumes w). pt_Name p = pt_Name q \<and> pt_StorageClassName p = pt_StorageClassName q)"
proof -
  let ?Q = "pe_Q (we_P E)" and ?kcs = "ps_Containers (pm_Spec t)" and ?vols = "ps_Volumes (pm_Spec t)"
  have b: "ob_Template (ko_body obj) = t" "om_Options (ob_Meta (ko_body obj)) = Some (json_marshal (wl_AdvancedOptions w))" "db_Replicas (ko_body obj) = n"
    using obj(2) by (simp_all add: deploy_kept_def)
  have shown: "fst (k8sPodSpecToScContainersAndVCTemplates ?Q ?kcs ?vols []) = wl_Containers w" by (rule workload_containers_shown [OF assms(2) m(1,2)])
  have sh: "\<forall>d \<in> set ds. \<exists>q. kv_Source d = EmptyDirSource q" using scPVCs_shape [OF m(1)] by blast
  have vols: "claims_in (fst ` set pvcs) ?vols"
    using m(2) sc_containers_claims [OF sh, of pvcs "wl_Containers w" "[]"] by (auto simp: scContainersAndPVToK8sPodSpec_def map_sum_Inr_iff claims_in_def)
  let ?ts = "snd (k8sPodSpecToScContainersAndVCTemplates ?Q ?kcs ?vols [])"
  have c: "pod_claims (we_P E) cview claim_kept" using assms(1) by (simp add: deploy_server_def)
  have there: "\<forall>t \<in> set ?ts. pt_StorageClassName t \<noteq> StorageClassNameTemp \<longrightarrow> pt_Name t \<in> fst ` set pvcs" using shown_templates_claims [OF vols] by blast
  with cl have "\<forall>t \<in> set ?ts. pt_StorageClassName t \<noteq> StorageClassNameTemp \<longrightarrow> cview k2 (ns, pt_Name t) \<noteq> None" by force
  from pod_claims.getPVCs_live [OF c this] obtain pvs where g: "getPVCs (we_P E) ns ?ts k2 = Inr pvs"
    and pvs: "\<forall>p \<in> set pvs. \<exists>t \<in> set ?ts. \<exists>obj. pt_StorageClassName t \<noteq> StorageClassNameTemp \<and> cview k2 (ns, pt_Name t) = Some obj
      \<and> pt_Name p = pt_Name t \<and> pt_StorageClassName p = (case cl_StorageClassName (ko_body obj) of None \<Rightarrow> '''' | Some n \<Rightarrow> n)" by blast
  have names: "\<forall>p \<in> set pvs. \<exists>q \<in> set (wl_PersistentVolumes w). pt_Name p = pt_Name q \<and> pt_StorageClassName p = pt_StorageClassName q"
  proof
    fix p
    assume "p \<in> set pvs"
    with pvs obtain t0 o1 where t0: "t0 \<in> set ?ts" "pt_StorageClassName t0 \<noteq> StorageClassNameTemp" "cview k2 (ns, pt_Name t0) = Some o1" "pt_Name p = pt_Name t0"
      "pt_StorageClassName p = (case cl_StorageClassName (ko_body o1) of None \<Rightarrow> '''' | Some n \<Rightarrow> n)" by blast
    with there obtain c0 where c0: "(pt_Name t0, c0) \<in> set pvcs" by fastforce
    with scPVCs_shape [OF m(1)] obtain q where "q \<in> set (wl_PersistentVolumes w)" "pt_Name q = pt_Name t0" "cl_StorageClassName c0 = Some (pt_StorageClassName q)" by blast
    moreover have "claim_kept (ko_body o1) = claim_kept c0" using cl c0 t0(3) by fastforce
    ultimately show "\<exists>q \<in> set (wl_PersistentVolumes w). pt_Name p = pt_Name q \<and> pt_StorageClassName p = pt_StorageClassName q"
      using t0 by (intro bexI [of _ q]) (auto simp: claim_kept_def)
  qed
  have "shown_options (ko_body obj) = (wl_AdvancedOptions w)\<lparr>ao_ExposedMetric := k8sAnnotationsToScExposedMetric (tp_Annotations (pm_Meta t))\<rparr>"
    by (simp add: shown_options_def b json_marshal_def)
  with shown g names b obj show ?thesis by (simp add: k8sDeployToSCDeploy_def Let_def)
qed



definition see_deploys :: "mem_work \<Rightarrow> mem_work" where
  "see_deploys k = k\<lparr>mw_deploys := map (\<lambda>(key, obj). (key, obj\<lparr>ko_body := (ko_body obj)\<lparr>db_ObservedGeneration := 1\<rparr>\<rparr>)) (mw_deploys k)\<rparr>"

lemma see_deploys_observed:
  assumes "mem_view (mw_deploys k) key = Some obj"
  shows "observed (\<lambda>k. mem_view (mw_deploys k)) (\<lambda>k. mem_view (mp_claims (mw_pods k))) key k (see_deploys k)"
proof -
  obtain o1 where o1: "map_of (mw_deploys k) key = Some o1" "obj = at_key key o1" using assms by (auto simp: mem_view_def)
  from o1(1) have "mem_view (mw_deploys (see_deploys k)) key = Some (at_key key (o1\<lparr>ko_body := (ko_body o1)\<lparr>db_ObservedGeneration := 1\<rparr>\<rparr>))"
    by (simp add: see_deploys_def mem_view_def map_of_map)
  with assms o1 show ?thesis by (simp add: observed_def see_deploys_def deploy_kept_def deployIsUpdating_def)
qed

definition sample_workload :: workload where
  "sample_workload =
     \<lparr>wl_ID = '''', wl_CreationTimestamp = 0, wl_DeletionTimestamp = None, wl_Name = ''db'', wl_Replicas = 2,
      wl_Containers = [\<lparr>ct_Name = ''c'', ct_Image = ''i'', ct_Command = [], ct_Args = [], ct_ExposedPorts = [], ct_Env = [],
        ct_Volumes = [\<lparr>vo_Type = ''persistentVolume'', vo_Name = ''store'', vo_MountPath = ''/d''\<rparr>]\<rparr>],
      wl_AdvancedOptions = no_options\<lparr>ao_DeletePVsWhenDeleteWorkload := True\<rparr>,
      wl_PersistentVolumes = [\<lparr>pt_Name = ''store'', pt_Size = ''5'', pt_StorageClassName = ''lvm''\<rparr>], wl_Status = no_status, wl_Memo = ''''\<rparr>"

definition lvm_work :: mem_work where
  "lvm_work = sample_work\<lparr>mw_pods := taken_server\<lparr>mp_classes := [(('''', ''lvm''), new_obj '''' ''lvm'' [(''accessMode'', ''ReadWriteOnce'')])]\<rparr>\<rparr>"

abbreviation sample_ctx :: "workload sub_ctx" where
  "sample_ctx \<equiv> \<lparr>sx_cluster = ''local'', sx_namespace = ''default'', sx_resource = sample_workload\<rparr>"

lemma sample_deployment_created: "\<exists>k1. createDeployment mem_work_env ''default'' sample_workload lvm_work = Done (k1, None)"
proof -
  have "case createDeployment mem_work_env ''default'' sample_workload lvm_work of Done (k1, r) \<Rightarrow> r = None | Panicked p \<Rightarrow> False" by code_simp
  then show ?thesis by (auto split: outcome.splits)
qed


text \<open>
  As long as one deployment of a namespace has pods that are not all ready and no revision yet, none of
  the deployments of the namespace is listed: the listing fails with a server error, and so does a
  request for that deployment.
\<close>

theorem deployment_unseen_hides_all:
  assumes "deploy_server E dview cview" "dview k (ns, n) = Some obj" "deployIsUpdating (ko_body obj)"
    and "map_of (om_Annotations (ob_Meta (ko_body obj))) RevisionAnnotation = None"
    and "ks (sx_cluster ctx) = Some k" "sx_namespace ctx = ns"
  shows "(\<exists>e. deploy_List E ctx ks = Inl e) \<and> (wl_ID (sx_resource ctx) = n \<longrightarrow> (\<exists>e. deploy_Get E ctx ks = Inl e))"
proof -
  have shown: "\<exists>e. k8sDeployToSCDeploy E k obj = Inl e" using assms(3,4)
    by (auto simp: k8sDeployToSCDeploy_def getDeploymentUpdateStatus_def Let_def split: sum.splits)
  have all: "obj \<in> set objs \<Longrightarrow> \<exists>e. show_all (k8sDeployToSCDeploy E k) objs = Inl e" for objs
    using shown by (induction objs) (auto split: sum.splits)
  have laws: "kube_live (we_deploys E) dview deploy_kept" using assms(1) by (simp add: deploy_server_def)
  obtain objs where l: "kList (we_deploys E) ns k = Inr objs" using kube_live.list_live [OF laws] by blast
  have "obj \<in> set objs" using kube_laws.list_view [OF kube_live.axioms(1) [OF laws], OF l] assms(2) by auto
  moreover have "kGet (we_deploys E) ns n k = Inr obj" by (rule kube_live.get_live [OF laws, OF assms(2)])
  ultimately show ?thesis using all l shown assms(5,6)
    by (auto simp: deploy_List_def deploy_Get_def read_cluster_def getDeployment_def getWorkload_def)
qed


theorem deployment_unseen_hides_all_witness:
  "\<exists>k1 e. createDeployment mem_work_env ''default'' sample_workload lvm_work = Done (k1, None) \<and> deploy_List mem_work_env sample_ctx [''local'' \<mapsto> k1] = Inl e"
proof -
  have "case createDeployment mem_work_env ''default'' sample_workload lvm_work of
      Done (k1, r) \<Rightarrow> r = None \<and> (case mem_view (mw_deploys k1) (''default'', ''db'') of None \<Rightarrow> False
        | Some obj \<Rightarrow> deployIsUpdating (ko_body obj) \<and> map_of (om_Annotations (ob_Meta (ko_body obj))) RevisionAnnotation = None)
    | Panicked p \<Rightarrow> False" by code_simp
  then obtain k1 obj where k: "createDeployment mem_work_env ''default'' sample_workload lvm_work = Done (k1, None)"
    and o: "mem_view (mw_deploys k1) (''default'', ''db'') = Some obj" "deployIsUpdating (ko_body obj)"
      "map_of (om_Annotations (ob_Meta (ko_body obj))) RevisionAnnotation = None"
    by (auto split: outcome.splits option.splits)
  from deployment_unseen_hides_all [OF mem_deploys.deploy_server_axioms, OF o, of "[''local'' \<mapsto> k1]" sample_ctx] k show ?thesis by auto
qed

section \<open>Deleting a deployment\<close>

definition claims_of :: "string \<Rightarrow> 'q k8s_volume list \<Rightarrow> (string \<times> string) set" where
  "claims_of ns vols = {(ns, n) | n. ClaimSource n \<in> kv_Source ` set vols}"

lemma claims_of_Cons: "claims_of ns (v # vols) = (case kv_Source v of ClaimSource n \<Rightarrow> insert (ns, n) (claims_of ns vols) | _ \<Rightarrow> claims_of ns vols)"
  by (auto simp: claims_of_def split: volume_source.splits)

context pod_claims
begin

lemma deleteWorkLoadPVCs_view:
  "(\<forall>key \<in> claims_of ns vols. going (view (deleteWorkLoadPVCs P ns vols k)) key) \<and> (\<forall>key. going (view k) key \<longrightarrow> going (view (deleteWorkLoadPVCs P ns vols k)) key)
    \<and> (\<forall>key. key \<notin> claims_of ns vols \<longrightarrow> view (deleteWorkLoadPVCs P ns vols k) key = view k key)"
proof (induction vols arbitrary: k)
  case Nil
  then show ?case by (simp add: deleteWorkLoadPVCs_def claims_of_def)
next
  case (Cons v vols)
  show ?case
  proof (cases "\<exists>n. kv_Source v = ClaimSource n")
    case True
    then obtain n where n: "kv_Source v = ClaimSource n" by blast
    let ?k = "deletePVC P ns n k"
    have d: "going (view ?k) (ns, n)" "\<And>key. key \<noteq> (ns, n) \<Longrightarrow> view ?k key = view k key" using deletePVC_view [of ns n k] by blast+
    have g: "going (view k) key \<Longrightarrow> going (view ?k) key" for key using d by (cases "key = (ns, n)") (auto simp: going_def)
    have e: "deleteWorkLoadPVCs P ns (v # vols) k = deleteWorkLoadPVCs P ns vols ?k" using n by (simp add: deleteWorkLoadPVCs_def)
    show ?thesis unfolding e claims_of_Cons n using Cons.IH [of ?k] d g by auto
  next
    case False
    then have e: "deleteWorkLoadPVCs P ns (v # vols) k = deleteWorkLoadPVCs P ns vols k" "claims_of ns (v # vols) = claims_of ns vols"
      by (auto simp: deleteWorkLoadPVCs_def claims_of_Cons split: volume_source.splits)
    show ?thesis unfolding e by (rule Cons.IH)
  qed
qed

end

lemma deleteWorkLoadPVCs_apart:
  assumes "deploy_server E dview cview"
  shows "dview (deleteWorkLoadPVCs (we_P E) ns vols k) = dview k"
proof (induction vols arbitrary: k)
  case (Cons v vols)
  have "dview (deletePVC (we_P E) ns n k) = dview k" for n k
    using deploy_server.claims_apart [OF assms] by (auto simp: deletePVC_def Let_def split: sum.splits)
  then show ?case using Cons.IH by (auto simp: deleteWorkLoadPVCs_def split: volume_source.splits)
qed (simp add: deleteWorkLoadPVCs_def)

text \<open>
  Deleting a deployment deletes its claims only when it was created with that option, and then exactly
  those its pods mount; other claims and other deployments stay as they are. A deletion that fails
  changes nothing.
\<close>

theorem deployment_delete_claims:
  assumes "deploy_server E dview cview" "deploy_Delete E ctx ks = Done (ks', r)" "ks (sx_cluster ctx) = Some k" "ks' (sx_cluster ctx) = Some k'"
  shows "case r of
      Inl e \<Rightarrow> dview k' = dview k \<and> cview k' = cview k
    | Inr _ \<Rightarrow> (\<exists>obj. let mine = claims_of (sx_namespace ctx) (ps_Volumes (pm_Spec (ob_Template (ko_body obj))));
          key = (sx_namespace ctx, wl_ID (sx_resource ctx))
        in dview k key = Some obj \<and> going (dview k') key \<and> (\<forall>x. x \<noteq> key \<longrightarrow> dview k' x = dview k x)
          \<and> (if map_of (om_Annotations (ob_Meta (ko_body obj))) AnnkeyForDeletePVsWhenDeleteWorkload = Some ''true''
             then (\<forall>x \<in> mine. going (cview k') x) \<and> (\<forall>x. x \<notin> mine \<longrightarrow> cview k' x = cview k x)
             else cview k' = cview k))"
proof -
  let ?ns = "sx_namespace ctx" and ?n = "wl_ID (sx_resource ctx)"
  have l: "kube_laws (we_deploys E) dview deploy_kept" and pc: "pod_claims (we_P E) cview claim_kept"
    using assms(1) by (simp_all add: deploy_server_def kube_live_def)
  show ?thesis
  proof (cases "getDeployment E ?ns ?n k")
    case (Inl e)
    with assms(2-4) show ?thesis by (auto simp: deploy_Delete_def on_cluster_o_def Let_def)
  next
    case (Inr obj)
    then have "kGet (we_deploys E) ?ns ?n k = Inr obj" by (auto simp: getDeployment_def getWorkload_def split: sum.splits)
    then have obj: "dview k (?ns, ?n) = Some obj" by (rule kube_laws.get_view [OF l])
    obtain k1 e where d: "kDelete (we_deploys E) ?ns ?n k = (k1, e)" by force
    have c1: "cview k1 = cview k" using deploy_server.deploys_apart(2) [OF assms(1), of ?ns ?n k] d by simp
    show ?thesis
    proof (cases e)
      case (Some msg)
      with Inr d assms(2-4) kube_laws.delete_err [OF l, of ?ns ?n k k1 msg] c1 show ?thesis
        by (auto simp: deploy_Delete_def on_cluster_o_def Let_def)
    next
      case None
      let ?vols = "ps_Volumes (pm_Spec (ob_Template (ko_body obj)))"
      have g: "going (dview k1) (?ns, ?n) \<and> (\<forall>x. x \<noteq> (?ns, ?n) \<longrightarrow> dview k1 x = dview k x)"
        using kube_laws.delete_view [OF l, of ?ns ?n k k1] d None by (auto simp: going_def)
      have "k' = (if map_of (om_Annotations (ob_Meta (ko_body obj))) AnnkeyForDeletePVsWhenDeleteWorkload = Some ''true''
            then deleteWorkLoadPVCs (we_P E) ?ns ?vols k1 else k1)" "r = Inr ()"
        using Inr d None assms(2-4) by (auto simp: deploy_Delete_def on_cluster_o_def Let_def)
      with obj g c1 pod_claims.deleteWorkLoadPVCs_view [OF pc, of ?ns ?vols k1] deleteWorkLoadPVCs_apart [OF assms(1), of ?ns ?vols k1]
      show ?thesis by (auto simp: Let_def intro!: exI [of _ obj])
    qed
  qed
qed


theorem deployment_delete_claims_witness:
  "\<exists>k1 ks' k'. createDeployment mem_work_env ''default'' sample_workload lvm_work = Done (k1, None)
    \<and> deploy_Delete mem_work_env (sample_ctx\<lparr>sx_resource := sample_workload\<lparr>wl_ID := ''db''\<rparr>\<rparr>) [''local'' \<mapsto> k1] = Done (ks', Inr ())
    \<and> ks' ''local'' = Some k' \<and> going (mem_view (mw_deploys k')) (''default'', ''db'')"
proof -
  let ?ctx = "sample_ctx\<lparr>sx_resource := sample_workload\<lparr>wl_ID := ''db''\<rparr>\<rparr>"
  have "case createDeployment mem_work_env ''default'' sample_workload lvm_work of
      Panicked p \<Rightarrow> False
    | Done (k1, r) \<Rightarrow> r = None \<and> (case deploy_Delete mem_work_env ?ctx [''local'' \<mapsto> k1] of Panicked p \<Rightarrow> False | Done (ks', r) \<Rightarrow> r = Inr () \<and> \<not> Option.is_none (ks' ''local''))"
    by code_simp
  then obtain k1 ks' k' where c: "createDeployment mem_work_env ''default'' sample_workload lvm_work = Done (k1, None)"
    and d: "deploy_Delete mem_work_env ?ctx [''local'' \<mapsto> k1] = Done (ks', Inr ())" and k': "ks' ''local'' = Some k'"
    by (auto simp: Option.is_none_def split: outcome.splits)
  from deployment_delete_claims [OF mem_deploys.deploy_server_axioms, OF d, of k1 k'] k' have "going (mem_view (mw_deploys k')) (''default'', ''db'')"
    by (auto simp: Let_def)
  with c d k' show ?thesis by blast
qed

end
