(* ===== verification/StatefulSet.thy ===== *)
theory StatefulSet
  imports Deployment
begin

text \<open>
  Stateful sets and daemon sets (\<^verbatim>\<open>pkg/handler/statefulset_manager.go\<close>, \<^verbatim>\<open>daemonset_manager.go\<close>): the
  handlers, the progress of an update, and their versions, which the server keeps as controller
  revisions.
\<close>

section \<open>Versions kept as revisions\<close>

text \<open>The loop over the revisions; one that cannot be decoded ends the request.\<close>

fun revision_infos :: "('k, 'q) work_env \<Rightarrow> string \<Rightarrow> string \<Rightarrow> 'q revision_body k8s_obj list \<Rightarrow> api_error + version_info list" where
  "revision_infos E ns name [] = Inr []"
| "revision_infos E ns name (cr # crs) =
     (case (case cr_Data (ko_body cr) of None \<Rightarrow> Inl ''unexpected end of JSON input'' | Some j \<Rightarrow> json_unmarshal j) of
        Inl e \<Rightarrow> Inl (APIError InvalidFormat (''unmarshal controllerrevision data failed: '' @ e))
      | Inr t \<Rightarrow>
          map_sum (\<lambda>e. e) ((#)
            \<lparr>vi_Name = name, vi_Namespace = ns, vi_Version = cr_Revision (ko_body cr),
             vi_ChangeReason = (case map_of (cr_Annotations (ko_body cr)) ChangeCauseAnnotation of None \<Rightarrow> '''' | Some m \<Rightarrow> m),
             vi_Containers = rs_containers E t\<rparr>) (revision_infos E ns name crs))"

definition with_revisions ::
  "('k, 'q) work_env \<Rightarrow> ('k, ('q, 'z) owner_body_scheme) kube_api \<Rightarrow> string \<Rightarrow> string \<Rightarrow> string \<Rightarrow> string \<Rightarrow> 'k \<Rightarrow>
   api_error + ('q, 'z) owner_body_scheme k8s_obj \<times> 'q revision_body k8s_obj list" where
  "with_revisions E K what kind ns name k =
     (case getWorkload K what ns name k of
        Inl e \<Rightarrow> Inl e
      | Inr obj \<Rightarrow>
          (case ob_Selector (ko_body obj) of
             None \<Rightarrow> Inl (APIError ServerError (kind @ '' '' @ name @ '' has no selector''))
           | Some selector \<Rightarrow>
               (case getControllerRevisions E ns selector (ob_UID (ko_body obj)) k of
                  Inl e \<Rightarrow> Inl (if IsNotFound e then APIError NotFound (''no found '' @ kind @ '' '' @ name @ '' controllerRevisions'')
                               else APIError ServerError (''get '' @ kind @ '' '' @ name @ '' controllerRevisions failed: '' @ k8s_text e))
                | Inr crs \<Rightarrow> Inr (obj, crs))))"

definition revision_history ::
  "('k, 'q) work_env \<Rightarrow> ('k, ('q, 'z) owner_body_scheme) kube_api \<Rightarrow> string \<Rightarrow> string \<Rightarrow> string \<Rightarrow> string \<Rightarrow> 'k \<Rightarrow> (api_error + version_info list) outcome" where
  "revision_history E K what kind ns name k =
     (case with_revisions E K what kind ns name k of
        Inl e \<Rightarrow> Done (Inl e)
      | Inr (obj, crs) \<Rightarrow>
          (case revision_infos E ns name crs of
             Inl e \<Rightarrow> Done (Inl e)
           | Inr infos \<Rightarrow> (case version_history infos of Panicked p \<Rightarrow> Panicked p | Done shown \<Rightarrow> Done (Inr shown))))"

definition revision_rollback ::
  "('k, 'q) work_env \<Rightarrow> ('k, ('q, 'z) owner_body_scheme) kube_api \<Rightarrow> ('k, 'q) patch_api \<Rightarrow> string \<Rightarrow> string \<Rightarrow> string \<Rightarrow> string \<Rightarrow>
   roll_back_version option \<Rightarrow> 'k \<Rightarrow> 'k \<times> (api_error + action_result)" where
  "revision_rollback E K patch what kind ns name param k =
     (case param of
        None \<Rightarrow> (k, Inl (APIError InvalidFormat ''action rollback version param is not valid''))
      | Some p \<Rightarrow>
          (case with_revisions E K what kind ns name k of
             Inl e \<Rightarrow> (k, Inl e)
           | Inr (obj, crs) \<Rightarrow>
               (case Option.bind (List.find (\<lambda>cr. cr_Revision (ko_body cr) = rb_Version p) crs) (\<lambda>cr. cr_Data (ko_body cr)) of
                  None \<Rightarrow> (k, Inl (APIError NotFound (''no found '' @ kind @ '' version: '' @ itoa (rb_Version p))))
                | Some data \<Rightarrow>
                    answer (\<lambda>e. APIError ConnectClusterFailed (''rollback '' @ kind @ '' failed: '' @ k8s_text e)) NoResult
                      (patch (ko_namespace obj) (ko_name obj) (StrategicMerge data) k))))"

section \<open>Stateful sets\<close>

definition new_sts :: "workload \<Rightarrow> 'q pod_template \<Rightarrow> (string \<times> 'q claim) list \<Rightarrow> 'q sts_body" where
  "new_sts w template pvcs =
     \<lparr>ob_UID = '''', ob_Meta = generatePodOwnerObjectMeta (wl_AdvancedOptions w) (wl_Memo w), ob_Selector = Some (LabelSelector [(''app'', wl_Name w)] []),
      ob_Template = template, ob_Conditions = [], sb_Replicas = int32 (wl_Replicas w), sb_ServiceName = wl_Name w, sb_VolumeClaimTemplates = pvcs,
      sb_ReadyReplicas = 0, sb_UpdatedReplicas = 0, sb_CurrentRevision = '''', sb_UpdateRevision = ''''\<rparr>"

definition createStatefulSet :: "('k, 'q) work_env \<Rightarrow> string \<Rightarrow> workload \<Rightarrow> 'k \<Rightarrow> ('k \<times> k8s_err option) outcome" where
  "createStatefulSet E ns w k =
     (case createPodTempateSpec (we_P E) True ns (wl_Name w) (wl_AdvancedOptions w) (wl_Containers w) (wl_PersistentVolumes w) k of
        Panicked p \<Rightarrow> Panicked p
      | Done (k1, Inl e) \<Rightarrow> Done (k1, Some (OwnErr e))
      | Done (k1, Inr (template, pvcs)) \<Rightarrow> Done (kCreate (we_stss E) (new_obj ns (wl_Name w) (new_sts w template pvcs)) k1))"

definition sts_Create :: "('k, 'q) work_env \<Rightarrow> workload sub_ctx \<Rightarrow> 'k kubes \<Rightarrow> ('k kubes \<times> (api_error + workload)) outcome" where
  "sts_Create E ctx = on_cluster_o ''cluster doesn't exist'' ctx (\<lambda>k.
     let w = sx_resource ctx
     in case createStatefulSet E (sx_namespace ctx) w k of
          Panicked p \<Rightarrow> Panicked p
        | Done r \<Rightarrow>
            Done (answer (\<lambda>e. if IsAlreadyExists e then APIError DuplicateResource (''duplicate statefulset name '' @ wl_Name w)
                              else APIError ConnectClusterFailed (''create statefulset failed '' @ k8s_text e))
              (w\<lparr>wl_ID := wl_Name w\<rparr>) r))"

definition sts_status :: "'q sts_body \<Rightarrow> workload_status" where
  "sts_status b =
     (let st = no_status\<lparr>ws_ReadyReplicas := sb_ReadyReplicas b\<rparr>
      in if sb_CurrentRevision b \<noteq> sb_UpdateRevision b
         then (if sb_UpdatedReplicas b \<noteq> 0
               then st\<lparr>ws_Updating := True, ws_UpdatingReplicas := 1, ws_UpdatedReplicas := int32 (sb_UpdatedReplicas b - 1),
                       ws_CurrentReplicas := int32 (sb_Replicas b - sb_UpdatedReplicas b)\<rparr>
               else st\<lparr>ws_Updating := True, ws_UpdatingReplicas := 1, ws_CurrentReplicas := int32 (sb_Replicas b - 1)\<rparr>)
         else st)"

definition claim_templates :: "'q quantity_lib \<Rightarrow> (string \<times> 'q claim) list \<Rightarrow> pv_template list" where
  "claim_templates Q pvcs =
     concat (map (\<lambda>(n, c). case cl_StorageClassName c of
         None \<Rightarrow> []
       | Some sc \<Rightarrow> [\<lparr>pt_Name = n, pt_Size = (case cl_Storage c of None \<Rightarrow> ''0'' | Some q \<Rightarrow> quantityString Q q), pt_StorageClassName = sc\<rparr>]) pvcs)"

definition k8sStatefulSetToSCStatefulSet :: "('k, 'q) work_env \<Rightarrow> 'q sts_body k8s_obj \<Rightarrow> workload" where
  "k8sStatefulSetToSCStatefulSet E obj =
     (let b = ko_body obj;
          spec = pm_Spec (ob_Template b);
          shown = k8sPodSpecToScContainersAndVCTemplates (pe_Q (we_P E)) (ps_Containers spec) (ps_Volumes spec) []
      in \<lparr>wl_ID = ko_name obj, wl_CreationTimestamp = ko_creation obj, wl_DeletionTimestamp = ko_deletion obj, wl_Name = ko_name obj,
          wl_Replicas = sb_Replicas b, wl_Containers = fst shown, wl_AdvancedOptions = shown_options b,
          wl_PersistentVolumes = filter (\<lambda>t. pt_StorageClassName t = StorageClassNameTemp) (snd shown) @ claim_templates (pe_Q (we_P E)) (sb_VolumeClaimTemplates b),
          wl_Status = (sts_status b)\<lparr>ws_Conditions := k8sWorkloadConditionsToScWorkloadConditions (ob_Conditions b) False\<rparr>, wl_Memo = ''''\<rparr>)"

definition sts_List :: "('k, 'q) work_env \<Rightarrow> workload sub_ctx \<Rightarrow> 'k kubes \<Rightarrow> api_error + workload list" where
  "sts_List E ctx = read_cluster ctx (\<lambda>k.
     case kList (we_stss E) (sx_namespace ctx) k of
       Inl e \<Rightarrow> Inl (if IsNotFound e then APIError NotFound ''no found statefulsets'' else APIError ServerError (''list statefulsets failed '' @ k8s_text e))
     | Inr objs \<Rightarrow> Inr (map (k8sStatefulSetToSCStatefulSet E) objs))"

definition sts_Get :: "('k, 'q) work_env \<Rightarrow> workload sub_ctx \<Rightarrow> 'k kubes \<Rightarrow> api_error + workload" where
  "sts_Get E ctx = read_cluster ctx (\<lambda>k.
     map_sum (\<lambda>e. e) (k8sStatefulSetToSCStatefulSet E) (getStatefulSet E (sx_namespace ctx) (wl_ID (sx_resource ctx)) k))"

definition sts_Update :: "('k, 'q) work_env \<Rightarrow> workload sub_ctx \<Rightarrow> 'k kubes \<Rightarrow> ('k kubes \<times> (api_error + workload)) outcome" where
  "sts_Update E = update_workload E (we_stss E) ''statefulSet'' ''statefulset''"

definition getStatefulSetPodsVolumes :: "('k, 'q) work_env \<Rightarrow> string \<Rightarrow> string \<Rightarrow> 'k \<Rightarrow> k8s_err + 'q k8s_volume list" where
  "getStatefulSetPodsVolumes E ns name k =
     map_sum (\<lambda>e. e) (\<lambda>pods. concat (map (\<lambda>p. ps_Volumes (pb_Spec (ko_body p))) pods)) (getOwnerPods E ns ResourceTypeStatefulSet name k)"

definition sts_Delete :: "('k, 'q) work_env \<Rightarrow> workload sub_ctx \<Rightarrow> 'k kubes \<Rightarrow> ('k kubes \<times> (api_error + unit)) outcome" where
  "sts_Delete E ctx = on_cluster_o ''cluster doesn't exist'' ctx (\<lambda>k.
     let name = wl_ID (sx_resource ctx); ns = sx_namespace ctx
     in Done (case getStatefulSet E ns name k of
          Inl e \<Rightarrow> (k, Inl e)
        | Inr obj \<Rightarrow>
            (case getStatefulSetPodsVolumes E ns (ko_name obj) k of
               Inl e \<Rightarrow> (k, Inl (if IsNotFound e then APIError NotFound (''no found statefulset '' @ name @ '' pods'')
                                else APIError ServerError (''get statefulset '' @ name @ '' pods volumes failed '' @ k8s_text e)))
             | Inr volumes \<Rightarrow>
                 (case kDelete (we_stss E) ns name k of
                    (k', Some e) \<Rightarrow> (k', Inl (APIError ServerError (''delete statefulset '' @ name @ '' failed '' @ k8s_text e)))
                  | (k', None) \<Rightarrow>
                      (if map_of (om_Annotations (ob_Meta (ko_body obj))) AnnkeyForDeletePVsWhenDeleteWorkload = Some ''true''
                       then deleteWorkLoadPVCs (we_P E) ns volumes k' else k', Inr ())))))"

definition sts_Action :: "('k, 'q) work_env \<Rightarrow> workload sub_ctx \<Rightarrow> action \<Rightarrow> 'k kubes \<Rightarrow> ('k kubes \<times> (api_error + action_result)) outcome" where
  "sts_Action E ctx a ks =
     (let ns = sx_namespace ctx; name = wl_ID (sx_resource ctx); on = (\<lambda>f. on_cluster_o ''cluster doesn't exist'' ctx f ks)
      in case a of
           GetHistory \<Rightarrow> on (\<lambda>k. case revision_history E (we_stss E) ''statefulSet'' ''statefulset'' ns name k of
               Panicked p \<Rightarrow> Panicked p | Done r \<Rightarrow> Done (k, map_sum (\<lambda>e. e) VersionHistory r))
         | Rollback param \<Rightarrow> on (\<lambda>k. Done (revision_rollback E (we_stss E) (we_patchSts E) ''statefulSet'' ''statefulset'' ns name param k))
         | SetPodCount param \<Rightarrow> on (\<lambda>k. Done (set_pod_count (we_stss E) (we_patchSts E) sb_Replicas ''statefulSet'' ''statefulset'' ns name param k))
         | UnknownAction n \<Rightarrow> Done (ks, Inl (APIError InvalidAction (''action '' @ n @ '' is unknown''))))"

section \<open>Daemon sets\<close>

definition new_ds :: "workload \<Rightarrow> 'q pod_template \<Rightarrow> 'q ds_body" where
  "new_ds w template =
     \<lparr>ob_UID = '''', ob_Meta = generatePodOwnerObjectMeta (wl_AdvancedOptions w) (wl_Memo w), ob_Selector = Some (LabelSelector [(''app'', wl_Name w)] []),
      ob_Template = template, ob_Conditions = [], dm_ObservedGeneration = 0, dm_DesiredNumberScheduled = 0, dm_NumberReady = 0, dm_NumberAvailable = 0,
      dm_NumberUnavailable = 0, dm_UpdatedNumberScheduled = 0\<rparr>"

definition createDaemonSet :: "('k, 'q) work_env \<Rightarrow> string \<Rightarrow> workload \<Rightarrow> 'k \<Rightarrow> ('k \<times> k8s_err option) outcome" where
  "createDaemonSet E ns w k =
     (case createPodTempateSpec (we_P E) False ns (wl_Name w) (wl_AdvancedOptions w) (wl_Containers w) (wl_PersistentVolumes w) k of
        Panicked p \<Rightarrow> Panicked p
      | Done (k1, Inl e) \<Rightarrow> Done (k1, Some (OwnErr e))
      | Done (k1, Inr (template, pvcs)) \<Rightarrow>
          (case kCreate (we_dss E) (new_obj ns (wl_Name w) (new_ds w template)) k1 of
             (k2, Some e) \<Rightarrow> Done (deletePVCs (we_P E) ns pvcs k2, Some e)
           | (k2, None) \<Rightarrow> Done (k2, None)))"

definition ds_Create :: "('k, 'q) work_env \<Rightarrow> workload sub_ctx \<Rightarrow> 'k kubes \<Rightarrow> ('k kubes \<times> (api_error + workload)) outcome" where
  "ds_Create E ctx = on_cluster_o ''cluster doesn't exist'' ctx (\<lambda>k.
     let w = sx_resource ctx
     in case createDaemonSet E (sx_namespace ctx) w k of
          Panicked p \<Rightarrow> Panicked p
        | Done r \<Rightarrow>
            Done (answer (\<lambda>e. if IsAlreadyExists e then APIError DuplicateResource (''duplicate daemonSet name '' @ wl_Name w)
                              else APIError ConnectClusterFailed (''create daemonSet failed '' @ k8s_text e))
              (w\<lparr>wl_ID := wl_Name w\<rparr>) r))"

definition daemonsetIsUpdate :: "'q ds_body \<Rightarrow> bool" where
  "daemonsetIsUpdate b \<longleftrightarrow>
     \<not> (dm_ObservedGeneration b = 1
        \<or> (dm_DesiredNumberScheduled b = dm_NumberAvailable b \<and> dm_NumberAvailable b = dm_NumberReady b \<and> dm_NumberReady b = dm_UpdatedNumberScheduled b
           \<and> dm_NumberUnavailable b = 0))"

definition ds_status :: "'q ds_body \<Rightarrow> workload_status" where
  "ds_status b =
     (let st = no_status\<lparr>ws_ReadyReplicas := dm_NumberReady b\<rparr>
      in if daemonsetIsUpdate b
         then (if dm_UpdatedNumberScheduled b \<noteq> 0
               then st\<lparr>ws_Updating := True, ws_UpdatingReplicas := dm_NumberUnavailable b,
                       ws_CurrentReplicas := int32 (dm_DesiredNumberScheduled b - dm_UpdatedNumberScheduled b),
                       ws_UpdatedReplicas := int32 (dm_UpdatedNumberScheduled b - dm_NumberUnavailable b)\<rparr>
               else st\<lparr>ws_Updating := True, ws_UpdatingReplicas := dm_NumberUnavailable b,
                       ws_CurrentReplicas := int32 (dm_DesiredNumberScheduled b - dm_NumberUnavailable b)\<rparr>)
         else st)"

definition k8sDaemonSetToSCDaemonSet :: "('k, 'q) work_env \<Rightarrow> 'k \<Rightarrow> 'q ds_body k8s_obj \<Rightarrow> api_error + workload" where
  "k8sDaemonSetToSCDaemonSet E k obj =
     (let b = ko_body obj;
          spec = pm_Spec (ob_Template b);
          shown = k8sPodSpecToScContainersAndVCTemplates (pe_Q (we_P E)) (ps_Containers spec) (ps_Volumes spec) []
      in case getPVCs (we_P E) (ko_namespace obj) (snd shown) k of
           Inl e \<Rightarrow> Inl (APIError (if IsNotFound e then NotFound else ServerError) (''get daemonset '' @ ko_name obj @ '' pvc failed: '' @ k8s_text e))
         | Inr pvs \<Rightarrow>
             Inr \<lparr>wl_ID = ko_name obj, wl_CreationTimestamp = ko_creation obj, wl_DeletionTimestamp = ko_deletion obj, wl_Name = ko_name obj,
               wl_Replicas = dm_DesiredNumberScheduled b, wl_Containers = fst shown, wl_AdvancedOptions = shown_options b, wl_PersistentVolumes = pvs,
               wl_Status = (ds_status b)\<lparr>ws_Conditions := k8sWorkloadConditionsToScWorkloadConditions (ob_Conditions b) False\<rparr>, wl_Memo = ''''\<rparr>)"

definition ds_List :: "('k, 'q) work_env \<Rightarrow> workload sub_ctx \<Rightarrow> 'k kubes \<Rightarrow> api_error + workload list" where
  "ds_List E ctx = read_cluster ctx (\<lambda>k.
     case kList (we_dss E) (sx_namespace ctx) k of
       Inl e \<Rightarrow> Inl (if IsNotFound e then APIError NotFound ''no found daemonSets'' else APIError ServerError (''list daemonSets failed '' @ k8s_text e))
     | Inr objs \<Rightarrow> show_all (k8sDaemonSetToSCDaemonSet E k) objs)"

definition ds_Get :: "('k, 'q) work_env \<Rightarrow> workload sub_ctx \<Rightarrow> 'k kubes \<Rightarrow> api_error + workload" where
  "ds_Get E ctx = read_cluster ctx (\<lambda>k.
     case getDaemonSet E (sx_namespace ctx) (wl_ID (sx_resource ctx)) k of
       Inl e \<Rightarrow> Inl e
     | Inr obj \<Rightarrow> k8sDaemonSetToSCDaemonSet E k obj)"

definition ds_Update :: "('k, 'q) work_env \<Rightarrow> workload sub_ctx \<Rightarrow> 'k kubes \<Rightarrow> ('k kubes \<times> (api_error + workload)) outcome" where
  "ds_Update E = update_workload E (we_dss E) ''daemonset'' ''daemonset''"

definition ds_Delete :: "('k, 'q) work_env \<Rightarrow> workload sub_ctx \<Rightarrow> 'k kubes \<Rightarrow> ('k kubes \<times> (api_error + unit)) outcome" where
  "ds_Delete E ctx = on_cluster_o ''cluster doesn't exist'' ctx (\<lambda>k.
     let name = wl_ID (sx_resource ctx); ns = sx_namespace ctx
     in Done (case getDaemonSet E ns name k of
          Inl e \<Rightarrow> (k, Inl e)
        | Inr obj \<Rightarrow>
            (case kDelete (we_dss E) ns name k of
               (k', Some e) \<Rightarrow> (k', Inl (APIError ServerError (''delete daemonSet failed '' @ k8s_text e)))
             | (k', None) \<Rightarrow>
                 (if map_of (om_Annotations (ob_Meta (ko_body obj))) AnnkeyForDeletePVsWhenDeleteWorkload = Some ''true''
                  then deleteWorkLoadPVCs (we_P E) ns (ps_Volumes (pm_Spec (ob_Template (ko_body obj)))) k' else k', Inr ()))))"

definition ds_Action :: "('k, 'q) work_env \<Rightarrow> workload sub_ctx \<Rightarrow> action \<Rightarrow> 'k kubes \<Rightarrow> ('k kubes \<times> (api_error + action_result)) outcome" where
  "ds_Action E ctx a ks =
     (let ns = sx_namespace ctx; name = wl_ID (sx_resource ctx); on = (\<lambda>f. on_cluster_o ''cluster doesn't exist'' ctx f ks);
          unknown = (\<lambda>n. Done (ks, Inl (APIError InvalidAction (''action '' @ n @ '' is unknown''))))
      in case a of
           GetHistory \<Rightarrow> on (\<lambda>k. case revision_history E (we_dss E) ''daemonset'' ''daemonset'' ns name k of
               Panicked p \<Rightarrow> Panicked p | Done r \<Rightarrow> Done (k, map_sum (\<lambda>e. e) VersionHistory r))
         | Rollback param \<Rightarrow> on (\<lambda>k. Done (revision_rollback E (we_dss E) (we_patchDs E) ''daemonset'' ''daemonset'' ns name param k))
         | SetPodCount param \<Rightarrow> unknown ''setPodCount''
         | UnknownAction n \<Rightarrow> unknown n)"


section \<open>A stateful set is shown as it was submitted\<close>

definition sts_kept :: "'q sts_body \<Rightarrow> advanced_options json option \<times> 'q pod_template \<times> int \<times> (string \<times> 'q claim) list" where
  "sts_kept b = (om_Options (ob_Meta b), ob_Template b, sb_Replicas b, sb_VolumeClaimTemplates b)"

text \<open>What a template asks for: a volume of a class with a size.\<close>

definition asked :: "'q quantity_lib \<Rightarrow> pv_template \<Rightarrow> string \<times> string \<times> (goerr + 'q)" where
  "asked Q t = (pt_Name t, pt_StorageClassName t, parseQuantity Q (pt_Size t))"

abbreviation lasting :: "pv_template list \<Rightarrow> pv_template list" where
  "lasting ts \<equiv> filter (\<lambda>t. pt_StorageClassName t \<noteq> StorageClassNameTemp) ts"

lemma claim_templates_asked:
  assumes "\<forall>q. parseQuantity (pe_Q P) (quantityString (pe_Q P) q) = Inr q"
  shows "scPVCsToK8sVolumesAndPVCs P k pvs = Done (Inr (ds, cs)) \<Longrightarrow>
    map (asked (pe_Q P)) (claim_templates (pe_Q P) cs) = map (asked (pe_Q P)) (lasting pvs)
    \<and> (\<forall>t \<in> set (claim_templates (pe_Q P) cs). pt_StorageClassName t \<noteq> StorageClassNameTemp)"
proof (induction pvs arbitrary: ds cs)
  case Nil
  then show ?case by (simp add: claim_templates_def)
next
  case (Cons t pvs)
  from Cons.prems show ?case
  proof (cases rule: scPVCs_Cons)
    case (temp q ds')
    with Cons.IH [OF temp(2)] show ?thesis by simp
  next
    case (claim mode q cs')
    with Cons.IH [OF claim(2)] assms show ?thesis by (simp add: claim_templates_def asked_def)
  qed
qed

lemma createPodTempateSpec_sts:
  assumes "createPodTempateSpec P True ns name opts containers pvs k = Done (k', Inr (t, pvcs))"
  shows "k' = k \<and> (\<exists>ds. scPVCsToK8sVolumesAndPVCs P k pvs = Done (Inr (ds, pvcs)) \<and> scContainersAndPVToK8sPodSpec containers ds pvcs = Inr (pm_Spec t))"
proof -
  from assms obtain spec where s: "scPodSpecToK8sPodSpecAndPVCs P k containers pvs = Done (Inr (spec, pvcs))" "k' = k" "pm_Spec t = spec"
    by (auto simp: createPodTempateSpec_def Let_def split: outcome.splits sum.splits)
  then show ?thesis by (auto simp: scPodSpecToK8sPodSpecAndPVCs_def map_sum_Inr_iff split: outcome.splits sum.splits)
qed

text \<open>
  A stateful set that was created is shown with its containers, its number of pods and its options, and
  with exactly the lasting volumes it was submitted with, in their order, each with its class and size.
\<close>

theorem statefulset_roundtrip:
  assumes "kube_live (we_stss E) view sts_kept" "\<forall>q. parseQuantity (pe_Q (we_P E)) (quantityString (pe_Q (we_P E)) q) = Inr q"
    and "plain_workload (sx_resource ctx)" "sts_Create E ctx ks = Done (ks', Inr w)"
  shows "\<exists>w'. sts_Get E (ctx\<lparr>sx_resource := w\<rparr>) ks' = Inr w' \<and> wl_Name w' = wl_Name w \<and> wl_Containers w' = wl_Containers w
    \<and> wl_Replicas w' = int32 (wl_Replicas w) \<and> (wl_AdvancedOptions w')\<lparr>ao_ExposedMetric := ao_ExposedMetric (wl_AdvancedOptions w)\<rparr> = wl_AdvancedOptions w
    \<and> map (asked (pe_Q (we_P E))) (lasting (wl_PersistentVolumes w')) = map (asked (pe_Q (we_P E))) (lasting (wl_PersistentVolumes w))"
proof -
  let ?w = "sx_resource ctx" and ?Q = "pe_Q (we_P E)"
  from assms(4) obtain k k1 where k: "createStatefulSet E (sx_namespace ctx) ?w k = Done (k1, None)" "ks' (sx_cluster ctx) = Some k1" "w = ?w\<lparr>wl_ID := wl_Name ?w\<rparr>"
    by (auto simp: sts_Create_def on_cluster_o_def answer_def Let_def split: option.splits outcome.splits prod.splits)
  from k(1) obtain k0 t pvcs where t: "createPodTempateSpec (we_P E) True (sx_namespace ctx) (wl_Name ?w) (wl_AdvancedOptions ?w) (wl_Containers ?w) (wl_PersistentVolumes ?w) k = Done (k0, Inr (t, pvcs))"
    and c: "kCreate (we_stss E) (new_obj (sx_namespace ctx) (wl_Name ?w) (new_sts ?w t pvcs)) k0 = (k1, None)"
    by (auto simp: createStatefulSet_def split: outcome.splits sum.splits prod.splits)
  obtain ds where m: "scPVCsToK8sVolumesAndPVCs (we_P E) k (wl_PersistentVolumes ?w) = Done (Inr (ds, pvcs))"
    "scContainersAndPVToK8sPodSpec (wl_Containers ?w) ds pvcs = Inr (pm_Spec t)" using createPodTempateSpec_sts [OF t] by blast
  from kube_live.create_then_get [OF assms(1), OF c] obtain obj where g: "kGet (we_stss E) (sx_namespace ctx) (wl_Name ?w) k1 = Inr obj"
    "ko_name obj = wl_Name ?w" "sts_kept (ko_body obj) = sts_kept (new_sts ?w t pvcs)" by (auto simp: new_obj_def)
  have b: "ob_Template (ko_body obj) = t" "om_Options (ob_Meta (ko_body obj)) = Some (json_marshal (wl_AdvancedOptions ?w))"
    "sb_Replicas (ko_body obj) = int32 (wl_Replicas ?w)" "sb_VolumeClaimTemplates (ko_body obj) = pvcs"
    using g(3) by (simp_all add: sts_kept_def new_sts_def generatePodOwnerObjectMeta_def)
  note cl = claim_templates_asked [OF assms(2) m(1)]
  have "lasting (claim_templates ?Q pvcs) = claim_templates ?Q pvcs" using cl by simp
  moreover have "lasting (filter (\<lambda>t. pt_StorageClassName t = StorageClassNameTemp) ts) = []" for ts by simp
  moreover have "sts_Get E (ctx\<lparr>sx_resource := w\<rparr>) ks' = Inr (k8sStatefulSetToSCStatefulSet E obj)"
    using k(2,3) g(1) by (simp add: sts_Get_def read_cluster_def getStatefulSet_def getWorkload_def)
  ultimately show ?thesis using cl workload_containers_shown [OF assms(3) m] b g(2) k(3)
    by (simp add: k8sStatefulSetToSCStatefulSet_def Let_def shown_options_def json_marshal_def)
qed

theorem statefulset_roundtrip_witness:
  "\<exists>ks' w w'. sts_Create mem_work_env sample_ctx [''local'' \<mapsto> lvm_work] = Done (ks', Inr w)
    \<and> sts_Get mem_work_env (sample_ctx\<lparr>sx_resource := w\<rparr>) ks' = Inr w' \<and> wl_Containers w' = wl_Containers w
    \<and> map (asked nat_quantity) (lasting (wl_PersistentVolumes w')) = [(''store'', ''lvm'', Inr 5)]"
proof -
  have "case createStatefulSet mem_work_env ''default'' sample_workload lvm_work of Done (k1, r) \<Rightarrow> r = None | Panicked p \<Rightarrow> False" by code_simp
  then obtain k1 where c: "createStatefulSet mem_work_env ''default'' sample_workload lvm_work = Done (k1, None)" by (auto split: outcome.splits)
  let ?w = "sample_workload\<lparr>wl_ID := ''db''\<rparr>"
  have cr: "sts_Create mem_work_env sample_ctx [''local'' \<mapsto> lvm_work] = Done ([''local'' \<mapsto> k1], Inr ?w)"
    by (simp add: sts_Create_def on_cluster_o_def answer_def c Let_def) (simp add: sample_workload_def)
  have Q: "pe_Q (we_P mem_work_env) = nat_quantity" by (simp add: mem_work_env_def mem_work_P_def)
  have l: "kube_live (we_stss mem_work_env) (\<lambda>k. mem_view (mw_stss k)) sts_kept"
    by (simp add: mem_work_env_def) (rule lift_api_live [OF mem_kube_kept], simp)
  have q: "\<forall>q. parseQuantity (pe_Q (we_P mem_work_env)) (quantityString (pe_Q (we_P mem_work_env)) q) = Inr q"
    unfolding Q by (simp add: nat_quantity_def atoi_digits_def formatNat_digits)
  have pl: "plain_workload (sx_resource sample_ctx)" by (auto simp: plain_workload_def sample_workload_def plain_ports_def)
  have a: "map (asked nat_quantity) (lasting (wl_PersistentVolumes ?w)) = [(''store'', ''lvm'', Inr 5)]" by code_simp
  from statefulset_roundtrip [OF l q pl cr] a cr show ?thesis unfolding Q by auto
qed

end
