(* ===== verification/Jobs.thy ===== *)
theory Jobs
  imports StatefulSet
begin

text \<open>
  Jobs and cron jobs (\<^verbatim>\<open>pkg/handler/job_manager.go\<close>, \<^verbatim>\<open>cronjob_manager.go\<close>). Their pods have no persistent
  volumes, so the conversion never asks the server.
\<close>

record job_status =
  js_StartTime :: time
  js_CompletionTime :: time
  js_Active :: int
  js_Succeeded :: int
  js_Failed :: int
  js_JobConditions :: "(string \<times> string \<times> time \<times> time \<times> string \<times> string) list"

record job =
  jo_ID :: string
  jo_CreationTimestamp :: time
  jo_DeletionTimestamp :: "time option"
  jo_Name :: string
  jo_RestartPolicy :: string
  jo_Containers :: "container list"
  jo_Status :: job_status

record cron_job =
  cn_ID :: string
  cn_CreationTimestamp :: time
  cn_DeletionTimestamp :: "time option"
  cn_Name :: string
  cn_Schedule :: string
  cn_RestartPolicy :: string
  cn_Containers :: "container list"
  cn_LastScheduleTime :: time
  cn_ObjectReferences :: "object_reference list"

definition scRestartPolicyToK8sRestartPolicy :: "string \<Rightarrow> goerr + string" where
  "scRestartPolicyToK8sRestartPolicy policy =
     (if toLower policy = ''onfailure'' then Inr ''OnFailure''
      else if toLower policy = ''never'' then Inr ''Never''
      else Inl (''restart policy '' @ policy @ '' isn`t supported''))"

definition pod_job :: "container list \<Rightarrow> string \<Rightarrow> goerr + 'q pod_spec \<times> string" where
  "pod_job containers policy =
     (case scContainersAndPVToK8sPodSpec containers [] [] of
        Inl e \<Rightarrow> Inl e
      | Inr spec \<Rightarrow> map_sum (\<lambda>e. e) (Pair spec) (scRestartPolicyToK8sRestartPolicy policy))"

section \<open>Jobs\<close>

definition new_job :: "job \<Rightarrow> string \<Rightarrow> goerr + 'q job_body k8s_obj" where
  "new_job j ns =
     map_sum (\<lambda>e. e) (\<lambda>(spec, policy). new_obj ns (jo_Name j)
       \<lparr>jb_UID = '''', jb_OwnerReferences = [], jb_Selector = Some (LabelSelector [(''job-name'', jo_Name j)] []), jb_Spec = spec, jb_RestartPolicy = policy,
        jb_StartTime = None, jb_CompletionTime = None, jb_Active = 0, jb_Succeeded = 0, jb_Failed = 0, jb_Conditions = []\<rparr>)
       (pod_job (jo_Containers j) (jo_RestartPolicy j))"

definition createJob :: "('k, 'q) work_env \<Rightarrow> string \<Rightarrow> job \<Rightarrow> 'k \<Rightarrow> 'k \<times> k8s_err option" where
  "createJob E ns j = crud_create (we_jobs E) (new_job j ns)"

definition job_Create :: "('k, 'q) work_env \<Rightarrow> job sub_ctx \<Rightarrow> 'k kubes \<Rightarrow> 'k kubes \<times> (api_error + job)" where
  "job_Create E ctx = on_cluster ctx (\<lambda>k.
     let j = sx_resource ctx
     in answer (\<lambda>e. if IsAlreadyExists e then APIError DuplicateResource (''duplicate job name '' @ jo_Name j)
                    else APIError ConnectClusterFailed (''create job failed '' @ k8s_text e))
          (j\<lparr>jo_ID := jo_Name j\<rparr>) (createJob E (sx_namespace ctx) j k))"

definition k8sJobToSCJob :: "('k, 'q) work_env \<Rightarrow> 'q job_body k8s_obj \<Rightarrow> job" where
  "k8sJobToSCJob E obj =
     (let b = ko_body obj
      in \<lparr>jo_ID = ko_name obj, jo_CreationTimestamp = ko_creation obj, jo_DeletionTimestamp = ko_deletion obj, jo_Name = ko_name obj,
          jo_RestartPolicy = jb_RestartPolicy b,
          jo_Containers = fst (k8sPodSpecToScContainersAndVCTemplates (pe_Q (we_P E)) (ps_Containers (jb_Spec b)) (ps_Volumes (jb_Spec b)) []),
          jo_Status = \<lparr>js_StartTime = k8sMetaV1TimePtrToISOTime (jb_StartTime b), js_CompletionTime = k8sMetaV1TimePtrToISOTime (jb_CompletionTime b),
            js_Active = jb_Active b, js_Succeeded = jb_Succeeded b, js_Failed = jb_Failed b, js_JobConditions = jb_Conditions b\<rparr>\<rparr>)"

text \<open>Jobs that another object owns, such as those of a cron job, are not listed.\<close>

definition job_List :: "('k, 'q) work_env \<Rightarrow> job sub_ctx \<Rightarrow> 'k kubes \<Rightarrow> api_error + job list" where
  "job_List E ctx = read_cluster ctx (\<lambda>k.
     case kList (we_jobs E) (sx_namespace ctx) k of
       Inl e \<Rightarrow> Inl (if IsNotFound e then APIError NotFound ''no found jobs'' else APIError ServerError (''list jobs failed '' @ k8s_text e))
     | Inr objs \<Rightarrow> Inr (map (k8sJobToSCJob E) (filter (\<lambda>obj. length (jb_OwnerReferences (ko_body obj)) = 0) objs)))"

definition job_Get :: "('k, 'q) work_env \<Rightarrow> job sub_ctx \<Rightarrow> 'k kubes \<Rightarrow> api_error + job" where
  "job_Get E ctx = read_cluster ctx (\<lambda>k.
     map_sum (\<lambda>e. e) (k8sJobToSCJob E) (getWorkload (we_jobs E) ''job'' (sx_namespace ctx) (jo_ID (sx_resource ctx)) k))"

definition job_Delete :: "('k, 'q) work_env \<Rightarrow> job sub_ctx \<Rightarrow> 'k kubes \<Rightarrow> 'k kubes \<times> (api_error + unit)" where
  "job_Delete E ctx = on_cluster ctx (\<lambda>k.
     let name = jo_ID (sx_resource ctx)
     in answer (\<lambda>e. if IsNotFound e then APIError NotFound (''no found job '' @ name)
                    else APIError ServerError (''delete job '' @ name @ '' failed '' @ k8s_text e))
          () (kDelete (we_jobs E) (sx_namespace ctx) name k))"

section \<open>Cron jobs\<close>

definition new_cron :: "cron_job \<Rightarrow> string \<Rightarrow> goerr + 'q cron_body k8s_obj" where
  "new_cron c ns =
     map_sum (\<lambda>e. e) (\<lambda>(spec, policy). new_obj ns (cn_Name c)
       \<lparr>cj_Schedule = cn_Schedule c, cj_Spec = spec, cj_RestartPolicy = policy, cj_LastScheduleTime = None, cj_Active = []\<rparr>)
       (pod_job (cn_Containers c) (cn_RestartPolicy c))"

definition createCronJob :: "('k, 'q) work_env \<Rightarrow> string \<Rightarrow> cron_job \<Rightarrow> 'k \<Rightarrow> 'k \<times> k8s_err option" where
  "createCronJob E ns c = crud_create (we_crons E) (new_cron c ns)"

definition cron_Create :: "('k, 'q) work_env \<Rightarrow> cron_job sub_ctx \<Rightarrow> 'k kubes \<Rightarrow> 'k kubes \<times> (api_error + cron_job)" where
  "cron_Create E ctx = on_cluster ctx (\<lambda>k.
     let c = sx_resource ctx
     in answer (\<lambda>e. if IsAlreadyExists e then APIError DuplicateResource (''duplicate cronJob name '' @ cn_Name c)
                    else APIError ConnectClusterFailed (''create cronJob failed '' @ k8s_text e))
          (c\<lparr>cn_ID := cn_Name c\<rparr>) (createCronJob E (sx_namespace ctx) c k))"

definition k8sCronJobToScCronJob :: "('k, 'q) work_env \<Rightarrow> 'q cron_body k8s_obj \<Rightarrow> cron_job" where
  "k8sCronJobToScCronJob E obj =
     (let b = ko_body obj
      in \<lparr>cn_ID = ko_name obj, cn_CreationTimestamp = ko_creation obj, cn_DeletionTimestamp = ko_deletion obj, cn_Name = ko_name obj,
          cn_Schedule = cj_Schedule b, cn_RestartPolicy = cj_RestartPolicy b,
          cn_Containers = fst (k8sPodSpecToScContainersAndVCTemplates (pe_Q (we_P E)) (ps_Containers (cj_Spec b)) (ps_Volumes (cj_Spec b)) []),
          cn_LastScheduleTime = k8sMetaV1TimePtrToISOTime (cj_LastScheduleTime b), cn_ObjectReferences = cj_Active b\<rparr>)"

definition cron_List :: "('k, 'q) work_env \<Rightarrow> cron_job sub_ctx \<Rightarrow> 'k kubes \<Rightarrow> api_error + cron_job list" where
  "cron_List E ctx = read_cluster ctx (\<lambda>k.
     case kList (we_crons E) (sx_namespace ctx) k of
       Inl e \<Rightarrow> Inl (if IsNotFound e then APIError NotFound ''no found cronjobs'' else APIError ServerError (''list cronJobs failed '' @ k8s_text e))
     | Inr objs \<Rightarrow> Inr (map (k8sCronJobToScCronJob E) objs))"

definition cron_Get :: "('k, 'q) work_env \<Rightarrow> cron_job sub_ctx \<Rightarrow> 'k kubes \<Rightarrow> api_error + cron_job" where
  "cron_Get E ctx = read_cluster ctx (\<lambda>k.
     let name = cn_ID (sx_resource ctx)
     in case kGet (we_crons E) (sx_namespace ctx) name k of
          Inl e \<Rightarrow> Inl (if IsNotFound e then APIError NotFound (''no found cronjob '' @ name)
                       else APIError ServerError (''get cronJob '' @ name @ '' failed '' @ k8s_text e))
        | Inr obj \<Rightarrow> Inr (k8sCronJobToScCronJob E obj))"

definition cron_Delete :: "('k, 'q) work_env \<Rightarrow> cron_job sub_ctx \<Rightarrow> 'k kubes \<Rightarrow> 'k kubes \<times> (api_error + unit)" where
  "cron_Delete E ctx = on_cluster ctx (\<lambda>k.
     let name = cn_ID (sx_resource ctx)
     in answer (\<lambda>e. if IsNotFound e then APIError NotFound (''cronJob '' @ name @ '' doesn't exist'')
                    else APIError ServerError (''delete cronJob failed '' @ k8s_text e))
          () (kDelete (we_crons E) (sx_namespace ctx) name k))"

section \<open>Jobs are shown as they were submitted\<close>

definition job_kept :: "'q job_body \<Rightarrow> 'q pod_spec \<times> string" where
  "job_kept b = (jb_Spec b, jb_RestartPolicy b)"

definition cron_kept :: "'q cron_body \<Rightarrow> string \<times> 'q pod_spec \<times> string" where
  "cron_kept b = (cj_Schedule b, cj_Spec b, cj_RestartPolicy b)"

definition plain_job :: "container list \<Rightarrow> bool" where
  "plain_job cs \<longleftrightarrow> distinct (map ct_Name cs) \<and> (\<forall>c \<in> set cs. plain_ports (ct_ExposedPorts c))"

lemma sc_volumes_no_claims: "sc_volumes [] [] c i vs vols = Inr r \<Longrightarrow> \<forall>v \<in> set vs. vo_Type v \<noteq> VolumeTypePersistentVolume"
  by (induction vs arbitrary: i vols r) (auto simp: map_sum_Inr_iff volume_of_def Let_def split: sum.splits if_splits)

lemma sc_containers_no_claims:
  "sc_containers [] [] cs vols = Inr r \<Longrightarrow> \<forall>c \<in> set cs. \<forall>v \<in> set (ct_Volumes c). vo_Type v \<noteq> VolumeTypePersistentVolume"
  by (induction cs arbitrary: vols r) (auto simp: map_sum_Inr_iff split: sum.splits dest!: sc_volumes_no_claims)

lemma pod_job_shown:
  assumes "pod_job cs policy = Inr (spec, p)" "plain_job cs"
  shows "fst (k8sPodSpecToScContainersAndVCTemplates Q (ps_Containers spec) (ps_Volumes spec) []) = cs
    \<and> toLower p = toLower policy \<and> p \<in> {''OnFailure'', ''Never''} \<and> (\<forall>c \<in> set cs. \<forall>v \<in> set (ct_Volumes c). vo_Type v \<noteq> VolumeTypePersistentVolume)"
proof -
  let ?w = "sample_workload\<lparr>wl_Containers := cs, wl_PersistentVolumes := []\<rparr>"
  from assms(1) have s: "scContainersAndPVToK8sPodSpec cs [] [] = Inr spec" and p: "scRestartPolicyToK8sRestartPolicy policy = Inr p"
    by (auto simp: pod_job_def map_sum_Inr_iff split: sum.splits)
  have pl: "plain_workload ?w" using assms(2) by (simp add: plain_job_def plain_workload_def)
  have "toLower ''OnFailure'' = ''onfailure''" "toLower ''Never'' = ''never''" by code_simp+
  with p have pol: "toLower p = toLower policy" "p \<in> {''OnFailure'', ''Never''}" by (auto simp: scRestartPolicyToK8sRestartPolicy_def split: if_splits)
  have "fst (k8sPodSpecToScContainersAndVCTemplates Q (ps_Containers spec) (ps_Volumes spec) []) = wl_Containers ?w"
    by (rule workload_containers_shown [OF pl, where ds = "[]" and pvcs = "[]"]) (simp_all add: s)
  moreover have "\<forall>c \<in> set cs. \<forall>v \<in> set (ct_Volumes c). vo_Type v \<noteq> VolumeTypePersistentVolume"
  proof -
    from s obtain vols kcs where "sc_containers [] [] cs [] = Inr (vols, kcs)" "spec = \<lparr>ps_Containers = kcs, ps_Volumes = vols\<rparr>"
      by (auto simp: scContainersAndPVToK8sPodSpec_def map_sum_Inr_iff)
    then show ?thesis using sc_containers_no_claims by blast
  qed
  ultimately show ?thesis using pol by simp
qed

text \<open>
  A job and a cron job that were created are shown with their containers, their schedule and their
  restart policy, which is written as the server writes it; neither can mount a persistent volume.
\<close>

theorem jobs_roundtrip:
  assumes "kube_live (we_jobs E) jview job_kept" "kube_live (we_crons E) cview cron_kept"
  shows "(job_Create E jctx ks = (ks', Inr j) \<and> plain_job (jo_Containers (sx_resource jctx)) \<longrightarrow>
      (\<exists>j'. job_Get E (jctx\<lparr>sx_resource := j\<rparr>) ks' = Inr j' \<and> jo_Name j' = jo_Name j \<and> jo_Containers j' = jo_Containers j
        \<and> jo_RestartPolicy j' \<in> {''OnFailure'', ''Never''} \<and> toLower (jo_RestartPolicy j') = toLower (jo_RestartPolicy j)
        \<and> (\<forall>c \<in> set (jo_Containers j). \<forall>v \<in> set (ct_Volumes c). vo_Type v \<noteq> VolumeTypePersistentVolume)))
    \<and> (cron_Create E cctx ks = (ks', Inr c) \<and> plain_job (cn_Containers (sx_resource cctx)) \<longrightarrow>
      (\<exists>c'. cron_Get E (cctx\<lparr>sx_resource := c\<rparr>) ks' = Inr c' \<and> cn_Name c' = cn_Name c \<and> cn_Containers c' = cn_Containers c \<and> cn_Schedule c' = cn_Schedule c
        \<and> cn_RestartPolicy c' \<in> {''OnFailure'', ''Never''} \<and> toLower (cn_RestartPolicy c') = toLower (cn_RestartPolicy c)
        \<and> (\<forall>x \<in> set (cn_Containers c). \<forall>v \<in> set (ct_Volumes x). vo_Type v \<noteq> VolumeTypePersistentVolume)))"
proof (intro conjI impI; elim conjE)
  let ?j = "sx_resource jctx"
  assume c: "job_Create E jctx ks = (ks', Inr j)" and pl: "plain_job (jo_Containers ?j)"
  then obtain k k1 where k: "createJob E (sx_namespace jctx) ?j k = (k1, None)" "ks' (sx_cluster jctx) = Some k1" "j = ?j\<lparr>jo_ID := jo_Name ?j\<rparr>"
    unfolding job_Create_def on_cluster_answer Let_def by (auto split: option.splits)
  then obtain obj0 where n: "new_job ?j (sx_namespace jctx) = Inr obj0" "kCreate (we_jobs E) obj0 k = (k1, None)" by (auto simp: createJob_def crud_create_ok)
  then obtain spec p where pj: "pod_job (jo_Containers ?j) (jo_RestartPolicy ?j) = Inr (spec, p)" and o: "ko_name obj0 = jo_Name ?j" "ko_namespace obj0 = sx_namespace jctx"
    "job_kept (ko_body obj0) = (spec, p)" by (auto simp: new_job_def map_sum_Inr_iff job_kept_def new_obj_def)
  from kube_live.create_then_get [OF assms(1), OF n(2)] o obtain obj where "kGet (we_jobs E) (sx_namespace jctx) (jo_Name ?j) k1 = Inr obj" "ko_name obj = jo_Name ?j"
    "jb_Spec (ko_body obj) = spec" "jb_RestartPolicy (ko_body obj) = p" by (auto simp: job_kept_def)
  with pod_job_shown [OF pj pl] k show "\<exists>j'. job_Get E (jctx\<lparr>sx_resource := j\<rparr>) ks' = Inr j' \<and> jo_Name j' = jo_Name j \<and> jo_Containers j' = jo_Containers j
        \<and> jo_RestartPolicy j' \<in> {''OnFailure'', ''Never''} \<and> toLower (jo_RestartPolicy j') = toLower (jo_RestartPolicy j)
        \<and> (\<forall>c \<in> set (jo_Containers j). \<forall>v \<in> set (ct_Volumes c). vo_Type v \<noteq> VolumeTypePersistentVolume)"
    by (simp add: job_Get_def read_cluster_def getWorkload_def k8sJobToSCJob_def Let_def)
next
  let ?c = "sx_resource cctx"
  assume c: "cron_Create E cctx ks = (ks', Inr c)" and pl: "plain_job (cn_Containers ?c)"
  then obtain k k1 where k: "createCronJob E (sx_namespace cctx) ?c k = (k1, None)" "ks' (sx_cluster cctx) = Some k1" "c = ?c\<lparr>cn_ID := cn_Name ?c\<rparr>"
    unfolding cron_Create_def on_cluster_answer Let_def by (auto split: option.splits)
  then obtain obj0 where n: "new_cron ?c (sx_namespace cctx) = Inr obj0" "kCreate (we_crons E) obj0 k = (k1, None)" by (auto simp: createCronJob_def crud_create_ok)
  then obtain spec p where pj: "pod_job (cn_Containers ?c) (cn_RestartPolicy ?c) = Inr (spec, p)" and o: "ko_name obj0 = cn_Name ?c" "ko_namespace obj0 = sx_namespace cctx"
    "cron_kept (ko_body obj0) = (cn_Schedule ?c, spec, p)" by (auto simp: new_cron_def map_sum_Inr_iff cron_kept_def new_obj_def)
  from kube_live.create_then_get [OF assms(2), OF n(2)] o obtain obj where "kGet (we_crons E) (sx_namespace cctx) (cn_Name ?c) k1 = Inr obj" "ko_name obj = cn_Name ?c"
    "cj_Schedule (ko_body obj) = cn_Schedule ?c" "cj_Spec (ko_body obj) = spec" "cj_RestartPolicy (ko_body obj) = p" by (auto simp: cron_kept_def)
  with pod_job_shown [OF pj pl] k show "\<exists>c'. cron_Get E (cctx\<lparr>sx_resource := c\<rparr>) ks' = Inr c' \<and> cn_Name c' = cn_Name c \<and> cn_Containers c' = cn_Containers c \<and> cn_Schedule c' = cn_Schedule c
        \<and> cn_RestartPolicy c' \<in> {''OnFailure'', ''Never''} \<and> toLower (cn_RestartPolicy c') = toLower (cn_RestartPolicy c)
        \<and> (\<forall>x \<in> set (cn_Containers c). \<forall>v \<in> set (ct_Volumes x). vo_Type v \<noteq> VolumeTypePersistentVolume)"
    by (simp add: cron_Get_def read_cluster_def k8sCronJobToScCronJob_def Let_def)
qed

definition sample_job :: "job sub_ctx" where
  "sample_job = \<lparr>sx_cluster = ''local'', sx_namespace = ''default'', sx_resource =
     \<lparr>jo_ID = '''', jo_CreationTimestamp = 0, jo_DeletionTimestamp = None, jo_Name = ''once'', jo_RestartPolicy = ''never'',
      jo_Containers = map (\<lambda>c. c\<lparr>ct_Volumes := []\<rparr>) sample_containers,
      jo_Status = \<lparr>js_StartTime = 0, js_CompletionTime = 0, js_Active = 0, js_Succeeded = 0, js_Failed = 0, js_JobConditions = []\<rparr>\<rparr>\<rparr>"

theorem jobs_roundtrip_witness:
  "\<exists>ks' j j'. job_Create mem_work_env sample_job [''local'' \<mapsto> lvm_work] = (ks', Inr j)
    \<and> job_Get mem_work_env (sample_job\<lparr>sx_resource := j\<rparr>) ks' = Inr j' \<and> jo_Containers j' = jo_Containers j \<and> toLower (jo_RestartPolicy j') = ''never''"
proof -
  have "case createJob mem_work_env ''default'' (sx_resource sample_job) lvm_work of (k1, r) \<Rightarrow> r = None" by code_simp
  then obtain k1 where c: "createJob mem_work_env ''default'' (sx_resource sample_job) lvm_work = (k1, None)" by auto
  let ?j = "(sx_resource sample_job)\<lparr>jo_ID := jo_Name (sx_resource sample_job)\<rparr>"
  have cr: "job_Create mem_work_env sample_job [''local'' \<mapsto> lvm_work] = ([''local'' \<mapsto> k1], Inr ?j)"
    using c by (simp add: job_Create_def on_cluster_def answer_def Let_def sample_job_def)
  have pl: "plain_job (jo_Containers (sx_resource sample_job))" by (simp add: plain_job_def sample_job_def sample_containers_def plain_ports_def)
  have j: "kube_live (we_jobs mem_work_env) (\<lambda>k. mem_view (mw_jobs k)) job_kept"
    by (simp add: mem_work_env_def) (rule lift_api_live [OF mem_kube_kept], simp)
  have n: "kube_live (we_crons mem_work_env) (\<lambda>k. mem_view (mw_crons k)) cron_kept"
    by (simp add: mem_work_env_def) (rule lift_api_live [OF mem_kube_kept], simp)
  have "toLower (jo_RestartPolicy ?j) = ''never''" by code_simp
  with jobs_roundtrip [OF j n, THEN conjunct1, THEN mp, OF conjI [OF cr pl]] cr show ?thesis by auto
qed

end
