(* ===== verification/Hpa.thy ===== *)
theory Hpa
  imports Workload
begin

text \<open>
  Pod autoscalers (\<^verbatim>\<open>pkg/handler/hpa_manager.go\<close>). A custom metric of an autoscaler needs a rule in the
  configuration of the Prometheus adapter of the cluster, a YAML document in a configuration map; the
  handlers write the rules and restart the adapter. The YAML codec, the hash of the labels and the
  numeric value of a quantity are parameters.
\<close>

section \<open>Resources and objects\<close>

record resource_metric =
  rm_ResourceName :: string
  rm_TargetType :: string
  rm_AverageValue :: string
  rm_AverageUtilization :: int

record custom_metric =
  cu_MetricName :: string
  cu_Labels :: pairs
  cu_AverageValue :: string

record metric_status =
  mt_ResourceMetrics :: "resource_metric list"
  mt_CustomMetrics :: "custom_metric list"

record hpa =
  hp_ID :: string
  hp_CreationTimestamp :: time
  hp_DeletionTimestamp :: "time option"
  hp_Name :: string
  hp_ScaleTargetKind :: string
  hp_ScaleTargetName :: string
  hp_MinReplicas :: int
  hp_MaxReplicas :: int
  hp_ResourceMetrics :: "resource_metric list"
  hp_CustomMetrics :: "custom_metric list"
  hp_CurrentReplicas :: int
  hp_DesiredReplicas :: int
  hp_CurrentMetrics :: metric_status

record 'q metric_target =
  tg_Type :: string
  tg_AverageValue :: "'q option"
  tg_AverageUtilization :: "int option"

datatype 'q metric_spec =
    ResourceMetric string "'q metric_target"
  | PodsMetric string "label_selector option" "'q metric_target"
  | OtherMetric

record 'q hpa_spec =
  hs_MinReplicas :: "int option"
  hs_MaxReplicas :: int
  hs_TargetKind :: string
  hs_TargetName :: string
  hs_Metrics :: "'q metric_spec list"

record 'q hpa_body =
  hb_Labels :: pairs
  hb_Spec :: "'q hpa_spec"
  hb_CurrentReplicas :: int
  hb_DesiredReplicas :: int
  hb_CurrentMetrics :: "'q metric_spec list"

text \<open>A rule of the adapter.\<close>

record rule =
  ru_SeriesQuery :: string
  ru_SeriesFilters :: "(string \<times> string) list"
  ru_Template :: string
  ru_Overrides :: "(string \<times> pairs) list"
  ru_Matches :: string
  ru_As :: string
  ru_MetricsQuery :: string

record ('k, 'q) hpa_env =
  he_W :: "('k, 'q) work_env"
  he_hpas :: "('k, 'q hpa_body) kube_api"
  he_unmarshal :: "string \<Rightarrow> goerr + rule list"
  he_marshal :: "rule list \<Rightarrow> goerr + string"
  he_hash :: "(string \<rightharpoonup> string) \<Rightarrow> string"
  he_value :: "'q \<Rightarrow> int"
  he_milli :: "'q \<Rightarrow> int"

abbreviation PrometheusAdapterNamespace :: string where "PrometheusAdapterNamespace \<equiv> ''zcloud''"
abbreviation PrometheusAdapter :: string where "PrometheusAdapter \<equiv> ''monitor-prometheus-adapter''"
abbreviation PrometheusAdapterConfigMapDataKey :: string where "PrometheusAdapterConfigMapDataKey \<equiv> ''config.yaml''"
abbreviation dq :: string where "dq \<equiv> [CHR 0x22]"

section \<open>From a resource to a specification and rules\<close>

definition DefaultRuleResources :: "(string \<times> pairs) list" where
  "DefaultRuleResources = [(''kubernetes_namespace'', [(''resource'', ''namespace'')]), (''kubernetes_pod_name'', [(''resource'', ''pod'')])]"

definition scMetricValueToK8sMetricTarget :: "('k, 'q) hpa_env \<Rightarrow> string \<Rightarrow> string \<Rightarrow> int \<Rightarrow> goerr + 'q metric_target" where
  "scMetricValueToK8sMetricTarget H typ value utilization =
     (if typ = ''Utilization'' then
        (if utilization = 0 then Inl (''averageUtilization must not be empty when type is '' @ typ)
         else Inr \<lparr>tg_Type = ''Utilization'', tg_AverageValue = None, tg_AverageUtilization = Some (int32 utilization)\<rparr>)
      else if typ = ''AverageValue'' then
        (if value = '''' then Inl (''averageValue must not be empty when type is '' @ typ)
         else case parseQuantity (pe_Q (we_P (he_W H))) value of
                Inl e \<Rightarrow> Inl (''parse metric averageValue failed: '' @ e)
              | Inr q \<Rightarrow> Inr \<lparr>tg_Type = ''AverageValue'', tg_AverageValue = Some q, tg_AverageUtilization = None\<rparr>)
      else Inl (''metric target type '' @ typ @ '' is unsupported''))"

definition scResourceMetricSpecToK8sMetricSpec :: "('k, 'q) hpa_env \<Rightarrow> resource_metric \<Rightarrow> goerr + 'q metric_spec" where
  "scResourceMetricSpecToK8sMetricSpec H m =
     (case scMetricValueToK8sMetricTarget H (rm_TargetType m) (rm_AverageValue m) (rm_AverageUtilization m) of
        Inl e \<Rightarrow> Inl e
      | Inr target \<Rightarrow> map_sum (\<lambda>e. e) (\<lambda>name. ResourceMetric name target) (scResourceNameToK8sResourceName (rm_ResourceName m)))"

text \<open>The program writes the labels in the order of a Go map, which is arbitrary; here it is that of the list.\<close>

definition labelsToString :: "pairs \<Rightarrow> string" where
  "labelsToString labels = trimSuffix (concat (map (\<lambda>(n, v). n @ ''='' @ dq @ v @ dq @ '','') labels)) '',''"

definition NameAs :: "string \<Rightarrow> string \<Rightarrow> string \<Rightarrow> string \<Rightarrow> string" where
  "NameAs metric hash ns name = metric @ ''_'' @ hash @ ''_'' @ ns @ ''_'' @ name"

definition genPrometheusAdapterConfigMapRule :: "('k, 'q) hpa_env \<Rightarrow> string \<Rightarrow> string \<Rightarrow> custom_metric \<Rightarrow> rule \<times> string" where
  "genPrometheusAdapterConfigMapRule H ns name m =
     (let metricName = NameAs (cu_MetricName m) (he_hash H (map_of (cu_Labels m))) ns name
      in (\<lparr>ru_SeriesQuery = ''{__name__=~'' @ dq @ cu_MetricName m @ dq @ '',kubernetes_pod_name!='' @ dq @ dq @ '',kubernetes_namespace='' @ dq @ ns @ dq @ ''}'',
           ru_SeriesFilters = [], ru_Template = '''', ru_Overrides = DefaultRuleResources, ru_Matches = ''^'' @ cu_MetricName m @ ''$'', ru_As = metricName,
           ru_MetricsQuery = ''sum('' @ cu_MetricName m @ ''{'' @ labelsToString (cu_Labels m) @ ''}) by (<<.GroupBy>>)''\<rparr>, metricName))"

definition scCustomMetricSpecToK8sMetricSpec :: "('k, 'q) hpa_env \<Rightarrow> string \<Rightarrow> custom_metric \<Rightarrow> goerr + 'q metric_spec" where
  "scCustomMetricSpecToK8sMetricSpec H metricName m =
     map_sum (\<lambda>e. e) (PodsMetric metricName (Some (LabelSelector (cu_Labels m) []))) (scMetricValueToK8sMetricTarget H ''AverageValue'' (cu_AverageValue m) 0)"

fun resource_specs :: "('k, 'q) hpa_env \<Rightarrow> resource_metric list \<Rightarrow> goerr + 'q metric_spec list" where
  "resource_specs H [] = Inr []"
| "resource_specs H (m # ms) =
     (case scResourceMetricSpecToK8sMetricSpec H m of Inl e \<Rightarrow> Inl e | Inr s \<Rightarrow> map_sum (\<lambda>e. e) ((#) s) (resource_specs H ms))"

fun custom_specs :: "('k, 'q) hpa_env \<Rightarrow> string \<Rightarrow> string \<Rightarrow> custom_metric list \<Rightarrow> goerr + ('q metric_spec \<times> rule) list" where
  "custom_specs H ns name [] = Inr []"
| "custom_specs H ns name (m # ms) =
     (let (r, metricName) = genPrometheusAdapterConfigMapRule H ns name m
      in case scCustomMetricSpecToK8sMetricSpec H metricName m of
           Inl e \<Rightarrow> Inl e
         | Inr s \<Rightarrow> map_sum (\<lambda>e. e) ((#) (s, r)) (custom_specs H ns name ms))"

definition scHPAToK8sHPASpec :: "('k, 'q) hpa_env \<Rightarrow> string \<Rightarrow> hpa \<Rightarrow> goerr + 'q hpa_spec \<times> rule list" where
  "scHPAToK8sHPASpec H ns h =
     (case resource_specs H (hp_ResourceMetrics h) of
        Inl e \<Rightarrow> Inl e
      | Inr rms \<Rightarrow>
          (case custom_specs H ns (hp_Name h) (hp_CustomMetrics h) of
             Inl e \<Rightarrow> Inl e
           | Inr cms \<Rightarrow>
               Inr (\<lparr>hs_MinReplicas = Some (int32 (hp_MinReplicas h)), hs_MaxReplicas = int32 (hp_MaxReplicas h), hs_TargetKind = hp_ScaleTargetKind h,
                 hs_TargetName = hp_ScaleTargetName h, hs_Metrics = rms @ map fst cms\<rparr>, map snd cms)))"

section \<open>The rules of the adapter\<close>

text \<open>Of an old rule only its name counts.\<close>

definition getOldRules :: "'q metric_spec list \<Rightarrow> string list" where
  "getOldRules metrics = concat (map (\<lambda>m. case m of PodsMetric name selector target \<Rightarrow> [name] | _ \<Rightarrow> []) metrics)"

fun drop_rules :: "string list \<Rightarrow> rule list \<Rightarrow> goerr + rule list" where
  "drop_rules [] rules = Inr rules"
| "drop_rules (n # ns) rules =
     (if list_ex (\<lambda>r. ru_As r = n) rules then drop_rules ns (remove_first (\<lambda>r. ru_As r = n) rules)
      else Inl (''no found hpa custom metric alias name '' @ n @ '' in prometheus-adapter configmap''))"

fun add_rules :: "rule list \<Rightarrow> rule list \<Rightarrow> goerr + rule list" where
  "add_rules [] rules = Inr rules"
| "add_rules (new # news) rules =
     (if list_ex (\<lambda>r. ru_As r = ru_As new) rules
      then Inl (''duplicate hpa custom metric alias name '' @ ru_As new @ '' in prometheus-adapter configmap'')
      else add_rules news (rules @ [new]))"

fun delete_pods :: "('k, 'q) hpa_env \<Rightarrow> 'q pod_body k8s_obj list \<Rightarrow> 'k \<Rightarrow> 'k \<times> goerr option" where
  "delete_pods H [] k = (k, None)"
| "delete_pods H (p # ps) k =
     (case kDelete (we_pods (he_W H)) PrometheusAdapterNamespace (ko_name p) k of
        (k', Some e) \<Rightarrow> (k', Some (''restart prometheus-adapter pod '' @ ko_name p @ '' failed: '' @ k8s_text e))
      | (k', None) \<Rightarrow> delete_pods H ps k')"

definition restart_adapter :: "('k, 'q) hpa_env \<Rightarrow> 'k \<Rightarrow> 'k \<times> goerr option" where
  "restart_adapter H k =
     (case getOwnerPods (he_W H) PrometheusAdapterNamespace ResourceTypeDeployment PrometheusAdapter k of
        Inl e \<Rightarrow> (k, Some (''get prometheus-adapter pods failed: '' @ k8s_text e))
      | Inr pods \<Rightarrow> delete_pods H pods k)"

abbreviation he_cms :: "('k, 'q) hpa_env \<Rightarrow> ('k, pairs) kube_api" where
  "he_cms H \<equiv> pe_cms (we_P (he_W H))"

definition updatePrometheusAdapterConfigMap :: "('k, 'q) hpa_env \<Rightarrow> string list \<Rightarrow> rule list \<Rightarrow> 'k \<Rightarrow> 'k \<times> goerr option" where
  "updatePrometheusAdapterConfigMap H oldRules newRules k =
     (if length oldRules = 0 \<and> length newRules = 0 then (k, None)
      else case kGet (he_cms H) PrometheusAdapterNamespace PrometheusAdapter k of
        Inl e \<Rightarrow> (k, Some (''get prometheus-adapter configmap failed: '' @ k8s_text e))
      | Inr cm \<Rightarrow>
          (case map_of (ko_body cm) PrometheusAdapterConfigMapDataKey of
             None \<Rightarrow> (k, Some (''no found '' @ PrometheusAdapterConfigMapDataKey @ '' in prometheus-adapter configmap data''))
           | Some raw \<Rightarrow>
               (case he_unmarshal H raw of
                  Inl e \<Rightarrow> (k, Some (''unmarshal prometheus-adapter configmap data rules failed: '' @ e))
                | Inr rules \<Rightarrow>
                    (case drop_rules oldRules rules of
                       Inl e \<Rightarrow> (k, Some e)
                     | Inr rules1 \<Rightarrow>
                         (case add_rules newRules rules1 of
                            Inl e \<Rightarrow> (k, Some e)
                          | Inr rules2 \<Rightarrow>
                              (case he_marshal H rules2 of
                                 Inl e \<Rightarrow> (k, Some (''marshal new prometheus-adapter configmap data failed: '' @ e))
                               | Inr data \<Rightarrow>
                                   (case kUpdate (he_cms H) (cm\<lparr>ko_body := AList.update PrometheusAdapterConfigMapDataKey data (ko_body cm)\<rparr>) k of
                                      (k', Some e) \<Rightarrow> (k', Some (''update prometheus-adapter configmap failed: '' @ k8s_text e))
                                    | (k', None) \<Rightarrow> restart_adapter H k')))))))"

section \<open>Handlers\<close>

definition createHPA :: "('k, 'q) hpa_env \<Rightarrow> string \<Rightarrow> hpa \<Rightarrow> 'k \<Rightarrow> 'k \<times> k8s_err option" where
  "createHPA H ns h k =
     (let taken = (\<lambda>items. List.find (\<lambda>i. ko_name i = hp_Name h
            \<or> (hs_TargetKind (hb_Spec (ko_body i)) = hp_ScaleTargetKind h \<and> hs_TargetName (hb_Spec (ko_body i)) = hp_ScaleTargetName h)) items);
          make = (case scHPAToK8sHPASpec H ns h of
             Inl e \<Rightarrow> (k, Some (OwnErr e))
           | Inr (spec, rules) \<Rightarrow>
               (case updatePrometheusAdapterConfigMap H [] rules k of
                  (k', Some e) \<Rightarrow> (k', Some (OwnErr e))
                | (k', None) \<Rightarrow>
                    kCreate (he_hpas H) (new_obj ns (hp_Name h)
                      \<lparr>hb_Labels = [(hp_ScaleTargetKind h, hp_ScaleTargetName h)], hb_Spec = spec, hb_CurrentReplicas = 0, hb_DesiredReplicas = 0,
                       hb_CurrentMetrics = []\<rparr>) k'))
      in case (case kList (he_hpas H) ns k of Inl e \<Rightarrow> if IsNotFound e then Inr [] else Inl e | Inr items \<Rightarrow> Inr items) of
           Inl e \<Rightarrow> (k, Some (OwnErr (''list horizontalpodautoscalers failed:'' @ k8s_text e)))
         | Inr items \<Rightarrow>
             (case taken items of
                Some i \<Rightarrow> (k, Some (OwnErr (''duplicate horizontalpodautoscaler '' @ ko_name i @ '' for '' @ hs_TargetKind (hb_Spec (ko_body i)) @ ''/''
                    @ hs_TargetName (hb_Spec (ko_body i)))))
              | None \<Rightarrow> make))"

definition updateHPA :: "('k, 'q) hpa_env \<Rightarrow> string \<Rightarrow> hpa \<Rightarrow> 'k \<Rightarrow> 'k \<times> k8s_err option" where
  "updateHPA H ns h k =
     (case kGet (he_hpas H) ns (hp_ID h) k of
        Inl e \<Rightarrow> (k, Some e)
      | Inr obj \<Rightarrow>
          (case scHPAToK8sHPASpec H ns h of
             Inl e \<Rightarrow> (k, Some (OwnErr e))
           | Inr (spec, newRules) \<Rightarrow>
               (case updatePrometheusAdapterConfigMap H (getOldRules (hs_Metrics (hb_Spec (ko_body obj)))) newRules k of
                  (k', Some e) \<Rightarrow> (k', Some (OwnErr e))
                | (k', None) \<Rightarrow> kUpdate (he_hpas H) (obj\<lparr>ko_body := (ko_body obj)\<lparr>hb_Spec := spec\<rparr>\<rparr>) k')))"

definition updatePrometheusAdapterCMAndDeleteHPA :: "('k, 'q) hpa_env \<Rightarrow> 'q hpa_body k8s_obj \<Rightarrow> 'k \<Rightarrow> 'k \<times> k8s_err option" where
  "updatePrometheusAdapterCMAndDeleteHPA H obj k =
     (case updatePrometheusAdapterConfigMap H (getOldRules (hs_Metrics (hb_Spec (ko_body obj)))) [] k of
        (k', Some e) \<Rightarrow> (k', Some (OwnErr e))
      | (k', None) \<Rightarrow> kDelete (he_hpas H) (ko_namespace obj) (ko_name obj) k')"

definition deleteHPA :: "('k, 'q) hpa_env \<Rightarrow> string \<Rightarrow> string \<Rightarrow> 'k \<Rightarrow> 'k \<times> k8s_err option" where
  "deleteHPA H ns name k =
     (case kGet (he_hpas H) ns name k of Inl e \<Rightarrow> (k, Some e) | Inr obj \<Rightarrow> updatePrometheusAdapterCMAndDeleteHPA H obj k)"

definition getHPAByWorkload :: "('k, 'q) hpa_env \<Rightarrow> string \<Rightarrow> string \<Rightarrow> string \<Rightarrow> 'k \<Rightarrow> k8s_err + 'q hpa_body k8s_obj option" where
  "getHPAByWorkload H ns workloadType workloadName k =
     (case we_selector (he_W H) (LabelSelector [(workloadType, workloadName)] []) of
        Inl e \<Rightarrow> Inl (OwnErr e)
      | Inr matches \<Rightarrow>
          (case list_matching (he_hpas H) hb_Labels matches ns k of
             Inl e \<Rightarrow> if IsNotFound e then Inr None else Inl e
           | Inr items \<Rightarrow>
               Inr (List.find (\<lambda>i. hs_TargetKind (hb_Spec (ko_body i)) = workloadType \<and> hs_TargetName (hb_Spec (ko_body i)) = workloadName) items)))"

text \<open>What happens when a deployment or stateful set was deleted; an error is only logged.\<close>

definition deleteHPAWhenDeleteWorkload :: "('k, 'q) hpa_env \<Rightarrow> string \<Rightarrow> string \<Rightarrow> string \<Rightarrow> string \<Rightarrow> 'k kubes \<Rightarrow> 'k kubes \<times> goerr option" where
  "deleteHPAWhenDeleteWorkload H cluster ns workloadType workloadName ks =
     (case ks cluster of
        None \<Rightarrow> (ks, Some ''no found cluster'')
      | Some k \<Rightarrow>
          (case getHPAByWorkload H ns workloadType workloadName k of
             Inl e \<Rightarrow> (ks, Some (''get hpa with namespace '' @ ns @ '' failed: '' @ k8s_text e))
           | Inr None \<Rightarrow> (ks, None)
           | Inr (Some obj) \<Rightarrow>
               (let (k', r) = updatePrometheusAdapterCMAndDeleteHPA H obj k in (ks(cluster \<mapsto> k'), map_option k8s_text r))))"

definition hpa_Create :: "('k, 'q) hpa_env \<Rightarrow> hpa sub_ctx \<Rightarrow> 'k kubes \<Rightarrow> 'k kubes \<times> (api_error + hpa)" where
  "hpa_Create H ctx = on_cluster ctx (\<lambda>k.
     let h = sx_resource ctx
     in answer (\<lambda>e. if IsAlreadyExists e then APIError DuplicateResource (''duplicate hpa name '' @ hp_Name h)
                    else APIError ConnectClusterFailed (''create hpa '' @ hp_Name h @ '' failed '' @ k8s_text e))
          (h\<lparr>hp_ID := hp_Name h\<rparr>) (createHPA H (sx_namespace ctx) h k))"

definition hpa_Update :: "('k, 'q) hpa_env \<Rightarrow> hpa sub_ctx \<Rightarrow> 'k kubes \<Rightarrow> 'k kubes \<times> (api_error + hpa)" where
  "hpa_Update H ctx = on_cluster ctx (\<lambda>k.
     let h = sx_resource ctx
     in answer (\<lambda>e. if IsNotFound e then APIError NotFound (''no found hpa '' @ hp_ID h)
                    else APIError ConnectClusterFailed (''update hpa '' @ hp_ID h @ '' failed '' @ k8s_text e))
          h (updateHPA H (sx_namespace ctx) h k))"

definition hpa_Delete :: "('k, 'q) hpa_env \<Rightarrow> hpa sub_ctx \<Rightarrow> 'k kubes \<Rightarrow> 'k kubes \<times> (api_error + unit)" where
  "hpa_Delete H ctx = on_cluster ctx (\<lambda>k.
     let name = hp_ID (sx_resource ctx)
     in answer (\<lambda>e. if IsNotFound e then APIError NotFound (''no found hpa '' @ name)
                    else APIError ServerError (''delete hpa '' @ name @ '' failed '' @ k8s_text e))
          () (deleteHPA H (sx_namespace ctx) name k))"

section \<open>Showing an autoscaler\<close>

definition k8sMetricSpecToScResourceMetricSpec :: "('k, 'q) hpa_env \<Rightarrow> string \<Rightarrow> 'q metric_target \<Rightarrow> resource_metric" where
  "k8sMetricSpecToScResourceMetricSpec H name target =
     \<lparr>rm_ResourceName = name, rm_TargetType = '''',
      rm_AverageValue = (case tg_AverageValue target of
          None \<Rightarrow> ''''
        | Some q \<Rightarrow> if name = ''cpu'' then itoa (he_milli H q) else if name = ''memory'' then itoa (he_value H q) else ''''),
      rm_AverageUtilization = (case tg_AverageUtilization target of None \<Rightarrow> 0 | Some u \<Rightarrow> u)\<rparr>"

text \<open>A metric without a selector is a nil pointer.\<close>

definition k8sMetricSpecToScCustomMetricSpec ::
  "('k, 'q) hpa_env \<Rightarrow> string \<Rightarrow> string \<Rightarrow> string \<Rightarrow> label_selector option \<Rightarrow> 'q metric_target \<Rightarrow> custom_metric outcome" where
  "k8sMetricSpecToScCustomMetricSpec H ns hpaName metricName selector target =
     (case selector of
        None \<Rightarrow> Panicked ''nil pointer dereference''
      | Some s \<Rightarrow>
          Done \<lparr>cu_MetricName = trimSuffix metricName (NameAs '''' (he_hash H (map_of (ls_MatchLabels s))) ns hpaName), cu_Labels = ls_MatchLabels s,
            cu_AverageValue = (case tg_AverageValue target of None \<Rightarrow> '''' | Some q \<Rightarrow> itoa (he_value H q))\<rparr>)"

fun shown_metrics :: "('k, 'q) hpa_env \<Rightarrow> bool \<Rightarrow> string \<Rightarrow> string \<Rightarrow> 'q metric_spec list \<Rightarrow> (resource_metric list \<times> custom_metric list) outcome" where
  "shown_metrics H typed ns name [] = Done ([], [])"
| "shown_metrics H typed ns name (OtherMetric # ms) = shown_metrics H typed ns name ms"
| "shown_metrics H typed ns name (ResourceMetric n t # ms) =
     (case shown_metrics H typed ns name ms of
        Panicked p \<Rightarrow> Panicked p
      | Done (rs, cs) \<Rightarrow> Done ((k8sMetricSpecToScResourceMetricSpec H n t)\<lparr>rm_TargetType := if typed then tg_Type t else ''''\<rparr> # rs, cs))"
| "shown_metrics H typed ns name (PodsMetric n s t # ms) =
     (case k8sMetricSpecToScCustomMetricSpec H ns name n s t of
        Panicked p \<Rightarrow> Panicked p
      | Done c \<Rightarrow> (case shown_metrics H typed ns name ms of Panicked p \<Rightarrow> Panicked p | Done (rs, cs) \<Rightarrow> Done (rs, c # cs)))"

definition k8sHpaToScHpa :: "('k, 'q) hpa_env \<Rightarrow> 'q hpa_body k8s_obj \<Rightarrow> hpa outcome" where
  "k8sHpaToScHpa H obj =
     (let b = ko_body obj; spec = hb_Spec b
      in case shown_metrics H True (ko_namespace obj) (ko_name obj) (hs_Metrics spec) of
           Panicked p \<Rightarrow> Panicked p
         | Done (rms, cms) \<Rightarrow>
             (case shown_metrics H False (ko_namespace obj) (ko_name obj) (hb_CurrentMetrics b) of
                Panicked p \<Rightarrow> Panicked p
              | Done (crms, ccms) \<Rightarrow>
                  Done \<lparr>hp_ID = ko_name obj, hp_CreationTimestamp = ko_creation obj, hp_DeletionTimestamp = ko_deletion obj, hp_Name = ko_name obj,
                    hp_ScaleTargetKind = hs_TargetKind spec, hp_ScaleTargetName = hs_TargetName spec,
                    hp_MinReplicas = (case hs_MinReplicas spec of None \<Rightarrow> 0 | Some n \<Rightarrow> n), hp_MaxReplicas = hs_MaxReplicas spec,
                    hp_ResourceMetrics = rms, hp_CustomMetrics = cms, hp_CurrentReplicas = hb_CurrentReplicas b, hp_DesiredReplicas = hb_DesiredReplicas b,
                    hp_CurrentMetrics = \<lparr>mt_ResourceMetrics = crms, mt_CustomMetrics = ccms\<rparr>\<rparr>))"

fun show_hpas :: "('k, 'q) hpa_env \<Rightarrow> 'q hpa_body k8s_obj list \<Rightarrow> hpa list outcome" where
  "show_hpas H [] = Done []"
| "show_hpas H (obj # objs) =
     (case k8sHpaToScHpa H obj of
        Panicked p \<Rightarrow> Panicked p
      | Done h \<Rightarrow> (case show_hpas H objs of Panicked p \<Rightarrow> Panicked p | Done hs \<Rightarrow> Done (h # hs)))"

definition hpa_List :: "('k, 'q) hpa_env \<Rightarrow> hpa sub_ctx \<Rightarrow> 'k kubes \<Rightarrow> (api_error + hpa list) outcome" where
  "hpa_List H ctx ks =
     (case ks (sx_cluster ctx) of
        None \<Rightarrow> Done (Inl no_cluster)
      | Some k \<Rightarrow>
          (case kList (he_hpas H) (sx_namespace ctx) k of
             Inl e \<Rightarrow> Done (Inl (if IsNotFound e then APIError NotFound ''no found hpas'' else APIError ServerError (''list hpas failed '' @ k8s_text e)))
           | Inr objs \<Rightarrow> (case show_hpas H objs of Panicked p \<Rightarrow> Panicked p | Done hs \<Rightarrow> Done (Inr hs))))"

definition hpa_Get :: "('k, 'q) hpa_env \<Rightarrow> hpa sub_ctx \<Rightarrow> 'k kubes \<Rightarrow> (api_error + hpa) outcome" where
  "hpa_Get H ctx ks =
     (let name = hp_ID (sx_resource ctx)
      in case ks (sx_cluster ctx) of
           None \<Rightarrow> Done (Inl no_cluster)
         | Some k \<Rightarrow>
             (case kGet (he_hpas H) (sx_namespace ctx) name k of
                Inl e \<Rightarrow> Done (Inl (if IsNotFound e then APIError NotFound (''no found hpa '' @ name)
                                   else APIError ServerError (''get hpa '' @ name @ '' failed:'' @ k8s_text e)))
              | Inr obj \<Rightarrow> (case k8sHpaToScHpa H obj of Panicked p \<Rightarrow> Panicked p | Done h \<Rightarrow> Done (Inr h))))"


section \<open>The rules follow the autoscalers\<close>

text \<open>The rules the adapter is configured with.\<close>

definition adapter_rules :: "('k, 'q) hpa_env \<Rightarrow> (string \<times> string \<rightharpoonup> pairs k8s_obj) \<Rightarrow> rule list option" where
  "adapter_rules H cms =
     (case cms (PrometheusAdapterNamespace, PrometheusAdapter) of
        None \<Rightarrow> None
      | Some cm \<Rightarrow>
          (case map_of (ko_body cm) PrometheusAdapterConfigMapDataKey of
             None \<Rightarrow> None
           | Some raw \<Rightarrow> (case he_unmarshal H raw of Inl e \<Rightarrow> None | Inr rules \<Rightarrow> Some rules)))"

text \<open>The names of the rules the autoscalers need, each as often as it is needed.\<close>

definition needed :: "(string \<times> string \<rightharpoonup> 'q hpa_body k8s_obj) \<Rightarrow> string \<times> string \<Rightarrow> string multiset" where
  "needed hpas key = (case hpas key of None \<Rightarrow> {#} | Some obj \<Rightarrow> mset (getOldRules (hs_Metrics (hb_Spec (ko_body obj)))))"

definition all_needed :: "(string \<times> string \<rightharpoonup> 'q hpa_body k8s_obj) \<Rightarrow> string multiset" where
  "all_needed hpas = (\<Sum>key \<in> dom hpas. needed hpas key)"

definition in_step ::
  "('k, 'q) hpa_env \<Rightarrow> string multiset \<Rightarrow> (string \<times> string \<rightharpoonup> 'q hpa_body k8s_obj) \<Rightarrow> (string \<times> string \<rightharpoonup> pairs k8s_obj) \<Rightarrow> bool" where
  "in_step H base hpas cms \<longleftrightarrow>
     finite (dom hpas) \<and> (\<exists>rules. adapter_rules H cms = Some rules \<and> mset (map ru_As rules) = base + all_needed hpas)"

lemma all_needed_upd:
  assumes "finite (dom hpas)"
  shows "all_needed (hpas(key := v)) + needed hpas key = all_needed hpas + needed (hpas(key := v)) key"
proof -
  let ?S = "insert key (dom hpas)"
  have ext: "all_needed m = (\<Sum>x \<in> ?S. needed m x)" if "dom m \<subseteq> ?S" for m
  proof -
    have "\<forall>x \<in> ?S - dom m. needed m x = {#}" by (simp add: needed_def domIff)
    then show ?thesis unfolding all_needed_def using that assms by (intro sum.mono_neutral_left) simp_all
  qed
  have split: "(\<Sum>x \<in> ?S. needed m x) = needed m key + (\<Sum>x \<in> dom hpas - {key}. needed m x)" for m
    using assms by (subst sum.insert_remove) auto
  have rest: "(\<Sum>x \<in> dom hpas - {key}. needed (hpas(key := v)) x) = (\<Sum>x \<in> dom hpas - {key}. needed hpas x)"
    by (rule sum.cong) (auto simp: needed_def)
  have "dom (hpas(key := v)) \<subseteq> ?S" "dom hpas \<subseteq> ?S" by (auto split: if_splits)
  then show ?thesis using rest by (simp only: ext split) (simp add: ac_simps)
qed

lemma drop_rules_mset: "drop_rules ns rules = Inr rules' \<Longrightarrow> mset (map ru_As rules) = mset ns + mset (map ru_As rules')"
proof (induction ns arbitrary: rules)
  case (Cons n ns)
  have r: "list_ex (\<lambda>r. ru_As r = n) rules \<Longrightarrow> mset (map ru_As rules) = add_mset n (mset (map ru_As (remove_first (\<lambda>r. ru_As r = n) rules)))" for rules
    by (induction rules) auto
  from Cons.prems have "list_ex (\<lambda>r. ru_As r = n) rules" "drop_rules ns (remove_first (\<lambda>r. ru_As r = n) rules) = Inr rules'" by (auto split: if_splits)
  with r [of rules] Cons.IH show ?case by simp
qed simp

lemma add_rules_append: "add_rules news rules = Inr rules' \<Longrightarrow> rules' = rules @ news"
proof (induction news arbitrary: rules)
  case (Cons new news)
  then have "add_rules news (rules @ [new]) = Inr rules'" by (auto split: if_splits)
  from Cons.IH [OF this] show ?case by simp
qed simp

lemma resource_specs_rules: "resource_specs H ms = Inr specs \<Longrightarrow> getOldRules specs = []"
  by (induction ms arbitrary: specs)
    (auto simp: getOldRules_def scResourceMetricSpecToK8sMetricSpec_def map_sum_Inr_iff split: sum.splits)

lemma custom_specs_rules: "custom_specs H ns name ms = Inr cms \<Longrightarrow> getOldRules (map fst cms) = map (ru_As \<circ> snd) cms"
  by (induction ms arbitrary: cms)
    (auto simp: getOldRules_def scCustomMetricSpecToK8sMetricSpec_def genPrometheusAdapterConfigMapRule_def map_sum_Inr_iff Let_def split: sum.splits)

lemma spec_rules: "scHPAToK8sHPASpec H ns h = Inr (spec, rules) \<Longrightarrow> getOldRules (hs_Metrics spec) = map ru_As rules"
  using resource_specs_rules [of H "hp_ResourceMetrics h"] custom_specs_rules [of H ns "hp_Name h" "hp_CustomMetrics h"]
  by (auto simp: scHPAToK8sHPASpec_def getOldRules_def split: sum.splits)

text \<open>
  What the handlers rely on: the laws of the server for autoscalers and configuration maps, that an
  autoscaler is removed at once, that the kinds of object do not interfere, and the codec.
\<close>

locale hpa_server = hpas: kube_live "he_hpas H" hview hb_Spec + cms: kube_live "he_cms H" cview map_of
  for H :: "('k, 'q) hpa_env" and hview and cview +
  assumes delete_removes: "kDelete (he_hpas H) ns n k = (k', None) \<Longrightarrow> hview k' = (hview k)((ns, n) := None)"
    and hpas_apart: "cview (fst (kCreate (he_hpas H) obj k)) = cview k" "cview (fst (kUpdate (he_hpas H) obj k)) = cview k"
      "cview (fst (kDelete (he_hpas H) ns n k)) = cview k"
    and cms_apart: "hview (fst (kUpdate (he_cms H) cm k)) = hview k"
    and pods_apart: "hview (fst (kDelete (we_pods (he_W H)) ns n k)) = hview k" "cview (fst (kDelete (we_pods (he_W H)) ns n k)) = cview k"
    and codec: "he_marshal H rules = Inr s \<Longrightarrow> he_unmarshal H s = Inr rules"
begin

lemma delete_pods_keeps: "delete_pods H ps k = (k', r) \<Longrightarrow> hview k' = hview k \<and> cview k' = cview k"
proof (induction ps arbitrary: k)
  case (Cons p ps)
  obtain k1 e where d: "kDelete (we_pods (he_W H)) PrometheusAdapterNamespace (ko_name p) k = (k1, e)" by force
  have "hview k1 = hview k" "cview k1 = cview k" using pods_apart [of PrometheusAdapterNamespace "ko_name p" k] d by simp_all
  with Cons d show ?case by (cases e) auto
qed simp

lemma restart_keeps: "restart_adapter H k = (k', r) \<Longrightarrow> hview k' = hview k \<and> cview k' = cview k"
  by (auto simp: restart_adapter_def dest: delete_pods_keeps split: sum.splits)

lemma adapter_rules_get:
  assumes "kGet (he_cms H) PrometheusAdapterNamespace PrometheusAdapter k = Inr cm" "map_of (ko_body cm) PrometheusAdapterConfigMapDataKey = Some raw"
    "he_unmarshal H raw = Inr rules"
  shows "adapter_rules H (cview k) = Some rules"
  using cms.get_view [OF assms(1)] assms by (simp add: adapter_rules_def)

lemma adapter_rules_update:
  assumes "kGet (he_cms H) PrometheusAdapterNamespace PrometheusAdapter k = Inr cm" "he_marshal H rules = Inr data"
    "kUpdate (he_cms H) (cm\<lparr>ko_body := AList.update PrometheusAdapterConfigMapDataKey data (ko_body cm)\<rparr>) k = (k', None)"
  shows "adapter_rules H (cview k') = Some rules"
proof -
  have key: "ko_key cm = (PrometheusAdapterNamespace, PrometheusAdapter)" using cms.view_key [OF cms.get_view [OF assms(1)]] .
  from cms.update_view [OF assms(3)] obtain obj' where "cview k' = (cview k)(ko_key cm \<mapsto> obj')"
    "map_of (ko_body obj') = map_of (AList.update PrometheusAdapterConfigMapDataKey data (ko_body cm))" by auto
  with key codec [OF assms(2)] show ?thesis by (simp add: adapter_rules_def AList.update_conv')
qed

lemma updateConfigMap_effect:
  assumes "updatePrometheusAdapterConfigMap H old new k = (k', r)"
  shows "hview k' = hview k \<and>
    ((cview k' = cview k \<and> (r = None \<longrightarrow> old = [] \<and> new = []))
     \<or> ((old \<noteq> [] \<or> new \<noteq> []) \<and> (\<exists>rules rules1. adapter_rules H (cview k) = Some rules \<and> drop_rules old rules = Inr rules1
          \<and> add_rules new rules1 = Inr (rules1 @ new) \<and> adapter_rules H (cview k') = Some (rules1 @ new))))"
proof (cases "\<exists>cm raw rules rules1 rules2 data. (old \<noteq> [] \<or> new \<noteq> []) \<and> kGet (he_cms H) PrometheusAdapterNamespace PrometheusAdapter k = Inr cm
    \<and> map_of (ko_body cm) PrometheusAdapterConfigMapDataKey = Some raw \<and> he_unmarshal H raw = Inr rules \<and> drop_rules old rules = Inr rules1
    \<and> add_rules new rules1 = Inr rules2 \<and> he_marshal H rules2 = Inr data")
  case False
  with assms have "k' = k \<and> (r = None \<longrightarrow> old = [] \<and> new = [])"
    by (auto simp: updatePrometheusAdapterConfigMap_def split: if_splits sum.splits option.splits)
  then show ?thesis by simp
next
  case True
  then obtain cm raw rules rules1 rules2 data where c: "old \<noteq> [] \<or> new \<noteq> []" "kGet (he_cms H) PrometheusAdapterNamespace PrometheusAdapter k = Inr cm"
    "map_of (ko_body cm) PrometheusAdapterConfigMapDataKey = Some raw" "he_unmarshal H raw = Inr rules" "drop_rules old rules = Inr rules1"
    "add_rules new rules1 = Inr rules2" "he_marshal H rules2 = Inr data" by blast
  let ?cm = "cm\<lparr>ko_body := AList.update PrometheusAdapterConfigMapDataKey data (ko_body cm)\<rparr>"
  obtain k1 e where u: "kUpdate (he_cms H) ?cm k = (k1, e)" by force
  have h1: "hview k1 = hview k" using cms_apart [of ?cm k] u by simp
  show ?thesis
  proof (cases e)
    case (Some msg)
    with c u assms have "k' = k1" "r \<noteq> None" by (auto simp: updatePrometheusAdapterConfigMap_def)
    with cms.update_err [of ?cm k k1 msg] u Some h1 show ?thesis by auto
  next
    case None
    with c u assms have "restart_adapter H k1 = (k', r)" by (auto simp: updatePrometheusAdapterConfigMap_def)
    from restart_keeps [OF this] adapter_rules_update [OF c(2,7)] u None h1 have "hview k' = hview k" "adapter_rules H (cview k') = Some rules2" by auto
    with c add_rules_append [OF c(6)] adapter_rules_get [OF c(2-4)] show ?thesis by simp
  qed
qed

end

context hpa_server
begin

lemma in_step_change:
  assumes "in_step H base (hview k) (cview k)" "updatePrometheusAdapterConfigMap H old new k = (k1, None)" "needed (hview k) key = mset old"
    and "hview k2 = (hview k1)(key := v)" "cview k2 = cview k1" "needed (hview k2) key = mset (map ru_As new)"
  shows "in_step H base (hview k2) (cview k2)"
proof -
  note eff = updateConfigMap_effect [OF assms(2)]
  have h: "hview k2 = (hview k)(key := v)" using eff assms(4) by simp
  from assms(1) obtain rules where fin: "finite (dom (hview k))" and rules: "adapter_rules H (cview k) = Some rules"
    "mset (map ru_As rules) = base + all_needed (hview k)" by (auto simp: in_step_def)
  have fin2: "finite (dom (hview k2))" using fin h by simp
  have upd: "all_needed (hview k2) + mset old = all_needed (hview k) + mset (map ru_As new)"
    using all_needed_upd [OF fin, of key v] assms(3,6) h by simp
  from eff consider "cview k1 = cview k" "old = []" "new = []"
    | rules1 where "drop_rules old rules = Inr rules1" "adapter_rules H (cview k1) = Some (rules1 @ new)"
    using rules(1) by auto
  then show ?thesis
  proof cases
    case 1
    with rules upd assms(5) fin2 show ?thesis by (auto simp: in_step_def)
  next
    case 2
    have "mset (map ru_As (rules1 @ new)) + mset old = (base + all_needed (hview k2)) + mset old"
      using drop_rules_mset [OF 2(1)] rules(2) upd by (simp add: ac_simps)
    then have "mset (map ru_As (rules1 @ new)) = base + all_needed (hview k2)" by (rule add_right_imp_eq)
    with 2(2) assms(5) fin2 show ?thesis by (auto simp: in_step_def)
  qed
qed

lemma needed_view: "hview k key = Some obj \<Longrightarrow> needed (hview k) key = mset (getOldRules (hs_Metrics (hb_Spec (ko_body obj))))"
  by (simp add: needed_def)

lemma createHPA_in_step:
  assumes "in_step H base (hview k) (cview k)" "createHPA H ns h k = (k', None)"
  shows "in_step H base (hview k') (cview k')"
proof -
  from assms(2) obtain spec rules k1 body where s: "scHPAToK8sHPASpec H ns h = Inr (spec, rules)" "updatePrometheusAdapterConfigMap H [] rules k = (k1, None)"
    "kCreate (he_hpas H) (new_obj ns (hp_Name h) body) k1 = (k', None)" "hb_Spec body = spec"
    by (auto simp: createHPA_def Let_def split: sum.splits if_splits option.splits prod.splits)
  have h1: "hview k1 = hview k" using updateConfigMap_effect [OF s(2)] by simp
  from hpas.create_view [OF s(3)] h1 s(4) obtain obj where o: "hview k (ns, hp_Name h) = None" "hview k' = (hview k1)((ns, hp_Name h) \<mapsto> obj)" "hb_Spec (ko_body obj) = spec"
    by (auto simp: new_obj_def)
  have "cview k' = cview k1" using hpas_apart(1) [of "new_obj ns (hp_Name h) body" k1] s(3) by simp
  from in_step_change [OF assms(1) s(2) _ o(2) this] o spec_rules [OF s(1)] show ?thesis by (simp add: needed_def)
qed

lemma updateHPA_in_step:
  assumes "in_step H base (hview k) (cview k)" "updateHPA H ns h k = (k', None)"
  shows "in_step H base (hview k') (cview k')"
proof -
  from assms(2) obtain obj spec rules k1 where s: "kGet (he_hpas H) ns (hp_ID h) k = Inr obj" "scHPAToK8sHPASpec H ns h = Inr (spec, rules)"
    "updatePrometheusAdapterConfigMap H (getOldRules (hs_Metrics (hb_Spec (ko_body obj)))) rules k = (k1, None)"
    "kUpdate (he_hpas H) (obj\<lparr>ko_body := (ko_body obj)\<lparr>hb_Spec := spec\<rparr>\<rparr>) k1 = (k', None)"
    by (auto simp: updateHPA_def split: sum.splits option.splits prod.splits)
  have v: "hview k (ns, hp_ID h) = Some obj" by (rule hpas.get_view [OF s(1)])
  have key: "ko_key obj = (ns, hp_ID h)" by (rule hpas.view_key [OF v])
  from hpas.update_view [OF s(4)] key obtain obj' where o: "hview k' = (hview k1)((ns, hp_ID h) \<mapsto> obj')" "hb_Spec (ko_body obj') = spec" by auto
  have "cview k' = cview k1" using hpas_apart(2) [of "obj\<lparr>ko_body := (ko_body obj)\<lparr>hb_Spec := spec\<rparr>\<rparr>" k1] s(4) by simp
  from in_step_change [OF assms(1) s(3) needed_view [OF v] o(1) this] o spec_rules [OF s(2)] show ?thesis by (simp add: needed_def)
qed

lemma removeHPA_in_step:
  assumes "in_step H base (hview k) (cview k)" "hview k (ns, n) = Some obj" "updatePrometheusAdapterCMAndDeleteHPA H obj k = (k', None)"
  shows "in_step H base (hview k') (cview k')"
proof -
  from assms(3) hpas.view_key [OF assms(2)] obtain k1 where s: "updatePrometheusAdapterConfigMap H (getOldRules (hs_Metrics (hb_Spec (ko_body obj)))) [] k = (k1, None)"
    "kDelete (he_hpas H) ns n k1 = (k', None)" by (auto simp: updatePrometheusAdapterCMAndDeleteHPA_def split: prod.splits option.splits)
  have "cview k' = cview k1" using hpas_apart(3) [of ns n k1] s(2) by simp
  from in_step_change [OF assms(1) s(1) needed_view [OF assms(2)] delete_removes [OF s(2)] this] delete_removes [OF s(2)] show ?thesis
    by (simp add: needed_def)
qed

lemma getHPAByWorkload_view:
  assumes "getHPAByWorkload H ns kind name k = Inr (Some obj)"
  shows "hview k (ns, ko_name obj) = Some obj"
proof -
  from assms obtain items where "kList (he_hpas H) ns k = Inr items" "obj \<in> set items"
    by (auto simp: getHPAByWorkload_def list_matching_def map_sum_Inr_iff split: sum.splits if_splits dest: find_Some_in)
  then obtain n where "hview k (ns, n) = Some obj" using hpas.list_view by blast
  then show ?thesis using hpas.view_key by fastforce
qed

end

text \<open>
  C16. The rules of the adapter stay in step with the autoscalers: besides those that were there before,
  there is exactly one for every custom metric of every autoscaler. Creating, changing and deleting an
  autoscaler keep it so whenever they succeed, and so does the deletion of a workload.
\<close>

theorem hpa_rules_in_step:
  assumes "hpa_server H hview cview" "in_step H base (hview k) (cview k)"
  shows "(createHPA H ns h k = (k', None) \<longrightarrow> in_step H base (hview k') (cview k'))
    \<and> (updateHPA H ns h k = (k', None) \<longrightarrow> in_step H base (hview k') (cview k'))
    \<and> (deleteHPA H ns name k = (k', None) \<longrightarrow> in_step H base (hview k') (cview k'))
    \<and> (deleteHPAWhenDeleteWorkload H c ns kind name [c \<mapsto> k] = ([c \<mapsto> k'], None) \<longrightarrow> in_step H base (hview k') (cview k'))"
proof (intro conjI impI)
  assume "createHPA H ns h k = (k', None)"
  then show "in_step H base (hview k') (cview k')" by (rule hpa_server.createHPA_in_step [OF assms])
next
  assume "updateHPA H ns h k = (k', None)"
  then show "in_step H base (hview k') (cview k')" by (rule hpa_server.updateHPA_in_step [OF assms])
next
  assume "deleteHPA H ns name k = (k', None)"
  then obtain obj where "kGet (he_hpas H) ns name k = Inr obj" and d: "updatePrometheusAdapterCMAndDeleteHPA H obj k = (k', None)"
    by (auto simp: deleteHPA_def split: sum.splits)
  then have "hview k (ns, name) = Some obj" using assms(1) by (auto simp: hpa_server_def kube_live_def dest: kube_laws.get_view)
  from hpa_server.removeHPA_in_step [OF assms this d] show "in_step H base (hview k') (cview k')" .
next
  assume d: "deleteHPAWhenDeleteWorkload H c ns kind name [c \<mapsto> k] = ([c \<mapsto> k'], None)"
  show "in_step H base (hview k') (cview k')"
  proof (cases "getHPAByWorkload H ns kind name k")
    case (Inl e)
    with d show ?thesis by (simp add: deleteHPAWhenDeleteWorkload_def)
  next
    case (Inr found)
    show ?thesis
    proof (cases found)
      case None
      with Inr d have "k' = k" by (simp add: deleteHPAWhenDeleteWorkload_def) (metis fun_upd_same option.inject)
      with assms(2) show ?thesis by simp
    next
      case (Some obj)
      with Inr d have "updatePrometheusAdapterCMAndDeleteHPA H obj k = (k', None)"
        by (cases "updatePrometheusAdapterCMAndDeleteHPA H obj k") (auto simp: deleteHPAWhenDeleteWorkload_def dest: fun_upd_eqD)
      from hpa_server.removeHPA_in_step [OF assms hpa_server.getHPAByWorkload_view [OF assms(1), OF Inr [unfolded Some]] this] show ?thesis .
    qed
  qed
qed


section \<open>Changes that stop half way\<close>

lemma add_rules_twice: "news \<noteq> [] \<Longrightarrow> \<exists>e. add_rules news (rules @ news) = Inl e"
  by (cases news) auto

context hpa_server
begin

text \<open>With rules that cannot be dropped or added the configuration is refused.\<close>

lemma updateConfigMap_refused:
  assumes "adapter_rules H (cview k) = Some rules" "old \<noteq> [] \<or> new \<noteq> []"
    and "\<And>rules1. drop_rules old rules = Inr rules1 \<Longrightarrow> \<exists>e. add_rules new rules1 = Inl e"
  shows "\<exists>e. updatePrometheusAdapterConfigMap H old new k = (k, Some e)"
proof -
  from assms(1) obtain cm raw where v: "cview k (PrometheusAdapterNamespace, PrometheusAdapter) = Some cm"
    "map_of (ko_body cm) PrometheusAdapterConfigMapDataKey = Some raw" "he_unmarshal H raw = Inr rules"
    by (auto simp: adapter_rules_def split: option.splits sum.splits)
  show ?thesis
  proof (cases "drop_rules old rules")
    case (Inl e)
    with v assms(2) cms.get_live [OF v(1)] show ?thesis by (auto simp: updatePrometheusAdapterConfigMap_def)
  next
    case (Inr rules1)
    with v assms(2) cms.get_live [OF v(1)] assms(3) [OF Inr] show ?thesis by (auto simp: updatePrometheusAdapterConfigMap_def)
  qed
qed

lemma createHPA_blocked:
  assumes "scHPAToK8sHPASpec H ns h = Inr (spec, news)" "news \<noteq> []" "adapter_rules H (cview k) = Some (rules @ news)"
  shows "\<exists>e. snd (createHPA H ns h k) = Some e"
proof -
  have "\<And>rules1. drop_rules [] (rules @ news) = Inr rules1 \<Longrightarrow> \<exists>e. add_rules news rules1 = Inl e" using add_rules_twice [OF assms(2)] by auto
  from updateConfigMap_refused [OF assms(3), of "[]" news, OF _ this] assms(2) obtain e where "updatePrometheusAdapterConfigMap H [] news k = (k, Some e)" by blast
  with assms(1) show ?thesis by (auto simp: createHPA_def Let_def split: sum.splits option.splits)
qed

lemma drop_rules_gone:
  assumes "distinct (map ru_As rules)" "drop_rules old rules = Inr rules1" "old \<noteq> []"
  shows "\<exists>e. drop_rules old rules1 = Inl e"
proof -
  obtain n ns where old: "old = n # ns" using assms(3) by (cases old) auto
  have "mset (map ru_As rules) = mset (old @ map ru_As rules1)" using drop_rules_mset [OF assms(2)] by simp
  then have "distinct (old @ map ru_As rules1)" using assms(1) mset_eq_imp_distinct_iff by blast
  then have "n \<notin> ru_As ` set rules1" using old by auto
  then show ?thesis using old by (auto simp: list_ex_iff)
qed

lemma removed_rules_block:
  assumes "distinct (map ru_As rules)" "drop_rules old rules = Inr rules1" "old \<noteq> []" "adapter_rules H (cview k) = Some rules1"
  shows "\<exists>e. updatePrometheusAdapterConfigMap H old new k = (k, Some e)"
  by (rule updateConfigMap_refused [OF assms(4)]) (use drop_rules_gone [OF assms(1-3)] assms(3) in auto)

end

text \<open>
  C40. A change of an autoscaler that fails after the rules of the adapter were written cannot be repeated.
  A creation leaves its rules behind without an autoscaler, and every further attempt is refused as long as
  they are there; after a deletion that failed like this every further deletion or change of the autoscaler
  is refused.
\<close>

theorem hpa_half_done_blocks:
  assumes "hpa_server H hview cview" "adapter_rules H (cview k) = Some rules" "distinct (map ru_As rules)"
    and "adapter_rules H (cview k') \<noteq> Some rules" "adapter_rules H (cview k2) = adapter_rules H (cview k')" "hview k2 = hview k'"
  shows "(createHPA H ns h k = (k', Some e) \<longrightarrow> hview k' = hview k \<and> (\<exists>e'. snd (createHPA H ns h k2) = Some e'))
    \<and> (deleteHPA H ns name k = (k', Some e) \<longrightarrow> hview k' = hview k \<and> (\<exists>e'. snd (deleteHPA H ns name k2) = Some e')
        \<and> (hp_ID h = name \<longrightarrow> (\<exists>e'. snd (updateHPA H ns h k2) = Some e')))"
proof (intro conjI impI)
  note effect = hpa_server.updateConfigMap_effect [OF assms(1)]
  have laws: "kube_live (he_hpas H) hview hb_Spec" using assms(1) by (simp add: hpa_server_def)
  have kl: "kube_laws (he_hpas H) hview hb_Spec" using laws by (simp add: kube_live_def)
  {
    assume c: "createHPA H ns h k = (k', Some e)"
    have "k' \<noteq> k" using assms(2,4) by auto
    with c obtain spec news k1 r where s: "scHPAToK8sHPASpec H ns h = Inr (spec, news)" "updatePrometheusAdapterConfigMap H [] news k = (k1, r)"
      and k1: "k' = k1 \<or> (\<exists>body e. kCreate (he_hpas H) body k1 = (k', Some e))"
      by (auto simp: createHPA_def Let_def split: sum.splits option.splits prod.splits if_splits)
    have same: "hview k' = hview k1" "cview k' = cview k1"
      using k1 kube_laws.create_err [OF kl] hpa_server.hpas_apart(1) [OF assms(1)] by (auto, metis fst_conv)
    with effect [OF s(2)] assms(2,4) have n: "news \<noteq> []" "adapter_rules H (cview k') = Some (rules @ news)" "hview k' = hview k" by auto
    with hpa_server.createHPA_blocked [OF assms(1) s(1) n(1)] assms(5) same
    show "hview k' = hview k" "\<exists>e'. snd (createHPA H ns h k2) = Some e'" by auto
  }
  {
    assume c: "deleteHPA H ns name k = (k', Some e)"
    have "k' \<noteq> k" using assms(2,4) by auto
    with c obtain obj where g: "kGet (he_hpas H) ns name k = Inr obj" and d: "updatePrometheusAdapterCMAndDeleteHPA H obj k = (k', Some e)"
      by (auto simp: deleteHPA_def split: sum.splits)
    let ?old = "getOldRules (hs_Metrics (hb_Spec (ko_body obj)))"
    from d obtain k1 r where s: "updatePrometheusAdapterConfigMap H ?old [] k = (k1, r)"
      and k1: "k' = k1 \<or> (\<exists>ns n e. kDelete (he_hpas H) ns n k1 = (k', Some e))"
      by (auto simp: updatePrometheusAdapterCMAndDeleteHPA_def split: prod.splits option.splits)
    have same: "hview k' = hview k1" "cview k' = cview k1"
      using k1 kube_laws.delete_err [OF kl] hpa_server.hpas_apart(3) [OF assms(1)] by (auto, metis fst_conv)
    with effect [OF s] assms(2,4) obtain rules1 where n: "?old \<noteq> []" "drop_rules ?old rules = Inr rules1" "adapter_rules H (cview k2) = Some rules1"
      and hv: "hview k' = hview k" using assms(5) by auto
    show "hview k' = hview k" by (rule hv)
    have "hview k2 (ns, name) = Some obj" using assms(6) hv kube_laws.get_view [OF kl, OF g] by simp
    then have g2: "kGet (he_hpas H) ns name k2 = Inr obj" by (rule kube_live.get_live [OF laws])
    from hpa_server.removed_rules_block [OF assms(1,3) n(2,1,3)] have blocked: "\<exists>e. updatePrometheusAdapterConfigMap H ?old new k2 = (k2, Some e)" for new .
    from blocked [of "[]"] g2 show "\<exists>e'. snd (deleteHPA H ns name k2) = Some e'"
      by (auto simp: deleteHPA_def updatePrometheusAdapterCMAndDeleteHPA_def)
    assume "hp_ID h = name"
    with g2 blocked show "\<exists>e'. snd (updateHPA H ns h k2) = Some e'"
      by (cases "scHPAToK8sHPASpec H ns h") (auto simp: updateHPA_def, metis (no_types, lifting) option.case(2) prod.case snd_conv)
  }
qed


section \<open>An in-memory server with autoscalers\<close>

definition lift_pods :: "('k \<Rightarrow> 'a) \<Rightarrow> ('a \<Rightarrow> 'k \<Rightarrow> 'k) \<Rightarrow> ('a, 'q) pod_env \<Rightarrow> ('k, 'q) pod_env" where
  "lift_pods get put P =
     \<lparr>pe_Q = pe_Q P, pe_claims = lift_api get put (pe_claims P), pe_pvs = lift_api get put (pe_pvs P), pe_classes = lift_api get put (pe_classes P),
      pe_cms = lift_api get put (pe_cms P), pe_secrets = lift_api get put (pe_secrets P), pe_hash = pe_hash P\<rparr>"

definition lift_patch :: "('k \<Rightarrow> 'a) \<Rightarrow> ('a \<Rightarrow> 'k \<Rightarrow> 'k) \<Rightarrow> ('a, 'q) patch_api \<Rightarrow> ('k, 'q) patch_api" where
  "lift_patch get put patch ns n p k = map_prod (\<lambda>a. put a k) (\<lambda>r. r) (patch ns n p (get k))"

definition lift_work :: "('k \<Rightarrow> 'a) \<Rightarrow> ('a \<Rightarrow> 'k \<Rightarrow> 'k) \<Rightarrow> ('a, 'q) work_env \<Rightarrow> ('k, 'q) work_env" where
  "lift_work get put W =
     \<lparr>we_P = lift_pods get put (we_P W), we_deploys = lift_api get put (we_deploys W), we_stss = lift_api get put (we_stss W),
      we_dss = lift_api get put (we_dss W), we_jobs = lift_api get put (we_jobs W), we_crons = lift_api get put (we_crons W),
      we_pods = lift_api get put (we_pods W), we_rss = lift_api get put (we_rss W), we_revisions = lift_api get put (we_revisions W),
      we_patchDeploy = lift_patch get put (we_patchDeploy W), we_patchSts = lift_patch get put (we_patchSts W), we_patchDs = lift_patch get put (we_patchDs W),
      we_selector = we_selector W, we_controllerUID = we_controllerUID W, we_errorText = we_errorText W, we_podState = we_podState W\<rparr>"

record mem_hpas =
  mh_work :: mem_work
  mh_hpas :: "nat hpa_body mem_kube"

text \<open>A codec for the configurations of the example: no rule, and the rule of one autoscaler.\<close>

definition sample_hpa :: hpa where
  "sample_hpa =
     \<lparr>hp_ID = ''auto'', hp_CreationTimestamp = 0, hp_DeletionTimestamp = None, hp_Name = ''auto'', hp_ScaleTargetKind = ''deployment'', hp_ScaleTargetName = ''web'',
      hp_MinReplicas = 1, hp_MaxReplicas = 5, hp_ResourceMetrics = [\<lparr>rm_ResourceName = ''cpu'', rm_TargetType = ''Utilization'', rm_AverageValue = '''',
        rm_AverageUtilization = 80\<rparr>], hp_CustomMetrics = [\<lparr>cu_MetricName = ''hits'', cu_Labels = [(''code'', ''200'')], cu_AverageValue = ''7''\<rparr>],
      hp_CurrentReplicas = 0, hp_DesiredReplicas = 0, hp_CurrentMetrics = \<lparr>mt_ResourceMetrics = [], mt_CustomMetrics = []\<rparr>\<rparr>"

definition sample_rule :: rule where
  "sample_rule =
     \<lparr>ru_SeriesQuery = ''{__name__=~'' @ dq @ ''hits'' @ dq @ '',kubernetes_pod_name!='' @ dq @ dq @ '',kubernetes_namespace='' @ dq @ ''default'' @ dq @ ''}'',
      ru_SeriesFilters = [], ru_Template = '''', ru_Overrides = DefaultRuleResources, ru_Matches = ''^hits$'', ru_As = ''hits_h_default_auto'',
      ru_MetricsQuery = ''sum(hits{code='' @ dq @ ''200'' @ dq @ ''}) by (<<.GroupBy>>)''\<rparr>"

definition mem_hpa_env :: "(mem_hpas, nat) hpa_env" where
  "mem_hpa_env =
     \<lparr>he_W = lift_work mh_work (\<lambda>a k. k\<lparr>mh_work := a\<rparr>) mem_work_env, he_hpas = lift_api mh_hpas (\<lambda>a k. k\<lparr>mh_hpas := a\<rparr>) mem_kube,
      he_unmarshal = (\<lambda>s. if s = ''none'' then Inr [] else if s = ''one'' then Inr [sample_rule] else Inl ''bad''),
      he_marshal = (\<lambda>rules. if rules = [] then Inr ''none'' else if rules = [sample_rule] then Inr ''one'' else Inl ''bad''),
      he_hash = (\<lambda>labels. ''h''), he_value = int, he_milli = (\<lambda>q. 1000 * int q)\<rparr>"

interpretation mem_hpas: hpa_server mem_hpa_env "\<lambda>k. mem_view (mh_hpas k)" "\<lambda>k. mem_view (mp_cms (mw_pods (mh_work k)))"
proof -
  have h: "kube_live (he_hpas mem_hpa_env) (\<lambda>k. mem_view (mh_hpas k)) hb_Spec"
    by (simp add: mem_hpa_env_def) (rule lift_api_live [OF mem_kube_kept], simp)
  have "kube_live (lift_api mp_cms (\<lambda>a k. k\<lparr>mp_cms := a\<rparr>) mem_kube) (\<lambda>k. mem_view (mp_cms k)) map_of"
    by (rule lift_api_live [OF mem_kube_kept]) simp
  then have "kube_live (lift_api mw_pods (\<lambda>a k. k\<lparr>mw_pods := a\<rparr>) (lift_api mp_cms (\<lambda>a k. k\<lparr>mp_cms := a\<rparr>) mem_kube)) (\<lambda>k. mem_view (mp_cms (mw_pods k))) map_of"
    by (rule lift_api_live) simp
  then have "kube_live (lift_api mh_work (\<lambda>a k. k\<lparr>mh_work := a\<rparr>) (lift_api mw_pods (\<lambda>a k. k\<lparr>mw_pods := a\<rparr>) (lift_api mp_cms (\<lambda>a k. k\<lparr>mp_cms := a\<rparr>) mem_kube)))
      (\<lambda>k. mem_view (mp_cms (mw_pods (mh_work k)))) map_of"
    by (rule lift_api_live) simp
  then have c: "kube_live (he_cms mem_hpa_env) (\<lambda>k. mem_view (mp_cms (mw_pods (mh_work k)))) map_of"
    by (simp add: mem_hpa_env_def lift_work_def lift_pods_def mem_work_env_def mem_work_P_def mem_pod_env_def)
  have "hpa_server_axioms mem_hpa_env (\<lambda>k. mem_view (mh_hpas k)) (\<lambda>k. mem_view (mp_cms (mw_pods (mh_work k))))"
  proof (unfold_locales, goal_cases)
    case (1 ns n k k')
    then show ?case by (auto simp: mem_hpa_env_def lift_api_fst mem_kube_def mem_view_delete split: option.splits)
  next
    case (8 rules s)
    then show ?case by (auto simp: mem_hpa_env_def split: if_splits)
  qed (simp_all add: mem_hpa_env_def lift_work_def lift_pods_def mem_work_env_def mem_work_P_def mem_pod_env_def lift_api_fst)
  with h c show "hpa_server mem_hpa_env (\<lambda>k. mem_view (mh_hpas k)) (\<lambda>k. mem_view (mp_cms (mw_pods (mh_work k))))"
    by (simp add: hpa_server_def)
qed

text \<open>A cluster with the configuration of the adapter; it runs the adapter or not.\<close>

definition adapter_deploy :: "nat deploy_body" where
  "adapter_deploy =
     \<lparr>ob_UID = ''u2'', ob_Meta = \<lparr>om_Options = None, om_Annotations = []\<rparr>, ob_Selector = Some (LabelSelector [(''app'', PrometheusAdapter)] []),
      ob_Template = \<lparr>pm_Meta = \<lparr>tp_Labels = [], tp_Annotations = []\<rparr>, pm_Spec = \<lparr>ps_Containers = [], ps_Volumes = []\<rparr>\<rparr>, ob_Conditions = [], db_Replicas = 1,
      db_Paused = False, db_ObservedGeneration = 1, db_StatusReplicas = 1, db_ReadyReplicas = 1, db_UpdatedReplicas = 1, db_UnavailableReplicas = 0\<rparr>"

definition adapter_server :: "bool \<Rightarrow> mem_hpas" where
  "adapter_server running =
     \<lparr>mh_work = \<lparr>mw_pods = taken_server\<lparr>mp_cms := [((PrometheusAdapterNamespace, PrometheusAdapter),
          new_obj PrometheusAdapterNamespace PrometheusAdapter [(PrometheusAdapterConfigMapDataKey, ''none'')])]\<rparr>,
        mw_deploys = (if running then [((PrometheusAdapterNamespace, PrometheusAdapter), new_obj PrometheusAdapterNamespace PrometheusAdapter adapter_deploy)] else []),
        mw_stss = [], mw_dss = [], mw_jobs = [], mw_crons = [], mw_podobjs = [], mw_rss = [], mw_revisions = []\<rparr>, mh_hpas = []\<rparr>"

lemma adapter_server_rules:
  "adapter_rules mem_hpa_env (mem_view (mp_cms (mw_pods (mh_work (adapter_server b))))) = Some []"
  "in_step mem_hpa_env {#} (mem_view (mh_hpas (adapter_server b))) (mem_view (mp_cms (mw_pods (mh_work (adapter_server b)))))"
proof -
  show r: "adapter_rules mem_hpa_env (mem_view (mp_cms (mw_pods (mh_work (adapter_server b))))) = Some []"
    by (simp add: adapter_rules_def adapter_server_def mem_view_def new_obj_def mem_hpa_env_def taken_server_def)
  have "mem_view (mh_hpas (adapter_server b)) = Map.empty" by (rule ext) (simp add: adapter_server_def mem_view_def)
  with r show "in_step mem_hpa_env {#} (mem_view (mh_hpas (adapter_server b))) (mem_view (mp_cms (mw_pods (mh_work (adapter_server b)))))"
    by (simp add: in_step_def all_needed_def)
qed

theorem hpa_rules_in_step_witness:
  "\<exists>k'. createHPA mem_hpa_env ''default'' sample_hpa (adapter_server True) = (k', None) \<and> mh_hpas k' \<noteq> []
    \<and> in_step mem_hpa_env {#} (mem_view (mh_hpas k')) (mem_view (mp_cms (mw_pods (mh_work k'))))"
proof -
  have "case createHPA mem_hpa_env ''default'' sample_hpa (adapter_server True) of (k', r) \<Rightarrow> r = None \<and> mh_hpas k' \<noteq> []" by code_simp
  then obtain k' where c: "createHPA mem_hpa_env ''default'' sample_hpa (adapter_server True) = (k', None)" "mh_hpas k' \<noteq> []" by auto
  from hpa_rules_in_step [OF mem_hpas.hpa_server_axioms, OF adapter_server_rules(2), THEN conjunct1, THEN mp, OF c(1)] c show ?thesis by blast
qed

theorem hpa_half_done_blocks_witness:
  "\<exists>k' e e'. createHPA mem_hpa_env ''default'' sample_hpa (adapter_server False) = (k', Some e)
    \<and> snd (createHPA mem_hpa_env ''default'' sample_hpa k') = Some e'"
proof -
  have "case createHPA mem_hpa_env ''default'' sample_hpa (adapter_server False) of (k', r) \<Rightarrow> r \<noteq> None
      \<and> (case adapter_rules mem_hpa_env (mem_view (mp_cms (mw_pods (mh_work k')))) of None \<Rightarrow> False | Some rules \<Rightarrow> rules = [sample_rule])" by code_simp
  then obtain k' e where c: "createHPA mem_hpa_env ''default'' sample_hpa (adapter_server False) = (k', Some e)"
    and r: "adapter_rules mem_hpa_env (mem_view (mp_cms (mw_pods (mh_work k')))) \<noteq> Some []" by (auto split: option.splits)
  from hpa_half_done_blocks [OF mem_hpas.hpa_server_axioms, OF adapter_server_rules(1) _ r refl refl, THEN conjunct1, THEN mp, OF _ c] c
  show ?thesis by auto
qed

end
