(* ===== verification/Ingress.thy ===== *)
theory Ingress
  imports PodTemplate GoNet "HOL-Library.Product_Lexorder"
begin

text \<open>
  How workloads are reached: services, HTTP ingresses and the table of UDP ingresses
  (\<^verbatim>\<open>service_manager.go\<close>, \<^verbatim>\<open>ingress_manager.go\<close>, \<^verbatim>\<open>udpingress_manager.go\<close> in
  \<^verbatim>\<open>pkg/handler\<close>). UDP ingresses are not objects of their own: each is an entry of a configuration
  map of the ingress controller, and the deletion of a namespace or service clears its entries
  through the event bus. The lemmas show what a client finds after it created a service or an
  ingress, that the entries of the UDP table stand for a map from ports to services, and that no
  entry of a deleted service is left.
\<close>

section \<open>Services\<close>

datatype int_or_string = IntPort int | StrPort string

fun IntValue :: "int_or_string \<Rightarrow> int" where
  "IntValue (IntPort i) = i"
| "IntValue (StrPort s) = atoi_value s"

record service_port =
  sp_Name :: string
  sp_Port :: int
  sp_TargetPort :: int_or_string
  sp_Protocol :: string
  sp_NodePort :: int

record service =
  sv_ID :: string
  sv_CreationTimestamp :: time
  sv_DeletionTimestamp :: "time option"
  sv_Name :: string
  sv_ServiceType :: string
  sv_Headless :: bool
  sv_ClusterIP :: string
  sv_ExposedPorts :: "service_port list"
  sv_LoadBalanceVIP :: string
  sv_LoadBalanceMethod :: string

record service_body =
  vb_Annotations :: pairs
  vb_Selector :: pairs
  vb_Ports :: "service_port list"
  vb_Type :: string
  vb_ClusterIP :: string

abbreviation NoneClusterIP :: string where "NoneClusterIP \<equiv> ''None''"
abbreviation ZcloudLBVIPAnnotationKey :: string where "ZcloudLBVIPAnnotationKey \<equiv> ''lb.zcloud.cn/vip''"
abbreviation ZcloudLBMethodAnnotationKey :: string where "ZcloudLBMethodAnnotationKey \<equiv> ''lb.zcloud.cn/method''"
abbreviation ZcloudDefaultLBMethod :: string where "ZcloudDefaultLBMethod \<equiv> ''rr''"

definition validateIfLoadBalancerService :: "service \<Rightarrow> goerr option" where
  "validateIfLoadBalancerService s =
     (if sv_ServiceType s \<noteq> ''loadbalancer'' then None
      else (case parseIP (sv_LoadBalanceVIP s) of
              None \<Rightarrow> Some ''svc LoadBalanceVIP must be an ipv4 address''
            | Some addr \<Rightarrow> if To4 addr = None then Some ''svc LoadBalanceVIP must be an ipv4 address'' else None))"

definition scServiceTypeToK8sServiceType :: "string \<Rightarrow> goerr + string" where
  "scServiceTypeToK8sServiceType typ =
     (if toLower typ = ''clusterip'' then Inr ''ClusterIP''
      else if toLower typ = ''nodeport'' then Inr ''NodePort''
      else if toLower typ = ''loadbalancer'' then Inr ''LoadBalancer''
      else Inl (''service type '' @ typ @ '' isn't supported''))"

fun service_ports :: "service_port list \<Rightarrow> goerr + service_port list" where
  "service_ports [] = Inr []"
| "service_ports (p # ps) =
     (case scPortProtocolToK8SProtocol (sp_Protocol p) of
        Inl e \<Rightarrow> Inl e
      | Inr protocol \<Rightarrow>
          map_sum (\<lambda>e. e) ((#) \<lparr>sp_Name = sp_Name p, sp_Port = int32 (sp_Port p), sp_TargetPort = sp_TargetPort p,
                               sp_Protocol = protocol, sp_NodePort = 0\<rparr>) (service_ports ps))"

definition scServiceToLBK8sServiceAnnotation :: "service \<Rightarrow> pairs" where
  "scServiceToLBK8sServiceAnnotation s =
     [(ZcloudLBVIPAnnotationKey, sv_LoadBalanceVIP s),
      (ZcloudLBMethodAnnotationKey, if sv_LoadBalanceMethod s \<noteq> '''' then sv_LoadBalanceMethod s else ZcloudDefaultLBMethod)]"

definition createService :: "('k, service_body) kube_api \<Rightarrow> string \<Rightarrow> service \<Rightarrow> 'k \<Rightarrow> 'k \<times> k8s_err option" where
  "createService K ns s k =
     (case scServiceTypeToK8sServiceType (sv_ServiceType s) of
        Inl e \<Rightarrow> (k, Some (OwnErr e))
      | Inr typ \<Rightarrow>
          (case service_ports (sv_ExposedPorts s) of
             Inl e \<Rightarrow> (k, Some (OwnErr e))
           | Inr ports \<Rightarrow>
               kCreate K (new_obj ns (sv_Name s)
                 \<lparr>vb_Annotations = (if typ = ''LoadBalancer'' then scServiceToLBK8sServiceAnnotation s else []),
                  vb_Selector = [(''app'', sv_Name s)], vb_Ports = ports, vb_Type = typ,
                  vb_ClusterIP = (if typ = ''ClusterIP'' \<and> sv_Headless s then NoneClusterIP else '''')\<rparr>) k))"

text \<open>A missing annotation is shown as the empty text; \<open>Headless\<close> is never shown.\<close>

definition k8sServiceToSCService :: "service_body k8s_obj \<Rightarrow> service" where
  "k8sServiceToSCService obj =
     (let b = ko_body obj; ann = (\<lambda>key. case map_of (vb_Annotations b) key of None \<Rightarrow> '''' | Some v \<Rightarrow> v)
      in \<lparr>sv_ID = ko_name obj, sv_CreationTimestamp = ko_creation obj, sv_DeletionTimestamp = ko_deletion obj, sv_Name = ko_name obj,
          sv_ServiceType = toLower (vb_Type b), sv_Headless = False, sv_ClusterIP = vb_ClusterIP b,
          sv_ExposedPorts = map (\<lambda>p. p\<lparr>sp_Protocol := toLower (sp_Protocol p)\<rparr>) (vb_Ports b),
          sv_LoadBalanceVIP = ann ZcloudLBVIPAnnotationKey, sv_LoadBalanceMethod = ann ZcloudLBMethodAnnotationKey\<rparr>)"

definition svc_Create :: "('k, service_body) kube_api \<Rightarrow> service sub_ctx \<Rightarrow> 'k kubes \<Rightarrow> 'k kubes \<times> (api_error + service)" where
  "svc_Create K ctx = on_cluster ctx (\<lambda>k.
     let s = sx_resource ctx
     in case validateIfLoadBalancerService s of
          Some e \<Rightarrow> (k, Inl (APIError PermissionDenied e))
        | None \<Rightarrow>
            answer (\<lambda>e. if IsAlreadyExists e then APIError DuplicateResource (''duplicate service name '' @ sv_Name s)
                        else APIError ConnectClusterFailed (''create service failed '' @ k8s_text e))
              (s\<lparr>sv_ID := sv_Name s\<rparr>) (createService K (sx_namespace ctx) s k))"

definition svc_List :: "('k, service_body) kube_api \<Rightarrow> service sub_ctx \<Rightarrow> 'k kubes \<Rightarrow> api_error + service list" where
  "svc_List K ctx = read_cluster ctx (\<lambda>k.
     case kList K (sx_namespace ctx) k of
       Inl e \<Rightarrow> Inl (if IsNotFound e then APIError NotFound ''no found services''
                    else APIError ServerError (''list services failed '' @ k8s_text e))
     | Inr objs \<Rightarrow> Inr (map k8sServiceToSCService objs))"

definition svc_Get :: "('k, service_body) kube_api \<Rightarrow> service sub_ctx \<Rightarrow> 'k kubes \<Rightarrow> api_error + service" where
  "svc_Get K ctx = read_cluster ctx (\<lambda>k.
     let name = sv_ID (sx_resource ctx)
     in case kGet K (sx_namespace ctx) name k of
          Inl e \<Rightarrow> Inl (if IsNotFound e then APIError NotFound (''no found service '' @ name)
                       else APIError ServerError (''get service '' @ name @ '' failed '' @ k8s_text e))
        | Inr obj \<Rightarrow> Inr (k8sServiceToSCService obj))"

text \<open>What the event bus tells its subscribers: the cluster, the namespace and, for a service, its name.\<close>

datatype deleted = DeletedNamespace string string | DeletedService string string string

definition svc_Delete ::
  "('k, service_body) kube_api \<Rightarrow> service sub_ctx \<Rightarrow> 'k kubes \<Rightarrow> ('k kubes \<times> (api_error + unit)) \<times> deleted list" where
  "svc_Delete K ctx ks =
     (let name = sv_ID (sx_resource ctx);
          r = on_cluster ctx (\<lambda>k.
            answer (\<lambda>e. if IsNotFound e then APIError NotFound (''no found service '' @ name)
                        else APIError ServerError (''delete service '' @ name @ '' failed '' @ k8s_text e))
              () (kDelete K (sx_namespace ctx) name k)) ks
      in (r, case snd r of Inl e \<Rightarrow> [] | Inr u \<Rightarrow> [DeletedService (sx_cluster ctx) (sx_namespace ctx) name]))"

section \<open>HTTP ingresses\<close>

record ingress_rule =
  ir_Host :: string
  ir_Path :: string
  ir_ServiceName :: string
  ir_ServicePort :: int

record ingress =
  in_ID :: string
  in_CreationTimestamp :: time
  in_DeletionTimestamp :: "time option"
  in_Name :: string
  in_Rules :: "ingress_rule list"
  in_MaxBodySize :: int
  in_MaxBodySizeUnit :: string

record http_path =
  ht_Path :: string
  ht_ServiceName :: string
  ht_ServicePort :: int_or_string

record http_rule =
  hr_Host :: string
  hr_HTTP :: "http_path list option"

record ingress_body =
  ib_Annotations :: pairs
  ib_Rules :: "http_rule list"

abbreviation NginxAffinity :: string where "NginxAffinity \<equiv> ''nginx.ingress.kubernetes.io/affinity''"
abbreviation NginxProxyBodySize :: string where "NginxProxyBodySize \<equiv> ''nginx.ingress.kubernetes.io/proxy-body-size''"

abbreviation rule_key :: "ingress_rule \<Rightarrow> string \<times> string" where
  "rule_key r \<equiv> (ir_Host r, ir_Path r)"

definition rule_Less :: "ingress_rule \<Rightarrow> ingress_rule \<Rightarrow> bool" where
  "rule_Less a b =
     (if ir_Host a \<noteq> ir_Host b then ir_Host a < ir_Host b
      else if ir_Path a \<noteq> ir_Path b then ir_Path a < ir_Path b
      else False)"

definition isIngressRuleEqual :: "ingress_rule \<Rightarrow> ingress_rule \<Rightarrow> bool" where
  "isIngressRuleEqual r1 r2 \<longleftrightarrow> ir_Host r1 = ir_Host r2 \<and> ir_Path r1 = ir_Path r2"

fun check_rules :: "ingress_rule list \<Rightarrow> goerr option" where
  "check_rules [] = None"
| "check_rules (r # rs) =
     (if rs \<noteq> [] \<and> isIngressRuleEqual r (hd rs) then Some ''has duplicate rule''
      else if ir_Host r = '''' then Some ''http ingress should have host''
      else if ir_Path r = '''' then Some ''tcp ingress with empty path''
      else check_rules rs)"

text \<open>
  \<open>sort.Sort\<close> orders the rules by \<open>Less\<close>, which compares host and path. The order it leaves rules with
  the same host and path in is not specified; \<open>check_rules\<close> refuses them all the same.
\<close>

definition validateAndSortRules :: "ingress_rule list \<Rightarrow> goerr + ingress_rule list" where
  "validateAndSortRules rules =
     (let sorted = sort_key rule_key rules
      in case check_rules sorted of Some e \<Rightarrow> Inl e | None \<Rightarrow> Inr sorted)"

definition add_http_rule :: "http_rule list \<Rightarrow> ingress_rule \<Rightarrow> http_rule list" where
  "add_http_rule httpRules r =
     (let path = \<lparr>ht_Path = ir_Path r, ht_ServiceName = ir_ServiceName r, ht_ServicePort = IntPort (int32 (ir_ServicePort r))\<rparr>
      in if httpRules \<noteq> [] \<and> ir_Host r = hr_Host (last httpRules)
         then butlast httpRules @ [(last httpRules)\<lparr>hr_HTTP := map_option (\<lambda>ps. ps @ [path]) (hr_HTTP (last httpRules))\<rparr>]
         else httpRules @ [\<lparr>hr_Host = ir_Host r, hr_HTTP = Some [path]\<rparr>])"

definition scIngressTok8sIngress :: "string \<Rightarrow> ingress \<Rightarrow> goerr + ingress_body k8s_obj" where
  "scIngressTok8sIngress ns i =
     map_sum (\<lambda>e. e)
       (\<lambda>rules. new_obj ns (in_Name i)
          \<lparr>ib_Annotations = (NginxAffinity, ''cookie'')
             # (if in_MaxBodySize i > 0 \<and> in_MaxBodySizeUnit i \<noteq> ''''
                then [(NginxProxyBodySize, itoa (in_MaxBodySize i) @ in_MaxBodySizeUnit i)] else []),
           ib_Rules = foldl add_http_rule [] rules\<rparr>)
       (validateAndSortRules (in_Rules i))"

definition createIngress :: "('k, ingress_body) kube_api \<Rightarrow> string \<Rightarrow> ingress \<Rightarrow> 'k \<Rightarrow> 'k \<times> k8s_err option" where
  "createIngress K ns i = crud_create K (scIngressTok8sIngress ns i)"

text \<open>A rule without an HTTP part, which only another client can have made, is a nil pointer.\<close>

fun shown_rules :: "http_rule list \<Rightarrow> ingress_rule list outcome" where
  "shown_rules [] = Done []"
| "shown_rules (r # rs) =
     (case hr_HTTP r of
        None \<Rightarrow> Panicked ''nil pointer dereference''
      | Some paths \<Rightarrow>
          (case shown_rules rs of
             Panicked p \<Rightarrow> Panicked p
           | Done rules \<Rightarrow>
               Done (map (\<lambda>p. \<lparr>ir_Host = hr_Host r, ir_Path = ht_Path p, ir_ServiceName = ht_ServiceName p,
                               ir_ServicePort = IntValue (ht_ServicePort p)\<rparr>) paths @ rules)))"

definition body_size :: "pairs \<Rightarrow> int \<times> string" where
  "body_size ann =
     (case map_of ann NginxProxyBodySize of
        None \<Rightarrow> (0, '''')
      | Some bss \<Rightarrow>
          if length bss > 1 then (case atoi (butlast bss) of None \<Rightarrow> 0 | Some bs \<Rightarrow> bs, [last bss]) else (0, ''''))"

definition k8sIngressToSCIngress :: "ingress_body k8s_obj \<Rightarrow> ingress outcome" where
  "k8sIngressToSCIngress obj =
     (case shown_rules (ib_Rules (ko_body obj)) of
        Panicked p \<Rightarrow> Panicked p
      | Done rules \<Rightarrow>
          Done \<lparr>in_ID = ko_name obj, in_CreationTimestamp = ko_creation obj, in_DeletionTimestamp = ko_deletion obj,
                in_Name = ko_name obj, in_Rules = rules, in_MaxBodySize = fst (body_size (ib_Annotations (ko_body obj))),
                in_MaxBodySizeUnit = snd (body_size (ib_Annotations (ko_body obj)))\<rparr>)"

abbreviation no_cluster_s :: api_error where "no_cluster_s \<equiv> APIError NotFound ''cluster s doesn't exist''"

definition in_Create :: "('k, ingress_body) kube_api \<Rightarrow> ingress sub_ctx \<Rightarrow> 'k kubes \<Rightarrow> 'k kubes \<times> (api_error + ingress)" where
  "in_Create K ctx ks =
     (if ks (sx_cluster ctx) = None then (ks, Inl no_cluster_s)
      else on_cluster ctx (\<lambda>k.
        let i = sx_resource ctx
        in answer (\<lambda>e. if IsAlreadyExists e then APIError DuplicateResource (''duplicate ingress name '' @ in_Name i)
                       else APIError ConnectClusterFailed (''create ingress failed '' @ k8s_text e))
             (case validateAndSortRules (in_Rules i) of Inl e \<Rightarrow> i | Inr rules \<Rightarrow> i\<lparr>in_Rules := rules, in_ID := in_Name i\<rparr>)
             (createIngress K (sx_namespace ctx) i k)) ks)"

fun show_ingresses :: "ingress_body k8s_obj list \<Rightarrow> ingress list outcome" where
  "show_ingresses [] = Done []"
| "show_ingresses (obj # objs) =
     (case k8sIngressToSCIngress obj of
        Panicked p \<Rightarrow> Panicked p
      | Done i \<Rightarrow> (case show_ingresses objs of Panicked p \<Rightarrow> Panicked p | Done ins \<Rightarrow> Done (i # ins)))"

definition in_List :: "('k, ingress_body) kube_api \<Rightarrow> ingress sub_ctx \<Rightarrow> 'k kubes \<Rightarrow> (api_error + ingress list) outcome" where
  "in_List K ctx ks =
     (case ks (sx_cluster ctx) of
        None \<Rightarrow> Done (Inl no_cluster)
      | Some k \<Rightarrow>
          (case kList K (sx_namespace ctx) k of
             Inl e \<Rightarrow> Done (Inl (if IsNotFound e then APIError NotFound ''no found ingressses''
                                else APIError ServerError (''list ingresses failed '' @ k8s_text e)))
           | Inr objs \<Rightarrow> (case show_ingresses objs of Panicked p \<Rightarrow> Panicked p | Done ins \<Rightarrow> Done (Inr ins))))"

definition in_Get :: "('k, ingress_body) kube_api \<Rightarrow> ingress sub_ctx \<Rightarrow> 'k kubes \<Rightarrow> (api_error + ingress) outcome" where
  "in_Get K ctx ks =
     (let name = in_ID (sx_resource ctx)
      in case ks (sx_cluster ctx) of
           None \<Rightarrow> Done (Inl no_cluster)
         | Some k \<Rightarrow>
             (case kGet K (sx_namespace ctx) name k of
                Inl e \<Rightarrow> Done (Inl (if IsNotFound e then APIError NotFound (''no found ingress '' @ name)
                                   else APIError ServerError (''get ingress '' @ name @ '' failed:'' @ k8s_text e)))
              | Inr obj \<Rightarrow> (case k8sIngressToSCIngress obj of Panicked p \<Rightarrow> Panicked p | Done i \<Rightarrow> Done (Inr i))))"

text \<open>Only the rules are replaced; the annotations, and so the body size, stay as they are.\<close>

definition in_Update :: "('k, ingress_body) kube_api \<Rightarrow> ingress sub_ctx \<Rightarrow> 'k kubes \<Rightarrow> 'k kubes \<times> (api_error + ingress)" where
  "in_Update K ctx = on_cluster ctx (\<lambda>k.
     let i = sx_resource ctx; name = in_ID i
     in case kGet K (sx_namespace ctx) name k of
          Inl e \<Rightarrow> (k, Inl (if IsNotFound e then APIError NotFound (''ingress '' @ name @ '' doesn't exist'')
                           else APIError ServerError (''get ingress '' @ name @ '' failed:'' @ k8s_text e)))
        | Inr obj \<Rightarrow>
            (case scIngressTok8sIngress (sx_namespace ctx) i of
               Inl e \<Rightarrow> (k, Inl (APIError ConnectClusterFailed (''update ingress failed '' @ e)))
             | Inr new \<Rightarrow>
                 answer (\<lambda>e. APIError ConnectClusterFailed (''update deployment failed '' @ k8s_text e))
                   (case validateAndSortRules (in_Rules i) of Inl e \<Rightarrow> i | Inr rules \<Rightarrow> i\<lparr>in_Rules := rules\<rparr>)
                   (kUpdate K (obj\<lparr>ko_body := (ko_body obj)\<lparr>ib_Rules := ib_Rules (ko_body new)\<rparr>\<rparr>) k)))"

definition in_Delete :: "('k, ingress_body) kube_api \<Rightarrow> ingress sub_ctx \<Rightarrow> 'k kubes \<Rightarrow> 'k kubes \<times> (api_error + unit)" where
  "in_Delete K ctx ks =
     (if ks (sx_cluster ctx) = None then (ks, Inl no_cluster_s)
      else on_cluster ctx (\<lambda>k.
        let name = in_ID (sx_resource ctx)
        in answer (\<lambda>e. if IsNotFound e then APIError NotFound ''ingress doesn't exist''
                       else APIError ServerError (''delete ingress '' @ name @ '' failed:'' @ k8s_text e))
             () (kDelete K (sx_namespace ctx) name k)) ks)"

section \<open>UDP ingresses\<close>

record udp_ingress =
  ui_ID :: string
  ui_Port :: int
  ui_ServiceName :: string
  ui_ServicePort :: int

abbreviation NginxIngressNamespace :: string where "NginxIngressNamespace \<equiv> ''ingress-nginx''"
abbreviation NginxUDPConfigMapName :: string where "NginxUDPConfigMapName \<equiv> ''udp-services''"

abbreviation udp_map_error :: "string \<Rightarrow> string \<Rightarrow> goerr" where
  "udp_map_error what bad \<equiv> ''nginx config map '' @ NginxUDPConfigMapName @ '' has '' @ what @ '' '' @ bad"

definition deleteTransportLayerIngress :: "('k, pairs) kube_api \<Rightarrow> string \<Rightarrow> 'k \<Rightarrow> 'k \<times> bool \<times> k8s_err option" where
  "deleteTransportLayerIngress K port k =
     (case kGet K NginxIngressNamespace NginxUDPConfigMapName k of
        Inl e \<Rightarrow> (k, False, Some e)
      | Inr obj \<Rightarrow>
          (let cm = k8sConfigMapToSCConfigMap obj
           in if list_ex (\<lambda>c. fst c = port) (cm_Configs cm)
              then (let (k', r) = updateConfigMap K NginxIngressNamespace
                                    (cm\<lparr>cm_Configs := remove_first (\<lambda>c. fst c = port) (cm_Configs cm)\<rparr>) k
                    in (k', True, r))
              else (k, False, None)))"

definition clearTransportLayerIngress :: "('k, pairs) kube_api \<Rightarrow> string \<Rightarrow> string \<Rightarrow> 'k \<Rightarrow> 'k \<times> k8s_err option" where
  "clearTransportLayerIngress K ns svcName k =
     (case kGet K NginxIngressNamespace NginxUDPConfigMapName k of
        Inl e \<Rightarrow> (k, Some e)
      | Inr obj \<Rightarrow>
          (let prefix = (if svcName \<noteq> '''' then ns @ ''/'' @ svcName @ '':'' else ns @ ''/'');
               cm = k8sConfigMapToSCConfigMap obj;
               newConfigs = filter (\<lambda>c. \<not> hasPrefix (snd c) prefix) (cm_Configs cm)
           in if length newConfigs \<noteq> length (cm_Configs cm)
              then updateConfigMap K NginxIngressNamespace (cm\<lparr>cm_Configs := newConfigs\<rparr>) k
              else (k, None)))"

fun udp_entries :: "string \<Rightarrow> string \<Rightarrow> pairs \<Rightarrow> goerr + udp_ingress list" where
  "udp_entries ns portStr [] = Inr []"
| "udp_entries ns portStr ((name, data) # cs) =
     (let serviceAndPort = split data '':''
      in if length serviceAndPort \<noteq> 2 then Inl (udp_map_error ''invalid ingress data'' data)
         else
           (case atoi name of
              None \<Rightarrow> Inl (udp_map_error ''invalid ingress port'' name)
            | Some port \<Rightarrow>
                if port = 0 then Inl (udp_map_error ''invalid ingress port'' name)
                else (let namespaceAndService = split (serviceAndPort ! 0) ''/''
                      in if length namespaceAndService \<noteq> 2 then Inl (udp_map_error ''invalid service format'' (serviceAndPort ! 0))
                         else if ns \<noteq> '''' \<and> namespaceAndService ! 0 \<noteq> ns then udp_entries ns portStr cs
                         else (case atoi (serviceAndPort ! 1) of
                                 None \<Rightarrow> Inl (udp_map_error ''invalid service port'' name)
                               | Some svcPort \<Rightarrow>
                                   if svcPort = 0 then Inl (udp_map_error ''invalid service port'' name)
                                   else if portStr \<noteq> '''' \<and> name \<noteq> portStr then udp_entries ns portStr cs
                                   else (let i = \<lparr>ui_ID = name, ui_Port = port, ui_ServiceName = namespaceAndService ! 1, ui_ServicePort = svcPort\<rparr>
                                         in if portStr \<noteq> '''' then Inr [i]
                                            else map_sum (\<lambda>e. e) ((#) i) (udp_entries ns portStr cs))))))"

definition getTransportLayerIngress :: "('k, pairs) kube_api \<Rightarrow> string \<Rightarrow> string \<Rightarrow> 'k \<Rightarrow> k8s_err + udp_ingress list" where
  "getTransportLayerIngress K ns portStr k =
     (case kGet K NginxIngressNamespace NginxUDPConfigMapName k of
        Inl e \<Rightarrow> Inl e
      | Inr obj \<Rightarrow> map_sum OwnErr (\<lambda>is. is) (udp_entries ns portStr (cm_Configs (k8sConfigMapToSCConfigMap obj))))"

fun udp_port_free :: "int \<Rightarrow> pairs \<Rightarrow> goerr option" where
  "udp_port_free port [] = None"
| "udp_port_free port ((name, data) # cs) =
     (case atoi name of
        None \<Rightarrow> Some (udp_map_error ''invalid port'' name)
      | Some p \<Rightarrow>
          if p = port then Some (''port '' @ itoa p @ '' is already used in config map '' @ NginxUDPConfigMapName)
          else udp_port_free port cs)"

definition createUDPIngress :: "('k, pairs) kube_api \<Rightarrow> string \<Rightarrow> udp_ingress \<Rightarrow> 'k \<Rightarrow> 'k \<times> k8s_err option" where
  "createUDPIngress K ns i k =
     (case kGet K NginxIngressNamespace NginxUDPConfigMapName k of
        Inl e \<Rightarrow> (k, Some e)
      | Inr obj \<Rightarrow>
          (let cm = k8sConfigMapToSCConfigMap obj
           in case udp_port_free (ui_Port i) (cm_Configs cm) of
                Some e \<Rightarrow> (k, Some (OwnErr e))
              | None \<Rightarrow>
                  updateConfigMap K NginxIngressNamespace
                    (cm\<lparr>cm_Configs := cm_Configs cm
                        @ [(itoa (ui_Port i), ns @ ''/'' @ ui_ServiceName i @ '':'' @ itoa (ui_ServicePort i))]\<rparr>) k))"

definition udp_Create :: "('k, pairs) kube_api \<Rightarrow> udp_ingress sub_ctx \<Rightarrow> 'k kubes \<Rightarrow> 'k kubes \<times> (api_error + udp_ingress)" where
  "udp_Create K ctx = on_cluster ctx (\<lambda>k.
     let i = sx_resource ctx
     in answer (\<lambda>e. if IsAlreadyExists e then APIError DuplicateResource (''duplicate ingress name '' @ ui_ServiceName i)
                    else APIError ConnectClusterFailed (''create ingress failed '' @ k8s_text e))
          (i\<lparr>ui_ID := itoa (ui_Port i)\<rparr>) (createUDPIngress K (sx_namespace ctx) i k))"

definition udp_List :: "('k, pairs) kube_api \<Rightarrow> udp_ingress sub_ctx \<Rightarrow> 'k kubes \<Rightarrow> api_error + udp_ingress list" where
  "udp_List K ctx = read_cluster ctx (\<lambda>k.
     map_sum (\<lambda>e. APIError ServerError (''list udp ingresses failed:'' @ k8s_text e)) (\<lambda>is. is)
       (getTransportLayerIngress K (sx_namespace ctx) '''' k))"

definition udp_Get :: "('k, pairs) kube_api \<Rightarrow> udp_ingress sub_ctx \<Rightarrow> 'k kubes \<Rightarrow> api_error + udp_ingress" where
  "udp_Get K ctx = read_cluster ctx (\<lambda>k.
     let name = ui_ID (sx_resource ctx)
     in case getTransportLayerIngress K (sx_namespace ctx) name k of
          Inl e \<Rightarrow> Inl (APIError ServerError (''get udp ingress failed: '' @ k8s_text e))
        | Inr rules \<Rightarrow> if length rules = 1 then Inr (rules ! 0) else Inl (APIError NotFound (''no found udp ingress '' @ name)))"

text \<open>The namespace of the request is not looked at.\<close>

definition udp_Delete :: "('k, pairs) kube_api \<Rightarrow> udp_ingress sub_ctx \<Rightarrow> 'k kubes \<Rightarrow> 'k kubes \<times> (api_error + unit)" where
  "udp_Delete K ctx ks =
     (if ks (sx_cluster ctx) = None then (ks, Inl no_cluster_s)
      else on_cluster ctx (\<lambda>k.
        case deleteTransportLayerIngress K (ui_ID (sx_resource ctx)) k of
          (k', hasIngress, Some e) \<Rightarrow> (k', Inl (APIError ServerError (''delete ingress failed '' @ k8s_text e)))
        | (k', hasIngress, None) \<Rightarrow> (k', if hasIngress then Inr () else Inl (APIError NotFound ''udp ingress doesn't exist''))) ks)"

text \<open>One turn of \<^verbatim>\<open>eventLoop\<close>; an error is only logged.\<close>

fun udp_event :: "('k, pairs) kube_api \<Rightarrow> deleted \<Rightarrow> 'k kubes \<Rightarrow> 'k kubes" where
  "udp_event K (DeletedNamespace c ns) ks =
     (case ks c of None \<Rightarrow> ks | Some k \<Rightarrow> ks(c \<mapsto> fst (clearTransportLayerIngress K ns '''' k)))"
| "udp_event K (DeletedService c ns name) ks =
     (case ks c of None \<Rightarrow> ks | Some k \<Rightarrow> ks(c \<mapsto> fst (clearTransportLayerIngress K ns name k)))"

section \<open>What is found after a service was created\<close>

text \<open>
  What the server keeps of a service: the two annotations, the ports without the port of the nodes
  (a target that is not set becomes the port), the type, and whether it is headless.
\<close>

definition port_target :: "service_port \<Rightarrow> int_or_string" where
  "port_target p = (if sp_TargetPort p \<in> {IntPort 0, StrPort ''''} then IntPort (sp_Port p) else sp_TargetPort p)"

definition port_kept :: "service_port \<Rightarrow> string \<times> string \<times> int \<times> int_or_string" where
  "port_kept p = (sp_Name p, sp_Protocol p, sp_Port p, port_target p)"

definition service_kept ::
  "service_body \<Rightarrow> string option \<times> string option \<times> (string \<times> string \<times> int \<times> int_or_string) list \<times> string \<times> bool" where
  "service_kept b =
     (map_of (vb_Annotations b) ZcloudLBVIPAnnotationKey, map_of (vb_Annotations b) ZcloudLBMethodAnnotationKey,
      map port_kept (vb_Ports b), vb_Type b, vb_ClusterIP b = NoneClusterIP)"

lemma toLower_words:
  "toLower ''TCP'' = ''tcp''" "toLower ''UDP'' = ''udp''" "toLower ''ClusterIP'' = ''clusterip''"
  "toLower ''NodePort'' = ''nodeport''" "toLower ''LoadBalancer'' = ''loadbalancer''"
  by code_simp+

definition lower_protocol :: "service_port \<Rightarrow> service_port" where
  "lower_protocol p = p\<lparr>sp_Protocol := toLower (sp_Protocol p)\<rparr>"

lemma port_kept_lower: "port_kept (lower_protocol p) = (case port_kept p of (n, proto, rest) \<Rightarrow> (n, toLower proto, rest))"
  by (simp add: port_kept_def lower_protocol_def port_target_def)

lemma service_ports_shown:
  "service_ports ps = Inr qs \<Longrightarrow>
   map port_kept (map lower_protocol qs) = map (\<lambda>p. port_kept (lower_protocol (p\<lparr>sp_Port := int32 (sp_Port p)\<rparr>))) ps"
proof (induction ps arbitrary: qs)
  case (Cons p ps)
  then obtain proto qs' where "scPortProtocolToK8SProtocol (sp_Protocol p) = Inr proto" "service_ports ps = Inr qs'"
    "qs = \<lparr>sp_Name = sp_Name p, sp_Port = int32 (sp_Port p), sp_TargetPort = sp_TargetPort p, sp_Protocol = proto, sp_NodePort = 0\<rparr> # qs'"
    by (auto simp: map_sum_Inr_iff split: sum.splits)
  then show ?case using Cons.IH [of qs']
    by (auto simp: scPortProtocolToK8SProtocol_def toLower_words port_kept_def lower_protocol_def port_target_def split: if_splits)
qed simp

lemma service_type_shown: "scServiceTypeToK8sServiceType t = Inr typ \<Longrightarrow> toLower typ = toLower t"
  by (auto simp: scServiceTypeToK8sServiceType_def toLower_words split: if_splits)

lemma service_type_cases:
  "scServiceTypeToK8sServiceType t = Inr typ \<Longrightarrow>
   (typ = ''LoadBalancer'' \<longleftrightarrow> toLower t = ''loadbalancer'') \<and> (typ = ''ClusterIP'' \<longleftrightarrow> toLower t = ''clusterip'')"
  by (auto simp: scServiceTypeToK8sServiceType_def split: if_splits)

lemma kept_shown:
  assumes "service_kept (ko_body obj) = service_kept b"
  defines "s \<equiv> k8sServiceToSCService obj"
  shows "sv_ServiceType s = toLower (vb_Type b)" "sv_ClusterIP s = NoneClusterIP \<longleftrightarrow> vb_ClusterIP b = NoneClusterIP"
    "map port_kept (sv_ExposedPorts s) = map port_kept (map lower_protocol (vb_Ports b))"
    "sv_LoadBalanceVIP s = (case map_of (vb_Annotations b) ZcloudLBVIPAnnotationKey of None \<Rightarrow> '''' | Some v \<Rightarrow> v)"
    "sv_LoadBalanceMethod s = (case map_of (vb_Annotations b) ZcloudLBMethodAnnotationKey of None \<Rightarrow> '''' | Some v \<Rightarrow> v)"
proof -
  have lower: "map (\<lambda>p. p\<lparr>sp_Protocol := toLower (sp_Protocol p)\<rparr>) ps = map lower_protocol ps" for ps
    by (simp add: lower_protocol_def)
  have through: "map port_kept (map lower_protocol ps) = map (\<lambda>(n, proto, rest). (n, toLower proto, rest)) (map port_kept ps)" for ps
    by (simp add: port_kept_lower)
  have "sv_ExposedPorts s = map lower_protocol (vb_Ports (ko_body obj))" by (simp add: s_def k8sServiceToSCService_def Let_def lower)
  moreover have "map port_kept (vb_Ports (ko_body obj)) = map port_kept (vb_Ports b)" using assms(1) by (simp add: service_kept_def)
  ultimately show "map port_kept (sv_ExposedPorts s) = map port_kept (map lower_protocol (vb_Ports b))" by (simp only: through)
qed (use assms in \<open>auto simp: s_def k8sServiceToSCService_def Let_def service_kept_def\<close>)

text \<open>
  A service that was created is shown with its name, type, ports and, for a load balancer, the address
  and the method (by default \<^verbatim>\<open>rr\<close>); the address of a load balancer is an IPv4 address.
\<close>

theorem service_roundtrip:
  assumes laws: "kube_live K view service_kept"
    and created: "svc_Create K ctx ks = (ks', Inr s)"
  shows "\<exists>s'. svc_Get K (ctx\<lparr>sx_resource := s\<rparr>) ks' = Inr s' \<and> sv_Name s' = sv_Name (sx_resource ctx)
    \<and> sv_ServiceType s' = toLower (sv_ServiceType (sx_resource ctx))
    \<and> map port_kept (sv_ExposedPorts s') = map (\<lambda>p. port_kept (lower_protocol (p\<lparr>sp_Port := int32 (sp_Port p)\<rparr>))) (sv_ExposedPorts (sx_resource ctx))
    \<and> (sv_ClusterIP s' = NoneClusterIP \<longleftrightarrow> sv_ServiceType s' = ''clusterip'' \<and> sv_Headless (sx_resource ctx))
    \<and> (sv_LoadBalanceVIP s', sv_LoadBalanceMethod s') =
        (if sv_ServiceType s' = ''loadbalancer''
         then (sv_LoadBalanceVIP (sx_resource ctx),
               if sv_LoadBalanceMethod (sx_resource ctx) = '''' then ZcloudDefaultLBMethod else sv_LoadBalanceMethod (sx_resource ctx))
         else ('''', ''''))
    \<and> (sv_ServiceType (sx_resource ctx) = ''loadbalancer'' \<longrightarrow> Option.bind (parseIP (sv_LoadBalanceVIP s')) To4 \<noteq> None)"
proof -
  let ?s = "sx_resource ctx" and ?ns = "sx_namespace ctx"
  have valid: "validateIfLoadBalancerService ?s = None"
    using created by (auto simp: svc_Create_def on_cluster_def Let_def split: option.splits)
  with created have "on_cluster ctx (\<lambda>k. answer (\<lambda>e. if IsAlreadyExists e then APIError DuplicateResource (''duplicate service name '' @ sv_Name ?s)
      else APIError ConnectClusterFailed (''create service failed '' @ k8s_text e)) (?s\<lparr>sv_ID := sv_Name ?s\<rparr>) (createService K ?ns ?s k)) ks = (ks', Inr s)"
    by (simp add: svc_Create_def Let_def)
  then obtain k k' where k: "createService K ?ns ?s k = (k', None)" "ks' = ks(sx_cluster ctx \<mapsto> k')" "s = ?s\<lparr>sv_ID := sv_Name ?s\<rparr>"
    unfolding on_cluster_answer by blast
  then obtain ty ports where t: "scServiceTypeToK8sServiceType (sv_ServiceType ?s) = Inr ty" "service_ports (sv_ExposedPorts ?s) = Inr ports"
    by (auto simp: createService_def split: sum.splits)
  let ?b = "\<lparr>vb_Annotations = (if ty = ''LoadBalancer'' then scServiceToLBK8sServiceAnnotation ?s else []),
    vb_Selector = [(''app'', sv_Name ?s)], vb_Ports = ports, vb_Type = ty,
    vb_ClusterIP = (if ty = ''ClusterIP'' \<and> sv_Headless ?s then NoneClusterIP else '''')\<rparr>"
  from k(1) t have "kCreate K (new_obj ?ns (sv_Name ?s) ?b) k = (k', None)" by (simp add: createService_def)
  from kube_live.create_then_get [OF laws this] obtain obj where obj: "kGet K ?ns (sv_Name ?s) k' = Inr obj" "ko_name obj = sv_Name ?s"
    "service_kept (ko_body obj) = service_kept ?b" by (auto simp: new_obj_def)
  note shown = kept_shown [OF obj(3)]
  have get: "svc_Get K (ctx\<lparr>sx_resource := s\<rparr>) ks' = Inr (k8sServiceToSCService obj)"
    using obj(1) k by (simp add: svc_Get_def read_cluster_def)
  have ty: "sv_ServiceType (k8sServiceToSCService obj) = toLower (sv_ServiceType ?s)"
    using shown(1) service_type_shown [OF t(1)] by simp
  have ports: "map port_kept (sv_ExposedPorts (k8sServiceToSCService obj))
      = map (\<lambda>p. port_kept (lower_protocol (p\<lparr>sp_Port := int32 (sp_Port p)\<rparr>))) (sv_ExposedPorts ?s)"
    using shown(3) service_ports_shown [OF t(2)] by simp
  have name: "sv_Name (k8sServiceToSCService obj) = sv_Name ?s" using obj(2) by (simp add: k8sServiceToSCService_def Let_def)
  have ip: "sv_ClusterIP (k8sServiceToSCService obj) = NoneClusterIP \<longleftrightarrow> toLower (sv_ServiceType ?s) = ''clusterip'' \<and> sv_Headless ?s"
    using shown(2) service_type_cases [OF t(1)] by simp
  have lb: "(sv_LoadBalanceVIP (k8sServiceToSCService obj), sv_LoadBalanceMethod (k8sServiceToSCService obj)) =
      (if toLower (sv_ServiceType ?s) = ''loadbalancer''
       then (sv_LoadBalanceVIP ?s, if sv_LoadBalanceMethod ?s = '''' then ZcloudDefaultLBMethod else sv_LoadBalanceMethod ?s) else ('''', ''''))"
    using shown(4,5) service_type_cases [OF t(1)] by (simp add: scServiceToLBK8sServiceAnnotation_def)
  have vip: "Option.bind (parseIP (sv_LoadBalanceVIP (k8sServiceToSCService obj))) To4 \<noteq> None" if lbt: "sv_ServiceType ?s = ''loadbalancer''"
  proof -
    have "toLower ''loadbalancer'' = ''loadbalancer''" by code_simp
    with lb lbt have "sv_LoadBalanceVIP (k8sServiceToSCService obj) = sv_LoadBalanceVIP ?s" by simp
    then show ?thesis using valid lbt by (auto simp: validateIfLoadBalancerService_def split: option.splits if_splits)
  qed
  show ?thesis using get name ty ports ip lb vip by (intro exI [of _ "k8sServiceToSCService obj"]) simp
qed

definition sample_service :: "service sub_ctx" where
  "sample_service = \<lparr>sx_cluster = ''c'', sx_namespace = ''default'', sx_resource =
     \<lparr>sv_ID = '''', sv_CreationTimestamp = 0, sv_DeletionTimestamp = None, sv_Name = ''web'', sv_ServiceType = ''loadbalancer'', sv_Headless = False,
      sv_ClusterIP = '''', sv_ExposedPorts = [\<lparr>sp_Name = ''http'', sp_Port = 80, sp_TargetPort = IntPort 8080, sp_Protocol = ''tcp'', sp_NodePort = 0\<rparr>],
      sv_LoadBalanceVIP = ''10.0.0.1'', sv_LoadBalanceMethod = ''''\<rparr>\<rparr>"

lemma decimal_texts:
  "itoa 53 = ''53''" "itoa 69 = ''69''" "itoa 514 = ''514''" "itoa 5353 = ''5353''" "itoa 5140 = ''5140''" "dotted [10, 0, 0, Suc 0] = ''10.0.0.1''"
  by (simp_all add: itoa_def dotted_def formatNat.simps digit_char_def char_of_def bit_0)

theorem service_roundtrip_witness:
  "\<exists>ks' s s'. svc_Create mem_kube sample_service [''c'' \<mapsto> []] = (ks', Inr s)
    \<and> svc_Get mem_kube (sample_service\<lparr>sx_resource := s\<rparr>) ks' = Inr s' \<and> sv_ServiceType s' = ''loadbalancer''
    \<and> sv_LoadBalanceVIP s' = ''10.0.0.1'' \<and> sv_LoadBalanceMethod s' = ''rr''"
proof -
  have "validateIfLoadBalancerService (sx_resource sample_service) = None"
    using parseIP_dotted [of "[10, 0, 0, 1]"] by (simp add: decimal_texts validateIfLoadBalancerService_def sample_service_def is_ipv4_bytes_def)
  moreover have "case createService mem_kube ''default'' (sx_resource sample_service) [] of (k, r) \<Rightarrow> r = None" by code_simp
  then obtain k where "createService mem_kube ''default'' (sx_resource sample_service) [] = (k, None)" by auto
  moreover have "sx_cluster sample_service = ''c''" "sx_namespace sample_service = ''default''" by (simp_all add: sample_service_def)
  ultimately obtain ks' s where c: "svc_Create mem_kube sample_service [''c'' \<mapsto> []] = (ks', Inr s)"
    by (simp add: svc_Create_def on_cluster_def answer_def Let_def)
  have "toLower (sv_ServiceType (sx_resource sample_service)) = ''loadbalancer''" by code_simp
  moreover obtain s' where s': "svc_Get mem_kube (sample_service\<lparr>sx_resource := s\<rparr>) ks' = Inr s'"
    "sv_ServiceType s' = toLower (sv_ServiceType (sx_resource sample_service))"
    "(sv_LoadBalanceVIP s', sv_LoadBalanceMethod s') = (if sv_ServiceType s' = ''loadbalancer''
       then (sv_LoadBalanceVIP (sx_resource sample_service), if sv_LoadBalanceMethod (sx_resource sample_service) = '''' then ZcloudDefaultLBMethod
         else sv_LoadBalanceMethod (sx_resource sample_service)) else ('''', ''''))"
    using service_roundtrip [OF mem_kube_kept c] by blast
  moreover have "sv_LoadBalanceVIP (sx_resource sample_service) = ''10.0.0.1''" "sv_LoadBalanceMethod (sx_resource sample_service) = ''''"
    by (simp_all add: sample_service_def)
  ultimately show ?thesis using c by simp
qed

section \<open>The rules of an ingress\<close>

lemma rule_Less_key: "rule_Less a b \<longleftrightarrow> rule_key a < rule_key b"
  by (auto simp: rule_Less_def less_prod_def)

lemma check_rules_keys: "map rule_key xs = map rule_key ys \<Longrightarrow> check_rules xs = check_rules ys"
proof (induction xs arbitrary: ys)
  case (Cons x xs)
  then obtain y ys' where ys: "ys = y # ys'" "rule_key x = rule_key y" "map rule_key xs = map rule_key ys'" by auto
  then have "xs = [] \<longleftrightarrow> ys' = []" "xs \<noteq> [] \<Longrightarrow> rule_key (hd xs) = rule_key (hd ys')"
    by (auto simp: neq_Nil_conv)
  then show ?case using ys Cons.IH [OF ys(3)] by (auto simp: isIngressRuleEqual_def)
qed simp

lemma check_rules_None:
  assumes "check_rules rs = None" "sorted (map rule_key rs)"
  shows "distinct (map rule_key rs) \<and> list_all (\<lambda>r. ir_Host r \<noteq> '''' \<and> ir_Path r \<noteq> '''') rs"
  using assms
proof (induction rs)
  case (Cons r rs)
  then have IH: "distinct (map rule_key rs)" "list_all (\<lambda>r. ir_Host r \<noteq> '''' \<and> ir_Path r \<noteq> '''') rs"
    and r: "ir_Host r \<noteq> ''''" "ir_Path r \<noteq> ''''" "rs \<noteq> [] \<Longrightarrow> rule_key r \<noteq> rule_key (hd rs)"
    by (auto simp: isIngressRuleEqual_def split: if_splits)
  have "rule_key r \<notin> rule_key ` set rs"
  proof (cases rs)
    case (Cons x xs)
    have "rule_key r < rule_key x" using r(3) Cons.prems(2) Cons by (simp add: less_le)
    moreover have "rule_key x \<le> rule_key y" if "y \<in> set rs" for y using Cons.prems(2) Cons that by auto
    ultimately show ?thesis by (metis (no_types, lifting) imageE leD)
  qed simp
  then show ?case using IH r by simp
qed simp

text \<open>
  \<open>sort.Sort\<close> need not be stable: whatever sorted arrangement of the rules it leaves, the check answers
  the same, and there is only one arrangement that passes.
\<close>

lemma any_sort_does:
  assumes "mset ys = mset rules" "sorted (map rule_key ys)"
  shows "check_rules ys = check_rules (sort_key rule_key rules)" "check_rules ys = None \<Longrightarrow> ys = sort_key rule_key rules"
proof -
  have "map rule_key ys = map rule_key (sort_key rule_key rules)"
  proof -
    have "sort (map rule_key rules) = map rule_key ys" using assms by (intro properties_for_sort) (simp_all add: mset_map)
    moreover have "sort (map rule_key rules) = map rule_key (sort_key rule_key rules)" by (intro properties_for_sort) (simp_all add: mset_map)
    ultimately show ?thesis by simp
  qed
  then show "check_rules ys = check_rules (sort_key rule_key rules)" by (rule check_rules_keys)
  show "ys = sort_key rule_key rules" if "check_rules ys = None"
    using sort_key_unique [OF assms(1) [symmetric] assms(2)] check_rules_None [OF that assms(2)] by simp
qed

lemma shown_rules_append:
  "shown_rules (xs @ ys) =
   (case shown_rules xs of Panicked p \<Rightarrow> Panicked p
    | Done as \<Rightarrow> (case shown_rules ys of Panicked p \<Rightarrow> Panicked p | Done bs \<Rightarrow> Done (as @ bs)))"
  by (induction xs) (auto split: option.splits outcome.splits)

definition narrow_port :: "ingress_rule \<Rightarrow> ingress_rule" where
  "narrow_port r = r\<lparr>ir_ServicePort := int32 (ir_ServicePort r)\<rparr>"

lemma shown_add_http_rule: "shown_rules acc = Done xs \<Longrightarrow> shown_rules (add_http_rule acc r) = Done (xs @ [narrow_port r])"
proof (cases "acc \<noteq> [] \<and> ir_Host r = hr_Host (last acc)")
  case True
  assume acc: "shown_rules acc = Done xs"
  obtain as a where a: "acc = as @ [a]" using True by (metis append_butlast_last_id)
  with acc show ?thesis using True
    by (auto simp: add_http_rule_def Let_def shown_rules_append narrow_port_def split: outcome.splits option.splits)
next
  case False
  assume "shown_rules acc = Done xs"
  then show ?thesis using False by (auto simp: add_http_rule_def Let_def shown_rules_append narrow_port_def split: outcome.splits)
qed

lemma shown_http_rules: "shown_rules acc = Done xs \<Longrightarrow> shown_rules (foldl add_http_rule acc rs) = Done (xs @ map narrow_port rs)"
proof (induction rs arbitrary: acc xs)
  case (Cons r rs)
  show ?case using Cons.IH [OF shown_add_http_rule [OF Cons.prems, of r]] by simp
qed simp

text \<open>The rules are grouped by host: no host has two groups.\<close>

lemma hosts_add_http_rule:
  assumes "sorted_wrt (<) (map hr_Host acc)" "acc \<noteq> [] \<Longrightarrow> hr_Host (last acc) \<le> ir_Host r"
  shows "sorted_wrt (<) (map hr_Host (add_http_rule acc r)) \<and> hr_Host (last (add_http_rule acc r)) = ir_Host r \<and> add_http_rule acc r \<noteq> []"
proof (cases acc rule: rev_cases)
  case Nil
  then show ?thesis by (simp add: add_http_rule_def)
next
  case (snoc as a)
  show ?thesis
  proof (cases "ir_Host r = hr_Host a")
    case True
    then show ?thesis using assms(1) snoc by (simp add: add_http_rule_def Let_def)
  next
    case False
    then have "hr_Host a < ir_Host r" using assms(2) snoc by simp
    then have "\<forall>x \<in> set (map hr_Host acc). x < ir_Host r" using assms(1) snoc by (auto simp: sorted_wrt_append)
    then show ?thesis using assms(1) False snoc by (simp add: add_http_rule_def Let_def sorted_wrt_append)
  qed
qed

lemma hosts_http_rules:
  assumes "sorted_wrt (<) (map hr_Host acc)" "sorted (map ir_Host rs)" "acc \<noteq> [] \<Longrightarrow> rs \<noteq> [] \<Longrightarrow> hr_Host (last acc) \<le> ir_Host (hd rs)"
  shows "sorted_wrt (<) (map hr_Host (foldl add_http_rule acc rs))"
  using assms
proof (induction rs arbitrary: acc)
  case (Cons r rs)
  note one = hosts_add_http_rule [OF Cons.prems(1), of r]
  have "acc \<noteq> [] \<Longrightarrow> hr_Host (last acc) \<le> ir_Host r" using Cons.prems(3) by simp
  with one have "sorted_wrt (<) (map hr_Host (add_http_rule acc r))" "hr_Host (last (add_http_rule acc r)) = ir_Host r" by blast+
  moreover have "rs \<noteq> [] \<Longrightarrow> ir_Host r \<le> ir_Host (hd rs)" "sorted (map ir_Host rs)" using Cons.prems(2) by (auto simp: neq_Nil_conv)
  ultimately show ?case using Cons.IH by simp
qed simp

lemma sorted_keys_hosts: "sorted (map rule_key rs) \<Longrightarrow> sorted (map ir_Host rs)"
  by (induction rs) (auto simp: less_eq_prod_def)

section \<open>What is found after an ingress was changed\<close>

definition ingress_kept :: "ingress_body \<Rightarrow> string option \<times> http_rule list" where
  "ingress_kept b = (map_of (ib_Annotations b) NginxProxyBodySize, ib_Rules b)"

lemma k8sIngress_shown:
  assumes "scIngressTok8sIngress ns i = Inr new"
  shows "validateAndSortRules (in_Rules i) = Inr (sort_key rule_key (in_Rules i))"
    "shown_rules (ib_Rules (ko_body new)) = Done (map narrow_port (sort_key rule_key (in_Rules i)))"
    "distinct (map rule_key (in_Rules i)) \<and> list_all (\<lambda>r. ir_Host r \<noteq> '''' \<and> ir_Path r \<noteq> '''') (in_Rules i)"
    "distinct (map hr_Host (ib_Rules (ko_body new)))"
    "ko_key new = (ns, in_Name i)"
    "map_of (ib_Annotations (ko_body new)) NginxProxyBodySize =
       (if in_MaxBodySize i > 0 \<and> in_MaxBodySizeUnit i \<noteq> '''' then Some (itoa (in_MaxBodySize i) @ in_MaxBodySizeUnit i) else None)"
proof -
  let ?rs = "sort_key rule_key (in_Rules i)"
  from assms have new: "new = new_obj ns (in_Name i) \<lparr>ib_Annotations = (NginxAffinity, ''cookie'')
      # (if in_MaxBodySize i > 0 \<and> in_MaxBodySizeUnit i \<noteq> '''' then [(NginxProxyBodySize, itoa (in_MaxBodySize i) @ in_MaxBodySizeUnit i)] else []),
      ib_Rules = foldl add_http_rule [] ?rs\<rparr>" and ok: "check_rules ?rs = None"
    by (auto simp: scIngressTok8sIngress_def validateAndSortRules_def Let_def map_sum_Inr_iff split: option.splits)
  show "validateAndSortRules (in_Rules i) = Inr ?rs" using ok by (simp add: validateAndSortRules_def)
  show "shown_rules (ib_Rules (ko_body new)) = Done (map narrow_port ?rs)" using shown_http_rules [of "[]" "[]" ?rs] new by (simp add: new_obj_def)
  from check_rules_None [OF ok] have d: "distinct (map rule_key ?rs)" "list_all (\<lambda>r. ir_Host r \<noteq> '''' \<and> ir_Path r \<noteq> '''') ?rs" by simp_all
  have "mset (map rule_key ?rs) = mset (map rule_key (in_Rules i))" by (simp add: mset_map)
  then have "distinct (map rule_key (in_Rules i))" using d(1) mset_eq_imp_distinct_iff by blast
  then show "distinct (map rule_key (in_Rules i)) \<and> list_all (\<lambda>r. ir_Host r \<noteq> '''' \<and> ir_Path r \<noteq> '''') (in_Rules i)"
    using d(2) by (simp add: list_all_iff)
  have "sorted (map ir_Host ?rs)" by (rule sorted_keys_hosts) simp
  from hosts_http_rules [OF _ this, of "[]"] have "distinct (map hr_Host (foldl add_http_rule [] ?rs))" by (simp only: strict_sorted_iff) simp
  then show "distinct (map hr_Host (ib_Rules (ko_body new)))" using new by (simp add: new_obj_def)
qed (use assms in \<open>auto simp: scIngressTok8sIngress_def map_sum_Inr_iff new_obj_def\<close>)

lemma body_size_written:
  assumes "map_of ann NginxProxyBodySize = (if sz > 0 \<and> un \<noteq> '''' then Some (itoa sz @ un) else None)" "length un \<le> 1" "sz < 2 ^ 63"
  shows "body_size ann = (if sz > 0 \<and> un \<noteq> '''' then (sz, un) else (0, ''''))"
proof (cases "sz > 0 \<and> un \<noteq> ''''")
  case True
  then obtain u where "un = [u]" using assms(2) by (cases un) auto
  moreover have "itoa sz \<noteq> []" by (simp add: itoa_def)
  ultimately show ?thesis using assms(1,3) True by (simp add: body_size_def atoi_itoa)
qed (use assms in \<open>auto simp: body_size_def\<close>)

lemma k8sIngressToSC_kept:
  assumes "ingress_kept (ko_body obj) = ingress_kept b" "shown_rules (ib_Rules b) = Done rules"
  shows "\<exists>i. k8sIngressToSCIngress obj = Done i \<and> in_Name i = ko_name obj \<and> in_Rules i = rules \<and> in_MaxBodySize i = fst (body_size (ib_Annotations b))
    \<and> in_MaxBodySizeUnit i = snd (body_size (ib_Annotations b))"
  using assms by (simp add: k8sIngressToSCIngress_def ingress_kept_def body_size_def)

lemma in_Update_Inr:
  assumes "in_Update K ctx ks = (ks', Inr i)"
  obtains k k' obj new where "ks (sx_cluster ctx) = Some k" "kGet K (sx_namespace ctx) (in_ID (sx_resource ctx)) k = Inr obj"
    "scIngressTok8sIngress (sx_namespace ctx) (sx_resource ctx) = Inr new"
    "kUpdate K (obj\<lparr>ko_body := (ko_body obj)\<lparr>ib_Rules := ib_Rules (ko_body new)\<rparr>\<rparr>) k = (k', None)" "ks' = ks(sx_cluster ctx \<mapsto> k')"
    "i = (sx_resource ctx)\<lparr>in_Rules := sort_key rule_key (in_Rules (sx_resource ctx))\<rparr>"
proof -
  let ?i = "sx_resource ctx" and ?ns = "sx_namespace ctx"
  obtain k where k: "ks (sx_cluster ctx) = Some k" using assms by (auto simp: in_Update_def on_cluster_def split: option.splits)
  obtain obj where obj: "kGet K ?ns (in_ID ?i) k = Inr obj"
    using assms k by (cases "kGet K ?ns (in_ID ?i) k") (simp_all add: in_Update_def on_cluster_def Let_def)
  obtain new where new: "scIngressTok8sIngress ?ns ?i = Inr new"
    using assms k obj by (cases "scIngressTok8sIngress ?ns ?i") (simp_all add: in_Update_def on_cluster_def Let_def)
  obtain k' r where u: "kUpdate K (obj\<lparr>ko_body := (ko_body obj)\<lparr>ib_Rules := ib_Rules (ko_body new)\<rparr>\<rparr>) k = (k', r)" by force
  have "r = None \<and> ks' = ks(sx_cluster ctx \<mapsto> k') \<and> i = ?i\<lparr>in_Rules := sort_key rule_key (in_Rules ?i)\<rparr>"
    using assms k obj new u k8sIngress_shown(1) [OF new] by (cases r) (simp_all add: in_Update_def on_cluster_def Let_def answer_def)
  then show ?thesis using that k obj new u by blast
qed

definition fit_ports :: "ingress \<Rightarrow> bool" where
  "fit_ports i \<longleftrightarrow> list_all (\<lambda>r. - (2 ^ 31) \<le> ir_ServicePort r \<and> ir_ServicePort r < 2 ^ 31) (in_Rules i)"

lemma fit_ports_narrow: "fit_ports i \<Longrightarrow> map narrow_port (sort_key rule_key (in_Rules i)) = sort_key rule_key (in_Rules i)"
  by (rule map_idI) (auto simp: fit_ports_def list_all_iff narrow_port_def int32_id)

text \<open>
  C35. An ingress that was created is shown with its rules, sorted and without repetitions, and with its
  body size; an update changes the rules and leaves the body size of the old ingress.
\<close>

theorem ingress_roundtrip:
  assumes laws: "kube_live K view ingress_kept" and fit: "fit_ports (sx_resource ctx)"
    and un: "length (in_MaxBodySizeUnit (sx_resource ctx)) \<le> 1" "in_MaxBodySize (sx_resource ctx) < 2 ^ 63"
  shows "(in_Create K ctx ks = (ks', Inr i) \<longrightarrow>
      distinct (map rule_key (in_Rules (sx_resource ctx))) \<and> in_Rules i = sort_key rule_key (in_Rules (sx_resource ctx))
      \<and> (\<exists>i'. in_Get K (ctx\<lparr>sx_resource := i\<rparr>) ks' = Done (Inr i') \<and> in_Name i' = in_Name (sx_resource ctx) \<and> in_Rules i' = in_Rules i
        \<and> (in_MaxBodySize i', in_MaxBodySizeUnit i') =
            (if in_MaxBodySize (sx_resource ctx) > 0 \<and> in_MaxBodySizeUnit (sx_resource ctx) \<noteq> ''''
             then (in_MaxBodySize (sx_resource ctx), in_MaxBodySizeUnit (sx_resource ctx)) else (0, ''''))))
    \<and> (in_Update K ctx ks = (ks', Inr i) \<and> in_Get K ctx ks = Done (Inr i0) \<longrightarrow>
      distinct (map rule_key (in_Rules (sx_resource ctx))) \<and> in_Rules i = sort_key rule_key (in_Rules (sx_resource ctx))
      \<and> (\<exists>i'. in_Get K ctx ks' = Done (Inr i') \<and> in_Rules i' = in_Rules i
        \<and> in_MaxBodySize i' = in_MaxBodySize i0 \<and> in_MaxBodySizeUnit i' = in_MaxBodySizeUnit i0))"
proof (rule conjI; rule impI)
  let ?i = "sx_resource ctx" and ?ns = "sx_namespace ctx"
  assume "in_Create K ctx ks = (ks', Inr i)"
  then obtain k k' new where k: "scIngressTok8sIngress ?ns ?i = Inr new" "kCreate K new k = (k', None)" "ks' = ks(sx_cluster ctx \<mapsto> k')"
    and i: "i = (case validateAndSortRules (in_Rules ?i) of Inl e \<Rightarrow> ?i | Inr rules \<Rightarrow> ?i\<lparr>in_Rules := rules, in_ID := in_Name ?i\<rparr>)"
    by (auto simp: in_Create_def on_cluster_answer Let_def createIngress_def crud_create_def split: if_splits sum.splits)
  note shown = k8sIngress_shown [OF k(1)]
  from kube_live.create_then_get [OF laws k(2)] shown(5) obtain obj where obj: "kGet K ?ns (in_Name ?i) k' = Inr obj" "ko_name obj = in_Name ?i"
    "ingress_kept (ko_body obj) = ingress_kept (ko_body new)" by auto
  from k8sIngressToSC_kept [OF obj(3) shown(2)] obtain i' where i': "k8sIngressToSCIngress obj = Done i'" "in_Name i' = ko_name obj"
    "in_Rules i' = map narrow_port (sort_key rule_key (in_Rules ?i))" "in_MaxBodySize i' = fst (body_size (ib_Annotations (ko_body new)))"
    "in_MaxBodySizeUnit i' = snd (body_size (ib_Annotations (ko_body new)))" by blast
  have i: "i = ?i\<lparr>in_Rules := sort_key rule_key (in_Rules ?i), in_ID := in_Name ?i\<rparr>" using i shown(1) by simp
  have "in_Get K (ctx\<lparr>sx_resource := i\<rparr>) ks' = Done (Inr i')" using i i'(1) obj(1) k(3) by (simp add: in_Get_def)
  then show "distinct (map rule_key (in_Rules ?i)) \<and> in_Rules i = sort_key rule_key (in_Rules ?i)
      \<and> (\<exists>i'. in_Get K (ctx\<lparr>sx_resource := i\<rparr>) ks' = Done (Inr i') \<and> in_Name i' = in_Name ?i \<and> in_Rules i' = in_Rules i
        \<and> (in_MaxBodySize i', in_MaxBodySizeUnit i') = (if in_MaxBodySize ?i > 0 \<and> in_MaxBodySizeUnit ?i \<noteq> ''''
             then (in_MaxBodySize ?i, in_MaxBodySizeUnit ?i) else (0, '''')))"
    using shown(3) i i' obj(2) fit_ports_narrow [OF fit] body_size_written [OF shown(6) un] by simp
next
  let ?i = "sx_resource ctx" and ?ns = "sx_namespace ctx"
  assume u: "in_Update K ctx ks = (ks', Inr i) \<and> in_Get K ctx ks = Done (Inr i0)"
  then obtain k k' obj new where k: "ks (sx_cluster ctx) = Some k" "kGet K ?ns (in_ID ?i) k = Inr obj" "scIngressTok8sIngress ?ns ?i = Inr new"
    "kUpdate K (obj\<lparr>ko_body := (ko_body obj)\<lparr>ib_Rules := ib_Rules (ko_body new)\<rparr>\<rparr>) k = (k', None)" "ks' = ks(sx_cluster ctx \<mapsto> k')"
    and i: "i = ?i\<lparr>in_Rules := sort_key rule_key (in_Rules ?i)\<rparr>" by (auto elim: in_Update_Inr)
  note shown = k8sIngress_shown [OF k(3)]
  have l: "kube_laws K view ingress_kept" using laws by (simp add: kube_live_def)
  have key: "ko_namespace obj = ?ns" "ko_name obj = in_ID ?i"
    using kube_laws.view_key [OF l kube_laws.get_view [OF l k(2)]] by simp_all
  from kube_live.update_then_get [OF laws k(4)] key obtain obj' where obj': "kGet K ?ns (in_ID ?i) k' = Inr obj'"
    "ingress_kept (ko_body obj') = ingress_kept ((ko_body obj)\<lparr>ib_Rules := ib_Rules (ko_body new)\<rparr>)" by auto
  from k8sIngressToSC_kept [OF obj'(2)] shown(2) obtain i' where i': "k8sIngressToSCIngress obj' = Done i'"
    "in_Rules i' = map narrow_port (sort_key rule_key (in_Rules ?i))" "in_MaxBodySize i' = fst (body_size (ib_Annotations (ko_body obj)))"
    "in_MaxBodySizeUnit i' = snd (body_size (ib_Annotations (ko_body obj)))" by fastforce
  have "k8sIngressToSCIngress obj = Done i0" using u k(1,2) by (auto simp: in_Get_def split: outcome.splits)
  then have "in_MaxBodySize i0 = in_MaxBodySize i'" "in_MaxBodySizeUnit i0 = in_MaxBodySizeUnit i'"
    using i' by (auto simp: k8sIngressToSCIngress_def split: outcome.splits)
  then show "distinct (map rule_key (in_Rules ?i)) \<and> in_Rules i = sort_key rule_key (in_Rules ?i)
      \<and> (\<exists>i'. in_Get K ctx ks' = Done (Inr i') \<and> in_Rules i' = in_Rules i
        \<and> in_MaxBodySize i' = in_MaxBodySize i0 \<and> in_MaxBodySizeUnit i' = in_MaxBodySizeUnit i0)"
    using shown(3) i i' obj'(1) k(5) fit_ports_narrow [OF fit] by (intro conjI exI [of _ i']) (simp_all add: in_Get_def)
qed

definition sample_ingress :: "ingress sub_ctx" where
  "sample_ingress = \<lparr>sx_cluster = ''c'', sx_namespace = ''default'', sx_resource =
     \<lparr>in_ID = '''', in_CreationTimestamp = 0, in_DeletionTimestamp = None, in_Name = ''web'',
      in_Rules = [\<lparr>ir_Host = ''b.cn'', ir_Path = ''/'', ir_ServiceName = ''s'', ir_ServicePort = 80\<rparr>,
        \<lparr>ir_Host = ''a.cn'', ir_Path = ''/x'', ir_ServiceName = ''s'', ir_ServicePort = 81\<rparr>,
        \<lparr>ir_Host = ''b.cn'', ir_Path = ''/y'', ir_ServiceName = ''t'', ir_ServicePort = 82\<rparr>],
      in_MaxBodySize = 20, in_MaxBodySizeUnit = ''m''\<rparr>\<rparr>"

theorem ingress_roundtrip_witness:
  "\<exists>ks' i i'. in_Create mem_kube sample_ingress [''c'' \<mapsto> []] = (ks', Inr i)
    \<and> in_Get mem_kube (sample_ingress\<lparr>sx_resource := i\<rparr>) ks' = Done (Inr i') \<and> map ir_Host (in_Rules i') = [''a.cn'', ''b.cn'', ''b.cn'']
    \<and> in_MaxBodySize i' = 20 \<and> in_MaxBodySizeUnit i' = ''m''"
proof -
  have "case snd (in_Create mem_kube sample_ingress [''c'' \<mapsto> []]) of Inl e \<Rightarrow> False | Inr s \<Rightarrow> True" by code_simp
  then obtain ks' i where c: "in_Create mem_kube sample_ingress [''c'' \<mapsto> []] = (ks', Inr i)"
    by (cases "in_Create mem_kube sample_ingress [''c'' \<mapsto> []]") (auto split: sum.splits)
  have fit: "fit_ports (sx_resource sample_ingress)" "length (in_MaxBodySizeUnit (sx_resource sample_ingress)) \<le> 1"
    "in_MaxBodySize (sx_resource sample_ingress) < 2 ^ 63" by (simp_all add: fit_ports_def sample_ingress_def)
  have "map ir_Host (sort_key rule_key (in_Rules (sx_resource sample_ingress))) = [''a.cn'', ''b.cn'', ''b.cn'']" by code_simp
  with ingress_roundtrip [OF mem_kube_kept fit, THEN conjunct1, THEN mp, OF c] c show ?thesis by (auto simp: sample_ingress_def)
qed

text \<open>An ingress made by another client without an HTTP part makes the whole list panic.\<close>

lemma ingress_without_http_panics:
  assumes "ks (sx_cluster ctx) = Some k" "kList K (sx_namespace ctx) k = Inr objs"
    and "obj \<in> set objs" "r \<in> set (ib_Rules (ko_body obj))" "hr_HTTP r = None"
  shows "\<exists>p. in_List K ctx ks = Panicked p"
proof -
  have "\<exists>p. shown_rules rs = Panicked p" if "r \<in> set rs" for rs
    using that assms(5) by (induction rs) (auto split: option.splits outcome.splits)
  from this [OF assms(4)] have one: "\<exists>p. k8sIngressToSCIngress obj = Panicked p" by (auto simp: k8sIngressToSCIngress_def)
  have "\<exists>p. show_ingresses objs = Panicked p" using assms(3) one by (induction objs) (auto split: outcome.splits)
  then show ?thesis using assms(1,2) by (auto simp: in_List_def)
qed

section \<open>The table of UDP ingresses\<close>

text \<open>
  The abstract table maps a port to a namespace, a service and the port of the service. Its entries
  are those a validated request can make: no name holds a separator, and no port is zero.
\<close>

lemma in_graph: "(p, t) \<in> Map.graph m \<longleftrightarrow> m p = Some t"
  by (simp add: graph_def)

lemma graph_empty_None: "Map.graph m = {} \<Longrightarrow> m p = None"
  by (cases "m p") (auto simp: graph_def)

lemma graph_insert: "m p = Some t \<Longrightarrow> Map.graph m = insert (p, t) (Map.graph (m(p := None)))"
  by (metis fun_upd_triv fun_upd_upd graph_map_upd)

type_synonym udp_target = "string \<times> string \<times> int"

definition udp_data :: "udp_target \<Rightarrow> string" where
  "udp_data t = (case t of (ns, svc, port) \<Rightarrow> ns @ ''/'' @ svc @ '':'' @ itoa port)"

definition plain_name :: "string \<Rightarrow> bool" where
  "plain_name n \<longleftrightarrow> n \<noteq> '''' \<and> CHR ''/'' \<notin> set n \<and> CHR '':'' \<notin> set n"

definition plain_port :: "int \<Rightarrow> bool" where
  "plain_port p \<longleftrightarrow> p \<noteq> 0 \<and> - (2 ^ 63) \<le> p \<and> p < 2 ^ 63"

definition plain_entry :: "int \<Rightarrow> udp_target \<Rightarrow> bool" where
  "plain_entry p t \<longleftrightarrow> plain_port p \<and> (case t of (ns, svc, port) \<Rightarrow> plain_name ns \<and> plain_name svc \<and> plain_port port)"

definition udp_rel :: "(int \<rightharpoonup> udp_target) \<Rightarrow> pairs \<Rightarrow> bool" where
  "udp_rel T body \<longleftrightarrow> distinct (map fst body) \<and> set body = map_prod itoa udp_data ` Map.graph T \<and> (\<forall>p t. T p = Some t \<longrightarrow> plain_entry p t)"

lemma udp_relD: "udp_rel T body \<Longrightarrow> T p = Some t \<Longrightarrow> plain_entry p t"
  unfolding udp_rel_def by blast

lemma itoa_inject: "plain_port p \<Longrightarrow> plain_port q \<Longrightarrow> itoa p = itoa q \<longleftrightarrow> p = q"
  by (metis atoi_itoa option.inject plain_port_def)

lemma itoa_no: "CHR ''/'' \<notin> set (itoa i)" "CHR '':'' \<notin> set (itoa i)"
proof -
  have "is_digit c" if "c \<in> set (formatNat n)" for c n using formatNat_digits [of n] that by (simp add: list_all_iff)
  moreover have "\<not> is_digit CHR ''/''" "\<not> is_digit CHR '':''" by (simp_all add: is_digit_def)
  ultimately have "CHR ''/'' \<notin> set (formatNat n)" "CHR '':'' \<notin> set (formatNat n)" for n by blast+
  then show "CHR ''/'' \<notin> set (itoa i)" "CHR '':'' \<notin> set (itoa i)" by (auto simp: itoa_def)
qed

lemma udp_data_split:
  assumes "plain_entry p (ns, svc, port)"
  shows "split (udp_data (ns, svc, port)) '':'' = [ns @ ''/'' @ svc, itoa port]" "split (ns @ ''/'' @ svc) ''/'' = [ns, svc]"
proof -
  have "CHR '':'' \<notin> set (ns @ ''/'' @ svc)" using assms by (simp add: plain_entry_def plain_name_def)
  from split_one [OF this itoa_no(2)] show "split (udp_data (ns, svc, port)) '':'' = [ns @ ''/'' @ svc, itoa port]" by (simp add: udp_data_def)
  show "split (ns @ ''/'' @ svc) ''/'' = [ns, svc]" using assms split_one [of "CHR ''/''" ns svc] by (simp add: plain_entry_def plain_name_def)
qed

lemma hasPrefix_iff: "hasPrefix s p \<longleftrightarrow> (\<exists>t. s = p @ t)"
  by (auto simp: hasPrefix_def) (metis append_take_drop_id)

lemma append_sep_eq: "c \<notin> set a \<Longrightarrow> c \<notin> set b \<Longrightarrow> a @ c # s = b @ c # t \<longleftrightarrow> a = b \<and> s = t"
  by (induction a arbitrary: b) (case_tac b; auto)+

lemma udp_data_prefix:
  assumes "plain_entry p (ns', svc', port)" "plain_name ns" "svc = '''' \<or> plain_name svc"
  shows "hasPrefix (udp_data (ns', svc', port)) (if svc \<noteq> '''' then ns @ ''/'' @ svc @ '':'' else ns @ ''/'') \<longleftrightarrow> ns' = ns \<and> (svc = '''' \<or> svc' = svc)"
proof -
  have sep: "CHR ''/'' \<notin> set ns" "CHR ''/'' \<notin> set ns'" "CHR '':'' \<notin> set svc'" "svc \<noteq> '''' \<Longrightarrow> CHR '':'' \<notin> set svc"
    using assms by (auto simp: plain_entry_def plain_name_def)
  then show ?thesis
    by (cases "svc = ''''") (auto simp: hasPrefix_iff udp_data_def append_sep_eq)
qed

lemma udp_rel_mset: "udp_rel T xs \<Longrightarrow> mset ys = mset xs \<Longrightarrow> udp_rel T ys"
  using mset_eq_imp_distinct_iff [of "map fst ys" "map fst xs"] mset_eq_setD [of ys xs] by (simp add: udp_rel_def mset_map)

lemma udp_rel_names:
  assumes "udp_rel T body" "plain_port p"
  shows "itoa p \<in> set (map fst body) \<longleftrightarrow> T p \<noteq> None"
proof -
  have "set (map fst body) = itoa ` dom T" using assms(1) by (simp add: udp_rel_def image_image fst_graph_eq_dom [symmetric])
  moreover have "plain_port q" if "q \<in> dom T" for q using udp_relD [OF assms(1)] that by (auto simp: plain_entry_def)
  ultimately have "itoa p \<in> set (map fst body) \<longleftrightarrow> p \<in> dom T" using itoa_inject [OF assms(2)] by blast
  then show ?thesis by (simp only: domIff)
qed

lemma udp_rel_add:
  assumes "udp_rel T body" "T p = None" "plain_entry p t"
  shows "udp_rel (T(p \<mapsto> t)) (body @ [(itoa p, udp_data t)])"
proof -
  have "itoa p \<notin> set (map fst body)" using udp_rel_names [OF assms(1)] assms(2,3) by (simp add: plain_entry_def)
  moreover have "Map.graph (T(p \<mapsto> t)) = insert (p, t) (Map.graph T)" using assms(2) by (simp add: fun_upd_idem)
  ultimately show ?thesis using assms unfolding udp_rel_def by auto
qed

lemma udp_rel_filter:
  assumes "udp_rel T body" "\<And>p t. T p = Some t \<Longrightarrow> P (itoa p, udp_data t) \<longleftrightarrow> Q p t"
  shows "udp_rel (\<lambda>p. case T p of None \<Rightarrow> None | Some t \<Rightarrow> if Q p t then Some t else None) (filter P body)"
  unfolding udp_rel_def
proof (intro conjI allI impI)
  show "distinct (map fst (filter P body))" using assms(1) by (simp add: udp_rel_def distinct_map_filter_key)
  have "Map.graph (\<lambda>p. case T p of None \<Rightarrow> None | Some t \<Rightarrow> if Q p t then Some t else None) = {e \<in> Map.graph T. Q (fst e) (snd e)}"
    (is "Map.graph ?T' = _")
  proof (rule set_eqI)
    fix e :: "int \<times> udp_target"
    obtain p t where e: "e = (p, t)" by (cases e)
    have "?T' p = Some t \<longleftrightarrow> T p = Some t \<and> Q p t" by (cases "T p") auto
    then show "e \<in> Map.graph ?T' \<longleftrightarrow> e \<in> {e \<in> Map.graph T. Q (fst e) (snd e)}" by (simp add: e in_graph del: split_paired_Ex)
  qed
  moreover have "map_prod itoa udp_data ` {e \<in> Map.graph T. Q (fst e) (snd e)} = {c \<in> map_prod itoa udp_data ` Map.graph T. P c}"
    using assms(2) by (auto simp: graph_def)
  ultimately show "set (filter P body) = map_prod itoa udp_data ` Map.graph (\<lambda>p. case T p of None \<Rightarrow> None | Some t \<Rightarrow> if Q p t then Some t else None)"
    using assms(1) by (simp add: udp_rel_def)
qed (use assms(1) in \<open>auto simp: udp_rel_def split: option.splits if_splits\<close>)

lemma remove_first_filter: "distinct (map fst xs) \<Longrightarrow> remove_first (\<lambda>c. fst c = a) xs = filter (\<lambda>c. fst c \<noteq> a) xs"
  by (induction xs) (auto intro!: filter_True [symmetric] simp: image_iff)

lemma udp_rel_remove:
  assumes "udp_rel T body" "plain_port p"
  shows "udp_rel (T(p := None)) (remove_first (\<lambda>c. fst c = itoa p) body)"
proof -
  have "plain_port q" if "T q = Some t" for q t using udp_relD [OF assms(1)] that by (auto simp: plain_entry_def)
  then have "udp_rel (\<lambda>q. case T q of None \<Rightarrow> None | Some t \<Rightarrow> if q \<noteq> p then Some t else None) (filter (\<lambda>c. fst c \<noteq> itoa p) body)"
    by (intro udp_rel_filter [OF assms(1)]) (auto simp: itoa_inject assms(2))
  moreover have "(\<lambda>q. case T q of None \<Rightarrow> None | Some t \<Rightarrow> if q \<noteq> p then Some t else None) = T(p := None)" by (auto split: option.splits)
  ultimately show ?thesis using assms(1) by (simp add: udp_rel_def remove_first_filter)
qed

text \<open>The entries the service of a namespace, or the whole namespace, has.\<close>

definition of_service :: "string \<Rightarrow> string \<Rightarrow> udp_target \<Rightarrow> bool" where
  "of_service ns svc t = (case t of (ns', svc', port) \<Rightarrow> ns' = ns \<and> (svc = '''' \<or> svc' = svc))"

definition without :: "string \<Rightarrow> string \<Rightarrow> (int \<rightharpoonup> udp_target) \<Rightarrow> int \<rightharpoonup> udp_target" where
  "without ns svc T p = (case T p of None \<Rightarrow> None | Some t \<Rightarrow> if of_service ns svc t then None else Some t)"

lemma udp_rel_clear:
  assumes "udp_rel T body" "plain_name ns" "svc = '''' \<or> plain_name svc"
  shows "udp_rel (without ns svc T) (filter (\<lambda>c. \<not> hasPrefix (snd c) (if svc \<noteq> '''' then ns @ ''/'' @ svc @ '':'' else ns @ ''/'')) body)"
proof -
  note pe = udp_relD [OF assms(1)]
  have "without ns svc T = (\<lambda>p. case T p of None \<Rightarrow> None | Some t \<Rightarrow> if \<not> of_service ns svc t then Some t else None)"
    by (rule ext) (simp add: without_def split: option.splits)
  moreover have "\<not> hasPrefix (udp_data t) (if svc \<noteq> '''' then ns @ ''/'' @ svc @ '':'' else ns @ ''/'') \<longleftrightarrow> \<not> of_service ns svc t" if "T p = Some t" for p t
    using udp_data_prefix [OF pe [of p "(fst t, fst (snd t), snd (snd t))"] assms(2,3)] that by (simp add: of_service_def case_prod_beta)
  ultimately show ?thesis using udp_rel_filter [OF assms(1), of _ "\<lambda>p t. \<not> of_service ns svc t"] by simp
qed

text \<open>How the loops over the table read it.\<close>

lemma udp_rel_Cons:
  assumes "udp_rel T ((name, data) # cs)"
  obtains p ns svc port where "name = itoa p" "data = udp_data (ns, svc, port)" "T p = Some (ns, svc, port)" "plain_entry p (ns, svc, port)"
    "udp_rel (T(p := None)) cs"
proof -
  have "(name, data) \<in> map_prod itoa udp_data ` Map.graph T" using assms by (auto simp: udp_rel_def)
  then obtain p ns svc port where e: "name = itoa p" "data = udp_data (ns, svc, port)" "T p = Some (ns, svc, port)" by (auto simp: graph_def)
  note pe = udp_relD [OF assms e(3)]
  have "udp_rel (T(p := None)) cs" using udp_rel_remove [OF assms, of p] pe e(1) by (simp add: plain_entry_def)
  with e pe that show ?thesis by blast
qed

lemma udp_port_free_iff:
  "udp_rel T body \<Longrightarrow> udp_port_free port body =
     (if T port = None then None else Some (''port '' @ itoa port @ '' is already used in config map '' @ NginxUDPConfigMapName))"
proof (induction body arbitrary: T)
  case Nil
  then have "Map.graph T = {}" by (simp add: udp_rel_def)
  from graph_empty_None [OF this] show ?case by simp
next
  case (Cons c cs)
  obtain name data where c: "c = (name, data)" by (cases c)
  from Cons.prems obtain p ns svc sp where e: "name = itoa p" "T p = Some (ns, svc, sp)" "plain_entry p (ns, svc, sp)" "udp_rel (T(p := None)) cs"
    unfolding c by (rule udp_rel_Cons)
  have "atoi name = Some p" using e(1,3) by (simp add: atoi_itoa plain_entry_def plain_port_def)
  then show ?case using Cons.IH [OF e(4)] e(2) c by (cases "p = port") auto
qed

definition udp_entry :: "int \<Rightarrow> udp_target \<Rightarrow> udp_ingress" where
  "udp_entry p t = (case t of (ns, svc, port) \<Rightarrow> \<lparr>ui_ID = itoa p, ui_Port = p, ui_ServiceName = svc, ui_ServicePort = port\<rparr>)"

lemma udp_entries_step:
  assumes "plain_entry p (ns', svc, port)" "ns \<noteq> ''''"
  shows "udp_entries ns portStr ((itoa p, udp_data (ns', svc, port)) # cs) =
     (if ns' \<noteq> ns \<or> portStr \<noteq> '''' \<and> itoa p \<noteq> portStr then udp_entries ns portStr cs
      else if portStr \<noteq> '''' then Inr [udp_entry p (ns', svc, port)]
      else map_sum (\<lambda>e. e) ((#) (udp_entry p (ns', svc, port))) (udp_entries ns portStr cs))"
proof -
  have "atoi (itoa p) = Some p" "p \<noteq> 0" "atoi (itoa port) = Some port" "port \<noteq> 0"
    using assms(1) by (auto simp: plain_entry_def plain_port_def intro!: atoi_itoa)
  then show ?thesis using udp_data_split [OF assms(1)] assms(2) by (simp add: udp_entry_def Let_def)
qed

lemma udp_entries_list:
  assumes "udp_rel T body" "ns \<noteq> ''''"
  shows "\<exists>is. udp_entries ns '''' body = Inr is \<and> set is = case_prod udp_entry ` {e \<in> Map.graph T. fst (snd e) = ns}"
  using assms(1)
proof (induction body arbitrary: T)
  case Nil
  then have "Map.graph T = {}" by (simp add: udp_rel_def)
  then show ?case by simp
next
  case (Cons c cs)
  obtain name data where c: "c = (name, data)" by (cases c)
  from Cons.prems obtain p ns' svc port where e: "name = itoa p" "data = udp_data (ns', svc, port)" "T p = Some (ns', svc, port)"
    "plain_entry p (ns', svc, port)" "udp_rel (T(p := None)) cs" unfolding c by (rule udp_rel_Cons)
  from Cons.IH [OF e(5)] obtain es where es: "udp_entries ns '''' cs = Inr es"
    "set es = case_prod udp_entry ` {e \<in> Map.graph (T(p := None)). fst (snd e) = ns}" by blast
  have "{e \<in> Map.graph T. fst (snd e) = ns}
      = (if ns' = ns then {(p, ns', svc, port)} else {}) \<union> {e \<in> Map.graph (T(p := None)). fst (snd e) = ns}"
    unfolding graph_insert [of T p, OF e(3)] by auto
  then have "set (if ns' = ns then udp_entry p (ns', svc, port) # es else es) = case_prod udp_entry ` {e \<in> Map.graph T. fst (snd e) = ns}"
    by (simp add: es(2) image_Un)
  then show ?case using udp_entries_step [OF e(4) assms(2), of "''''" cs] es(1) c e(1,2) by (cases "ns' = ns") auto
qed

lemma udp_entries_get:
  assumes "udp_rel T body" "ns \<noteq> ''''" "plain_port q"
  shows "udp_entries ns (itoa q) body = Inr (case T q of None \<Rightarrow> [] | Some t \<Rightarrow> if fst t = ns then [udp_entry q t] else [])"
  using assms(1)
proof (induction body arbitrary: T)
  case Nil
  then have "Map.graph T = {}" by (simp add: udp_rel_def)
  from graph_empty_None [OF this] show ?case by simp
next
  case (Cons c cs)
  obtain name data where c: "c = (name, data)" by (cases c)
  from Cons.prems obtain p ns' svc port where e: "name = itoa p" "data = udp_data (ns', svc, port)" "T p = Some (ns', svc, port)"
    "plain_entry p (ns', svc, port)" "udp_rel (T(p := None)) cs" unfolding c by (rule udp_rel_Cons)
  have "itoa q \<noteq> ''''" by (simp add: itoa_def)
  moreover have "itoa p = itoa q \<longleftrightarrow> p = q" using e(4) assms(3) itoa_inject by (simp add: plain_entry_def)
  ultimately show ?case using udp_entries_step [OF e(4) assms(2), of "itoa q" cs] Cons.IH [OF e(5)] c e(1-3) by auto
qed

section \<open>A server with the table\<close>

text \<open>The pairs of a configuration map are kept, in whatever order. \<open>udp_abs\<close> relates the table to the state of the server.\<close>

definition udp_abs :: "('k \<Rightarrow> string \<times> string \<rightharpoonup> pairs k8s_obj) \<Rightarrow> (int \<rightharpoonup> udp_target) \<Rightarrow> 'k \<Rightarrow> bool" where
  "udp_abs view T k \<longleftrightarrow>
     (\<exists>obj. view k (NginxIngressNamespace, NginxUDPConfigMapName) = Some obj \<and> ko_deletion obj = None \<and> udp_rel T (ko_body obj))"

locale udp_server = kube_live K view mset for K :: "('k, pairs) kube_api" and view
begin

lemma udp_abs_get:
  assumes "udp_abs view T k"
  obtains obj where "kGet K NginxIngressNamespace NginxUDPConfigMapName k = Inr obj" "udp_rel T (ko_body obj)" "ko_deletion obj = None"
    "ko_namespace obj = NginxIngressNamespace" "ko_name obj = NginxUDPConfigMapName"
proof -
  obtain obj where obj: "view k (NginxIngressNamespace, NginxUDPConfigMapName) = Some obj" "ko_deletion obj = None" "udp_rel T (ko_body obj)"
    using assms unfolding udp_abs_def by blast
  show ?thesis using that [OF get_live [OF obj(1)] obj(3,2)] view_key [OF obj(1)] by simp
qed

lemma update_table:
  assumes abs: "udp_abs view T k" and get: "kGet K NginxIngressNamespace NginxUDPConfigMapName k = Inr obj"
    and new: "udp_rel T' body'" "updateConfigMap K NginxIngressNamespace ((k8sConfigMapToSCConfigMap obj)\<lparr>cm_Configs := body'\<rparr>) k = (k', r)"
  shows "if r = None then udp_abs view T' k' else udp_abs view T k'"
proof -
  from abs get obtain T0: "ko_deletion obj = None" "ko_namespace obj = NginxIngressNamespace" "ko_name obj = NginxUDPConfigMapName"
    by (auto elim: udp_abs_get)
  have "distinct (map fst body')" using new(1) by (simp add: udp_rel_def)
  then have u: "kUpdate K (obj\<lparr>ko_body := body'\<rparr>) k = (k', r)"
    using new(2) get T0 by (simp add: updateConfigMap_def k8sConfigMapToSCConfigMap_def scConfigMapToK8sConfigMap_def build_map_Nil new_obj_def)
  show ?thesis
  proof (cases r)
    case None
    from update_view [OF u [unfolded None]] T0 obtain obj0 obj' where o: "view k (NginxIngressNamespace, NginxUDPConfigMapName) = Some obj0"
      "view k' = (view k)((NginxIngressNamespace, NginxUDPConfigMapName) \<mapsto> obj')" "ko_deletion obj' = ko_deletion obj0" "mset (ko_body obj') = mset body'" by auto
    have "ko_deletion obj0 = None" using o(1) get_view [OF get] T0(1) by simp
    then show ?thesis using None o(2,3) udp_rel_mset [OF new(1) o(4)] by (auto simp: udp_abs_def)
  next
    case (Some e)
    then show ?thesis using update_err [OF u [unfolded Some]] abs by (simp add: udp_abs_def)
  qed
qed

lemma create_udp:
  assumes abs: "udp_abs view T k" and fit: "plain_entry (ui_Port i) (ns, ui_ServiceName i, ui_ServicePort i)" and c: "createUDPIngress K ns i k = (k', r)"
  shows "if r = None then T (ui_Port i) = None \<and> udp_abs view (T(ui_Port i \<mapsto> (ns, ui_ServiceName i, ui_ServicePort i))) k' else udp_abs view T k'"
proof -
  obtain obj where obj: "kGet K NginxIngressNamespace NginxUDPConfigMapName k = Inr obj" "udp_rel T (ko_body obj)" using abs by (rule udp_abs_get)
  show ?thesis
  proof (cases "T (ui_Port i)")
    case None
    let ?d = "udp_data (ns, ui_ServiceName i, ui_ServicePort i)"
    have "updateConfigMap K NginxIngressNamespace ((k8sConfigMapToSCConfigMap obj)\<lparr>cm_Configs := ko_body obj @ [(itoa (ui_Port i), ?d)]\<rparr>) k = (k', r)"
      using c obj(1) None udp_port_free_iff [OF obj(2)] by (simp add: createUDPIngress_def k8sConfigMapToSCConfigMap_def udp_data_def)
    from update_table [OF abs obj(1) udp_rel_add [OF obj(2) None fit] this] None show ?thesis by simp
  next
    case (Some t)
    then show ?thesis using c obj(1) udp_port_free_iff [OF obj(2)] abs by (auto simp: createUDPIngress_def k8sConfigMapToSCConfigMap_def)
  qed
qed

lemma create_udp_used:
  assumes "udp_abs view T k" "T (ui_Port i) \<noteq> None"
  shows "createUDPIngress K ns i k
    = (k, Some (OwnErr (''port '' @ itoa (ui_Port i) @ '' is already used in config map '' @ NginxUDPConfigMapName)))"
proof -
  obtain obj where obj: "kGet K NginxIngressNamespace NginxUDPConfigMapName k = Inr obj" "udp_rel T (ko_body obj)" using assms(1) by (rule udp_abs_get)
  have "udp_port_free (ui_Port i) (ko_body obj) = Some (''port '' @ itoa (ui_Port i) @ '' is already used in config map '' @ NginxUDPConfigMapName)"
    unfolding udp_port_free_iff [OF obj(2)] using assms(2) by (rule if_not_P)
  then show ?thesis using obj(1) by (simp add: createUDPIngress_def k8sConfigMapToSCConfigMap_def)
qed

lemma delete_udp:
  assumes abs: "udp_abs view T k" and d: "deleteTransportLayerIngress K name k = (k', has, r)"
  shows "if has \<and> r = None then \<exists>p. name = itoa p \<and> T p \<noteq> None \<and> udp_abs view (T(p := None)) k' else udp_abs view T k'"
proof -
  obtain obj where obj: "kGet K NginxIngressNamespace NginxUDPConfigMapName k = Inr obj" "udp_rel T (ko_body obj)" using abs by (rule udp_abs_get)
  show ?thesis
  proof (cases "list_ex (\<lambda>c. fst c = name) (ko_body obj)")
    case True
    then obtain data where "(name, data) \<in> set (ko_body obj)" by (auto simp: list_ex_iff)
    then have "(name, data) \<in> map_prod itoa udp_data ` Map.graph T" using obj(2) by (simp add: udp_rel_def)
    then obtain p t where p: "name = itoa p" "T p = Some t" by (auto simp: in_graph)
    then have port: "plain_port p" "T p \<noteq> None" using udp_relD [OF obj(2) p(2)] by (simp_all add: plain_entry_def)
    have "has \<and> updateConfigMap K NginxIngressNamespace
        ((k8sConfigMapToSCConfigMap obj)\<lparr>cm_Configs := remove_first (\<lambda>c. fst c = itoa p) (ko_body obj)\<rparr>) k = (k', r)"
      using d obj(1) True p(1) by (auto simp: deleteTransportLayerIngress_def k8sConfigMapToSCConfigMap_def split: prod.splits)
    then show ?thesis using update_table [OF abs obj(1) udp_rel_remove [OF obj(2) port(1)]] p(1) port(2) by (cases r) auto
  next
    case False
    then show ?thesis using d obj(1) abs by (simp add: deleteTransportLayerIngress_def k8sConfigMapToSCConfigMap_def)
  qed
qed

lemma clear_udp:
  assumes abs: "udp_abs view T k" and fit: "plain_name ns" "svc = '''' \<or> plain_name svc" and c: "clearTransportLayerIngress K ns svc k = (k', r)"
  shows "if r = None then udp_abs view (without ns svc T) k' else udp_abs view T k'"
proof -
  let ?P = "\<lambda>c. \<not> hasPrefix (snd c) (if svc \<noteq> '''' then ns @ ''/'' @ svc @ '':'' else ns @ ''/'')"
  obtain obj where obj: "kGet K NginxIngressNamespace NginxUDPConfigMapName k = Inr obj" "udp_rel T (ko_body obj)" using abs by (rule udp_abs_get)
  note clear = udp_rel_clear [OF obj(2) fit]
  show ?thesis
  proof (cases "length (filter ?P (ko_body obj)) = length (ko_body obj)")
    case True
    then have "filter ?P (ko_body obj) = ko_body obj" by (metis filter_True length_filter_less less_irrefl)
    with clear have "udp_rel (without ns svc T) (ko_body obj)" by (simp only:)
    moreover have "k' = k" "r = None" using c obj(1) True by (simp_all add: clearTransportLayerIngress_def k8sConfigMapToSCConfigMap_def Let_def)
    moreover have "view k (NginxIngressNamespace, NginxUDPConfigMapName) = Some obj" "ko_deletion obj = None"
      using obj(1) get_view abs by (auto elim: udp_abs_get)
    ultimately show ?thesis by (simp add: udp_abs_def)
  next
    case False
    then have "updateConfigMap K NginxIngressNamespace ((k8sConfigMapToSCConfigMap obj)\<lparr>cm_Configs := filter ?P (ko_body obj)\<rparr>) k = (k', r)"
      using c obj(1) by (simp add: clearTransportLayerIngress_def k8sConfigMapToSCConfigMap_def Let_def)
    from update_table [OF abs obj(1) clear this] show ?thesis .
  qed
qed

lemma list_udp:
  assumes "udp_abs view T k" "ns \<noteq> ''''"
  shows "\<exists>is. getTransportLayerIngress K ns '''' k = Inr is \<and> set is = case_prod udp_entry ` {e \<in> Map.graph T. fst (snd e) = ns}"
proof -
  obtain obj where obj: "kGet K NginxIngressNamespace NginxUDPConfigMapName k = Inr obj" "udp_rel T (ko_body obj)" using assms(1) by (rule udp_abs_get)
  from udp_entries_list [OF obj(2) assms(2)] obj(1) show ?thesis
    by (auto simp: getTransportLayerIngress_def k8sConfigMapToSCConfigMap_def)
qed

lemma get_udp:
  assumes "udp_abs view T k" "ns \<noteq> ''''" "plain_port p"
  shows "getTransportLayerIngress K ns (itoa p) k = Inr (case T p of None \<Rightarrow> [] | Some t \<Rightarrow> if fst t = ns then [udp_entry p t] else [])"
proof -
  obtain obj where obj: "kGet K NginxIngressNamespace NginxUDPConfigMapName k = Inr obj" "udp_rel T (ko_body obj)" using assms(1) by (rule udp_abs_get)
  from udp_entries_get [OF obj(2) assms(2,3)] obj(1) show ?thesis
    by (simp add: getTransportLayerIngress_def k8sConfigMapToSCConfigMap_def)
qed

end

interpretation mem_udp: udp_server mem_kube mem_view
  unfolding udp_server_def by (rule mem_kube_kept)

text \<open>The handlers in terms of the table; \<open>after\<close> says what they leave.\<close>

definition after :: "('k \<Rightarrow> bool) \<Rightarrow> string \<Rightarrow> 'k kubes \<Rightarrow> 'k kubes \<Rightarrow> bool" where
  "after P c ks ks' \<longleftrightarrow> (\<exists>k'. ks' = ks(c \<mapsto> k') \<and> P k')"

context udp_server
begin

lemma udp_Create_step:
  assumes "ks (sx_cluster ctx) = Some k" "udp_abs view T k"
    and "plain_entry (ui_Port (sx_resource ctx)) (sx_namespace ctx, ui_ServiceName (sx_resource ctx), ui_ServicePort (sx_resource ctx))"
    and c: "udp_Create K ctx ks = (ks', r)"
  shows "case r of
      Inl e \<Rightarrow> after (udp_abs view T) (sx_cluster ctx) ks ks'
    | Inr i \<Rightarrow> T (ui_Port (sx_resource ctx)) = None \<and> i = (sx_resource ctx)\<lparr>ui_ID := itoa (ui_Port (sx_resource ctx))\<rparr>
        \<and> after (udp_abs view (T(ui_Port (sx_resource ctx) \<mapsto> (sx_namespace ctx, ui_ServiceName (sx_resource ctx), ui_ServicePort (sx_resource ctx)))))
            (sx_cluster ctx) ks ks'"
proof -
  obtain k' e where u: "createUDPIngress K (sx_namespace ctx) (sx_resource ctx) k = (k', e)" by force
  from create_udp [OF assms(2,3) u] c u assms(1) show ?thesis
    by (cases e) (auto simp: udp_Create_def on_cluster_def Let_def answer_def after_def)
qed

lemma udp_Delete_step:
  assumes "ks (sx_cluster ctx) = Some k" "udp_abs view T k" and d: "udp_Delete K ctx ks = (ks', r)"
  shows "case r of
      Inl e \<Rightarrow> after (udp_abs view T) (sx_cluster ctx) ks ks'
    | Inr u \<Rightarrow> \<exists>q. ui_ID (sx_resource ctx) = itoa q \<and> T q \<noteq> None \<and> after (udp_abs view (T(q := None))) (sx_cluster ctx) ks ks'"
proof -
  obtain k' h e where u: "deleteTransportLayerIngress K (ui_ID (sx_resource ctx)) k = (k', h, e)" by (metis prod_cases3)
  have ks': "ks' = ks(sx_cluster ctx \<mapsto> k')" "(\<exists>v. r = Inr v) \<longleftrightarrow> h \<and> e = None"
    using d u assms(1) by (cases e; cases h; auto simp: udp_Delete_def on_cluster_def)+
  show ?thesis
  proof (cases r)
    case (Inl a)
    then have "\<not> (h \<and> e = None)" using ks'(2) by simp
    then have "udp_abs view T k'" using delete_udp [OF assms(2) u] by (simp only: if_False)
    then show ?thesis using Inl ks'(1) by (auto simp: after_def)
  next
    case (Inr v)
    then have "h \<and> e = None" using ks'(2) by blast
    with delete_udp [OF assms(2) u] obtain q where "ui_ID (sx_resource ctx) = itoa q" "T q \<noteq> None" "udp_abs view (T(q := None)) k'" by (simp only: simp_thms if_True) blast
    then show ?thesis unfolding Inr sum.case after_def using ks'(1) by blast
  qed
qed

lemma udp_event_step:
  assumes "ks c = Some k" "udp_abs view T k" "plain_name ns" "plain_name svc"
  shows "after (udp_abs view (if snd (clearTransportLayerIngress K ns '''' k) = None then without ns '''' T else T)) c ks
      (udp_event K (DeletedNamespace c ns) ks)"
    "after (udp_abs view (if snd (clearTransportLayerIngress K ns svc k) = None then without ns svc T else T)) c ks
      (udp_event K (DeletedService c ns svc) ks)"
proof -
  obtain k1 e1 where u: "clearTransportLayerIngress K ns '''' k = (k1, e1)" by force
  from clear_udp [OF assms(2,3) _ this] u assms(1)
  show "after (udp_abs view (if snd (clearTransportLayerIngress K ns '''' k) = None then without ns '''' T else T)) c ks
      (udp_event K (DeletedNamespace c ns) ks)"
    by (auto simp: after_def split: if_splits)
  obtain k2 e2 where v: "clearTransportLayerIngress K ns svc k = (k2, e2)" by force
  from clear_udp [OF assms(2,3) _ this] v assms(1,4)
  show "after (udp_abs view (if snd (clearTransportLayerIngress K ns svc k) = None then without ns svc T else T)) c ks
      (udp_event K (DeletedService c ns svc) ks)"
    by (auto simp: after_def split: if_splits)
qed

lemma udp_reads:
  assumes "ks (sx_cluster ctx) = Some k" "udp_abs view T k" "plain_name (sx_namespace ctx)"
  shows "\<exists>is. udp_List K ctx ks = Inr is \<and> set is = case_prod udp_entry ` {e \<in> Map.graph T. fst (snd e) = sx_namespace ctx}"
    "plain_port q \<Longrightarrow> ui_ID (sx_resource ctx) = itoa q \<Longrightarrow> udp_Get K ctx ks =
      (case T q of
         Some t \<Rightarrow> if fst t = sx_namespace ctx then Inr (udp_entry q t) else Inl (APIError NotFound (''no found udp ingress '' @ itoa q))
       | None \<Rightarrow> Inl (APIError NotFound (''no found udp ingress '' @ itoa q)))"
proof -
  have ns: "sx_namespace ctx \<noteq> ''''" using assms(3) by (simp add: plain_name_def)
  from list_udp [OF assms(2) ns] show "\<exists>is. udp_List K ctx ks = Inr is \<and> set is = case_prod udp_entry ` {e \<in> Map.graph T. fst (snd e) = sx_namespace ctx}"
    using assms(1) by (auto simp: udp_List_def read_cluster_def)
  assume q: "plain_port q" "ui_ID (sx_resource ctx) = itoa q"
  show "udp_Get K ctx ks =
      (case T q of
         Some t \<Rightarrow> if fst t = sx_namespace ctx then Inr (udp_entry q t) else Inl (APIError NotFound (''no found udp ingress '' @ itoa q))
       | None \<Rightarrow> Inl (APIError NotFound (''no found udp ingress '' @ itoa q)))"
    using get_udp [OF assms(2) ns q(1)] q(2) assms(1) by (cases "T q") (simp_all add: udp_Get_def read_cluster_def)
qed

end

text \<open>
  C19. The entries of the configuration map stand for a table from ports to services: a request adds an entry
  only for a port that is free, a failed request changes nothing, a namespace sees its own entries and no
  others. A deletion takes the entry of its port out of the table, whatever namespace the entry belongs to.
\<close>

theorem udp_ingress_refines_ports:
  fixes ctx :: "udp_ingress sub_ctx"
  defines "p \<equiv> ui_Port (sx_resource ctx)"
    and "t \<equiv> (sx_namespace ctx, ui_ServiceName (sx_resource ctx), ui_ServicePort (sx_resource ctx))"
  assumes laws: "udp_server K view" and ks: "ks (sx_cluster ctx) = Some k" "udp_abs view T k" and fit: "plain_entry p t"
  shows "(case udp_Create K ctx ks of
            (ks', Inl e) \<Rightarrow> after (udp_abs view T) (sx_cluster ctx) ks ks'
          | (ks', Inr i) \<Rightarrow> T p = None \<and> i = (sx_resource ctx)\<lparr>ui_ID := itoa p\<rparr> \<and> after (udp_abs view (T(p \<mapsto> t))) (sx_cluster ctx) ks ks')
    \<and> (case udp_Delete K ctx ks of
          (ks', Inl e) \<Rightarrow> after (udp_abs view T) (sx_cluster ctx) ks ks'
        | (ks', Inr u) \<Rightarrow> \<exists>q. ui_ID (sx_resource ctx) = itoa q \<and> T q \<noteq> None \<and> after (udp_abs view (T(q := None))) (sx_cluster ctx) ks ks')
    \<and> (\<exists>is. udp_List K ctx ks = Inr is \<and> set is = case_prod udp_entry ` {e \<in> Map.graph T. fst (snd e) = sx_namespace ctx})
    \<and> after (udp_abs view (if snd (clearTransportLayerIngress K (sx_namespace ctx) '''' k) = None then without (sx_namespace ctx) '''' T else T)) (sx_cluster ctx) ks
        (udp_event K (DeletedNamespace (sx_cluster ctx) (sx_namespace ctx)) ks)"
proof -
  have ns: "plain_name (sx_namespace ctx)" using fit by (simp add: plain_entry_def t_def)
  obtain ks1 r1 where c: "udp_Create K ctx ks = (ks1, r1)" by force
  obtain ks2 r2 where d: "udp_Delete K ctx ks = (ks2, r2)" by force
  show ?thesis
    using udp_server.udp_Create_step [OF laws ks fit [unfolded p_def t_def] c] udp_server.udp_Delete_step [OF laws ks d]
      udp_server.udp_reads(1) [of K view ks ctx k T, OF laws ks ns] udp_server.udp_event_step(1) [of K view ks "sx_cluster ctx" k T, OF laws ks ns ns] c d
    unfolding p_def t_def by (cases r1; cases r2) auto
qed

definition udp_world :: "pairs mem_kube" where
  "udp_world = [((NginxIngressNamespace, NginxUDPConfigMapName), new_obj NginxIngressNamespace NginxUDPConfigMapName
     [(''53'', ''team/dns:5353''), (''69'', ''team/boot:69'')])]"

definition udp_table :: "int \<rightharpoonup> udp_target" where
  "udp_table = [53 \<mapsto> (''team'', ''dns'', 5353), 69 \<mapsto> (''team'', ''boot'', 69)]"

lemma udp_world_rel: "udp_rel udp_table [(''53'', ''team/dns:5353''), (''69'', ''team/boot:69'')]"
proof -
  have tx: "itoa 53 = ''53''" "itoa 69 = ''69''" "udp_data (''team'', ''dns'', 5353) = ''team/dns:5353''" "udp_data (''team'', ''boot'', 69) = ''team/boot:69''"
    by (simp_all add: udp_data_def decimal_texts)
  have "udp_rel Map.empty []" by (simp add: udp_rel_def)
  from udp_rel_add [OF this, of 53 "(''team'', ''dns'', 5353)"] have "udp_rel [53 \<mapsto> (''team'', ''dns'', 5353)] [(''53'', ''team/dns:5353'')]"
    by (simp add: tx plain_entry_def plain_port_def plain_name_def)
  from udp_rel_add [OF this, of 69 "(''team'', ''boot'', 69)"] show ?thesis
    by (simp add: tx udp_table_def plain_entry_def plain_port_def plain_name_def)
qed

lemma udp_world_abs: "udp_abs mem_view udp_table udp_world"
  using udp_world_rel by (simp add: udp_abs_def udp_world_def mem_view_def new_obj_def)

definition sample_udp :: "udp_ingress sub_ctx" where
  "sample_udp = \<lparr>sx_cluster = ''c'', sx_namespace = ''default'',
     sx_resource = \<lparr>ui_ID = ''53'', ui_Port = 514, ui_ServiceName = ''syslog'', ui_ServicePort = 5140\<rparr>\<rparr>"

lemma udp_world_create: "case createUDPIngress mem_kube ''default'' (sx_resource sample_udp) udp_world of (k, r) \<Rightarrow> r = None"
proof -
  have "atoi ''53'' = Some 53" "atoi ''69'' = Some 69" using atoi_itoa [of 53] atoi_itoa [of 69] by (simp_all add: decimal_texts)
  then show ?thesis
    by (simp add: createUDPIngress_def sample_udp_def udp_world_def mem_kube_def mem_view_def new_obj_def k8sConfigMapToSCConfigMap_def decimal_texts
      updateConfigMap_def scConfigMapToK8sConfigMap_def build_map_Nil Let_def)
qed

text \<open>Here the request comes from another namespace than the entry it deletes.\<close>

theorem udp_ingress_refines_ports_witness:
  "\<exists>ks'. udp_Delete mem_kube sample_udp [''c'' \<mapsto> udp_world] = (ks', Inr ())
    \<and> after (udp_abs mem_view (udp_table(53 := None))) ''c'' [''c'' \<mapsto> udp_world] ks'
    \<and> after (udp_abs mem_view (udp_table(514 \<mapsto> (''default'', ''syslog'', 5140)))) ''c'' [''c'' \<mapsto> udp_world] (fst (udp_Create mem_kube sample_udp [''c'' \<mapsto> udp_world]))"
proof -
  let ?ks = "[''c'' \<mapsto> udp_world]"
  have fit: "plain_entry (ui_Port (sx_resource sample_udp)) (sx_namespace sample_udp, ui_ServiceName (sx_resource sample_udp), ui_ServicePort (sx_resource sample_udp))"
    by (simp add: plain_entry_def plain_port_def plain_name_def sample_udp_def)
  have ctx: "sx_cluster sample_udp = ''c''" "sx_namespace sample_udp = ''default''" "ui_ID (sx_resource sample_udp) = ''53''"
    by (simp_all add: sample_udp_def)
  have "case createUDPIngress mem_kube ''default'' (sx_resource sample_udp) udp_world of (k, r) \<Rightarrow> r = None" by (rule udp_world_create)
  then obtain ks1 i where c: "udp_Create mem_kube sample_udp ?ks = (ks1, Inr i)" by (auto simp: udp_Create_def ctx on_cluster_def answer_def Let_def)
  have "case deleteTransportLayerIngress mem_kube ''53'' udp_world of (k, h, r) \<Rightarrow> h \<and> r = None" by code_simp
  then obtain ks2 where d: "udp_Delete mem_kube sample_udp ?ks = (ks2, Inr ())" by (auto simp: udp_Delete_def ctx on_cluster_def)
  have "?ks (sx_cluster sample_udp) = Some udp_world" by (simp add: sample_udp_def)
  note all = udp_ingress_refines_ports [of mem_kube mem_view ?ks sample_udp udp_world udp_table, OF mem_udp.udp_server_axioms this udp_world_abs fit]
  have "itoa 53 = ''53''" by (rule decimal_texts)
  moreover have "plain_port q" if "udp_table q \<noteq> None" for q
    using udp_relD [OF udp_world_rel, of q] that by (cases "udp_table q") (simp_all add: plain_entry_def)
  moreover have "plain_port 53" by (simp add: plain_port_def)
  ultimately have q: "q = 53" if "''53'' = itoa q" "udp_table q \<noteq> None" for q
    using itoa_inject [of q 53] that by simp
  from all d obtain q where "ui_ID (sx_resource sample_udp) = itoa q" "udp_table q \<noteq> None"
    "after (udp_abs mem_view (udp_table(q := None))) (sx_cluster sample_udp) ?ks ks2" by (simp only: prod.case sum.case) blast
  with q have "after (udp_abs mem_view (udp_table(53 := None))) ''c'' ?ks ks2" by (simp add: sample_udp_def)
  moreover have "after (udp_abs mem_view (udp_table(514 \<mapsto> (''default'', ''syslog'', 5140)))) ''c'' ?ks ks1" using all c by (simp add: sample_udp_def)
  ultimately show ?thesis using c d by simp
qed

section \<open>Services and the table together\<close>

locale net_server = svcs: kube_live KS sview service_kept + udp: udp_server KC cview
  for KS :: "('k, service_body) kube_api" and sview and KC :: "('k, pairs) kube_api" and cview +
  assumes delete_keeps_table: "kDelete KS ns n k = (k', r) \<Longrightarrow> cview k' = cview k"
begin

text \<open>A deletion is published when it succeeded, and the entries of the service go when the event is handled.\<close>

lemma svc_Delete_event:
  assumes d: "svc_Delete KS ctx ks = ((ks', Inr u), evs)" and ks: "ks (sx_cluster ctx) = Some k" "udp_abs cview T k"
    and fit: "plain_name (sx_namespace ctx)" "plain_name (sv_ID (sx_resource ctx))"
  shows "evs = [DeletedService (sx_cluster ctx) (sx_namespace ctx) (sv_ID (sx_resource ctx))]
    \<and> (\<exists>k1. ks' = ks(sx_cluster ctx \<mapsto> k1)
        \<and> after (udp_abs cview (if snd (clearTransportLayerIngress KC (sx_namespace ctx) (sv_ID (sx_resource ctx)) k1) = None
                               then without (sx_namespace ctx) (sv_ID (sx_resource ctx)) T else T))
            (sx_cluster ctx) ks (foldl (\<lambda>ks ev. udp_event KC ev ks) ks' evs))"
proof -
  obtain k1 r where del: "kDelete KS (sx_namespace ctx) (sv_ID (sx_resource ctx)) k = (k1, r)" by force
  have ks': "ks' = ks(sx_cluster ctx \<mapsto> k1)"
    and evs: "evs = [DeletedService (sx_cluster ctx) (sx_namespace ctx) (sv_ID (sx_resource ctx))]"
    using d ks(1) del by (cases r; simp add: svc_Delete_def on_cluster_def answer_def Let_def)+
  have "udp_abs cview T k1" using ks(2) delete_keeps_table [OF del] by (simp add: udp_abs_def)
  from udp.udp_event_step(2) [of ks' "sx_cluster ctx" k1 T, OF _ this fit] ks' evs show ?thesis by (intro conjI exI [of _ k1]) (auto simp: after_def)
qed

end

text \<open>A server in memory with services and configuration maps.\<close>

abbreviation mem_services :: "(service_body mem_kube \<times> pairs mem_kube, service_body) kube_api" where
  "mem_services \<equiv> lift_api fst (\<lambda>a k. (a, snd k)) mem_kube"

abbreviation mem_tables :: "(service_body mem_kube \<times> pairs mem_kube, pairs) kube_api" where
  "mem_tables \<equiv> lift_api snd (\<lambda>a k. (fst k, a)) mem_kube"

interpretation mem_net: net_server mem_services "\<lambda>k. mem_view (fst k)" mem_tables "\<lambda>k. mem_view (snd k)"
proof -
  have s: "kube_live mem_services (\<lambda>k. mem_view (fst k)) service_kept" by (rule lift_api_live [OF mem_kube_kept]) simp
  have "kube_live mem_tables (\<lambda>k. mem_view (snd k)) mset" by (rule lift_api_live [OF mem_kube_kept]) simp
  moreover have "net_server_axioms mem_services (\<lambda>k. mem_view (snd k))" by unfold_locales (auto simp: lift_api_def split: prod.splits)
  ultimately show "net_server mem_services (\<lambda>k. mem_view (fst k)) mem_tables (\<lambda>k. mem_view (snd k))"
    using s by (simp add: net_server_def udp_server_def)
qed

text \<open>
  When a service was deleted and the event handled, the entries of the service have left the UDP table
  and all others are still there, unless the write failed, which is only logged: then the table is unchanged,
  and the entries of the service stay although the service is gone.
\<close>

theorem service_delete_clears_udp:
  assumes laws: "net_server KS sview KC cview" and d: "svc_Delete KS ctx ks = ((ks', Inr u), evs)"
    and ks: "ks (sx_cluster ctx) = Some k" "udp_abs cview T k"
    and fit: "plain_name (sx_namespace ctx)" "plain_name (sv_ID (sx_resource ctx))"
  shows "evs = [DeletedService (sx_cluster ctx) (sx_namespace ctx) (sv_ID (sx_resource ctx))]
    \<and> (\<exists>k1. ks' = ks(sx_cluster ctx \<mapsto> k1)
        \<and> after (udp_abs cview (if snd (clearTransportLayerIngress KC (sx_namespace ctx) (sv_ID (sx_resource ctx)) k1) = None
                               then without (sx_namespace ctx) (sv_ID (sx_resource ctx)) T else T))
            (sx_cluster ctx) ks (foldl (\<lambda>ks ev. udp_event KC ev ks) ks' evs))"
  using net_server.svc_Delete_event [OF laws d ks fit] .

definition net_world :: "service_body mem_kube \<times> pairs mem_kube" where
  "net_world =
     ([((''team'', ''dns''), new_obj ''team'' ''dns'' \<lparr>vb_Annotations = [], vb_Selector = [], vb_Ports = [], vb_Type = ''ClusterIP'', vb_ClusterIP = ''''\<rparr>)],
      udp_world)"

definition sample_delete :: "service sub_ctx" where
  "sample_delete = sample_service\<lparr>sx_namespace := ''team'', sx_resource := (sx_resource sample_service)\<lparr>sv_ID := ''dns''\<rparr>\<rparr>"

theorem service_delete_clears_udp_witness:
  "\<exists>ks' evs. svc_Delete mem_services sample_delete [''c'' \<mapsto> net_world] = ((ks', Inr ()), evs)
    \<and> after (udp_abs (\<lambda>k. mem_view (snd k)) [69 \<mapsto> (''team'', ''boot'', 69)]) ''c'' [''c'' \<mapsto> net_world] (foldl (\<lambda>ks ev. udp_event mem_tables ev ks) ks' evs)"
proof -
  let ?ks = "[''c'' \<mapsto> net_world]" and ?k1 = "([], udp_world) :: service_body mem_kube \<times> pairs mem_kube"
  have del: "kDelete mem_services ''team'' ''dns'' net_world = (?k1, None)" by (simp add: lift_api_def mem_kube_def net_world_def)
  then have d: "svc_Delete mem_services sample_delete ?ks = ((?ks(''c'' \<mapsto> ?k1), Inr ()), [DeletedService ''c'' ''team'' ''dns''])"
    by (simp add: svc_Delete_def sample_delete_def sample_service_def on_cluster_def answer_def Let_def)
  have ks: "?ks (sx_cluster sample_delete) = Some net_world" by (simp add: sample_delete_def sample_service_def)
  have abs: "udp_abs (\<lambda>k. mem_view (snd k)) udp_table net_world" using udp_world_abs by (simp add: udp_abs_def net_world_def)
  have fit: "plain_name (sx_namespace sample_delete)" "plain_name (sv_ID (sx_resource sample_delete))"
    by (simp_all add: sample_delete_def plain_name_def)
  have "snd (clearTransportLayerIngress mem_tables ''team'' ''dns'' ?k1) = None" by code_simp
  moreover have "without ''team'' ''dns'' udp_table = [69 \<mapsto> (''team'', ''boot'', 69)]"
    by (rule ext) (simp add: without_def udp_table_def of_service_def)
  moreover have ctx: "sx_cluster sample_delete = ''c''" "sx_namespace sample_delete = ''team''" "sv_ID (sx_resource sample_delete) = ''dns''"
    by (simp_all add: sample_delete_def sample_service_def)
  moreover obtain k1 where "?ks(''c'' \<mapsto> ?k1) = ?ks(''c'' \<mapsto> k1)" and a: "after (udp_abs (\<lambda>k. mem_view (snd k))
      (if snd (clearTransportLayerIngress mem_tables ''team'' ''dns'' k1) = None then without ''team'' ''dns'' udp_table else udp_table)) ''c'' ?ks
      (foldl (\<lambda>ks ev. udp_event mem_tables ev ks) (?ks(''c'' \<mapsto> ?k1)) [DeletedService ''c'' ''team'' ''dns''])"
    using service_delete_clears_udp [OF mem_net.net_server_axioms d ks abs fit] unfolding ctx by blast
  moreover from this(1) have "k1 = ?k1" by (metis fun_upd_same option.inject)
  ultimately have "after (udp_abs (\<lambda>k. mem_view (snd k)) [69 \<mapsto> (''team'', ''boot'', 69)]) ''c'' ?ks
      (foldl (\<lambda>ks ev. udp_event mem_tables ev ks) (?ks(''c'' \<mapsto> ?k1)) [DeletedService ''c'' ''team'' ''dns''])" by simp
  then show ?thesis using d by blast
qed

end
