(* ===== verification/Storage.thy ===== *)
theory Storage
  imports Nodes PodTemplate GoNet
begin

text \<open>
  The storages of a cluster: the manager and its four drivers (\<^verbatim>\<open>storage_manage.go\<close>, \<^verbatim>\<open>lvm.go\<close>,
  \<^verbatim>\<open>cephfs.go\<close>, \<^verbatim>\<open>iscsi.go\<close>, \<^verbatim>\<open>nfs.go\<close> and \<^verbatim>\<open>blockdevice_manager.go\<close> in \<^verbatim>\<open>pkg/handler\<close>). The objects are
  those of the operator of \<^verbatim>\<open>github.com/zdnscloud/immense\<close>; its phases and the name of its finalizer are
  parameters, as are the agent in the cluster, which lists the block devices of the hosts and the volumes
  of a storage, and the difference of string sets of \<^verbatim>\<open>cement\<close>. A Go slice that may be nil is an
  optional list. \<open>StorageProps\<close> has the properties.
\<close>

section \<open>Storages and their objects\<close>

type_synonym slice = "string list option"

definition elems :: "slice \<Rightarrow> string list" where
  "elems s = (case s of None \<Rightarrow> [] | Some xs \<Rightarrow> xs)"

record iscsi_parameter =
  ip_Targets :: slice
  ip_Port :: string
  ip_Iqn :: string
  ip_Chap :: bool
  ip_Username :: string
  ip_Password :: string
  ip_Initiators :: slice

record nfs_parameter =
  np_Server :: string
  np_Path :: string

record storage_node =
  sn_Name :: string
  sn_Size :: string
  sn_UsedSize :: string
  sn_FreeSize :: string
  sn_Stat :: bool

record storage_pv =
  pv_Name :: string
  pv_Size :: string
  pv_UsedSize :: string
  pv_FreeSize :: string
  pv_Pods :: "string list"
  pv_Node :: string
  pv_PVC :: string

record storage =
  st_ID :: string
  st_CreationTimestamp :: time
  st_DeletionTimestamp :: "time option"
  st_Name :: string
  st_Type :: string
  st_Lvm :: "string list option"
  st_CephFs :: "string list option"
  st_Iscsi :: "iscsi_parameter option"
  st_Nfs :: "nfs_parameter option"
  st_Default :: bool
  st_Phase :: string
  st_Size :: string
  st_UsedSize :: string
  st_FreeSize :: string
  st_Nodes :: "storage_node list"
  st_PVs :: "storage_pv list"

abbreviation LvmType :: string where "LvmType \<equiv> ''lvm''"
abbreviation CephfsType :: string where "CephfsType \<equiv> ''cephfs''"
abbreviation IscsiType :: string where "IscsiType \<equiv> ''iscsi''"
abbreviation NfsType :: string where "NfsType \<equiv> ''nfs''"

record capacity =
  ca_Total :: string
  ca_Used :: string
  ca_Free :: string

record storage_instance =
  si_Host :: string
  si_Stat :: bool
  si_Info :: capacity

record storage_status =
  ss_Phase :: string
  ss_Total :: capacity
  ss_Instances :: "storage_instance list"

record cluster_body =
  cb_Annotations :: pairs
  cb_Finalizers :: "string list"
  cb_StorageType :: string
  cb_Hosts :: "string list"
  cb_Status :: storage_status
  cb_Config :: "(string \<times> string list) list"

record iscsi_body =
  ic_Finalizers :: "string list"
  ic_Targets :: slice
  ic_Port :: string
  ic_Iqn :: string
  ic_Chap :: bool
  ic_Initiators :: slice
  ic_Status :: storage_status

record nfs_body =
  nf_Finalizers :: "string list"
  nf_Server :: string
  nf_Path :: string
  nf_Status :: storage_status

record agent_dev =
  ad_Name :: string
  ad_Size :: string
  ad_Parted :: bool
  ad_Filesystem :: bool
  ad_Mount :: bool

record attachment =
  va_Attacher :: string
  va_NodeName :: string

definition no_status :: storage_status where
  "no_status = \<lparr>ss_Phase = '''', ss_Total = \<lparr>ca_Total = '''', ca_Used = '''', ca_Free = ''''\<rparr>, ss_Instances = []\<rparr>"

record 'k storage_env =
  se_clusters :: "('k, cluster_body) kube_api"
  se_iscsis :: "('k, iscsi_body) kube_api"
  se_nfss :: "('k, nfs_body) kube_api"
  se_secrets :: "('k, secret_body) kube_api"
  se_nodes :: "('k, node_body) kube_api"
  se_attachments :: "'k \<Rightarrow> k8s_err + attachment list"
  se_agentPVs :: "string \<Rightarrow> 'k \<Rightarrow> goerr + storage_pv list"
  se_agentDevices :: "'k \<Rightarrow> goerr + (string \<times> agent_dev list) list"
  se_busy :: "string \<Rightarrow> bool"
  se_prestop :: string
  se_difference :: "string list \<Rightarrow> string list \<Rightarrow> string list"

abbreviation StorageClassDefaultKey :: string where "StorageClassDefaultKey \<equiv> ''storageclass.kubernetes.io/is-default-class''"
abbreviation ZCloudNamespace :: string where "ZCloudNamespace \<equiv> ''zcloud''"
abbreviation zkeRoleLabelPrefix :: string where "zkeRoleLabelPrefix \<equiv> ''node-role.kubernetes.io/''"

section \<open>Sizes\<close>

definition sToi :: "string \<Rightarrow> int" where
  "sToi s = atoi_value s"

text \<open>
  Binary floating point throughout: the division by \<open>2 ^ 30\<close> is exact, the two products are rounded and
  the result is printed with two decimals.
\<close>

definition byteToGb :: "int \<Rightarrow> string" where
  "byteToGb num =
     (let n = float64 (\<bar>num\<bar>, 1); f = float64_div n (1024 * 1024 * 1024, 1);
          f100 = float64 (fst f * 100, snd f); t = fst f100 div snd f100;
          c = float64 (1, 100); r = float64 (t * fst c, snd c)
      in (if num < 0 then ''-'' else '''') @ fixed2 (round_div (100 * fst r) (snd r)))"

definition strToBool :: "string \<Rightarrow> bool" where
  "strToBool str \<longleftrightarrow> str = ''true''"

text \<open>
  The loop over the instances: \<open>stat\<close> is declared outside the loop, so that after the first instance
  that is down every host that follows is marked, too.
\<close>

fun node_stats :: "bool \<Rightarrow> (string \<rightharpoonup> bool) \<Rightarrow> storage_instance list \<Rightarrow> string \<rightharpoonup> bool" where
  "node_stats stat nodestat [] = nodestat"
| "node_stats stat nodestat (i # is) =
     (let stat' = (stat \<and> si_Stat i) in node_stats stat' (nodestat(si_Host i \<mapsto> stat')) is)"

definition host_sum :: "(capacity \<Rightarrow> string) \<Rightarrow> storage_instance list \<Rightarrow> string \<Rightarrow> int" where
  "host_sum f is host = foldl add64 0 (map (\<lambda>i. sToi (f (si_Info i))) (filter (\<lambda>i. si_Host i = host) is))"

definition genStorageNodeFromInstances :: "storage_instance list \<Rightarrow> storage_node list" where
  "genStorageNodeFromInstances is =
     map (\<lambda>host. \<lparr>sn_Name = host, sn_Size = byteToGb (host_sum ca_Total is host), sn_UsedSize = byteToGb (host_sum ca_Used is host),
                  sn_FreeSize = byteToGb (host_sum ca_Free is host), sn_Stat = (node_stats True Map.empty is host = Some True)\<rparr>)
       (sort (remdups (map si_Host is)))"

section \<open>Block devices\<close>

record dev =
  dev_Name :: string
  dev_Size :: string

record block_device =
  bd_ID :: string
  bd_NodeName :: string
  bd_BlockDevices :: "dev list"
  bd_UsedBy :: string

definition reserved_node :: "node_body \<Rightarrow> bool" where
  "reserved_node n \<longleftrightarrow> map_of (nb_Labels n) (zkeRoleLabelPrefix @ RoleControlPlane) \<noteq> None
     \<or> map_of (nb_Labels n) (zkeRoleLabelPrefix @ RoleEtcd) \<noteq> None"

definition isValidHost :: "'k storage_env \<Rightarrow> string \<Rightarrow> 'k \<Rightarrow> bool" where
  "isValidHost E name k = (case kGet (se_nodes E) '''' name k of Inl e \<Rightarrow> False | Inr node \<Rightarrow> \<not> reserved_node (ko_body node))"

text \<open>By host the name of the storage and its devices; a later storage replaces an earlier one.\<close>

definition getStorageUsed :: "'k storage_env \<Rightarrow> 'k \<Rightarrow> string \<rightharpoonup> string list" where
  "getStorageUsed E k =
     (case kList (se_clusters E) '''' k of
        Inl e \<Rightarrow> Map.empty
      | Inr scs \<Rightarrow>
          foldl (\<lambda>infos sc. foldl (\<lambda>infos (node, devs). infos(node \<mapsto> ko_name sc # devs)) infos (cb_Config (ko_body sc))) Map.empty scs)"

definition getUsed :: "string \<Rightarrow> agent_dev \<Rightarrow> (string \<rightharpoonup> string list) \<Rightarrow> string" where
  "getUsed host d infos =
     (case infos host of
        None \<Rightarrow> if ad_Parted d \<or> ad_Filesystem d \<or> ad_Mount d then ''other'' else ''''
      | Some info \<Rightarrow> if ad_Name d \<in> set info then hd info else ''other'')"

fun keep_devs :: "string \<Rightarrow> (string \<rightharpoonup> string list) \<Rightarrow> string \<Rightarrow> agent_dev list \<Rightarrow> string \<times> dev list" where
  "keep_devs host infos usedby [] = (usedby, [])"
| "keep_devs host infos usedby (d # ds) =
     (let used = getUsed host d infos
      in if used = ''other'' then keep_devs host infos usedby ds
         else (let (u, devs) = keep_devs host infos (if used \<noteq> '''' then used else usedby) ds
               in (u, \<lparr>dev_Name = ad_Name d, dev_Size = ad_Size d\<rparr> # devs)))"

definition cutInvalid :: "'k storage_env \<Rightarrow> (string \<times> agent_dev list) list \<Rightarrow> 'k \<Rightarrow> block_device list" where
  "cutInvalid E resp k =
     (let infos = getStorageUsed E k
      in concat (map (\<lambda>(host, ds).
           if \<not> isValidHost E host k \<or> ds = [] then []
           else (let (usedby, devs) = keep_devs host infos '''' ds
                 in if devs = [] then [] else [\<lparr>bd_ID = host, bd_NodeName = host, bd_BlockDevices = devs, bd_UsedBy = usedby\<rparr>])) resp))"

definition getBlockDevices :: "'k storage_env \<Rightarrow> 'k \<Rightarrow> goerr + block_device list" where
  "getBlockDevices E k = map_sum (\<lambda>e. e) (\<lambda>all. cutInvalid E all k) (se_agentDevices E k)"

definition bd_List :: "'k storage_env \<Rightarrow> block_device sub_ctx \<Rightarrow> 'k kubes \<Rightarrow> api_error + block_device list" where
  "bd_List E ctx = read_cluster ctx (\<lambda>k.
     map_sum (\<lambda>e. APIError ServerError (''get blockdevices failed '' @ e)) (\<lambda>ds. ds) (getBlockDevices E k))"

definition checkUsed :: "block_device list \<Rightarrow> string \<Rightarrow> bool" where
  "checkUsed blockinfo node \<longleftrightarrow> \<not> list_ex (\<lambda>info. bd_NodeName info = node \<and> bd_UsedBy info = '''') blockinfo"

text \<open>A list of strings as \<^verbatim>\<open>%s\<close> prints it.\<close>

fun joined :: "string list \<Rightarrow> string" where
  "joined [] = ''''"
| "joined [x] = x"
| "joined (x # y # xs) = x @ '' '' @ joined (y # xs)"

definition print_list :: "string list \<Rightarrow> string" where
  "print_list xs = ''['' @ joined xs @ '']''"

definition isHostsValidate :: "'k storage_env \<Rightarrow> string list \<Rightarrow> 'k \<Rightarrow> k8s_err option" where
  "isHostsValidate E hosts k =
     (case getBlockDevices E k of
        Inl e \<Rightarrow> Some (OwnErr e)
      | Inr resp \<Rightarrow>
          (let invalidHosts = filter (checkUsed resp) hosts
           in if invalidHosts \<noteq> [] then Some (OwnErr (''hosts '' @ print_list invalidHosts @ '' can not be used for storage'')) else None))"

section \<open>LVM and CephFS\<close>

definition with_status :: "storage_status \<Rightarrow> storage \<Rightarrow> storage" where
  "with_status s st = st\<lparr>st_Phase := ss_Phase s, st_Size := byteToGb (sToi (ca_Total (ss_Total s))),
     st_UsedSize := byteToGb (sToi (ca_Used (ss_Total s))), st_FreeSize := byteToGb (sToi (ca_Free (ss_Total s)))\<rparr>"

definition empty_storage :: "'b k8s_obj \<Rightarrow> string \<Rightarrow> storage" where
  "empty_storage obj type =
     \<lparr>st_ID = ko_name obj, st_CreationTimestamp = ko_creation obj, st_DeletionTimestamp = ko_deletion obj, st_Name = ko_name obj, st_Type = type,
      st_Lvm = None, st_CephFs = None, st_Iscsi = None, st_Nfs = None, st_Default = False, st_Phase = '''', st_Size = '''', st_UsedSize = '''',
      st_FreeSize = '''', st_Nodes = [], st_PVs = []\<rparr>"

definition storageClusterToSCStorage :: "cluster_body k8s_obj \<Rightarrow> storage" where
  "storageClusterToSCStorage obj =
     (let b = ko_body obj; type = cb_StorageType b
      in with_status (cb_Status b) (empty_storage obj type)
           \<lparr>st_Default := (case map_of (cb_Annotations b) StorageClassDefaultKey of None \<Rightarrow> False | Some d \<Rightarrow> strToBool d),
            st_Lvm := (if type = LvmType then Some (cb_Hosts b) else None),
            st_CephFs := (if type = CephfsType then Some (cb_Hosts b) else None)\<rparr>)"

definition with_detail :: "'k storage_env \<Rightarrow> storage_status \<Rightarrow> storage \<Rightarrow> 'k \<Rightarrow> k8s_err + storage" where
  "with_detail E s st k =
     map_sum OwnErr (\<lambda>pvs. st\<lparr>st_Nodes := genStorageNodeFromInstances (ss_Instances s), st_PVs := pvs\<rparr>) (se_agentPVs E (st_Name st) k)"

definition cluster_GetStorages :: "'k storage_env \<Rightarrow> string \<Rightarrow> 'k \<Rightarrow> k8s_err + storage list" where
  "cluster_GetStorages E type k =
     map_sum (\<lambda>e. e) (\<lambda>objs. map storageClusterToSCStorage (filter (\<lambda>obj. cb_StorageType (ko_body obj) = type) objs)) (kList (se_clusters E) '''' k)"

definition cluster_GetStorage :: "'k storage_env \<Rightarrow> string \<Rightarrow> 'k \<Rightarrow> k8s_err + storage" where
  "cluster_GetStorage E name k =
     (case kGet (se_clusters E) '''' name k of
        Inl e \<Rightarrow> Inl e
      | Inr obj \<Rightarrow> with_detail E (cb_Status (ko_body obj)) (storageClusterToSCStorage obj) k)"

definition checkStorageClusterTypeExist :: "'k storage_env \<Rightarrow> string \<Rightarrow> 'k \<Rightarrow> k8s_err + bool" where
  "checkStorageClusterTypeExist E type k =
     map_sum (\<lambda>e. e) (list_ex (\<lambda>obj. cb_StorageType (ko_body obj) = type)) (kList (se_clusters E) '''' k)"

definition createStorageCluster :: "'k storage_env \<Rightarrow> string \<Rightarrow> string \<Rightarrow> string list \<Rightarrow> 'k \<Rightarrow> 'k \<times> k8s_err option" where
  "createStorageCluster E name type hosts k =
     (case checkStorageClusterTypeExist E type k of
        Inl e \<Rightarrow> (k, Some e)
      | Inr exist \<Rightarrow>
          if exist then (k, Some (OwnErr (''the type '' @ type @ '' stroage has already exists'')))
          else (case isHostsValidate E hosts k of
                  Some e \<Rightarrow> (k, Some e)
                | None \<Rightarrow>
                    kCreate (se_clusters E) (new_obj '''' name
                      \<lparr>cb_Annotations = (if type = LvmType then [(StorageClassDefaultKey, ''true'')] else []), cb_Finalizers = [],
                       cb_StorageType = type, cb_Hosts = hosts, cb_Status = no_status, cb_Config = []\<rparr>) k))"

text \<open>A storage may go when nothing but the hook of the operator holds it.\<close>

definition unused :: "'k storage_env \<Rightarrow> string list \<Rightarrow> bool" where
  "unused E finalizers \<longleftrightarrow> finalizers = [] \<or> finalizers = [se_prestop E]"

abbreviation in_use_error :: "string \<Rightarrow> k8s_err" where
  "in_use_error name \<equiv> OwnErr (''storage '' @ name @ '' is used by some pvcs, you should delete those pvc first'')"

abbreviation busy_error :: k8s_err where
  "busy_error \<equiv> OwnErr ''storage in Creating, Updating or Deleting, not allowed delete''"

definition deleteStorageCluster :: "'k storage_env \<Rightarrow> string \<Rightarrow> 'k \<Rightarrow> 'k \<times> k8s_err option" where
  "deleteStorageCluster E name k =
     (case kGet (se_clusters E) '''' name k of
        Inl e \<Rightarrow> (k, Some e)
      | Inr obj \<Rightarrow>
          if se_busy E (ss_Phase (cb_Status (ko_body obj))) then (k, Some busy_error)
          else if unused E (cb_Finalizers (ko_body obj)) then kDelete (se_clusters E) '''' name k
          else (k, Some (in_use_error name)))"

definition getAttachedHosts :: "'k storage_env \<Rightarrow> string \<Rightarrow> string list \<Rightarrow> 'k \<Rightarrow> k8s_err + string list" where
  "getAttachedHosts E driverName nodes k =
     map_sum (\<lambda>e. e)
       (foldl (\<lambda>hosts va. if va_Attacher va = driverName \<and> va_NodeName va \<in> set nodes \<and> va_NodeName va \<notin> set hosts
                          then hosts @ [va_NodeName va] else hosts) [])
       (se_attachments E k)"

definition isDelHostsUsed :: "'k storage_env \<Rightarrow> string \<Rightarrow> string \<Rightarrow> string list \<Rightarrow> 'k \<Rightarrow> k8s_err option" where
  "isDelHostsUsed E name type hosts k =
     (if type \<noteq> LvmType \<and> type \<noteq> IscsiType then Some (OwnErr (''unknow storage type '' @ type))
      else (case getAttachedHosts E (name @ ''.'' @ (if type = LvmType then ''lvm.storage.zcloud.cn'' else ''iscsi.storage.zcloud.cn'')) hosts k of
              Inl e \<Rightarrow> Some e
            | Inr usedHosts \<Rightarrow>
                if usedHosts \<noteq> []
                then Some (OwnErr (''the storagehosts '' @ print_list usedHosts @ '' is used by some pods, you should stop or migrate those pods first''))
                else None))"

text \<open>The type is the one in the request; the stored type is not compared with it.\<close>

definition updateStorageCluster :: "'k storage_env \<Rightarrow> string \<Rightarrow> string \<Rightarrow> string list \<Rightarrow> 'k \<Rightarrow> 'k \<times> k8s_err option" where
  "updateStorageCluster E name type hosts k =
     (case kGet (se_clusters E) '''' name k of
        Inl e \<Rightarrow> (k, Some e)
      | Inr obj \<Rightarrow>
          if se_busy E (ss_Phase (cb_Status (ko_body obj))) \<or> ko_deletion obj \<noteq> None
          then (k, Some (OwnErr (name @ '' in Creating, Updating or Deleting, not allowed update'')))
          else (let addHosts = se_difference E hosts (cb_Hosts (ko_body obj)); delHosts = se_difference E (cb_Hosts (ko_body obj)) hosts
                in case (if type = LvmType then isDelHostsUsed E name type delHosts k else None) of
                     Some e \<Rightarrow> (k, Some e)
                   | None \<Rightarrow>
                       (case isHostsValidate E addHosts k of
                          Some e \<Rightarrow> (k, Some e)
                        | None \<Rightarrow> kUpdate (se_clusters E) (obj\<lparr>ko_body := (ko_body obj)\<lparr>cb_Hosts := hosts\<rparr>\<rparr>) k)))"

section \<open>iSCSI\<close>

definition isIpv4 :: "string \<Rightarrow> bool" where
  "isIpv4 input \<longleftrightarrow> (case parseIP input of None \<Rightarrow> False | Some addr \<Rightarrow> To4 addr \<noteq> None)"

definition secret_name :: "string \<Rightarrow> string" where
  "secret_name name = name @ ''-iscsi-secret''"

definition iscsiToSCStorage :: "iscsi_body k8s_obj \<Rightarrow> storage" where
  "iscsiToSCStorage obj =
     (let b = ko_body obj
      in with_status (ic_Status b) (empty_storage obj IscsiType)
           \<lparr>st_Iscsi := Some \<lparr>ip_Targets = ic_Targets b, ip_Port = ic_Port b, ip_Iqn = ic_Iqn b, ip_Chap = ic_Chap b,
                              ip_Username = '''', ip_Password = '''', ip_Initiators = ic_Initiators b\<rparr>\<rparr>)"

definition secret_value :: "string \<Rightarrow> pairs \<Rightarrow> string" where
  "secret_value key data = foldl (\<lambda>v (k, x). if k = key then x else v) '''' data"

definition iscsiToSCStorageDetail :: "'k storage_env \<Rightarrow> iscsi_body k8s_obj \<Rightarrow> 'k \<Rightarrow> k8s_err + storage" where
  "iscsiToSCStorageDetail E obj k =
     (case with_detail E (ic_Status (ko_body obj)) (iscsiToSCStorage obj) k of
        Inl e \<Rightarrow> Inl e
      | Inr st \<Rightarrow>
          if \<not> ic_Chap (ko_body obj) then Inr st
          else (case kGet (se_secrets E) ZCloudNamespace (secret_name (ko_name obj)) k of
                  Inl e \<Rightarrow> Inl e
                | Inr sec \<Rightarrow>
                    (let data = sec_Data (k8sSecretToSCSecret sec)
                     in Inr (st\<lparr>st_Iscsi := map_option (\<lambda>p. p\<lparr>ip_Username := secret_value ''username'' data,
                                                                ip_Password := secret_value ''password'' data\<rparr>) (st_Iscsi st)\<rparr>))))"

definition iscsi_GetStorages :: "'k storage_env \<Rightarrow> 'k \<Rightarrow> k8s_err + storage list" where
  "iscsi_GetStorages E k = map_sum (\<lambda>e. e) (map iscsiToSCStorage) (kList (se_iscsis E) '''' k)"

definition iscsi_GetStorage :: "'k storage_env \<Rightarrow> string \<Rightarrow> 'k \<Rightarrow> k8s_err + storage" where
  "iscsi_GetStorage E name k =
     (case kGet (se_iscsis E) '''' name k of Inl e \<Rightarrow> Inl e | Inr obj \<Rightarrow> iscsiToSCStorageDetail E obj k)"

text \<open>The secret goes first, then the storage.\<close>

definition iscsi_Delete :: "'k storage_env \<Rightarrow> string \<Rightarrow> 'k \<Rightarrow> 'k \<times> k8s_err option" where
  "iscsi_Delete E name k =
     (case kGet (se_iscsis E) '''' name k of
        Inl e \<Rightarrow> (k, Some e)
      | Inr obj \<Rightarrow>
          if se_busy E (ss_Phase (ic_Status (ko_body obj))) then (k, Some busy_error)
          else if unused E (ic_Finalizers (ko_body obj))
          then (case (if ic_Chap (ko_body obj) then kDelete (se_secrets E) ZCloudNamespace (secret_name name) k else (k, None)) of
                  (k', Some e) \<Rightarrow> (k', Some e)
                | (k', None) \<Rightarrow> kDelete (se_iscsis E) '''' name k')
          else (k, Some (in_use_error name)))"

fun check_targets :: "string list \<Rightarrow> string list \<Rightarrow> goerr option" where
  "check_targets seen [] = None"
| "check_targets seen (t # ts) =
     (if \<not> isIpv4 t then Some ''iscsi target must be an ipv4 address''
      else if t \<in> set seen then Some ''iscsi target duplicate''
      else check_targets (t # seen) ts)"

definition iscsiFormatValidation :: "iscsi_parameter \<Rightarrow> goerr option" where
  "iscsiFormatValidation p =
     (if CHR '' '' \<in> set (ip_Iqn p) then Some ''iscsi iqn cannot contain Spaces''
      else (case check_targets [] (elems (ip_Targets p)) of
              Some e \<Rightarrow> Some e
            | None \<Rightarrow>
                if elems (ip_Initiators p) = [] then Some ''iscsi initiators at lesat one''
                else if ip_Chap p \<and> (ip_Username p = '''' \<or> ip_Password p = '''')
                then Some ''if chap is checked, fields username and password can not be empty''
                else None))"

definition checkSliceEq :: "slice \<Rightarrow> slice \<Rightarrow> bool" where
  "checkSliceEq a b \<longleftrightarrow> (a = None \<longleftrightarrow> b = None) \<and> length (elems a) = length (elems b) \<and> set (elems a) = set (elems b)"

definition iscsiDuplicateValidation :: "'k storage_env \<Rightarrow> iscsi_parameter \<Rightarrow> 'k \<Rightarrow> k8s_err + bool" where
  "iscsiDuplicateValidation E p k =
     map_sum (\<lambda>e. e) (list_ex (\<lambda>obj. checkSliceEq (ic_Targets (ko_body obj)) (ip_Targets p) \<and> ic_Port (ko_body obj) = ip_Port p
                                     \<and> ic_Iqn (ko_body obj) = ip_Iqn p)) (kList (se_iscsis E) '''' k)"

fun initiatorsRoleValidation :: "'k storage_env \<Rightarrow> string list \<Rightarrow> 'k \<Rightarrow> k8s_err + bool" where
  "initiatorsRoleValidation E [] k = Inr True"
| "initiatorsRoleValidation E (name # names) k =
     (case kGet (se_nodes E) '''' name k of
        Inl e \<Rightarrow> Inl e
      | Inr node \<Rightarrow> if reserved_node (ko_body node) then Inr False else initiatorsRoleValidation E names k)"

definition genIscsiSecret :: "string \<Rightarrow> iscsi_parameter \<Rightarrow> secret" where
  "genIscsiSecret name p =
     \<lparr>sec_ID = '''', sec_CreationTimestamp = 0, sec_DeletionTimestamp = None, sec_Name = secret_name name,
      sec_Data = [(''username'', ip_Username p), (''password'', ip_Password p)]\<rparr>"

definition iscsi_Create :: "'k storage_env \<Rightarrow> storage \<Rightarrow> 'k \<Rightarrow> 'k \<times> k8s_err option" where
  "iscsi_Create E st k =
     (case st_Iscsi st of
        None \<Rightarrow> (k, Some (OwnErr (''parameter can not be null for storage '' @ st_Name st)))
      | Some p \<Rightarrow>
          (case iscsiFormatValidation p of
             Some e \<Rightarrow> (k, Some (OwnErr e))
           | None \<Rightarrow>
               (case iscsiDuplicateValidation E p k of
                  Inl e \<Rightarrow> (k, Some e)
                | Inr True \<Rightarrow> (k, Some (OwnErr ''duplicate config with other iscsi storage''))
                | Inr False \<Rightarrow>
                    (case initiatorsRoleValidation E (elems (ip_Initiators p)) k of
                       Inl e \<Rightarrow> (k, Some e)
                     | Inr False \<Rightarrow> (k, Some (OwnErr ''controlplane or etcd node can not be initiators''))
                     | Inr True \<Rightarrow>
                         (case (if ip_Chap p then createSecret (se_secrets E) ZCloudNamespace (genIscsiSecret (st_Name st) p) k else (k, None)) of
                            (k', Some e) \<Rightarrow> (k', Some e)
                          | (k', None) \<Rightarrow>
                              kCreate (se_iscsis E) (new_obj '''' (st_Name st)
                                \<lparr>ic_Finalizers = [], ic_Targets = ip_Targets p, ic_Port = ip_Port p, ic_Iqn = ip_Iqn p, ic_Chap = ip_Chap p,
                                 ic_Initiators = ip_Initiators p, ic_Status = no_status\<rparr>) k')))))"

definition updateIscsiSecret :: "'k storage_env \<Rightarrow> string \<Rightarrow> iscsi_parameter \<Rightarrow> 'k \<Rightarrow> 'k \<times> k8s_err option" where
  "updateIscsiSecret E name p k =
     (case kGet (se_secrets E) ZCloudNamespace (secret_name name) k of
        Inl e \<Rightarrow> (k, Some e)
      | Inr sec \<Rightarrow>
          (case scSecretToK8sSecret (genIscsiSecret name p) ZCloudNamespace of
             Inl e \<Rightarrow> (k, Some (OwnErr e))
           | Inr new \<Rightarrow> kUpdate (se_secrets E) (sec\<lparr>ko_body := (ko_body sec)\<lparr>sb_data := sb_data (ko_body new)\<rparr>\<rparr>) k))"

text \<open>The steps of \<open>iscsi_Update\<close> in the order of the code.\<close>

definition check_initiators :: "'k storage_env \<Rightarrow> iscsi_body k8s_obj \<Rightarrow> iscsi_parameter \<Rightarrow> 'k \<Rightarrow> k8s_err option" where
  "check_initiators E obj p k =
     (let old = ic_Initiators (ko_body obj); new = ip_Initiators p
      in if checkSliceEq old new then None
         else (case isDelHostsUsed E (ko_name obj) IscsiType (se_difference E (elems old) (elems new)) k of
                 Some e \<Rightarrow> Some e
               | None \<Rightarrow>
                   (case initiatorsRoleValidation E (se_difference E (elems new) (elems old)) k of
                      Inl e \<Rightarrow> Some e
                    | Inr ok \<Rightarrow> if ok then None else Some (OwnErr ''controlplane or etcd node can not be initiators''))))"

definition chap_change :: "'k storage_env \<Rightarrow> iscsi_body k8s_obj \<Rightarrow> iscsi_parameter \<Rightarrow> 'k \<Rightarrow> k8s_err + bool" where
  "chap_change E obj p k =
     (if ip_Chap p \<and> ic_Chap (ko_body obj)
      then map_sum (\<lambda>e. e)
             (\<lambda>sec. list_ex (\<lambda>(key, v). key = ''username'' \<and> v \<noteq> ip_Username p \<or> key = ''password'' \<and> v \<noteq> ip_Password p)
                      (sec_Data (k8sSecretToSCSecret sec)))
             (kGet (se_secrets E) ZCloudNamespace (secret_name (ko_name obj)) k)
      else Inr False)"

definition change_secret :: "'k storage_env \<Rightarrow> string \<Rightarrow> iscsi_body k8s_obj \<Rightarrow> iscsi_parameter \<Rightarrow> bool \<Rightarrow> 'k \<Rightarrow> 'k \<times> k8s_err option" where
  "change_secret E name obj p chapChange k =
     (if ic_Chap (ko_body obj) \<and> \<not> ip_Chap p then kDelete (se_secrets E) ZCloudNamespace (secret_name (ko_name obj)) k
      else if \<not> ic_Chap (ko_body obj) \<and> ip_Chap p then createSecret (se_secrets E) ZCloudNamespace (genIscsiSecret name p) k
      else if chapChange then updateIscsiSecret E name p k
      else (k, None))"

definition iscsi_changed :: "iscsi_body \<Rightarrow> iscsi_parameter \<Rightarrow> bool \<Rightarrow> bool" where
  "iscsi_changed b p chapChange \<longleftrightarrow>
     \<not> checkSliceEq (ic_Targets b) (ip_Targets p) \<or> ic_Port b \<noteq> ip_Port p \<or> ic_Iqn b \<noteq> ip_Iqn p \<or> ic_Chap b \<noteq> ip_Chap p \<or> chapChange"

definition set_iscsi :: "iscsi_parameter \<Rightarrow> iscsi_body k8s_obj \<Rightarrow> iscsi_body k8s_obj" where
  "set_iscsi p obj = obj\<lparr>ko_body := (ko_body obj)\<lparr>ic_Targets := ip_Targets p, ic_Port := ip_Port p, ic_Iqn := ip_Iqn p,
     ic_Chap := ip_Chap p, ic_Initiators := ip_Initiators p\<rparr>\<rparr>"

definition write_iscsi :: "'k storage_env \<Rightarrow> string \<Rightarrow> iscsi_body k8s_obj \<Rightarrow> iscsi_parameter \<Rightarrow> bool \<Rightarrow> 'k \<Rightarrow> 'k \<times> k8s_err option" where
  "write_iscsi E name obj p chapChange k =
     (let changed = iscsi_changed (ko_body obj) p chapChange
      in if changed \<and> \<not> unused E (ic_Finalizers (ko_body obj)) then (k, Some (in_use_error name))
         else (case (if changed then change_secret E name obj p chapChange k else (k, None)) of
                 (k', Some e) \<Rightarrow> (k', Some e)
               | (k', None) \<Rightarrow> kUpdate (se_iscsis E) (set_iscsi p obj) k'))"

definition iscsi_Update :: "'k storage_env \<Rightarrow> storage \<Rightarrow> 'k \<Rightarrow> ('k \<times> k8s_err option) outcome" where
  "iscsi_Update E st k =
     (case st_Iscsi st of
        None \<Rightarrow> Panicked ''nil pointer dereference''
      | Some p \<Rightarrow> Done
          (case iscsiFormatValidation p of
             Some e \<Rightarrow> (k, Some (OwnErr e))
           | None \<Rightarrow>
               (case kGet (se_iscsis E) '''' (st_Name st) k of
                  Inl e \<Rightarrow> (k, Some e)
                | Inr obj \<Rightarrow>
                    if se_busy E (ss_Phase (ic_Status (ko_body obj))) then (k, Some (OwnErr ''iscsi in Creating, Updating or Deleting, not allowed update''))
                    else if ko_deletion obj \<noteq> None then (k, Some (OwnErr ''iscsi in Deleting, not allowed update''))
                    else (case check_initiators E obj p k of
                            Some e \<Rightarrow> (k, Some e)
                          | None \<Rightarrow>
                              (case chap_change E obj p k of
                                 Inl e \<Rightarrow> (k, Some e)
                               | Inr chapChange \<Rightarrow> write_iscsi E (st_Name st) obj p chapChange k)))))"

section \<open>NFS\<close>

definition nfsToSCStorage :: "nfs_body k8s_obj \<Rightarrow> storage" where
  "nfsToSCStorage obj =
     (let b = ko_body obj
      in with_status (nf_Status b) (empty_storage obj NfsType)\<lparr>st_Nfs := Some \<lparr>np_Server = nf_Server b, np_Path = nf_Path b\<rparr>\<rparr>)"

definition nfs_GetStorages :: "'k storage_env \<Rightarrow> 'k \<Rightarrow> k8s_err + storage list" where
  "nfs_GetStorages E k = map_sum (\<lambda>e. e) (map nfsToSCStorage) (kList (se_nfss E) '''' k)"

definition nfs_GetStorage :: "'k storage_env \<Rightarrow> string \<Rightarrow> 'k \<Rightarrow> k8s_err + storage" where
  "nfs_GetStorage E name k =
     (case kGet (se_nfss E) '''' name k of
        Inl e \<Rightarrow> Inl e
      | Inr obj \<Rightarrow> with_detail E (nf_Status (ko_body obj)) (nfsToSCStorage obj) k)"

definition nfsDuplicateValidation :: "'k storage_env \<Rightarrow> nfs_parameter \<Rightarrow> 'k \<Rightarrow> k8s_err + bool" where
  "nfsDuplicateValidation E p k =
     map_sum (\<lambda>e. e) (list_ex (\<lambda>obj. nf_Server (ko_body obj) = np_Server p \<and> nf_Path (ko_body obj) = np_Path p)) (kList (se_nfss E) '''' k)"

definition nfs_Create :: "'k storage_env \<Rightarrow> storage \<Rightarrow> 'k \<Rightarrow> 'k \<times> k8s_err option" where
  "nfs_Create E st k =
     (case st_Nfs st of
        None \<Rightarrow> (k, Some (OwnErr (''parameter can not be null for storage '' @ st_Name st)))
      | Some p \<Rightarrow>
          if \<not> isIpv4 (np_Server p) then (k, Some (OwnErr ''must be an ipv4 address''))
          else (case nfsDuplicateValidation E p k of
                  Inl e \<Rightarrow> (k, Some e)
                | Inr duplicate \<Rightarrow>
                    if duplicate then (k, Some (OwnErr ''duplicate config with other nfs storage''))
                    else kCreate (se_nfss E) (new_obj '''' (st_Name st)
                           \<lparr>nf_Finalizers = [], nf_Server = np_Server p, nf_Path = np_Path p, nf_Status = no_status\<rparr>) k))"

definition nfs_Delete :: "'k storage_env \<Rightarrow> string \<Rightarrow> 'k \<Rightarrow> 'k \<times> k8s_err option" where
  "nfs_Delete E name k =
     (case kGet (se_nfss E) '''' name k of
        Inl e \<Rightarrow> (k, Some e)
      | Inr obj \<Rightarrow>
          if se_busy E (ss_Phase (nf_Status (ko_body obj))) then (k, Some busy_error)
          else if unused E (nf_Finalizers (ko_body obj)) then kDelete (se_nfss E) '''' name k
          else (k, Some (in_use_error name)))"

definition nfs_Update :: "'k storage_env \<Rightarrow> storage \<Rightarrow> 'k \<Rightarrow> ('k \<times> k8s_err option) outcome" where
  "nfs_Update E st k =
     (case st_Nfs st of
        None \<Rightarrow> Panicked ''nil pointer dereference''
      | Some p \<Rightarrow> Done
          (if \<not> isIpv4 (np_Server p) then (k, Some (OwnErr ''must be an ipv4 address''))
           else (case kGet (se_nfss E) '''' (st_Name st) k of
                   Inl e \<Rightarrow> (k, Some e)
                 | Inr obj \<Rightarrow>
                     if se_busy E (ss_Phase (nf_Status (ko_body obj))) then (k, Some (OwnErr ''iscsi in Creating, Updating or Deleting, not allowed update''))
                     else if ko_deletion obj \<noteq> None then (k, Some (OwnErr ''nfs in Deleting, not allowed update''))
                     else if \<not> unused E (nf_Finalizers (ko_body obj)) then (k, Some (in_use_error (st_Name st)))
                     else kUpdate (se_nfss E) (obj\<lparr>ko_body := (ko_body obj)\<lparr>nf_Server := np_Server p, nf_Path := np_Path p\<rparr>\<rparr>) k)))"

section \<open>The manager\<close>

datatype storage_handle = LvmManager | CephFsManager | IscsiManager | NfsManager

definition storageHandles :: "storage_handle list" where
  "storageHandles = [LvmManager, CephFsManager, IscsiManager, NfsManager]"

fun GetType :: "storage_handle \<Rightarrow> string" where
  "GetType LvmManager = LvmType"
| "GetType CephFsManager = CephfsType"
| "GetType IscsiManager = IscsiType"
| "GetType NfsManager = NfsType"

fun handle_GetStorages :: "'k storage_env \<Rightarrow> storage_handle \<Rightarrow> 'k \<Rightarrow> k8s_err + storage list" where
  "handle_GetStorages E LvmManager k = cluster_GetStorages E LvmType k"
| "handle_GetStorages E CephFsManager k = cluster_GetStorages E CephfsType k"
| "handle_GetStorages E IscsiManager k = iscsi_GetStorages E k"
| "handle_GetStorages E NfsManager k = nfs_GetStorages E k"

fun handle_GetStorage :: "'k storage_env \<Rightarrow> storage_handle \<Rightarrow> string \<Rightarrow> 'k \<Rightarrow> k8s_err + storage" where
  "handle_GetStorage E LvmManager name k = cluster_GetStorage E name k"
| "handle_GetStorage E CephFsManager name k = cluster_GetStorage E name k"
| "handle_GetStorage E IscsiManager name k = iscsi_GetStorage E name k"
| "handle_GetStorage E NfsManager name k = nfs_GetStorage E name k"

fun handle_Delete :: "'k storage_env \<Rightarrow> storage_handle \<Rightarrow> string \<Rightarrow> 'k \<Rightarrow> 'k \<times> k8s_err option" where
  "handle_Delete E LvmManager name k = deleteStorageCluster E name k"
| "handle_Delete E CephFsManager name k = deleteStorageCluster E name k"
| "handle_Delete E IscsiManager name k = iscsi_Delete E name k"
| "handle_Delete E NfsManager name k = nfs_Delete E name k"

definition cluster_Create :: "'k storage_env \<Rightarrow> storage \<Rightarrow> string list option \<Rightarrow> 'k \<Rightarrow> 'k \<times> k8s_err option" where
  "cluster_Create E st hosts k =
     (case hosts of
        None \<Rightarrow> (k, Some (OwnErr (''parameter can not be null for storage '' @ st_Name st)))
      | Some hs \<Rightarrow> createStorageCluster E (st_Name st) (st_Type st) hs k)"

fun handle_Create :: "'k storage_env \<Rightarrow> storage_handle \<Rightarrow> storage \<Rightarrow> 'k \<Rightarrow> 'k \<times> k8s_err option" where
  "handle_Create E LvmManager st k = cluster_Create E st (st_Lvm st) k"
| "handle_Create E CephFsManager st k = cluster_Create E st (st_CephFs st) k"
| "handle_Create E IscsiManager st k = iscsi_Create E st k"
| "handle_Create E NfsManager st k = nfs_Create E st k"

text \<open>An update without the parameter of its type is a nil pointer.\<close>

definition cluster_Update :: "'k storage_env \<Rightarrow> storage \<Rightarrow> string list option \<Rightarrow> 'k \<Rightarrow> ('k \<times> k8s_err option) outcome" where
  "cluster_Update E st hosts k =
     (case hosts of
        None \<Rightarrow> Panicked ''nil pointer dereference''
      | Some hs \<Rightarrow> Done (updateStorageCluster E (st_Name st) (st_Type st) hs k))"

fun handle_Update :: "'k storage_env \<Rightarrow> storage_handle \<Rightarrow> storage \<Rightarrow> 'k \<Rightarrow> ('k \<times> k8s_err option) outcome" where
  "handle_Update E LvmManager st k = cluster_Update E st (st_Lvm st) k"
| "handle_Update E CephFsManager st k = cluster_Update E st (st_CephFs st) k"
| "handle_Update E IscsiManager st k = iscsi_Update E st k"
| "handle_Update E NfsManager st k = nfs_Update E st k"

fun collect_storages :: "'k storage_env \<Rightarrow> storage_handle list \<Rightarrow> 'k \<Rightarrow> k8s_err + storage list" where
  "collect_storages E [] k = Inr []"
| "collect_storages E (h # hs) k =
     (case handle_GetStorages E h k of
        Inl e \<Rightarrow> Inl e
      | Inr sts \<Rightarrow> map_sum (\<lambda>e. e) ((@) sts) (collect_storages E hs k))"

definition getStorages :: "'k storage_env \<Rightarrow> 'k \<Rightarrow> k8s_err + storage list" where
  "getStorages E k = map_sum (\<lambda>e. e) (sort_key st_Name) (collect_storages E storageHandles k)"

definition getHandleFromType :: "string \<Rightarrow> k8s_err + storage_handle" where
  "getHandleFromType type =
     (case List.find (\<lambda>h. type = GetType h) storageHandles of
        Some h \<Rightarrow> Inr h
      | None \<Rightarrow> Inl (OwnErr (''undefiend storage typ '' @ type)))"

fun get_storage :: "'k storage_env \<Rightarrow> storage_handle list \<Rightarrow> string \<Rightarrow> 'k \<Rightarrow> k8s_err + storage_handle \<times> storage" where
  "get_storage E [] name k = Inl (OwnErr (''can not found storage '' @ name))"
| "get_storage E (h # hs) name k =
     (case handle_GetStorage E h name k of
        Inl e \<Rightarrow> if IsNotFound e then get_storage E hs name k else Inl e
      | Inr st \<Rightarrow> Inr (h, st))"

definition getStorage :: "'k storage_env \<Rightarrow> string \<Rightarrow> 'k \<Rightarrow> k8s_err + storage" where
  "getStorage E name k = map_sum (\<lambda>e. e) snd (get_storage E storageHandles name k)"

definition deleteStorage :: "'k storage_env \<Rightarrow> string \<Rightarrow> 'k \<Rightarrow> 'k \<times> k8s_err option" where
  "deleteStorage E name k =
     (case get_storage E storageHandles name k of Inl e \<Rightarrow> (k, Some e) | Inr (h, st) \<Rightarrow> handle_Delete E h name k)"

definition checkStorageExist :: "'k storage_env \<Rightarrow> string \<Rightarrow> 'k \<Rightarrow> k8s_err + bool" where
  "checkStorageExist E name k = map_sum (\<lambda>e. e) (list_ex (\<lambda>st. st_Name st = name)) (getStorages E k)"

definition createStorage :: "'k storage_env \<Rightarrow> storage \<Rightarrow> 'k \<Rightarrow> 'k \<times> k8s_err option" where
  "createStorage E st k =
     (case checkStorageExist E (st_Name st) k of
        Inl e \<Rightarrow> (k, Some e)
      | Inr exist \<Rightarrow>
          if exist then (k, Some (OwnErr (''the name '' @ st_Name st @ '' of storage has already exists'')))
          else (case getHandleFromType (st_Type st) of Inl e \<Rightarrow> (k, Some e) | Inr h \<Rightarrow> handle_Create E h st k))"

definition updateStorage :: "'k storage_env \<Rightarrow> storage \<Rightarrow> 'k \<Rightarrow> ('k \<times> k8s_err option) outcome" where
  "updateStorage E st k = (case getHandleFromType (st_Type st) of Inl e \<Rightarrow> Done (k, Some e) | Inr h \<Rightarrow> handle_Update E h st k)"

definition storage_List :: "'k storage_env \<Rightarrow> storage sub_ctx \<Rightarrow> 'k kubes \<Rightarrow> api_error + storage list" where
  "storage_List E ctx = read_cluster ctx (\<lambda>k.
     map_sum (\<lambda>e. if IsNotFound e then APIError NotFound ''no found storage'' else APIError ServerError (''list storag failed '' @ k8s_text e))
       (\<lambda>sts. sts) (getStorages E k))"

definition storage_Get :: "'k storage_env \<Rightarrow> storage sub_ctx \<Rightarrow> 'k kubes \<Rightarrow> api_error + storage" where
  "storage_Get E ctx = read_cluster ctx (\<lambda>k.
     let name = st_ID (sx_resource ctx)
     in map_sum (\<lambda>e. if IsNotFound e then APIError NotFound (''no found storage '' @ name)
                     else APIError ServerError (''get storage failed '' @ k8s_text e)) (\<lambda>st. st) (getStorage E name k))"

definition storage_Delete :: "'k storage_env \<Rightarrow> string option \<Rightarrow> storage sub_ctx \<Rightarrow> 'k kubes \<Rightarrow> 'k kubes \<times> (api_error + unit)" where
  "storage_Delete E current ctx ks =
     (if \<not> isAdmin (getCurrentUser current) then (ks, Inl (APIError PermissionDenied ''only admin can delete nfs''))
      else if ks (sx_cluster ctx) = None then (ks, Inl (APIError NotFound ''storage doesn't exist''))
      else on_cluster ctx (\<lambda>k.
        answer (\<lambda>e. if IsNotFound e then APIError NotFound (''storage '' @ st_ID (sx_resource ctx) @ '' doesn't exist'')
                    else APIError ConnectClusterFailed (''delete storage failed, '' @ k8s_text e))
          () (deleteStorage E (st_ID (sx_resource ctx)) k)) ks)"

definition storage_Create :: "'k storage_env \<Rightarrow> string option \<Rightarrow> storage sub_ctx \<Rightarrow> 'k kubes \<Rightarrow> 'k kubes \<times> (api_error + storage)" where
  "storage_Create E current ctx ks =
     (if \<not> isAdmin (getCurrentUser current) then (ks, Inl (APIError PermissionDenied ''only admin can create storage''))
      else on_cluster ctx (\<lambda>k.
        let st = sx_resource ctx
        in answer (\<lambda>e. if IsAlreadyExists e then APIError DuplicateResource (''duplicate storage name '' @ st_Name st)
                       else APIError ConnectClusterFailed (''create storage failed, '' @ k8s_text e))
             (st\<lparr>st_ID := st_Name st\<rparr>) (createStorage E st k)) ks)"

definition storage_Update :: "'k storage_env \<Rightarrow> string option \<Rightarrow> storage sub_ctx \<Rightarrow> 'k kubes \<Rightarrow> ('k kubes \<times> (api_error + storage)) outcome" where
  "storage_Update E current ctx ks =
     (if \<not> isAdmin (getCurrentUser current) then Done (ks, Inl (APIError PermissionDenied ''only admin can update storage''))
      else (case ks (sx_cluster ctx) of
              None \<Rightarrow> Done (ks, Inl no_cluster)
            | Some k \<Rightarrow>
                (case updateStorage E (sx_resource ctx) k of
                   Panicked p \<Rightarrow> Panicked p
                 | Done r \<Rightarrow>
                     (let (k', a) = answer (\<lambda>e. APIError ConnectClusterFailed (''update storage failed, '' @ k8s_text e)) (sx_resource ctx) r
                      in Done (ks(sx_cluster ctx \<mapsto> k'), a)))))"

end
