(* ===== verification/GoRound.thy ===== *)
theory GoRound
  imports GoFloat
begin

text \<open>
  How far rounding to 53 bits moves a quotient: not at all when it is an integer below \<open>2 ^ 53\<close> over a
  power of two, and otherwise by a relative error of \<open>2 ^ -53\<close> at most. So a whole number of hundredths,
  computed by a multiplication with 0.01 and printed with two decimals, is printed as that number.
\<close>

lemma bits_lower: "0 < n \<Longrightarrow> 2 ^ nat (bits n - 1) \<le> n \<and> 1 \<le> bits n"
proof (induction n rule: bits.induct)
  case (1 n)
  show ?case
  proof (cases "n div 2 \<le> 0")
    case True
    then have "n = 1" using "1.prems" by simp
    then show ?thesis by (simp add: bits.simps)
  next
    case False
    then have IH: "2 ^ nat (bits (n div 2) - 1) \<le> n div 2" "1 \<le> bits (n div 2)" using 1 by auto
    have "bits n = 1 + bits (n div 2)" using "1.prems" by (simp add: bits.simps [of n])
    then have "nat (bits n - 1) = Suc (nat (bits (n div 2) - 1))" using IH(2) by simp
    then show ?thesis using IH \<open>bits n = 1 + bits (n div 2)\<close> by (simp only: power_Suc) linarith
  qed
qed

lemma bits_upper: "n < 2 ^ nat (bits n)"
proof (induction n rule: bits.induct)
  case (1 n)
  show ?case
  proof (cases "n \<le> 0")
    case True
    then show ?thesis by (simp add: bits.simps [of n])
  next
    case False
    then have "n div 2 < 2 ^ nat (bits (n div 2))" using 1 by simp
    moreover have "nat (bits n) = Suc (nat (bits (n div 2)))" using False bits_pos [of "n div 2"] by (simp add: bits.simps [of n])
    ultimately show ?thesis by simp
  qed
qed

text \<open>A positive number below \<open>2 ^ 52\<close> is rounded to 53 bits.\<close>

lemma float64_form:
  assumes "0 < a" "0 < d" "a < d * 2 ^ 52"
  shows "\<exists>t. float64 (a, d) = (round_div (a * 2 ^ t) d, 2 ^ t) \<and> 2 ^ 52 * d \<le> a * 2 ^ t"
proof -
  define s where "s = 53 + bits d - bits a"
  have "bits a \<le> bits d + 52"
  proof -
    have "a < 2 ^ (nat (bits d) + 52)" using assms(3) mult_strict_right_mono [OF bits_upper [of d], of "2 ^ 52"] by (simp add: power_add)
    then show ?thesis using bits_le [of a "nat (bits d) + 52"] bits_pos [of d] by simp
  qed
  then have s: "1 \<le> s" by (simp add: s_def)
  have "2 ^ 52 * d \<le> a * 2 ^ nat s"
  proof -
    have e: "nat (bits a - 1) + nat s = 52 + nat (bits d)" using bits_lower [OF assms(1)] s bits_pos [of d] unfolding s_def by linarith
    have "2 ^ 52 * d \<le> 2 ^ 52 * 2 ^ nat (bits d)" using bits_upper [of d] by simp
    also have "\<dots> = 2 ^ nat (bits a - 1) * 2 ^ nat s" by (simp only: power_add [symmetric] e)
    also have "\<dots> \<le> a * 2 ^ nat s" using bits_lower [OF assms(1)] by (simp add: mult_right_mono)
    finally show ?thesis .
  qed
  moreover define t where "t = (if a * 2 ^ nat s div d \<ge> 2 ^ 53 then s - 1 else s)"
  have sc: "scaled u (a, d) = (a * 2 ^ nat u, d)" if "0 \<le> u" for u using that by (simp add: scaled_def)
  have f: "float64 (a, d) = (round_div (a * 2 ^ nat t) d, 2 ^ nat t)"
    using assms(1) s by (simp add: float64_def Let_def sc s_def [symmetric] t_def)
  moreover have "2 ^ 52 * d \<le> a * 2 ^ nat (s - 1)" if "2 ^ 53 \<le> a * 2 ^ nat s div d"
  proof -
    have "2 ^ 53 * d \<le> (a * 2 ^ nat s div d) * d" using that assms(2) by (intro mult_right_mono) simp_all
    also have "\<dots> \<le> a * 2 ^ nat s" using mod_int_pos_iff [of "a * 2 ^ nat s" d] assms(2) by (simp add: minus_mod_eq_div_mult [symmetric])
    also have "\<dots> = 2 * (a * 2 ^ nat (s - 1))" using s by (simp add: nat_diff_distrib power_diff)
    finally show ?thesis by simp
  qed
  ultimately show ?thesis by (intro exI [of _ "nat t"]) (simp add: t_def)
qed
lemma round_div_error: "0 < d \<Longrightarrow> 2 * \<bar>round_div n d * d - n\<bar> \<le> d"
proof -
  assume d: "0 < d"
  have r: "0 \<le> n mod d" "n mod d < d" "n = (n div d) * d + n mod d" using d by simp_all
  show ?thesis
  proof (cases "round_div n d = n div d")
    case True
    then have "2 * (n mod d) \<le> d" by (auto simp: round_div_def Let_def split: if_splits)
    moreover have "round_div n d * d - n = - (n mod d)" unfolding True by (simp add: minus_mod_eq_div_mult [symmetric])
    ultimately show ?thesis using r(1) by simp
  next
    case False
    then have q: "round_div n d = n div d + 1" "d \<le> 2 * (n mod d)" by (auto simp: round_div_def Let_def split: if_splits)
    have "round_div n d * d - n = d - n mod d" unfolding q(1) distrib_right by (simp add: minus_mod_eq_div_mult [symmetric])
    then show ?thesis using q(2) r(2) by simp
  qed
qed

text \<open>A quotient that is an integer below \<open>2 ^ 53\<close> over a power of two is exact; any other has a relative error of \<open>2 ^ -53\<close> at most.\<close>

lemma float64_dyadic:
  assumes "0 < a" "0 < d" "a < d * 2 ^ 52" "a * 2 ^ j = b * d" "b < 2 ^ 53"
  shows "0 < snd (float64 (a, d)) \<and> fst (float64 (a, d)) * d = a * snd (float64 (a, d))"
proof -
  obtain t where t: "float64 (a, d) = (round_div (a * 2 ^ t) d, 2 ^ t)" "2 ^ 52 * d \<le> a * 2 ^ t" using float64_form [OF assms(1-3)] by blast
  have "j \<le> t"
  proof (rule ccontr)
    assume "\<not> j \<le> t"
    then have j: "j = t + (j - t - 1) + 1" by simp
    have "2 ^ 53 * d \<le> a * 2 ^ t * 2" using t(2) by simp
    also have "\<dots> \<le> a * 2 ^ t * 2 * 2 ^ (j - t - 1)" using assms(1) mult_left_mono [of 1 "2 ^ (j - t - 1)" "a * 2 ^ t * 2"] by simp
    also have "\<dots> = a * 2 ^ j" by (subst (2) j) (simp add: power_add)
    also have "\<dots> < 2 ^ 53 * d" using assms(2,4,5) by simp
    finally show False by simp
  qed
  then have "a * 2 ^ t = (b * 2 ^ (t - j)) * d" 
  proof -
    assume "j \<le> t"
    then have "a * 2 ^ t = a * 2 ^ j * 2 ^ (t - j)" by (simp add: mult.assoc power_add [symmetric])
    also have "\<dots> = (b * 2 ^ (t - j)) * d" unfolding assms(4) by (simp add: ac_simps)
    finally show ?thesis .
  qed
  then show ?thesis using t(1) round_div_exact [OF assms(2), of "b * 2 ^ (t - j)"] by simp
qed

lemma float64_error:
  assumes "0 < a" "0 < d" "a < d * 2 ^ 52"
  shows "0 < snd (float64 (a, d)) \<and> 2 ^ 53 * \<bar>fst (float64 (a, d)) * d - a * snd (float64 (a, d))\<bar> \<le> a * snd (float64 (a, d))"
proof -
  obtain t where t: "float64 (a, d) = (round_div (a * 2 ^ t) d, 2 ^ t)" "2 ^ 52 * d \<le> a * 2 ^ t" using float64_form [OF assms] by blast
  have "2 ^ 52 * (2 * \<bar>round_div (a * 2 ^ t) d * d - a * 2 ^ t\<bar>) \<le> 2 ^ 52 * d" using round_div_error [OF assms(2), of "a * 2 ^ t"] by simp
  then show ?thesis using t by simp
qed

lemma near_trans: "2 * \<bar>a - n\<bar> \<le> d \<Longrightarrow> 2 * \<bar>n - b\<bar> < d \<Longrightarrow> \<bar>a - b\<bar> < (d :: int)"
  using abs_triangle_ineq [of "a - n" "n - b"] by simp

lemma round_div_near: "0 < d \<Longrightarrow> 2 * \<bar>n - q * d\<bar> < d \<Longrightarrow> round_div n d = q"
proof -
  assume d: "0 < d" and near: "2 * \<bar>n - q * d\<bar> < d"
  have "2 * \<bar>round_div n d * d - n\<bar> \<le> d" by (rule round_div_error [OF d])
  then have "\<bar>round_div n d * d - q * d\<bar> < d" using near by (rule near_trans)
  then have "\<bar>(round_div n d - q) * d\<bar> < d" by (simp only: left_diff_distrib)
  then have "\<bar>round_div n d - q\<bar> * d < 1 * d" using d by (simp add: abs_mult)
  then show ?thesis using d by (simp only: mult_less_cancel_right) simp
qed

lemma error_chain:
  fixes A B C U V W :: int
  assumes "A \<le> B + C" "2 ^ 53 * B \<le> 100 * U" "2 ^ 53 * C \<le> V" "U \<le> V" "V \<le> 2 ^ 40 * W" "0 < W"
  shows "2 * A < W"
proof -
  have "2 ^ 53 = (9007199254740992 :: int)" "2 ^ 40 = (1099511627776 :: int)" by simp_all
  with assms show ?thesis by simp
qed

lemma div_cross: "0 < y \<Longrightarrow> 0 < q \<Longrightarrow> x * q = a * y \<Longrightarrow> x div y = a div (q :: int)"
  by (metis div_mult_mult1_if less_irrefl mult.commute)

text \<open>A hundredth times a number of hundredths prints as that number.\<close>

lemma print_hundredths:
  assumes "0 \<le> n" "n < 2 ^ 40"
  defines "c \<equiv> float64 (1, 100)" and "r \<equiv> float64 (n * fst (float64 (1, 100)), snd (float64 (1, 100)))"
  shows "round_div (100 * fst r) (snd r) = n"
proof (cases "n = 0")
  case False
  have c: "0 < snd c" "2 ^ 53 * \<bar>fst c * 100 - snd c\<bar> \<le> snd c" using float64_error [of 1 100] by (simp_all add: c_def)
  have c1: "0 < fst c" "fst c < snd c"
  proof -
    have "snd c < 2 ^ 53 * snd c" using c(1) by simp
    then have "2 ^ 53 * \<bar>fst c * 100 - snd c\<bar> < 2 ^ 53 * snd c" using c(2) by (rule le_less_trans [rotated])
    then have "\<bar>fst c * 100 - snd c\<bar> < snd c" by simp
    then show "0 < fst c" "fst c < snd c" using c(1) by linarith+
  qed
  have "0 < n * fst c" using False assms(1) c1 by simp
  moreover have "n * fst c < snd c * 2 ^ 52"
  proof -
    have "n * fst c \<le> 2 ^ 40 * fst c" using assms(2) c1 by (intro mult_right_mono) simp_all
    also have "\<dots> < 2 ^ 40 * snd c" using c1(2) by simp
    also have "\<dots> \<le> snd c * 2 ^ 52" using c(1) by simp
    finally show ?thesis .
  qed
  ultimately have e: "0 < snd r" "2 ^ 53 * \<bar>fst r * snd c - n * fst c * snd r\<bar> \<le> n * fst c * snd r"
    using float64_error [of "n * fst c" "snd c"] c(1) by (simp_all add: r_def c_def)
  have a: "2 ^ 53 * \<bar>100 * fst r * snd c - n * (fst c * 100) * snd r\<bar> \<le> 100 * (n * fst c * snd r)"
  proof -
    have "100 * fst r * snd c - n * (fst c * 100) * snd r = 100 * (fst r * snd c - n * fst c * snd r)" by (simp add: algebra_simps)
    then have "\<bar>100 * fst r * snd c - n * (fst c * 100) * snd r\<bar> = 100 * \<bar>fst r * snd c - n * fst c * snd r\<bar>" by (simp only: abs_mult abs_numeral)
    moreover have "100 * (2 ^ 53 * \<bar>fst r * snd c - n * fst c * snd r\<bar>) \<le> 100 * (n * fst c * snd r)" using e(2) by (rule mult_left_mono) simp
    ultimately show ?thesis by (simp only: mult.left_commute)
  qed
  have b: "2 ^ 53 * \<bar>n * (fst c * 100) * snd r - n * snd c * snd r\<bar> \<le> n * snd c * snd r"
  proof -
    have "n * (fst c * 100) * snd r - n * snd c * snd r = (n * snd r) * (fst c * 100 - snd c)" by (simp add: algebra_simps)
    moreover have "(n * snd r) * (2 ^ 53 * \<bar>fst c * 100 - snd c\<bar>) \<le> (n * snd r) * snd c" using c(2) assms(1) e(1) by (intro mult_left_mono) simp_all
    ultimately show ?thesis using assms(1) e(1) by (simp add: abs_mult ac_simps)
  qed
  have "n * fst c * snd r \<le> n * snd c * snd r" using assms(1) c1 e(1) by (intro mult_right_mono mult_left_mono) simp_all
  moreover have "n * snd c * snd r \<le> 2 ^ 40 * (snd c * snd r)" using assms(2) c(1) e(1) by (simp add: mult.assoc mult_right_mono)
  moreover have "\<bar>100 * fst r * snd c - n * snd c * snd r\<bar> \<le> \<bar>100 * fst r * snd c - n * (fst c * 100) * snd r\<bar> + \<bar>n * (fst c * 100) * snd r - n * snd c * snd r\<bar>" using abs_triangle_ineq [of "100 * fst r * snd c - n * (fst c * 100) * snd r" "n * (fst c * 100) * snd r - n * snd c * snd r"] by simp
  moreover have "0 < snd c * snd r" using c(1) e(1) by simp
  ultimately have "2 * \<bar>100 * fst r * snd c - n * snd c * snd r\<bar> < snd c * snd r" using error_chain [OF _ a b] by blast
  moreover have "100 * fst r * snd c - n * snd c * snd r = (100 * fst r - n * snd r) * snd c" by (simp add: algebra_simps)
  ultimately have "(2 * \<bar>100 * fst r - n * snd r\<bar>) * snd c < snd r * snd c" using c(1) by (simp add: abs_mult ac_simps)
  then have "2 * \<bar>100 * fst r - n * snd r\<bar> < snd r" using c(1) by (simp only: mult_less_cancel_right_pos)
  then show ?thesis by (rule round_div_near [OF e(1)])
qed (simp add: r_def float64_def round_div_def)

end
