(* ===== verification/StorageProps.thy ===== *)
theory StorageProps
  imports Storage GoRound
begin

text \<open>
  The properties of the storages: their names are unique over the drivers and there is one storage of
  type LVM and one of type CephFS at most, whatever requests are served; a deletion touches an idle and
  unused storage and nothing else; an iSCSI storage whose deletion failed halfway is listed but can neither
  be shown nor deleted nor updated; and sizes are shown rounded down. The locale \<open>storage_server\<close> has what
  the server of a cluster promises.
\<close>

section \<open>The server\<close>

text \<open>The operations on one kind of object leave the objects \<open>V\<close> of another kind alone.\<close>

definition keeps :: "('k, 'b) kube_api \<Rightarrow> ('k \<Rightarrow> 'v) \<Rightarrow> bool" where
  "keeps K V \<longleftrightarrow> (\<forall>obj k. V (fst (kCreate K obj k)) = V k) \<and> (\<forall>obj k. V (fst (kUpdate K obj k)) = V k) \<and> (\<forall>ns n k. V (fst (kDelete K ns n k)) = V k)"

lemma keepsD:
  assumes "keeps K V"
  shows "kCreate K obj k = (k', r) \<Longrightarrow> V k' = V k" "kUpdate K obj k = (k', r) \<Longrightarrow> V k' = V k" "kDelete K ns n k = (k', r) \<Longrightarrow> V k' = V k"
  using assms unfolding keeps_def by (metis fst_conv)+

definition cluster_kept :: "cluster_body \<Rightarrow> string \<times> string list" where
  "cluster_kept b = (cb_StorageType b, cb_Hosts b)"

definition iscsi_kept :: "iscsi_body \<Rightarrow> string list \<times> string \<times> string \<times> bool \<times> string list" where
  "iscsi_kept b = (elems (ic_Targets b), ic_Port b, ic_Iqn b, ic_Chap b, elems (ic_Initiators b))"

definition nfs_kept :: "nfs_body \<Rightarrow> string \<times> string" where
  "nfs_kept b = (nf_Server b, nf_Path b)"

definition secret_kept :: "secret_body \<Rightarrow> (string \<times> string) multiset" where
  "secret_kept b = mset (sb_data b)"

locale storage_server =
  cl: kube_live "se_clusters E" cview cluster_kept + ic: kube_live "se_iscsis E" iview iscsi_kept
  + nf: kube_live "se_nfss E" nview nfs_kept + sc: kube_live "se_secrets E" sview secret_kept
  for E :: "'k storage_env" and cview iview nview sview +
  assumes clusters_keep: "keeps (se_clusters E) iview" "keeps (se_clusters E) nview" "keeps (se_clusters E) sview"
    and iscsis_keep: "keeps (se_iscsis E) cview" "keeps (se_iscsis E) nview" "keeps (se_iscsis E) sview"
    and nfss_keep: "keeps (se_nfss E) cview" "keeps (se_nfss E) iview" "keeps (se_nfss E) sview"
    and secrets_keep: "keeps (se_secrets E) cview" "keeps (se_secrets E) iview" "keeps (se_secrets E) nview"

section \<open>Names and types\<close>

text \<open>What the properties look at: the types of the clusters, and the names of the other storages.\<close>

definition cluster_types :: "('k \<Rightarrow> string \<times> string \<rightharpoonup> cluster_body k8s_obj) \<Rightarrow> 'k \<Rightarrow> string \<rightharpoonup> string" where
  "cluster_types cview k n = map_option (\<lambda>obj. cb_StorageType (ko_body obj)) (cview k ('''', n))"

definition names :: "('k \<Rightarrow> string \<times> string \<rightharpoonup> 'b k8s_obj) \<Rightarrow> 'k \<Rightarrow> string set" where
  "names V k = {n. V k ('''', n) \<noteq> None}"

definition storages_ok :: "(string \<rightharpoonup> string) \<Rightarrow> string set \<Rightarrow> string set \<Rightarrow> bool" where
  "storages_ok C I N \<longleftrightarrow> dom C \<inter> I = {} \<and> dom C \<inter> N = {} \<and> I \<inter> N = {} \<and> ran C \<subseteq> {LvmType, CephfsType} \<and> inj_on C (dom C)"

context storage_server
begin

abbreviation ok :: "'k \<Rightarrow> bool" where
  "ok k \<equiv> storages_ok (cluster_types cview k) (names iview k) (names nview k)"

lemma dom_types: "dom (cluster_types cview k) = names cview k"
  by (auto simp: cluster_types_def names_def)

lemma names_create: "kCreate K obj k = (k', None) \<Longrightarrow> kube_live K V f \<Longrightarrow> ko_namespace obj = '''' \<Longrightarrow> names V k' = insert (ko_name obj) (names V k)"
  by (drule (1) kube_laws.create_view [OF kube_live.axioms(1), rotated]) (auto simp: names_def)

lemma view_fail:
  assumes "kube_live K V f"
  shows "kCreate K obj k = (k', Some e) \<Longrightarrow> V k' = V k" "kUpdate K obj k = (k', Some e) \<Longrightarrow> V k' = V k" "kDelete K ns n k = (k', Some e) \<Longrightarrow> V k' = V k"
  using kube_laws.create_err kube_laws.update_err kube_laws.delete_err kube_live.axioms(1) [OF assms] by metis+

lemma names_update: "kUpdate K obj k = (k', r) \<Longrightarrow> kube_live K V f \<Longrightarrow> names V k' = names V k"
proof (cases r)
  case None
  assume "kUpdate K obj k = (k', r)" "kube_live K V f"
  then obtain obj0 obj' where "V k (ko_key obj) = Some obj0" "V k' = (V k)(ko_key obj \<mapsto> obj')"
    using kube_laws.update_view [OF kube_live.axioms(1), of K V f obj k k'] None by blast
  then have "V k' key = None \<longleftrightarrow> V k key = None" for key by (cases "key = ko_key obj") simp_all
  then show ?thesis by (simp add: names_def)
qed (auto simp: names_def dest: view_fail(2))

lemma names_delete: "kDelete K ns n k = (k', r) \<Longrightarrow> kube_live K V f \<Longrightarrow> names V k' \<subseteq> names V k"
proof (cases r)
  case None
  assume "kDelete K ns n k = (k', r)" "kube_live K V f"
  then show ?thesis using kube_laws.delete_view [OF kube_live.axioms(1), of K V f ns n k k'] None by (auto simp: names_def split: if_splits)
qed (auto simp: names_def dest: view_fail(3))

lemma types_update:
  assumes "kUpdate (se_clusters E) obj k = (k', r)" "cview k ('''', ko_name obj) = Some obj0" "ko_namespace obj = ''''"
    "cb_StorageType (ko_body obj) = cb_StorageType (ko_body obj0)"
  shows "cluster_types cview k' = cluster_types cview k"
proof (cases r)
  case None
  from cl.update_view [OF assms(1) [unfolded None]] assms(3) obtain obj' where "cview k' = (cview k)(('''', ko_name obj) \<mapsto> obj')"
    "cb_StorageType (ko_body obj') = cb_StorageType (ko_body obj)" by (auto simp: cluster_kept_def)
  then show ?thesis using assms(2,4) by (auto simp: cluster_types_def)
next
  case (Some e)
  from cl.update_err [OF assms(1) [unfolded Some]] show ?thesis by (simp add: cluster_types_def fun_eq_iff)
qed

lemma types_delete:
  assumes "kDelete (se_clusters E) ns n k = (k', r)"
  shows "cluster_types cview k' \<subseteq>\<^sub>m cluster_types cview k"
proof (cases r)
  case None
  from cl.delete_view [OF assms [unfolded None]] show ?thesis
    by (auto simp: cluster_types_def map_le_def split: if_splits)
next
  case (Some e)
  from cl.delete_err [OF assms [unfolded Some]] show ?thesis by (simp add: cluster_types_def map_le_def)
qed

lemma ok_less:
  assumes "storages_ok C I N" "C' \<subseteq>\<^sub>m C" "I' \<subseteq> I" "N' \<subseteq> N"
  shows "storages_ok C' I' N'"
proof -
  have "dom C' \<subseteq> dom C" by (rule map_le_implies_dom_le [OF assms(2)])
  moreover have "\<And>n. n \<in> dom C' \<Longrightarrow> C' n = C n" using assms(2) by (simp add: map_le_def)
  moreover have "ran C' \<subseteq> ran C" using assms(2) by (force simp: ran_def map_le_def dom_def)
  ultimately show ?thesis using assms unfolding storages_ok_def inj_on_def by (smt (verit) disjoint_iff subset_iff)
qed

end

context storage_server
begin

lemma list_names: "kube_live K V f \<Longrightarrow> kList K '''' k = Inr objs \<Longrightarrow> ko_name ` set objs = names V k"
proof -
  assume l: "kube_live K V f" and k: "kList K '''' k = Inr objs"
  from kube_laws.list_view [OF kube_live.axioms(1) [OF l] k] have "set objs = {obj. \<exists>n. V k ('''', n) = Some obj}" .
  moreover have "V k ('''', n) = Some obj \<Longrightarrow> ko_name obj = n" for n obj using kube_laws.view_key [OF kube_live.axioms(1) [OF l]] by simp
  ultimately show ?thesis by (force simp: names_def)
qed

lemma st_Name_shown [simp]:
  "st_Name (storageClusterToSCStorage c) = ko_name c" "st_Name (iscsiToSCStorage i) = ko_name i" "st_Name (nfsToSCStorage n) = ko_name n"
  by (simp_all add: storageClusterToSCStorage_def iscsiToSCStorage_def nfsToSCStorage_def with_status_def empty_storage_def Let_def)

lemma list_types: "kList (se_clusters E) '''' k = Inr objs \<Longrightarrow> (\<lambda>obj. cb_StorageType (ko_body obj)) ` set objs = ran (cluster_types cview k)"
  by (drule cl.list_view) (auto simp: ran_def cluster_types_def)

lemma list_ex_name: "list_ex (\<lambda>st. st_Name st = name) sts \<longleftrightarrow> name \<in> st_Name ` set sts"
  by (auto simp: list_ex_iff)

lemma exist_iff:
  assumes "ok k" "checkStorageExist E name k = Inr b"
  shows "b \<longleftrightarrow> name \<in> names cview k \<union> names iview k \<union> names nview k"
proof -
  obtain cs where cs: "kList (se_clusters E) '''' k = Inr cs" using cl.list_live by blast
  obtain js where i: "kList (se_iscsis E) '''' k = Inr js" using ic.list_live by blast
  obtain ns where n: "kList (se_nfss E) '''' k = Inr ns" using nf.list_live by blast
  have "cb_StorageType (ko_body c) \<in> {LvmType, CephfsType}" if "c \<in> set cs" for c
    using list_types [OF cs] assms(1) that unfolding storages_ok_def by blast
  then have "{c \<in> set cs. cb_StorageType (ko_body c) = LvmType} \<union> {c \<in> set cs. cb_StorageType (ko_body c) = CephfsType} = set cs" by auto
  then have "ko_name ` {c \<in> set cs. cb_StorageType (ko_body c) = LvmType} \<union> ko_name ` {c \<in> set cs. cb_StorageType (ko_body c) = CephfsType}
      = names cview k" using list_names [OF cl.kube_live_axioms cs] by (simp only: image_Un [symmetric])
  moreover have "b = list_ex (\<lambda>st. st_Name st = name) (map storageClusterToSCStorage (filter (\<lambda>obj. cb_StorageType (ko_body obj) = LvmType) cs)
      @ map storageClusterToSCStorage (filter (\<lambda>obj. cb_StorageType (ko_body obj) = CephfsType) cs) @ map iscsiToSCStorage js @ map nfsToSCStorage ns)"
    using assms(2) cs i n
    by (auto simp: checkStorageExist_def getStorages_def storageHandles_def cluster_GetStorages_def iscsi_GetStorages_def nfs_GetStorages_def list_ex_iff)
  ultimately have "b \<longleftrightarrow> name \<in> names cview k \<union> ko_name ` set js \<union> ko_name ` set ns"
    unfolding list_ex_name by (simp add: image_Un image_image Un_assoc [symmetric])
  then show ?thesis using list_names [OF ic.kube_live_axioms i] list_names [OF nf.kube_live_axioms n] by simp
qed

lemma cluster_create_ok:
  assumes "ok k" "name \<notin> names cview k \<union> names iview k \<union> names nview k" "cb_StorageType b \<in> {LvmType, CephfsType} - ran (cluster_types cview k)"
    and c: "kCreate (se_clusters E) (new_obj '''' name b) k = (k', r)"
  shows "ok k'"
proof -
  have v: "names iview k' = names iview k" "names nview k' = names nview k"
    using keepsD(1) [OF clusters_keep(1) c] keepsD(1) [OF clusters_keep(2) c] by (simp_all add: names_def)
  show ?thesis
  proof (cases r)
    case None
    from cl.create_view [OF c [unfolded None]] obtain obj' where "cview k' = (cview k)(('''', name) \<mapsto> obj')"
      "cb_StorageType (ko_body obj') = cb_StorageType b" by (auto simp: new_obj_def cluster_kept_def)
    then have t: "cluster_types cview k' = (cluster_types cview k)(name \<mapsto> cb_StorageType b)" by (auto simp: cluster_types_def)
    have new: "name \<notin> dom (cluster_types cview k)" using assms(2) by (simp add: dom_types)
    then have "cluster_types cview k name = None" by (simp only: domIff not_not)
    then have "ran (cluster_types cview k') = insert (cb_StorageType b) (ran (cluster_types cview k))" by (simp add: t)
    moreover have "inj_on (cluster_types cview k') (dom (cluster_types cview k'))"
    proof -
      have "Some (cb_StorageType b) \<notin> cluster_types cview k ` (dom (cluster_types cview k))" using assms(3) by (auto simp: ran_def)
      then show ?thesis using assms(1) new inj_on_fun_updI [of "cluster_types cview k" "dom (cluster_types cview k)" "Some (cb_StorageType b)" name]
        unfolding t storages_ok_def by (auto simp: fun_upd_image)
    qed
    ultimately show ?thesis using assms(1-3) v unfolding storages_ok_def by (auto simp: t dom_types)
  next
    case (Some e)
    from cl.create_err [OF c [unfolded Some]] have "cluster_types cview k' = cluster_types cview k" by (simp add: cluster_types_def fun_eq_iff)
    then show ?thesis using assms(1) v by simp
  qed
qed

lemma iscsi_create_ok:
  assumes "ok k" "name \<notin> names cview k \<union> names nview k" and c: "kCreate (se_iscsis E) (new_obj '''' name b) k = (k', r)"
  shows "ok k'"
proof -
  have v: "cluster_types cview k' = cluster_types cview k" "names nview k' = names nview k"
    using keepsD(1) [OF iscsis_keep(1) c] keepsD(1) [OF iscsis_keep(2) c] by (simp_all add: names_def cluster_types_def fun_eq_iff)
  have "names iview k' \<subseteq> insert name (names iview k)"
  proof (cases r)
    case None
    from names_create [OF c [unfolded None] ic.kube_live_axioms] show ?thesis by (simp add: new_obj_def)
  next
    case (Some e)
    from ic.create_err [OF c [unfolded Some]] show ?thesis by (auto simp: names_def)
  qed
  then show ?thesis using assms(1,2) unfolding v storages_ok_def dom_types [symmetric] by blast
qed

lemma nfs_create_ok:
  assumes "ok k" "name \<notin> names cview k \<union> names iview k" and c: "kCreate (se_nfss E) (new_obj '''' name b) k = (k', r)"
  shows "ok k'"
proof -
  have v: "cluster_types cview k' = cluster_types cview k" "names iview k' = names iview k"
    using keepsD(1) [OF nfss_keep(1) c] keepsD(1) [OF nfss_keep(2) c] by (simp_all add: names_def cluster_types_def fun_eq_iff)
  have "names nview k' \<subseteq> insert name (names nview k)"
  proof (cases r)
    case None
    from names_create [OF c [unfolded None] nf.kube_live_axioms] show ?thesis by (simp add: new_obj_def)
  next
    case (Some e)
    from nf.create_err [OF c [unfolded Some]] show ?thesis by (auto simp: names_def)
  qed
  then show ?thesis using assms(1,2) unfolding v storages_ok_def dom_types [symmetric] by blast
qed

text \<open>Secrets do not matter for the storages.\<close>

definition same :: "'k \<Rightarrow> 'k \<Rightarrow> bool" where
  "same k k' \<longleftrightarrow> cview k' = cview k \<and> iview k' = iview k \<and> nview k' = nview k"

lemma same_ok: "same k k' \<Longrightarrow> ok k' = ok k"
  by (simp add: same_def names_def cluster_types_def [abs_def])

lemma same_names: "same k k' \<Longrightarrow> names cview k' = names cview k \<and> names iview k' = names iview k \<and> names nview k' = names nview k"
  by (simp add: same_def names_def)

lemma secrets_same:
  "kCreate (se_secrets E) sec k = (k', r) \<Longrightarrow> same k k'" "kUpdate (se_secrets E) sec k = (k', r) \<Longrightarrow> same k k'"
  "kDelete (se_secrets E) ns n k = (k', r) \<Longrightarrow> same k k'"
  unfolding same_def using keepsD [OF secrets_keep(1)] keepsD [OF secrets_keep(2)] keepsD [OF secrets_keep(3)] by metis+

lemma same_refl [simp]: "same k k"
  by (simp add: same_def)

lemma createSecret_same: "createSecret (se_secrets E) ns s k = (k', r) \<Longrightarrow> same k k'"
  by (auto simp: createSecret_def crud_create_def intro: secrets_same split: sum.splits)

lemma change_secret_same: "change_secret E name obj p b k = (k', r) \<Longrightarrow> same k k'"
  by (auto simp: change_secret_def updateIscsiSecret_def intro: createSecret_same secrets_same split: if_splits sum.splits)

end

section \<open>Every request keeps the names and types\<close>

context storage_server
begin

lemma createStorageCluster_ok:
  assumes "ok k" "name \<notin> names cview k \<union> names iview k \<union> names nview k" "type \<in> {LvmType, CephfsType}"
    and c: "createStorageCluster E name type hosts k = (k', r)"
  shows "ok k'"
proof -
  obtain cs where cs: "kList (se_clusters E) '''' k = Inr cs" using cl.list_live by blast
  have ex: "checkStorageClusterTypeExist E type k = Inr (type \<in> ran (cluster_types cview k))"
    unfolding list_types [OF cs, symmetric] using cs by (auto simp: checkStorageClusterTypeExist_def list_ex_iff)
  show ?thesis
  proof (cases "type \<in> ran (cluster_types cview k) \<or> isHostsValidate E hosts k \<noteq> None")
    case True
    then have "k' = k" using c ex by (auto simp: createStorageCluster_def split: if_splits)
    then show ?thesis using assms(1) by simp
  next
    case False
    let ?b = "\<lparr>cb_Annotations = (if type = LvmType then [(StorageClassDefaultKey, ''true'')] else []), cb_Finalizers = [],
      cb_StorageType = type, cb_Hosts = hosts, cb_Status = no_status, cb_Config = []\<rparr>"
    have "kCreate (se_clusters E) (new_obj '''' name ?b) k = (k', r)" using c ex False by (simp add: createStorageCluster_def)
    then show ?thesis by (rule cluster_create_ok [OF assms(1,2), rotated]) (use False assms(3) in simp)
  qed
qed

lemma iscsi_Create_cases:
  assumes "iscsi_Create E st k = (k', r)"
  obtains "k' = k" "r \<noteq> None"
  | p where "st_Iscsi st = Some p" "ip_Chap p" "r \<noteq> None" "createSecret (se_secrets E) ZCloudNamespace (genIscsiSecret (st_Name st) p) k = (k', r)"
  | p k1 where "st_Iscsi st = Some p" "(if ip_Chap p then createSecret (se_secrets E) ZCloudNamespace (genIscsiSecret (st_Name st) p) k else (k, None)) = (k1, None)"
      "kCreate (se_iscsis E) (new_obj '''' (st_Name st)
         \<lparr>ic_Finalizers = [], ic_Targets = ip_Targets p, ic_Port = ip_Port p, ic_Iqn = ip_Iqn p, ic_Chap = ip_Chap p,
          ic_Initiators = ip_Initiators p, ic_Status = no_status\<rparr>) k1 = (k', r)"
  using assms unfolding iscsi_Create_def by (auto split: option.splits sum.splits bool.splits prod.splits if_splits)

lemma iscsi_Create_ok:
  assumes "ok k" "st_Name st \<notin> names cview k \<union> names iview k \<union> names nview k" "iscsi_Create E st k = (k', r)"
  shows "ok k'"
  using assms(3)
proof (cases rule: iscsi_Create_cases)
  case 1
  then show ?thesis using assms(1) by simp
next
  case (2 p)
  then show ?thesis using same_ok [OF createSecret_same] assms(1) by blast
next
  case (3 p k1)
  then have "same k k1" by (auto intro: createSecret_same split: if_splits)
  from iscsi_create_ok [OF _ _ 3(3)] same_ok [OF this] same_names [OF this] assms(1,2) show ?thesis by simp
qed

lemma createStorage_ok:
  assumes "ok k" "createStorage E st k = (k', r)"
  shows "ok k'"
proof (cases "k' = k")
  case False
  then obtain h where h: "checkStorageExist E (st_Name st) k = Inr False" "getHandleFromType (st_Type st) = Inr h" "handle_Create E h st k = (k', r)"
    using assms(2) by (auto simp: createStorage_def split: sum.splits if_splits)
  have free: "st_Name st \<notin> names cview k \<union> names iview k \<union> names nview k" using exist_iff [OF assms(1) h(1)] by simp
  have ty: "st_Type st = GetType h" using h(2) by (auto simp: getHandleFromType_def dest: find_SomeD split: option.splits)
  show ?thesis
  proof (cases h)
    case LvmManager
    then show ?thesis using h(3) ty False createStorageCluster_ok [OF assms(1) free] by (auto simp: cluster_Create_def split: option.splits)
  next
    case CephFsManager
    then show ?thesis using h(3) ty False createStorageCluster_ok [OF assms(1) free] by (auto simp: cluster_Create_def split: option.splits)
  next
    case IscsiManager
    then show ?thesis using h(3) iscsi_Create_ok [OF assms(1) free] by simp
  next
    case NfsManager
    then show ?thesis using h(3) False free nfs_create_ok [OF assms(1)] by (auto simp: nfs_Create_def split: option.splits sum.splits if_splits)
  qed
qed (use assms in simp)

lemma updateStorageCluster_ok:
  assumes "ok k" "updateStorageCluster E name type hosts k = (k', r)"
  shows "ok k'"
proof (cases "k' = k")
  case False
  then obtain obj where g: "kGet (se_clusters E) '''' name k = Inr obj"
    and u: "kUpdate (se_clusters E) (obj\<lparr>ko_body := (ko_body obj)\<lparr>cb_Hosts := hosts\<rparr>\<rparr>) k = (k', r)"
    using assms(2) by (auto simp: updateStorageCluster_def Let_def split: sum.splits if_splits option.splits)
  have key: "cview k ('''', ko_name obj) = Some obj" "ko_namespace obj = ''''" using cl.get_view [OF g] cl.view_key [OF cl.get_view [OF g]] by simp_all
  have "cluster_types cview k' = cluster_types cview k" using key by (intro types_update [OF u]) simp_all
  moreover have "names iview k' = names iview k" "names nview k' = names nview k"
    using keepsD(2) [OF clusters_keep(1) u] keepsD(2) [OF clusters_keep(2) u] by (simp_all add: names_def)
  ultimately show ?thesis using assms(1) by simp
qed (use assms in simp)

lemma iscsi_update_ok: "ok k \<Longrightarrow> kUpdate (se_iscsis E) obj k = (k', r) \<Longrightarrow> ok k'"
  using names_update [OF _ ic.kube_live_axioms, of obj k k' r] keepsD(2) [OF iscsis_keep(1), of obj k k' r] keepsD(2) [OF iscsis_keep(2), of obj k k' r]
  by (simp add: names_def cluster_types_def [abs_def])

lemma nfs_update_ok: "ok k \<Longrightarrow> kUpdate (se_nfss E) obj k = (k', r) \<Longrightarrow> ok k'"
  using names_update [OF _ nf.kube_live_axioms, of obj k k' r] keepsD(2) [OF nfss_keep(1), of obj k k' r] keepsD(2) [OF nfss_keep(2), of obj k k' r]
  by (simp add: names_def cluster_types_def [abs_def])

lemma write_iscsi_ok:
  assumes "ok k" "write_iscsi E name obj p b k = (k', r)"
  shows "ok k'"
proof -
  obtain k1 e where s: "(if iscsi_changed (ko_body obj) p b then change_secret E name obj p b k else (k, None)) = (k1, e)" by force
  then have "same k k1" by (auto intro: change_secret_same split: if_splits)
  then have "ok k1" using same_ok assms(1) by simp
  then show ?thesis using assms s iscsi_update_ok [of k1] by (auto simp: write_iscsi_def Let_def split: if_splits option.splits)
qed

lemma updateStorage_ok:
  assumes "ok k" "updateStorage E st k = Done (k', r)"
  shows "ok k'"
proof (cases "getHandleFromType (st_Type st)")
  case (Inl e)
  then show ?thesis using assms by (simp add: updateStorage_def)
next
  case (Inr h)
  then have u: "handle_Update E h st k = Done (k', r)" using assms(2) by (simp add: updateStorage_def)
  show ?thesis
  proof (cases h)
    case LvmManager
    then show ?thesis using u updateStorageCluster_ok [OF assms(1)] by (auto simp: cluster_Update_def split: option.splits)
  next
    case CephFsManager
    then show ?thesis using u updateStorageCluster_ok [OF assms(1)] by (auto simp: cluster_Update_def split: option.splits)
  next
    case IscsiManager
    then show ?thesis using u assms(1) write_iscsi_ok [OF assms(1)] by (auto simp: iscsi_Update_def split: option.splits if_splits sum.splits)
  next
    case NfsManager
    then show ?thesis using u assms(1) nfs_update_ok by (auto simp: nfs_Update_def split: option.splits if_splits sum.splits)
  qed
qed

end

section \<open>Deletion\<close>

text \<open>The object \<open>n\<close> is gone or marked, and no other has changed.\<close>

definition deleted_at :: "('k \<Rightarrow> string \<times> string \<rightharpoonup> 'b k8s_obj) \<Rightarrow> string \<Rightarrow> 'k \<Rightarrow> 'k \<Rightarrow> bool" where
  "deleted_at V n k k' \<longleftrightarrow> (\<forall>key. key \<noteq> ('''', n) \<longrightarrow> V k' key = V k key)
     \<and> (V k' ('''', n) = None \<or> (\<exists>obj t. V k ('''', n) = Some obj \<and> V k' ('''', n) = Some (obj\<lparr>ko_deletion := Some t\<rparr>)))"

lemma deleted_atI:
  assumes "kube_live K V f" "kDelete K '''' n k = (k', None)"
  shows "deleted_at V n k k'"
  using kube_laws.delete_view [OF kube_live.axioms(1) [OF assms(1)] assms(2)] by (auto simp: deleted_at_def)

lemma deleted_at_same: "deleted_at V n k k' \<Longrightarrow> V k = V k0 \<Longrightarrow> deleted_at V n k0 k'"
  by (simp add: deleted_at_def)

text \<open>What a successful deletion of the storage \<open>n\<close> found and left, by the kind of the storage.\<close>

definition cluster_deleted where
  "cluster_deleted E cview iview nview n k k' \<longleftrightarrow>
     (\<exists>obj. cview k ('''', n) = Some obj \<and> \<not> se_busy E (ss_Phase (cb_Status (ko_body obj))) \<and> unused E (cb_Finalizers (ko_body obj)))
     \<and> deleted_at cview n k k' \<and> iview k' = iview k \<and> nview k' = nview k"

definition iscsi_deleted where
  "iscsi_deleted E cview iview nview n k k' \<longleftrightarrow>
     (\<exists>obj. iview k ('''', n) = Some obj \<and> \<not> se_busy E (ss_Phase (ic_Status (ko_body obj))) \<and> unused E (ic_Finalizers (ko_body obj)))
     \<and> deleted_at iview n k k' \<and> cview k' = cview k \<and> nview k' = nview k"

definition nfs_deleted where
  "nfs_deleted E cview iview nview n k k' \<longleftrightarrow>
     (\<exists>obj. nview k ('''', n) = Some obj \<and> \<not> se_busy E (ss_Phase (nf_Status (ko_body obj))) \<and> unused E (nf_Finalizers (ko_body obj)))
     \<and> deleted_at nview n k k' \<and> cview k' = cview k \<and> iview k' = iview k"

context storage_server
begin

lemma deleteStorageCluster_effect:
  assumes "deleteStorageCluster E n k = (k', r)"
  shows "if r = None then cluster_deleted E cview iview nview n k k' else same k k'"
proof (cases "kGet (se_clusters E) '''' n k")
  case (Inl e)
  then show ?thesis using assms by (auto simp: deleteStorageCluster_def)
next
  case (Inr obj)
  show ?thesis
  proof (cases "\<not> se_busy E (ss_Phase (cb_Status (ko_body obj))) \<and> unused E (cb_Finalizers (ko_body obj))")
    case True
    then have d: "kDelete (se_clusters E) '''' n k = (k', r)" using assms Inr by (simp add: deleteStorageCluster_def)
    have "iview k' = iview k" "nview k' = nview k" using keepsD(3) [OF clusters_keep(1) d] keepsD(3) [OF clusters_keep(2) d] by simp_all
    then show ?thesis using True cl.get_view [OF Inr] d deleted_atI [OF cl.kube_live_axioms, of n k k'] cl.delete_err [of "''''" n k k']
      by (cases r) (auto simp: cluster_deleted_def same_def)
  next
    case False
    then show ?thesis using assms Inr by (auto simp: deleteStorageCluster_def split: if_splits)
  qed
qed

lemma nfs_Delete_effect:
  assumes "nfs_Delete E n k = (k', r)"
  shows "if r = None then nfs_deleted E cview iview nview n k k' else same k k'"
proof (cases "kGet (se_nfss E) '''' n k")
  case (Inl e)
  then show ?thesis using assms by (auto simp: nfs_Delete_def)
next
  case (Inr obj)
  show ?thesis
  proof (cases "\<not> se_busy E (ss_Phase (nf_Status (ko_body obj))) \<and> unused E (nf_Finalizers (ko_body obj))")
    case True
    then have d: "kDelete (se_nfss E) '''' n k = (k', r)" using assms Inr by (simp add: nfs_Delete_def)
    have "cview k' = cview k" "iview k' = iview k" using keepsD(3) [OF nfss_keep(1) d] keepsD(3) [OF nfss_keep(2) d] by simp_all
    then show ?thesis using True nf.get_view [OF Inr] d deleted_atI [OF nf.kube_live_axioms, of n k k'] nf.delete_err [of "''''" n k k']
      by (cases r) (auto simp: nfs_deleted_def same_def)
  next
    case False
    then show ?thesis using assms Inr by (auto simp: nfs_Delete_def split: if_splits)
  qed
qed

lemma iscsi_Delete_effect:
  assumes "iscsi_Delete E n k = (k', r)"
  shows "if r = None then iscsi_deleted E cview iview nview n k k' else same k k'"
proof (cases "kGet (se_iscsis E) '''' n k")
  case (Inl e)
  then show ?thesis using assms by (auto simp: iscsi_Delete_def)
next
  case (Inr obj)
  show ?thesis
  proof (cases "\<not> se_busy E (ss_Phase (ic_Status (ko_body obj))) \<and> unused E (ic_Finalizers (ko_body obj))")
    case True
    obtain k1 e where s: "(if ic_Chap (ko_body obj) then kDelete (se_secrets E) ZCloudNamespace (secret_name n) k else (k, None)) = (k1, e)" by force
    then have same: "same k k1" by (auto intro: secrets_same split: if_splits)
    show ?thesis
    proof (cases e)
      case None
      then have d: "kDelete (se_iscsis E) '''' n k1 = (k', r)" using assms Inr True s by (simp add: iscsi_Delete_def)
      have "cview k' = cview k1" "nview k' = nview k1" using keepsD(3) [OF iscsis_keep(1) d] keepsD(3) [OF iscsis_keep(2) d] by simp_all
      then show ?thesis using True ic.get_view [OF Inr] d deleted_at_same [OF deleted_atI [OF ic.kube_live_axioms], of n k1 k' k] ic.delete_err [of "''''" n k1 k'] same
        by (cases r) (auto simp: iscsi_deleted_def same_def)
    next
      case (Some x)
      then show ?thesis using assms Inr True s same by (auto simp: iscsi_Delete_def)
    qed
  next
    case False
    then show ?thesis using assms Inr by (auto simp: iscsi_Delete_def split: if_splits)
  qed
qed

lemma deleteStorage_effect:
  assumes "deleteStorage E n k = (k', r)"
  shows "if r = None then cluster_deleted E cview iview nview n k k' \<or> iscsi_deleted E cview iview nview n k k' \<or> nfs_deleted E cview iview nview n k k'
    else same k k'"
proof (cases "get_storage E storageHandles n k")
  case (Inl e)
  then show ?thesis using assms by (auto simp: deleteStorage_def)
next
  case (Inr hs)
  then have "handle_Delete E (fst hs) n k = (k', r)" using assms by (auto simp: deleteStorage_def split: prod.splits)
  then show ?thesis
    by (cases "fst hs") (auto dest!: deleteStorageCluster_effect nfs_Delete_effect iscsi_Delete_effect split: if_splits)
qed

lemma deleted_at_names: "deleted_at V n k k' \<Longrightarrow> names V k' \<subseteq> names V k"
proof
  fix x
  assume "deleted_at V n k k'" "x \<in> names V k'"
  then show "x \<in> names V k" by (cases "x = n") (auto simp: deleted_at_def names_def)
qed

lemma deleted_at_types: "deleted_at cview n k k' \<Longrightarrow> cluster_types cview k' \<subseteq>\<^sub>m cluster_types cview k"
  unfolding map_le_def
proof
  fix x
  assume "deleted_at cview n k k'" "x \<in> dom (cluster_types cview k')"
  then show "cluster_types cview k' x = cluster_types cview k x" by (cases "x = n") (auto simp: deleted_at_def cluster_types_def)
qed

lemma deleteStorage_ok:
  assumes "ok k" "deleteStorage E n k = (k', r)"
  shows "ok k'"
proof (cases r)
  case None
  note le = deleted_at_types [of n k k'] deleted_at_names [of iview n k k'] deleted_at_names [of nview n k k']
  from deleteStorage_effect [OF assms(2)] None have
    "(deleted_at cview n k k' \<and> iview k' = iview k \<and> nview k' = nview k) \<or> (deleted_at iview n k k' \<and> cview k' = cview k \<and> nview k' = nview k)
     \<or> (deleted_at nview n k k' \<and> cview k' = cview k \<and> iview k' = iview k)" by (auto simp: cluster_deleted_def iscsi_deleted_def nfs_deleted_def)
  moreover have "V k' = V k \<Longrightarrow> names V k' = names V k" for V :: "'k \<Rightarrow> string \<times> string \<rightharpoonup> 'x k8s_obj" by (simp add: names_def)
  moreover have "cview k' = cview k \<Longrightarrow> cluster_types cview k' = cluster_types cview k" by (simp add: cluster_types_def fun_eq_iff)
  ultimately have "cluster_types cview k' \<subseteq>\<^sub>m cluster_types cview k \<and> names iview k' \<subseteq> names iview k \<and> names nview k' \<subseteq> names nview k"
    using le by (elim disjE conjE) (simp_all add: names_def)
  then show ?thesis using ok_less [OF assms(1)] by blast
next
  case (Some e)
  then show ?thesis using deleteStorage_effect [OF assms(2)] same_ok assms(1) by simp
qed

end

section \<open>Sequences of requests\<close>

datatype storage_request =
  CreateStorage "string option" "storage sub_ctx" | UpdateStorage "string option" "storage sub_ctx" | DeleteStorage "string option" "storage sub_ctx"

text \<open>An update that panics has not written anything.\<close>

fun serve_storage :: "'k storage_env \<Rightarrow> 'k kubes \<Rightarrow> storage_request \<Rightarrow> 'k kubes" where
  "serve_storage E ks (CreateStorage u ctx) = fst (storage_Create E u ctx ks)"
| "serve_storage E ks (UpdateStorage u ctx) = (case storage_Update E u ctx ks of Panicked p \<Rightarrow> ks | Done r \<Rightarrow> fst r)"
| "serve_storage E ks (DeleteStorage u ctx) = fst (storage_Delete E u ctx ks)"

context storage_server
begin

definition all_ok :: "'k kubes \<Rightarrow> bool" where
  "all_ok ks \<longleftrightarrow> (\<forall>c k. ks c = Some k \<longrightarrow> ok k)"

lemma all_ok_upd: "all_ok ks \<Longrightarrow> ok k' \<Longrightarrow> all_ok (ks(c \<mapsto> k'))"
  by (simp add: all_ok_def)

lemma all_ok_on_cluster:
  assumes "all_ok ks" "\<And>k k' r. ok k \<Longrightarrow> f k = (k', r) \<Longrightarrow> ok k'"
  shows "all_ok (fst (on_cluster ctx (\<lambda>k. answer err a (f k)) ks))"
proof (cases "ks (sx_cluster ctx)")
  case (Some k)
  obtain k' r where f: "f k = (k', r)" by force
  have "ok k'" using assms(1) assms(2) [OF _ f] Some by (simp add: all_ok_def)
  then show ?thesis using all_ok_upd [OF assms(1)] Some f by (cases r) (auto simp: on_cluster_def answer_def)
qed (use assms(1) in \<open>simp add: on_cluster_def\<close>)

lemma serve_storage_ok: "all_ok ks \<Longrightarrow> all_ok (serve_storage E ks q)"
proof (cases q)
  case (CreateStorage u ctx)
  assume ks: "all_ok ks"
  show ?thesis unfolding CreateStorage serve_storage.simps storage_Create_def Let_def
    by (cases "isAdmin (getCurrentUser u)") (use ks in \<open>auto simp only: simp_thms if_True if_False fst_conv intro!: all_ok_on_cluster elim: createStorage_ok\<close>)
next
  case (DeleteStorage u ctx)
  assume ks: "all_ok ks"
  show ?thesis unfolding DeleteStorage serve_storage.simps storage_Delete_def
    by (cases "isAdmin (getCurrentUser u)"; cases "ks (sx_cluster ctx) = None")
      (use ks in \<open>auto simp only: simp_thms if_True if_False fst_conv intro!: all_ok_on_cluster elim: deleteStorage_ok\<close>)
next
  case (UpdateStorage u ctx)
  assume ks: "all_ok ks"
  show ?thesis
  proof (cases "isAdmin (getCurrentUser u) \<and> ks (sx_cluster ctx) \<noteq> None")
    case True
    then obtain k where k: "ks (sx_cluster ctx) = Some k" "ok k" using ks by (auto simp: all_ok_def)
    show ?thesis
    proof (cases "updateStorage E (sx_resource ctx) k")
      case (Done r)
      obtain k' e where r: "r = (k', e)" by (cases r)
      have "ok k'" using updateStorage_ok [OF k(2)] Done r by simp
      then show ?thesis using UpdateStorage True k(1) Done r all_ok_upd [OF ks]
        by (cases e) (simp_all add: storage_Update_def answer_def Let_def)
    qed (use UpdateStorage True k ks in \<open>simp add: storage_Update_def\<close>)
  qed (use UpdateStorage ks in \<open>auto simp: storage_Update_def\<close>)
qed

lemma serve_all_ok: "all_ok ks \<Longrightarrow> all_ok (foldl (serve_storage E) ks qs)"
  by (induction qs arbitrary: ks) (simp_all add: serve_storage_ok)

lemma st_Type_shown [simp]:
  "st_Type (storageClusterToSCStorage c) = cb_StorageType (ko_body c)" "st_Type (iscsiToSCStorage i) = IscsiType" "st_Type (nfsToSCStorage n) = NfsType"
  by (simp_all add: storageClusterToSCStorage_def iscsiToSCStorage_def nfsToSCStorage_def with_status_def empty_storage_def Let_def)

lemma listed:
  assumes "getStorages E k = Inr sts" "st \<in> set sts"
  obtains n c where "cview k ('''', n) = Some c" "cb_StorageType (ko_body c) \<in> {LvmType, CephfsType}" "st = storageClusterToSCStorage c" "st_Name st = n"
  | n i where "iview k ('''', n) = Some i" "st = iscsiToSCStorage i" "st_Name st = n"
  | n f where "nview k ('''', n) = Some f" "st = nfsToSCStorage f" "st_Name st = n"
proof -
  obtain cs where cs: "kList (se_clusters E) '''' k = Inr cs" using cl.list_live by blast
  obtain js where js: "kList (se_iscsis E) '''' k = Inr js" using ic.list_live by blast
  obtain ns where ns: "kList (se_nfss E) '''' k = Inr ns" using nf.list_live by blast
  from assms cs js ns consider c where "c \<in> set cs" "cb_StorageType (ko_body c) \<in> {LvmType, CephfsType}" "st = storageClusterToSCStorage c"
    | i where "i \<in> set js" "st = iscsiToSCStorage i" | f where "f \<in> set ns" "st = nfsToSCStorage f"
    by (auto simp: getStorages_def storageHandles_def cluster_GetStorages_def iscsi_GetStorages_def nfs_GetStorages_def)
  then show thesis
  proof cases
    case (1 c)
    then obtain n where "cview k ('''', n) = Some c" using cl.list_view [OF cs] by auto
    with 1 cl.view_key [OF this] that(1) show thesis by simp
  next
    case (2 i)
    then obtain n where "iview k ('''', n) = Some i" using ic.list_view [OF js] by auto
    with 2 ic.view_key [OF this] that(2) show thesis by simp
  next
    case (3 f)
    then obtain n where "nview k ('''', n) = Some f" using nf.list_view [OF ns] by auto
    with 3 nf.view_key [OF this] that(3) show thesis by simp
  qed
qed

lemma listed_unique:
  assumes "ok k" "getStorages E k = Inr sts" "a \<in> set sts" "b \<in> set sts"
  shows "(st_Name a = st_Name b \<longrightarrow> a = b) \<and> (st_Type a = st_Type b \<and> st_Type a \<in> {LvmType, CephfsType} \<longrightarrow> a = b)"
proof -
  have disj: "cview k ('''', n) = Some c \<Longrightarrow> iview k ('''', n) = Some i \<Longrightarrow> False" "cview k ('''', n) = Some c \<Longrightarrow> nview k ('''', n) = Some f \<Longrightarrow> False"
    "iview k ('''', n) = Some i \<Longrightarrow> nview k ('''', n) = Some f \<Longrightarrow> False" for n c i f
    using assms(1) by (auto simp: storages_ok_def dom_types names_def)
  have type: "n = m" if "cview k ('''', n) = Some c" "cview k ('''', m) = Some d" "cb_StorageType (ko_body c) = cb_StorageType (ko_body d)" for n m c d
  proof -
    have "n \<in> dom (cluster_types cview k)" "m \<in> dom (cluster_types cview k)" "cluster_types cview k n = cluster_types cview k m"
      using that by (simp_all add: cluster_types_def domIff)
    moreover have "inj_on (cluster_types cview k) (dom (cluster_types cview k))" using assms(1) by (simp add: storages_ok_def)
    ultimately show ?thesis by (simp only: inj_on_eq_iff)
  qed
  have types: "\<not> (st_Type a = st_Type b \<and> st_Type a \<in> {LvmType, CephfsType})" if "st_Type a \<in> {IscsiType, NfsType} \<or> st_Type b \<in> {IscsiType, NfsType}"
    using that by auto
  from assms(2,3) show ?thesis
  proof (cases rule: listed)
    case a: (1 n c)
    from assms(2,4) show ?thesis
    proof (cases rule: listed)
      case b: (1 m d)
      have "st_Type a = st_Type b \<Longrightarrow> n = m" using type [OF a(1) b(1)] a(3) b(3) by simp
      moreover have "n = m \<Longrightarrow> a = b" using a(1,3) b(1,3) by simp
      ultimately show ?thesis using a(4) b(4) by blast
    next
      case b: (2 m i)
      have "st_Name a \<noteq> st_Name b" using disj(1) [of n c i] a b by (metis)
      moreover have "st_Type b = IscsiType" using b(2) by simp
      ultimately show ?thesis using types by blast
    next
      case b: (3 m f)
      have "st_Name a \<noteq> st_Name b" using disj(2) [of n c f] a b by (metis)
      moreover have "st_Type b = NfsType" using b(2) by simp
      ultimately show ?thesis using types by blast
    qed
  next
    case a: (2 n i)
    from assms(2,4) show ?thesis
    proof (cases rule: listed)
      case b: (1 m d)
      have "st_Name a \<noteq> st_Name b" using disj(1) [of n d i] a b by (metis)
      moreover have "st_Type a = IscsiType" using a(2) by simp
      ultimately show ?thesis using types by blast
    next
      case b: (2 m j)
      have "st_Name a = st_Name b \<Longrightarrow> a = b" using a b by simp
      moreover have "st_Type b = IscsiType" using b(2) by simp
      ultimately show ?thesis using types by blast
    next
      case b: (3 m f)
      have "st_Name a \<noteq> st_Name b" using disj(3) [of n i f] a b by (metis)
      moreover have "st_Type b = NfsType" using b(2) by simp
      ultimately show ?thesis using types by blast
    qed
  next
    case a: (3 n f)
    from assms(2,4) show ?thesis
    proof (cases rule: listed)
      case b: (1 m d)
      have "st_Name a \<noteq> st_Name b" using disj(2) [of n d f] a b by (metis)
      moreover have "st_Type a = NfsType" using a(2) by simp
      ultimately show ?thesis using types by blast
    next
      case b: (2 m i)
      have "st_Name a \<noteq> st_Name b" using disj(3) [of n i f] a b by (metis)
      moreover have "st_Type b = IscsiType" using b(2) by simp
      ultimately show ?thesis using types by blast
    next
      case b: (3 m g)
      have "st_Name a = st_Name b \<Longrightarrow> a = b" using a b by simp
      moreover have "st_Type b = NfsType" using b(2) by simp
      ultimately show ?thesis using types by blast
    qed
  qed
qed

end

section \<open>Sizes\<close>

text \<open>
  C39. Up to 64 TiB a size is shown in GiB rounded down to two decimals, exactly: none of the floating point
  operations on the way shows.
\<close>

theorem storage_sizes_round_down:
  assumes "0 \<le> num" "num < 2 ^ 46"
  shows "byteToGb num = fixed2 (num * 100 div 2 ^ 30)"
proof (cases "num = 0")
  case True
  have z: "float64 (0, d) = (0, 1)" for d by (simp add: float64_def)
  show ?thesis using True by (simp add: byteToGb_def float64_div_def z Let_def round_div_def)
next
  case False
  then have pos: "0 < num" using assms(1) by simp
  obtain p where p: "0 < p" "float64 (num, 1) = (num * p, p)" using float64_exact [of num] assms by auto
  define f where "f = float64_div (float64 (num, 1)) (1024 * 1024 * 1024, 1)"
  have f: "0 < snd f" "fst f * 2 ^ 30 = num * snd f"
  proof -
    have "f = float64 (num * p, p * 2 ^ 30)" by (simp add: f_def float64_div_def p(2))
    moreover have "num * p < p * 2 ^ 30 * 2 ^ 52" using assms(2) p(1) by simp
    moreover have "num * p * 2 ^ 30 = num * (p * 2 ^ 30)" by simp
    ultimately have "0 < snd f \<and> fst f * (p * 2 ^ 30) = num * p * snd f"
      using float64_dyadic [of "num * p" "p * 2 ^ 30" 30 num] pos p(1) assms(2) by simp
    then show "0 < snd f" "fst f * 2 ^ 30 = num * snd f" using p(1) by (auto simp: ac_simps)
  qed
  define g where "g = float64 (fst f * 100, snd f)"
  have ff: "0 < fst f" using f pos by (metis mult_pos_pos zero_less_mult_pos2 zero_less_numeral zero_less_power)
  have g: "0 < snd g" "fst g * snd f = fst f * 100 * snd g"
  proof -
    have "fst f * 100 * 2 ^ 30 = num * 100 * snd f" using f(2) by simp
    moreover have "fst f * 100 < snd f * 2 ^ 52"
    proof -
      have "fst f * 100 * 2 ^ 30 = num * 100 * snd f" by fact
      also have "\<dots> < 2 ^ 82 * snd f" using assms(2) f(1) by simp
      finally show ?thesis by simp
    qed
    ultimately have "0 < snd g \<and> fst g * snd f = fst f * 100 * snd g"
      using float64_dyadic [of "fst f * 100" "snd f" 30 "num * 100"] ff f(1) assms(2) by (simp add: g_def)
    then show "0 < snd g" "fst g * snd f = fst f * 100 * snd g" by simp_all
  qed
  have "fst g * 2 ^ 30 = num * 100 * snd g"
  proof -
    have "(fst g * 2 ^ 30) * snd f = (fst f * 2 ^ 30) * (100 * snd g)" using g(2) by simp
    also have "\<dots> = (num * 100 * snd g) * snd f" unfolding f(2) by (simp add: ac_simps)
    finally show ?thesis using f(1) by simp
  qed
  then have t: "fst g div snd g = num * 100 div 2 ^ 30"
    by (intro div_cross g(1)) simp_all
  have "num * 100 div 2 ^ 30 < 2 ^ 40" "0 \<le> num * 100 div 2 ^ 30" using assms by (simp_all add: pos_imp_zdiv_nonneg_iff)
  note shown = print_hundredths [OF this(2,1)]
  show ?thesis unfolding byteToGb_def Let_def abs_of_nonneg [OF assms(1)] f_def [symmetric] g_def [symmetric] t shown using assms(1) by simp
qed

theorem storage_sizes_round_down_witness: "byteToGb (2 ^ 30 + 2 ^ 29 - 1) = fixed2 149"
proof -
  have "(2 ^ 30 + 2 ^ 29 - 1) * 100 div 2 ^ 30 = (149 :: int)" by simp
  then show ?thesis using storage_sizes_round_down [of "2 ^ 30 + 2 ^ 29 - 1"] by simp
qed

section \<open>The properties\<close>



section \<open>A deletion that fails halfway\<close>

context storage_server
begin

lemma missing_secret:
  assumes "iview k ('''', n) = Some obj" "ic_Chap (ko_body obj)" "sview k (ZCloudNamespace, secret_name n) = None"
  shows "\<exists>e. iscsi_GetStorage E n k = Inl e"
proof -
  have "ko_name obj = n" using ic.view_key [OF assms(1)] by simp
  moreover obtain m where "kGet (se_secrets E) ZCloudNamespace (secret_name n) k = Inl (K8sNotFound m)" using sc.get_missing [OF assms(3)] by blast
  ultimately show ?thesis using ic.get_live [OF assms(1)] assms(2)
    by (simp add: iscsi_GetStorage_def iscsiToSCStorageDetail_def split: sum.splits)
qed

lemma stuck_get:
  assumes "iview k ('''', n) = Some obj" "ic_Chap (ko_body obj)" "sview k (ZCloudNamespace, secret_name n) = None"
    "cview k ('''', n) = None" "nview k ('''', n) = None"
  shows "\<exists>e. get_storage E storageHandles n k = Inl e"
proof -
  obtain e where "iscsi_GetStorage E n k = Inl e" using missing_secret [OF assms(1-3)] by blast
  moreover obtain a where "kGet (se_clusters E) '''' n k = Inl (K8sNotFound a)" using cl.get_missing [OF assms(4)] by blast
  moreover obtain b where "kGet (se_nfss E) '''' n k = Inl (K8sNotFound b)" using nf.get_missing [OF assms(5)] by blast
  ultimately show ?thesis by (simp add: storageHandles_def cluster_GetStorage_def nfs_GetStorage_def)
qed

lemma stuck_listed:
  assumes "iview k ('''', n) = Some obj"
  shows "\<exists>sts. getStorages E k = Inr sts \<and> n \<in> st_Name ` set sts"
proof -
  obtain cs where cs: "kList (se_clusters E) '''' k = Inr cs" using cl.list_live by blast
  obtain js where js: "kList (se_iscsis E) '''' k = Inr js" using ic.list_live by blast
  obtain ns where ns: "kList (se_nfss E) '''' k = Inr ns" using nf.list_live by blast
  have "n \<in> ko_name ` set js" using list_names [OF ic.kube_live_axioms js] assms by (simp add: names_def)
  then show ?thesis using cs js ns
    by (auto simp: getStorages_def storageHandles_def cluster_GetStorages_def iscsi_GetStorages_def nfs_GetStorages_def image_Un image_image)
qed

lemma stuck_update:
  assumes "iview k ('''', n) = Some obj" "ic_Chap (ko_body obj)" "sview k (ZCloudNamespace, secret_name n) = None"
    and st: "st_Name st = n" "st_Type st = IscsiType" "st_Iscsi st = Some p"
  shows "\<exists>k' e. updateStorage E st k = Done (k', Some e) \<and> same k k'"
proof -
  have name: "ko_name obj = n" using ic.view_key [OF assms(1)] by simp
  obtain m where m: "kGet (se_secrets E) ZCloudNamespace (secret_name n) k = Inl (K8sNotFound m)" using sc.get_missing [OF assms(3)] by blast
  obtain k1 r where d: "kDelete (se_secrets E) ZCloudNamespace (secret_name n) k = (k1, r)" by force
  then obtain e where r: "r = Some e" using sc.delete_view [of ZCloudNamespace "secret_name n" k k1] assms(3) by (cases r) auto
  have "\<exists>k' e. write_iscsi E n obj p b k = (k', Some e) \<and> same k k'" if "\<not> ip_Chap p" for b
    using that assms(2) name d r secrets_same(3) [OF d] by (auto simp: write_iscsi_def iscsi_changed_def change_secret_def Let_def)
  moreover have "chap_change E obj p k = Inl (K8sNotFound m)" if "ip_Chap p" using that assms(2) name m by (simp add: chap_change_def)
  moreover have "updateStorage E st k = iscsi_Update E st k" by (simp add: updateStorage_def getHandleFromType_def storageHandles_def st(2))
  ultimately show ?thesis using ic.get_live [OF assms(1)] st
    by (cases "ip_Chap p") (auto simp: iscsi_Update_def split: option.splits sum.splits)
qed

end

text \<open>
  The secret of an iSCSI storage goes before the storage. When the deletion fails after the secret is gone, the
  storage is listed and its name is taken, but it can be neither shown nor deleted nor updated.
\<close>

theorem iscsi_half_deleted_is_stuck:
  assumes laws: "storage_server E cview iview nview sview"
    and obj: "iview k ('''', n) = Some obj" "ic_Chap (ko_body obj)" "cview k ('''', n) = None" "nview k ('''', n) = None"
    and fails: "deleteStorage E n k = (k', Some e)" "sview k' (ZCloudNamespace, secret_name n) = None"
    and st: "st_Name st = n" "st_Type st = IscsiType" "st_Iscsi st = Some p"
  shows "(\<exists>sts. getStorages E k' = Inr sts \<and> n \<in> st_Name ` set sts) \<and> (\<exists>x. getStorage E n k' = Inl x) \<and> (\<exists>x. deleteStorage E n k' = (k', Some x))
    \<and> (\<exists>k2 x. updateStorage E st k' = Done (k2, Some x) \<and> iview k2 = iview k') \<and> (\<forall>t. \<exists>x. createStorage E (st\<lparr>st_Type := t\<rparr>) k' = (k', Some x))"
proof -
  have same: "cview k' = cview k" "iview k' = iview k" "nview k' = nview k"
    using storage_server.deleteStorage_effect [OF laws fails(1)] by (simp_all add: storage_server.same_def [OF laws])
  have obj': "iview k' ('''', n) = Some obj" "cview k' ('''', n) = None" "nview k' ('''', n) = None" using obj same by simp_all
  obtain x where get: "get_storage E storageHandles n k' = Inl x" using storage_server.stuck_get [OF laws, OF obj'(1) obj(2) fails(2) obj'(2,3)] by blast
  obtain sts where sts: "getStorages E k' = Inr sts" "n \<in> st_Name ` set sts" using storage_server.stuck_listed [OF laws, OF obj'(1)] by blast
  then have "checkStorageExist E n k' = Inr True" by (auto simp: checkStorageExist_def list_ex_iff)
  then have "\<exists>x. createStorage E (st\<lparr>st_Type := t\<rparr>) k' = (k', Some x)" for t using st(1) by (simp add: createStorage_def)
  moreover have "\<exists>k2 x. updateStorage E st k' = Done (k2, Some x) \<and> iview k2 = iview k'"
    using storage_server.stuck_update [OF laws, OF obj'(1) obj(2) fails(2) st] by (auto simp: storage_server.same_def [OF laws])
  ultimately show ?thesis using get sts by (simp add: getStorage_def deleteStorage_def)
qed

section \<open>An in-memory server\<close>

record mem_storage =
  ms_clusters :: "cluster_body mem_kube"
  ms_iscsis :: "iscsi_body mem_kube"
  ms_nfss :: "nfs_body mem_kube"
  ms_secrets :: "secret_body mem_kube"
  ms_nodes :: "node_body mem_kube"

definition mem_storage_env :: "mem_storage storage_env" where
  "mem_storage_env =
     \<lparr>se_clusters = lift_api ms_clusters (\<lambda>a k. k\<lparr>ms_clusters := a\<rparr>) mem_kube, se_iscsis = lift_api ms_iscsis (\<lambda>a k. k\<lparr>ms_iscsis := a\<rparr>) mem_kube,
      se_nfss = lift_api ms_nfss (\<lambda>a k. k\<lparr>ms_nfss := a\<rparr>) mem_kube, se_secrets = lift_api ms_secrets (\<lambda>a k. k\<lparr>ms_secrets := a\<rparr>) mem_kube,
      se_nodes = lift_api ms_nodes (\<lambda>a k. k\<lparr>ms_nodes := a\<rparr>) mem_kube, se_attachments = (\<lambda>k. Inr []), se_agentPVs = (\<lambda>n k. Inr []),
      se_agentDevices = (\<lambda>k. Inr []), se_busy = (\<lambda>p. p \<in> {''Creating'', ''Updating'', ''Deleting''}), se_prestop = ''storage.zcloud.cn/prestophook'',
      se_difference = (\<lambda>xs ys. filter (\<lambda>x. x \<notin> set ys) xs)\<rparr>"

lemma lift_api_keeps: "(\<And>a k. V (put a k) = V k) \<Longrightarrow> keeps (lift_api get put K) V"
  by (simp add: keeps_def lift_api_def split: prod.splits)

interpretation mem_storage: storage_server mem_storage_env "\<lambda>k. mem_view (ms_clusters k)" "\<lambda>k. mem_view (ms_iscsis k)" "\<lambda>k. mem_view (ms_nfss k)" "\<lambda>k. mem_view (ms_secrets k)"
proof -
  have "kube_live (se_clusters mem_storage_env) (\<lambda>k. mem_view (ms_clusters k)) cluster_kept"
    "kube_live (se_iscsis mem_storage_env) (\<lambda>k. mem_view (ms_iscsis k)) iscsi_kept"
    "kube_live (se_nfss mem_storage_env) (\<lambda>k. mem_view (ms_nfss k)) nfs_kept"
    "kube_live (se_secrets mem_storage_env) (\<lambda>k. mem_view (ms_secrets k)) secret_kept"
    by (simp_all add: mem_storage_env_def lift_api_live [OF mem_kube_kept])
  moreover have "storage_server_axioms mem_storage_env (\<lambda>k. mem_view (ms_clusters k)) (\<lambda>k. mem_view (ms_iscsis k)) (\<lambda>k. mem_view (ms_nfss k)) (\<lambda>k. mem_view (ms_secrets k))"
    by unfold_locales (simp_all add: mem_storage_env_def lift_api_keeps)
  ultimately show "storage_server mem_storage_env (\<lambda>k. mem_view (ms_clusters k)) (\<lambda>k. mem_view (ms_iscsis k)) (\<lambda>k. mem_view (ms_nfss k)) (\<lambda>k. mem_view (ms_secrets k))"
    by (simp add: storage_server_def)
qed

definition mem_storage0 :: mem_storage where
  "mem_storage0 = \<lparr>ms_clusters = [], ms_iscsis = [], ms_nfss = [], ms_secrets = [], ms_nodes = []\<rparr>"

definition sample_storage :: "string \<Rightarrow> string \<Rightarrow> storage sub_ctx" where
  "sample_storage name type =
     \<lparr>sx_cluster = ''c'', sx_namespace = '''', sx_resource =
        \<lparr>st_ID = name, st_CreationTimestamp = 0, st_DeletionTimestamp = None, st_Name = name, st_Type = type, st_Lvm = Some [], st_CephFs = Some [],
         st_Iscsi = None, st_Nfs = None, st_Default = False, st_Phase = '''', st_Size = '''', st_UsedSize = '''', st_FreeSize = '''', st_Nodes = [], st_PVs = []\<rparr>\<rparr>"

definition sample_cluster :: "string \<Rightarrow> string \<Rightarrow> (string \<times> string) \<times> cluster_body k8s_obj" where
  "sample_cluster name type = (('''', name), new_obj '''' name
     \<lparr>cb_Annotations = (if type = LvmType then [(StorageClassDefaultKey, ''true'')] else []), cb_Finalizers = [], cb_StorageType = type, cb_Hosts = [],
      cb_Status = no_status, cb_Config = []\<rparr>)"

lemma list_ex_sort [simp]: "list_ex P (sort_key f xs) = list_ex P xs"
  by (simp add: list_ex_iff)

lemmas storage_eval = serve_storage.simps storage_Create_def createStorage_def checkStorageExist_def getStorages_def storageHandles_def cluster_GetStorages_def
  iscsi_GetStorages_def nfs_GetStorages_def getHandleFromType_def cluster_Create_def createStorageCluster_def checkStorageClusterTypeExist_def
  isHostsValidate_def getBlockDevices_def cutInvalid_def on_cluster_def answer_def isAdmin_def getCurrentUser_def
  mem_storage_env_def lift_api_def mem_kube_def sample_storage_def sample_cluster_def new_obj_def Let_def

definition lvm_world :: mem_storage where
  "lvm_world = mem_storage0\<lparr>ms_clusters := [sample_cluster ''a'' LvmType]\<rparr>"

definition both_world :: mem_storage where
  "both_world = mem_storage0\<lparr>ms_clusters := [sample_cluster ''d'' CephfsType, sample_cluster ''a'' LvmType]\<rparr>"

lemma sample_served:
  "serve_storage mem_storage_env [''c'' \<mapsto> mem_storage0] (CreateStorage (Some Administrator) (sample_storage ''a'' LvmType)) = [''c'' \<mapsto> lvm_world]"
  "serve_storage mem_storage_env [''c'' \<mapsto> lvm_world] (CreateStorage (Some Administrator) (sample_storage ''b'' LvmType)) = [''c'' \<mapsto> lvm_world]"
  "serve_storage mem_storage_env [''c'' \<mapsto> lvm_world] (CreateStorage (Some Administrator) (sample_storage ''a'' CephfsType)) = [''c'' \<mapsto> lvm_world]"
  "serve_storage mem_storage_env [''c'' \<mapsto> lvm_world] (CreateStorage (Some Administrator) (sample_storage ''d'' CephfsType)) = [''c'' \<mapsto> both_world]"
  by (simp_all add: storage_eval mem_storage0_def lvm_world_def both_world_def at_key_def)

lemma both_listed: "\<exists>sts. getStorages mem_storage_env both_world = Inr sts \<and> st_Name ` set sts = {''a'', ''d''}"
  by (simp add: storage_eval mem_storage0_def both_world_def at_key_def insert_commute)

lemma empty_types: "cluster_types (\<lambda>k. mem_view (ms_clusters k)) mem_storage0 = Map.empty"
  by (simp add: cluster_types_def mem_storage0_def mem_view_def fun_eq_iff)



text \<open>The same server when it cannot delete iSCSI storages.\<close>

definition failing_env :: "mem_storage storage_env" where
  "failing_env = mem_storage_env\<lparr>se_iscsis := (se_iscsis mem_storage_env)\<lparr>kDelete := (\<lambda>ns n k. (k, Some (K8sOther ''timeout'')))\<rparr>\<rparr>"

lemma failing_delete_live:
  assumes "kube_live K V f"
  shows "kube_live (K\<lparr>kDelete := (\<lambda>ns n k. (k, Some e))\<rparr>) V f"
proof -
  have K: "kube_laws K V f" using assms by (simp add: kube_live_def)
  note rules = kube_laws.get_view [OF K] kube_laws.view_key [OF K] kube_laws.list_view [OF K] kube_laws.create_view [OF K] kube_laws.create_err [OF K]
    kube_laws.update_view [OF K] kube_laws.update_err [OF K] kube_live.get_live [OF assms] kube_live.get_missing [OF assms]
  show ?thesis
    by (unfold_locales; simp?; (erule rules [simplified] | rule kube_live.list_live [OF assms])?)
qed

interpretation failing: storage_server failing_env "\<lambda>k. mem_view (ms_clusters k)" "\<lambda>k. mem_view (ms_iscsis k)" "\<lambda>k. mem_view (ms_nfss k)" "\<lambda>k. mem_view (ms_secrets k)"
proof -
  have "kube_live (se_iscsis failing_env) (\<lambda>k. mem_view (ms_iscsis k)) iscsi_kept"
    unfolding failing_env_def by simp (rule failing_delete_live [OF mem_storage.ic.kube_live_axioms])
  moreover have "storage_server_axioms failing_env (\<lambda>k. mem_view (ms_clusters k)) (\<lambda>k. mem_view (ms_iscsis k)) (\<lambda>k. mem_view (ms_nfss k)) (\<lambda>k. mem_view (ms_secrets k))"
    by unfold_locales (simp_all add: failing_env_def mem_storage_env_def lift_api_keeps, simp_all add: keeps_def lift_api_def split: prod.splits)
  ultimately show "storage_server failing_env (\<lambda>k. mem_view (ms_clusters k)) (\<lambda>k. mem_view (ms_iscsis k)) (\<lambda>k. mem_view (ms_nfss k)) (\<lambda>k. mem_view (ms_secrets k))"
    using mem_storage.cl.kube_live_axioms mem_storage.nf.kube_live_axioms mem_storage.sc.kube_live_axioms
    by (simp add: storage_server_def failing_env_def)
qed

definition sample_iscsi :: iscsi_parameter where
  "sample_iscsi = \<lparr>ip_Targets = Some [''10.0.0.1''], ip_Port = ''3260'', ip_Iqn = ''iqn.a'', ip_Chap = True, ip_Username = ''u'', ip_Password = ''p'', ip_Initiators = Some [''node1'']\<rparr>"

definition iscsi_world :: mem_storage where
  "iscsi_world = mem_storage0
     \<lparr>ms_iscsis := [(('''', ''i''), new_obj '''' ''i'' \<lparr>ic_Finalizers = [], ic_Targets = ip_Targets sample_iscsi, ic_Port = ip_Port sample_iscsi,
        ic_Iqn = ip_Iqn sample_iscsi, ic_Chap = True, ic_Initiators = ip_Initiators sample_iscsi, ic_Status = no_status\<rparr>)],
      ms_secrets := [((ZCloudNamespace, secret_name ''i''), new_obj ZCloudNamespace (secret_name ''i'')
        \<lparr>sb_data = [(''username'', ''u''), (''password'', ''p'')], sb_type = ''Opaque''\<rparr>)]\<rparr>"

theorem iscsi_half_deleted_is_stuck_witness:
  "\<exists>k' e x y k2 z. deleteStorage failing_env ''i'' iscsi_world = (k', Some e) \<and> getStorage failing_env ''i'' k' = Inl x
    \<and> deleteStorage failing_env ''i'' k' = (k', Some y)
    \<and> updateStorage failing_env ((sx_resource (sample_storage ''i'' IscsiType))\<lparr>st_Iscsi := Some sample_iscsi\<rparr>) k' = Done (k2, Some z)"
proof -
  let ?k = "iscsi_world\<lparr>ms_secrets := []\<rparr>" and ?st = "(sx_resource (sample_storage ''i'' IscsiType))\<lparr>st_Iscsi := Some sample_iscsi\<rparr>"
  have d: "deleteStorage failing_env ''i'' iscsi_world = (?k, Some (K8sOther ''timeout''))"
    by (simp add: deleteStorage_def storageHandles_def cluster_GetStorage_def iscsi_GetStorage_def iscsiToSCStorageDetail_def with_detail_def iscsi_Delete_def
      failing_env_def mem_storage_env_def lift_api_def mem_kube_def mem_view_def iscsi_world_def mem_storage0_def new_obj_def no_status_def unused_def Let_def)
  have view: "mem_view (ms_iscsis iscsi_world) ('''', ''i'') = Some (at_key ('''', ''i'') (snd (hd (ms_iscsis iscsi_world))))"
    "ic_Chap (ko_body (at_key ('''', ''i'') (snd (hd (ms_iscsis iscsi_world)))))" "mem_view (ms_clusters iscsi_world) ('''', ''i'') = None"
    "mem_view (ms_nfss iscsi_world) ('''', ''i'') = None" "mem_view (ms_secrets ?k) (ZCloudNamespace, secret_name ''i'') = None"
    by (simp_all add: iscsi_world_def mem_storage0_def mem_view_def new_obj_def)
  have st: "st_Name ?st = ''i''" "st_Type ?st = IscsiType" "st_Iscsi ?st = Some sample_iscsi" by (simp_all add: sample_storage_def)
  from iscsi_half_deleted_is_stuck [OF failing.storage_server_axioms, OF view(1-4) d view(5) st] d show ?thesis by blast
qed

end
