(* ===== verification/Spec2Isabelle.thy ===== *)
theory Spec2Isabelle
  imports AuditLog ZkeProps ZkeLog EventWatcher UserManager KubeResources Access UserQuotaProps GlobalDns Threshold Jobs Hpa Ingress StorageProps
begin

text \<open>
  A verification library for singlecloud, the management server of Kubernetes clusters
  (\<^verbatim>\<open>github.com/zdnscloud/singlecloud\<close>).

  \<^bold>\<open>The program.\<close> One process serves a REST API (\<^verbatim>\<open>server\<close>, with the framework \<^verbatim>\<open>gorest\<close>). A request
  passes the authentication middleware (\<^verbatim>\<open>pkg/authentication\<close>: passwords with JSON web tokens or
  a CAS server, sessions in cookies), the authorization handler (\<^verbatim>\<open>pkg/handler/cluster_manager.go\<close>
  over \<^verbatim>\<open>pkg/authorization\<close>) and the audit log (\<^verbatim>\<open>pkg/auditlog\<close>), and reaches the handler of its
  resource (\<^verbatim>\<open>pkg/handler\<close>, resources in \<^verbatim>\<open>pkg/types\<close>). Clusters are created, updated and deleted in the
  background by \<^verbatim>\<open>pkg/zke\<close>, whose state machine announces changes on an event bus to the
  components that follow clusters (event streams, DNS, alarms). State that must survive a restart is
  kept in tables of the key-value store \<^verbatim>\<open>kvzoo\<close>; everything else is read from the API servers
  of the clusters.

  \<^bold>\<open>Layers.\<close> \<open>Prelude\<close> holds what the sources use of Go's standard library, errors, JSON
  documents and generic lemmas; \<open>GoNet\<close> Go's parsing of addresses, \<open>GoFloat\<close> its 64 bit integers
  and the printing of ratios. Third-party code is a parameter with laws: \<open>Kvzoo\<close> (tables; locales
  \<open>kv_laws\<close>, \<open>kv_live\<close>, interpreted by a table in memory and one on a full disk), \<open>Kube\<close> (API
  servers; \<open>kube_laws\<close>, \<open>kube_live\<close>, interpreted by a server in memory). \<open>CachedTable\<close> is the pattern of a
  map in memory backed by a table and the contract of a registry of users.

  \<^bold>\<open>Cluster manager\<close> (\<^verbatim>\<open>pkg/zke\<close>): \<open>ZkeTypes\<close> (resources and translations), \<open>ZkeFsm\<close> (the state
  machine), \<open>ZkeDb\<close> (its table), \<open>ZkeValidation\<close> (validation of configurations), \<open>ZkeCluster\<close> (one
  cluster), \<open>ZkeManager\<close> (handlers, callbacks, goroutines as pending workers, restart),
  \<open>ZkeSafety\<close> (the invariant of all reachable states), \<open>ZkeProps\<close> (its consequences: at most one
  worker for a cluster, a busy cluster has one, no handler panics, restart recovers the
  clusters; and two ways a cluster gets stuck).

  \<^bold>\<open>Logs and streams\<close>: \<open>SeqLog\<close> (bounded lists of numbered entries), \<open>ZkeLog\<close> (creation logs),
  \<open>EventWatcher\<close> (event streams), \<open>AuditLog\<close>.

  \<^bold>\<open>Users\<close>: \<open>Session\<close>, \<open>JwtAuth\<close>, \<open>CasAuth\<close>, \<open>Authn\<close> (middleware), \<open>Authorizer\<close> (grants),
  \<open>UserManager\<close> (the user resource and the authorization handler), \<open>UserQuota\<close> and
  \<open>UserQuotaProps\<close> (requests for namespaces: the workflow, its effects, and a way around the
  grants).

  \<^bold>\<open>Clusters, namespaces and nodes as resources\<close>: \<open>Access\<close> (\<^verbatim>\<open>cluster_manager.go\<close>,
  \<^verbatim>\<open>namespace_manager.go\<close>: what a user is shown is what it may use, and only the administrator changes
  it), \<open>Nodes\<close> (\<^verbatim>\<open>node_manager.go\<close>: cordon, drain and uncordon as a small state machine).

  \<^bold>\<open>Followers of clusters\<close>: \<open>GlobalDns\<close> (\<^verbatim>\<open>pkg/globaldns\<close>: the records served follow the nodes and
  ingresses of the clusters), \<open>Alarm\<close> (\<^verbatim>\<open>pkg/alarm\<close>: the bounded list of alarms, its listeners, mail and
  restart), \<open>Threshold\<close> (\<^verbatim>\<open>threshold_manager.go\<close>: limits that are spread to the clusters).

  \<^bold>\<open>Resources of a namespace\<close>: \<open>KubeResources\<close> (configuration maps, secrets, quotas, limit ranges);
  \<open>PodTemplate\<close> (\<^verbatim>\<open>podtemplate.go\<close>: pod templates made and shown, the claims created with them, all or
  none), \<open>Workload\<close> (what the workloads share), \<open>Deployment\<close> (with history and rollback), \<open>StatefulSet\<close>
  (stateful and daemon sets), \<open>Jobs\<close> (jobs and cron jobs), \<open>Hpa\<close> (\<^verbatim>\<open>hpa_manager.go\<close>: autoscalers and the
  rules of the metrics adapter, which stay in step), \<open>Ingress\<close> (\<^verbatim>\<open>service_manager.go\<close>,
  \<^verbatim>\<open>ingress_manager.go\<close>, \<^verbatim>\<open>udpingress_manager.go\<close>: services, sorted and grouped ingress rules, and the
  table of UDP ports kept in a configuration map). Each has the round trip from a request to what is shown
  afterwards, the behaviour of its errors, and the interface to the server as a locale
  (\<open>pod_claims\<close>, \<open>deploy_server\<close>, \<open>hpa_server\<close>, \<open>udp_server\<close>, \<open>net_server\<close>), interpreted by a server in
  memory.

  \<^bold>\<open>Storage of a cluster\<close>: \<open>Storage\<close> (\<^verbatim>\<open>storage_manage.go\<close> with the drivers \<^verbatim>\<open>lvm.go\<close>, \<^verbatim>\<open>cephfs.go\<close>,
  \<^verbatim>\<open>iscsi.go\<close>, \<^verbatim>\<open>nfs.go\<close>, and \<^verbatim>\<open>blockdevice_manager.go\<close>) and its properties in \<open>StorageProps\<close>: names are
  unique over the drivers and LVM and CephFS storages exist once at most, whatever requests are served;
  deletions are guarded; an iSCSI storage whose deletion fails halfway is stuck; sizes are shown rounded down,
  which needs the bounds on binary floating point of \<open>GoRound\<close>. The interface is the locale \<open>storage_server\<close>.

  \<^bold>\<open>Conventions.\<close> A handler is a function from the request and the state to the new state and an
  API error or an answer, with the messages of the source; panics are the value \<open>Panicked\<close>. A
  handler that holds a lock is one step; goroutines are explicit. Go maps are HOL maps, or
  association lists in the order of enumeration where the order is visible. Times are integers.
  Recursion is structural or has a measure; there is no fuel. Loops that wait for channels are
  step relations or rounds.

  \<^bold>\<open>Not modelled.\<close> Charts, applications, monitoring, registries and log collection, which render
  helm charts and configuration files with third-party libraries; workflows, which are translated to the objects
  of a build system; service meshes, taps, metrics and the networks, which pass on what the agent in a
  cluster answers; persistent volumes and the handling of claims by themselves; websockets, shells and
  streams of pod logs; start-up, configuration and generated documentation. The manifest lists each.
\<close>

end
